(* ===== verification/PD_Prelude.thy ===== *)
theory PD_Prelude imports
  Main
  "HOL-Library.Word"
begin

text \<open>
  Shared vocabulary of the development: the machine types the C++ sources use, the
  byte/character conversions, \<^theory_text>\<open>std::getline\<close> and tab splitting as list
  functions, decimal printing and parsing of unsigned integers, and the generic list
  lemmas the component theories rest on.
\<close>

unbundle bit_operations_syntax

section \<open>Types and collections of facts\<close>

type_synonym u8 = "8 word"
type_synonym u16 = "16 word"
type_synonym u32 = "32 word"
type_synonym u64 = "64 word"
type_synonym bytes = "u8 list"

text \<open>Facts about the journal codecs, about byte strings and about the job engine.\<close>

named_theorems codec_simps
named_theorems byte_simps
named_theorems engine_simps
named_theorems queue_simps

section \<open>Bytes and characters\<close>

text \<open>
  A \<^theory_text>\<open>std::string\<close> is a list of \<^theory_text>\<open>char\<close>, a payload a list of
  bytes. The sources move between the two with casts and iterator ranges.
\<close>

definition byte_of :: "char \<Rightarrow> u8" where
  "byte_of c = of_char c"

definition char_of_byte :: "u8 \<Rightarrow> char" where
  "char_of_byte b = char_of (unat b)"

abbreviation bytes_of :: "string \<Rightarrow> bytes" where
  "bytes_of s \<equiv> map byte_of s"

lemma unat_byte_of [simp]: "unat (byte_of c) = (of_char c :: nat)"
proof -
  have "byte_of c = word_of_nat (of_char c)"
    by (simp add: byte_of_def of_char_def)
  moreover have "(of_char c :: nat) < 256"
    by (simp add: of_char_def)
  ultimately show ?thesis by (simp add: unat_of_nat)
qed

lemma char_of_byte_of [simp, byte_simps]: "char_of_byte (byte_of c) = c"
  by (simp add: char_of_byte_def)

lemma byte_of_char_of_byte [simp, byte_simps]: "byte_of (char_of_byte b) = b"
proof -
  have "unat b < 256" using unsigned_less [of b] by simp
  then have "unat (byte_of (char_of_byte b)) = unat b"
    by (simp add: char_of_byte_def)
  then show ?thesis by (rule unsigned_word_eqI)
qed

lemma byte_of_inject [simp]: "byte_of c = byte_of d \<longleftrightarrow> c = d"
  by (metis char_of_byte_of)

lemma char_of_byte_inject [simp]: "char_of_byte a = char_of_byte b \<longleftrightarrow> a = b"
  by (metis byte_of_char_of_byte)

lemma bytes_of_inject [simp]: "bytes_of s = bytes_of t \<longleftrightarrow> s = t"
  by (simp add: inj_map_eq_map inj_def)

lemma map_char_of_bytes_of [simp, byte_simps]: "map char_of_byte (bytes_of s) = s"
  by (simp add: comp_def)

lemma bytes_of_map_char_of [simp, byte_simps]: "bytes_of (map char_of_byte b) = b"
  by (simp add: comp_def)

section \<open>Lines and fields\<close>

text \<open>The control characters the text formats give a meaning to.\<close>

definition TAB :: char where "TAB = CHR 0x09"
definition NL :: char where "NL = CHR 0x0A"
definition CR :: char where "CR = CHR 0x0D"
definition BSL :: char where "BSL = CHR 0x5C"

lemmas ctrl_defs = TAB_def NL_def CR_def BSL_def

text \<open>
  The lines a \<^theory_text>\<open>while (std::getline(input, line))\<close> loop sees: a terminated line
  even when it is empty, and an unterminated last line only when it is not.
\<close>

fun getlines_go :: "string \<Rightarrow> string \<Rightarrow> string list" where
  "getlines_go cur [] = (if cur = [] then [] else [cur])"
| "getlines_go cur (c # cs) =
     (if c = NL then cur # getlines_go [] cs else getlines_go (cur @ [c]) cs)"

definition getlines :: "string \<Rightarrow> string list" where
  "getlines s = getlines_go [] s"

lemma getlines_go_line:
  "NL \<notin> set l \<Longrightarrow> getlines_go cur (l @ NL # rest) = (cur @ l) # getlines_go [] rest"
  by (induction l arbitrary: cur) auto

lemma getlines_go_last:
  "NL \<notin> set l \<Longrightarrow> getlines_go cur l = (if cur @ l = [] then [] else [cur @ l])"
  by (induction l arbitrary: cur) auto

lemma getlines_Nil [simp]: "getlines [] = []"
  by (simp add: getlines_def)

lemma getlines_line [simp]:
  "NL \<notin> set l \<Longrightarrow> getlines (l @ NL # rest) = l # getlines rest"
  by (simp add: getlines_def getlines_go_line)

lemma getlines_last:
  "NL \<notin> set l \<Longrightarrow> getlines l = (if l = [] then [] else [l])"
  by (simp add: getlines_def getlines_go_last)

text \<open>A text whose every line is terminated, and how one more line extends it.\<close>

definition terminated :: "string \<Rightarrow> bool" where
  "terminated s \<longleftrightarrow> s = [] \<or> last s = NL"

lemma terminated_Nil [simp]: "terminated []"
  by (simp add: terminated_def)

lemma terminated_snoc [simp]: "terminated (s @ [NL])"
  by (simp add: terminated_def)

lemma terminated_append:
  "terminated a \<Longrightarrow> terminated b \<Longrightarrow> terminated (a @ b)"
  by (cases "b = []") (auto simp: terminated_def)

lemma getlines_go_append:
  "last (cur @ a) = NL \<Longrightarrow> NL \<notin> set cur \<Longrightarrow> a \<noteq> [] \<Longrightarrow>
   getlines_go cur (a @ b) = getlines_go cur a @ getlines_go [] b"
proof (induction cur a rule: getlines_go.induct)
  case (1 cur)
  then show ?case by simp
next
  case (2 cur c cs)
  show ?case
  proof (cases "c = NL")
    case True
    then show ?thesis using 2 by (cases "cs = []") auto
  next
    case False
    then show ?thesis using 2 by (cases "cs = []") auto
  qed
qed

lemma getlines_append:
  "terminated a \<Longrightarrow> getlines (a @ b) = getlines a @ getlines b"
  by (cases "a = []") (auto simp: getlines_def terminated_def getlines_go_append)

text \<open>Joining fields with a separator, the inverse of splitting at it.\<close>

fun join_with :: "'a \<Rightarrow> 'a list list \<Rightarrow> 'a list" where
  "join_with s [] = []"
| "join_with s [f] = f"
| "join_with s (f # fs) = f @ s # join_with s fs"

lemma join_with_Cons [simp]:
  "fs \<noteq> [] \<Longrightarrow> join_with s (f # fs) = f @ s # join_with s fs"
  by (cases fs) auto

lemma set_join_with:
  "set (join_with s fs) \<subseteq> insert s (\<Union>f \<in> set fs. set f)"
  by (induction s fs rule: join_with.induct) auto

end
