(* ===== verification/PD_Types.thy ===== *)
theory PD_Types imports
  PD_Prelude
begin

text \<open>
  The closed enumerations of \<^verbatim>\<open>core/include/printerdriver/types.hpp\<close>, their
  spellings (\<^verbatim>\<open>to_string\<close> in \<^verbatim>\<open>core/src/types.cpp\<close>), the enumeration arrays, and
  the result and event records of a job. Constructors carry a prefix per enumeration,
  because the sources reuse member names across enumerations. \<^theory_text>\<open>parse_enum\<close> is the
  lookup the journal uses to read a spelling back; the lemmas state that it inverts
  every spelling and that the confidence ladder is a linear order.
\<close>

section \<open>Enumerations\<close>

datatype job_state =
    JS_Queued
  | JS_PreflightOk
  | JS_SendStarted
  | JS_BytesSent
  | JS_PrintConfirmed
  | JS_CutCommandProcessed
  | JS_DoneSoftware
  | JS_PhysicallyVerified
  | JS_FailedKnown
  | JS_Unknown
  | JS_HeldOffline

datatype confidence_level =
    CL_TransportAccepted
  | CL_PrinterHealthy
  | CL_PrintConfirmed
  | CL_CutProcessed
  | CL_CutFaultFree
  | CL_PhysicallyVerified

datatype device_event =
    DE_Online
  | DE_Offline
  | DE_CoverOpen
  | DE_CoverClosed
  | DE_PaperOut
  | DE_PaperNearEnd
  | DE_PaperOk
  | DE_CutterError
  | DE_RecoverableError
  | DE_UnrecoverableError
  | DE_ConnectionLost
  | DE_ConnectionRestored
  | DE_ForeignWriterDetected

datatype failure_reason =
    FR_None
  | FR_TransportUnreachable
  | FR_PreflightCoverOpen
  | FR_PreflightPaperOut
  | FR_PreflightHardwareError
  | FR_TimeoutAwaitingCompletion
  | FR_CutterFault
  | FR_Unsupported
  | FR_Unknown
  | FR_Expired
  | FR_QueueOverflow

datatype job_outcome =
    JO_Done
  | JO_Failed
  | JO_Unknown

datatype confidence_grade =
    CG_APlus_DurableQueryableJob
  | CG_A_JobLevelConfirmation
  | CG_B_OrderedDeviceResponse
  | CG_C_DeviceStatusAround
  | CG_D_SpoolerCompleted
  | CG_E_TransportOnly

datatype provenance =
    PV_Documented
  | PV_Probed
  | PV_Unverified

datatype completion_authority =
    CA_PhysicalPrinter
  | CA_VendorSpooler
  | CA_PdAgent
  | CA_PrintServer
  | CA_TransportOnly

section \<open>The arrays of all members\<close>

definition kAllJobStates :: "job_state list" where
  "kAllJobStates =
     [JS_Queued, JS_PreflightOk, JS_SendStarted,
      JS_BytesSent, JS_PrintConfirmed, JS_CutCommandProcessed,
      JS_DoneSoftware, JS_PhysicallyVerified, JS_FailedKnown,
      JS_Unknown, JS_HeldOffline]"

definition kAllConfidenceLevels :: "confidence_level list" where
  "kAllConfidenceLevels =
     [CL_TransportAccepted, CL_PrinterHealthy, CL_PrintConfirmed,
      CL_CutProcessed, CL_CutFaultFree, CL_PhysicallyVerified]"

definition kAllDeviceEvents :: "device_event list" where
  "kAllDeviceEvents =
     [DE_Online, DE_Offline, DE_CoverOpen,
      DE_CoverClosed, DE_PaperOut, DE_PaperNearEnd,
      DE_PaperOk, DE_CutterError, DE_RecoverableError,
      DE_UnrecoverableError, DE_ConnectionLost, DE_ConnectionRestored,
      DE_ForeignWriterDetected]"

definition kAllFailureReasons :: "failure_reason list" where
  "kAllFailureReasons =
     [FR_None, FR_TransportUnreachable, FR_PreflightCoverOpen,
      FR_PreflightPaperOut, FR_PreflightHardwareError, FR_TimeoutAwaitingCompletion,
      FR_CutterFault, FR_Unsupported, FR_Unknown,
      FR_Expired, FR_QueueOverflow]"

definition kAllJobOutcomes :: "job_outcome list" where
  "kAllJobOutcomes =
     [JO_Done, JO_Failed, JO_Unknown]"

definition kAllConfidenceGrades :: "confidence_grade list" where
  "kAllConfidenceGrades =
     [CG_APlus_DurableQueryableJob, CG_A_JobLevelConfirmation, CG_B_OrderedDeviceResponse,
      CG_C_DeviceStatusAround, CG_D_SpoolerCompleted, CG_E_TransportOnly]"

definition kAllProvenances :: "provenance list" where
  "kAllProvenances =
     [PV_Documented, PV_Probed, PV_Unverified]"

definition kAllCompletionAuthorities :: "completion_authority list" where
  "kAllCompletionAuthorities =
     [CA_PhysicalPrinter, CA_VendorSpooler, CA_PdAgent,
      CA_PrintServer, CA_TransportOnly]"

section \<open>Spellings\<close>

fun job_state_name :: "job_state \<Rightarrow> string" where
  "job_state_name JS_Queued = ''Queued''"
| "job_state_name JS_PreflightOk = ''PreflightOk''"
| "job_state_name JS_SendStarted = ''SendStarted''"
| "job_state_name JS_BytesSent = ''BytesSent''"
| "job_state_name JS_PrintConfirmed = ''PrintConfirmed''"
| "job_state_name JS_CutCommandProcessed = ''CutCommandProcessed''"
| "job_state_name JS_DoneSoftware = ''DoneSoftware''"
| "job_state_name JS_PhysicallyVerified = ''PhysicallyVerified''"
| "job_state_name JS_FailedKnown = ''FailedKnown''"
| "job_state_name JS_Unknown = ''Unknown''"
| "job_state_name JS_HeldOffline = ''HeldOffline''"

fun confidence_level_name :: "confidence_level \<Rightarrow> string" where
  "confidence_level_name CL_TransportAccepted = ''TransportAccepted''"
| "confidence_level_name CL_PrinterHealthy = ''PrinterHealthy''"
| "confidence_level_name CL_PrintConfirmed = ''PrintConfirmed''"
| "confidence_level_name CL_CutProcessed = ''CutProcessed''"
| "confidence_level_name CL_CutFaultFree = ''CutFaultFree''"
| "confidence_level_name CL_PhysicallyVerified = ''PhysicallyVerified''"

fun device_event_name :: "device_event \<Rightarrow> string" where
  "device_event_name DE_Online = ''Online''"
| "device_event_name DE_Offline = ''Offline''"
| "device_event_name DE_CoverOpen = ''CoverOpen''"
| "device_event_name DE_CoverClosed = ''CoverClosed''"
| "device_event_name DE_PaperOut = ''PaperOut''"
| "device_event_name DE_PaperNearEnd = ''PaperNearEnd''"
| "device_event_name DE_PaperOk = ''PaperOk''"
| "device_event_name DE_CutterError = ''CutterError''"
| "device_event_name DE_RecoverableError = ''RecoverableError''"
| "device_event_name DE_UnrecoverableError = ''UnrecoverableError''"
| "device_event_name DE_ConnectionLost = ''ConnectionLost''"
| "device_event_name DE_ConnectionRestored = ''ConnectionRestored''"
| "device_event_name DE_ForeignWriterDetected = ''ForeignWriterDetected''"

fun failure_reason_name :: "failure_reason \<Rightarrow> string" where
  "failure_reason_name FR_None = ''None''"
| "failure_reason_name FR_TransportUnreachable = ''TransportUnreachable''"
| "failure_reason_name FR_PreflightCoverOpen = ''PreflightCoverOpen''"
| "failure_reason_name FR_PreflightPaperOut = ''PreflightPaperOut''"
| "failure_reason_name FR_PreflightHardwareError = ''PreflightHardwareError''"
| "failure_reason_name FR_TimeoutAwaitingCompletion = ''TimeoutAwaitingCompletion''"
| "failure_reason_name FR_CutterFault = ''CutterFault''"
| "failure_reason_name FR_Unsupported = ''Unsupported''"
| "failure_reason_name FR_Unknown = ''Unknown''"
| "failure_reason_name FR_Expired = ''Expired''"
| "failure_reason_name FR_QueueOverflow = ''QueueOverflow''"

fun job_outcome_name :: "job_outcome \<Rightarrow> string" where
  "job_outcome_name JO_Done = ''Done''"
| "job_outcome_name JO_Failed = ''Failed''"
| "job_outcome_name JO_Unknown = ''Unknown''"

fun confidence_grade_name :: "confidence_grade \<Rightarrow> string" where
  "confidence_grade_name CG_APlus_DurableQueryableJob = ''APlus_DurableQueryableJob''"
| "confidence_grade_name CG_A_JobLevelConfirmation = ''A_JobLevelConfirmation''"
| "confidence_grade_name CG_B_OrderedDeviceResponse = ''B_OrderedDeviceResponse''"
| "confidence_grade_name CG_C_DeviceStatusAround = ''C_DeviceStatusAround''"
| "confidence_grade_name CG_D_SpoolerCompleted = ''D_SpoolerCompleted''"
| "confidence_grade_name CG_E_TransportOnly = ''E_TransportOnly''"

fun provenance_name :: "provenance \<Rightarrow> string" where
  "provenance_name PV_Documented = ''Documented''"
| "provenance_name PV_Probed = ''Probed''"
| "provenance_name PV_Unverified = ''Unverified''"

fun completion_authority_name :: "completion_authority \<Rightarrow> string" where
  "completion_authority_name CA_PhysicalPrinter = ''PhysicalPrinter''"
| "completion_authority_name CA_VendorSpooler = ''VendorSpooler''"
| "completion_authority_name CA_PdAgent = ''PdAgent''"
| "completion_authority_name CA_PrintServer = ''PrintServer''"
| "completion_authority_name CA_TransportOnly = ''TransportOnly''"

fun gradeLetter :: "confidence_grade \<Rightarrow> string" where
  "gradeLetter CG_APlus_DurableQueryableJob = ''A+''"
| "gradeLetter CG_A_JobLevelConfirmation = ''A''"
| "gradeLetter CG_B_OrderedDeviceResponse = ''B''"
| "gradeLetter CG_C_DeviceStatusAround = ''C''"
| "gradeLetter CG_D_SpoolerCompleted = ''D''"
| "gradeLetter CG_E_TransportOnly = ''E''"

text \<open>
  \<^verbatim>\<open>parseEnum\<close> of \<^verbatim>\<open>core/src/job_store.cpp\<close>: the first member whose spelling is the
  text; None where the sources return false.
\<close>

fun parse_enum :: "('a \<Rightarrow> string) \<Rightarrow> 'a list \<Rightarrow> string \<Rightarrow> 'a option" where
  "parse_enum name [] text = None"
| "parse_enum name (v # vs) text = (if text = name v then Some v else parse_enum name vs text)"

section \<open>Results and events of a job\<close>

record job_evidence =
  ev_grade :: confidence_grade
  ev_authority :: completion_authority
  ev_method :: string

definition default_evidence :: job_evidence where
  "default_evidence =
     \<lparr>ev_grade = CG_E_TransportOnly, ev_authority = CA_TransportOnly, ev_method = ''none''\<rparr>"

record job_result =
  jr_outcome :: job_outcome
  jr_confidence :: confidence_level
  jr_reason :: failure_reason
  jr_grade :: confidence_grade
  jr_authority :: completion_authority
  jr_method :: string

definition mk_result ::
    "job_outcome \<Rightarrow> confidence_level \<Rightarrow> failure_reason \<Rightarrow> job_result" where
  "mk_result oc conf reason =
     \<lparr>jr_outcome = oc, jr_confidence = conf, jr_reason = reason,
      jr_grade = CG_E_TransportOnly, jr_authority = CA_TransportOnly, jr_method = ''none''\<rparr>"

definition result_done :: "confidence_level \<Rightarrow> job_result" where
  "result_done conf = mk_result JO_Done conf FR_None"

definition result_failed :: "failure_reason \<Rightarrow> confidence_level \<Rightarrow> job_result" where
  "result_failed reason reached = mk_result JO_Failed reached reason"

definition result_unknown :: "confidence_level \<Rightarrow> job_result" where
  "result_unknown reached = mk_result JO_Unknown reached FR_Unknown"

definition result_with :: "job_evidence \<Rightarrow> job_result \<Rightarrow> job_result" where
  "result_with e r =
     r\<lparr>jr_grade := ev_grade e, jr_authority := ev_authority e, jr_method := ev_method e\<rparr>"

text \<open>An event a job's subscribers see; the monotonic time stamp is not modelled.\<close>

record job_event =
  je_state :: job_state
  je_confidence :: confidence_level
  je_reason :: "failure_reason option"

definition make_event ::
    "job_state \<Rightarrow> confidence_level \<Rightarrow> failure_reason option \<Rightarrow> job_event" where
  "make_event s c r = \<lparr>je_state = s, je_confidence = c, je_reason = r\<rparr>"

section \<open>The confidence ladder\<close>

text \<open>\<^verbatim>\<open>rank\<close> of \<^verbatim>\<open>core/src/driver.cpp\<close>: the position on the ladder.\<close>

fun rank :: "confidence_level \<Rightarrow> nat" where

  "rank CL_TransportAccepted = 0"
| "rank CL_PrinterHealthy = 1"
| "rank CL_PrintConfirmed = 2"
| "rank CL_CutProcessed = 3"
| "rank CL_CutFaultFree = 4"
| "rank CL_PhysicallyVerified = 5"

lemma rank_inject [simp]: "rank a = rank b \<longleftrightarrow> a = b"
  by (cases a; cases b) simp_all

instantiation confidence_level :: linorder
begin

definition less_eq_confidence_level :: "confidence_level \<Rightarrow> confidence_level \<Rightarrow> bool" where
  "less_eq_confidence_level a b \<longleftrightarrow> rank a \<le> rank b"

definition less_confidence_level :: "confidence_level \<Rightarrow> confidence_level \<Rightarrow> bool" where
  "less_confidence_level a b \<longleftrightarrow> rank a < rank b"

instance
  by standard (auto simp: less_eq_confidence_level_def less_confidence_level_def)

end

lemmas level_order = less_eq_confidence_level_def less_confidence_level_def

text \<open>\<^verbatim>\<open>raise\<close> and \<^verbatim>\<open>clampTo\<close> of \<^verbatim>\<open>core/src/driver.cpp\<close>.\<close>

definition raise_to :: "confidence_level \<Rightarrow> confidence_level \<Rightarrow> confidence_level" where
  "raise_to floor lvl = (if rank lvl > rank floor then lvl else floor)"

definition clamp_to :: "confidence_level \<Rightarrow> confidence_level \<Rightarrow> confidence_level" where
  "clamp_to lvl ceiling = (if rank lvl > rank ceiling then ceiling else lvl)"

lemma raise_to_max: "raise_to a b = max a b"
  by (auto simp: raise_to_def max_def level_order)

lemma clamp_to_min: "clamp_to a b = min a b"
  by (auto simp: clamp_to_def min_def level_order)

section \<open>Spellings are read back\<close>

lemma parse_enum_name:
  "v \<in> set vs \<Longrightarrow> inj_on name (set vs) \<Longrightarrow> parse_enum name vs (name v) = Some v"
  by (induction vs) (auto simp: inj_on_def)

lemma parse_enum_Some: "parse_enum name vs text = Some v \<Longrightarrow> text = name v"
  by (induction vs) (auto split: if_splits)

lemma job_state_name_inject [simp]: "job_state_name a = job_state_name b \<longleftrightarrow> a = b"
  by (cases a; cases b) simp_all

lemma kAllJobStates_complete [simp]: "x \<in> set kAllJobStates"
  by (cases x) (simp_all add: kAllJobStates_def)

lemma parse_job_state_name [codec_simps]: "parse_enum job_state_name kAllJobStates (job_state_name x) = Some x"
  by (rule parse_enum_name) (simp_all add: inj_on_def)

lemma confidence_level_name_inject [simp]: "confidence_level_name a = confidence_level_name b \<longleftrightarrow> a = b"
  by (cases a; cases b) simp_all

lemma kAllConfidenceLevels_complete [simp]: "x \<in> set kAllConfidenceLevels"
  by (cases x) (simp_all add: kAllConfidenceLevels_def)

lemma parse_confidence_level_name [codec_simps]: "parse_enum confidence_level_name kAllConfidenceLevels (confidence_level_name x) = Some x"
  by (rule parse_enum_name) (simp_all add: inj_on_def)

lemma device_event_name_inject [simp]: "device_event_name a = device_event_name b \<longleftrightarrow> a = b"
  by (cases a; cases b) simp_all

lemma kAllDeviceEvents_complete [simp]: "x \<in> set kAllDeviceEvents"
  by (cases x) (simp_all add: kAllDeviceEvents_def)

lemma parse_device_event_name [codec_simps]: "parse_enum device_event_name kAllDeviceEvents (device_event_name x) = Some x"
  by (rule parse_enum_name) (simp_all add: inj_on_def)

lemma failure_reason_name_inject [simp]: "failure_reason_name a = failure_reason_name b \<longleftrightarrow> a = b"
  by (cases a; cases b) simp_all

lemma kAllFailureReasons_complete [simp]: "x \<in> set kAllFailureReasons"
  by (cases x) (simp_all add: kAllFailureReasons_def)

lemma parse_failure_reason_name [codec_simps]: "parse_enum failure_reason_name kAllFailureReasons (failure_reason_name x) = Some x"
  by (rule parse_enum_name) (simp_all add: inj_on_def)

lemma job_outcome_name_inject [simp]: "job_outcome_name a = job_outcome_name b \<longleftrightarrow> a = b"
  by (cases a; cases b) simp_all

lemma kAllJobOutcomes_complete [simp]: "x \<in> set kAllJobOutcomes"
  by (cases x) (simp_all add: kAllJobOutcomes_def)

lemma parse_job_outcome_name [codec_simps]: "parse_enum job_outcome_name kAllJobOutcomes (job_outcome_name x) = Some x"
  by (rule parse_enum_name) (simp_all add: inj_on_def)

lemma confidence_grade_name_inject [simp]: "confidence_grade_name a = confidence_grade_name b \<longleftrightarrow> a = b"
  by (cases a; cases b) simp_all

lemma kAllConfidenceGrades_complete [simp]: "x \<in> set kAllConfidenceGrades"
  by (cases x) (simp_all add: kAllConfidenceGrades_def)

lemma parse_confidence_grade_name [codec_simps]: "parse_enum confidence_grade_name kAllConfidenceGrades (confidence_grade_name x) = Some x"
  by (rule parse_enum_name) (simp_all add: inj_on_def)

lemma provenance_name_inject [simp]: "provenance_name a = provenance_name b \<longleftrightarrow> a = b"
  by (cases a; cases b) simp_all

lemma kAllProvenances_complete [simp]: "x \<in> set kAllProvenances"
  by (cases x) (simp_all add: kAllProvenances_def)

lemma parse_provenance_name [codec_simps]: "parse_enum provenance_name kAllProvenances (provenance_name x) = Some x"
  by (rule parse_enum_name) (simp_all add: inj_on_def)

lemma completion_authority_name_inject [simp]: "completion_authority_name a = completion_authority_name b \<longleftrightarrow> a = b"
  by (cases a; cases b) simp_all

lemma kAllCompletionAuthorities_complete [simp]: "x \<in> set kAllCompletionAuthorities"
  by (cases x) (simp_all add: kAllCompletionAuthorities_def)

lemma parse_completion_authority_name [codec_simps]: "parse_enum completion_authority_name kAllCompletionAuthorities (completion_authority_name x) = Some x"
  by (rule parse_enum_name) (simp_all add: inj_on_def)

text \<open>No spelling contains a character the journal gives a meaning to.\<close>

lemma job_state_name_plain [codec_simps]:
  "TAB \<notin> set (job_state_name x)" "NL \<notin> set (job_state_name x)" "BSL \<notin> set (job_state_name x)" "CR \<notin> set (job_state_name x)"
  by (cases x; simp add: ctrl_defs)+

lemma confidence_level_name_plain [codec_simps]:
  "TAB \<notin> set (confidence_level_name x)" "NL \<notin> set (confidence_level_name x)" "BSL \<notin> set (confidence_level_name x)" "CR \<notin> set (confidence_level_name x)"
  by (cases x; simp add: ctrl_defs)+

lemma device_event_name_plain [codec_simps]:
  "TAB \<notin> set (device_event_name x)" "NL \<notin> set (device_event_name x)" "BSL \<notin> set (device_event_name x)" "CR \<notin> set (device_event_name x)"
  by (cases x; simp add: ctrl_defs)+

lemma failure_reason_name_plain [codec_simps]:
  "TAB \<notin> set (failure_reason_name x)" "NL \<notin> set (failure_reason_name x)" "BSL \<notin> set (failure_reason_name x)" "CR \<notin> set (failure_reason_name x)"
  by (cases x; simp add: ctrl_defs)+

lemma job_outcome_name_plain [codec_simps]:
  "TAB \<notin> set (job_outcome_name x)" "NL \<notin> set (job_outcome_name x)" "BSL \<notin> set (job_outcome_name x)" "CR \<notin> set (job_outcome_name x)"
  by (cases x; simp add: ctrl_defs)+

lemma confidence_grade_name_plain [codec_simps]:
  "TAB \<notin> set (confidence_grade_name x)" "NL \<notin> set (confidence_grade_name x)" "BSL \<notin> set (confidence_grade_name x)" "CR \<notin> set (confidence_grade_name x)"
  by (cases x; simp add: ctrl_defs)+

lemma provenance_name_plain [codec_simps]:
  "TAB \<notin> set (provenance_name x)" "NL \<notin> set (provenance_name x)" "BSL \<notin> set (provenance_name x)" "CR \<notin> set (provenance_name x)"
  by (cases x; simp add: ctrl_defs)+

lemma completion_authority_name_plain [codec_simps]:
  "TAB \<notin> set (completion_authority_name x)" "NL \<notin> set (completion_authority_name x)" "BSL \<notin> set (completion_authority_name x)" "CR \<notin> set (completion_authority_name x)"
  by (cases x; simp add: ctrl_defs)+

end
