(* ===== verification/Line_Journal.thy ===== *)
theory Line_Journal imports
  PD_Prelude
begin

text \<open>
  The contract of the two line-oriented files of the core, the job journal and the drawer
  polarity file: a record is written as one line, a line that does not parse is skipped,
  and a file is the concatenation of its records' lines. The locale derives what loading a
  file gives back, also when the last line was torn by a crash.
\<close>

section \<open>Reading a file of lines\<close>

text \<open>The records of the lines that parse, in order.\<close>

definition read_lines :: "(string \<Rightarrow> 'r option) \<Rightarrow> string \<Rightarrow> 'r list" where
  "read_lines dec s = List.map_filter dec (getlines s)"

definition write_lines :: "('r \<Rightarrow> string) \<Rightarrow> 'r list \<Rightarrow> string" where
  "write_lines enc rs = concat (map (\<lambda>r. enc r @ [NL]) rs)"

lemma write_lines_Nil [simp]: "write_lines enc [] = []"
  by (simp add: write_lines_def)

lemma write_lines_Cons: "write_lines enc (r # rs) = enc r @ NL # write_lines enc rs"
  by (simp add: write_lines_def)

lemma write_lines_append:
  "write_lines enc (rs @ ss) = write_lines enc rs @ write_lines enc ss"
  by (simp add: write_lines_def)

lemma terminated_write_lines [simp]: "terminated (write_lines enc rs)"
  by (induction rs rule: rev_induct) (simp_all add: write_lines_append write_lines_Cons terminated_def)

lemma read_lines_Nil [simp]: "read_lines dec [] = []"
  by (simp add: read_lines_def map_filter_simps)

lemma read_lines_line:
  "NL \<notin> set l \<Longrightarrow> read_lines dec (l @ NL # rest) =
     (case dec l of None \<Rightarrow> read_lines dec rest | Some r \<Rightarrow> r # read_lines dec rest)"
  by (simp add: read_lines_def map_filter_simps split: option.split)

lemma map_filter_append:
  "List.map_filter f (xs @ ys) = List.map_filter f xs @ List.map_filter f ys"
  by (simp add: List.map_filter_def)

lemma read_lines_append:
  "terminated s \<Longrightarrow> read_lines dec (s @ t) = read_lines dec s @ read_lines dec t"
  by (simp add: read_lines_def getlines_append map_filter_append)

section \<open>The contract\<close>

locale line_codec =
  fixes enc :: "'r \<Rightarrow> string"
    and dec :: "string \<Rightarrow> 'r option"
    and storable :: "'r \<Rightarrow> bool"
  assumes one_line: "storable r \<Longrightarrow> NL \<notin> set (enc r)"
    and dec_enc: "storable r \<Longrightarrow> dec (enc r) = Some r"
begin

text \<open>A file of storable records is read back exactly.\<close>

lemma read_write:
  "list_all storable rs \<Longrightarrow> read_lines dec (write_lines enc rs) = rs"
  by (induction rs) (simp_all add: write_lines_Cons read_lines_line one_line dec_enc)

text \<open>Appending a record to a file whose last line is complete appends it to what is read.\<close>

lemma read_append:
  "terminated s \<Longrightarrow> storable r \<Longrightarrow>
   read_lines dec (s @ enc r @ [NL]) = read_lines dec s @ [r]"
  using read_write [of "[r]"] by (simp add: read_lines_append write_lines_Cons)

text \<open>
  A torn write: only a proper prefix of the record's line reached the file. What was complete
  before is still read, and at most one record is added, the one the prefix happens to parse as.
\<close>

lemma read_torn:
  assumes "terminated s" "storable r" "enc r @ [NL] = w @ lost" "lost \<noteq> []"
  shows "read_lines dec (s @ w) =
    read_lines dec s @ (if w = [] then [] else case dec w of None \<Rightarrow> [] | Some t \<Rightarrow> [t])"
proof -
  obtain lost' where "lost = lost' @ [NL]"
    using assms(3,4) by (metis append_butlast_last_id last_append last_snoc)
  then have "enc r = w @ lost'" using assms(3) by simp
  then have "NL \<notin> set w" using one_line [OF assms(2)] by auto
  then have "getlines w = (if w = [] then [] else [w])" by (rule getlines_last)
  then show ?thesis
    using assms(1) by (simp add: read_lines_append) (simp add: read_lines_def map_filter_simps split: option.split)
qed

end

end
