(* ===== verification/Cash_Drawer.thy ===== *)
theory Cash_Drawer imports
  PD_Types
  Line_Journal
begin

text \<open>
  \<^verbatim>\<open>core/include/printerdriver/cash_drawer.hpp\<close> and \<^verbatim>\<open>core/src/cash_drawer.cpp\<close>:
  what a profile says about a drawer port, the arithmetic that decides whether and how long
  the port may be energised, the reading of the sense pin, and the file that remembers each
  drawer's polarity. The file operations of \<^verbatim>\<open>platform_file\<close> are parameters: whether the
  temporary file opens, whether it is written and whether the rename happens.
\<close>

section \<open>Vocabulary\<close>

datatype drawer_state =
    DS_Closed | DS_Open | DS_Opening | DS_KickSentUnverified | DS_OpenVerified
  | DS_FailedToOpen | DS_NoSensor | DS_Unknown

datatype drawer_port_standard =
    PS_Epson24V6P6C | PS_Star24V6P6C | PS_Generic12V6P6C | PS_Unknown

datatype drawer_kick_method =
    KM_EpsonEscP | KM_EpsonEpos | KM_StarPrnt | KM_BixolonSdk | KM_CitizenEscP | KM_SnbcEscP
  | KM_Vendor | KM_Unsupported

datatype drawer_status_method = SM_GsR2 | SM_Asb | SM_StarSignal | SM_VendorSdk | SM_None

fun drawer_state_name :: "drawer_state \<Rightarrow> string" where
  "drawer_state_name DS_Closed = ''Closed''"
| "drawer_state_name DS_Open = ''Open''"
| "drawer_state_name DS_Opening = ''Opening''"
| "drawer_state_name DS_KickSentUnverified = ''KickSentUnverified''"
| "drawer_state_name DS_OpenVerified = ''OpenVerified''"
| "drawer_state_name DS_FailedToOpen = ''FailedToOpen''"
| "drawer_state_name DS_NoSensor = ''NoSensor''"
| "drawer_state_name DS_Unknown = ''Unknown''"

fun drawer_port_standard_name :: "drawer_port_standard \<Rightarrow> string" where
  "drawer_port_standard_name PS_Epson24V6P6C = ''Epson24V6P6C''"
| "drawer_port_standard_name PS_Star24V6P6C = ''Star24V6P6C''"
| "drawer_port_standard_name PS_Generic12V6P6C = ''Generic12V6P6C''"
| "drawer_port_standard_name PS_Unknown = ''Unknown''"

fun drawer_kick_method_name :: "drawer_kick_method \<Rightarrow> string" where
  "drawer_kick_method_name KM_EpsonEscP = ''EpsonEscP''"
| "drawer_kick_method_name KM_EpsonEpos = ''EpsonEpos''"
| "drawer_kick_method_name KM_StarPrnt = ''StarPrnt''"
| "drawer_kick_method_name KM_BixolonSdk = ''BixolonSdk''"
| "drawer_kick_method_name KM_CitizenEscP = ''CitizenEscP''"
| "drawer_kick_method_name KM_SnbcEscP = ''SnbcEscP''"
| "drawer_kick_method_name KM_Vendor = ''Vendor''"
| "drawer_kick_method_name KM_Unsupported = ''Unsupported''"

fun drawer_status_method_name :: "drawer_status_method \<Rightarrow> string" where
  "drawer_status_method_name SM_GsR2 = ''GsR2''"
| "drawer_status_method_name SM_Asb = ''Asb''"
| "drawer_status_method_name SM_StarSignal = ''StarSignal''"
| "drawer_status_method_name SM_VendorSdk = ''VendorSdk''"
| "drawer_status_method_name SM_None = ''None''"

section \<open>What a profile records about a drawer\<close>

record drawer_electrical =
  de_standard :: drawer_port_standard
  de_voltage :: u16
  de_max_current_ma :: u16
  de_channel_count :: u8
  de_sensor_pin :: u8

record drawer_kick =
  dk_method :: drawer_kick_method
  dk_vendor_id :: string
  dk_default_pulse_ms :: u16
  dk_max_pulse_ms :: u16
  dk_cooldown_ms :: u16
  dk_can_kick_during_print :: bool

record drawer_polarity =
  dp_calibrated :: bool
  dp_high_means_open :: bool

record drawer_sensing =
  dn_available :: bool
  dn_method :: drawer_status_method
  dn_shared_between_drawers :: bool
  dn_polarity :: drawer_polarity
  dn_verify_window_ms :: u16
  dn_poll_interval_ms :: u16

record drawer_evidence =
  dv_electrical :: provenance
  dv_commands :: provenance

record drawer_capabilities =
  dc_present :: bool
  dc_electrical :: drawer_electrical
  dc_kick :: drawer_kick
  dc_status :: drawer_sensing
  dc_shared_with_buzzer :: bool
  dc_evidence :: drawer_evidence
  dc_note :: string

definition default_drawer :: drawer_capabilities where
  "default_drawer =
     \<lparr>dc_present = False,
      dc_electrical = \<lparr>de_standard = PS_Unknown, de_voltage = 0, de_max_current_ma = 0,
                       de_channel_count = 0, de_sensor_pin = 0\<rparr>,
      dc_kick = \<lparr>dk_method = KM_Unsupported, dk_vendor_id = [], dk_default_pulse_ms = 200,
                 dk_max_pulse_ms = 500, dk_cooldown_ms = 0, dk_can_kick_during_print = True\<rparr>,
      dc_status = \<lparr>dn_available = False, dn_method = SM_None, dn_shared_between_drawers = True,
                   dn_polarity = \<lparr>dp_calibrated = False, dp_high_means_open = False\<rparr>,
                   dn_verify_window_ms = 1500, dn_poll_interval_ms = 100\<rparr>,
      dc_shared_with_buzzer = False,
      dc_evidence = \<lparr>dv_electrical = PV_Unverified, dv_commands = PV_Unverified\<rparr>,
      dc_note = []\<rparr>"

definition evidence_documented :: "drawer_evidence \<Rightarrow> bool" where
  "evidence_documented e \<longleftrightarrow> dv_electrical e = PV_Documented \<and> dv_commands e = PV_Documented"

definition evidence_probed :: "drawer_evidence \<Rightarrow> bool" where
  "evidence_probed e \<longleftrightarrow> dv_electrical e = PV_Probed \<or> dv_commands e = PV_Probed"

definition electricalKnown :: "drawer_capabilities \<Rightarrow> bool" where
  "electricalKnown d \<longleftrightarrow> de_standard (dc_electrical d) \<noteq> PS_Unknown"

definition sensorReadable :: "drawer_capabilities \<Rightarrow> bool" where
  "sensorReadable d \<longleftrightarrow>
     dc_present d \<and> dn_available (dc_status d) \<and> dn_method (dc_status d) = SM_GsR2"

fun escp_kick :: "drawer_kick_method \<Rightarrow> bool" where
  "escp_kick KM_EpsonEscP = True"
| "escp_kick KM_CitizenEscP = True"
| "escp_kick KM_SnbcEscP = True"
| "escp_kick m = False"

definition kickable :: "drawer_capabilities \<Rightarrow> bool" where
  "kickable d =
     (if \<not> dc_present d \<or> dk_method (dc_kick d) = KM_Unsupported then False
      else if \<not> electricalKnown d then False
      else escp_kick (dk_method (dc_kick d)))"

definition pulseFor :: "drawer_capabilities \<Rightarrow> u16 \<Rightarrow> u16" where
  "pulseFor d requested_ms =
     (let kick = dc_kick d;
          asked = (if requested_ms \<noteq> 0 then requested_ms else dk_default_pulse_ms kick);
          capped = (if dk_max_pulse_ms kick \<noteq> 0 \<and> asked > dk_max_pulse_ms kick
                    then dk_max_pulse_ms kick else asked);
          even = capped - capped mod 2
      in if even < 2 then 2 else even)"

definition channelFor :: "drawer_capabilities \<Rightarrow> u8 \<Rightarrow> u8" where
  "channelFor d requested =
     (let channels = (if de_channel_count (dc_electrical d) \<noteq> 0
                      then de_channel_count (dc_electrical d) else 1);
          channel = (if requested \<noteq> 0 then requested else 1)
      in if channel > channels then channels else channel)"

section \<open>The sense pin\<close>

definition drawerPinHigh :: "u8 \<Rightarrow> bool" where
  "drawerPinHigh answer \<longleftrightarrow> (answer AND 0x01) \<noteq> 0"

definition drawerStateFrom :: "bool \<Rightarrow> drawer_polarity \<Rightarrow> drawer_state" where
  "drawerStateFrom pin_high p =
     (if \<not> dp_calibrated p then DS_Unknown
      else if (if dp_high_means_open p then pin_high else \<not> pin_high) then DS_Open
      else DS_Closed)"

section \<open>The polarity file\<close>

text \<open>A record is the printer's id and its polarity; the file holds one line per record.\<close>

definition polarity_line :: "string \<times> bool \<Rightarrow> string" where
  "polarity_line r = (if snd r then CHR ''1'' else CHR ''0'') # CHR '' '' # fst r"

definition parse_polarity :: "string \<Rightarrow> (string \<times> bool) option" where
  "parse_polarity line =
     (if length line < 3 \<or> (line ! 0 \<noteq> CHR ''0'' \<and> line ! 0 \<noteq> CHR ''1'') \<or> line ! 1 \<noteq> CHR '' ''
      then None
      else let printer_id = drop 2 line
           in if printer_id = [] then None else Some (printer_id, line ! 0 = CHR ''1''))"

text \<open>
  The store: whether it has a path, its records, and the content of its file. The steps of
  \<^verbatim>\<open>flush\<close> that may fail are arguments of the operation.
\<close>

record polarity_store =
  po_path :: bool
  po_records :: "(string \<times> bool) list"
  po_file :: string

record flush_outcome =
  fo_opened :: bool
  fo_written :: bool
  fo_replaced :: bool

definition polarity_flush :: "flush_outcome \<Rightarrow> polarity_store \<Rightarrow> polarity_store" where
  "polarity_flush io s =
     (if \<not> po_path s then s
      else if \<not> fo_opened io then s
      else let blob = write_lines polarity_line (po_records s)
           in if fo_written io \<and> fo_replaced io then s\<lparr>po_file := blob\<rparr> else s)"

text \<open>The constructor: no directory, or one that cannot be made, leaves a store without a file.\<close>

definition polarity_open :: "bool \<Rightarrow> string \<Rightarrow> polarity_store" where
  "polarity_open usable content =
     (if \<not> usable then \<lparr>po_path = False, po_records = [], po_file = content\<rparr>
      else \<lparr>po_path = True, po_records = read_lines parse_polarity content, po_file = content\<rparr>)"

definition polarity_find :: "string \<Rightarrow> polarity_store \<Rightarrow> bool option" where
  "polarity_find printer_id s =
     (if printer_id = [] then None else map_of (po_records s) printer_id)"

fun polarity_set :: "string \<Rightarrow> bool \<Rightarrow> (string \<times> bool) list \<Rightarrow> (string \<times> bool) list" where
  "polarity_set i b [] = [(i, b)]"
| "polarity_set i b (r # rs) = (if fst r = i then (i, b) # rs else r # polarity_set i b rs)"

definition polarity_save ::
    "flush_outcome \<Rightarrow> string \<Rightarrow> bool \<Rightarrow> polarity_store \<Rightarrow> polarity_store" where
  "polarity_save io printer_id high_means_open s =
     (if printer_id = [] then s
      else polarity_flush io
             (s\<lparr>po_records := polarity_set printer_id high_means_open (po_records s)\<rparr>))"

section \<open>Facts\<close>

text \<open>An id the file can hold: not empty and without a line break.\<close>

definition plain_id :: "string \<Rightarrow> bool" where
  "plain_id i \<longleftrightarrow> i \<noteq> [] \<and> NL \<notin> set i"

interpretation polarity: line_codec polarity_line parse_polarity "\<lambda>r. plain_id (fst r)"
  by unfold_locales
    (auto simp: polarity_line_def parse_polarity_def plain_id_def NL_def Suc_le_eq
       length_greater_0_conv numeral_3_eq_3 not_less split: prod.splits)

lemma map_of_polarity_set: "map_of (polarity_set i b rs) = (map_of rs)(i \<mapsto> b)"
  by (induction i b rs rule: polarity_set.induct) auto

lemma plain_polarity_set:
  "plain_id i \<Longrightarrow> list_all (\<lambda>r. plain_id (fst r)) rs \<Longrightarrow>
   list_all (\<lambda>r. plain_id (fst r)) (polarity_set i b rs)"
  by (induction i b rs rule: polarity_set.induct) auto

lemma even_down:
  fixes w :: u16
  assumes "2 \<le> w"
  shows "w - w mod 2 \<le> w \<and> even (unat (w - w mod 2)) \<and> 2 \<le> w - w mod 2"
proof -
  have m: "w mod 2 \<le> w" "unat (w mod 2) = unat w mod 2"
    by (simp_all add: word_le_nat_alt unat_mod_distrib)
  then have "unat (w - w mod 2) = unat w - unat w mod 2" by (simp add: unat_sub)
  moreover have "2 \<le> unat w" using assms by (simp add: word_le_nat_alt)
  ultimately show ?thesis
    by (auto simp: word_le_nat_alt minus_mod_eq_mult_div)
qed

text \<open>The pulse is even, at least 2 ms, and within the profile's limit.\<close>

lemma pulseFor_bounds:
  "2 \<le> pulseFor d r \<and> even (unat (pulseFor d r)) \<and>
   (2 \<le> dk_max_pulse_ms (dc_kick d) \<longrightarrow> pulseFor d r \<le> dk_max_pulse_ms (dc_kick d))"
proof -
  define asked where "asked = (if r \<noteq> 0 then r else dk_default_pulse_ms (dc_kick d))"
  define capped where "capped = (if dk_max_pulse_ms (dc_kick d) \<noteq> 0 \<and> asked > dk_max_pulse_ms (dc_kick d)
    then dk_max_pulse_ms (dc_kick d) else asked)"
  have p: "pulseFor d r = (if capped - capped mod 2 < 2 then 2 else capped - capped mod 2)"
    by (simp add: pulseFor_def Let_def capped_def asked_def)
  have small: "capped - capped mod 2 < 2" if "\<not> 2 \<le> capped"
  proof -
    have "capped mod 2 \<le> capped" by (simp add: word_le_nat_alt unat_mod_distrib)
    then have "unat (capped - capped mod 2) \<le> unat capped" by (simp add: unat_sub)
    with that show ?thesis by (simp add: word_le_nat_alt word_less_nat_alt)
  qed
  have cap: "capped \<le> dk_max_pulse_ms (dc_kick d)" if "2 \<le> dk_max_pulse_ms (dc_kick d)"
    using that by (auto simp: capped_def)
  show ?thesis
  proof (cases "2 \<le> capped")
    case True
    then show ?thesis
      using even_down [OF True] cap by (auto simp: p intro: order_trans)
  next
    case False
    then show ?thesis using small by (simp add: p)
  qed
qed

lemma channelFor_bounds:
  "1 \<le> channelFor d c \<and> channelFor d c \<le> (if de_channel_count (dc_electrical d) \<noteq> 0
     then de_channel_count (dc_electrical d) else 1)"
  by (auto simp: channelFor_def Let_def word_le_nat_alt word_less_nat_alt unat_eq_zero Suc_le_eq
      unat_gt_0 not_less)

section \<open>Properties\<close>

text \<open>
  A calibration survives a restart. When the file was written, opening the store again
  gives back exactly the records in memory: the calibrated printer with its new polarity
  and every other printer unchanged. When any step of the write failed, the file is what it
  was.
\<close>

theorem polarity_survives_restart:
  assumes "plain_id i" and "list_all (\<lambda>r. plain_id (fst r)) (po_records s)" and "po_path s"
  shows "(if fo_opened io \<and> fo_written io \<and> fo_replaced io then
      polarity_open True (po_file (polarity_save io i b s)) = polarity_save io i b s \<and>
      (\<forall>j. polarity_find j (polarity_save io i b s) =
             (if j = i then Some b else polarity_find j s))
    else po_file (polarity_save io i b s) = po_file s)"
proof -
  let ?rs = "polarity_set i b (po_records s)"
  have "read_lines parse_polarity (write_lines polarity_line ?rs) = ?rs"
    using plain_polarity_set [OF assms(1,2)] by (rule polarity.read_write)
  then show ?thesis
    using assms by (auto simp: polarity_save_def polarity_flush_def polarity_open_def plain_id_def
        polarity_find_def map_of_polarity_set Let_def)
qed

theorem polarity_survives_restart_witness:
  "polarity_find ''till-1'' (polarity_open True (po_file (polarity_save
     \<lparr>fo_opened = True, fo_written = True, fo_replaced = True\<rparr> ''till-1'' True
     \<lparr>po_path = True, po_records = [(''bar'', False)], po_file = []\<rparr>))) = Some True"
  using polarity_survives_restart [of "''till-1''" "\<lparr>po_path = True, po_records = [(''bar'', False)], po_file = []\<rparr>"
      "\<lparr>fo_opened = True, fo_written = True, fo_replaced = True\<rparr>" True]
  by (simp add: plain_id_def NL_def)

text \<open>
  An id with a line break is not protected: saving it writes a second line, which a restart
  reads as the calibration of another printer.
\<close>

lemma polarity_line_break_forges:
  "polarity_find ''till-2'' (polarity_open True (po_file (polarity_save
     \<lparr>fo_opened = True, fo_written = True, fo_replaced = True\<rparr> (''a'' @ [NL] @ ''1 till-2'') False
     \<lparr>po_path = True, po_records = [], po_file = []\<rparr>))) = Some True"
  by (simp add: polarity_save_def polarity_flush_def polarity_open_def polarity_find_def
      write_lines_def polarity_line_def read_lines_def getlines_def parse_polarity_def NL_def
      map_filter_simps)

end
