(* ===== verification/Code_Page.thy ===== *)
theory Code_Page imports
  PD_Prelude
begin

text \<open>
  \<^verbatim>\<open>core/src/code_page.cpp\<close>: UTF-8 in, one byte of the printer's code page per code
  point out. The string is a byte list and the running index of the sources is the suffix
  still to be read. The lemmas show that the decoder always makes progress, that it reads
  back every Unicode scalar value in its UTF-8 encoding, that the binary search finds
  exactly what the table holds and that the table is a bijection onto the high half.
\<close>

section \<open>The table\<close>

text \<open>\<^verbatim>\<open>enum class CodePage\<close>, with the operand of \<^verbatim>\<open>ESC t n\<close>.\<close>

datatype code_page = PC437 | PC850 | WPC1252 | PC852 | PC858

fun code_page_n :: "code_page \<Rightarrow> u8" where
  "code_page_n PC437 = 0"
| "code_page_n PC850 = 2"
| "code_page_n WPC1252 = 16"
| "code_page_n PC852 = 18"
| "code_page_n PC858 = 19"

definition kCp852 :: "(u32 \<times> u8) list" where
  "kCp852 =
     [(0x00A0, 0xFF), (0x00A4, 0xCF), (0x00A7, 0xF5), (0x00A8, 0xF9),
      (0x00AB, 0xAE), (0x00AC, 0xAA), (0x00AD, 0xF0), (0x00B0, 0xF8),
      (0x00B4, 0xEF), (0x00B8, 0xF7), (0x00BB, 0xAF), (0x00C1, 0xB5),
      (0x00C2, 0xB6), (0x00C4, 0x8E), (0x00C7, 0x80), (0x00C9, 0x90),
      (0x00CB, 0xD3), (0x00CD, 0xD6), (0x00CE, 0xD7), (0x00D3, 0xE0),
      (0x00D4, 0xE2), (0x00D6, 0x99), (0x00D7, 0x9E), (0x00DA, 0xE9),
      (0x00DC, 0x9A), (0x00DD, 0xED), (0x00DF, 0xE1), (0x00E1, 0xA0),
      (0x00E2, 0x83), (0x00E4, 0x84), (0x00E7, 0x87), (0x00E9, 0x82),
      (0x00EB, 0x89), (0x00ED, 0xA1), (0x00EE, 0x8C), (0x00F3, 0xA2),
      (0x00F4, 0x93), (0x00F6, 0x94), (0x00F7, 0xF6), (0x00FA, 0xA3),
      (0x00FC, 0x81), (0x00FD, 0xEC), (0x0102, 0xC6), (0x0103, 0xC7),
      (0x0104, 0xA4), (0x0105, 0xA5), (0x0106, 0x8F), (0x0107, 0x86),
      (0x010C, 0xAC), (0x010D, 0x9F), (0x010E, 0xD2), (0x010F, 0xD4),
      (0x0110, 0xD1), (0x0111, 0xD0), (0x0118, 0xA8), (0x0119, 0xA9),
      (0x011A, 0xB7), (0x011B, 0xD8), (0x0139, 0x91), (0x013A, 0x92),
      (0x013D, 0x95), (0x013E, 0x96), (0x0141, 0x9D), (0x0142, 0x88),
      (0x0143, 0xE3), (0x0144, 0xE4), (0x0147, 0xD5), (0x0148, 0xE5),
      (0x0150, 0x8A), (0x0151, 0x8B), (0x0154, 0xE8), (0x0155, 0xEA),
      (0x0158, 0xFC), (0x0159, 0xFD), (0x015A, 0x97), (0x015B, 0x98),
      (0x015E, 0xB8), (0x015F, 0xAD), (0x0160, 0xE6), (0x0161, 0xE7),
      (0x0162, 0xDD), (0x0163, 0xEE), (0x0164, 0x9B), (0x0165, 0x9C),
      (0x016E, 0xDE), (0x016F, 0x85), (0x0170, 0xEB), (0x0171, 0xFB),
      (0x0179, 0x8D), (0x017A, 0xAB), (0x017B, 0xBD), (0x017C, 0xBE),
      (0x017D, 0xA6), (0x017E, 0xA7), (0x02C7, 0xF3), (0x02D8, 0xF4),
      (0x02D9, 0xFA), (0x02DB, 0xF2), (0x02DD, 0xF1), (0x2500, 0xC4),
      (0x2502, 0xB3), (0x250C, 0xDA), (0x2510, 0xBF), (0x2514, 0xC0),
      (0x2518, 0xD9), (0x251C, 0xC3), (0x2524, 0xB4), (0x252C, 0xC2),
      (0x2534, 0xC1), (0x253C, 0xC5), (0x2550, 0xCD), (0x2551, 0xBA),
      (0x2554, 0xC9), (0x2557, 0xBB), (0x255A, 0xC8), (0x255D, 0xBC),
      (0x2560, 0xCC), (0x2563, 0xB9), (0x2566, 0xCB), (0x2569, 0xCA),
      (0x256C, 0xCE), (0x2580, 0xDF), (0x2584, 0xDC), (0x2588, 0xDB),
      (0x2591, 0xB0), (0x2592, 0xB1), (0x2593, 0xB2), (0x25A0, 0xFE)]"

definition kInvalidCodepoint :: u32 where
  "kInvalidCodepoint = 0xFFFFFFFF"

definition kUnmappedCodepointFallback :: u8 where
  "kUnmappedCodepointFallback = 0x3F"

section \<open>Decoding one scalar\<close>

text \<open>
  The loop over the continuation bytes: the code point so far, extended by six bits per
  byte, or None at the first byte that is not a continuation.
\<close>

fun continuations :: "nat \<Rightarrow> bytes \<Rightarrow> u32 \<Rightarrow> u32 option" where
  "continuations 0 bs cp = Some cp"
| "continuations (Suc k) [] cp = None"
| "continuations (Suc k) (b # bs) cp =
     (if (b AND 0xC0) \<noteq> 0x80 then None
      else continuations k bs (push_bit 6 cp OR (ucast b AND 0x3F)))"

text \<open>The number of continuation bytes the lead byte announces and its own bits.\<close>

definition lead_byte :: "u8 \<Rightarrow> (nat \<times> u32) option" where
  "lead_byte b =
     (if (b AND 0xE0) = 0xC0 then Some (1, ucast b AND 0x1F)
      else if (b AND 0xF0) = 0xE0 then Some (2, ucast b AND 0x0F)
      else if (b AND 0xF8) = 0xF0 then Some (3, ucast b AND 0x07)
      else None)"

definition rejected :: "nat \<Rightarrow> u32 \<Rightarrow> bool" where
  "rejected extra cp \<longleftrightarrow>
     (extra = 1 \<and> cp < 0x80) \<or> (extra = 2 \<and> cp < 0x800) \<or> (extra = 3 \<and> cp < 0x10000) \<or>
     (cp \<ge> 0xD800 \<and> cp \<le> 0xDFFF) \<or> cp > 0x10FFFF"

text \<open>
  \<^verbatim>\<open>decodeUtf8\<close>: the code point at the head and the bytes after it. The empty input, which
  the sources never decode, yields the invalid code point.
\<close>

fun decodeUtf8 :: "bytes \<Rightarrow> u32 \<times> bytes" where
  "decodeUtf8 [] = (kInvalidCodepoint, [])"
| "decodeUtf8 (b # bs) =
     (if b < 0x80 then (ucast b, bs)
      else case lead_byte b of
        None \<Rightarrow> (kInvalidCodepoint, bs)
      | Some (extra, bits) \<Rightarrow>
          if extra \<ge> length (b # bs) then (kInvalidCodepoint, bs)
          else case continuations extra bs bits of
            None \<Rightarrow> (kInvalidCodepoint, bs)
          | Some cp \<Rightarrow>
              if rejected extra cp then (kInvalidCodepoint, bs) else (cp, drop extra bs))"

section \<open>Looking a code point up\<close>

text \<open>
  \<^verbatim>\<open>std::lower_bound\<close> over \<^theory_text>\<open>count\<close> elements from \<^theory_text>\<open>first\<close>: the halving search for the
  first element of which \<^theory_text>\<open>less\<close> is false.
\<close>

function lower_bound :: "('a \<Rightarrow> bool) \<Rightarrow> 'a list \<Rightarrow> nat \<Rightarrow> nat \<Rightarrow> nat" where
  "lower_bound precedes xs first count =
     (if count = 0 then first
      else let half = count div 2; mid = first + half
           in if precedes (xs ! mid) then lower_bound precedes xs (mid + 1) (count - half - 1)
              else lower_bound precedes xs first half)"
  by pat_completeness auto
termination
  by (relation "measure (\<lambda>(precedes, xs, first, count). count)") auto

declare lower_bound.simps [simp del]

definition lookupCp852 :: "u32 \<Rightarrow> u8 option" where
  "lookupCp852 cp =
     (let it = lower_bound (\<lambda>entry. fst entry < cp) kCp852 0 (length kCp852)
      in if it = length kCp852 \<or> fst (kCp852 ! it) \<noteq> cp then None
         else Some (snd (kCp852 ! it)))"

section \<open>Transliteration\<close>

text \<open>What one decoded code point becomes.\<close>

definition map_codepoint :: "code_page \<Rightarrow> u32 \<Rightarrow> u8" where
  "map_codepoint page cp =
     (if cp < 0x80 then ucast cp
      else if page = PC852 \<and> cp \<noteq> kInvalidCodepoint then
        (case lookupCp852 cp of Some b \<Rightarrow> b | None \<Rightarrow> kUnmappedCodepointFallback)
      else kUnmappedCodepointFallback)"

lemma decodeUtf8_progress [termination_simp]:
  "(cp, rest) = decodeUtf8 (b # bs) \<Longrightarrow> length rest < Suc (length bs)"
  by (auto split: if_splits option.splits)

fun transliterate :: "bytes \<Rightarrow> code_page \<Rightarrow> bytes" where
  "transliterate [] page = []"
| "transliterate (b # bs) page =
     (case decodeUtf8 (b # bs) of (cp, rest) \<Rightarrow> map_codepoint page cp # transliterate rest page)"

section \<open>The search finds what the table holds\<close>

lemma lower_bound_partition:
  "first + count \<le> length xs \<Longrightarrow> first \<le> k \<Longrightarrow> k \<le> first + count \<Longrightarrow>
   (\<And>i. i < length xs \<Longrightarrow> P (xs ! i) \<longleftrightarrow> i < k) \<Longrightarrow> lower_bound P xs first count = k"
proof (induction P xs first count rule: lower_bound.induct)
  case (1 P xs first count)
  let ?m = "first + count div 2"
  show ?case
  proof (cases "count = 0")
    case True
    with "1.prems" show ?thesis by (simp add: lower_bound.simps)
  next
    case False
    have eq: "lower_bound P xs first count =
        (if P (xs ! ?m) then lower_bound P xs (?m + 1) (count - count div 2 - 1)
         else lower_bound P xs first (count div 2))"
      using False by (subst lower_bound.simps) (simp add: Let_def)
    have "P (xs ! ?m) \<longleftrightarrow> ?m < k" using "1.prems"(1,4) False by (auto simp: less_le_trans)
    then show ?thesis
      using eq "1.IH" [OF False refl refl] "1.prems" False by (cases "?m < k") (simp_all add: )
  qed
qed

lemma sorted_before:
  assumes "sorted_wrt (\<lambda>a b. fst a < fst b) (xs :: ('a::linorder \<times> 'b) list)"
  shows "i < length xs \<Longrightarrow>
    fst (xs ! i) < v \<longleftrightarrow> i < length (takeWhile (\<lambda>e. fst e < v) xs)"
  using assms
proof (induction xs arbitrary: i)
  case (Cons x xs)
  have above: "fst x < v" if "fst y < v" "y \<in> set xs" for y
    using Cons.prems(2) that by (auto dest: less_trans)
  show ?case
  proof (cases i)
    case 0
    then show ?thesis by simp
  next
    case (Suc j)
    have "fst (xs ! j) < v \<Longrightarrow> fst x < v" using above Cons.prems(1) Suc by simp
    then show ?thesis using Cons Suc by auto
  qed
qed simp

lemma map_of_takeWhile:
  assumes "sorted_wrt (\<lambda>a b. fst a < fst b) (xs :: ('a::linorder \<times> 'b) list)"
  shows "map_of xs v =
    (let k = length (takeWhile (\<lambda>e. fst e < v) xs)
     in if k = length xs \<or> fst (xs ! k) \<noteq> v then None else Some (snd (xs ! k)))"
  using assms
proof (induction xs)
  case (Cons x xs)
  show ?case
  proof (cases "fst x < v")
    case True
    then show ?thesis using Cons by (auto simp: Let_def)
  next
    case False
    then have "v \<notin> fst ` set xs" if "v \<noteq> fst x"
      using Cons.prems that by fastforce
    with False show ?thesis by (auto simp: Let_def map_of_eq_None_iff)
  qed
qed simp

lemma kCp852_sorted: "sorted_wrt (\<lambda>a b. fst a < fst b) kCp852"
proof -
  have "successively (\<lambda>a b. fst a < fst b) kCp852"
    by (simp add: kCp852_def)
  then show ?thesis
    by (subst (asm) successively_conv_sorted_wrt) (auto simp: transp_on_def)
qed

lemma kCp852_high: "sort (map (unat \<circ> snd) kCp852) = [128..<256]"
  by (simp add: kCp852_def upt_conv_Cons)


section \<open>The decoder reads UTF-8 back\<close>

text \<open>
  The encoding of a Unicode scalar value, as the standard defines it: the reference the
  decoder is compared with.
\<close>

definition utf8_of :: "u32 \<Rightarrow> bytes" where
  "utf8_of cp =
     (if cp < 0x80 then [ucast cp]
      else if cp < 0x800 then
        [0xC0 OR ucast (drop_bit 6 cp), 0x80 OR (ucast cp AND 0x3F)]
      else if cp < 0x10000 then
        [0xE0 OR ucast (drop_bit 12 cp), 0x80 OR (ucast (drop_bit 6 cp) AND 0x3F),
         0x80 OR (ucast cp AND 0x3F)]
      else
        [0xF0 OR ucast (drop_bit 18 cp), 0x80 OR (ucast (drop_bit 12 cp) AND 0x3F),
         0x80 OR (ucast (drop_bit 6 cp) AND 0x3F), 0x80 OR (ucast cp AND 0x3F)])"

definition scalar :: "u32 \<Rightarrow> bool" where
  "scalar cp \<longleftrightarrow> cp \<le> 0x10FFFF \<and> \<not> (0xD800 \<le> cp \<and> cp \<le> 0xDFFF)"

lemma high_bit_clear:
  assumes "unat (w :: 'a::len word) < 2 ^ n" "n \<le> m"
  shows "\<not> bit w m"
proof -
  have "unat w < 2 ^ m" using assms by (meson less_le_trans one_le_numeral power_increasing)
  then have "\<not> bit (unat w) m" by (simp add: bit_iff_odd)
  then show ?thesis by (simp add: bit_unsigned_iff bit_imp_le_length)
qed

lemma u8_eqI:
  "(\<And>n. n \<in> {0, 1, 2, 3, 4, 5, 6, 7} \<Longrightarrow> bit a n = bit b n) \<Longrightarrow> (a :: u8) = b"
  by (rule bit_word_eqI) (auto simp: numeral_eq_Suc less_Suc_eq)

lemma u32_eqI:
  "(\<And>n. n < 32 \<Longrightarrow> bit a n = bit b n) \<Longrightarrow> (a :: u32) = b"
  by (rule bit_word_eqI) auto

lemma cont_byte [simp]:
  "((0x80 OR (x AND 0x3F)) AND 0xC0 :: u8) = 0x80"
  by (rule u8_eqI) (auto simp: bit_simps)




lemma unat_drop: "unat (drop_bit n (cp :: u32)) = unat cp div 2 ^ n"
  using unat_drop_bit_eq [of n cp] by (simp only: drop_bit_eq_div [of n "unat cp"])

lemma unat_lead:
  "unat (ucast (drop_bit n (cp :: u32)) :: u8) = unat cp div 2 ^ n mod 256"
  using unat_drop [of n cp] by (simp add: unsigned_ucast_eq take_bit_eq_mod)

lemma small_u8:
  assumes "unat (x :: u8) < n"
  shows "x \<in> set (map word_of_nat [0..<n])"
  using assms by (auto intro!: image_eqI [of _ _ "unat x"])

lemma lead2:
  assumes "unat (x :: u8) < 32"
  shows "lead_byte (0xC0 OR x) = Some (1, ucast x) \<and> \<not> (0xC0 OR x) < 0x80"
  using small_u8 [OF assms] by (auto simp: upt_conv_Cons lead_byte_def)

lemma lead3:
  assumes "unat (x :: u8) < 16"
  shows "lead_byte (0xE0 OR x) = Some (2, ucast x) \<and> \<not> (0xE0 OR x) < 0x80"
  using small_u8 [OF assms] by (auto simp: upt_conv_Cons lead_byte_def)

lemma lead4:
  assumes "unat (x :: u8) < 8"
  shows "lead_byte (0xF0 OR x) = Some (3, ucast x) \<and> \<not> (0xF0 OR x) < 0x80"
  using small_u8 [OF assms] by (auto simp: upt_conv_Cons lead_byte_def)

lemma masks: "(0x3F :: 'a::len word) = mask 6"
  by (simp add: mask_eq_exp_minus_1)

lemma continuations_byte:
  "continuations (Suc k) ((0x80 OR (x AND 0x3F)) # bs) cp =
   continuations k bs (push_bit 6 cp OR ucast (x AND 0x3F))"
proof -
  have "(0x80 OR (x AND 0x3F)) AND 0x3F = x AND 0x3F"
    by (rule u8_eqI) (auto simp: bit_simps)
  moreover have "ucast a AND 0x3F = (ucast (a AND 0x3F) :: u32)" for a :: u8
    by (rule bit_word_eqI) (auto simp: bit_simps masks)
  ultimately show ?thesis by (simp only: continuations.simps cont_byte simp_thms if_False)
qed

lemma ucast_low6: "ucast (ucast (cp :: u32) AND (0x3F :: u8)) = cp AND mask 6"
  by (rule bit_word_eqI) (auto simp: bit_simps masks)

lemma join6:
  assumes "k = 6 + n"
  shows "push_bit 6 (drop_bit k cp) OR (drop_bit n cp AND mask 6) = drop_bit n (cp :: u32)"
  unfolding assms
proof (rule bit_word_eqI)
  fix m assume "m < LENGTH(32)"
  then show "bit (push_bit 6 (drop_bit (6 + n) cp) OR (drop_bit n cp AND mask 6)) m =
      bit (drop_bit n cp) m"
    by (cases "m < 6") (simp_all add: bit_simps ac_simps)
qed

lemma continuations1:
  "continuations (Suc 0) ((0x80 OR (ucast cp AND 0x3F)) # r) (drop_bit 6 cp) = Some cp"
  using join6 [of 6 0 cp] by (simp only: continuations_byte ucast_low6 continuations.simps(1)) simp

lemma continuations2:
  "continuations (Suc (Suc 0)) ((0x80 OR (ucast (drop_bit 6 cp) AND 0x3F)) #
     (0x80 OR (ucast cp AND 0x3F)) # r) (drop_bit 12 cp) = Some cp"
proof -
  have "push_bit 6 (drop_bit 12 cp) OR (drop_bit 6 cp AND mask 6) = drop_bit 6 cp"
    by (rule join6) simp
  then show ?thesis
    by (simp only: continuations_byte [of "Suc 0"] ucast_low6 continuations1)
qed

lemma continuations3:
  "continuations (Suc (Suc (Suc 0))) ((0x80 OR (ucast (drop_bit 12 cp) AND 0x3F)) #
     (0x80 OR (ucast (drop_bit 6 cp) AND 0x3F)) #
     (0x80 OR (ucast cp AND 0x3F)) # r) (drop_bit 18 cp) = Some cp"
proof -
  have "push_bit 6 (drop_bit 18 cp) OR (drop_bit 12 cp AND mask 6) = drop_bit 12 cp"
    by (rule join6) simp
  then show ?thesis
    by (simp only: continuations_byte [of "Suc (Suc 0)"] ucast_low6 continuations2)
qed

lemma ucast_small:
  "unat (x :: u32) < 256 \<Longrightarrow> ucast (ucast x :: u8) = x"
  by (rule bit_word_eqI)
    (use high_bit_clear [of x 8] in \<open>auto simp: bit_simps simp flip: not_le\<close>)

lemma scalar_not_rejected:
  "scalar cp \<Longrightarrow> (extra = 1 \<Longrightarrow> \<not> cp < 0x80) \<Longrightarrow> (extra = 2 \<Longrightarrow> \<not> cp < 0x800) \<Longrightarrow>
   (extra = 3 \<Longrightarrow> \<not> cp < 0x10000) \<Longrightarrow> \<not> rejected extra cp"
  by (auto simp: scalar_def rejected_def)

lemma decodeUtf8_multi:
  assumes "lead_byte b = Some (length cs, bits)" "\<not> b < 0x80"
    and "\<And>r. continuations (length cs) (cs @ r) bits = Some cp" "\<not> rejected (length cs) cp"
  shows "decodeUtf8 ((b # cs) @ rest) = (cp, rest)"
  using assms by simp

lemma decode2:
  assumes "scalar cp" "\<not> cp < 0x80" "cp < 0x800"
  shows "decodeUtf8 (utf8_of cp @ rest) = (cp, rest)"
proof -
  let ?x = "ucast (drop_bit 6 cp) :: u8"
  have nat: "unat cp < 2048" using assms(3) by (simp add: word_less_nat_alt)
  then have x: "unat ?x < 32" using unat_lead [of 6 cp] by simp
  have u: "ucast ?x = drop_bit 6 cp"
    using nat by (intro ucast_small) (simp add: unat_drop)
  have "decodeUtf8 (((0xC0 OR ?x) # [0x80 OR (ucast cp AND 0x3F)]) @ rest) = (cp, rest)"
    by (rule decodeUtf8_multi [where bits = "ucast ?x"])
      (use lead2 [OF x] assms continuations1 in \<open>simp_all add: scalar_not_rejected u del: continuations.simps\<close>)
  then show ?thesis using assms by (simp add: utf8_of_def)
qed

lemma decode3:
  assumes "scalar cp" "\<not> cp < 0x800" "cp < 0x10000"
  shows "decodeUtf8 (utf8_of cp @ rest) = (cp, rest)"
proof -
  let ?x = "ucast (drop_bit 12 cp) :: u8"
  have nat: "unat cp < 65536" using assms(3) by (simp add: word_less_nat_alt)
  then have x: "unat ?x < 16" using unat_lead [of 12 cp] by simp
  have u: "ucast ?x = drop_bit 12 cp"
    using nat by (intro ucast_small) (simp add: unat_drop)
  have "decodeUtf8 (((0xE0 OR ?x) # [0x80 OR (ucast (drop_bit 6 cp) AND 0x3F),
      0x80 OR (ucast cp AND 0x3F)]) @ rest) = (cp, rest)"
    by (rule decodeUtf8_multi [where bits = "ucast ?x"])
      (use lead3 [OF x] assms continuations2 in \<open>simp_all add: scalar_not_rejected u numeral_2_eq_2 del: continuations.simps\<close>)
  then show ?thesis using assms by (auto simp: utf8_of_def word_less_nat_alt)
qed

lemma decode4:
  assumes "scalar cp" "\<not> cp < 0x10000"
  shows "decodeUtf8 (utf8_of cp @ rest) = (cp, rest)"
proof -
  let ?x = "ucast (drop_bit 18 cp) :: u8"
  have nat: "unat cp \<le> 0x10FFFF" using assms(1) by (simp add: scalar_def word_le_nat_alt)
  then have x: "unat ?x < 8" using unat_lead [of 18 cp] by simp
  have u: "ucast ?x = drop_bit 18 cp"
    using nat by (intro ucast_small) (simp add: unat_drop)
  have "decodeUtf8 (((0xF0 OR ?x) # [0x80 OR (ucast (drop_bit 12 cp) AND 0x3F),
      0x80 OR (ucast (drop_bit 6 cp) AND 0x3F), 0x80 OR (ucast cp AND 0x3F)]) @ rest) = (cp, rest)"
    by (rule decodeUtf8_multi [where bits = "ucast ?x"])
      (use lead4 [OF x] assms continuations3 in \<open>simp_all add: scalar_not_rejected u numeral_3_eq_3 del: continuations.simps\<close>)
  then show ?thesis using assms by (auto simp: utf8_of_def word_less_nat_alt)
qed

lemma decode1:
  "cp < 0x80 \<Longrightarrow> decodeUtf8 (utf8_of cp @ rest) = (cp, rest)"
  using unat_lead [of 0 cp] by (simp add: utf8_of_def word_less_nat_alt ucast_small)

lemma decodeUtf8_utf8_of:
  "scalar cp \<Longrightarrow> decodeUtf8 (utf8_of cp @ rest) = (cp, rest)"
  using decode1 decode2 decode3 decode4 by blast

section \<open>What transliteration does\<close>

lemma lookupCp852_map_of: "lookupCp852 cp = map_of kCp852 cp"
proof -
  let ?k = "length (takeWhile (\<lambda>e. fst e < cp) kCp852)"
  have "lower_bound (\<lambda>e. fst e < cp) kCp852 0 (length kCp852) = ?k"
    by (rule lower_bound_partition)
      (simp_all add: length_takeWhile_le sorted_before [OF kCp852_sorted])
  then show ?thesis
    by (simp add: lookupCp852_def map_of_takeWhile [OF kCp852_sorted] Let_def)
qed

lemma transliterate_utf8_of:
  "scalar cp \<Longrightarrow> transliterate (utf8_of cp @ rest) page = map_codepoint page cp # transliterate rest page"
proof -
  assume "scalar cp"
  then have d: "decodeUtf8 (utf8_of cp @ rest) = (cp, rest)" by (rule decodeUtf8_utf8_of)
  obtain b bs where "utf8_of cp @ rest = b # bs" by (cases "utf8_of cp @ rest") (auto simp: utf8_of_def split: if_splits)
  with d show ?thesis by simp
qed

lemma transliterate_scalars:
  "\<forall>cp \<in> set cps. scalar cp \<Longrightarrow>
   transliterate (concat (map utf8_of cps)) page = map (map_codepoint page) cps"
  by (induction cps) (simp_all add: transliterate_utf8_of)

lemma unat_ucast_up [simp]: "unat (ucast (b :: u8) :: u32) = unat b"
  using unsigned_less [of b, where 'a = nat] by (simp add: unsigned_ucast_eq take_bit_nat_eq_self)

lemma unat_ucast_down: "unat (cp :: u32) < 256 \<Longrightarrow> unat (ucast cp :: u8) = unat cp"
  by (simp add: unsigned_ucast_eq take_bit_eq_mod)

lemma ucast_up_down [simp]: "ucast (ucast (b :: u8) :: u32) = b"
proof (rule unsigned_word_eqI [where 'a = nat])
  have "unat (ucast b :: u32) < 256" using unsigned_less [of b, where 'a = nat] by simp
  then show "unat (ucast (ucast b :: u32) :: u8) = unat b" by (simp add: unat_ucast_down)
qed

lemma transliterate_ascii_id:
  "\<forall>b \<in> set bs. b < 0x80 \<Longrightarrow> transliterate bs page = bs"
proof (induction bs)
  case (Cons b bs)
  have "map_codepoint page (ucast b) = b"
    using Cons.prems
    by (simp add: map_codepoint_def word_less_nat_alt)
  with Cons show ?case by simp
qed simp

lemma transliterate_length: "length (transliterate bs page) \<le> length bs"
proof (induction bs page rule: transliterate.induct)
  case (2 b bs page)
  obtain cp rest where d: "decodeUtf8 (b # bs) = (cp, rest)" by fastforce
  then show ?case
    using "2.IH" [OF d [symmetric]] decodeUtf8_progress [OF d [symmetric]] by simp
qed simp

text \<open>The character a byte of code page 852 stands for.\<close>

definition cp852_codepoint :: "u8 \<Rightarrow> u32 option" where
  "cp852_codepoint b =
     (if b < 0x80 then Some (ucast b) else map_of (map prod.swap kCp852) b)"

definition in_cp852 :: "u32 \<Rightarrow> bool" where
  "in_cp852 cp \<longleftrightarrow> cp < 0x80 \<or> cp \<in> fst ` set kCp852"

lemma kCp852_snd: "distinct (map snd kCp852)" "b \<in> snd ` set kCp852 \<longleftrightarrow> 0x80 \<le> b"
proof -
  let ?xs = "map (unat \<circ> snd) kCp852"
  have "distinct (sort ?xs)" by (simp only: kCp852_high distinct_upt)
  then have "distinct ?xs" by (simp only: distinct_sort)
  then show "distinct (map snd kCp852)" by (simp add: distinct_map inj_on_def)
  have "set ?xs = {128..<256}" using kCp852_high by (metis set_sort set_upt)
  then have "unat b \<in> unat ` snd ` set kCp852 \<longleftrightarrow> 128 \<le> unat b"
    using unsigned_less [of b, where 'a = nat] by (auto simp: image_image)
  moreover have "inj (unat :: u8 \<Rightarrow> nat)" by (rule injI) (erule unsigned_word_eqI)
  ultimately show "b \<in> snd ` set kCp852 \<longleftrightarrow> 0x80 \<le> b"
    by (simp add: inj_image_mem_iff word_le_nat_alt)
qed

lemma sorted_distinct_fst:
  "sorted_wrt (\<lambda>a b. fst a < fst b) (xs :: ('a::linorder \<times> 'b) list) \<Longrightarrow> distinct (map fst xs)"
  by (induction xs) auto

lemma cp852_roundtrip1:
  assumes "in_cp852 cp"
  shows "cp852_codepoint (map_codepoint PC852 cp) = Some cp"
proof (cases "cp < 0x80")
  case True
  then show ?thesis by (simp add: cp852_codepoint_def map_codepoint_def word_less_nat_alt ucast_small unat_ucast_down)
next
  case False
  have d: "distinct (map fst kCp852)"
    by (rule sorted_distinct_fst) (rule kCp852_sorted)
  from False assms obtain b where m: "(cp, b) \<in> set kCp852" by (auto simp: in_cp852_def)
  then have "cp \<noteq> kInvalidCodepoint" by (auto simp: kCp852_def kInvalidCodepoint_def)
  moreover have "lookupCp852 cp = Some b" using m d by (simp add: lookupCp852_map_of)
  ultimately have b: "map_codepoint PC852 cp = b" using False by (simp add: map_codepoint_def)
  have "\<not> b < 0x80" using m kCp852_snd(2) [of b] by force
  moreover have "map_of (map prod.swap kCp852) b = Some cp"
    using m kCp852_snd(1) by (intro map_of_is_SomeI) (auto simp: comp_def intro!: image_eqI)
  ultimately show ?thesis using b by (simp add: cp852_codepoint_def)
qed

lemma lookup_mem: "lookupCp852 cp = Some b \<longleftrightarrow> (cp, b) \<in> set kCp852"
  by (simp add: lookupCp852_map_of sorted_distinct_fst [OF kCp852_sorted])

lemma in_cp852_scalar: "in_cp852 cp \<Longrightarrow> scalar cp"
proof -
  have "\<forall>e \<in> set kCp852. fst e < 0xD800" by (simp add: kCp852_def)
  moreover assume "in_cp852 cp"
  ultimately have "cp < 0xD800" by (auto simp: in_cp852_def word_less_nat_alt)
  then show ?thesis by (simp add: scalar_def word_less_nat_alt word_le_nat_alt)
qed

text \<open>
  The halving search of \<^theory_text>\<open>lookupCp852\<close> finds exactly what the table lists, and the
  table is a bijection onto the high half: a byte is the image of exactly one code point
  when it is 0x80 or above, and of none below.
\<close>

theorem cp852_lookup_bijective:
  "lookupCp852 cp = map_of kCp852 cp \<and> ((\<exists>!c. lookupCp852 c = Some b) \<longleftrightarrow> 0x80 \<le> b)"
proof
  show "lookupCp852 cp = map_of kCp852 cp" by (rule lookupCp852_map_of)
  have "c = c'" if "lookupCp852 c = Some b" "lookupCp852 c' = Some b" for c c'
    using that kCp852_snd(1) by (fastforce simp: lookup_mem distinct_map inj_on_def)
  moreover have "(\<exists>c. lookupCp852 c = Some b) \<longleftrightarrow> 0x80 \<le> b"
    using kCp852_snd(2) [of b] by (force simp: lookup_mem)
  ultimately show "(\<exists>!c. lookupCp852 c = Some b) \<longleftrightarrow> 0x80 \<le> b" by blast
qed

text \<open>
  Text over the repertoire of code page 852, encoded in UTF-8, is transliterated to
  one byte per character, and each byte is the one that stands for its character.
\<close>

theorem transliterate_repertoire:
  assumes "\<forall>cp \<in> set cps. in_cp852 cp"
  shows "map cp852_codepoint (transliterate (concat (map utf8_of cps)) PC852) = map Some cps"
  using assms by (simp add: transliterate_scalars in_cp852_scalar cp852_roundtrip1)

theorem transliterate_repertoire_witness:
  "map cp852_codepoint (transliterate (concat (map utf8_of [0x50, 0x159, 0xED, 0x2500])) PC852)
     = [Some 0x50, Some 0x159, Some 0xED, Some 0x2500]"
  using transliterate_repertoire [of "[0x50, 0x159, 0xED, 0x2500]"]
  by (simp add: in_cp852_def kCp852_def)

end
