(* ===== verification/Capability_Profile.thy ===== *)
theory Capability_Profile imports
  Cash_Drawer
  Code_Page
begin

text \<open>
  \<^verbatim>\<open>core/include/printerdriver/capability_profile.hpp\<close> and
  \<^verbatim>\<open>core/src/capability_profile.cpp\<close>: everything a profile records about a device, the
  ceiling and the evidence its completion mechanism allows, and the gates that decide which
  engine may drive it. The lemmas relate the three tables to each other.
\<close>

section \<open>Vocabulary\<close>

datatype completion_mechanism =
    CM_GsParenH | CM_GsR1 | CM_VendorIdle | CM_EposJobId | CM_StarCheckedBlock | CM_None
  | CM_StarEtb | CM_StarEscGsEtx

datatype command_language =
    LG_EscPos | LG_StarPrnt | LG_StarLine | LG_EposXml | LG_Zpl | LG_Cpcl | LG_BrotherRaster
  | LG_EscP

datatype cut_variant = CV_Partial | CV_Full | CV_None

datatype response_parser_variant = RV_EpsonLike | RV_StarPrnt | RV_VendorRaw

fun completion_mechanism_name :: "completion_mechanism \<Rightarrow> string" where
  "completion_mechanism_name CM_GsParenH = ''GsParenH''"
| "completion_mechanism_name CM_GsR1 = ''GsR1''"
| "completion_mechanism_name CM_VendorIdle = ''VendorIdle''"
| "completion_mechanism_name CM_EposJobId = ''EposJobId''"
| "completion_mechanism_name CM_StarCheckedBlock = ''StarCheckedBlock''"
| "completion_mechanism_name CM_None = ''None''"
| "completion_mechanism_name CM_StarEtb = ''StarEtb''"
| "completion_mechanism_name CM_StarEscGsEtx = ''StarEscGsEtx''"

fun cut_variant_name :: "cut_variant \<Rightarrow> string" where
  "cut_variant_name CV_Partial = ''Partial''"
| "cut_variant_name CV_Full = ''Full''"
| "cut_variant_name CV_None = ''None''"

fun command_language_name :: "command_language \<Rightarrow> string" where
  "command_language_name LG_EscPos = ''EscPos''"
| "command_language_name LG_StarPrnt = ''StarPrnt''"
| "command_language_name LG_StarLine = ''StarLine''"
| "command_language_name LG_EposXml = ''EposXml''"
| "command_language_name LG_Zpl = ''Zpl''"
| "command_language_name LG_Cpcl = ''Cpcl''"
| "command_language_name LG_BrotherRaster = ''BrotherRaster''"
| "command_language_name LG_EscP = ''EscP''"

fun response_parser_variant_name :: "response_parser_variant \<Rightarrow> string" where
  "response_parser_variant_name RV_EpsonLike = ''EpsonLike''"
| "response_parser_variant_name RV_StarPrnt = ''StarPrnt''"
| "response_parser_variant_name RV_VendorRaw = ''VendorRaw''"

section \<open>The records of a profile, with their defaults\<close>

text \<open>The raster widths of \<^verbatim>\<open>escpos_encoder.hpp\<close>.\<close>

definition kWidth58mm :: u32 where "kWidth58mm = 384"
definition kWidth76mm :: u32 where "kWidth76mm = 504"
definition kWidth80mm :: u32 where "kWidth80mm = 576"
definition kWidth104mm :: u32 where "kWidth104mm = 832"

record command_languages =
  cl_esc_pos :: bool
  cl_star_prnt :: bool
  cl_star_line :: bool
  cl_epos_xml :: bool
  cl_zpl :: bool
  cl_cpcl :: bool
  cl_brother_raster :: bool
  cl_esc_p :: bool

definition default_command_languages :: command_languages where
  "default_command_languages =
     \<lparr>cl_esc_pos = False, cl_star_prnt = False, cl_star_line = False, cl_epos_xml = False,
      cl_zpl = False, cl_cpcl = False, cl_brother_raster = False, cl_esc_p = False\<rparr>"

record device_identity =
  id_vendor :: string
  id_model :: string
  id_firmware :: string
  id_serial :: string
  id_fingerprint_confidence :: u8
  id_trusted :: bool

definition default_device_identity :: device_identity where
  "default_device_identity =
     \<lparr>id_vendor = [], id_model = [], id_firmware = [], id_serial = [],
      id_fingerprint_confidence = 0, id_trusted = False\<rparr>"

record bluetooth_transport =
  bt_classic_spp :: bool
  bt_classic_vendor :: bool
  bt_ble :: bool
  bt_mfi :: bool
  bt_vendor_sdk :: bool
  bt_mfi_protocol :: string
  bt_mfi_protocol_vendor_gated :: bool
  bt_ble_profile_unknown :: bool
  bt_receive_buffer_bytes :: u32
  bt_bluetooth_receive_buffer_bytes :: u32

definition default_bluetooth_transport :: bluetooth_transport where
  "default_bluetooth_transport =
     \<lparr>bt_classic_spp = False, bt_classic_vendor = False, bt_ble = False, bt_mfi = False,
      bt_vendor_sdk = False, bt_mfi_protocol = [], bt_mfi_protocol_vendor_gated = False,
      bt_ble_profile_unknown = False, bt_receive_buffer_bytes = 0,
      bt_bluetooth_receive_buffer_bytes = 0\<rparr>"

record transport_capabilities =
  tr_raw_tcp_9100 :: bool
  tr_serial :: bool
  tr_usb :: bool
  tr_wifi :: bool
  tr_epos :: bool
  tr_bluetooth :: bluetooth_transport

definition default_transport_capabilities :: transport_capabilities where
  "default_transport_capabilities =
     \<lparr>tr_raw_tcp_9100 = True, tr_serial = False, tr_usb = False, tr_wifi = False,
      tr_epos = False, tr_bluetooth = default_bluetooth_transport\<rparr>"

record completion_capabilities =
  cc_process_id_gs_h :: bool
  cc_queued_gs_r :: bool
  cc_vendor_idle :: bool
  cc_epos_job_id :: bool
  cc_try_process_id_gs_h :: bool
  cc_one_job_in_flight :: bool
  cc_prefer_vendor_sdk :: bool
  cc_process_id_gs_h_provenance :: provenance
  cc_queued_gs_r_provenance :: provenance
  cc_vendor_idle_provenance :: provenance
  cc_epos_job_id_provenance :: provenance

definition default_completion_capabilities :: completion_capabilities where
  "default_completion_capabilities =
     \<lparr>cc_process_id_gs_h = False, cc_queued_gs_r = True, cc_vendor_idle = False,
      cc_epos_job_id = False, cc_try_process_id_gs_h = False, cc_one_job_in_flight = True,
      cc_prefer_vendor_sdk = False, cc_process_id_gs_h_provenance = PV_Unverified,
      cc_queued_gs_r_provenance = PV_Unverified, cc_vendor_idle_provenance = PV_Unverified,
      cc_epos_job_id_provenance = PV_Unverified\<rparr>"

record status_capabilities =
  ss_dle_eot :: bool
  ss_asb :: bool
  ss_extended_asb :: bool
  ss_cutter_error :: bool
  ss_dle_eot_provenance :: provenance
  ss_asb_provenance :: provenance
  ss_extended_asb_provenance :: provenance
  ss_cutter_error_provenance :: provenance

definition default_status_capabilities :: status_capabilities where
  "default_status_capabilities =
     \<lparr>ss_dle_eot = True, ss_asb = True, ss_extended_asb = False, ss_cutter_error = True,
      ss_dle_eot_provenance = PV_Unverified, ss_asb_provenance = PV_Unverified,
      ss_extended_asb_provenance = PV_Unverified, ss_cutter_error_provenance = PV_Unverified\<rparr>"

record recovery_capabilities =
  rc_dle_enq_resume :: bool
  rc_dle_enq_clear :: bool
  rc_clear_buffers :: bool

definition default_recovery_capabilities :: recovery_capabilities where
  "default_recovery_capabilities =
     \<lparr>rc_dle_enq_resume = False, rc_dle_enq_clear = False, rc_clear_buffers = False\<rparr>"

record quirks =
  qk_extra_feed_before_cut :: u8
  qk_unreliable_identity :: bool
  qk_delayed_status :: bool
  qk_response_parser :: response_parser_variant

definition default_quirks :: quirks where
  "default_quirks =
     \<lparr>qk_extra_feed_before_cut = 0, qk_unreliable_identity = False,
      qk_delayed_status = False, qk_response_parser = RV_EpsonLike\<rparr>"

record star_capabilities =
  sr_etb_counter :: bool
  sr_esc_gs_etx :: bool
  sr_exclusive_single_session :: bool
  sr_asb_block_bytes :: u8
  sr_raster_line_mode :: bool
  sr_etb_provenance :: provenance
  sr_esc_gs_etx_provenance :: provenance

definition default_star_capabilities :: star_capabilities where
  "default_star_capabilities =
     \<lparr>sr_etb_counter = False, sr_esc_gs_etx = False, sr_exclusive_single_session = False,
      sr_asb_block_bytes = 8, sr_raster_line_mode = True, sr_etb_provenance = PV_Unverified,
      sr_esc_gs_etx_provenance = PV_Unverified\<rparr>"

record epos_capabilities =
  ep_spooler :: bool
  ep_job_id :: bool
  ep_device_id :: string
  ep_timeout_ms :: u32
  ep_spooler_provenance :: provenance

definition default_epos_capabilities :: epos_capabilities where
  "default_epos_capabilities =
     \<lparr>ep_spooler = False, ep_job_id = False, ep_device_id = ''local_printer'',
      ep_timeout_ms = 60000, ep_spooler_provenance = PV_Unverified\<rparr>"

record render_capabilities =
  rd_barcode_gs_k :: bool
  rd_qr_gs_paren_k :: bool
  rd_raster_gs_v :: bool

definition default_render_capabilities :: render_capabilities where
  "default_render_capabilities =
     \<lparr>rd_barcode_gs_k = True, rd_qr_gs_paren_k = True, rd_raster_gs_v = True\<rparr>"

record media_profile =
  md_nominal_roll_width_mm :: u16
  md_printable_width_mm :: u16
  md_printable_width_dots :: u32
  md_dpi :: u16
  md_paper_guide_58mm :: bool
  md_printable_width_dots_58mm :: u32
  md_black_mark_sensor :: bool
  md_gap_sensor :: bool
  md_near_end_sensor :: bool
  md_paper_end_sensor :: bool
  md_cover_sensor :: bool
  md_cutter :: bool
  md_full_cut :: bool
  md_partial_cut :: bool
  md_head_to_cutter_feed_dots :: u16

definition default_media_profile :: media_profile where
  "default_media_profile =
     \<lparr>md_nominal_roll_width_mm = 80, md_printable_width_mm = 72,
      md_printable_width_dots = kWidth80mm, md_dpi = 203, md_paper_guide_58mm = False,
      md_printable_width_dots_58mm = 0, md_black_mark_sensor = False, md_gap_sensor = False,
      md_near_end_sensor = False, md_paper_end_sensor = True, md_cover_sensor = True,
      md_cutter = True, md_full_cut = True, md_partial_cut = True,
      md_head_to_cutter_feed_dots = 120\<rparr>"

record capability_profile =
  cp_name :: string
  cp_identity :: device_identity
  cp_language :: command_language
  cp_languages :: command_languages
  cp_transport :: transport_capabilities
  cp_completion :: completion_mechanism
  cp_completion_vendor_id :: string
  cp_completion_caps :: completion_capabilities
  cp_status :: status_capabilities
  cp_recovery :: recovery_capabilities
  cp_quirks :: quirks
  cp_media :: media_profile
  cp_render :: render_capabilities
  cp_star :: star_capabilities
  cp_epos :: epos_capabilities
  cp_drawer :: drawer_capabilities
  cp_probed :: bool
  cp_cut :: cut_variant
  cp_chunk_bytes :: nat
  cp_inter_chunk_delay_ms :: u32
  cp_completion_timeout_ms :: u32
  cp_preflight_timeout_ms :: u32
  cp_final_feed_lines :: u8
  cp_code_page :: code_page

definition default_capability_profile :: capability_profile where
  "default_capability_profile =
     \<lparr>cp_name = ''generic-escpos'', cp_identity = default_device_identity,
      cp_language = LG_EscPos, cp_languages = default_command_languages,
      cp_transport = default_transport_capabilities, cp_completion = CM_GsR1,
      cp_completion_vendor_id = [], cp_completion_caps = default_completion_capabilities,
      cp_status = default_status_capabilities, cp_recovery = default_recovery_capabilities,
      cp_quirks = default_quirks, cp_media = default_media_profile,
      cp_render = default_render_capabilities, cp_star = default_star_capabilities,
      cp_epos = default_epos_capabilities, cp_drawer = default_drawer, cp_probed = False,
      cp_cut = CV_Partial, cp_chunk_bytes = 0, cp_inter_chunk_delay_ms = 0,
      cp_completion_timeout_ms = 15000, cp_preflight_timeout_ms = 2000, cp_final_feed_lines = 4,
      cp_code_page = PC437\<rparr>"

definition bluetooth_any :: "bluetooth_transport \<Rightarrow> bool" where
  "bluetooth_any b \<longleftrightarrow>
     bt_classic_spp b \<or> bt_classic_vendor b \<or> bt_ble b \<or> bt_mfi b \<or> bt_vendor_sdk b"

section \<open>Command languages\<close>

fun languages_add :: "command_language \<Rightarrow> command_languages \<Rightarrow> command_languages" where
  "languages_add LG_EscPos s = s\<lparr>cl_esc_pos := True\<rparr>"
| "languages_add LG_StarPrnt s = s\<lparr>cl_star_prnt := True\<rparr>"
| "languages_add LG_StarLine s = s\<lparr>cl_star_line := True\<rparr>"
| "languages_add LG_EposXml s = s\<lparr>cl_epos_xml := True\<rparr>"
| "languages_add LG_Zpl s = s\<lparr>cl_zpl := True\<rparr>"
| "languages_add LG_Cpcl s = s\<lparr>cl_cpcl := True\<rparr>"
| "languages_add LG_BrotherRaster s = s\<lparr>cl_brother_raster := True\<rparr>"
| "languages_add LG_EscP s = s\<lparr>cl_esc_p := True\<rparr>"

fun languages_has :: "command_language \<Rightarrow> command_languages \<Rightarrow> bool" where
  "languages_has LG_EscPos s = cl_esc_pos s"
| "languages_has LG_StarPrnt s = cl_star_prnt s"
| "languages_has LG_StarLine s = cl_star_line s"
| "languages_has LG_EposXml s = cl_epos_xml s"
| "languages_has LG_Zpl s = cl_zpl s"
| "languages_has LG_Cpcl s = cl_cpcl s"
| "languages_has LG_BrotherRaster s = cl_brother_raster s"
| "languages_has LG_EscP s = cl_esc_p s"

definition languages_count :: "command_languages \<Rightarrow> nat" where
  "languages_count s =
     of_bool (cl_esc_pos s) + of_bool (cl_star_prnt s) + of_bool (cl_star_line s) +
     of_bool (cl_epos_xml s) + of_bool (cl_zpl s) + of_bool (cl_cpcl s) +
     of_bool (cl_brother_raster s) + of_bool (cl_esc_p s)"

definition setLanguage :: "command_language \<Rightarrow> capability_profile \<Rightarrow> capability_profile" where
  "setLanguage primary p =
     p\<lparr>cp_language := primary,
       cp_languages := languages_add primary default_command_languages\<rparr>"

section \<open>What a mechanism can claim\<close>

fun isDrivableByEscposEngine :: "completion_mechanism \<Rightarrow> bool" where
  "isDrivableByEscposEngine CM_GsParenH = True"
| "isDrivableByEscposEngine CM_GsR1 = True"
| "isDrivableByEscposEngine CM_None = True"
| "isDrivableByEscposEngine m = False"

fun isDrivableByStarEngine :: "completion_mechanism \<Rightarrow> bool" where
  "isDrivableByStarEngine CM_StarEtb = True"
| "isDrivableByStarEngine CM_StarEscGsEtx = True"
| "isDrivableByStarEngine CM_None = True"
| "isDrivableByStarEngine m = False"

fun mechanism_ceiling :: "completion_mechanism \<Rightarrow> confidence_level" where
  "mechanism_ceiling CM_GsParenH = CL_CutFaultFree"
| "mechanism_ceiling CM_GsR1 = CL_CutProcessed"
| "mechanism_ceiling CM_VendorIdle = CL_CutProcessed"
| "mechanism_ceiling CM_EposJobId = CL_CutProcessed"
| "mechanism_ceiling CM_StarCheckedBlock = CL_CutProcessed"
| "mechanism_ceiling CM_StarEtb = CL_CutProcessed"
| "mechanism_ceiling CM_StarEscGsEtx = CL_CutProcessed"
| "mechanism_ceiling CM_None = CL_TransportAccepted"

definition maxConfidence :: "capability_profile \<Rightarrow> confidence_level" where
  "maxConfidence p = mechanism_ceiling (cp_completion p)"

definition mk_evidence :: "confidence_grade \<Rightarrow> completion_authority \<Rightarrow> string \<Rightarrow> job_evidence" where
  "mk_evidence g a m = \<lparr>ev_grade = g, ev_authority = a, ev_method = m\<rparr>"

fun evidenceFor :: "completion_mechanism \<Rightarrow> job_evidence" where
  "evidenceFor CM_GsParenH = mk_evidence CG_A_JobLevelConfirmation CA_PhysicalPrinter ''GS(H) fn48''"
| "evidenceFor CM_GsR1 = mk_evidence CG_B_OrderedDeviceResponse CA_PhysicalPrinter ''GS r 1''"
| "evidenceFor CM_VendorIdle =
     mk_evidence CG_B_OrderedDeviceResponse CA_PhysicalPrinter ''vendor idle query''"
| "evidenceFor CM_EposJobId =
     mk_evidence CG_APlus_DurableQueryableJob CA_VendorSpooler ''ePOS JobID''"
| "evidenceFor CM_StarCheckedBlock =
     mk_evidence CG_A_JobLevelConfirmation CA_PhysicalPrinter ''Star checked block''"
| "evidenceFor CM_StarEtb = mk_evidence CG_A_JobLevelConfirmation CA_PhysicalPrinter ''ETB''"
| "evidenceFor CM_StarEscGsEtx =
     mk_evidence CG_A_JobLevelConfirmation CA_PhysicalPrinter ''ESC GS ETX''"
| "evidenceFor CM_None = mk_evidence CG_E_TransportOnly CA_TransportOnly ''transport-only''"

definition profile_evidence :: "capability_profile \<Rightarrow> job_evidence" where
  "profile_evidence p = evidenceFor (cp_completion p)"

section \<open>Which engine may drive the device\<close>

definition drivableByEscposEngine :: "capability_profile \<Rightarrow> bool" where
  "drivableByEscposEngine p \<longleftrightarrow>
     cp_language p = LG_EscPos \<and> isDrivableByEscposEngine (cp_completion p)"

definition drivableByStarEngine :: "capability_profile \<Rightarrow> bool" where
  "drivableByStarEngine p =
     (if cp_language p \<noteq> LG_StarPrnt \<and> cp_language p \<noteq> LG_StarLine then False
      else if \<not> isDrivableByStarEngine (cp_completion p) then False
      else if cp_completion p = CM_StarEtb \<and> \<not> sr_exclusive_single_session (cp_star p) then False
      else True)"

definition drivable :: "capability_profile \<Rightarrow> bool" where
  "drivable p \<longleftrightarrow> drivableByEscposEngine p \<or> drivableByStarEngine p"

section \<open>The two built-in profiles\<close>

text \<open>Updates of the parts of a profile, one per member the sources assign through.\<close>

definition on_identity where
  "on_identity f p = p\<lparr>cp_identity := f (cp_identity p)\<rparr>" for p :: capability_profile
definition on_languages where
  "on_languages f p = p\<lparr>cp_languages := f (cp_languages p)\<rparr>" for p :: capability_profile
definition on_transport where
  "on_transport f p = p\<lparr>cp_transport := f (cp_transport p)\<rparr>" for p :: capability_profile
definition on_bluetooth where
  "on_bluetooth f p = on_transport (\<lambda>t. t\<lparr>tr_bluetooth := f (tr_bluetooth t)\<rparr>) p"
definition on_completion where
  "on_completion f p = p\<lparr>cp_completion_caps := f (cp_completion_caps p)\<rparr>" for p :: capability_profile
definition on_status where
  "on_status f p = p\<lparr>cp_status := f (cp_status p)\<rparr>" for p :: capability_profile
definition on_recovery where
  "on_recovery f p = p\<lparr>cp_recovery := f (cp_recovery p)\<rparr>" for p :: capability_profile
definition on_quirks where
  "on_quirks f p = p\<lparr>cp_quirks := f (cp_quirks p)\<rparr>" for p :: capability_profile
definition on_media where
  "on_media f p = p\<lparr>cp_media := f (cp_media p)\<rparr>" for p :: capability_profile
definition on_star where
  "on_star f p = p\<lparr>cp_star := f (cp_star p)\<rparr>" for p :: capability_profile
definition on_epos where
  "on_epos f p = p\<lparr>cp_epos := f (cp_epos p)\<rparr>" for p :: capability_profile
definition on_render where
  "on_render f p = p\<lparr>cp_render := f (cp_render p)\<rparr>" for p :: capability_profile
definition on_drawer where
  "on_drawer f p = p\<lparr>cp_drawer := f (cp_drawer p)\<rparr>" for p :: capability_profile
definition on_electrical where
  "on_electrical f p = on_drawer (\<lambda>d. d\<lparr>dc_electrical := f (dc_electrical d)\<rparr>) p"
definition on_kick where
  "on_kick f p = on_drawer (\<lambda>d. d\<lparr>dc_kick := f (dc_kick d)\<rparr>) p"
definition on_sensing where
  "on_sensing f p = on_drawer (\<lambda>d. d\<lparr>dc_status := f (dc_status d)\<rparr>) p"
definition on_drawer_evidence where
  "on_drawer_evidence f p = on_drawer (\<lambda>d. d\<lparr>dc_evidence := f (dc_evidence d)\<rparr>) p"

lemmas on_defs =
  on_identity_def on_languages_def on_transport_def on_bluetooth_def on_completion_def
  on_status_def on_recovery_def on_quirks_def on_media_def on_star_def on_epos_def
  on_render_def on_drawer_def on_electrical_def on_kick_def on_sensing_def on_drawer_evidence_def

definition xp_s260m :: capability_profile where
  "xp_s260m =
     (let p = default_capability_profile;
          p = p\<lparr>cp_name := ''xp-s260m''\<rparr>;
          p = on_identity (\<lambda>r. r\<lparr>id_vendor := ''Xprinter'', id_model := ''XP-S260M''\<rparr>) p;
          p = setLanguage LG_EscPos p;
          p = p\<lparr>cp_completion := CM_GsParenH\<rparr>;
          p = on_completion (\<lambda>r. r\<lparr>cc_process_id_gs_h := True, cc_queued_gs_r := True\<rparr>) p;
          p = p\<lparr>cp_cut := CV_Partial\<rparr>;
          p = on_status (\<lambda>r. r\<lparr>ss_dle_eot := True, ss_asb := True,
            ss_cutter_error := True\<rparr>) p;
          p = on_completion (\<lambda>r. r\<lparr>cc_process_id_gs_h_provenance := PV_Probed,
            cc_queued_gs_r_provenance := PV_Probed\<rparr>) p;
          p = on_status (\<lambda>r. r\<lparr>ss_dle_eot_provenance := PV_Probed,
            ss_asb_provenance := PV_Probed, ss_cutter_error_provenance := PV_Probed\<rparr>) p;
          p = on_media (\<lambda>r. r\<lparr>md_black_mark_sensor := True,
            md_head_to_cutter_feed_dots := 120\<rparr>) p;
          p = p\<lparr>cp_chunk_bytes := 0, cp_inter_chunk_delay_ms := 0,
            cp_completion_timeout_ms := 15000, cp_preflight_timeout_ms := 2000,
            cp_final_feed_lines := 3, cp_code_page := PC852\<rparr>;
          p = on_drawer (\<lambda>r. r\<lparr>dc_present := True\<rparr>) p;
          p = on_electrical (\<lambda>r. r\<lparr>de_standard := PS_Epson24V6P6C, de_voltage := 24,
            de_max_current_ma := 1000, de_channel_count := 2, de_sensor_pin := 3\<rparr>) p;
          p = on_kick (\<lambda>r. r\<lparr>dk_method := KM_EpsonEscP, dk_default_pulse_ms := 200,
            dk_max_pulse_ms := 500, dk_cooldown_ms := 500\<rparr>) p;
          p = on_drawer_evidence (\<lambda>r. r\<lparr>dv_electrical := PV_Documented,
            dv_commands := PV_Unverified\<rparr>) p;
          p = on_drawer (\<lambda>r. r\<lparr>dc_note := ((''Drawer output documented as DC 24 V / 1 A. ESC p, the drawer status '' @
             ''read and channel 2 are unproven on this brand: a pulse here honestly '' @
             ''ends at KickSentUnverified until '') @ [CHR 0x60] @ ''pdctl drawer test'' @ [CHR 0x60] @ '' establishes otherwise.'')\<rparr>) p
      in p)"

definition generic_escpos :: capability_profile where
  "generic_escpos =
     (let p = default_capability_profile;
          p = p\<lparr>cp_name := ''generic-escpos''\<rparr>;
          p = setLanguage LG_EscPos p;
          p = p\<lparr>cp_completion := CM_GsR1\<rparr>;
          p = on_completion (\<lambda>r. r\<lparr>cc_process_id_gs_h := False, cc_queued_gs_r := True\<rparr>) p;
          p = p\<lparr>cp_cut := CV_Partial\<rparr>;
          p = on_status (\<lambda>r. r\<lparr>ss_dle_eot := True, ss_asb := True,
            ss_cutter_error := True\<rparr>) p;
          p = on_quirks (\<lambda>r. r\<lparr>qk_unreliable_identity := True\<rparr>) p;
          p = p\<lparr>cp_chunk_bytes := 1024, cp_inter_chunk_delay_ms := 20,
            cp_completion_timeout_ms := 20000, cp_preflight_timeout_ms := 2000,
            cp_final_feed_lines := 6, cp_code_page := PC437\<rparr>
      in p)"

section \<open>The tables agree\<close>

lemma drivable_mechanism:
  "drivable p \<Longrightarrow> cp_completion p \<in> {CM_GsParenH, CM_GsR1, CM_None, CM_StarEtb, CM_StarEscGsEtx}"
  by (cases "cp_completion p")
    (auto simp: drivable_def drivableByEscposEngine_def drivableByStarEngine_def split: if_splits)

text \<open>
  No engine ever claims more than its mechanism supports. A profile is driven by at most
  one engine; a drivable one reaches a confirmation above the transport exactly when its
  evidence is graded better than transport-only and names the physical printer; a fault-free
  cut is within reach only over \<^verbatim>\<open>GS ( H\<close>; and ETB is driven only in an exclusive session.
\<close>

theorem drivable_claims_bounded:
  assumes "drivable p"
  shows "(drivableByEscposEngine p \<longleftrightarrow> \<not> drivableByStarEngine p) \<and>
    (CL_PrintConfirmed \<le> maxConfidence p \<longleftrightarrow>
      ev_grade (profile_evidence p) \<noteq> CG_E_TransportOnly) \<and>
    (CL_PrintConfirmed \<le> maxConfidence p \<longleftrightarrow>
      ev_authority (profile_evidence p) = CA_PhysicalPrinter) \<and>
    (CL_CutFaultFree \<le> maxConfidence p \<longleftrightarrow> cp_completion p = CM_GsParenH) \<and>
    \<not> (cp_completion p = CM_StarEtb \<and> \<not> sr_exclusive_single_session (cp_star p))"
  using assms drivable_mechanism [OF assms]
  by (auto simp: drivable_def drivableByEscposEngine_def drivableByStarEngine_def maxConfidence_def
      profile_evidence_def mk_evidence_def level_order split: if_splits)

theorem drivable_claims_bounded_witness:
  "drivableByEscposEngine xp_s260m \<and> \<not> drivableByStarEngine xp_s260m \<and>
   CL_CutFaultFree \<le> maxConfidence xp_s260m"
proof -
  have "cp_completion xp_s260m = CM_GsParenH" "cp_language xp_s260m = LG_EscPos"
    by (simp_all add: xp_s260m_def on_defs setLanguage_def)
  then have "drivable xp_s260m" "drivableByEscposEngine xp_s260m"
    by (simp_all add: drivable_def drivableByEscposEngine_def)
  then show ?thesis
    using drivable_claims_bounded [of xp_s260m] \<open>cp_completion xp_s260m = CM_GsParenH\<close> by simp
qed

end
