(* ===== verification/Device_Profiles.thy ===== *)
theory Device_Profiles imports
  Capability_Profile
begin

text \<open>
  The device database, \<^verbatim>\<open>core/src/device_profiles.cpp\<close>: one definition per profile
  function, in the order of the sources, as the chain of assignments the function makes to a
  copy of its base; the table of names; and the lookups. The lemmas check the invariants of
  the database entry by entry: every name is found under itself, no shipped entry selects a
  fence its capability facts do not record, and no port that may be energised is
  unclassified.
\<close>

section \<open>Shared bases and the profiles\<close>

definition thermal80 :: capability_profile where
  "thermal80 =
     (let p = default_capability_profile;
          p = setLanguage LG_EscPos p;
          p = p\<lparr>cp_completion := CM_GsR1\<rparr>;
          p = on_completion (\<lambda>r. r\<lparr>cc_queued_gs_r := True\<rparr>) p;
          p = p\<lparr>cp_cut := CV_Partial\<rparr>;
          p = on_media (\<lambda>r. r\<lparr>md_nominal_roll_width_mm := 80,
            md_printable_width_mm := 72, md_printable_width_dots := kWidth80mm,
            md_dpi := 203, md_cutter := True, md_partial_cut := True, md_full_cut := True,
            md_head_to_cutter_feed_dots := 120\<rparr>) p;
          p = p\<lparr>cp_chunk_bytes := 0, cp_inter_chunk_delay_ms := 0,
            cp_completion_timeout_ms := 15000, cp_preflight_timeout_ms := 2000,
            cp_final_feed_lines := 4, cp_code_page := PC437\<rparr>
      in p)"

definition makeFiftyEight :: "capability_profile \<Rightarrow> capability_profile" where
  "makeFiftyEight p =
     (let p = on_media (\<lambda>r. r\<lparr>md_nominal_roll_width_mm := 58,
            md_printable_width_mm := 48, md_printable_width_dots := kWidth58mm,
            md_printable_width_dots_58mm := 0, md_paper_guide_58mm := False,
            md_full_cut := False\<rparr>) p
      in p)"

definition makePortable :: "capability_profile \<Rightarrow> capability_profile" where
  "makePortable p =
     (let p = on_media (\<lambda>r. r\<lparr>md_cutter := False, md_full_cut := False,
            md_partial_cut := False\<rparr>) p;
          p = p\<lparr>cp_cut := CV_None\<rparr>;
          p = on_media (\<lambda>r. r\<lparr>md_head_to_cutter_feed_dots := 0\<rparr>) p;
          p = on_transport (\<lambda>r. r\<lparr>tr_raw_tcp_9100 := False, tr_usb := True\<rparr>) p;
          p = p\<lparr>cp_drawer := default_drawer\<rparr>
      in p)"

definition makeEpsonStyleDrawerPort :: "provenance \<Rightarrow> capability_profile \<Rightarrow> capability_profile" where
  "makeEpsonStyleDrawerPort electrical p =
     (let p = on_drawer (\<lambda>r. r\<lparr>dc_present := True\<rparr>) p;
          p = on_electrical (\<lambda>r. r\<lparr>de_standard := PS_Epson24V6P6C, de_voltage := 24,
            de_max_current_ma := 1000, de_channel_count := 2, de_sensor_pin := 3\<rparr>) p;
          p = on_sensing (\<lambda>r. r\<lparr>dn_shared_between_drawers := True\<rparr>) p;
          p = on_drawer_evidence (\<lambda>r. r\<lparr>dv_electrical := electrical\<rparr>) p
      in p)"

definition makeEscPosDrawerCommands :: "drawer_kick_method \<Rightarrow> provenance \<Rightarrow> capability_profile \<Rightarrow> capability_profile" where
  "makeEscPosDrawerCommands method commands p =
     (let p = on_kick (\<lambda>r. r\<lparr>dk_method := method, dk_default_pulse_ms := 200,
            dk_max_pulse_ms := 500, dk_cooldown_ms := 500, dk_can_kick_during_print := True\<rparr>) p;
          p = on_sensing (\<lambda>r. r\<lparr>dn_available := (commands = PV_Documented)\<rparr>) p;
          p = on_sensing (\<lambda>r. r\<lparr>dn_method := (if dn_available r then SM_GsR2 else SM_None)\<rparr>) p;
          p = on_drawer_evidence (\<lambda>r. r\<lparr>dv_commands := commands\<rparr>) p
      in p)"

definition makeUnclassifiedDrawerPort :: "string \<Rightarrow> capability_profile \<Rightarrow> capability_profile" where
  "makeUnclassifiedDrawerPort note p =
     (let p = p\<lparr>cp_drawer := default_drawer\<rparr>;
          p = on_drawer (\<lambda>r. r\<lparr>dc_present := True\<rparr>) p;
          p = on_electrical (\<lambda>r. r\<lparr>de_standard := PS_Unknown\<rparr>) p;
          p = on_kick (\<lambda>r. r\<lparr>dk_method := KM_Unsupported\<rparr>) p;
          p = on_drawer (\<lambda>r. r\<lparr>dc_note := note\<rparr>) p
      in p)"

definition epsonBase :: capability_profile where
  "epsonBase =
     (let p = thermal80;
          p = on_identity (\<lambda>r. r\<lparr>id_vendor := ''Epson''\<rparr>) p;
          p = p\<lparr>cp_completion := CM_GsParenH\<rparr>;
          p = on_completion (\<lambda>r. r\<lparr>cc_process_id_gs_h := True,
            cc_try_process_id_gs_h := True\<rparr>) p;
          p = on_status (\<lambda>r. r\<lparr>ss_dle_eot := True, ss_asb := True,
            ss_cutter_error := True\<rparr>) p;
          p = on_completion (\<lambda>r. r\<lparr>cc_process_id_gs_h_provenance := PV_Documented,
            cc_queued_gs_r_provenance := PV_Documented\<rparr>) p;
          p = on_status (\<lambda>r. r\<lparr>ss_dle_eot_provenance := PV_Documented,
            ss_asb_provenance := PV_Documented, ss_cutter_error_provenance := PV_Documented\<rparr>) p;
          p = on_recovery (\<lambda>r. r\<lparr>rc_dle_enq_resume := True, rc_dle_enq_clear := True,
            rc_clear_buffers := True\<rparr>) p;
          p = on_transport (\<lambda>r. r\<lparr>tr_usb := True, tr_serial := True\<rparr>) p;
          p = on_bluetooth (\<lambda>r. r\<lparr>bt_mfi_protocol := ''com.epson.escpos'',
            bt_ble_profile_unknown := True\<rparr>) p;
          p = p\<lparr>cp_final_feed_lines := 3\<rparr>;
          p = on_media (\<lambda>r. r\<lparr>md_head_to_cutter_feed_dots := 100\<rparr>) p;
          p = makeEpsonStyleDrawerPort PV_Documented p;
          p = makeEscPosDrawerCommands KM_EpsonEscP PV_Documented p;
          p = on_drawer (\<lambda>r. r\<lparr>dc_shared_with_buzzer := True\<rparr>) p
      in p)"

definition makeEpsonDualWidth :: "capability_profile \<Rightarrow> capability_profile" where
  "makeEpsonDualWidth p =
     (let p = on_media (\<lambda>r. r\<lparr>md_paper_guide_58mm := True,
            md_printable_width_dots_58mm := 420\<rparr>) p
      in p)"

definition makeEpsonPortableBluetooth :: "capability_profile \<Rightarrow> capability_profile" where
  "makeEpsonPortableBluetooth p =
     (let p = on_bluetooth (\<lambda>r. r\<lparr>bt_classic_spp := True, bt_ble := True,
            bt_receive_buffer_bytes := 4096, bt_bluetooth_receive_buffer_bytes := 65536\<rparr>) p;
          p = on_transport (\<lambda>r. r\<lparr>tr_wifi := True, tr_raw_tcp_9100 := True\<rparr>) p
      in p)"

definition rongtaBase :: capability_profile where
  "rongtaBase =
     (let p = thermal80;
          p = on_identity (\<lambda>r. r\<lparr>id_vendor := ''Rongta''\<rparr>) p;
          p = on_status (\<lambda>r. r\<lparr>ss_dle_eot := True, ss_asb := True,
            ss_cutter_error := True\<rparr>) p;
          p = on_recovery (\<lambda>r. r\<lparr>rc_dle_enq_resume := True, rc_dle_enq_clear := True\<rparr>) p;
          p = on_quirks (\<lambda>r. r\<lparr>qk_unreliable_identity := True\<rparr>) p;
          p = on_transport (\<lambda>r. r\<lparr>tr_usb := True, tr_serial := True\<rparr>) p;
          p = on_completion (\<lambda>r. r\<lparr>cc_try_process_id_gs_h := True\<rparr>) p;
          p = p\<lparr>cp_final_feed_lines := 6, cp_code_page := PC852\<rparr>;
          p = makeEpsonStyleDrawerPort PV_Documented p;
          p = makeEscPosDrawerCommands KM_EpsonEscP PV_Unverified p
      in p)"

definition xprinterBase :: capability_profile where
  "xprinterBase =
     (let p = thermal80;
          p = on_identity (\<lambda>r. r\<lparr>id_vendor := ''Xprinter''\<rparr>) p;
          p = on_status (\<lambda>r. r\<lparr>ss_dle_eot := True, ss_asb := True,
            ss_cutter_error := True\<rparr>) p;
          p = on_transport (\<lambda>r. r\<lparr>tr_usb := True, tr_serial := True\<rparr>) p;
          p = p\<lparr>cp_code_page := PC852\<rparr>;
          p = makeUnclassifiedDrawerPort (''Drawer voltage is a MODEL fact on this brand: several 58 mm models '' @
             ''specify 12 V / 1 A while 80 mm units are commonly 24 V. Identify the '' @
             ''model and its published drawer output before connecting a drawer.'') p
      in p)"

definition starBase :: capability_profile where
  "starBase =
     (let p = thermal80;
          p = on_identity (\<lambda>r. r\<lparr>id_vendor := ''Star Micronics''\<rparr>) p;
          p = setLanguage LG_StarPrnt p;
          p = p\<lparr>cp_completion := CM_StarCheckedBlock\<rparr>;
          p = on_completion (\<lambda>r. r\<lparr>cc_queued_gs_r := False,
            cc_prefer_vendor_sdk := True, cc_vendor_idle_provenance := PV_Documented\<rparr>) p;
          p = on_status (\<lambda>r. r\<lparr>ss_dle_eot := False, ss_asb := False,
            ss_cutter_error := False\<rparr>) p;
          p = on_quirks (\<lambda>r. r\<lparr>qk_response_parser := RV_StarPrnt\<rparr>) p;
          p = on_transport (\<lambda>r. r\<lparr>tr_usb := True\<rparr>) p;
          p = on_star (\<lambda>r. r\<lparr>sr_etb_counter := True, sr_esc_gs_etx := True,
            sr_etb_provenance := PV_Documented, sr_esc_gs_etx_provenance := PV_Documented\<rparr>) p;
          p = on_bluetooth (\<lambda>r. r\<lparr>bt_mfi_protocol := ''jp.star-m.starpro'',
            bt_ble_profile_unknown := True\<rparr>) p;
          p = on_drawer (\<lambda>r. r\<lparr>dc_present := True\<rparr>) p;
          p = on_electrical (\<lambda>r. r\<lparr>de_standard := PS_Star24V6P6C, de_voltage := 24,
            de_max_current_ma := 1000, de_channel_count := 2, de_sensor_pin := 6\<rparr>) p;
          p = on_kick (\<lambda>r. r\<lparr>dk_method := KM_StarPrnt, dk_default_pulse_ms := 200,
            dk_max_pulse_ms := 500, dk_cooldown_ms := 500\<rparr>) p;
          p = on_sensing (\<lambda>r. r\<lparr>dn_available := True, dn_method := SM_StarSignal,
            dn_shared_between_drawers := False\<rparr>) p;
          p = on_drawer (\<lambda>r. r\<lparr>dc_shared_with_buzzer := True\<rparr>) p;
          p = on_drawer_evidence (\<lambda>r. r\<lparr>dv_electrical := PV_Documented,
            dv_commands := PV_Documented\<rparr>) p;
          p = on_drawer (\<lambda>r. r\<lparr>dc_note := (''Star pinout: +24 V on pin 3, sense on pin 6 '' @ [CHR 0xE2] @ [CHR 0x80] @ [CHR 0x94] @ ('' the reverse of the Epson arrangement. Use a Star-specific drawer '' @
             ''cable. The kick is StarPRNT appendPeripheral and the sense line is '' @
             ''drawerOpenCloseSignal, neither of which this ESC/POS engine speaks; the '' @
             ''true/false meaning of the signal still depends on the attached drawer, '' @
             ''so calibrate before trusting it.''))\<rparr>) p
      in p)"

definition starRawBase :: capability_profile where
  "starRawBase =
     (let p = starBase;
          p = setLanguage LG_StarLine p;
          p = on_languages (languages_add LG_StarPrnt) p;
          p = p\<lparr>cp_completion := CM_StarEscGsEtx\<rparr>;
          p = on_star (\<lambda>r. r\<lparr>sr_exclusive_single_session := False,
            sr_raster_line_mode := True, sr_asb_block_bytes := 8\<rparr>) p
      in p)"

definition bixolonBase :: capability_profile where
  "bixolonBase =
     (let p = thermal80;
          p = on_identity (\<lambda>r. r\<lparr>id_vendor := ''Bixolon''\<rparr>) p;
          p = on_completion (\<lambda>r. r\<lparr>cc_prefer_vendor_sdk := True\<rparr>) p;
          p = on_status (\<lambda>r. r\<lparr>ss_dle_eot := True, ss_asb := True,
            ss_cutter_error := True\<rparr>) p;
          p = on_quirks (\<lambda>r. r\<lparr>qk_unreliable_identity := True\<rparr>) p;
          p = on_transport (\<lambda>r. r\<lparr>tr_usb := True, tr_serial := True\<rparr>) p;
          p = on_bluetooth (\<lambda>r. r\<lparr>bt_mfi_protocol := ''com.bixolon.protocol'',
            bt_ble_profile_unknown := True\<rparr>) p;
          p = makeEpsonStyleDrawerPort PV_Documented p;
          p = on_kick (\<lambda>r. r\<lparr>dk_method := KM_BixolonSdk, dk_default_pulse_ms := 200,
            dk_max_pulse_ms := 500, dk_cooldown_ms := 500\<rparr>) p;
          p = on_sensing (\<lambda>r. r\<lparr>dn_available := True, dn_method := SM_VendorSdk\<rparr>) p;
          p = on_drawer_evidence (\<lambda>r. r\<lparr>dv_commands := PV_Documented\<rparr>) p
      in p)"

definition citizenBase :: capability_profile where
  "citizenBase =
     (let p = thermal80;
          p = on_identity (\<lambda>r. r\<lparr>id_vendor := ''Citizen''\<rparr>) p;
          p = on_status (\<lambda>r. r\<lparr>ss_dle_eot := True, ss_asb := True,
            ss_cutter_error := True\<rparr>) p;
          p = on_transport (\<lambda>r. r\<lparr>tr_usb := True, tr_serial := True\<rparr>) p;
          p = on_bluetooth (\<lambda>r. r\<lparr>bt_mfi_protocol_vendor_gated := True\<rparr>) p;
          p = makeEpsonStyleDrawerPort PV_Documented p;
          p = makeEscPosDrawerCommands KM_CitizenEscP PV_Documented p;
          p = on_kick (\<lambda>r. r\<lparr>dk_can_kick_during_print := False\<rparr>) p;
          p = on_drawer (\<lambda>r. r\<lparr>dc_note := (''Drawer 1 and drawer 2 cannot be driven simultaneously, and on the '' @
             ''affected models the drawer output cannot fire while printing: the pulse '' @
             ''is serialised behind receipt completion.'')\<rparr>) p
      in p)"

definition snbcBase :: capability_profile where
  "snbcBase =
     (let p = thermal80;
          p = on_identity (\<lambda>r. r\<lparr>id_vendor := ''SNBC''\<rparr>) p;
          p = on_status (\<lambda>r. r\<lparr>ss_dle_eot := True, ss_asb := True,
            ss_cutter_error := True\<rparr>) p;
          p = on_transport (\<lambda>r. r\<lparr>tr_usb := True, tr_serial := True\<rparr>) p;
          p = on_completion (\<lambda>r. r\<lparr>cc_try_process_id_gs_h := True\<rparr>) p;
          p = makeEpsonStyleDrawerPort PV_Documented p;
          p = makeEscPosDrawerCommands KM_SnbcEscP PV_Documented p
      in p)"

definition partnerBase :: capability_profile where
  "partnerBase =
     (let p = thermal80;
          p = on_identity (\<lambda>r. r\<lparr>id_vendor := ''Partner Tech''\<rparr>) p;
          p = on_status (\<lambda>r. r\<lparr>ss_dle_eot := True, ss_asb := True,
            ss_cutter_error := True\<rparr>) p;
          p = on_recovery (\<lambda>r. r\<lparr>rc_dle_enq_resume := True, rc_dle_enq_clear := True\<rparr>) p;
          p = on_transport (\<lambda>r. r\<lparr>tr_usb := True, tr_serial := True\<rparr>) p;
          p = on_completion (\<lambda>r. r\<lparr>cc_try_process_id_gs_h := True\<rparr>) p;
          p = makeUnclassifiedDrawerPort ((''Probe required on every axis: connector pinout, drive voltage and '' @
             ''command set are all unestablished on this family. OEM resemblance to '' @
             ''another vendor'') @ [CHR 0x27] @ ''s unit is not evidence about either the wiring or the firmware.'') p
      in p)"

definition zebraBase :: capability_profile where
  "zebraBase =
     (let p = thermal80;
          p = on_identity (\<lambda>r. r\<lparr>id_vendor := ''Zebra''\<rparr>) p;
          p = setLanguage LG_Zpl p;
          p = on_languages (languages_add LG_Cpcl) p;
          p = p\<lparr>cp_completion := CM_None\<rparr>;
          p = on_completion (\<lambda>r. r\<lparr>cc_queued_gs_r := False,
            cc_prefer_vendor_sdk := True\<rparr>) p;
          p = on_status (\<lambda>r. r\<lparr>ss_dle_eot := False, ss_asb := False,
            ss_cutter_error := False\<rparr>) p;
          p = on_quirks (\<lambda>r. r\<lparr>qk_response_parser := RV_VendorRaw\<rparr>) p;
          p = on_media (\<lambda>r. r\<lparr>md_cutter := False, md_full_cut := False,
            md_partial_cut := False\<rparr>) p;
          p = p\<lparr>cp_cut := CV_None\<rparr>;
          p = on_media (\<lambda>r. r\<lparr>md_head_to_cutter_feed_dots := 0,
            md_black_mark_sensor := True, md_gap_sensor := True\<rparr>) p;
          p = on_transport (\<lambda>r. r\<lparr>tr_raw_tcp_9100 := False, tr_usb := True\<rparr>) p;
          p = on_bluetooth (\<lambda>r. r\<lparr>bt_classic_vendor := True, bt_ble := True,
            bt_vendor_sdk := True\<rparr>) p;
          p = on_transport (\<lambda>r. r\<lparr>tr_wifi := True, tr_raw_tcp_9100 := True\<rparr>) p;
          p = p\<lparr>cp_drawer := default_drawer\<rparr>
      in p)"

definition brotherBase :: capability_profile where
  "brotherBase =
     (let p = thermal80;
          p = on_identity (\<lambda>r. r\<lparr>id_vendor := ''Brother''\<rparr>) p;
          p = setLanguage LG_BrotherRaster p;
          p = on_languages (languages_add LG_EscP) p;
          p = p\<lparr>cp_completion := CM_None\<rparr>;
          p = on_completion (\<lambda>r. r\<lparr>cc_queued_gs_r := False,
            cc_prefer_vendor_sdk := True\<rparr>) p;
          p = on_status (\<lambda>r. r\<lparr>ss_dle_eot := False, ss_asb := False,
            ss_cutter_error := False\<rparr>) p;
          p = on_quirks (\<lambda>r. r\<lparr>qk_response_parser := RV_VendorRaw\<rparr>) p;
          p = on_media (\<lambda>r. r\<lparr>md_cutter := False, md_full_cut := False,
            md_partial_cut := False\<rparr>) p;
          p = p\<lparr>cp_cut := CV_None\<rparr>;
          p = on_media (\<lambda>r. r\<lparr>md_head_to_cutter_feed_dots := 0,
            md_black_mark_sensor := True\<rparr>) p;
          p = on_transport (\<lambda>r. r\<lparr>tr_raw_tcp_9100 := False, tr_usb := True\<rparr>) p;
          p = on_bluetooth (\<lambda>r. r\<lparr>bt_classic_vendor := True, bt_vendor_sdk := True\<rparr>) p;
          p = p\<lparr>cp_drawer := default_drawer\<rparr>
      in p)"

definition epson_tm_t20 :: capability_profile where
  "epson_tm_t20 =
     (let p = epsonBase;
          p = p\<lparr>cp_name := ''epson_tm_t20''\<rparr>;
          p = on_identity (\<lambda>r. r\<lparr>id_model := ''TM-T20 series''\<rparr>) p;
          p = makeEpsonDualWidth p
      in p)"

definition epson_tm_t20ii :: capability_profile where
  "epson_tm_t20ii =
     (let p = epson_tm_t20;
          p = p\<lparr>cp_name := ''epson_tm_t20ii''\<rparr>;
          p = on_identity (\<lambda>r. r\<lparr>id_model := ''TM-T20II''\<rparr>) p
      in p)"

definition epson_tm_t20iii :: capability_profile where
  "epson_tm_t20iii =
     (let p = epson_tm_t20;
          p = p\<lparr>cp_name := ''epson_tm_t20iii''\<rparr>;
          p = on_identity (\<lambda>r. r\<lparr>id_model := ''TM-T20III''\<rparr>) p;
          p = on_transport (\<lambda>r. r\<lparr>tr_epos := True\<rparr>) p;
          p = on_status (\<lambda>r. r\<lparr>ss_extended_asb := True\<rparr>) p
      in p)"

definition epson_tm_t20iv :: capability_profile where
  "epson_tm_t20iv =
     (let p = epson_tm_t20iii;
          p = p\<lparr>cp_name := ''epson_tm_t20iv''\<rparr>;
          p = on_identity (\<lambda>r. r\<lparr>id_model := ''TM-T20IV''\<rparr>) p
      in p)"

definition epson_tm_t70 :: capability_profile where
  "epson_tm_t70 =
     (let p = epsonBase;
          p = p\<lparr>cp_name := ''epson_tm_t70''\<rparr>;
          p = on_identity (\<lambda>r. r\<lparr>id_model := ''TM-T70 series''\<rparr>) p
      in p)"

definition epson_tm_t70ii :: capability_profile where
  "epson_tm_t70ii =
     (let p = epson_tm_t70;
          p = p\<lparr>cp_name := ''epson_tm_t70ii''\<rparr>;
          p = on_identity (\<lambda>r. r\<lparr>id_model := ''TM-T70II''\<rparr>) p;
          p = makeEpsonDualWidth p;
          p = on_transport (\<lambda>r. r\<lparr>tr_epos := True\<rparr>) p
      in p)"

definition epson_tm_t82 :: capability_profile where
  "epson_tm_t82 =
     (let p = epsonBase;
          p = p\<lparr>cp_name := ''epson_tm_t82''\<rparr>;
          p = on_identity (\<lambda>r. r\<lparr>id_model := ''TM-T82 series''\<rparr>) p;
          p = makeEpsonDualWidth p
      in p)"

definition epson_tm_t88 :: capability_profile where
  "epson_tm_t88 =
     (let p = epsonBase;
          p = p\<lparr>cp_name := ''epson_tm_t88''\<rparr>;
          p = on_identity (\<lambda>r. r\<lparr>id_model := ''TM-T88 series''\<rparr>) p;
          p = on_status (\<lambda>r. r\<lparr>ss_extended_asb := True\<rparr>) p;
          p = on_media (\<lambda>r. r\<lparr>md_near_end_sensor := True\<rparr>) p;
          p = makeEpsonDualWidth p;
          p = on_transport (\<lambda>r. r\<lparr>tr_epos := True\<rparr>) p
      in p)"

definition epson_tm_t88iv :: capability_profile where
  "epson_tm_t88iv =
     (let p = epson_tm_t88;
          p = p\<lparr>cp_name := ''epson_tm_t88iv''\<rparr>;
          p = on_identity (\<lambda>r. r\<lparr>id_model := ''TM-T88IV''\<rparr>) p;
          p = p\<lparr>cp_completion := CM_GsR1\<rparr>;
          p = on_completion (\<lambda>r. r\<lparr>cc_process_id_gs_h := False,
            cc_try_process_id_gs_h := True, cc_process_id_gs_h_provenance := PV_Unverified\<rparr>) p;
          p = on_status (\<lambda>r. r\<lparr>ss_extended_asb := False\<rparr>) p;
          p = on_transport (\<lambda>r. r\<lparr>tr_epos := False\<rparr>) p
      in p)"

definition epson_tm_t88v :: capability_profile where
  "epson_tm_t88v =
     (let p = epson_tm_t88;
          p = p\<lparr>cp_name := ''epson_tm_t88v''\<rparr>;
          p = on_identity (\<lambda>r. r\<lparr>id_model := ''TM-T88V''\<rparr>) p
      in p)"

definition epson_tm_t88vi :: capability_profile where
  "epson_tm_t88vi =
     (let p = epson_tm_t88;
          p = p\<lparr>cp_name := ''epson_tm_t88vi''\<rparr>;
          p = on_identity (\<lambda>r. r\<lparr>id_model := ''TM-T88VI''\<rparr>) p;
          p = on_transport (\<lambda>r. r\<lparr>tr_epos := True, tr_wifi := True\<rparr>) p;
          p = on_epos (\<lambda>r. r\<lparr>ep_spooler := True, ep_job_id := True,
            ep_spooler_provenance := PV_Documented\<rparr>) p
      in p)"

definition epson_tm_t88vii :: capability_profile where
  "epson_tm_t88vii =
     (let p = epson_tm_t88vi;
          p = p\<lparr>cp_name := ''epson_tm_t88vii''\<rparr>;
          p = on_identity (\<lambda>r. r\<lparr>id_model := ''TM-T88VII''\<rparr>) p;
          p = p\<lparr>cp_completion_timeout_ms := 12000\<rparr>;
          p = on_epos (\<lambda>r. r\<lparr>ep_spooler := False, ep_job_id := False,
            ep_spooler_provenance := PV_Documented\<rparr>) p
      in p)"

definition epson_tm_m :: capability_profile where
  "epson_tm_m =
     (let p = epsonBase;
          p = p\<lparr>cp_name := ''epson_tm_m''\<rparr>;
          p = on_identity (\<lambda>r. r\<lparr>id_model := ''TM-m series''\<rparr>) p;
          p = on_status (\<lambda>r. r\<lparr>ss_extended_asb := True\<rparr>) p;
          p = makeEpsonDualWidth p;
          p = on_transport (\<lambda>r. r\<lparr>tr_epos := True, tr_wifi := True\<rparr>) p;
          p = on_bluetooth (\<lambda>r. r\<lparr>bt_classic_spp := True, bt_ble := True\<rparr>) p;
          p = on_epos (\<lambda>r. r\<lparr>ep_spooler := False, ep_job_id := False,
            ep_spooler_provenance := PV_Documented\<rparr>) p
      in p)"

definition epson_tm_m10 :: capability_profile where
  "epson_tm_m10 =
     (let p = epson_tm_m;
          p = p\<lparr>cp_name := ''epson_tm_m10''\<rparr>;
          p = on_identity (\<lambda>r. r\<lparr>id_model := ''TM-m10''\<rparr>) p;
          p = makeFiftyEight p;
          p = on_media (\<lambda>r. r\<lparr>md_full_cut := False\<rparr>) p
      in p)"

definition epson_tm_m30 :: capability_profile where
  "epson_tm_m30 =
     (let p = epson_tm_m;
          p = p\<lparr>cp_name := ''epson_tm_m30''\<rparr>;
          p = on_identity (\<lambda>r. r\<lparr>id_model := ''TM-m30''\<rparr>) p
      in p)"

definition epson_tm_m30ii :: capability_profile where
  "epson_tm_m30ii =
     (let p = epson_tm_m30;
          p = p\<lparr>cp_name := ''epson_tm_m30ii''\<rparr>;
          p = on_identity (\<lambda>r. r\<lparr>id_model := ''TM-m30II''\<rparr>) p
      in p)"

definition epson_tm_m30iii :: capability_profile where
  "epson_tm_m30iii =
     (let p = epson_tm_m30ii;
          p = p\<lparr>cp_name := ''epson_tm_m30iii''\<rparr>;
          p = on_identity (\<lambda>r. r\<lparr>id_model := ''TM-m30III''\<rparr>) p;
          p = on_bluetooth (\<lambda>r. r\<lparr>bt_classic_spp := True, bt_ble := True\<rparr>) p;
          p = on_media (\<lambda>r. r\<lparr>md_near_end_sensor := True\<rparr>) p;
          p = p\<lparr>cp_completion_timeout_ms := 12000\<rparr>
      in p)"

definition epson_tm_m50 :: capability_profile where
  "epson_tm_m50 =
     (let p = epson_tm_m;
          p = p\<lparr>cp_name := ''epson_tm_m50''\<rparr>;
          p = on_identity (\<lambda>r. r\<lparr>id_model := ''TM-m50''\<rparr>) p;
          p = on_media (\<lambda>r. r\<lparr>md_near_end_sensor := True\<rparr>) p;
          p = p\<lparr>cp_completion_timeout_ms := 12000\<rparr>
      in p)"

definition epson_tm_m50ii :: capability_profile where
  "epson_tm_m50ii =
     (let p = epson_tm_m50;
          p = p\<lparr>cp_name := ''epson_tm_m50ii''\<rparr>;
          p = on_identity (\<lambda>r. r\<lparr>id_model := ''TM-m50II''\<rparr>) p
      in p)"

definition epson_tm_p20 :: capability_profile where
  "epson_tm_p20 =
     (let p = epsonBase;
          p = p\<lparr>cp_name := ''epson_tm_p20''\<rparr>;
          p = on_identity (\<lambda>r. r\<lparr>id_model := ''TM-P20''\<rparr>) p;
          p = makeFiftyEight p;
          p = makePortable p;
          p = makeEpsonPortableBluetooth p;
          p = on_media (\<lambda>r. r\<lparr>md_paper_end_sensor := True, md_cover_sensor := True\<rparr>) p
      in p)"

definition epson_tm_p20ii :: capability_profile where
  "epson_tm_p20ii =
     (let p = epson_tm_p20;
          p = p\<lparr>cp_name := ''epson_tm_p20ii''\<rparr>;
          p = on_identity (\<lambda>r. r\<lparr>id_model := ''TM-P20II''\<rparr>) p;
          p = on_media (\<lambda>r. r\<lparr>md_printable_width_mm := 48,
            md_printable_width_dots := kWidth58mm\<rparr>) p;
          p = on_completion (\<lambda>r. r\<lparr>cc_one_job_in_flight := True\<rparr>) p
      in p)"

definition epson_tm_p60 :: capability_profile where
  "epson_tm_p60 =
     (let p = epson_tm_p20;
          p = p\<lparr>cp_name := ''epson_tm_p60''\<rparr>;
          p = on_identity (\<lambda>r. r\<lparr>id_model := ''TM-P60''\<rparr>) p
      in p)"

definition epson_tm_p60ii :: capability_profile where
  "epson_tm_p60ii =
     (let p = epson_tm_p60;
          p = p\<lparr>cp_name := ''epson_tm_p60ii''\<rparr>;
          p = on_identity (\<lambda>r. r\<lparr>id_model := ''TM-P60II''\<rparr>) p
      in p)"

definition epson_tm_p80 :: capability_profile where
  "epson_tm_p80 =
     (let p = epsonBase;
          p = p\<lparr>cp_name := ''epson_tm_p80''\<rparr>;
          p = on_identity (\<lambda>r. r\<lparr>id_model := ''TM-P80''\<rparr>) p;
          p = makePortable p;
          p = makeEpsonPortableBluetooth p;
          p = on_media (\<lambda>r. r\<lparr>md_black_mark_sensor := True\<rparr>) p
      in p)"

definition epson_tm_p80ii :: capability_profile where
  "epson_tm_p80ii =
     (let p = epson_tm_p80;
          p = p\<lparr>cp_name := ''epson_tm_p80ii''\<rparr>;
          p = on_identity (\<lambda>r. r\<lparr>id_model := ''TM-P80II''\<rparr>) p
      in p)"

definition epson_tm_p80ii_autocutter :: capability_profile where
  "epson_tm_p80ii_autocutter =
     (let p = epson_tm_p80ii;
          p = p\<lparr>cp_name := ''epson_tm_p80ii_autocutter''\<rparr>;
          p = on_identity (\<lambda>r. r\<lparr>id_model := ''TM-P80II Auto Cutter Model''\<rparr>) p;
          p = on_media (\<lambda>r. r\<lparr>md_cutter := True, md_partial_cut := True,
            md_full_cut := False\<rparr>) p;
          p = p\<lparr>cp_cut := CV_Partial\<rparr>;
          p = on_media (\<lambda>r. r\<lparr>md_head_to_cutter_feed_dots := 100\<rparr>) p
      in p)"

definition epson_tm_u220 :: capability_profile where
  "epson_tm_u220 =
     (let p = epsonBase;
          p = p\<lparr>cp_name := ''epson_tm_u220''\<rparr>;
          p = on_identity (\<lambda>r. r\<lparr>id_model := ''TM-U220 series''\<rparr>) p;
          p = on_media (\<lambda>r. r\<lparr>md_nominal_roll_width_mm := 76,
            md_printable_width_mm := 63, md_printable_width_dots := 400, md_dpi := 160,
            md_full_cut := False\<rparr>) p;
          p = p\<lparr>cp_completion := CM_GsR1\<rparr>;
          p = on_completion (\<lambda>r. r\<lparr>cc_process_id_gs_h := False,
            cc_try_process_id_gs_h := False, cc_process_id_gs_h_provenance := PV_Unverified\<rparr>) p;
          p = p\<lparr>cp_completion_timeout_ms := 30000\<rparr>;
          p = on_quirks (\<lambda>r. r\<lparr>qk_delayed_status := True\<rparr>) p
      in p)"

definition epson_tm_u220ii :: capability_profile where
  "epson_tm_u220ii =
     (let p = epson_tm_u220;
          p = p\<lparr>cp_name := ''epson_tm_u220ii''\<rparr>;
          p = on_identity (\<lambda>r. r\<lparr>id_model := ''TM-U220II''\<rparr>) p
      in p)"

definition epson_tm_i :: capability_profile where
  "epson_tm_i =
     (let p = epsonBase;
          p = p\<lparr>cp_name := ''epson_tm_i''\<rparr>;
          p = on_identity (\<lambda>r. r\<lparr>id_model := ''TM-i / DT series''\<rparr>) p;
          p = on_completion (\<lambda>r. r\<lparr>cc_epos_job_id := True,
            cc_epos_job_id_provenance := PV_Documented\<rparr>) p;
          p = on_languages (languages_add LG_EposXml) p;
          p = on_transport (\<lambda>r. r\<lparr>tr_epos := True, tr_wifi := True\<rparr>) p;
          p = on_status (\<lambda>r. r\<lparr>ss_extended_asb := True\<rparr>) p;
          p = on_epos (\<lambda>r. r\<lparr>ep_spooler := True, ep_job_id := True,
            ep_spooler_provenance := PV_Documented\<rparr>) p
      in p)"

definition rongta_rp58 :: capability_profile where
  "rongta_rp58 =
     (let p = rongtaBase;
          p = p\<lparr>cp_name := ''rongta_rp58''\<rparr>;
          p = on_identity (\<lambda>r. r\<lparr>id_model := ''RP58 series''\<rparr>) p;
          p = makeFiftyEight p;
          p = p\<lparr>cp_chunk_bytes := 1024, cp_inter_chunk_delay_ms := 20\<rparr>;
          p = makeUnclassifiedDrawerPort (''DO NOT INHERIT the 80 mm family'' @ [CHR 0x27] @ (''s 24 V / 1 A drawer figures: this size class includes 12 V outputs, and '' @
             ''connecting a 24 V drawer to one risks the drive circuit. Establish the '' @
             ''port on the actual unit first.'')) p
      in p)"

definition rongta_rp80 :: capability_profile where
  "rongta_rp80 =
     (let p = rongtaBase;
          p = p\<lparr>cp_name := ''rongta_rp80''\<rparr>;
          p = on_identity (\<lambda>r. r\<lparr>id_model := ''RP80 family''\<rparr>) p
      in p)"

definition rongta_rp3xx :: capability_profile where
  "rongta_rp3xx =
     (let p = rongtaBase;
          p = p\<lparr>cp_name := ''rongta_rp3xx''\<rparr>;
          p = on_identity (\<lambda>r. r\<lparr>id_model := ''RP326 / RP331''\<rparr>) p;
          p = on_media (\<lambda>r. r\<lparr>md_printable_width_dots_58mm := kWidth58mm,
            md_paper_guide_58mm := True\<rparr>) p
      in p)"

definition rongta_rp8xx :: capability_profile where
  "rongta_rp8xx =
     (let p = rongtaBase;
          p = p\<lparr>cp_name := ''rongta_rp8xx''\<rparr>;
          p = on_identity (\<lambda>r. r\<lparr>id_model := ''RP8xx series''\<rparr>) p
      in p)"

definition xprinter_pos58 :: capability_profile where
  "xprinter_pos58 =
     (let p = xprinterBase;
          p = p\<lparr>cp_name := ''xprinter_pos58''\<rparr>;
          p = on_identity (\<lambda>r. r\<lparr>id_model := ''58 mm series''\<rparr>) p;
          p = makeFiftyEight p;
          p = p\<lparr>cp_chunk_bytes := 1024, cp_inter_chunk_delay_ms := 20, cp_final_feed_lines := 6\<rparr>
      in p)"

definition xprinter_pos80 :: capability_profile where
  "xprinter_pos80 =
     (let p = xprinterBase;
          p = p\<lparr>cp_name := ''xprinter_pos80''\<rparr>;
          p = on_identity (\<lambda>r. r\<lparr>id_model := ''80 mm series''\<rparr>) p;
          p = on_completion (\<lambda>r. r\<lparr>cc_try_process_id_gs_h := True\<rparr>) p;
          p = p\<lparr>cp_final_feed_lines := 6\<rparr>
      in p)"

definition xprinter_s_series :: capability_profile where
  "xprinter_s_series =
     (let p = xprinterBase;
          p = p\<lparr>cp_name := ''xprinter_s_series''\<rparr>;
          p = on_identity (\<lambda>r. r\<lparr>id_model := ''S series (S200/S260/S300)''\<rparr>) p;
          p = on_completion (\<lambda>r. r\<lparr>cc_try_process_id_gs_h := True,
            cc_vendor_idle := True\<rparr>) p;
          p = on_media (\<lambda>r. r\<lparr>md_black_mark_sensor := True\<rparr>) p;
          p = p\<lparr>cp_final_feed_lines := 3\<rparr>;
          p = makeEpsonStyleDrawerPort PV_Documented p;
          p = makeEscPosDrawerCommands KM_EpsonEscP PV_Unverified p;
          p = on_drawer (\<lambda>r. r\<lparr>dc_note := ((''Drawer output documented as DC 24 V / 1 A. ESC p, the drawer status '' @
             ''read and channel 2 are unproven on this brand: run '') @ [CHR 0x60] @ ''pdctl drawer test'' @ [CHR 0x60] @ '' on the unit before relying on a verified open.'')\<rparr>) p
      in p)"

definition xprinter_v_series :: capability_profile where
  "xprinter_v_series =
     (let p = xprinterBase;
          p = p\<lparr>cp_name := ''xprinter_v_series''\<rparr>;
          p = on_identity (\<lambda>r. r\<lparr>id_model := ''V series''\<rparr>) p;
          p = on_completion (\<lambda>r. r\<lparr>cc_try_process_id_gs_h := True\<rparr>) p;
          p = p\<lparr>cp_final_feed_lines := 6\<rparr>
      in p)"

definition xprinter_portable :: capability_profile where
  "xprinter_portable =
     (let p = xprinterBase;
          p = p\<lparr>cp_name := ''xprinter_portable''\<rparr>;
          p = on_identity (\<lambda>r. r\<lparr>id_model := ''portable (58 mm handheld)''\<rparr>) p;
          p = makeFiftyEight p;
          p = makePortable p;
          p = on_bluetooth (\<lambda>r. r\<lparr>bt_classic_spp := True\<rparr>) p;
          p = p\<lparr>cp_chunk_bytes := 512, cp_inter_chunk_delay_ms := 30, cp_final_feed_lines := 6\<rparr>
      in p)"

definition sewoo_slk_ts :: capability_profile where
  "sewoo_slk_ts =
     (let p = partnerBase;
          p = p\<lparr>cp_name := ''sewoo_slk_ts''\<rparr>;
          p = on_identity (\<lambda>r. r\<lparr>id_vendor := ''Sewoo'', id_model := ''SLK-TS series''\<rparr>) p;
          p = makeEpsonStyleDrawerPort PV_Documented p;
          p = makeEscPosDrawerCommands KM_EpsonEscP PV_Unverified p;
          p = on_drawer (\<lambda>r. r\<lparr>dc_note := (''Cash-box control documented as a 6-wire 24 V / 1 A socket. The command '' @
             ''implementation still needs verification on a unit, and must not be '' @
             ''assumed for any OEM sibling.'')\<rparr>) p
      in p)"

definition partner_rp110 :: capability_profile where
  "partner_rp110 =
     (let p = partnerBase;
          p = p\<lparr>cp_name := ''partner_rp110''\<rparr>;
          p = on_identity (\<lambda>r. r\<lparr>id_model := ''RP-110''\<rparr>) p;
          p = on_media (\<lambda>r. r\<lparr>md_near_end_sensor := True, md_black_mark_sensor := True\<rparr>) p;
          p = on_bluetooth (\<lambda>r. r\<lparr>bt_classic_spp := True, bt_ble := True\<rparr>) p;
          p = on_transport (\<lambda>r. r\<lparr>tr_wifi := True\<rparr>) p
      in p)"

definition snbc_btp_r880 :: capability_profile where
  "snbc_btp_r880 =
     (let p = snbcBase;
          p = p\<lparr>cp_name := ''snbc_btp_r880''\<rparr>;
          p = on_identity (\<lambda>r. r\<lparr>id_model := ''BTP-R880NP''\<rparr>) p;
          p = on_drawer (\<lambda>r. r\<lparr>dc_note := (''Programming manual documents both the queued ESC p pulse and the '' @
             ''realtime DLE DC4 n m t variant; the queued pulse is what this engine '' @
             ''emits, because a realtime pulse can overtake a receipt still in the '' @
             ''buffer.'')\<rparr>) p
      in p)"

definition snbc_btp_u80 :: capability_profile where
  "snbc_btp_u80 =
     (let p = snbcBase;
          p = p\<lparr>cp_name := ''snbc_btp_u80''\<rparr>;
          p = on_identity (\<lambda>r. r\<lparr>id_model := ''BTP-U80 family''\<rparr>) p;
          p = on_drawer_evidence (\<lambda>r. r\<lparr>dv_commands := PV_Unverified\<rparr>) p;
          p = on_sensing (\<lambda>r. r\<lparr>dn_available := False, dn_method := SM_None\<rparr>) p
      in p)"

definition partner_rp710 :: capability_profile where
  "partner_rp710 =
     (let p = partner_rp110;
          p = p\<lparr>cp_name := ''partner_rp710''\<rparr>;
          p = on_identity (\<lambda>r. r\<lparr>id_model := ''RP-710''\<rparr>) p
      in p)"

definition star_tsp100 :: capability_profile where
  "star_tsp100 =
     (let p = starRawBase;
          p = p\<lparr>cp_name := ''star_tsp100''\<rparr>;
          p = on_identity (\<lambda>r. r\<lparr>id_model := ''TSP100 series''\<rparr>) p;
          p = on_media (\<lambda>r. r\<lparr>md_paper_guide_58mm := True\<rparr>) p
      in p)"

definition star_tsp100iii :: capability_profile where
  "star_tsp100iii =
     (let p = star_tsp100;
          p = p\<lparr>cp_name := ''star_tsp100iii''\<rparr>;
          p = on_identity (\<lambda>r. r\<lparr>id_model := ''TSP100III''\<rparr>) p;
          p = on_transport (\<lambda>r. r\<lparr>tr_wifi := True\<rparr>) p;
          p = on_bluetooth (\<lambda>r. r\<lparr>bt_classic_vendor := True, bt_vendor_sdk := True\<rparr>) p
      in p)"

definition star_tsp100iv :: capability_profile where
  "star_tsp100iv =
     (let p = star_tsp100;
          p = p\<lparr>cp_name := ''star_tsp100iv''\<rparr>;
          p = on_identity (\<lambda>r. r\<lparr>id_model := ''TSP100IV''\<rparr>) p;
          p = on_transport (\<lambda>r. r\<lparr>tr_wifi := True\<rparr>) p;
          p = on_bluetooth (\<lambda>r. r\<lparr>bt_classic_vendor := True, bt_ble := True,
            bt_vendor_sdk := True\<rparr>) p
      in p)"

definition star_tsp650 :: capability_profile where
  "star_tsp650 =
     (let p = starRawBase;
          p = p\<lparr>cp_name := ''star_tsp650''\<rparr>;
          p = on_identity (\<lambda>r. r\<lparr>id_model := ''TSP650II''\<rparr>) p;
          p = on_media (\<lambda>r. r\<lparr>md_paper_guide_58mm := True\<rparr>) p;
          p = on_transport (\<lambda>r. r\<lparr>tr_serial := True\<rparr>) p;
          p = on_bluetooth (\<lambda>r. r\<lparr>bt_classic_vendor := True, bt_vendor_sdk := True\<rparr>) p
      in p)"

definition star_mcprint :: capability_profile where
  "star_mcprint =
     (let p = starRawBase;
          p = p\<lparr>cp_name := ''star_mcprint''\<rparr>;
          p = on_identity (\<lambda>r. r\<lparr>id_model := ''mC-Print series''\<rparr>) p;
          p = on_media (\<lambda>r. r\<lparr>md_paper_guide_58mm := True\<rparr>) p;
          p = on_bluetooth (\<lambda>r. r\<lparr>bt_classic_vendor := True, bt_vendor_sdk := True\<rparr>) p
      in p)"

definition star_mcprint2 :: capability_profile where
  "star_mcprint2 =
     (let p = star_mcprint;
          p = p\<lparr>cp_name := ''star_mcprint2''\<rparr>;
          p = on_identity (\<lambda>r. r\<lparr>id_model := ''mC-Print2''\<rparr>) p;
          p = makeFiftyEight p;
          p = on_media (\<lambda>r. r\<lparr>md_cutter := True, md_partial_cut := True\<rparr>) p
      in p)"

definition star_mcprint3 :: capability_profile where
  "star_mcprint3 =
     (let p = star_mcprint;
          p = p\<lparr>cp_name := ''star_mcprint3''\<rparr>;
          p = on_identity (\<lambda>r. r\<lparr>id_model := ''mC-Print3''\<rparr>) p;
          p = on_media (\<lambda>r. r\<lparr>md_printable_width_dots_58mm := kWidth58mm\<rparr>) p;
          p = on_transport (\<lambda>r. r\<lparr>tr_wifi := True\<rparr>) p
      in p)"

definition star_sm_s210 :: capability_profile where
  "star_sm_s210 =
     (let p = starBase;
          p = p\<lparr>cp_name := ''star_sm_s210''\<rparr>;
          p = on_identity (\<lambda>r. r\<lparr>id_model := ''SM-S210i''\<rparr>) p;
          p = makeFiftyEight p;
          p = makePortable p;
          p = on_bluetooth (\<lambda>r. r\<lparr>bt_classic_vendor := True, bt_vendor_sdk := True\<rparr>) p
      in p)"

definition star_sm_s220 :: capability_profile where
  "star_sm_s220 =
     (let p = star_sm_s210;
          p = p\<lparr>cp_name := ''star_sm_s220''\<rparr>;
          p = on_identity (\<lambda>r. r\<lparr>id_model := ''SM-S220i''\<rparr>) p
      in p)"

definition star_sm_s230 :: capability_profile where
  "star_sm_s230 =
     (let p = star_sm_s210;
          p = p\<lparr>cp_name := ''star_sm_s230''\<rparr>;
          p = on_identity (\<lambda>r. r\<lparr>id_model := ''SM-S230i''\<rparr>) p;
          p = on_bluetooth (\<lambda>r. r\<lparr>bt_ble := True\<rparr>) p
      in p)"

definition star_sm_l200 :: capability_profile where
  "star_sm_l200 =
     (let p = star_sm_s210;
          p = p\<lparr>cp_name := ''star_sm_l200''\<rparr>;
          p = on_identity (\<lambda>r. r\<lparr>id_model := ''SM-L200''\<rparr>) p;
          p = on_bluetooth (\<lambda>r. r\<lparr>bt_ble := True\<rparr>) p
      in p)"

definition star_sm_l300 :: capability_profile where
  "star_sm_l300 =
     (let p = star_sm_l200;
          p = p\<lparr>cp_name := ''star_sm_l300''\<rparr>;
          p = on_identity (\<lambda>r. r\<lparr>id_model := ''SM-L300''\<rparr>) p;
          p = on_media (\<lambda>r. r\<lparr>md_nominal_roll_width_mm := 80,
            md_printable_width_mm := 72, md_printable_width_dots := kWidth80mm\<rparr>) p
      in p)"

definition star_sm_t300 :: capability_profile where
  "star_sm_t300 =
     (let p = star_sm_s210;
          p = p\<lparr>cp_name := ''star_sm_t300''\<rparr>;
          p = on_identity (\<lambda>r. r\<lparr>id_model := ''SM-T300i''\<rparr>) p;
          p = on_media (\<lambda>r. r\<lparr>md_nominal_roll_width_mm := 80,
            md_printable_width_mm := 72, md_printable_width_dots := kWidth80mm,
            md_black_mark_sensor := True\<rparr>) p
      in p)"

definition star_sm_t400 :: capability_profile where
  "star_sm_t400 =
     (let p = star_sm_t300;
          p = p\<lparr>cp_name := ''star_sm_t400''\<rparr>;
          p = on_identity (\<lambda>r. r\<lparr>id_model := ''SM-T400i''\<rparr>) p;
          p = on_media (\<lambda>r. r\<lparr>md_nominal_roll_width_mm := 112,
            md_printable_width_mm := 104, md_printable_width_dots := kWidth104mm\<rparr>) p
      in p)"

definition bixolon_srp330 :: capability_profile where
  "bixolon_srp330 =
     (let p = bixolonBase;
          p = p\<lparr>cp_name := ''bixolon_srp330''\<rparr>;
          p = on_identity (\<lambda>r. r\<lparr>id_model := ''SRP-330III/332III''\<rparr>) p
      in p)"

definition bixolon_srp350 :: capability_profile where
  "bixolon_srp350 =
     (let p = bixolonBase;
          p = p\<lparr>cp_name := ''bixolon_srp350''\<rparr>;
          p = on_identity (\<lambda>r. r\<lparr>id_model := ''SRP-350III/V, 352, 350plus''\<rparr>) p;
          p = on_media (\<lambda>r. r\<lparr>md_paper_guide_58mm := True\<rparr>) p;
          p = on_transport (\<lambda>r. r\<lparr>tr_serial := True\<rparr>) p
      in p)"

definition bixolon_srp380 :: capability_profile where
  "bixolon_srp380 =
     (let p = bixolonBase;
          p = p\<lparr>cp_name := ''bixolon_srp380''\<rparr>;
          p = on_identity (\<lambda>r. r\<lparr>id_model := ''SRP-380/382/380plus''\<rparr>) p
      in p)"

definition bixolon_q_series :: capability_profile where
  "bixolon_q_series =
     (let p = bixolonBase;
          p = p\<lparr>cp_name := ''bixolon_q_series''\<rparr>;
          p = on_identity (\<lambda>r. r\<lparr>id_model := ''SRP-Q200/Q300''\<rparr>) p;
          p = on_media (\<lambda>r. r\<lparr>md_paper_guide_58mm := True\<rparr>) p;
          p = on_bluetooth (\<lambda>r. r\<lparr>bt_classic_spp := True\<rparr>) p
      in p)"

definition bixolon_srp_q200 :: capability_profile where
  "bixolon_srp_q200 =
     (let p = bixolon_q_series;
          p = p\<lparr>cp_name := ''bixolon_srp_q200''\<rparr>;
          p = on_identity (\<lambda>r. r\<lparr>id_model := ''SRP-Q200''\<rparr>) p
      in p)"

definition bixolon_srp_q300 :: capability_profile where
  "bixolon_srp_q300 =
     (let p = bixolon_q_series;
          p = p\<lparr>cp_name := ''bixolon_srp_q300''\<rparr>;
          p = on_identity (\<lambda>r. r\<lparr>id_model := ''SRP-Q300''\<rparr>) p
      in p)"

definition bixolon_srp_b300 :: capability_profile where
  "bixolon_srp_b300 =
     (let p = bixolonBase;
          p = p\<lparr>cp_name := ''bixolon_srp_b300''\<rparr>;
          p = on_identity (\<lambda>r. r\<lparr>id_model := ''SRP-B300''\<rparr>) p
      in p)"

definition bixolon_srp_f310 :: capability_profile where
  "bixolon_srp_f310 =
     (let p = bixolonBase;
          p = p\<lparr>cp_name := ''bixolon_srp_f310''\<rparr>;
          p = on_identity (\<lambda>r. r\<lparr>id_model := ''SRP-F310''\<rparr>) p;
          p = on_media (\<lambda>r. r\<lparr>md_paper_guide_58mm := True\<rparr>) p
      in p)"

definition bixolon_srp_275 :: capability_profile where
  "bixolon_srp_275 =
     (let p = bixolonBase;
          p = p\<lparr>cp_name := ''bixolon_srp_275''\<rparr>;
          p = on_identity (\<lambda>r. r\<lparr>id_model := ''SRP-275III (impact)''\<rparr>) p;
          p = on_media (\<lambda>r. r\<lparr>md_nominal_roll_width_mm := 76,
            md_printable_width_mm := 63, md_printable_width_dots := 400, md_dpi := 160,
            md_full_cut := False\<rparr>) p;
          p = p\<lparr>cp_completion_timeout_ms := 30000\<rparr>;
          p = on_quirks (\<lambda>r. r\<lparr>qk_delayed_status := True\<rparr>) p
      in p)"

definition bixolon_spp_r200 :: capability_profile where
  "bixolon_spp_r200 =
     (let p = bixolonBase;
          p = p\<lparr>cp_name := ''bixolon_spp_r200''\<rparr>;
          p = on_identity (\<lambda>r. r\<lparr>id_model := ''SPP-R200III''\<rparr>) p;
          p = makeFiftyEight p;
          p = makePortable p;
          p = on_transport (\<lambda>r. r\<lparr>tr_serial := True\<rparr>) p;
          p = on_bluetooth (\<lambda>r. r\<lparr>bt_classic_spp := True\<rparr>) p
      in p)"

definition bixolon_spp_r210 :: capability_profile where
  "bixolon_spp_r210 =
     (let p = bixolon_spp_r200;
          p = p\<lparr>cp_name := ''bixolon_spp_r210''\<rparr>;
          p = on_identity (\<lambda>r. r\<lparr>id_model := ''SPP-R210''\<rparr>) p
      in p)"

definition bixolon_spp_r310 :: capability_profile where
  "bixolon_spp_r310 =
     (let p = bixolon_spp_r200;
          p = p\<lparr>cp_name := ''bixolon_spp_r310''\<rparr>;
          p = on_identity (\<lambda>r. r\<lparr>id_model := ''SPP-R310''\<rparr>) p;
          p = on_media (\<lambda>r. r\<lparr>md_nominal_roll_width_mm := 80,
            md_printable_width_mm := 72, md_printable_width_dots := kWidth80mm,
            md_black_mark_sensor := True\<rparr>) p;
          p = on_transport (\<lambda>r. r\<lparr>tr_wifi := True, tr_raw_tcp_9100 := True\<rparr>) p
      in p)"

definition bixolon_spp_r410 :: capability_profile where
  "bixolon_spp_r410 =
     (let p = bixolon_spp_r310;
          p = p\<lparr>cp_name := ''bixolon_spp_r410''\<rparr>;
          p = on_identity (\<lambda>r. r\<lparr>id_model := ''SPP-R410''\<rparr>) p;
          p = on_media (\<lambda>r. r\<lparr>md_nominal_roll_width_mm := 112,
            md_printable_width_mm := 104, md_printable_width_dots := kWidth104mm\<rparr>) p
      in p)"

definition citizen_cts_58_80 :: capability_profile where
  "citizen_cts_58_80 =
     (let p = citizenBase;
          p = p\<lparr>cp_name := ''citizen_cts_58_80''\<rparr>;
          p = on_identity (\<lambda>r. r\<lparr>id_model := ''CT-S310II / CT-E301/351/601/651''\<rparr>) p;
          p = on_media (\<lambda>r. r\<lparr>md_paper_guide_58mm := True\<rparr>) p
      in p)"

definition citizen_cts_fast :: capability_profile where
  "citizen_cts_fast =
     (let p = citizenBase;
          p = p\<lparr>cp_name := ''citizen_cts_fast''\<rparr>;
          p = on_identity (\<lambda>r. r\<lparr>id_model := ''CT-S801III / CT-S851III''\<rparr>) p;
          p = on_media (\<lambda>r. r\<lparr>md_near_end_sensor := True\<rparr>) p;
          p = p\<lparr>cp_completion_timeout_ms := 12000\<rparr>
      in p)"

definition citizen_cts_wide :: capability_profile where
  "citizen_cts_wide =
     (let p = citizenBase;
          p = p\<lparr>cp_name := ''citizen_cts_wide''\<rparr>;
          p = on_identity (\<lambda>r. r\<lparr>id_model := ''CT-S4500 / CT-S4000''\<rparr>) p;
          p = on_media (\<lambda>r. r\<lparr>md_nominal_roll_width_mm := 112,
            md_printable_width_mm := 104, md_printable_width_dots := kWidth104mm,
            md_black_mark_sensor := True, md_gap_sensor := True, md_near_end_sensor := True\<rparr>) p;
          p = on_transport (\<lambda>r. r\<lparr>tr_wifi := True\<rparr>) p;
          p = on_bluetooth (\<lambda>r. r\<lparr>bt_classic_spp := True, bt_mfi := True\<rparr>) p
      in p)"

definition citizen_cmp_20ii :: capability_profile where
  "citizen_cmp_20ii =
     (let p = citizenBase;
          p = p\<lparr>cp_name := ''citizen_cmp_20ii''\<rparr>;
          p = on_identity (\<lambda>r. r\<lparr>id_model := ''CMP-20II''\<rparr>) p;
          p = makeFiftyEight p;
          p = makePortable p;
          p = on_languages (languages_add LG_Cpcl) p;
          p = on_languages (languages_add LG_Zpl) p;
          p = on_transport (\<lambda>r. r\<lparr>tr_serial := True\<rparr>) p;
          p = on_bluetooth (\<lambda>r. r\<lparr>bt_classic_spp := True, bt_mfi := True\<rparr>) p;
          p = on_transport (\<lambda>r. r\<lparr>tr_wifi := True, tr_raw_tcp_9100 := True\<rparr>) p;
          p = on_completion (\<lambda>r. r\<lparr>cc_try_process_id_gs_h := True\<rparr>) p
      in p)"

definition citizen_cmp_30ii :: capability_profile where
  "citizen_cmp_30ii =
     (let p = citizen_cmp_20ii;
          p = p\<lparr>cp_name := ''citizen_cmp_30ii''\<rparr>;
          p = on_identity (\<lambda>r. r\<lparr>id_model := ''CMP-30II''\<rparr>) p;
          p = on_media (\<lambda>r. r\<lparr>md_nominal_roll_width_mm := 80,
            md_printable_width_mm := 72, md_printable_width_dots := kWidth80mm,
            md_black_mark_sensor := True\<rparr>) p
      in p)"

definition zebra_zq300_plus :: capability_profile where
  "zebra_zq300_plus =
     (let p = zebraBase;
          p = p\<lparr>cp_name := ''zebra_zq300_plus''\<rparr>;
          p = on_identity (\<lambda>r. r\<lparr>id_model := ''ZQ310 Plus / ZQ320 Plus''\<rparr>) p;
          p = makeFiftyEight p;
          p = makePortable p;
          p = on_media (\<lambda>r. r\<lparr>md_cutter := False\<rparr>) p
      in p)"

definition zebra_zq500 :: capability_profile where
  "zebra_zq500 =
     (let p = zebraBase;
          p = p\<lparr>cp_name := ''zebra_zq500''\<rparr>;
          p = on_identity (\<lambda>r. r\<lparr>id_model := ''ZQ511 / ZQ521''\<rparr>) p;
          p = makePortable p
      in p)"

definition zebra_zq600_plus :: capability_profile where
  "zebra_zq600_plus =
     (let p = zebraBase;
          p = p\<lparr>cp_name := ''zebra_zq600_plus''\<rparr>;
          p = on_identity (\<lambda>r. r\<lparr>id_model := ''ZQ610/620/630 Plus''\<rparr>) p;
          p = makePortable p;
          p = on_bluetooth (\<lambda>r. r\<lparr>bt_ble := True\<rparr>) p
      in p)"

definition brother_rj2000 :: capability_profile where
  "brother_rj2000 =
     (let p = brotherBase;
          p = p\<lparr>cp_name := ''brother_rj2000''\<rparr>;
          p = on_identity (\<lambda>r. r\<lparr>id_model := ''RJ-2030 / RJ-2050 / RJ-2140 / RJ-2150''\<rparr>) p;
          p = makeFiftyEight p;
          p = makePortable p
      in p)"

definition brother_rj3000 :: capability_profile where
  "brother_rj3000 =
     (let p = brotherBase;
          p = p\<lparr>cp_name := ''brother_rj3000''\<rparr>;
          p = on_identity (\<lambda>r. r\<lparr>id_model := ''RJ-3230B / RJ-3230BL''\<rparr>) p;
          p = makePortable p
      in p)"

definition brother_rj4000 :: capability_profile where
  "brother_rj4000 =
     (let p = brotherBase;
          p = p\<lparr>cp_name := ''brother_rj4000''\<rparr>;
          p = on_identity (\<lambda>r. r\<lparr>id_model := ''RJ-4230B / RJ-4250WB''\<rparr>) p;
          p = makePortable p;
          p = on_media (\<lambda>r. r\<lparr>md_nominal_roll_width_mm := 112,
            md_printable_width_mm := 104, md_printable_width_dots := kWidth104mm\<rparr>) p;
          p = on_languages (languages_add LG_Zpl) p;
          p = on_languages (languages_add LG_Cpcl) p;
          p = on_transport (\<lambda>r. r\<lparr>tr_wifi := True, tr_raw_tcp_9100 := True\<rparr>) p;
          p = on_bluetooth (\<lambda>r. r\<lparr>bt_ble := True\<rparr>) p
      in p)"

definition generic_80 :: capability_profile where
  "generic_80 =
     (let p = thermal80;
          p = p\<lparr>cp_name := ''generic_80''\<rparr>;
          p = on_identity (\<lambda>r. r\<lparr>id_vendor := ''Unknown''\<rparr>) p;
          p = on_quirks (\<lambda>r. r\<lparr>qk_unreliable_identity := True\<rparr>) p;
          p = on_status (\<lambda>r. r\<lparr>ss_dle_eot := True, ss_asb := True\<rparr>) p;
          p = p\<lparr>cp_chunk_bytes := 1024, cp_inter_chunk_delay_ms := 20,
            cp_completion_timeout_ms := 20000, cp_final_feed_lines := 6\<rparr>;
          p = makeUnclassifiedDrawerPort ((''Drawer disabled: this is an unidentified device, so the connector '' @
             ''pinout and drive voltage are unknown. Identify the model, then its '' @
             ''drawer port, then connect a cable '') @ [CHR 0xE2] @ [CHR 0x80] @ [CHR 0x94] @ '' in that order.'') p
      in p)"

definition generic_58 :: capability_profile where
  "generic_58 =
     (let p = generic_80;
          p = p\<lparr>cp_name := ''generic_58''\<rparr>;
          p = makeFiftyEight p;
          p = on_status (\<lambda>r. r\<lparr>ss_asb := False, ss_cutter_error := False\<rparr>) p;
          p = p\<lparr>cp_chunk_bytes := 512, cp_inter_chunk_delay_ms := 30, cp_final_feed_lines := 6\<rparr>;
          p = makeUnclassifiedDrawerPort (''Drawer disabled, and NEVER assume 24 V on this size class: 58 mm units '' @
             ''frequently specify a 12 V / 1 A drawer output. Voltage and pinout must '' @
             ''both be established on the actual model before a drawer is connected.'') p
      in p)"

definition generic_unknown :: capability_profile where
  "generic_unknown =
     (let p = generic_80;
          p = p\<lparr>cp_name := ''generic_unknown''\<rparr>;
          p = on_identity (\<lambda>r. r\<lparr>id_model := ''unidentified''\<rparr>) p;
          p = p\<lparr>cp_completion := CM_None\<rparr>;
          p = on_completion (\<lambda>r. r\<lparr>cc_queued_gs_r := False,
            cc_try_process_id_gs_h := True\<rparr>) p;
          p = on_status (\<lambda>r. r\<lparr>ss_dle_eot := False, ss_asb := False,
            ss_cutter_error := False\<rparr>) p;
          p = on_media (\<lambda>r. r\<lparr>md_black_mark_sensor := False,
            md_near_end_sensor := False\<rparr>) p;
          p = p\<lparr>cp_chunk_bytes := 512, cp_inter_chunk_delay_ms := 30,
            cp_completion_timeout_ms := 20000, cp_final_feed_lines := 6\<rparr>
      in p)"

definition device_table :: "(string \<times> capability_profile) list" where
  "device_table =
     [(''epson_tm_t20'', epson_tm_t20),
      (''epson_tm_t20ii'', epson_tm_t20ii),
      (''epson_tm_t20iii'', epson_tm_t20iii),
      (''epson_tm_t20iv'', epson_tm_t20iv),
      (''epson_tm_t70'', epson_tm_t70),
      (''epson_tm_t70ii'', epson_tm_t70ii),
      (''epson_tm_t82'', epson_tm_t82),
      (''epson_tm_t88'', epson_tm_t88),
      (''epson_tm_t88iv'', epson_tm_t88iv),
      (''epson_tm_t88v'', epson_tm_t88v),
      (''epson_tm_t88vi'', epson_tm_t88vi),
      (''epson_tm_t88vii'', epson_tm_t88vii),
      (''epson_tm_m'', epson_tm_m),
      (''epson_tm_m10'', epson_tm_m10),
      (''epson_tm_m30'', epson_tm_m30),
      (''epson_tm_m30ii'', epson_tm_m30ii),
      (''epson_tm_m30iii'', epson_tm_m30iii),
      (''epson_tm_m50'', epson_tm_m50),
      (''epson_tm_m50ii'', epson_tm_m50ii),
      (''epson_tm_p20'', epson_tm_p20),
      (''epson_tm_p20ii'', epson_tm_p20ii),
      (''epson_tm_p60'', epson_tm_p60),
      (''epson_tm_p60ii'', epson_tm_p60ii),
      (''epson_tm_p80'', epson_tm_p80),
      (''epson_tm_p80ii'', epson_tm_p80ii),
      (''epson_tm_p80ii_autocutter'', epson_tm_p80ii_autocutter),
      (''epson_tm_u220'', epson_tm_u220),
      (''epson_tm_u220ii'', epson_tm_u220ii),
      (''epson_tm_i'', epson_tm_i),
      (''rongta_rp58'', rongta_rp58),
      (''rongta_rp80'', rongta_rp80),
      (''rongta_rp3xx'', rongta_rp3xx),
      (''rongta_rp8xx'', rongta_rp8xx),
      (''xprinter_pos58'', xprinter_pos58),
      (''xprinter_pos80'', xprinter_pos80),
      (''xprinter_s_series'', xprinter_s_series),
      (''xprinter_v_series'', xprinter_v_series),
      (''xprinter_portable'', xprinter_portable),
      (''sewoo_slk_ts'', sewoo_slk_ts),
      (''partner_rp110'', partner_rp110),
      (''partner_rp710'', partner_rp710),
      (''snbc_btp_r880'', snbc_btp_r880),
      (''snbc_btp_u80'', snbc_btp_u80),
      (''star_tsp100'', star_tsp100),
      (''star_tsp100iii'', star_tsp100iii),
      (''star_tsp100iv'', star_tsp100iv),
      (''star_tsp650'', star_tsp650),
      (''star_mcprint'', star_mcprint),
      (''star_mcprint2'', star_mcprint2),
      (''star_mcprint3'', star_mcprint3),
      (''star_sm_s210'', star_sm_s210),
      (''star_sm_s220'', star_sm_s220),
      (''star_sm_s230'', star_sm_s230),
      (''star_sm_l200'', star_sm_l200),
      (''star_sm_l300'', star_sm_l300),
      (''star_sm_t300'', star_sm_t300),
      (''star_sm_t400'', star_sm_t400),
      (''bixolon_srp330'', bixolon_srp330),
      (''bixolon_srp350'', bixolon_srp350),
      (''bixolon_srp380'', bixolon_srp380),
      (''bixolon_q_series'', bixolon_q_series),
      (''bixolon_srp_q200'', bixolon_srp_q200),
      (''bixolon_srp_q300'', bixolon_srp_q300),
      (''bixolon_srp_b300'', bixolon_srp_b300),
      (''bixolon_srp_f310'', bixolon_srp_f310),
      (''bixolon_srp_275'', bixolon_srp_275),
      (''bixolon_spp_r200'', bixolon_spp_r200),
      (''bixolon_spp_r210'', bixolon_spp_r210),
      (''bixolon_spp_r310'', bixolon_spp_r310),
      (''bixolon_spp_r410'', bixolon_spp_r410),
      (''citizen_cts_58_80'', citizen_cts_58_80),
      (''citizen_cts_fast'', citizen_cts_fast),
      (''citizen_cts_wide'', citizen_cts_wide),
      (''citizen_cmp_20ii'', citizen_cmp_20ii),
      (''citizen_cmp_30ii'', citizen_cmp_30ii),
      (''zebra_zq300_plus'', zebra_zq300_plus),
      (''zebra_zq500'', zebra_zq500),
      (''zebra_zq600_plus'', zebra_zq600_plus),
      (''brother_rj2000'', brother_rj2000),
      (''brother_rj3000'', brother_rj3000),
      (''brother_rj4000'', brother_rj4000),
      (''generic_80'', generic_80),
      (''generic_58'', generic_58),
      (''generic_unknown'', generic_unknown)]"

section \<open>Lookup\<close>

definition device_exists :: "string \<Rightarrow> bool" where
  "device_exists name \<longleftrightarrow> list_ex (\<lambda>e. fst e = name) device_table"

fun device_search :: "string \<Rightarrow> (string \<times> capability_profile) list \<Rightarrow> capability_profile" where
  "device_search name [] = generic_80"
| "device_search name (e # es) = (if name = fst e then snd e else device_search name es)"

definition byName :: "string \<Rightarrow> capability_profile" where
  "byName name = device_search name device_table"

definition device_names :: "string list" where
  "device_names = map fst device_table"

section \<open>The database is consistent\<close>

text \<open>
  What every shipped entry must satisfy: the completion mechanism rests on a capability the
  entry records, grade A on ESC/POS only on documented evidence; no ETB fence, which needs a
  declared exclusive session; the primary language is one of the documented ones; a port
  that may be kicked is classified, documented and 24 V with a capped pulse; no polarity is
  shipped as calibrated; and the cut settings agree with the cutter.
\<close>

definition entry_sound :: "capability_profile \<Rightarrow> bool" where
  "entry_sound p \<longleftrightarrow>
     (case cp_completion p of
        CM_GsParenH \<Rightarrow> cc_process_id_gs_h (cp_completion_caps p) \<and>
          cc_process_id_gs_h_provenance (cp_completion_caps p) = PV_Documented
      | CM_GsR1 \<Rightarrow> cc_queued_gs_r (cp_completion_caps p)
      | CM_StarEscGsEtx \<Rightarrow> sr_esc_gs_etx (cp_star p)
      | CM_StarEtb \<Rightarrow> False
      | _ \<Rightarrow> True) \<and>
     languages_has (cp_language p) (cp_languages p) \<and>
     (if kickable (cp_drawer p)
      then dv_electrical (dc_evidence (cp_drawer p)) = PV_Documented \<and>
           de_voltage (dc_electrical (cp_drawer p)) = 24 \<and>
           dk_max_pulse_ms (dc_kick (cp_drawer p)) = 500
      else True) \<and>
     \<not> dp_calibrated (dn_polarity (dc_status (cp_drawer p))) \<and>
     (cp_cut p = CV_None \<longleftrightarrow> \<not> md_cutter (cp_media p))"

lemma table_sound: "list_all (\<lambda>e. cp_name (snd e) = fst e \<and> entry_sound (snd e)) device_table"
  by code_simp

lemma generic_80_in_table: "(''generic_80'', generic_80) \<in> set device_table"
  by (simp add: device_table_def)

lemma device_search_cases:
  "(name, device_search name es) \<in> set es \<or>
   (device_search name es = generic_80 \<and> name \<notin> fst ` set es)"
  by (induction name es rule: device_search.induct) auto

text \<open>
  Whatever name is looked up, the profile that comes back is sound, and it is the entry
  of that name, or the entry for an unknown device when there is none.
\<close>

theorem byName_sound:
  "entry_sound (byName n) \<and>
   cp_name (byName n) = (if device_exists n then n else ''generic_80'')"
proof -
  have all: "cp_name (snd e) = fst e \<and> entry_sound (snd e)" if "e \<in> set device_table" for e
    using table_sound that by (auto simp: list_all_iff)
  have ex: "device_exists n \<longleftrightarrow> n \<in> fst ` set device_table"
    by (auto simp: device_exists_def list_ex_iff)
  consider "(n, byName n) \<in> set device_table"
    | "byName n = generic_80" "n \<notin> fst ` set device_table"
    using device_search_cases [of n device_table] by (auto simp: byName_def)
  then show ?thesis
  proof cases
    case 1
    then have "n \<in> fst ` set device_table" by force
    with all [OF 1] show ?thesis by (simp add: ex)
  next
    case 2
    with all [OF generic_80_in_table] show ?thesis by (simp add: ex)
  qed
qed

end
