(* ===== verification/Job_Store.thy ===== *)
theory Job_Store imports
  PD_Types
  Line_Journal
begin

text \<open>
  \<^verbatim>\<open>core/include/printerdriver/job_store.hpp\<close> and \<^verbatim>\<open>core/src/job_store.cpp\<close>: the
  append-only journal of jobs and the table in memory it rebuilds. A line is a list of
  escaped fields joined by tabs. The clock and the outcome of every file operation are
  arguments: an append may succeed, stop after some bytes, or be written without being
  synchronised. The lemmas show that every line is read back, that reopening the store
  gives the table in memory after the recovery rule, also when the last append was torn,
  and that a second restart changes nothing more.
\<close>

section \<open>Fields and numbers\<close>

fun escapeField :: "string \<Rightarrow> string" where
  "escapeField [] = []"
| "escapeField (c # cs) =
     (if c = BSL then [BSL, BSL] else if c = TAB then [BSL, CHR ''t'']
      else if c = NL then [BSL, CHR ''n''] else if c = CR then [BSL, CHR ''r'']
      else [c]) @ escapeField cs"

definition unescape_char :: "char \<Rightarrow> char" where
  "unescape_char c =
     (if c = CHR ''t'' then TAB else if c = CHR ''n'' then NL
      else if c = CHR ''r'' then CR else c)"

fun unescapeField :: "string \<Rightarrow> string" where
  "unescapeField [] = []"
| "unescapeField [c] = [c]"
| "unescapeField (c # d # cs) =
     (if c \<noteq> BSL then c # unescapeField (d # cs) else unescape_char d # unescapeField cs)"

fun split_tabs_go :: "string \<Rightarrow> string \<Rightarrow> string list" where
  "split_tabs_go current [] = [current]"
| "split_tabs_go current (c # cs) =
     (if c = TAB then current # split_tabs_go [] cs else split_tabs_go (current @ [c]) cs)"

definition splitTabs :: "string \<Rightarrow> string list" where
  "splitTabs line = split_tabs_go [] line"

text \<open>Decimal output of an unsigned integer, as the stream operator writes it.\<close>

fun dec_digits :: "nat \<Rightarrow> string" where
  "dec_digits n = (if n < 10 then [char_of (48 + n)]
                   else dec_digits (n div 10) @ [char_of (48 + n mod 10)])"

declare dec_digits.simps [simp del]

definition is_digit :: "char \<Rightarrow> bool" where
  "is_digit c \<longleftrightarrow> 48 \<le> (of_char c :: nat) \<and> (of_char c :: nat) \<le> 57"

text \<open>\<^verbatim>\<open>parseUint\<close>: 64-bit arithmetic that wraps, as the sources compute it.\<close>

fun parse_uint_go :: "u64 \<Rightarrow> string \<Rightarrow> u64 option" where
  "parse_uint_go v [] = Some v"
| "parse_uint_go v (c # cs) =
     (if \<not> is_digit c then None else parse_uint_go (v * 10 + word_of_nat (of_char c - 48)) cs)"

definition parseUint :: "string \<Rightarrow> u64 option" where
  "parseUint text = (if text = [] then None else parse_uint_go 0 text)"

section \<open>Records and lines\<close>

datatype payload_kind = PK_Raster | PK_Document | PK_Raw

fun payload_kind_name :: "payload_kind \<Rightarrow> string" where
  "payload_kind_name PK_Raster = ''Raster''"
| "payload_kind_name PK_Document = ''Document''"
| "payload_kind_name PK_Raw = ''Raw''"

definition kAllPayloadKinds :: "payload_kind list" where
  "kAllPayloadKinds = [PK_Raster, PK_Document, PK_Raw]"

record job_record =
  rec_id :: string
  rec_key :: string
  rec_printer_id :: string
  rec_created :: u64
  rec_attempt :: u32
  rec_kind :: payload_kind
  rec_payload_bytes :: u64
  rec_print_token :: string
  rec_cut_token :: string
  rec_state :: job_state
  rec_confidence :: confidence_level
  rec_reason :: failure_reason
  rec_grade :: confidence_grade
  rec_authority :: completion_authority
  rec_method :: string
  rec_updated :: u64
  rec_recovered :: bool

definition default_record :: job_record where
  "default_record =
     \<lparr>rec_id = [], rec_key = [], rec_printer_id = [], rec_created = 0, rec_attempt = 1,
      rec_kind = PK_Raw, rec_payload_bytes = 0, rec_print_token = [],
      rec_cut_token = [], rec_state = JS_Queued, rec_confidence = CL_TransportAccepted,
      rec_reason = FR_None, rec_grade = CG_E_TransportOnly, rec_authority = CA_TransportOnly,
      rec_method = ''none'', rec_updated = 0, rec_recovered = False\<rparr>"

definition terminal_state :: "job_state \<Rightarrow> bool" where
  "terminal_state s \<longleftrightarrow>
     s = JS_DoneSoftware \<or> s = JS_PhysicallyVerified \<or> s = JS_FailedKnown \<or> s = JS_Unknown"

definition isTerminal :: "job_record \<Rightarrow> bool" where
  "isTerminal r = terminal_state (rec_state r)"

definition jobLine :: "job_record \<Rightarrow> string" where
  "jobLine r = join_with TAB
     [''J'', escapeField (rec_id r), escapeField (rec_key r), escapeField (rec_printer_id r),
      dec_digits (unat (rec_created r)), dec_digits (unat (rec_attempt r)),
      payload_kind_name (rec_kind r), dec_digits (unat (rec_payload_bytes r)),
      escapeField (rec_print_token r), escapeField (rec_cut_token r)]"

definition tokenLine :: "string \<Rightarrow> string \<Rightarrow> string \<Rightarrow> string" where
  "tokenLine i print_token cut_token = join_with TAB
     [''T'', escapeField i, escapeField print_token, escapeField cut_token]"

definition stateLine ::
    "string \<Rightarrow> job_state \<Rightarrow> confidence_level \<Rightarrow> failure_reason \<Rightarrow> u64 \<Rightarrow> confidence_grade \<Rightarrow>
     completion_authority \<Rightarrow> string \<Rightarrow> string" where
  "stateLine i state confidence reason at_ms grade authority method = join_with TAB
     [''S'', escapeField i, job_state_name state, confidence_level_name confidence,
      failure_reason_name reason, dec_digits (unat at_ms), confidence_grade_name grade,
      completion_authority_name authority, escapeField method]"

datatype journal_kind = JK_Job | JK_State | JK_Tokens

record journal_entry =
  jn_kind :: journal_kind
  jn_record :: job_record

definition atLeastPrintConfirmed :: "confidence_level \<Rightarrow> bool" where
  "atLeastPrintConfirmed c \<longleftrightarrow> rank c \<ge> rank CL_PrintConfirmed"

definition parse_job_fields :: "string list \<Rightarrow> journal_entry option" where
  "parse_job_fields f =
     (if length f < 8 then None
      else case (parseUint (f ! 4), parseUint (f ! 5), parseUint (f ! 7),
                 parse_enum payload_kind_name kAllPayloadKinds (f ! 6)) of
        (Some created, Some attempt, Some payload, Some kind) \<Rightarrow>
          let r = default_record\<lparr>rec_id := unescapeField (f ! 1), rec_key := unescapeField (f ! 2),
                    rec_printer_id := unescapeField (f ! 3), rec_kind := kind,
                    rec_created := created, rec_attempt := ucast attempt,
                    rec_payload_bytes := payload\<rparr>
          in Some \<lparr>jn_kind = JK_Job,
                   jn_record = (if length f \<ge> 10
                     then r\<lparr>rec_print_token := unescapeField (f ! 8),
                            rec_cut_token := unescapeField (f ! 9)\<rparr>
                     else r)\<rparr>
      | _ \<Rightarrow> None)"

definition parse_token_fields :: "string list \<Rightarrow> journal_entry option" where
  "parse_token_fields f =
     (if length f < 4 then None
      else Some \<lparr>jn_kind = JK_Tokens,
                 jn_record = default_record\<lparr>rec_id := unescapeField (f ! 1),
                   rec_print_token := unescapeField (f ! 2),
                   rec_cut_token := unescapeField (f ! 3)\<rparr>\<rparr>)"

text \<open>
  The evidence of a state line: the three fields of version 2, or the conservative
  derivation. A grade that parsed stays assigned when the authority does not parse.
\<close>

definition parse_evidence :: "string list \<Rightarrow> job_record \<Rightarrow> job_record" where
  "parse_evidence f r =
     (let g = (if length f \<ge> 9 then parse_enum confidence_grade_name kAllConfidenceGrades (f ! 6)
               else None);
          r1 = (case g of Some v \<Rightarrow> r\<lparr>rec_grade := v\<rparr> | None \<Rightarrow> r);
          a = (if g \<noteq> None
               then parse_enum completion_authority_name kAllCompletionAuthorities (f ! 7)
               else None)
      in case a of
           Some v \<Rightarrow> r1\<lparr>rec_authority := v, rec_method := unescapeField (f ! 8)\<rparr>
         | None \<Rightarrow>
             if atLeastPrintConfirmed (rec_confidence r1) \<and>
                (rec_state r1 = JS_DoneSoftware \<or> rec_state r1 = JS_PhysicallyVerified)
             then r1\<lparr>rec_grade := CG_B_OrderedDeviceResponse,
                     rec_authority := CA_PhysicalPrinter, rec_method := ''journal-legacy''\<rparr>
             else r1)"

definition parse_state_fields :: "string list \<Rightarrow> journal_entry option" where
  "parse_state_fields f =
     (if length f < 6 then None
      else case (parse_enum job_state_name kAllJobStates (f ! 2),
                 parse_enum confidence_level_name kAllConfidenceLevels (f ! 3),
                 parse_enum failure_reason_name kAllFailureReasons (f ! 4),
                 parseUint (f ! 5)) of
        (Some state, Some confidence, Some reason, Some at_ms) \<Rightarrow>
          Some \<lparr>jn_kind = JK_State,
                jn_record = parse_evidence f
                  (default_record\<lparr>rec_id := unescapeField (f ! 1), rec_state := state,
                     rec_confidence := confidence, rec_reason := reason,
                     rec_updated := at_ms\<rparr>)\<rparr>
      | _ \<Rightarrow> None)"

definition parseLine :: "string \<Rightarrow> journal_entry option" where
  "parseLine line =
     (if line = [] \<or> hd line = CHR ''#'' then None
      else let f = splitTabs line
           in if length f < 2 \<or> length (f ! 0) \<noteq> 1 then None
              else if f ! 0 = ''J'' then parse_job_fields f
              else if f ! 0 = ''T'' then parse_token_fields f
              else if f ! 0 = ''S'' then parse_state_fields f
              else None)"

text \<open>One turn of the loop of \<^verbatim>\<open>readJournal\<close>: a trailing carriage return is dropped.\<close>

definition parse_journal_line :: "string \<Rightarrow> journal_entry option" where
  "parse_journal_line line =
     parseLine (if line \<noteq> [] \<and> last line = CR then butlast line else line)"

definition readJournal :: "string \<Rightarrow> journal_entry list" where
  "readJournal content = read_lines parse_journal_line content"

section \<open>The store\<close>

datatype store_error = StoreError string

text \<open>How one append ends: durable, torn after some bytes, or written but not synchronised.\<close>

datatype append_io = AppendOk | AppendTorn nat | AppendUnsynced

record job_store =
  js_persistent :: bool
  js_file :: string
  js_order :: "string list"
  js_by_id :: "string \<rightharpoonup> job_record"
  js_id_by_key :: "string \<rightharpoonup> string"
  js_recovered_count :: nat

definition blank_store :: "bool \<Rightarrow> string \<Rightarrow> job_store" where
  "blank_store persistent content =
     \<lparr>js_persistent = persistent, js_file = content, js_order = [], js_by_id = Map.empty,
      js_id_by_key = Map.empty, js_recovered_count = 0\<rparr>"

definition store_append :: "append_io \<Rightarrow> string \<Rightarrow> job_store \<Rightarrow> job_store \<times> store_error option" where
  "store_append io line s =
     (if \<not> js_persistent s then (s, None)
      else let payload = line @ [NL]
           in case io of
                AppendOk \<Rightarrow> (s\<lparr>js_file := js_file s @ payload\<rparr>, None)
              | AppendTorn n \<Rightarrow>
                  (s\<lparr>js_file := js_file s @ take n payload\<rparr>,
                   Some (StoreError ''journal write failed: ''))
              | AppendUnsynced \<Rightarrow>
                  (s\<lparr>js_file := js_file s @ payload\<rparr>,
                   Some (StoreError ''journal fsync failed: '')))"

definition remember_key :: "string \<Rightarrow> string \<Rightarrow> (string \<rightharpoonup> string) \<Rightarrow> (string \<rightharpoonup> string)" where
  "remember_key key i m = (if key = [] then m else m(key \<mapsto> i))"

definition insert_record :: "job_record \<Rightarrow> job_store \<Rightarrow> job_store" where
  "insert_record r s =
     s\<lparr>js_by_id := (js_by_id s)(rec_id r \<mapsto> r), js_order := js_order s @ [rec_id r],
       js_id_by_key := remember_key (rec_key r) (rec_id r) (js_id_by_key s)\<rparr>"

definition createJob ::
    "append_io \<Rightarrow> u64 \<Rightarrow> job_record \<Rightarrow> job_store \<Rightarrow> job_store \<times> store_error option" where
  "createJob io now r s =
     (if js_by_id s (rec_id r) \<noteq> None then (s, Some (StoreError (''duplicate job id '' @ rec_id r)))
      else let created = (if rec_created r = 0 then now else rec_created r);
               stored = r\<lparr>rec_created := created, rec_updated := created, rec_state := JS_Queued,
                          rec_confidence := CL_TransportAccepted, rec_reason := FR_None,
                          rec_grade := CG_E_TransportOnly, rec_authority := CA_TransportOnly,
                          rec_method := ''none'', rec_recovered := False\<rparr>;
               batch = jobLine stored @ [NL] @
                       stateLine (rec_id stored) (rec_state stored) (rec_confidence stored)
                         (rec_reason stored) (rec_updated stored) (rec_grade stored)
                         (rec_authority stored) (rec_method stored)
           in case store_append io batch s of
                (s', Some err) \<Rightarrow> (s', Some err)
              | (s', None) \<Rightarrow> (insert_record stored s', None))"

definition set_state ::
    "job_state \<Rightarrow> confidence_level \<Rightarrow> failure_reason \<Rightarrow> job_evidence \<Rightarrow> u64 \<Rightarrow> job_record \<Rightarrow> job_record" where
  "set_state state confidence reason e now r =
     r\<lparr>rec_state := state, rec_confidence := confidence, rec_reason := reason,
       rec_grade := ev_grade e, rec_authority := ev_authority e, rec_method := ev_method e,
       rec_updated := now\<rparr>"

definition recordState ::
    "append_io \<Rightarrow> u64 \<Rightarrow> string \<Rightarrow> job_state \<Rightarrow> confidence_level \<Rightarrow> failure_reason \<Rightarrow> job_evidence \<Rightarrow>
     job_store \<Rightarrow> job_store \<times> store_error option" where
  "recordState io now i state confidence reason e s =
     (case js_by_id s i of
        None \<Rightarrow> (s, Some (StoreError (''unknown job id '' @ i)))
      | Some r \<Rightarrow>
          (case store_append io (stateLine i state confidence reason now (ev_grade e)
                                   (ev_authority e) (ev_method e)) s of
             (s', Some err) \<Rightarrow> (s', Some err)
           | (s', None) \<Rightarrow>
               (s'\<lparr>js_by_id := (js_by_id s')(i \<mapsto> set_state state confidence reason e now r)\<rparr>,
                None)))"

definition set_tokens :: "string \<Rightarrow> string \<Rightarrow> job_record \<Rightarrow> job_record" where
  "set_tokens print_token cut_token r =
     r\<lparr>rec_print_token := print_token, rec_cut_token := cut_token\<rparr>"

definition recordTokens ::
    "append_io \<Rightarrow> string \<Rightarrow> string \<Rightarrow> string \<Rightarrow> job_store \<Rightarrow> job_store \<times> store_error option" where
  "recordTokens io i print_token cut_token s =
     (case js_by_id s i of
        None \<Rightarrow> (s, Some (StoreError (''unknown job id '' @ i)))
      | Some r \<Rightarrow>
          (case store_append io (tokenLine i print_token cut_token) s of
             (s', Some err) \<Rightarrow> (s', Some err)
           | (s', None) \<Rightarrow>
               (s'\<lparr>js_by_id := (js_by_id s')(i \<mapsto> set_tokens print_token cut_token r)\<rparr>, None)))"

definition findById :: "string \<Rightarrow> job_store \<Rightarrow> job_record option" where
  "findById i s = js_by_id s i"

definition findByKey :: "string \<Rightarrow> job_store \<Rightarrow> job_record option" where
  "findByKey key s = (case js_id_by_key s key of None \<Rightarrow> None | Some i \<Rightarrow> js_by_id s i)"

definition store_all :: "job_store \<Rightarrow> job_record list" where
  "store_all s = map (\<lambda>i. the (js_by_id s i)) (js_order s)"

section \<open>Loading, recovery and compaction\<close>

definition take_state :: "job_record \<Rightarrow> job_record \<Rightarrow> job_record" where
  "take_state r old =
     old\<lparr>rec_state := rec_state r, rec_confidence := rec_confidence r, rec_reason := rec_reason r,
         rec_grade := rec_grade r, rec_authority := rec_authority r, rec_method := rec_method r,
         rec_updated := rec_updated r\<rparr>"

definition apply_entry :: "journal_entry \<Rightarrow> job_store \<Rightarrow> job_store" where
  "apply_entry e s =
     (let r = jn_record e
      in case jn_kind e of
           JK_Job \<Rightarrow> if js_by_id s (rec_id r) \<noteq> None then s else insert_record r s
         | JK_Tokens \<Rightarrow>
             (case js_by_id s (rec_id r) of
                None \<Rightarrow> s
              | Some old \<Rightarrow>
                  s\<lparr>js_by_id := (js_by_id s)(rec_id r \<mapsto>
                      set_tokens (rec_print_token r) (rec_cut_token r) old)\<rparr>)
         | JK_State \<Rightarrow>
             (case js_by_id s (rec_id r) of
                None \<Rightarrow> s
              | Some old \<Rightarrow>
                  s\<lparr>js_by_id := (js_by_id s)(rec_id r \<mapsto> take_state r old)\<rparr>))"

text \<open>The table the lines of a journal describe; the file itself is set when it is opened.\<close>

definition replay :: "string \<Rightarrow> job_store" where
  "replay content = fold apply_entry (readJournal content) (blank_store True [])"

definition in_flight :: "job_state \<Rightarrow> bool" where
  "in_flight s \<longleftrightarrow>
     s = JS_SendStarted \<or> s = JS_BytesSent \<or> s = JS_PrintConfirmed \<or> s = JS_CutCommandProcessed"

definition recover_record :: "u64 \<Rightarrow> job_record \<Rightarrow> job_record" where
  "recover_record now r =
     (if isTerminal r then r
      else r\<lparr>rec_state := (if in_flight (rec_state r) then JS_Unknown else JS_FailedKnown),
             rec_reason := FR_Unknown, rec_grade := CG_E_TransportOnly,
             rec_authority := CA_TransportOnly, rec_method := ''none'',
             rec_recovered := True, rec_updated := now\<rparr>)"

text \<open>One turn of the recovery loop; the clock is read for each record.\<close>

definition recover_one :: "(string \<Rightarrow> u64) \<Rightarrow> string \<Rightarrow> job_store \<Rightarrow> job_store" where
  "recover_one now i s =
     (case js_by_id s i of
        None \<Rightarrow> s
      | Some r \<Rightarrow>
          if isTerminal r then s
          else s\<lparr>js_by_id := (js_by_id s)(i \<mapsto> recover_record (now i) r),
                 js_recovered_count := js_recovered_count s + 1\<rparr>)"

definition store_load :: "(string \<Rightarrow> u64) \<Rightarrow> string \<Rightarrow> job_store" where
  "store_load now content = (let s = replay content in fold (recover_one now) (js_order s) s)"

definition journal_header :: string where
  "journal_header = ''#PDJOURNAL'' @ [TAB] @ ''3''"

definition record_lines :: "job_record \<Rightarrow> string" where
  "record_lines r =
     jobLine r @ [NL] @
     stateLine (rec_id r) (rec_state r) (rec_confidence r) (rec_reason r) (rec_updated r)
       (rec_grade r) (rec_authority r) (rec_method r) @ [NL]"

definition compact_text :: "job_store \<Rightarrow> string" where
  "compact_text s = journal_header @ [NL] @ concat (map record_lines (store_all s))"

text \<open>The file operations of the constructor that may fail, in their order.\<close>

record open_io =
  oi_directory :: bool
  oi_temp_opened :: bool
  oi_temp_written :: bool
  oi_replaced :: bool
  oi_appendable :: bool

definition open_ok :: "open_io \<Rightarrow> bool" where
  "open_ok io \<longleftrightarrow> oi_directory io \<and> oi_temp_opened io \<and> oi_temp_written io \<and> oi_replaced io \<and>
     oi_appendable io"

text \<open>The constructor on a directory: the journal afterwards, and the store or the error.\<close>

definition store_open ::
    "open_io \<Rightarrow> (string \<Rightarrow> u64) \<Rightarrow> string \<Rightarrow> string \<times> (store_error + job_store)" where
  "store_open io now content =
     (if \<not> oi_directory io then (content, Inl (StoreError ''cannot create storage directory ''))
      else let s = store_load now content
           in if \<not> oi_temp_opened io then (content, Inl (StoreError ''cannot write journal ''))
              else if \<not> oi_temp_written io then
                (content, Inl (StoreError ''short write compacting journal ''))
              else if \<not> oi_replaced io then (content, Inl (StoreError ''cannot replace journal ''))
              else let text = compact_text s
                   in if \<not> oi_appendable io then
                        (text, Inl (StoreError ''cannot open journal ''))
                      else (text, Inr (s\<lparr>js_file := text\<rparr>)))"

text \<open>No directory: a store without a file.\<close>

definition store_in_memory :: job_store where
  "store_in_memory = blank_store False []"

section \<open>Every line is read back\<close>

lemma escape_plain [codec_simps]:
  "TAB \<notin> set (escapeField s)" "NL \<notin> set (escapeField s)" "CR \<notin> set (escapeField s)"
  by (induction s) (auto simp: ctrl_defs)

lemma unescape_Cons: "c \<noteq> BSL \<Longrightarrow> unescapeField (c # s) = c # unescapeField s"
  by (cases s) simp_all

lemma unescape_escape [codec_simps]: "unescapeField (escapeField s) = s"
  by (induction s) (auto simp: unescape_Cons unescape_char_def ctrl_defs)

lemma split_tabs_go_field:
  "TAB \<notin> set f \<Longrightarrow> split_tabs_go cur (f @ TAB # rest) = (cur @ f) # split_tabs_go [] rest"
  by (induction f arbitrary: cur) auto

lemma split_tabs_go_last: "TAB \<notin> set f \<Longrightarrow> split_tabs_go cur f = [cur @ f]"
  by (induction f arbitrary: cur) auto

lemma splitTabs_join:
  "fs \<noteq> [] \<Longrightarrow> list_all (\<lambda>f. TAB \<notin> set f) fs \<Longrightarrow> splitTabs (join_with TAB fs) = fs"
  unfolding splitTabs_def
proof (induction fs)
  case (Cons f fs)
  then show ?case
    by (cases fs) (simp_all add: split_tabs_go_last split_tabs_go_field)
qed simp

lemma is_digit_digit: "n < 10 \<Longrightarrow> is_digit (char_of (48 + n :: nat))"
  by (simp add: is_digit_def)

lemma dec_digits_digits: "list_all is_digit (dec_digits n) \<and> dec_digits n \<noteq> []"
  by (induction n rule: dec_digits.induct) (subst (1 2) dec_digits.simps, simp add: is_digit_digit)

lemma parse_uint_go_append:
  "list_all is_digit s \<Longrightarrow> parse_uint_go v (s @ t) =
     (case parse_uint_go v s of Some w \<Rightarrow> parse_uint_go w t | None \<Rightarrow> None)"
  by (induction v s rule: parse_uint_go.induct) simp_all

lemma parse_uint_dec: "parse_uint_go 0 (dec_digits n) = Some (word_of_nat n)"
proof (induction n rule: dec_digits.induct)
  case (1 n)
  show ?case
  proof (cases "n < 10")
    case True
    then show ?thesis by (subst dec_digits.simps) (simp add: is_digit_digit)
  next
    case False
    have "(word_of_nat (n div 10) * 10 + word_of_nat (n mod 10) :: u64) =
        word_of_nat (n div 10 * 10 + n mod 10)"
      by (simp only: of_nat_add of_nat_mult of_nat_numeral)
    then show ?thesis
      using 1 [OF False] False dec_digits_digits [of "n div 10"]
      by (subst dec_digits.simps) (simp add: parse_uint_go_append is_digit_digit)
  qed
qed

lemma parseUint_dec [codec_simps]: "parseUint (dec_digits n) = Some (word_of_nat n)"
  using dec_digits_digits [of n] by (simp add: parseUint_def parse_uint_dec)

lemma digit_plain: "is_digit c \<Longrightarrow> c \<noteq> TAB \<and> c \<noteq> NL \<and> c \<noteq> CR \<and> c \<noteq> BSL"
  by (auto simp: is_digit_def ctrl_defs)

lemma dec_digits_plain [codec_simps]:
  "TAB \<notin> set (dec_digits n)" "NL \<notin> set (dec_digits n)" "CR \<notin> set (dec_digits n)"
  using dec_digits_digits [of n] digit_plain by (auto simp: list_all_iff)

lemma payload_kind_plain [codec_simps]:
  "TAB \<notin> set (payload_kind_name x)" "NL \<notin> set (payload_kind_name x)" "CR \<notin> set (payload_kind_name x)"
  by (cases x; simp add: ctrl_defs)+

lemma parse_payload_kind [codec_simps]:
  "parse_enum payload_kind_name kAllPayloadKinds (payload_kind_name x) = Some x"
  by (cases x) (simp_all add: kAllPayloadKinds_def)

text \<open>A line made of plain fields is one line and its last character is no carriage return.\<close>

definition plain_field :: "string \<Rightarrow> bool" where
  "plain_field f \<longleftrightarrow> TAB \<notin> set f \<and> NL \<notin> set f \<and> CR \<notin> set f"

lemma plain_fields [codec_simps]:
  "plain_field (escapeField s)" "plain_field (dec_digits n)"
  "plain_field (payload_kind_name k)" "plain_field (job_state_name js)"
  "plain_field (confidence_level_name cl)" "plain_field (failure_reason_name fr)"
  "plain_field (confidence_grade_name cg)" "plain_field (completion_authority_name ca)"
  "plain_field ''J''" "plain_field ''T''" "plain_field ''S''"
  by (simp_all add: plain_field_def codec_simps) (simp_all add: ctrl_defs)

lemma plain_join:
  "list_all plain_field fs \<Longrightarrow>
   NL \<notin> set (join_with TAB fs) \<and> CR \<notin> set (join_with TAB fs)"
  using set_join_with [of TAB fs] by (fastforce simp: list_all_iff plain_field_def ctrl_defs)

lemma parse_journal_fields:
  assumes "list_all plain_field (f # fs)" "fs \<noteq> []" "f \<in> {''J'', ''T'', ''S''}"
  shows "parse_journal_line (join_with TAB (f # fs)) =
    (if f = ''J'' then parse_job_fields (f # fs)
     else if f = ''T'' then parse_token_fields (f # fs)
     else parse_state_fields (f # fs))"
proof -
  let ?l = "join_with TAB (f # fs)"
  have ne: "?l \<noteq> []" "hd ?l \<noteq> CHR ''#''" using assms(2,3) by auto
  have "last ?l \<noteq> CR" using plain_join [OF assms(1)] ne(1) by (metis last_in_set)
  moreover have "splitTabs ?l = f # fs"
    using assms(1) by (intro splitTabs_join) (auto simp: list_all_iff plain_field_def)
  moreover have "length fs > 0" using assms(2) by simp
  ultimately show ?thesis
    using ne assms(3) by (auto simp: parse_journal_line_def parseLine_def Let_def simp del: join_with_Cons)
qed

lemma ucast_u32_u64 [simp]: "ucast (ucast (a :: u32) :: u64) = a"
  by (rule bit_word_eqI) (auto simp: bit_simps)

lemma parse_jobLine:
  "parse_journal_line (jobLine r) = Some \<lparr>jn_kind = JK_Job, jn_record =
     default_record\<lparr>rec_id := rec_id r, rec_key := rec_key r, rec_printer_id := rec_printer_id r,
       rec_kind := rec_kind r, rec_created := rec_created r,
       rec_attempt := rec_attempt r, rec_payload_bytes := rec_payload_bytes r,
       rec_print_token := rec_print_token r, rec_cut_token := rec_cut_token r\<rparr>\<rparr>"
  unfolding jobLine_def
  by (subst parse_journal_fields)
    (simp_all add: codec_simps parse_job_fields_def numeral_eq_Suc)

lemma parse_tokenLine:
  "parse_journal_line (tokenLine i p c) = Some \<lparr>jn_kind = JK_Tokens, jn_record =
     default_record\<lparr>rec_id := i, rec_print_token := p, rec_cut_token := c\<rparr>\<rparr>"
  unfolding tokenLine_def
  by (subst parse_journal_fields)
    (simp_all add: codec_simps parse_token_fields_def numeral_eq_Suc)

lemma parse_stateLine:
  "parse_journal_line (stateLine i st cf rs at g a m) = Some \<lparr>jn_kind = JK_State, jn_record =
     default_record\<lparr>rec_id := i, rec_state := st, rec_confidence := cf, rec_reason := rs,
       rec_updated := at, rec_grade := g, rec_authority := a, rec_method := m\<rparr>\<rparr>"
  unfolding stateLine_def
  by (subst parse_journal_fields)
    (simp_all add: codec_simps parse_state_fields_def parse_evidence_def numeral_eq_Suc)

section \<open>The journal as a line codec\<close>

definition creation :: "job_record \<Rightarrow> job_record" where
  "creation r =
     default_record\<lparr>rec_id := rec_id r, rec_key := rec_key r, rec_printer_id := rec_printer_id r,
       rec_kind := rec_kind r, rec_created := rec_created r,
       rec_attempt := rec_attempt r, rec_payload_bytes := rec_payload_bytes r,
       rec_print_token := rec_print_token r, rec_cut_token := rec_cut_token r\<rparr>"

definition transition :: "job_record \<Rightarrow> job_record" where
  "transition r =
     default_record\<lparr>rec_id := rec_id r, rec_state := rec_state r,
       rec_confidence := rec_confidence r, rec_reason := rec_reason r,
       rec_updated := rec_updated r, rec_grade := rec_grade r, rec_authority := rec_authority r,
       rec_method := rec_method r\<rparr>"

definition tokens_only :: "job_record \<Rightarrow> job_record" where
  "tokens_only r =
     default_record\<lparr>rec_id := rec_id r, rec_print_token := rec_print_token r,
       rec_cut_token := rec_cut_token r\<rparr>"

fun part_of :: "journal_kind \<Rightarrow> job_record \<Rightarrow> job_record" where
  "part_of JK_Job r = creation r"
| "part_of JK_State r = transition r"
| "part_of JK_Tokens r = tokens_only r"

definition entry_of :: "journal_kind \<Rightarrow> job_record \<Rightarrow> journal_entry" where
  "entry_of k r = \<lparr>jn_kind = k, jn_record = part_of k r\<rparr>"

definition state_line_of :: "job_record \<Rightarrow> string" where
  "state_line_of r =
     stateLine (rec_id r) (rec_state r) (rec_confidence r) (rec_reason r) (rec_updated r)
       (rec_grade r) (rec_authority r) (rec_method r)"

definition entry_line :: "journal_entry \<Rightarrow> string" where
  "entry_line e =
     (let r = jn_record e
      in case jn_kind e of
           JK_Job \<Rightarrow> jobLine r
         | JK_State \<Rightarrow> state_line_of r
         | JK_Tokens \<Rightarrow> tokenLine (rec_id r) (rec_print_token r) (rec_cut_token r))"

text \<open>An entry that carries nothing besides what its kind of line records.\<close>

definition canonical :: "journal_entry \<Rightarrow> bool" where
  "canonical e \<longleftrightarrow> jn_record e = part_of (jn_kind e) (jn_record e)"

lemma part_of_idem [simp]: "part_of k (part_of k r) = part_of k r"
  by (cases k) (simp_all add: creation_def transition_def tokens_only_def)

lemma canonical_entry_of [simp]: "canonical (entry_of k r)"
  by (simp add: canonical_def entry_of_def)

lemma entry_line_plain: "NL \<notin> set (entry_line e) \<and> CR \<notin> set (entry_line e)"
  unfolding entry_line_def Let_def
  by (cases "jn_kind e")
    (auto simp: jobLine_def stateLine_def tokenLine_def state_line_of_def codec_simps
       simp del: join_with.simps join_with_Cons dest!: plain_join [THEN conjunct1, THEN notE, rotated]
       plain_join [THEN conjunct2, THEN notE, rotated])

lemma parse_entry_line: "canonical e \<Longrightarrow> parse_journal_line (entry_line e) = Some e"
  by (cases e; cases "jn_kind e")
    (auto simp: entry_line_def state_line_of_def canonical_def creation_def transition_def
       tokens_only_def parse_jobLine parse_stateLine parse_tokenLine)

interpretation journal: line_codec entry_line parse_journal_line canonical
  by unfold_locales (simp_all add: entry_line_plain parse_entry_line)

lemma replay_append:
  "terminated c \<Longrightarrow> replay (c @ d) = fold apply_entry (readJournal d) (replay c)"
  by (simp add: replay_def readJournal_def read_lines_append)

lemma replay_entry:
  "terminated c \<Longrightarrow> canonical e \<Longrightarrow>
   replay (c @ entry_line e @ [NL]) = apply_entry e (replay c)"
  using journal.read_write [of "[e]"]
  by (simp add: replay_append readJournal_def write_lines_Cons)

section \<open>The table in memory is the table of the journal\<close>

definition forget :: "job_record \<Rightarrow> job_record" where
  "forget r = r\<lparr>rec_recovered := False\<rparr>"

definition keys_of :: "string list \<Rightarrow> (string \<rightharpoonup> job_record) \<Rightarrow> (string \<rightharpoonup> string)" where
  "keys_of order by_id = fold (\<lambda>i. remember_key (rec_key (the (by_id i))) i) order Map.empty"

text \<open>The shape of the table: every id in order once, under its own id, and the keys' index.\<close>

definition table_ok :: "job_store \<Rightarrow> bool" where
  "table_ok s \<longleftrightarrow>
     distinct (js_order s) \<and> set (js_order s) = dom (js_by_id s) \<and>
     (\<forall>i r. js_by_id s i = Some r \<longrightarrow> rec_id r = i) \<and>
     js_id_by_key s = keys_of (js_order s) (js_by_id s)"

definition journal_ok :: "job_store \<Rightarrow> bool" where
  "journal_ok s \<longleftrightarrow>
     table_ok s \<and> js_persistent s \<and> terminated (js_file s) \<and>
     js_order (replay (js_file s)) = js_order s \<and>
     js_id_by_key (replay (js_file s)) = js_id_by_key s \<and>
     js_by_id (replay (js_file s)) = map_option forget \<circ> js_by_id s"

lemma keys_of_cong:
  "(\<And>i. i \<in> set order \<Longrightarrow> rec_key (the (m i)) = rec_key (the (m' i))) \<Longrightarrow>
   keys_of order m = keys_of order m'"
  unfolding keys_of_def by (rule fold_cong) auto

lemma keys_of_snoc:
  "keys_of (order @ [i]) m = remember_key (rec_key (the (m i))) i (keys_of order m)"
  by (simp add: keys_of_def)

lemma table_ok_blank [simp]: "table_ok (blank_store p c)"
  by (simp add: table_ok_def blank_store_def keys_of_def)

lemma table_ok_file [simp]: "table_ok (s\<lparr>js_file := c\<rparr>) = table_ok s"
  by (simp add: table_ok_def)

lemma table_ok_insert:
  assumes "table_ok s" "js_by_id s (rec_id r) = None"
  shows "table_ok (insert_record r s)"
proof -
  have "keys_of (js_order s) ((js_by_id s)(rec_id r \<mapsto> r)) = keys_of (js_order s) (js_by_id s)"
    using assms by (intro keys_of_cong) (auto simp: table_ok_def)
  then show ?thesis
    using assms by (auto simp: table_ok_def insert_record_def keys_of_snoc)
qed

lemma table_ok_update:
  assumes "table_ok s" "js_by_id s i = Some r" "rec_id r' = rec_id r" "rec_key r' = rec_key r"
  shows "table_ok (s\<lparr>js_by_id := (js_by_id s)(i \<mapsto> r')\<rparr>)"
proof -
  have "keys_of (js_order s) ((js_by_id s)(i \<mapsto> r')) = keys_of (js_order s) (js_by_id s)"
    using assms by (intro keys_of_cong) auto
  then show ?thesis using assms by (auto simp: table_ok_def)
qed

text \<open>The tables agree up to the mark that recovery sets in memory only.\<close>

definition agrees :: "job_store \<Rightarrow> job_store \<Rightarrow> bool" where
  "agrees a s \<longleftrightarrow>
     js_order a = js_order s \<and> js_id_by_key a = js_id_by_key s \<and>
     js_by_id a = map_option forget \<circ> js_by_id s"

lemma journal_ok_alt:
  "journal_ok s \<longleftrightarrow> table_ok s \<and> js_persistent s \<and> terminated (js_file s) \<and>
     agrees (replay (js_file s)) s"
  by (auto simp: journal_ok_def agrees_def)

lemma agrees_file [simp]: "agrees a (s\<lparr>js_file := c\<rparr>) = agrees a s"
  by (simp add: agrees_def)

lemma forget_simps [simp]:
  "rec_id (forget r) = rec_id r" "rec_key (forget r) = rec_key r" "rec_state (forget r) = rec_state r"
  "isTerminal (forget r) = isTerminal r"
  by (simp_all add: forget_def isTerminal_def)

lemma creation_recovered: "\<not> rec_recovered (creation r)"
  by (simp add: creation_def default_record_def)

lemma forget_same: "\<not> rec_recovered r \<Longrightarrow> forget r = r"
  by (cases r) (simp add: forget_def)

lemma agrees_apply:
  assumes "agrees a s" "canonical e"
  shows "agrees (apply_entry e a) (apply_entry e s)"
proof (cases "js_by_id s (rec_id (jn_record e))")
  case None
  then have "js_by_id a (rec_id (jn_record e)) = None" using assms(1) by (simp add: agrees_def)
  moreover have "forget (jn_record e) = jn_record e" if "jn_kind e = JK_Job"
  proof -
    have "jn_record e = creation (jn_record e)" using assms(2) that by (simp add: canonical_def)
    then have "\<not> rec_recovered (jn_record e)"
      by (metis creation_recovered)
    then show ?thesis by (rule forget_same)
  qed
  ultimately show ?thesis
    using assms(1) None by (cases "jn_kind e") (auto simp: agrees_def apply_entry_def insert_record_def Let_def)
next
  case (Some r)
  then have "js_by_id a (rec_id (jn_record e)) = Some (forget r)" using assms(1) by (simp add: agrees_def)
  then show ?thesis
    using assms(1) Some
    by (cases "jn_kind e") (auto simp: agrees_def apply_entry_def Let_def forget_def set_tokens_def take_state_def)
qed

lemma agrees_fold:
  "list_all canonical es \<Longrightarrow> agrees a s \<Longrightarrow> agrees (fold apply_entry es a) (fold apply_entry es s)"
  by (induction es arbitrary: a s) (simp_all add: agrees_apply)

lemma replay_write:
  "terminated c \<Longrightarrow> list_all canonical es \<Longrightarrow>
   replay (c @ write_lines entry_line es) = fold apply_entry es (replay c)"
  by (simp add: replay_append readJournal_def journal.read_write)


definition table_eq :: "job_store \<Rightarrow> job_store \<Rightarrow> bool" where
  "table_eq a b \<longleftrightarrow>
     js_order a = js_order b \<and> js_id_by_key a = js_id_by_key b \<and> js_by_id a = js_by_id b"

lemma journal_ok_extend:
  assumes "journal_ok s" "list_all canonical es" "table_ok s'" "js_persistent s'"
    and "js_file s' = js_file s @ write_lines entry_line es"
    and "table_eq s' (fold apply_entry es s)"
  shows "journal_ok s'"
proof -
  have "agrees (fold apply_entry es (replay (js_file s))) (fold apply_entry es s)"
    using assms(1,2) by (simp add: journal_ok_alt agrees_fold)
  then have "agrees (replay (js_file s')) s'"
    using assms by (simp add: journal_ok_alt replay_write agrees_def table_eq_def)
  then show ?thesis
    using assms by (simp add: journal_ok_alt terminated_append)
qed

lemma entry_line_of:
  "entry_line (entry_of JK_Job r) = jobLine r" 
  "entry_line (entry_of JK_State r) = state_line_of r"
  "entry_line (entry_of JK_Tokens r) = tokenLine (rec_id r) (rec_print_token r) (rec_cut_token r)"
  by (simp_all add: entry_line_def entry_of_def creation_def transition_def tokens_only_def
      jobLine_def state_line_of_def)

text \<open>The calls that change the store.\<close>

datatype store_call =
    CallCreate u64 job_record
  | CallState u64 string job_state confidence_level failure_reason job_evidence
  | CallTokens string string string

fun store_do :: "append_io \<Rightarrow> store_call \<Rightarrow> job_store \<Rightarrow> job_store \<times> store_error option" where
  "store_do io (CallCreate now r) s = createJob io now r s"
| "store_do io (CallState now i st cf rs e) s = recordState io now i st cf rs e s"
| "store_do io (CallTokens i p c) s = recordTokens io i p c s"

lemma write_lines_two:
  "write_lines entry_line [a, b] = entry_line a @ NL # entry_line b @ [NL]"
  by (simp add: write_lines_def)

lemma take_state_transition [simp]: "take_state (transition r) old = take_state r old"
  by (simp add: take_state_def transition_def)

lemma take_state_creation:
  "\<not> rec_recovered r \<Longrightarrow> take_state r (creation r) = r"
  by (cases r) (simp add: take_state_def creation_def default_record_def)

lemma take_state_set [simp]:
  "take_state (set_state st cf rs e now r) r = set_state st cf rs e now r"
  by (cases r) (simp add: take_state_def set_state_def)

lemma ids [simp]:
  "rec_id (creation r) = rec_id r" "rec_id (transition r) = rec_id r" "rec_id (tokens_only r) = rec_id r"
  "rec_key (creation r) = rec_key r"
  "rec_id (set_state st cf rs e now r) = rec_id r" "rec_id (set_tokens p c r) = rec_id r"
  "rec_key (set_state st cf rs e now r) = rec_key r" "rec_key (set_tokens p c r) = rec_key r"
  by (simp_all add: creation_def transition_def tokens_only_def set_state_def set_tokens_def)

lemma apply_create:
  assumes "js_by_id s (rec_id r) = None" "\<not> rec_recovered r"
  shows "apply_entry (entry_of JK_State r) (apply_entry (entry_of JK_Job r) s) = insert_record r s"
  using assms by (simp add: apply_entry_def entry_of_def insert_record_def take_state_creation Let_def)

lemma apply_state:
  assumes "js_by_id s (rec_id r) = Some r"
  shows "apply_entry (entry_of JK_State (set_state st cf rs e now r)) s =
    s\<lparr>js_by_id := (js_by_id s)(rec_id r \<mapsto> set_state st cf rs e now r)\<rparr>"
  using assms by (simp add: apply_entry_def entry_of_def Let_def)

lemma apply_tokens:
  assumes "js_by_id s (rec_id r) = Some r"
  shows "apply_entry (entry_of JK_Tokens (set_tokens p c r)) s =
    s\<lparr>js_by_id := (js_by_id s)(rec_id r \<mapsto> set_tokens p c r)\<rparr>"
  using assms by (simp add: apply_entry_def entry_of_def Let_def tokens_only_def set_tokens_def)

text \<open>A successful call writes the lines of its entries and applies them to the table.\<close>

lemma journal_ok_applied:
  assumes "journal_ok s" "list_all canonical es" "table_ok (fold apply_entry es s)"
    and "s' = (fold apply_entry es s)\<lparr>js_file := js_file s @ write_lines entry_line es\<rparr>"
    and "js_persistent (fold apply_entry es s)"
  shows "journal_ok s'"
  by (rule journal_ok_extend [OF assms(1,2)]) (use assms in \<open>simp_all add: table_eq_def\<close>)

lemma persistent_apply [simp]: "js_persistent (apply_entry e s) = js_persistent s"
  by (simp add: apply_entry_def insert_record_def Let_def split: journal_kind.split option.split)

lemma persistent_fold [simp]: "js_persistent (fold apply_entry es s) = js_persistent s"
  by (induction es arbitrary: s) simp_all

definition stored_form :: "u64 \<Rightarrow> job_record \<Rightarrow> job_record" where
  "stored_form now r =
     (let created = (if rec_created r = 0 then now else rec_created r)
      in r\<lparr>rec_created := created, rec_updated := created, rec_state := JS_Queued,
           rec_confidence := CL_TransportAccepted, rec_reason := FR_None,
           rec_grade := CG_E_TransportOnly, rec_authority := CA_TransportOnly,
           rec_method := ''none'', rec_recovered := False\<rparr>)"

lemma stored_form_simps [simp]:
  "rec_id (stored_form now r) = rec_id r" "\<not> rec_recovered (stored_form now r)"
  "rec_key (stored_form now r) = rec_key r"
  by (simp_all add: stored_form_def Let_def)

lemma createJob_alt:
  assumes "js_by_id s (rec_id r) = None"
  shows "createJob io now r s =
    (let line = jobLine (stored_form now r) @ [NL] @ state_line_of (stored_form now r)
     in case store_append io line s of
          (s', Some err) \<Rightarrow> (s', Some err)
        | (s', None) \<Rightarrow> (insert_record (stored_form now r) s', None))"
  using assms by (simp add: createJob_def Let_def stored_form_def state_line_of_def)

lemma store_do_ok:
  assumes "js_persistent s" "table_ok s"
  shows "\<exists>es. list_all canonical es \<and> table_ok (fold apply_entry es s) \<and>
    fst (store_do AppendOk c s) =
      (fold apply_entry es s)\<lparr>js_file := js_file s @ write_lines entry_line es\<rparr>"
proof (cases c)
  case (CallCreate now r)
  show ?thesis
  proof (cases "js_by_id s (rec_id r) = None")
    case True
    let ?r = "stored_form now r"
    let ?es = "[entry_of JK_Job ?r, entry_of JK_State ?r]"
    have f: "fold apply_entry ?es s = insert_record ?r s"
      using True apply_create [of s ?r] by simp
    have "fst (store_do AppendOk c s) =
        (insert_record ?r s)\<lparr>js_file := js_file s @ write_lines entry_line ?es\<rparr>"
      using True assms CallCreate
      by (simp add: createJob_alt store_append_def Let_def write_lines_two entry_line_of insert_record_def)
    with f True assms show ?thesis
      by (intro exI [of _ ?es]) (simp add: table_ok_insert)
  next
    case False
    with CallCreate assms show ?thesis
      by (intro exI [of _ "[]"]) (simp add: createJob_def)
  qed
next
  case (CallState now i st cf rs e)
  show ?thesis
  proof (cases "js_by_id s i")
    case None
    with CallState assms show ?thesis
      by (intro exI [of _ "[]"]) (simp add: recordState_def)
  next
    case (Some r)
    then have i: "i = rec_id r" using assms by (auto simp: table_ok_def)
    let ?r = "set_state st cf rs e now r"
    let ?es = "[entry_of JK_State ?r]"
    have f: "fold apply_entry ?es s = s\<lparr>js_by_id := (js_by_id s)(i \<mapsto> ?r)\<rparr>"
      using Some i apply_state by simp
    have line: "stateLine i st cf rs now (ev_grade e) (ev_authority e) (ev_method e) = state_line_of ?r"
      by (simp add: state_line_of_def i) (simp add: set_state_def)
    have "fst (store_do AppendOk c s) =
        s\<lparr>js_file := js_file s @ write_lines entry_line ?es, js_by_id := (js_by_id s)(i \<mapsto> ?r)\<rparr>"
      using Some assms CallState
      by (simp add: recordState_def store_append_def Let_def write_lines_def entry_line_of line)
    with f Some assms show ?thesis
      by (intro exI [of _ ?es]) (simp add: table_ok_update)
  qed
next
  case (CallTokens i p k)
  show ?thesis
  proof (cases "js_by_id s i")
    case None
    with CallTokens assms show ?thesis
      by (intro exI [of _ "[]"]) (simp add: recordTokens_def)
  next
    case (Some r)
    then have i: "i = rec_id r" using assms by (auto simp: table_ok_def)
    let ?r = "set_tokens p k r"
    let ?es = "[entry_of JK_Tokens ?r]"
    have f: "fold apply_entry ?es s = s\<lparr>js_by_id := (js_by_id s)(i \<mapsto> ?r)\<rparr>"
      using Some i apply_tokens by simp
    have line: "tokenLine i p k = tokenLine (rec_id ?r) (rec_print_token ?r) (rec_cut_token ?r)"
      by (simp add: i) (simp add: set_tokens_def)
    have "fst (store_do AppendOk c s) =
        s\<lparr>js_file := js_file s @ write_lines entry_line ?es, js_by_id := (js_by_id s)(i \<mapsto> ?r)\<rparr>"
      using Some assms CallTokens
      by (simp add: recordTokens_def store_append_def Let_def write_lines_def entry_line_of line)
    with f Some assms show ?thesis
      by (intro exI [of _ ?es]) (simp add: table_ok_update)
  qed
qed

lemma journal_ok_do: "journal_ok s \<Longrightarrow> journal_ok (fst (store_do AppendOk c s))"
proof -
  assume ok: "journal_ok s"
  then obtain es where "list_all canonical es" "table_ok (fold apply_entry es s)"
    "fst (store_do AppendOk c s) =
      (fold apply_entry es s)\<lparr>js_file := js_file s @ write_lines entry_line es\<rparr>"
    using store_do_ok [of s c] by (auto simp: journal_ok_def)
  then show ?thesis using journal_ok_applied [OF ok] ok by (simp add: journal_ok_def)
qed

text \<open>A run of calls whose appends all succeed; a refused call changes nothing.\<close>

definition store_run :: "store_call list \<Rightarrow> job_store \<Rightarrow> job_store" where
  "store_run cs s = fold (\<lambda>c t. fst (store_do AppendOk c t)) cs s"

lemma journal_ok_run: "journal_ok s \<Longrightarrow> journal_ok (store_run cs s)"
  by (induction cs arbitrary: s) (simp_all add: store_run_def journal_ok_do)

section \<open>Reopening\<close>

lemma table_ok_count [simp]: "table_ok (s\<lparr>js_recovered_count := n\<rparr>) = table_ok s"
  by (simp add: table_ok_def)

lemma table_ok_apply:
  assumes "table_ok s"
  shows "table_ok (apply_entry e s)"
proof (cases "js_by_id s (rec_id (jn_record e))")
  case None
  then show ?thesis
    using assms table_ok_insert [OF assms None]
    by (simp add: apply_entry_def Let_def split: journal_kind.split)
next
  case (Some r)
  then have "rec_id r = rec_id (jn_record e)" using assms by (auto simp: table_ok_def)
  then show ?thesis
    using assms table_ok_update [OF assms Some]
    by (simp add: apply_entry_def Let_def Some take_state_def set_tokens_def split: journal_kind.split)
qed

lemma table_ok_replay: "table_ok (replay c)"
proof -
  have "table_ok s \<Longrightarrow> table_ok (fold apply_entry es s)" for es s
    by (induction es arbitrary: s) (simp_all add: table_ok_apply)
  then show ?thesis by (simp add: replay_def)
qed

lemma recover_record_keeps [simp]:
  "rec_id (recover_record n r) = rec_id r" "rec_key (recover_record n r) = rec_key r"
  by (simp_all add: recover_record_def)

lemma table_ok_recover:
  "table_ok s \<Longrightarrow> table_ok (recover_one now i s)"
  using table_ok_update [of s i _ "recover_record (now i) _"]
  by (auto simp: recover_one_def split: option.split)

lemma recover_one_simps [simp]:
  "js_order (recover_one now i s) = js_order s"
  "js_id_by_key (recover_one now i s) = js_id_by_key s"
  "js_persistent (recover_one now i s) = js_persistent s"
  by (simp_all add: recover_one_def split: option.split)

lemma recover_one_by_id:
  "js_by_id (recover_one now i s) =
     (\<lambda>j. if j = i then map_option (recover_record (now i)) (js_by_id s i) else js_by_id s j)"
  by (rule ext) (auto simp: recover_one_def recover_record_def split: option.split)

lemma recover_fold:
  assumes "distinct is"
  shows "js_order (fold (recover_one now) is s) = js_order s \<and>
    js_id_by_key (fold (recover_one now) is s) = js_id_by_key s \<and>
    js_persistent (fold (recover_one now) is s) = js_persistent s \<and>
    (table_ok s \<longrightarrow> table_ok (fold (recover_one now) is s)) \<and>
    js_by_id (fold (recover_one now) is s) =
      (\<lambda>j. if j \<in> set is then map_option (recover_record (now j)) (js_by_id s j) else js_by_id s j)"
  using assms
  by (induction "is" arbitrary: s) (auto simp: recover_one_by_id table_ok_recover fun_eq_iff)

lemma persistent_blank [simp]: "js_persistent (blank_store p c) = p"
  by (simp add: blank_store_def)

lemma store_load_table:
  "js_order (store_load now c) = js_order (replay c)"
  "js_id_by_key (store_load now c) = js_id_by_key (replay c)"
  "table_ok (store_load now c)" "js_persistent (store_load now c)"
  "js_by_id (store_load now c) j = map_option (recover_record (now j)) (js_by_id (replay c) j)"
proof -
  have t: "table_ok (replay c)" by (rule table_ok_replay)
  then have d: "distinct (js_order (replay c))" "set (js_order (replay c)) = dom (js_by_id (replay c))"
    by (simp_all add: table_ok_def)
  note f = recover_fold [OF d(1), of now "replay c"]
  show "js_order (store_load now c) = js_order (replay c)"
    "js_id_by_key (store_load now c) = js_id_by_key (replay c)"
    "table_ok (store_load now c)"
    using f t by (simp_all add: store_load_def Let_def)
  show "js_persistent (store_load now c)"
    using f by (simp add: store_load_def Let_def) (simp add: replay_def)
  show "js_by_id (store_load now c) j = map_option (recover_record (now j)) (js_by_id (replay c) j)"
    using f d(2) by (cases "js_by_id (replay c) j") (auto simp: store_load_def Let_def domIff)
qed

text \<open>The compacted journal as entries.\<close>

definition record_entries :: "job_record \<Rightarrow> journal_entry list" where
  "record_entries r = [entry_of JK_Job r, entry_of JK_State r]"

lemma compact_text_lines:
  "compact_text s = journal_header @ NL # write_lines entry_line (concat (map record_entries (store_all s)))"
proof -
  have "write_lines entry_line (concat (map record_entries rs)) = concat (map record_lines rs)" for rs
    by (induction rs)
      (simp_all add: write_lines_append record_entries_def write_lines_Cons entry_line_of
        record_lines_def state_line_of_def)
  then show ?thesis by (simp add: compact_text_def)
qed

lemma readJournal_compact:
  "readJournal (compact_text s) = concat (map record_entries (store_all s))"
proof -
  have h: "NL \<notin> set journal_header" "parse_journal_line journal_header = None"
    by (simp_all add: journal_header_def parse_journal_line_def parseLine_def ctrl_defs)
  have "list_all canonical (concat (map record_entries rs))" for rs
    by (induction rs) (simp_all add: record_entries_def)
  then show ?thesis
    using h by (simp add: readJournal_def compact_text_lines read_lines_line journal.read_write)
qed

lemma entry_of_forget [simp]: "entry_of k (forget r) = entry_of k r"
  by (cases k) (simp_all add: entry_of_def forget_def creation_def transition_def tokens_only_def)

lemma replay_records:
  assumes "distinct is" "\<And>i. i \<in> set is \<Longrightarrow> \<exists>r. m i = Some r \<and> rec_id r = i"
  shows "fold apply_entry (concat (map (\<lambda>i. record_entries (the (m i))) is)) (blank_store True []) =
    \<lparr>js_persistent = True, js_file = [], js_order = is,
     js_by_id = (\<lambda>i. if i \<in> set is then map_option forget (m i) else None),
     js_id_by_key = keys_of is m, js_recovered_count = 0\<rparr>"
  using assms
proof (induction "is" rule: rev_induct)
  case Nil
  show ?case by (simp add: blank_store_def keys_of_def)
next
  case (snoc i "is")
  obtain r where r: "m i = Some r" "rec_id r = i" using snoc.prems(2) [of i] by auto
  let ?s = "\<lparr>js_persistent = True, js_file = [], js_order = is,
     js_by_id = (\<lambda>i. if i \<in> set is then map_option forget (m i) else None),
     js_id_by_key = keys_of is m, js_recovered_count = 0\<rparr>"
  have "apply_entry (entry_of JK_State (forget r)) (apply_entry (entry_of JK_Job (forget r)) ?s) =
      insert_record (forget r) ?s"
    by (rule apply_create) (use snoc.prems r in \<open>simp_all add: forget_def\<close>)
  then have "fold apply_entry (record_entries r) ?s = insert_record (forget r) ?s"
    by (simp add: record_entries_def)
  then show ?case
    using snoc r by (auto simp: insert_record_def keys_of_snoc fun_eq_iff)
qed

lemma replay_compact:
  assumes "table_ok s"
  shows "agrees (replay (compact_text s)) s"
proof -
  have o: "distinct (js_order s)" "set (js_order s) = dom (js_by_id s)"
    "js_id_by_key s = keys_of (js_order s) (js_by_id s)"
    and r: "\<And>i. i \<in> set (js_order s) \<Longrightarrow> \<exists>r. js_by_id s i = Some r \<and> rec_id r = i"
    using assms by (auto simp: table_ok_def)
  have "replay (compact_text s) =
      fold apply_entry (concat (map (\<lambda>i. record_entries (the (js_by_id s i))) (js_order s))) (blank_store True [])"
    by (simp add: replay_def readJournal_compact store_all_def comp_def)
  also note replay_records [OF o(1) r]
  finally show ?thesis
    using o(2,3) by (auto simp: agrees_def fun_eq_iff domIff)
qed

lemma terminated_compact: "terminated (compact_text s)"
  unfolding compact_text_lines
  by (metis append.assoc append_Cons append_Nil terminated_append terminated_snoc terminated_write_lines)

text \<open>Whatever the file holds, opening it gives a consistent store and a journal that agrees with it.\<close>

lemma store_open_ok:
  assumes "open_ok io"
  shows "\<exists>s. store_open io now c = (js_file s, Inr s) \<and> journal_ok s \<and>
    js_order s = js_order (replay c) \<and> js_id_by_key s = js_id_by_key (replay c) \<and>
    (\<forall>j. js_by_id s j = map_option (recover_record (now j)) (js_by_id (replay c) j))"
proof -
  let ?l = "store_load now c"
  let ?s = "?l\<lparr>js_file := compact_text ?l\<rparr>"
  have "journal_ok ?s"
    using replay_compact [of ?l] store_load_table terminated_compact by (simp add: journal_ok_alt)
  moreover have "store_open io now c = (js_file ?s, Inr ?s)"
    using assms by (simp add: store_open_def open_ok_def Let_def)
  ultimately show ?thesis using store_load_table by (intro exI [of _ ?s]) simp
qed


section \<open>A torn append\<close>

lemma first_tab_unique:
  "TAB \<notin> set u \<Longrightarrow> TAB \<notin> set v \<Longrightarrow> u @ TAB # x = v @ TAB # y \<Longrightarrow> u = v \<and> x = y"
proof (induction u arbitrary: v)
  case Nil
  then show ?case by (cases v) auto
next
  case (Cons c u)
  then show ?case by (cases v) auto
qed

lemma split_tabs_prefix:
  "list_all (\<lambda>f. TAB \<notin> set f) fs \<Longrightarrow> join_with TAB fs = w @ lost \<Longrightarrow> fs \<noteq> [] \<Longrightarrow>
   \<exists>k p. k < length fs \<and> splitTabs w = take k fs @ [p]"
  unfolding splitTabs_def
proof (induction fs arbitrary: w)
  case (Cons f fs)
  show ?case
  proof (cases "TAB \<in> set w")
    case False
    then show ?thesis by (intro exI [of _ 0] exI [of _ w]) (simp add: split_tabs_go_last)
  next
    case True
    then obtain u w' where w: "w = u @ TAB # w'" "TAB \<notin> set u" by (meson split_list_first)
    have fs: "fs \<noteq> []"
    proof
      assume "fs = []"
      then have "f = w @ lost" using Cons.prems(2) by simp
      with True Cons.prems(1) show False by auto
    qed
    then have "f @ TAB # join_with TAB fs = u @ TAB # (w' @ lost)"
      using Cons.prems(2) w(1) by simp
    then have u: "u = f" "join_with TAB fs = w' @ lost"
      using first_tab_unique [of f u] Cons.prems(1) w(2) by auto
    then obtain k p where "k < length fs" "split_tabs_go [] w' = take k fs @ [p]"
      using Cons.IH [of w'] Cons.prems(1) fs by auto
    then show ?thesis
      using w u(1) by (intro exI [of _ "Suc k"] exI [of _ p]) (simp add: split_tabs_go_field)
  qed
qed simp

text \<open>
  Whatever part of a state line reached the file, it is skipped or it is read as a transition
  of the same job to the same state at the same confidence.
\<close>

lemma torn_state_line:
  assumes "state_line_of r = w @ lost" "parse_journal_line w = Some t"
  shows "jn_kind t = JK_State \<and> rec_id (jn_record t) = rec_id r \<and>
    rec_state (jn_record t) = rec_state r \<and> rec_confidence (jn_record t) = rec_confidence r \<and>
    rec_reason (jn_record t) = rec_reason r"
proof -
  let ?fs = "[''S'', escapeField (rec_id r), job_state_name (rec_state r),
      confidence_level_name (rec_confidence r), failure_reason_name (rec_reason r),
      dec_digits (unat (rec_updated r)), confidence_grade_name (rec_grade r),
      completion_authority_name (rec_authority r), escapeField (rec_method r)]"
  have line: "join_with TAB ?fs = w @ lost"
    using assms(1) by (simp add: state_line_of_def stateLine_def del: join_with_Cons)
  have plain: "list_all plain_field ?fs" by (simp add: codec_simps)
  have "CR \<notin> set w" using plain_join [OF plain] line by (metis Un_iff set_append)
  then have "last w \<noteq> CR" if "w \<noteq> []" using that by (metis last_in_set)
  then have parse: "parseLine w = Some t" using assms(2) by (auto simp: parse_journal_line_def split: if_splits)
  have "list_all (\<lambda>f. TAB \<notin> set f) ?fs" using plain by (simp add: plain_field_def)
  from split_tabs_prefix [OF this line] obtain k p where
    k: "k < length ?fs" "splitTabs w = take k ?fs @ [p]" by blast
  show ?thesis
  proof (cases "5 \<le> k")
    case True
    then obtain rest where f: "splitTabs w = take 5 ?fs @ rest" "rest \<noteq> []"
      using k(2) take_add [of 5 "k - 5" ?fs] by simp
    have "hd (splitTabs w) = ''S''" using f by simp
    then have "parse_state_fields (splitTabs w) = Some t"
      using parse f by (auto simp: parseLine_def Let_def split: if_splits)
    then show ?thesis
      using f by (auto simp: parse_state_fields_def codec_simps numeral_eq_Suc parse_evidence_def Let_def
          split: if_splits option.splits)
  next
    case False
    then have "length (splitTabs w) < 6" using k by simp
    moreover have "splitTabs w ! 0 = ''S'' \<or> length (splitTabs w) < 2" using k by (cases k) auto
    ultimately show ?thesis
      using parse by (auto simp: parseLine_def Let_def parse_state_fields_def split: if_splits)
  qed
qed

text \<open>The table after a torn state line: as before, or with one transition to the same state.\<close>

lemma replay_torn_state:
  assumes "terminated c"
  shows "replay (c @ take n (state_line_of r @ [NL])) = replay c \<or>
    (\<exists>t. replay (c @ take n (state_line_of r @ [NL])) = apply_entry t (replay c) \<and>
       jn_kind t = JK_State \<and> rec_id (jn_record t) = rec_id r \<and>
       rec_state (jn_record t) = rec_state r \<and> rec_confidence (jn_record t) = rec_confidence r)"
proof -
  let ?e = "entry_of JK_State r" and ?w = "take n (state_line_of r @ [NL])"
  show ?thesis
  proof (cases "n \<le> length (state_line_of r)")
    case False
    then have "replay (c @ ?w) = apply_entry ?e (replay c)"
      using replay_entry [OF assms canonical_entry_of, of JK_State r] by (simp add: entry_line_of)
    then show ?thesis by (intro disjI2 exI [of _ ?e]) (simp add: entry_of_def transition_def)
  next
    case True
    have lost: "drop n (state_line_of r @ [NL]) \<noteq> []" using True by simp
    have line: "entry_line ?e @ [NL] = ?w @ drop n (state_line_of r @ [NL])"
      by (simp only: append_take_drop_id entry_line_of)
    have read: "readJournal (c @ ?w) = readJournal c @
        (if ?w = [] then [] else case parse_journal_line ?w of None \<Rightarrow> [] | Some t \<Rightarrow> [t])"
      unfolding readJournal_def by (rule journal.read_torn [OF assms canonical_entry_of line lost])
    show ?thesis
    proof (cases "?w = [] \<or> parse_journal_line ?w = None")
      case True
      then have "readJournal (c @ ?w) = readJournal c" using read by auto
      then show ?thesis by (simp add: replay_def)
    next
      case False
      then obtain t where t: "parse_journal_line ?w = Some t" "?w \<noteq> []" by auto
      have "state_line_of r = ?w @ drop n (state_line_of r)" using True by simp
      from torn_state_line [OF this t(1)] have "jn_kind t = JK_State \<and> rec_id (jn_record t) = rec_id r \<and>
          rec_state (jn_record t) = rec_state r \<and> rec_confidence (jn_record t) = rec_confidence r" by simp
      moreover have "replay (c @ ?w) = apply_entry t (replay c)"
      proof -
        have "readJournal (c @ ?w) = readJournal c @ [t]"
          using read t by (simp only: if_False option.simps)
        then show ?thesis by (simp only: replay_def fold_append fold.simps comp_apply id_apply)
      qed
      ultimately show ?thesis by blast
    qed
  qed
qed

section \<open>Properties of the store\<close>

text \<open>
  C19: what the store writes it reads. The line of a job, of a transition and of a pair of
  tokens parse back to exactly the fields they were made from, whatever characters the
  texts hold and whatever the numbers are.
\<close>

theorem journal_lines_round_trip:
  "parse_journal_line (jobLine r) = Some \<lparr>jn_kind = JK_Job, jn_record = creation r\<rparr> \<and>
   parse_journal_line (state_line_of r) = Some \<lparr>jn_kind = JK_State, jn_record = transition r\<rparr> \<and>
   parse_journal_line (tokenLine (rec_id r) (rec_print_token r) (rec_cut_token r)) =
     Some \<lparr>jn_kind = JK_Tokens, jn_record = tokens_only r\<rparr>"
  using parse_entry_line [of "entry_of JK_Job r"] parse_entry_line [of "entry_of JK_State r"]
    parse_entry_line [of "entry_of JK_Tokens r"]
  by (simp add: entry_line_of) (simp add: entry_of_def)

lemma store_open_Inr: "store_open io now c = (f, Inr s) \<Longrightarrow> open_ok io"
  by (auto simp: store_open_def open_ok_def Let_def split: if_splits)

lemma opened_journal_ok: "store_open io now c = (f, Inr s) \<Longrightarrow> journal_ok s \<and> f = js_file s"
  using store_open_ok [of io now c] store_open_Inr [of io now c f s] by auto

lemma recover_terminal: "isTerminal (recover_record n r)"
  by (simp add: recover_record_def isTerminal_def terminal_state_def)

lemma reopened:
  assumes "journal_ok s" "open_ok io"
  shows "\<exists>s'. store_open io now (js_file s) = (js_file s', Inr s') \<and> journal_ok s' \<and>
    js_order s' = js_order s \<and> js_id_by_key s' = js_id_by_key s \<and>
    (\<forall>j. js_by_id s' j = map_option (recover_record (now j) \<circ> forget) (js_by_id s j))"
  using store_open_ok [OF assms(2), of now "js_file s"] assms(1)
  by (auto simp: journal_ok_def option.map_comp)

text \<open>
  C13: nothing that was recorded is forgotten. Whatever the journal held when a store was
  opened and whatever was then recorded, reopening it finds the same jobs in the same order,
  each exactly as it was except for the recovery rule: a job that was in flight after its
  first byte is Unknown, one that had sent nothing is FailedKnown, and a finished one is
  untouched. Afterwards every job is finished.
\<close>

theorem restart_recovers_every_job:
  assumes "store_open io0 now0 content = (file, Inr s0)" and "open_ok io"
  shows "\<exists>s'. store_open io now (js_file (store_run cs s0)) = (js_file s', Inr s') \<and>
    js_order s' = js_order (store_run cs s0) \<and>
    (\<forall>i. findById i s' = map_option (recover_record (now i) \<circ> forget) (findById i (store_run cs s0))) \<and>
    (\<forall>k. findByKey k s' = map_option (\<lambda>r. recover_record (now (rec_id r)) (forget r))
                             (findByKey k (store_run cs s0))) \<and>
    list_all isTerminal (store_all s')"
proof -
  have ok: "journal_ok (store_run cs s0)"
    using opened_journal_ok [OF assms(1)] by (simp add: journal_ok_run)
  from reopened [OF ok assms(2), of now] obtain s' where s': "store_open io now (js_file (store_run cs s0)) = (js_file s', Inr s')"
    "journal_ok s'" "js_order s' = js_order (store_run cs s0)" "js_id_by_key s' = js_id_by_key (store_run cs s0)"
    "\<And>j. js_by_id s' j = map_option (recover_record (now j) \<circ> forget) (js_by_id (store_run cs s0) j)" by blast
  have id: "rec_id r = j" if "js_by_id (store_run cs s0) j = Some r" for j r
    using ok that by (auto simp: journal_ok_def table_ok_def)
  have "set (js_order s') = dom (js_by_id s')" using s'(2) by (simp add: journal_ok_def table_ok_def)
  then have "list_all isTerminal (store_all s')"
    using s'(5) by (auto simp: store_all_def list_all_iff recover_terminal)
  moreover have "findByKey k s' = map_option (\<lambda>r. recover_record (now (rec_id r)) (forget r))
      (findByKey k (store_run cs s0))" for k
  proof (cases "js_id_by_key (store_run cs s0) k")
    case (Some i)
    then show ?thesis
      using id [of i] s'(4,5) by (cases "js_by_id (store_run cs s0) i") (auto simp: findByKey_def)
  qed (simp add: findByKey_def s'(4))
  ultimately show ?thesis using s' by (intro exI [of _ s']) (auto simp: findById_def)
qed


text \<open>The file operations of an opening that succeeds, and what it makes of an empty directory.\<close>

definition all_ok :: open_io where
  "all_ok = \<lparr>oi_directory = True, oi_temp_opened = True, oi_temp_written = True,
             oi_replaced = True, oi_appendable = True\<rparr>"

definition fresh_store :: job_store where
  "fresh_store = (blank_store True [])\<lparr>js_file := journal_header @ [NL]\<rparr>"

lemma all_ok [simp]: "open_ok all_ok"
  by (simp add: all_ok_def open_ok_def)

lemma open_fresh: "store_open all_ok now [] = (journal_header @ [NL], Inr fresh_store)"
  by (simp add: store_open_def all_ok_def store_load_def replay_def readJournal_def Let_def
      compact_text_def store_all_def fresh_store_def) (simp add: blank_store_def)

definition sample_job :: job_record where
  "sample_job = default_record\<lparr>rec_id := ''a'', rec_key := ''order-7''\<rparr>"

definition sample_calls :: "store_call list" where
  "sample_calls = [CallCreate 5 sample_job,
     CallState 6 ''a'' JS_SendStarted CL_PrinterHealthy FR_None default_evidence]"

lemma sample_found:
  "findById ''a'' (store_run sample_calls fresh_store) =
     Some (set_state JS_SendStarted CL_PrinterHealthy FR_None default_evidence 6 (stored_form 5 sample_job))"
  by (simp add: store_run_def sample_calls_def fresh_store_def blank_store_def createJob_alt
      sample_job_def default_record_def store_append_def insert_record_def recordState_def findById_def Let_def)

theorem restart_recovers_every_job_witness:
  "\<exists>s'. store_open all_ok (\<lambda>_. 9) (js_file (store_run sample_calls fresh_store)) = (js_file s', Inr s') \<and>
     map_option rec_state (findById ''a'' s') = Some JS_Unknown"
  using restart_recovers_every_job [OF open_fresh all_ok, of "\<lambda>_. 9" sample_calls]
  by (auto simp: sample_found set_state_def recover_record_def isTerminal_def terminal_state_def
      in_flight_def forget_def)


text \<open>
  Opening a store never loses the journal. Whatever step of the compaction fails, the
  file that is left is opened again to the same jobs in the same order with the same keys.
\<close>

theorem failed_open_harmless:
  assumes "open_ok io'"
  shows "\<exists>a b. snd (store_open io' now c) = Inr a \<and>
    snd (store_open io' now (fst (store_open io now c))) = Inr b \<and>
    js_order b = js_order a \<and> js_id_by_key b = js_id_by_key a \<and>
    (\<forall>i. map_option forget (findById i b) = map_option forget (findById i a))"
proof -
  let ?l = "store_load now c" and ?c = "fst (store_open io now c)"
  obtain a where a: "snd (store_open io' now c) = Inr a" "js_order a = js_order (replay c)"
    "js_id_by_key a = js_id_by_key (replay c)"
    "\<And>j. js_by_id a j = map_option (recover_record (now j)) (js_by_id (replay c) j)"
    using store_open_ok [OF assms, of now c] by auto
  obtain b where b: "snd (store_open io' now ?c) = Inr b" "js_order b = js_order (replay ?c)"
    "js_id_by_key b = js_id_by_key (replay ?c)"
    "\<And>j. js_by_id b j = map_option (recover_record (now j)) (js_by_id (replay ?c) j)"
    using store_open_ok [OF assms, of now ?c] by auto
  have same: "forget (recover_record n (forget (recover_record n r))) = forget (recover_record n r)" for n r
    using recover_terminal [of n r] by (simp add: recover_record_def [of n "forget _"]) (simp add: forget_def)
  have "?c = c \<or> ?c = compact_text ?l" by (simp add: store_open_def Let_def)
  then show ?thesis
  proof
    assume "?c = c"
    then show ?thesis using a b by auto
  next
    assume c: "?c = compact_text ?l"
    have ag: "agrees (replay ?c) ?l" using replay_compact [of ?l] store_load_table(3) c by simp
    then have "js_order b = js_order a" "js_id_by_key b = js_id_by_key a"
      using a b store_load_table by (simp_all add: agrees_def)
    moreover have "map_option forget (findById i b) = map_option forget (findById i a)" for i
      using ag a(4) b(4) same
      by (simp add: agrees_def findById_def store_load_table option.map_comp comp_def)
    ultimately show ?thesis using a b by blast
  qed
qed

theorem failed_open_harmless_witness:
  "\<exists>a b. snd (store_open all_ok (\<lambda>_. 1) (jobLine sample_job @ [NL])) = Inr a \<and>
    snd (store_open all_ok (\<lambda>_. 1)
      (fst (store_open (all_ok\<lparr>oi_appendable := False\<rparr>) (\<lambda>_. 1) (jobLine sample_job @ [NL])))) = Inr b \<and>
    js_order b = js_order a"
  using failed_open_harmless [OF all_ok, of "\<lambda>_. 1" "jobLine sample_job @ [NL]" "all_ok\<lparr>oi_appendable := False\<rparr>"]
  by blast

text \<open>
  A failed append leaves its bytes in the file and no line end after them, so the next
  successful append is glued to them and is lost: here the refusal that follows a torn line.
\<close>

lemma append_after_torn_is_lost:
  "findById ''a'' (replay (js_file (fst (recordState AppendOk 7 ''a'' JS_FailedKnown CL_TransportAccepted
      FR_Expired default_evidence (fst (recordState (AppendTorn 2) 6 ''a'' JS_PreflightOk
        CL_TransportAccepted FR_None default_evidence
        (fst (createJob AppendOk 5 sample_job fresh_store)))))))) =
   Some (stored_form 5 sample_job)"
  by code_simp

end
