(* ===== verification/Stream_Parser.thy ===== *)
theory Stream_Parser imports
  PD_Types
begin

text \<open>
  The contract shared by the two incremental reply parsers,
  \<^verbatim>\<open>pd::escpos::ResponseParser\<close> and \<^verbatim>\<open>pd::star::ResponseParser\<close>: a buffer of bytes
  that arrived, a step that classifies a prefix of it, holds it or finds it empty, and a
  loop that steps until nothing more can be said. The locale states what a step promises
  and derives what a caller relies on: no byte is lost or invented, the events do not
  depend on how the stream was cut into reads, and a forced flush empties the buffer.
\<close>

section \<open>The outcome of one step\<close>

text \<open>\<^verbatim>\<open>enum class Step\<close> of both parsers, with the event an \<^verbatim>\<open>Emitted\<close> step appended.\<close>

datatype 'e parse_step = Emitted 'e | NeedMore | Empty

section \<open>The interface\<close>

text \<open>
  \<^theory_text>\<open>covers e w\<close> says that the event \<^theory_text>\<open>e\<close> accounts for the wire bytes \<^theory_text>\<open>w\<close>.
\<close>

locale incremental_parser =
  fixes step :: "bool \<Rightarrow> 's \<Rightarrow> 'e parse_step \<times> 's"
    and drain :: "bool \<Rightarrow> 's \<Rightarrow> 'e list \<times> 's"
    and buf :: "'s \<Rightarrow> bytes"
    and push :: "bytes \<Rightarrow> 's \<Rightarrow> 's"
    and covers :: "'e \<Rightarrow> bytes \<Rightarrow> bool"
  assumes step_empty: "buf s = [] \<Longrightarrow> step f s = (Empty, s)"
    and step_Empty: "step f s = (Empty, s') \<Longrightarrow> buf s = [] \<and> s' = s"
    and step_NeedMore: "step f s = (NeedMore, s') \<Longrightarrow> \<not> f \<and> s' = s"
    and step_emit:
      "step f s = (Emitted e, s') \<Longrightarrow> \<exists>w. w \<noteq> [] \<and> covers e w \<and> buf s = w @ buf s'"
    and step_stable:
      "step False s = (Emitted e, s') \<Longrightarrow> step False (push d s) = (Emitted e, push d s')"
    and drain_eq:
      "drain f s = (case step f s of
         (Emitted e, s') \<Rightarrow> (case drain f s' of (es, t) \<Rightarrow> (e # es, t))
       | (_, s') \<Rightarrow> ([], s'))"
    and buf_push: "buf (push d s) = buf s @ d"
    and push_push: "push d' (push d s) = push (d @ d') s"
    and push_Nil: "push [] s = s"
begin

lemma step_shrinks:
  "step f s = (Emitted e, s') \<Longrightarrow> length (buf s') < length (buf s)"
  using step_emit by fastforce

lemma drain_Emitted:
  "step f s = (Emitted e, s') \<Longrightarrow> drain f s = (e # fst (drain f s'), snd (drain f s'))"
  by (subst drain_eq) (simp split: prod.splits)

lemma drain_stop:
  "step f s = (r, s') \<Longrightarrow> r = NeedMore \<or> r = Empty \<Longrightarrow> drain f s = ([], s)"
  by (subst drain_eq) (use step_NeedMore step_Empty in \<open>auto split: prod.splits\<close>)

text \<open>Induction over a run of the loop.\<close>

lemma drain_induct [case_names stop emit]:
  assumes stop: "\<And>s r. step f s = (r, s) \<Longrightarrow> r = NeedMore \<or> r = Empty \<Longrightarrow> P s"
    and emit: "\<And>s e s'. step f s = (Emitted e, s') \<Longrightarrow> P s' \<Longrightarrow> P s"
  shows "P s"
proof (induction "length (buf s)" arbitrary: s rule: less_induct)
  case less
  obtain r s' where st: "step f s = (r, s')" by fastforce
  show ?case
  proof (cases r)
    case (Emitted e)
    with st show ?thesis using emit less step_shrinks by blast
  next
    case NeedMore
    with st show ?thesis using stop step_NeedMore by blast
  next
    case Empty
    with st show ?thesis using stop step_Empty by blast
  qed
qed

text \<open>Every byte is accounted for by an event or is still held, in order.\<close>

lemma drain_lossless:
  "\<exists>ws. list_all2 covers (fst (drain f s)) ws \<and> (\<forall>w \<in> set ws. w \<noteq> []) \<and>
        buf s = concat ws @ buf (snd (drain f s))"
proof (induction s rule: drain_induct [where f = f])
  case (stop s r)
  then show ?case by (intro exI [of _ "[]"]) (simp add: drain_stop)
next
  case (emit s e s')
  from emit(2) obtain ws where ws: "list_all2 covers (fst (drain f s')) ws"
    "\<forall>w \<in> set ws. w \<noteq> []" "buf s' = concat ws @ buf (snd (drain f s'))" by blast
  from step_emit [OF emit(1)] obtain w where w: "w \<noteq> []" "covers e w" "buf s = w @ buf s'"
    by blast
  show ?case
    by (intro exI [of _ "w # ws"]) (use ws w drain_Emitted [OF emit(1)] in simp)
qed

text \<open>The loop stops only when a further step would hold or find nothing.\<close>

lemma drain_stuck: "fst (step f (snd (drain f s))) \<in> {NeedMore, Empty}"
  by (induction s rule: drain_induct [where f = f]) (auto simp: drain_stop drain_Emitted)

lemma flush_empties: "buf (snd (drain True s)) = []"
proof -
  obtain r s' where st: "step True (snd (drain True s)) = (r, s')" by fastforce
  then have "r \<in> {NeedMore, Empty}" using drain_stuck [of True s] by simp
  then have "r = Empty" using st step_NeedMore by blast
  then show ?thesis using st step_Empty by blast
qed

text \<open>Draining early and then reading on is draining once, later.\<close>

lemma drain_push:
  "drain False (push d s) =
     (fst (drain False s) @ fst (drain False (push d (snd (drain False s)))),
      snd (drain False (push d (snd (drain False s)))))"
proof (induction s rule: drain_induct [where f = False])
  case (stop s r)
  then show ?case by (simp add: drain_stop)
next
  case (emit s e s')
  then show ?case
    using drain_Emitted [OF emit(1)] drain_Emitted [OF step_stable [OF emit(1)], of d]
    by simp
qed

text \<open>Reading a stream in chunks: each read is pushed and drained.\<close>

fun feed_all :: "bytes list \<Rightarrow> 's \<Rightarrow> 'e list \<times> 's" where
  "feed_all [] s = ([], s)"
| "feed_all (d # ds) s =
     (let (es, s') = drain False (push d s); (es', s'') = feed_all ds s' in (es @ es', s''))"

text \<open>The events of a stream do not depend on where the reads cut it.\<close>

lemma feed_all_concat:
  "fst (step False s) \<in> {NeedMore, Empty} \<Longrightarrow>
   feed_all ds s = drain False (push (concat ds) s)"
proof (induction ds arbitrary: s)
  case Nil
  then show ?case
    by (cases "step False s") (auto simp: push_Nil drain_stop)
next
  case (Cons d ds)
  let ?t = "snd (drain False (push d s))"
  have "feed_all ds ?t = drain False (push (concat ds) ?t)"
    using Cons.IH drain_stuck by blast
  then show ?case
    using drain_push [of "concat ds" "push d s"]
    by (simp add: push_push split_beta Let_def)
qed

lemma chunking_irrelevant:
  "concat ds = concat ds' \<Longrightarrow> fst (step False s) \<in> {NeedMore, Empty} \<Longrightarrow>
   feed_all ds s = feed_all ds' s"
  by (simp add: feed_all_concat)

end

end
