(* ===== verification/Escpos_Encoder.thy ===== *)
theory Escpos_Encoder imports
  Code_Page
  "HOL-Library.Signed_Division"
begin

text \<open>
  \<^verbatim>\<open>core/include/printerdriver/escpos_encoder.hpp\<close> and
  \<^verbatim>\<open>core/src/escpos_encoder.cpp\<close>: the standalone command builders, the \<^verbatim>\<open>Encoder\<close> with the
  style it tracks, and the raster path from a grayscale image to \<^verbatim>\<open>GS v 0\<close> commands.
  A thrown \<^verbatim>\<open>EncodingError\<close> is the left case of a sum. The lemmas relate the emitted bytes
  to a printer that executes them: the tracked style is the printer's style, the bands of a
  raster carry the image, and a dot is set exactly where the image is dark.
\<close>

section \<open>Operands\<close>

datatype encoding_error = EncodingError string

datatype alignment = AL_Left | AL_Center | AL_Right

datatype cut_mode = CutPartial | CutFull

datatype dle_eot_kind = PrinterStatus | OfflineCause | ErrorCause | PaperSensor

datatype printer_info_kind =
    ModelId | TypeId | RomVersionId | FirmwareVersion | MakerName | ModelName | SerialNumber

datatype qr_model = Model1 | Model2 | MicroQr

datatype qr_error_correction = EC_L | EC_M | EC_Q | EC_H

datatype raster_scale = ScaleNormal | DoubleWidth | DoubleHeight | Quadruple

datatype binarization = FixedThreshold | FloydSteinberg

fun alignment_n :: "alignment \<Rightarrow> u8" where
  "alignment_n AL_Left = 0"
| "alignment_n AL_Center = 1"
| "alignment_n AL_Right = 2"

fun dle_eot_n :: "dle_eot_kind \<Rightarrow> u8" where
  "dle_eot_n PrinterStatus = 1"
| "dle_eot_n OfflineCause = 2"
| "dle_eot_n ErrorCause = 3"
| "dle_eot_n PaperSensor = 4"

fun printer_info_n :: "printer_info_kind \<Rightarrow> u8" where
  "printer_info_n ModelId = 1"
| "printer_info_n TypeId = 2"
| "printer_info_n RomVersionId = 3"
| "printer_info_n FirmwareVersion = 65"
| "printer_info_n MakerName = 66"
| "printer_info_n ModelName = 67"
| "printer_info_n SerialNumber = 68"

fun qr_model_n :: "qr_model \<Rightarrow> u8" where
  "qr_model_n Model1 = 49"
| "qr_model_n Model2 = 50"
| "qr_model_n MicroQr = 51"

fun qr_error_correction_n :: "qr_error_correction \<Rightarrow> u8" where
  "qr_error_correction_n EC_L = 48"
| "qr_error_correction_n EC_M = 49"
| "qr_error_correction_n EC_Q = 50"
| "qr_error_correction_n EC_H = 51"

fun raster_scale_m :: "raster_scale \<Rightarrow> u8" where
  "raster_scale_m ScaleNormal = 0"
| "raster_scale_m DoubleWidth = 1"
| "raster_scale_m DoubleHeight = 2"
| "raster_scale_m Quadruple = 3"

section \<open>Standalone command builders\<close>

definition dleEot :: "dle_eot_kind \<Rightarrow> bytes" where
  "dleEot kind = [0x10, 0x04, dle_eot_n kind]"

definition gsPaperStatus :: bytes where
  "gsPaperStatus = [0x1D, 0x72, 0x01]"

definition isValidProcessIdToken :: "string \<Rightarrow> bool" where
  "isValidProcessIdToken token \<longleftrightarrow>
     length token = 4 \<and> list_all (\<lambda>c. 0x20 \<le> byte_of c \<and> byte_of c \<le> 0x7E) token"

definition processIdMarker :: "string \<Rightarrow> encoding_error + bytes" where
  "processIdMarker token =
     (if \<not> isValidProcessIdToken token then
        Inl (EncodingError ''GS ( H process ID must be exactly four printable-ASCII bytes (0x20-0x7E)'')
      else Inr ([0x1D, 0x28, 0x48, 0x06, 0x00, 0x30, 0x30] @ bytes_of token))"

definition asbEnable :: "u8 \<Rightarrow> bytes" where
  "asbEnable bits = [0x1D, 0x61, bits]"

definition asbDisable :: bytes where
  "asbDisable = [0x1D, 0x61, 0x00]"

definition gsIdentity :: "u8 \<Rightarrow> bytes" where
  "gsIdentity n = [0x1D, 0x49, n]"

definition gsIdentityKind :: "printer_info_kind \<Rightarrow> bytes" where
  "gsIdentityKind kind = gsIdentity (printer_info_n kind)"

definition dleEnq :: "u8 \<Rightarrow> bytes" where
  "dleEnq n = [0x10, 0x05, n]"

definition gsDrawerStatus :: bytes where
  "gsDrawerStatus = [0x1D, 0x72, 0x02]"

definition drawerKick :: "u8 \<Rightarrow> u16 \<Rightarrow> encoding_error + bytes" where
  "drawerKick channel pulse_ms =
     (if channel \<noteq> 1 \<and> channel \<noteq> 2 then
        Inl (EncodingError ''ESC p channel must be 1 (drive 1) or 2 (drive 2)'')
      else let on_units = min (unat pulse_ms div 2) 255;
               off_units = min (on_units * 2) 255
           in Inr [0x1B, 0x70, channel - 1,
                   (if on_units = 0 then 1 else word_of_nat on_units),
                   (if off_units = 0 then 1 else word_of_nat off_units)])"

definition gsMaintenanceCounter :: "u16 \<Rightarrow> bytes" where
  "gsMaintenanceCounter counter =
     [0x1D, 0x67, 0x32, 0x00, ucast (counter AND 0xFF), ucast (drop_bit 8 counter AND 0xFF)]"

definition gsTestPrint :: "u8 \<Rightarrow> u8 \<Rightarrow> bytes" where
  "gsTestPrint paper pattern = [0x1D, 0x28, 0x41, 0x02, 0x00, paper, pattern]"

definition gsReadMemorySwitch :: "u8 \<Rightarrow> bytes" where
  "gsReadMemorySwitch n = [0x1D, 0x28, 0x45, 0x02, 0x00, 0x04, n]"

definition gsReadCustomizedSetting :: "u8 \<Rightarrow> bytes" where
  "gsReadCustomizedSetting n = [0x1D, 0x28, 0x45, 0x02, 0x00, 0x06, n]"

section \<open>The encoder's state\<close>

record encoder =
  enc_buffer :: bytes
  enc_code_page :: code_page
  enc_alignment :: alignment
  enc_bold :: bool
  enc_underline :: u8
  enc_size_width :: u8
  enc_size_height :: u8
  enc_cut_with_feed :: bool
  enc_cut_feed_units :: u8

definition new_encoder :: encoder where
  "new_encoder =
     \<lparr>enc_buffer = [], enc_code_page = PC437, enc_alignment = AL_Left, enc_bold = False,
      enc_underline = 0, enc_size_width = 1, enc_size_height = 1,
      enc_cut_with_feed = False, enc_cut_feed_units = 0\<rparr>"

definition put :: "bytes \<Rightarrow> encoder \<Rightarrow> encoder" where
  "put data e = e\<lparr>enc_buffer := enc_buffer e @ data\<rparr>"

definition resetStyleState :: "encoder \<Rightarrow> encoder" where
  "resetStyleState e =
     e\<lparr>enc_code_page := PC437, enc_alignment := AL_Left, enc_bold := False,
       enc_underline := 0, enc_size_width := 1, enc_size_height := 1\<rparr>"

definition enc_clear :: "encoder \<Rightarrow> encoder" where
  "enc_clear e =
     (resetStyleState (e\<lparr>enc_buffer := []\<rparr>))
       \<lparr>enc_cut_with_feed := False, enc_cut_feed_units := 0\<rparr>"

definition enc_take :: "encoder \<Rightarrow> bytes \<times> encoder" where
  "enc_take e = (enc_buffer e, e\<lparr>enc_buffer := []\<rparr>)"

section \<open>Style and text\<close>

definition initialize :: "encoder \<Rightarrow> encoder" where
  "initialize e = resetStyleState (put [0x1B, 0x40] e)"

definition selectCodePage :: "code_page \<Rightarrow> encoder \<Rightarrow> encoder" where
  "selectCodePage page e =
     (if enc_code_page e = page then e
      else put [0x1B, 0x74, code_page_n page] (e\<lparr>enc_code_page := page\<rparr>))"

definition align :: "alignment \<Rightarrow> encoder \<Rightarrow> encoder" where
  "align a e =
     (if enc_alignment e = a then e
      else put [0x1B, 0x61, alignment_n a] (e\<lparr>enc_alignment := a\<rparr>))"

definition bold :: "bool \<Rightarrow> encoder \<Rightarrow> encoder" where
  "bold enabled e =
     (if enc_bold e = enabled then e
      else put [0x1B, 0x45, (if enabled then 1 else 0)] (e\<lparr>enc_bold := enabled\<rparr>))"

definition underline :: "u8 \<Rightarrow> encoder \<Rightarrow> encoding_error + encoder" where
  "underline dots e =
     (if dots > 2 then
        Inl (EncodingError ''ESC - underline thickness must be 0, 1 or 2 dots'')
      else if enc_underline e = dots then Inr e
      else Inr (put [0x1B, 0x2D, dots] (e\<lparr>enc_underline := dots\<rparr>)))"

definition textSize :: "u8 \<Rightarrow> u8 \<Rightarrow> encoder \<Rightarrow> encoding_error + encoder" where
  "textSize w h e =
     (if w < 1 \<or> w > 8 \<or> h < 1 \<or> h > 8 then
        Inl (EncodingError ''GS ! size multipliers must be in 1..8'')
      else if enc_size_width e = w \<and> enc_size_height e = h then Inr e
      else Inr (put [0x1D, 0x21, push_bit 4 (w - 1) OR (h - 1)]
                  (e\<lparr>enc_size_width := w, enc_size_height := h\<rparr>)))"

definition enc_text :: "bytes \<Rightarrow> encoder \<Rightarrow> encoder" where
  "enc_text utf8 e = put (transliterate utf8 (enc_code_page e)) e"

definition feed :: "encoder \<Rightarrow> encoder" where
  "feed e = put [0x0A] e"

definition enc_line :: "bytes \<Rightarrow> encoder \<Rightarrow> encoder" where
  "enc_line utf8 e = feed (enc_text utf8 e)"

definition feedLines :: "u8 \<Rightarrow> encoder \<Rightarrow> encoder" where
  "feedLines n e = put [0x1B, 0x64, n] e"

text \<open>The loop of \<^verbatim>\<open>feedDots\<close>: one \<^verbatim>\<open>ESC J\<close> per 255 dots.\<close>

function feed_dots_bytes :: "u16 \<Rightarrow> bytes" where
  "feed_dots_bytes dots =
     (if dots = 0 then []
      else let chunk = (if dots > 0xFF then 0xFF else ucast dots :: u8)
           in [0x1B, 0x4A, chunk] @ feed_dots_bytes (dots - ucast chunk))"
  by pat_completeness auto

text \<open>The dots left after one command.\<close>

lemma feed_dots_rest:
  "unat (dots - ucast (if dots > 0xFF then 0xFF else ucast dots :: u8) :: u16) =
     unat dots - min 255 (unat dots)"
proof (cases "dots > 0xFF")
  case True
  then show ?thesis by (simp add: word_less_nat_alt unat_sub word_le_nat_alt)
next
  case False
  then have "unat dots < 256" by (simp add: word_less_nat_alt)
  then have "ucast (ucast dots :: u8) = dots"
    by (intro unsigned_word_eqI [where 'a = nat]) (simp add: unsigned_ucast_eq unsigned_take_bit_eq take_bit_nat_eq_self)
  with False show ?thesis by (simp add: word_less_nat_alt)
qed

termination feed_dots_bytes
proof (relation "measure unat", goal_cases)
  case (2 dots chunk)
  then have "unat dots \<noteq> 0" by (simp add: unat_eq_zero)
  with 2 show ?case by (simp add: feed_dots_rest del: ucast_up_down)
qed simp

declare feed_dots_bytes.simps [simp del]

definition feedDots :: "u16 \<Rightarrow> encoder \<Rightarrow> encoder" where
  "feedDots dots e = put (feed_dots_bytes dots) e"

section \<open>Cuts, drawer and status requests\<close>

definition useCutWithFeed :: "bool \<Rightarrow> u8 \<Rightarrow> encoder \<Rightarrow> encoder" where
  "useCutWithFeed enabled units e =
     e\<lparr>enc_cut_with_feed := enabled, enc_cut_feed_units := units\<rparr>"

definition cutWithFeed :: "cut_mode \<Rightarrow> u8 \<Rightarrow> encoder \<Rightarrow> encoder" where
  "cutWithFeed mode units e =
     put [0x1D, 0x56, (if mode = CutFull then 65 else 66), units] e"

definition cut :: "cut_mode \<Rightarrow> encoder \<Rightarrow> encoder" where
  "cut mode e =
     (if enc_cut_with_feed e then cutWithFeed mode (enc_cut_feed_units e) e
      else put [0x1D, 0x56, (if mode = CutFull then 0x00 else 0x01)] e)"

definition kickCashDrawer :: "u8 \<Rightarrow> u8 \<Rightarrow> u8 \<Rightarrow> encoder \<Rightarrow> encoding_error + encoder" where
  "kickCashDrawer connector_pin on_time off_time e =
     (if connector_pin > 1 then
        Inl (EncodingError ''ESC p connector pin must be 0 (pin 2) or 1 (pin 5)'')
      else Inr (put [0x1B, 0x70, connector_pin, on_time, off_time] e))"

definition enc_asb :: "bool \<Rightarrow> u8 \<Rightarrow> encoder \<Rightarrow> encoder" where
  "enc_asb enabled bits e = put [0x1D, 0x61, (if enabled then bits else 0x00)] e"

definition raw :: "bytes \<Rightarrow> encoder \<Rightarrow> encoder" where
  "raw data e = put data e"

definition processId :: "string \<Rightarrow> encoder \<Rightarrow> encoding_error + encoder" where
  "processId token e =
     (case processIdMarker token of Inl err \<Rightarrow> Inl err | Inr m \<Rightarrow> Inr (raw m e))"

definition realtimeStatus :: "dle_eot_kind \<Rightarrow> encoder \<Rightarrow> encoder" where
  "realtimeStatus kind e = raw (dleEot kind) e"

definition queuedPaperStatus :: "encoder \<Rightarrow> encoder" where
  "queuedPaperStatus e = raw gsPaperStatus e"

section \<open>Raster commands\<close>

text \<open>The two bytes of a 16-bit operand, low byte first.\<close>

definition lo8 :: "nat \<Rightarrow> u8" where "lo8 n = word_of_nat (n mod 256)"
definition hi8 :: "nat \<Rightarrow> u8" where "hi8 n = word_of_nat (n div 256 mod 256)"

definition raster_command :: "raster_scale \<Rightarrow> nat \<Rightarrow> nat \<Rightarrow> bytes \<Rightarrow> bytes" where
  "raster_command scale bytes_per_row rows data =
     [0x1D, 0x76, 0x30, raster_scale_m scale, lo8 bytes_per_row, hi8 bytes_per_row,
      lo8 rows, hi8 rows] @ take (bytes_per_row * rows) data"

text \<open>The loop of \<^verbatim>\<open>appendBandedRaster\<close> from one row on; \<^theory_text>\<open>band\<close> is 0 only for height 0.\<close>

function banded_from :: "raster_scale \<Rightarrow> nat \<Rightarrow> nat \<Rightarrow> nat \<Rightarrow> bytes \<Rightarrow> nat \<Rightarrow> bytes" where
  "banded_from scale bytes_per_row height band data row =
     (if row < height \<and> 0 < band then
        let rows = min band (height - row)
        in raster_command scale bytes_per_row rows (drop (row * bytes_per_row) data) @
           banded_from scale bytes_per_row height band data (row + rows)
      else [])"
  by pat_completeness auto
termination
  by (relation "measure (\<lambda>(scale, bpr, height, band, data, row). height - row)") auto

declare banded_from.simps [simp del]

definition banded_raster :: "bytes \<Rightarrow> nat \<Rightarrow> nat \<Rightarrow> raster_scale \<Rightarrow> nat \<Rightarrow> bytes" where
  "banded_raster data bytes_per_row height scale max_rows_per_band =
     banded_from scale bytes_per_row height
       (if max_rows_per_band = 0 then height else max_rows_per_band) data 0"

text \<open>\<^verbatim>\<open>width_dots + 7\<close> is computed in 32 bits, as the sources do.\<close>

definition bytes_per_row_of :: "u32 \<Rightarrow> nat" where
  "bytes_per_row_of width_dots = unat ((width_dots + 7) div 8)"

definition rasterPacked ::
    "bytes \<Rightarrow> u32 \<Rightarrow> u32 \<Rightarrow> raster_scale \<Rightarrow> u32 \<Rightarrow> encoder \<Rightarrow> encoding_error + encoder" where
  "rasterPacked data width_dots height_dots scale max_rows_per_band e =
     (let bytes_per_row = bytes_per_row_of width_dots
      in if width_dots = 0 \<or> height_dots = 0 then
           Inl (EncodingError ''GS v 0 raster must have non-zero width and height'')
         else if bytes_per_row > 0xFFFF \<or> height_dots > 0xFFFF then
           Inl (EncodingError ''GS v 0 raster exceeds the 16-bit width/height fields'')
         else if length data \<noteq> bytes_per_row * unat height_dots then
           Inl (EncodingError ''packed raster size does not match width x height'')
         else Inr (put (banded_raster data bytes_per_row (unat height_dots) scale
                          (unat max_rows_per_band)) e))"

section \<open>From a grayscale image to dots\<close>

text \<open>
  One axis of the box filter: the source interval of destination index \<^theory_text>\<open>i\<close>. The products
  are 64-bit in the sources and cannot wrap for 32-bit operands.
\<close>

definition box_span :: "nat \<Rightarrow> nat \<Rightarrow> nat \<Rightarrow> nat \<times> nat" where
  "box_span src dst i =
     (let lo = i * src div dst;
          hi = (i + 1) * src div dst;
          hi' = (if hi \<le> lo then lo + 1 else hi)
      in (lo, if hi' > src then src else hi'))"

definition box_mean :: "bytes \<Rightarrow> nat \<Rightarrow> nat \<times> nat \<Rightarrow> nat \<times> nat \<Rightarrow> u8" where
  "box_mean gray src_w ys xs =
     (let samples = concat (map (\<lambda>sy. map (\<lambda>sx. unat (gray ! (sy * src_w + sx)))
                                         [fst xs..<snd xs]) [fst ys..<snd ys]);
          count = length samples
      in if count = 0 then 0 else word_of_nat (sum_list samples div count))"

definition resampleGray :: "bytes \<Rightarrow> nat \<Rightarrow> nat \<Rightarrow> nat \<Rightarrow> nat \<Rightarrow> bytes" where
  "resampleGray gray src_w src_h dst_w dst_h =
     concat (map (\<lambda>y. map (\<lambda>x. box_mean gray src_w (box_span src_h dst_h y)
                                                    (box_span src_w dst_w x))
                         [0..<dst_w]) [0..<dst_h])"

definition setDot :: "nat \<Rightarrow> nat \<Rightarrow> nat \<Rightarrow> bytes \<Rightarrow> bytes" where
  "setDot bytes_per_row x y packed =
     (let i = y * bytes_per_row + x div 8
      in packed[i := packed ! i OR drop_bit (x mod 8) 0x80])"

text \<open>The destination pixels in raster order.\<close>

definition pixels :: "nat \<Rightarrow> nat \<Rightarrow> (nat \<times> nat) list" where
  "pixels w h = concat (map (\<lambda>y. map (\<lambda>x. (x, y)) [0..<w]) [0..<h])"

definition threshold_dots :: "bytes \<Rightarrow> nat \<Rightarrow> nat \<Rightarrow> nat \<Rightarrow> u8 \<Rightarrow> bytes" where
  "threshold_dots scaled w h bytes_per_row threshold =
     foldl (\<lambda>packed (x, y).
              if scaled ! (y * w + x) < threshold then setDot bytes_per_row x y packed
              else packed)
           (replicate (bytes_per_row * h) 0) (pixels w h)"

text \<open>Floyd-Steinberg: the integer error of each pixel spread over four neighbours.\<close>

definition add_at :: "nat \<Rightarrow> int \<Rightarrow> int list \<Rightarrow> int list" where
  "add_at i d work = work[i := work ! i + d]"

definition dither_pixel ::
    "nat \<Rightarrow> nat \<Rightarrow> nat \<Rightarrow> int \<Rightarrow> int list \<times> bytes \<Rightarrow> nat \<times> nat \<Rightarrow> int list \<times> bytes" where
  "dither_pixel w h bytes_per_row threshold st p =
     (case (st, p) of ((work, packed), (x, y)) \<Rightarrow>
        let old = max 0 (min 255 (work ! (y * w + x)));
            new = (if old < threshold then 0 else 255);
            packed' = (if new = 0 then setDot bytes_per_row x y packed else packed);
            err = old - new;
            work1 = (if x + 1 < w then add_at (y * w + x + 1) ((err * 7) sdiv 16) work else work);
            work2 = (if y + 1 < h \<and> x > 0
                     then add_at ((y + 1) * w + (x - 1)) ((err * 3) sdiv 16) work1 else work1);
            work3 = (if y + 1 < h then add_at ((y + 1) * w + x) ((err * 5) sdiv 16) work2
                     else work2);
            work4 = (if y + 1 < h \<and> x + 1 < w
                     then add_at ((y + 1) * w + (x + 1)) ((err * 1) sdiv 16) work3 else work3)
        in (work4, packed'))"

definition dither_dots :: "bytes \<Rightarrow> nat \<Rightarrow> nat \<Rightarrow> nat \<Rightarrow> u8 \<Rightarrow> bytes" where
  "dither_dots scaled w h bytes_per_row threshold =
     snd (foldl (dither_pixel w h bytes_per_row (uint threshold))
            (map uint scaled, replicate (bytes_per_row * h) 0) (pixels w h))"

record packed_raster =
  pr_data :: bytes
  pr_width_dots :: nat
  pr_height_dots :: nat
  pr_bytes_per_row :: nat

definition packGrayscale ::
    "bytes \<Rightarrow> u32 \<Rightarrow> u32 \<Rightarrow> u32 \<Rightarrow> binarization \<Rightarrow> u8 \<Rightarrow> encoding_error + packed_raster" where
  "packGrayscale gray width height target_width_dots bin threshold =
     (if width = 0 \<or> height = 0 \<or> target_width_dots = 0 then
        Inl (EncodingError ''grayscale raster must have non-zero width and height'')
      else let w = unat width; h = unat height; dst_w = unat target_width_dots;
               scaled_h = ((h * dst_w + w div 2) div w) mod 2 ^ 32;
               dst_h = (if scaled_h = 0 then 1 else scaled_h)
           in if dst_h > 0xFFFF then
                Inl (EncodingError ''scaled raster exceeds the 16-bit height field'')
              else let scaled = resampleGray gray w h dst_w dst_h;
                       bpr = bytes_per_row_of target_width_dots;
                       dots = (case bin of
                           FixedThreshold \<Rightarrow> threshold_dots scaled dst_w dst_h bpr threshold
                         | FloydSteinberg \<Rightarrow> dither_dots scaled dst_w dst_h bpr threshold)
                   in Inr \<lparr>pr_data = dots, pr_width_dots = dst_w, pr_height_dots = dst_h,
                           pr_bytes_per_row = bpr\<rparr>)"

definition rasterGrayscale ::
    "bytes \<Rightarrow> u32 \<Rightarrow> u32 \<Rightarrow> u32 \<Rightarrow> binarization \<Rightarrow> u8 \<Rightarrow> raster_scale \<Rightarrow> u32 \<Rightarrow> encoder \<Rightarrow>
     encoding_error + encoder" where
  "rasterGrayscale gray width height target_width_dots bin threshold scale max_rows_per_band e =
     (case packGrayscale gray width height target_width_dots bin threshold of
        Inl err \<Rightarrow> Inl err
      | Inr p \<Rightarrow> Inr (put (banded_raster (pr_data p) (pr_bytes_per_row p) (pr_height_dots p) scale
                             (unat max_rows_per_band)) e))"

section \<open>QR codes\<close>

definition qr ::
    "bytes \<Rightarrow> u8 \<Rightarrow> qr_error_correction \<Rightarrow> qr_model \<Rightarrow> encoder \<Rightarrow> encoding_error + encoder" where
  "qr data module_size ec model e =
     (if module_size < 1 \<or> module_size > 16 then
        Inl (EncodingError ''QR module size must be in 1..16'')
      else if length data > 0xFFFF - 3 then
        Inl (EncodingError ''QR payload exceeds the GS ( k 16-bit length field'')
      else let len = length data + 3
           in Inr (put ([0x1D, 0x28, 0x6B, 0x04, 0x00, 0x31, 0x41, qr_model_n model, 0x00] @
                        [0x1D, 0x28, 0x6B, 0x03, 0x00, 0x31, 0x43, module_size] @
                        [0x1D, 0x28, 0x6B, 0x03, 0x00, 0x31, 0x45, qr_error_correction_n ec] @
                        [0x1D, 0x28, 0x6B, lo8 len, hi8 len, 0x31, 0x50, 0x30] @ data @
                        [0x1D, 0x28, 0x6B, 0x03, 0x00, 0x31, 0x51, 0x30]) e))"

section \<open>The bands of a raster carry the image\<close>

lemma lo8_hi8: "n < 65536 \<Longrightarrow> unat (lo8 n) + 256 * unat (hi8 n) = n"
  by (simp add: lo8_def hi8_def unat_of_nat mod_mult2_eq flip: )

text \<open>A printer reading \<^verbatim>\<open>GS v 0\<close> commands: the rows and the data of each.\<close>

function read_bands :: "bytes \<Rightarrow> (nat \<times> bytes) list option" where
  "read_bands [] = Some []"
| "read_bands (b # bs) =
     (if length bs < 7 \<or> take 3 (b # bs) \<noteq> [0x1D, 0x76, 0x30] then None
      else let bpr = unat (bs ! 3) + 256 * unat (bs ! 4);
               rows = unat (bs ! 5) + 256 * unat (bs ! 6);
               rest = drop 7 bs
           in if length rest < bpr * rows then None
              else case read_bands (drop (bpr * rows) rest) of
                None \<Rightarrow> None
              | Some bands \<Rightarrow> Some ((rows, take (bpr * rows) rest) # bands))"
  by pat_completeness auto
termination by (relation "measure length") auto

declare read_bands.simps(2) [simp del]

lemma read_bands_command:
  assumes "bpr < 65536" "rows < 65536" "bpr * rows \<le> length data"
  shows "read_bands (raster_command scale bpr rows data @ rest) =
    map_option (\<lambda>bands. (rows, take (bpr * rows) data) # bands) (read_bands rest)"
  using assms by (simp add: raster_command_def read_bands.simps(2) lo8_hi8 Let_def split: option.split)

text \<open>The bands the loop makes, as row counts and slices.\<close>

lemma read_bands_banded_from:
  assumes "bpr < 65536" "height < 65536" "length data = bpr * height" "0 < band"
  shows "\<exists>bands. read_bands (banded_from scale bpr height band data row) = Some bands \<and>
    concat (map snd bands) = drop (row * bpr) data \<and>
    sum_list (map fst bands) = height - row \<and> (\<forall>b \<in> set bands. 0 < fst b \<and> fst b \<le> band)"
  using assms
proof (induction scale bpr height band data row rule: banded_from.induct)
  case (1 scale bpr height band data row)
  show ?case
  proof (cases "row < height")
    case False
    then have "height * bpr \<le> row * bpr" by (simp add: mult_le_mono1)
    with False "1.prems" show ?thesis
      by (subst banded_from.simps) (simp add: mult.commute)
  next
    case True
    let ?rows = "min band (height - row)"
    have go: "row < height \<and> 0 < band" using True "1.prems" by simp
    obtain bands where bands:
      "read_bands (banded_from scale bpr height band data (row + ?rows)) = Some bands"
      "concat (map snd bands) = drop ((row + ?rows) * bpr) data"
      "sum_list (map fst bands) = height - (row + ?rows)"
      "\<forall>b \<in> set bands. 0 < fst b \<and> fst b \<le> band"
      using "1.IH" [OF go refl] "1.prems" by blast
    have "bpr * ?rows + bpr * row \<le> bpr * height"
    proof -
      have "?rows + row \<le> height" using True by simp
      then show ?thesis by (metis distrib_left mult_le_mono2)
    qed
    then have len: "bpr * ?rows \<le> length (drop (row * bpr) data)"
      using "1.prems" by (simp add: mult.commute)
    have "read_bands (banded_from scale bpr height band data row) =
        Some ((?rows, take (bpr * ?rows) (drop (row * bpr) data)) # bands)"
      using read_bands_command [OF _ _ len] "1.prems" True bands(1)
      by (subst banded_from.simps) (simp add: Let_def)
    moreover have "take (bpr * ?rows) (drop (row * bpr) data) @ drop ((row + ?rows) * bpr) data =
        drop (row * bpr) data"
      by (metis append_take_drop_id drop_drop distrib_right mult.commute add.commute)
    ultimately show ?thesis using bands go by auto
  qed
qed

section \<open>A thresholded dot\<close>

lemma length_pixels [simp]: "length (pixels w h) = w * h"
  by (simp add: pixels_def length_concat comp_def sum_list_triv)

lemma set_pixels: "(x, y) \<in> set (pixels w h) \<longleftrightarrow> x < w \<and> y < h"
  by (auto simp: pixels_def image_iff)

definition dot :: "nat \<Rightarrow> bytes \<Rightarrow> nat \<Rightarrow> nat \<Rightarrow> bool" where
  "dot bpr packed x y \<longleftrightarrow> bit (packed ! (y * bpr + x div 8)) (7 - x mod 8)"

lemma length_setDot [simp]: "length (setDot bpr x y p) = length p"
  by (simp add: setDot_def Let_def)

lemma bit_80: "bit (0x80 :: u8) m \<longleftrightarrow> m = 7"
proof
  assume b: "bit (0x80 :: u8) m"
  then have "m < 8" using bit_imp_le_length by fastforce
  then have "m \<in> {0, 1, 2, 3, 4, 5, 6, 7}" by auto
  with b show "m = 7" by auto
qed simp

lemma bit_drop80: "k < 8 \<Longrightarrow> bit (drop_bit k (0x80 :: u8)) n \<longleftrightarrow> n = 7 - k"
  using bit_80 [of "k + n"] by (auto simp: bit_drop_bit_eq)

lemma dot_setDot:
  assumes "x div 8 < bpr" "x' div 8 < bpr" "y * bpr + x div 8 < length p"
  shows "dot bpr (setDot bpr x y p) x' y' \<longleftrightarrow> dot bpr p x' y' \<or> (x' = x \<and> y' = y)"
proof (cases "y' * bpr + x' div 8 = y * bpr + x div 8")
  case True
  then have "(y' * bpr + x' div 8) div bpr = (y * bpr + x div 8) div bpr"
    "(y' * bpr + x' div 8) mod bpr = (y * bpr + x div 8) mod bpr" by simp_all
  then have "y' = y" "x' div 8 = x div 8" using assms by simp_all
  moreover have "7 - x' mod 8 = 7 - x mod 8 \<longleftrightarrow> x' mod 8 = x mod 8"
    using mod_less_divisor [of 8 x] mod_less_divisor [of 8 x'] by linarith
  then have "x' = x \<longleftrightarrow> 7 - x' mod 8 = 7 - x mod 8" if "x' div 8 = x div 8"
    using that by (metis div_mult_mod_eq)
  ultimately show ?thesis using assms
    by (auto simp: dot_def setDot_def Let_def bit_or_iff bit_drop80)
next
  case False
  then show ?thesis by (auto simp: dot_def setDot_def Let_def nth_list_update)
qed

definition in_raster :: "nat \<Rightarrow> nat \<Rightarrow> nat \<times> nat \<Rightarrow> bool" where
  "in_raster bpr h p \<longleftrightarrow> fst p div 8 < bpr \<and> snd p < h"

lemma in_raster_index: "in_raster bpr h (x, y) \<Longrightarrow> y * bpr + x div 8 < bpr * h"
proof -
  assume "in_raster bpr h (x, y)"
  then have "y * bpr + x div 8 < Suc y * bpr" "Suc y * bpr \<le> h * bpr"
    using mult_le_mono1 [of "Suc y" h bpr] by (auto simp: in_raster_def)
  then show ?thesis by (simp add: mult.commute)
qed

text \<open>Setting the dots of a list of pixels that pass a test.\<close>

lemma dot_fold:
  assumes "\<forall>q \<in> set ps. in_raster bpr h q" "length p = bpr * h" "in_raster bpr h (x, y)"
  shows "dot bpr (foldl (\<lambda>packed (x, y). if P x y then setDot bpr x y packed else packed) p ps) x y
    \<longleftrightarrow> dot bpr p x y \<or> ((x, y) \<in> set ps \<and> P x y)"
  using assms
proof (induction ps arbitrary: p)
  case (Cons q ps)
  obtain a b where q: "q = (a, b)" by fastforce
  have ix: "b * bpr + a div 8 < length p" using Cons.prems q in_raster_index by auto
  show ?case
    using Cons q dot_setDot [OF _ _ ix, of x y]
    by (auto simp: in_raster_def)
qed simp

lemma bytes_per_row_covers:
  "unat w + 7 < 2 ^ 32 \<Longrightarrow> x < unat w \<Longrightarrow> x div 8 < bytes_per_row_of w"
proof -
  assume a: "unat w + 7 < 2 ^ 32" "x < unat w"
  then have "unat (w + 7) = unat w + 7" by (simp add: unat_word_ariths)
  then have "bytes_per_row_of w = (unat w + 7) div 8"
    by (simp add: bytes_per_row_of_def unat_div_distrib)
  then show ?thesis using a(2) by (simp add: less_eq_div_iff_mult_less_eq Suc_le_eq [symmetric])
qed

lemma threshold_dot:
  assumes "unat width + 7 < 2 ^ 32" "x < unat width" "y < h"
  shows "dot (bytes_per_row_of width)
     (threshold_dots scaled (unat width) h (bytes_per_row_of width) threshold) x y
    \<longleftrightarrow> scaled ! (y * unat width + x) < threshold"
proof -
  let ?b = "bytes_per_row_of width" and ?w = "unat width"
  have all: "\<forall>q \<in> set (pixels ?w h). in_raster ?b h q"
    using bytes_per_row_covers [OF assms(1)] by (auto simp: in_raster_def set_pixels)
  have ixy: "in_raster ?b h (x, y)"
    using assms bytes_per_row_covers by (simp add: in_raster_def)
  have "\<not> dot ?b (replicate (?b * h) 0) x y"
    using in_raster_index [OF ixy] by (simp add: dot_def)
  then show ?thesis
    using dot_fold [OF all _ ixy, of "replicate (?b * h) 0" "\<lambda>x y. scaled ! (y * ?w + x) < threshold"]
      assms by (simp add: threshold_dots_def set_pixels)
qed


section \<open>The printer the encoder talks to\<close>

text \<open>
  The style state a printer keeps, and how it executes the commands the encoder emits for
  style, text, feed and cut. An unknown or cut-off command stops the execution.
\<close>

record style =
  st_page :: u8
  st_align :: u8
  st_bold :: bool
  st_underline :: u8
  st_size :: u8

definition power_on :: style where
  "power_on = \<lparr>st_page = 0, st_align = 0, st_bold = False, st_underline = 0, st_size = 0\<rparr>"

definition set_style :: "u8 \<Rightarrow> u8 \<Rightarrow> style \<Rightarrow> style" where
  "set_style c n s =
     (if c = 0x74 then s\<lparr>st_page := n\<rparr> else if c = 0x61 then s\<lparr>st_align := n\<rparr>
      else if c = 0x45 then s\<lparr>st_bold := odd (unat n)\<rparr>
      else if c = 0x2D then s\<lparr>st_underline := n\<rparr> else s)"

text \<open>The printer's state after the bytes, and the dots it fed through \<^verbatim>\<open>ESC J\<close>.\<close>

fun execute :: "bytes \<Rightarrow> style \<times> nat \<Rightarrow> (style \<times> nat) option" where
  "execute [] s = Some s"
| "execute (b # bs) (s, fed) =
     (if b = 0x1B then
        (case bs of
           c # n # r \<Rightarrow>
             if c = 0x40 then execute (n # r) (power_on, fed)
             else if c = 0x4A then execute r (s, fed + unat n)
             else if c \<in> {0x74, 0x61, 0x45, 0x2D, 0x64} then execute r (set_style c n s, fed)
             else None
         | [c] \<Rightarrow> if c = 0x40 then Some (power_on, fed) else None
         | [] \<Rightarrow> None)
      else if b = 0x1D then
        (case bs of
           c # n # r \<Rightarrow>
             if c = 0x21 then execute r (s\<lparr>st_size := n\<rparr>, fed)
             else if c = 0x56 then
               (if n = 65 \<or> n = 66 then (case r of u # r' \<Rightarrow> execute r' (s, fed) | [] \<Rightarrow> None)
                else execute r (s, fed))
             else None
         | _ \<Rightarrow> None)
      else if b = 0x0A \<or> 0x20 \<le> b then execute bs (s, fed)
      else None)"


declare execute.simps(2) [simp del]

lemma execute_init: "execute (0x1B # 0x40 # rest) (s, fed) = execute rest (power_on, fed)"
  by (cases rest) (simp_all add: execute.simps(2))

lemma execute_esc:
  "c \<in> {0x74, 0x61, 0x45, 0x2D, 0x64} \<Longrightarrow>
   execute (0x1B # c # n # rest) (s, fed) = execute rest (set_style c n s, fed)"
  by (auto simp: execute.simps(2))

lemma execute_misc:
  "execute (0x1B # 0x4A # n # rest) (s, fed) = execute rest (s, fed + unat n)"
  "execute (0x1D # 0x21 # n # rest) (s, fed) = execute rest (s\<lparr>st_size := n\<rparr>, fed)"
  "execute (0x1D # 0x56 # 65 # n # rest) (s, fed) = execute rest (s, fed)"
  "execute (0x1D # 0x56 # 66 # n # rest) (s, fed) = execute rest (s, fed)"
  "execute (0x1D # 0x56 # 0 # rest) (s, fed) = execute rest (s, fed)"
  "execute (0x1D # 0x56 # 1 # rest) (s, fed) = execute rest (s, fed)"
  "execute (0x0A # rest) (s, fed) = execute rest (s, fed)"
  by (simp_all add: execute.simps(2))

lemmas execute_commands = execute_init execute_esc execute_misc

text \<open>A document as the sequence of encoder calls that builds it; a call that throws changes nothing.\<close>

datatype enc_call =
    CallInitialize | CallCodePage code_page | CallAlign alignment | CallBold bool
  | CallUnderline u8 | CallTextSize u8 u8 | CallText bytes | CallFeed | CallFeedLines u8
  | CallFeedDots u16 | CallUseCutWithFeed bool u8 | CallCut cut_mode | CallCutWithFeed cut_mode u8

definition or_keep :: "encoding_error + encoder \<Rightarrow> encoder \<Rightarrow> encoder" where
  "or_keep r e = (case r of Inl err \<Rightarrow> e | Inr e' \<Rightarrow> e')"

fun call :: "encoder \<Rightarrow> enc_call \<Rightarrow> encoder" where
  "call e CallInitialize = initialize e"
| "call e (CallCodePage p) = selectCodePage p e"
| "call e (CallAlign a) = align a e"
| "call e (CallBold b) = bold b e"
| "call e (CallUnderline n) = or_keep (underline n e) e"
| "call e (CallTextSize w h) = or_keep (textSize w h e) e"
| "call e (CallText t) = enc_text t e"
| "call e CallFeed = feed e"
| "call e (CallFeedLines n) = feedLines n e"
| "call e (CallFeedDots d) = feedDots d e"
| "call e (CallUseCutWithFeed b n) = useCutWithFeed b n e"
| "call e (CallCut m) = cut m e"
| "call e (CallCutWithFeed m n) = cutWithFeed m n e"

fun printable_call :: "enc_call \<Rightarrow> bool" where
  "printable_call (CallText t) = (\<forall>b \<in> set t. 0x20 \<le> b)"
| "printable_call c = True"

fun dots_of :: "enc_call \<Rightarrow> nat" where
  "dots_of (CallFeedDots d) = unat d"
| "dots_of c = 0"

definition style_of :: "encoder \<Rightarrow> style" where
  "style_of e =
     \<lparr>st_page = code_page_n (enc_code_page e), st_align = alignment_n (enc_alignment e),
      st_bold = enc_bold e, st_underline = enc_underline e,
      st_size = push_bit 4 (enc_size_width e - 1) OR (enc_size_height e - 1)\<rparr>"

lemma execute_text:
  "\<forall>b \<in> set t. 0x20 \<le> b \<Longrightarrow> execute (t @ rest) s = execute rest s"
proof (induction t)
  case (Cons b t)
  then have "b \<noteq> 0x1B" "b \<noteq> 0x1D" by (auto simp: word_le_nat_alt)
  with Cons show ?case by (cases s) (simp add: execute.simps(2))
qed simp

lemma map_codepoint_printable: "0x20 \<le> cp \<Longrightarrow> 0x20 \<le> map_codepoint page cp"
proof -
  have "0x80 \<le> b" if "lookupCp852 cp = Some b" for b
    using that kCp852_snd(2) [of b] by (force simp: lookup_mem)
  then show "0x20 \<le> cp \<Longrightarrow> ?thesis"
    by (force simp: map_codepoint_def kUnmappedCodepointFallback_def word_le_nat_alt
        word_less_nat_alt unat_ucast_down split: option.split)
qed

lemma lead_byte_extra: "lead_byte b = Some (extra, bits) \<Longrightarrow> extra \<in> {1, 2, 3}"
  by (simp add: lead_byte_def split: if_splits)

lemma not_rejected_ge: "\<not> rejected extra cp \<Longrightarrow> extra \<in> {1, 2, 3} \<Longrightarrow> 0x20 \<le> cp"
  by (auto simp: rejected_def word_le_nat_alt word_less_nat_alt)

lemma decodeUtf8_printable:
  assumes "0x20 \<le> b"
  shows "0x20 \<le> fst (decodeUtf8 (b # bs)) \<and> (\<exists>k. snd (decodeUtf8 (b # bs)) = drop k bs)"
proof -
  have k: "(0x20 :: u32) \<le> kInvalidCodepoint" by (simp add: kInvalidCodepoint_def)
  have b: "0x20 \<le> (ucast b :: u32)" using assms by (simp add: word_le_nat_alt)
  have d: "\<exists>k. bs = drop k bs" by (rule exI [of _ 0]) simp
  show ?thesis
    using k b d lead_byte_extra not_rejected_ge
    by (simp split: option.split prod.split) blast
qed

lemma transliterate_printable:
  "\<forall>b \<in> set bs. 0x20 \<le> b \<Longrightarrow> \<forall>b \<in> set (transliterate bs page). 0x20 \<le> b"
proof (induction bs page rule: transliterate.induct)
  case (2 b bs page)
  obtain cp rest where d: "decodeUtf8 (b # bs) = (cp, rest)" by fastforce
  then have "0x20 \<le> cp" "set rest \<subseteq> set (b # bs)"
    using decodeUtf8_printable [of b bs] "2.prems" by (auto dest: in_set_dropD)
  then show ?case
    using "2.IH" [OF d [symmetric]] "2.prems" d map_codepoint_printable by auto
qed simp

lemma execute_feed_dots:
  "execute (feed_dots_bytes d @ rest) (s, fed) = execute rest (s, fed + unat d)"
proof (induction d arbitrary: fed rule: feed_dots_bytes.induct)
  case (1 d)
  show ?case
  proof (cases "d = 0")
    case True
    then show ?thesis by (subst feed_dots_bytes.simps) simp
  next
    case False
    let ?c = "if d > 0xFF then 0xFF else ucast d :: u8"
    have c: "unat ?c = min 255 (unat d)"
      by (auto simp: word_less_nat_alt unsigned_ucast_eq unsigned_take_bit_eq take_bit_nat_eq_self)
    have "execute (feed_dots_bytes d @ rest) (s, fed) =
        execute (feed_dots_bytes (d - ucast ?c) @ rest) (s, fed + unat ?c)"
      using False by (subst feed_dots_bytes.simps) (simp add: Let_def execute_commands del: ucast_up_down)
    also have "\<dots> = execute rest (s, fed + unat ?c + unat (d - ucast ?c))"
      using "1" [OF False refl] by blast
    finally show ?thesis using feed_dots_rest [of d] c by simp
  qed
qed

lemmas style_simps = style_of_def power_on_def set_style_def put_def resetStyleState_def

definition in_step :: "nat \<Rightarrow> encoder \<Rightarrow> bool" where
  "in_step fed e \<longleftrightarrow>
     (\<forall>rest. execute (enc_buffer e @ rest) (power_on, 0) = execute rest (style_of e, fed))"

lemma in_step_put:
  "in_step fed e \<Longrightarrow> (\<And>rest. execute (bs @ rest) (style_of e, fed) = execute rest (style_of e', fed')) \<Longrightarrow>
   enc_buffer e' = enc_buffer e @ bs \<Longrightarrow> in_step fed' e'"
  by (simp add: in_step_def)

lemma in_step_same:
  "in_step fed e \<Longrightarrow> enc_buffer e' = enc_buffer e \<Longrightarrow> style_of e' = style_of e \<Longrightarrow> in_step fed e'"
  by (simp add: in_step_def)

lemma in_step_cut: "in_step fed e \<Longrightarrow> in_step fed (cutWithFeed m n e)"
  by (rule in_step_put [where bs = "[0x1D, 0x56, (if m = CutFull then 65 else 66), n]"])
    (simp_all add: cutWithFeed_def style_simps execute_commands)

lemma in_step_call:
  assumes e: "in_step fed e" and p: "printable_call c"
  shows "in_step (fed + dots_of c) (call e c)"
proof (cases c)
  case CallInitialize
  then show ?thesis
    by (auto intro!: in_step_put [OF e, where bs = "[0x1B, 0x40]"]
        simp: initialize_def style_simps execute_commands)
next
  case (CallCodePage pg)
  then show ?thesis
    using e by (auto intro!: in_step_put [OF e, where bs = "[0x1B, 0x74, code_page_n pg]"]
        simp: selectCodePage_def style_simps execute_commands)
next
  case (CallAlign a)
  then show ?thesis
    using e by (auto intro!: in_step_put [OF e, where bs = "[0x1B, 0x61, alignment_n a]"]
        simp: align_def style_simps execute_commands)
next
  case (CallBold b)
  then show ?thesis
    using e by (auto intro!: in_step_put [OF e, where bs = "[0x1B, 0x45, if b then 1 else 0]"]
        simp: bold_def style_simps execute_commands)
next
  case (CallUnderline n)
  then show ?thesis
    using e by (auto intro!: in_step_put [OF e, where bs = "[0x1B, 0x2D, n]"]
        simp: underline_def or_keep_def style_simps execute_commands)
next
  case (CallTextSize w h)
  then show ?thesis
    using e by (auto intro!: in_step_put [OF e, where bs = "[0x1D, 0x21, push_bit 4 (w - 1) OR (h - 1)]"]
        simp: textSize_def or_keep_def style_simps execute_commands)
next
  case (CallText t)
  then show ?thesis
    using p transliterate_printable [of t "enc_code_page e"]
    by (auto intro!: in_step_put [OF e, where bs = "transliterate t (enc_code_page e)"] execute_text
        simp: enc_text_def style_simps)
next
  case CallFeed
  then show ?thesis
    by (auto intro!: in_step_put [OF e, where bs = "[0x0A]"]
        simp: feed_def style_simps execute_commands)
next
  case (CallFeedLines n)
  then show ?thesis
    by (auto intro!: in_step_put [OF e, where bs = "[0x1B, 0x64, n]"]
        simp: feedLines_def style_simps execute_commands)
next
  case (CallFeedDots d)
  then show ?thesis
    by (auto intro!: in_step_put [OF e, where bs = "feed_dots_bytes d"]
        simp: feedDots_def style_simps execute_feed_dots)
next
  case (CallUseCutWithFeed b n)
  then show ?thesis
    by (auto intro!: in_step_same [OF e] simp: useCutWithFeed_def style_simps)
next
  case (CallCut m)
  then show ?thesis
    using in_step_cut [OF e]
    by (auto intro!: in_step_put [OF e, where bs = "[0x1D, 0x56, if m = CutFull then 0x00 else 0x01]"]
        simp: cut_def style_simps execute_commands)
next
  case (CallCutWithFeed m n)
  then show ?thesis using in_step_cut [OF e] by simp
qed

lemma in_step_calls:
  "in_step fed e \<Longrightarrow> list_all printable_call cs \<Longrightarrow>
   in_step (fed + sum_list (map dots_of cs)) (foldl call e cs)"
proof (induction cs arbitrary: fed e)
  case (Cons c cs)
  then show ?case
    using Cons.IH [of "fed + dots_of c" "call e c"] in_step_call by (simp add: add.assoc)
qed simp

lemma in_step_new: "in_step 0 new_encoder"
  by (simp add: in_step_def new_encoder_def style_simps)


section \<open>Properties of the encoder\<close>

lemma concat_nth_rows:
  "\<forall>l \<in> set rows. length l = w \<Longrightarrow> y < length rows \<Longrightarrow> x < w \<Longrightarrow>
   concat rows ! (y * w + x) = rows ! y ! x"
proof (induction rows arbitrary: y)
  case (Cons l rows)
  then show ?case by (cases y) (auto simp: nth_append)
qed simp

lemma resampleGray_nth:
  "x < dw \<Longrightarrow> y < dh \<Longrightarrow>
   resampleGray g sw sh dw dh ! (y * dw + x) =
     box_mean g sw (box_span sh dh y) (box_span sw dw x)"
  by (simp add: resampleGray_def concat_nth_rows)



text \<open>
  When \<^theory_text>\<open>rasterPacked\<close> accepts an image, the \<^verbatim>\<open>GS v 0\<close> commands it appends are read
  back by a printer as bands that carry every byte of the image in order and every row
  exactly once, and no band is taller than the limit the caller set.
\<close>

theorem raster_bands_carry_image:
  assumes "rasterPacked data w h scale max_rows e = Inr e'"
  shows "\<exists>cmds bands. enc_buffer e' = enc_buffer e @ cmds \<and> read_bands cmds = Some bands \<and>
    concat (map snd bands) = data \<and> sum_list (map fst bands) = unat h \<and>
    list_all (\<lambda>b. 0 < fst b \<and> fst b \<le> (if max_rows = 0 then unat h else unat max_rows)) bands"
proof -
  let ?bpr = "bytes_per_row_of w" and ?band = "if max_rows = 0 then unat h else unat max_rows"
  have a: "?bpr < 65536" "unat h < 65536" "length data = ?bpr * unat h" "0 < ?band"
    and e': "e' = put (banded_raster data ?bpr (unat h) scale (unat max_rows)) e"
    using assms by (auto simp: rasterPacked_def Let_def word_less_nat_alt unat_eq_zero not_le
        unat_gt_0 split: if_splits)
  obtain bands where
    "read_bands (banded_from scale ?bpr (unat h) ?band data 0) = Some bands"
    "concat (map snd bands) = data" "sum_list (map fst bands) = unat h"
    "\<forall>b \<in> set bands. 0 < fst b \<and> fst b \<le> ?band"
    using read_bands_banded_from [OF a, of scale 0] by auto
  then show ?thesis
    by (auto simp: e' put_def banded_raster_def list_all_iff unat_eq_zero)
qed

theorem raster_bands_carry_image_witness:
  "\<exists>cmds bands. enc_buffer (put (banded_raster [1, 2, 3, 4, 5, 6] 2 3 ScaleNormal 2) new_encoder) = [] @ cmds \<and>
    read_bands cmds = Some bands \<and> concat (map snd bands) = [1, 2, 3, 4, 5, 6] \<and>
    sum_list (map fst bands) = 3"
proof -
  have "rasterPacked [1, 2, 3, 4, 5, 6] 9 3 ScaleNormal 2 new_encoder =
      Inr (put (banded_raster [1, 2, 3, 4, 5, 6] 2 3 ScaleNormal 2) new_encoder)"
    by (simp add: rasterPacked_def bytes_per_row_of_def)
  from raster_bands_carry_image [OF this] show ?thesis
    by (auto simp: new_encoder_def)
qed

text \<open>
  With a fixed threshold, the packed bit of every destination pixel is set exactly when
  the mean of the source box under the pixel is darker than the threshold.
\<close>

theorem packed_dot_iff_dark:
  assumes "packGrayscale gray w h tw FixedThreshold threshold = Inr p"
    and "unat tw + 7 < 2 ^ 32" and "x < pr_width_dots p" and "y < pr_height_dots p"
  shows "dot (pr_bytes_per_row p) (pr_data p) x y \<longleftrightarrow>
    box_mean gray (unat w) (box_span (unat h) (pr_height_dots p) y)
      (box_span (unat w) (pr_width_dots p) x) < threshold"
proof -
  let ?H = "pr_height_dots p" and ?S = "resampleGray gray (unat w) (unat h) (unat tw) (pr_height_dots p)"
  have p: "pr_width_dots p = unat tw" "pr_bytes_per_row p = bytes_per_row_of tw"
    "pr_data p = threshold_dots ?S (unat tw) ?H (bytes_per_row_of tw) threshold"
    using assms(1) by (auto simp: packGrayscale_def Let_def split: if_splits)
  then show ?thesis
    using threshold_dot [OF assms(2), of x y ?H ?S threshold] assms(3,4)
    by (simp add: resampleGray_nth)
qed

theorem packed_dot_iff_dark_witness:
  "dot 1 [0x80, 0x40] 0 0 \<and> \<not> dot 1 [0x80, 0x40] 1 0"
proof -
  have two: "replicate 2 (0 :: u8) = [0, 0]" by (simp add: numeral_2_eq_2)
  have upto2: "[0..<2] = [0, Suc 0]" by (simp add: upt_conv_Cons)
  have spans: "box_span 2 2 0 = (0, Suc 0)" "box_span 2 2 (Suc 0) = (Suc 0, 2)"
    by (simp_all add: box_span_def)
  have means: "box_mean [0, 200, 200, 0] 2 (0, Suc 0) (0, Suc 0) = 0"
    "box_mean [0, 200, 200, 0] 2 (0, Suc 0) (Suc 0, 2) = 200"
    "box_mean [0, 200, 200, 0] 2 (Suc 0, 2) (0, Suc 0) = 200"
    "box_mean [0, 200, 200, 0] 2 (Suc 0, 2) (Suc 0, 2) = 0"
    by (simp_all add: box_mean_def upt_conv_Cons)
  have "resampleGray [0, 200, 200, 0] 2 2 2 2 = [0, 200, 200, 0]"
    by (simp add: resampleGray_def upto2 spans means)
  then have pack: "packGrayscale [0, 200, 200, 0] 2 2 2 FixedThreshold 128 =
      Inr \<lparr>pr_data = [0x80, 0x40], pr_width_dots = 2, pr_height_dots = 2, pr_bytes_per_row = 1\<rparr>"
    by (simp add: packGrayscale_def Let_def threshold_dots_def bytes_per_row_of_def pixels_def
        setDot_def upto2 two)
  from packed_dot_iff_dark [OF pack, of 0 0] packed_dot_iff_dark [OF pack, of 1 0]
  show ?thesis by (simp add: spans means)
qed

text \<open>
  The width check is made on a 32-bit sum: a width within seven of the largest 32-bit number
  wraps to zero bytes per row and is accepted with an empty image.
\<close>

lemma rasterPacked_width_wraps:
  "rasterPacked [] 0xFFFFFFFF 1 ScaleNormal 0 e =
     Inr (put [0x1D, 0x76, 0x30, 0, 0, 0, 1, 0] e)"
  by (simp add: rasterPacked_def bytes_per_row_of_def banded_raster_def banded_from.simps
      raster_command_def lo8_def hi8_def)

end
