(* ===== verification/Response_Parser.thy ===== *)
theory Response_Parser imports
  Stream_Parser
  Escpos_Encoder
begin

text \<open>
  \<^verbatim>\<open>core/include/printerdriver/response_parser.hpp\<close> and
  \<^verbatim>\<open>core/src/response_parser.cpp\<close>: the classification of the bytes a printer answers
  with. The step function follows the precedence of the sources; the parser is an
  interpretation of \<^theory_text>\<open>incremental_parser\<close>, so the events are a lossless partition of the
  stream that does not depend on how the reads cut it.
\<close>

section \<open>Status bits\<close>

datatype parsed_event_kind = GsHAck | AsbStatus | RealtimeStatus | QueuedStatus | UnknownByte

fun parsed_event_kind_name :: "parsed_event_kind \<Rightarrow> string" where
  "parsed_event_kind_name GsHAck = ''GsHAck''"
| "parsed_event_kind_name AsbStatus = ''AsbStatus''"
| "parsed_event_kind_name RealtimeStatus = ''RealtimeStatus''"
| "parsed_event_kind_name QueuedStatus = ''QueuedStatus''"
| "parsed_event_kind_name UnknownByte = ''UnknownByte''"

record status_flags =
  sf_online :: "bool option"
  sf_cover_open :: "bool option"
  sf_paper_out :: "bool option"
  sf_paper_near_end :: "bool option"
  sf_cutter_error :: "bool option"
  sf_unrecoverable_error :: "bool option"
  sf_auto_recoverable_error :: "bool option"
  sf_error :: "bool option"
  sf_drawer_pin_high :: "bool option"
  sf_paper_feed_button :: "bool option"
  sf_waiting_online_recovery :: "bool option"
  sf_paper_being_fed :: "bool option"

definition no_flags :: status_flags where
  "no_flags =
     \<lparr>sf_online = None, sf_cover_open = None, sf_paper_out = None, sf_paper_near_end = None,
      sf_cutter_error = None, sf_unrecoverable_error = None, sf_auto_recoverable_error = None,
      sf_error = None, sf_drawer_pin_high = None, sf_paper_feed_button = None,
      sf_waiting_online_recovery = None, sf_paper_being_fed = None\<rparr>"

record parsed_event =
  pe_kind :: parsed_event_kind
  pe_token :: string
  pe_frame :: bytes
  pe_byte :: u8
  pe_realtime_kind :: dle_eot_kind
  pe_flags :: status_flags

definition default_event :: parsed_event where
  "default_event =
     \<lparr>pe_kind = UnknownByte, pe_token = [], pe_frame = [0, 0, 0, 0], pe_byte = 0,
      pe_realtime_kind = PrinterStatus, pe_flags = no_flags\<rparr>"

definition isPrintableAscii :: "u8 \<Rightarrow> bool" where
  "isPrintableAscii b \<longleftrightarrow> 0x20 \<le> b \<and> b \<le> 0x7E"

definition looksLikeAsbByte :: "u8 \<Rightarrow> bool" where
  "looksLikeAsbByte b \<longleftrightarrow> (b AND 0x93) = 0x10"

definition looksLikeRealtimeByte :: "u8 \<Rightarrow> bool" where
  "looksLikeRealtimeByte b \<longleftrightarrow> (b AND 0x93) = 0x12"

definition decodeAsb :: "bytes \<Rightarrow> status_flags" where
  "decodeAsb frame =
     no_flags\<lparr>sf_drawer_pin_high := Some (bit (frame ! 0) 2),
       sf_online := Some (\<not> bit (frame ! 0) 3),
       sf_waiting_online_recovery := Some (bit (frame ! 0) 5),
       sf_paper_feed_button := Some (bit (frame ! 0) 6),
       sf_cover_open := Some (bit (frame ! 1) 2),
       sf_paper_being_fed := Some (bit (frame ! 1) 3),
       sf_error := Some (bit (frame ! 1) 6),
       sf_cutter_error := Some (bit (frame ! 2) 3),
       sf_unrecoverable_error := Some (bit (frame ! 2) 5),
       sf_auto_recoverable_error := Some (bit (frame ! 2) 6),
       sf_paper_near_end := Some (bit (frame ! 3) 2),
       sf_paper_out := Some (bit (frame ! 3) 5)\<rparr>"

fun decodeRealtime :: "dle_eot_kind \<Rightarrow> u8 \<Rightarrow> status_flags" where
  "decodeRealtime PrinterStatus v =
     no_flags\<lparr>sf_drawer_pin_high := Some (bit v 2), sf_online := Some (\<not> bit v 3),
       sf_waiting_online_recovery := Some (bit v 5), sf_paper_feed_button := Some (bit v 6)\<rparr>"
| "decodeRealtime OfflineCause v =
     no_flags\<lparr>sf_cover_open := Some (bit v 2), sf_paper_being_fed := Some (bit v 3),
       sf_paper_out := Some (bit v 5), sf_error := Some (bit v 6)\<rparr>"
| "decodeRealtime ErrorCause v =
     no_flags\<lparr>sf_cutter_error := Some (bit v 3), sf_unrecoverable_error := Some (bit v 5),
       sf_auto_recoverable_error := Some (bit v 6)\<rparr>"
| "decodeRealtime PaperSensor v =
     no_flags\<lparr>sf_paper_near_end := Some (bit v 2), sf_paper_out := Some (bit v 5)\<rparr>"

definition value_or :: "bool option \<Rightarrow> bool \<Rightarrow> bool" where
  "value_or x d = (case x of Some b \<Rightarrow> b | None \<Rightarrow> d)"

definition toDeviceEvents :: "status_flags \<Rightarrow> device_event list" where
  "toDeviceEvents f =
     (case sf_online f of Some b \<Rightarrow> [if b then DE_Online else DE_Offline] | None \<Rightarrow> []) @
     (case sf_cover_open f of Some b \<Rightarrow> [if b then DE_CoverOpen else DE_CoverClosed] | None \<Rightarrow> []) @
     (if value_or (sf_paper_out f) False then [DE_PaperOut]
      else if value_or (sf_paper_near_end f) False then [DE_PaperNearEnd]
      else if sf_paper_out f \<noteq> None then [DE_PaperOk] else []) @
     (if value_or (sf_cutter_error f) False then [DE_CutterError] else []) @
     (if value_or (sf_unrecoverable_error f) False then [DE_UnrecoverableError] else []) @
     (if value_or (sf_auto_recoverable_error f) False then [DE_RecoverableError] else [])"

section \<open>The parser\<close>

record response_parser =
  rp_buffer :: bytes
  rp_realtime :: "dle_eot_kind list"
  rp_queued :: nat

definition new_response_parser :: response_parser where
  "new_response_parser = \<lparr>rp_buffer = [], rp_realtime = [], rp_queued = 0\<rparr>"

definition expectRealtime :: "dle_eot_kind \<Rightarrow> response_parser \<Rightarrow> response_parser" where
  "expectRealtime kind p = p\<lparr>rp_realtime := rp_realtime p @ [kind]\<rparr>"

definition expectQueued :: "response_parser \<Rightarrow> response_parser" where
  "expectQueued p = p\<lparr>rp_queued := rp_queued p + 1\<rparr>"

definition rp_reset :: "response_parser \<Rightarrow> response_parser" where
  "rp_reset p = \<lparr>rp_buffer = [], rp_realtime = [], rp_queued = 0\<rparr>"

text \<open>
  What a candidate frame at the head of the buffer is: ruled out, complete, or so far
  consistent and short.
\<close>

datatype frame_status = Disqualified | Complete | Partial

definition gsh_status :: "bytes \<Rightarrow> frame_status" where
  "gsh_status b =
     (let available = min (length b) 7;
          bad_header = (available \<ge> 2 \<and> b ! 1 \<noteq> 0x22);
          bad_token = (\<not> list_all isPrintableAscii (drop 2 (take (min available 6) b)));
          bad_end = (available = 7 \<and> b ! 6 \<noteq> 0x00)
      in if bad_header \<or> bad_token \<or> bad_end then Disqualified
         else if length b \<ge> 7 then Complete else Partial)"

definition asb_status :: "bytes \<Rightarrow> frame_status" where
  "asb_status b =
     (if \<not> list_all looksLikeAsbByte (drop 1 (take 4 b)) then Disqualified
      else if length b \<ge> 4 then Complete else Partial)"

text \<open>The single-byte classes: precedence 2 to 4 of the sources.\<close>

definition single_step :: "response_parser \<Rightarrow> parsed_event parse_step \<times> response_parser" where
  "single_step p =
     (let first = hd (rp_buffer p); rest = tl (rp_buffer p)
      in if rp_realtime p \<noteq> [] \<and> looksLikeRealtimeByte first then
           (Emitted (default_event\<lparr>pe_kind := RealtimeStatus, pe_byte := first,
                       pe_realtime_kind := hd (rp_realtime p),
                       pe_flags := decodeRealtime (hd (rp_realtime p)) first\<rparr>),
            p\<lparr>rp_buffer := rest, rp_realtime := tl (rp_realtime p)\<rparr>)
         else if rp_queued p > 0 then
           (Emitted (default_event\<lparr>pe_kind := QueuedStatus, pe_byte := first\<rparr>),
            p\<lparr>rp_buffer := rest, rp_queued := rp_queued p - 1\<rparr>)
         else
           (Emitted (default_event\<lparr>pe_kind := UnknownByte, pe_byte := first\<rparr>),
            p\<lparr>rp_buffer := rest\<rparr>))"

text \<open>Precedence 1b: the ASB frame, before the single bytes.\<close>

definition asb_step :: "bool \<Rightarrow> response_parser \<Rightarrow> parsed_event parse_step \<times> response_parser" where
  "asb_step force p =
     (if looksLikeAsbByte (hd (rp_buffer p)) then
        (case asb_status (rp_buffer p) of
           Complete \<Rightarrow>
             (let frame = take 4 (rp_buffer p)
              in (Emitted (default_event\<lparr>pe_kind := AsbStatus, pe_frame := frame,
                             pe_flags := decodeAsb frame\<rparr>),
                  p\<lparr>rp_buffer := drop 4 (rp_buffer p)\<rparr>))
         | Partial \<Rightarrow> if force then single_step p else (NeedMore, p)
         | Disqualified \<Rightarrow> single_step p)
      else single_step p)"

definition rp_step :: "bool \<Rightarrow> response_parser \<Rightarrow> parsed_event parse_step \<times> response_parser" where
  "rp_step force p =
     (if rp_buffer p = [] then (Empty, p)
      else if hd (rp_buffer p) = 0x37 then
        (case gsh_status (rp_buffer p) of
           Complete \<Rightarrow>
             (Emitted (default_event\<lparr>pe_kind := GsHAck,
                         pe_token := map char_of_byte (take 4 (drop 2 (rp_buffer p)))\<rparr>),
              p\<lparr>rp_buffer := drop 7 (rp_buffer p)\<rparr>)
         | Partial \<Rightarrow> if force then asb_step force p else (NeedMore, p)
         | Disqualified \<Rightarrow> asb_step force p)
      else asb_step force p)"

section \<open>A step accounts for what it consumes\<close>

text \<open>The bytes an event stands for.\<close>

fun rp_covers :: "parsed_event \<Rightarrow> bytes \<Rightarrow> bool" where
  "rp_covers ev w \<longleftrightarrow>
     (case pe_kind ev of
        GsHAck \<Rightarrow> isValidProcessIdToken (pe_token ev) \<and>
          w = [0x37, 0x22] @ bytes_of (pe_token ev) @ [0x00]
      | AsbStatus \<Rightarrow> length w = 4 \<and> list_all looksLikeAsbByte w \<and> w = pe_frame ev
      | _ \<Rightarrow> w = [pe_byte ev])"

lemma gsh_complete:
  assumes "gsh_status b = Complete" "b \<noteq> []" "hd b = 0x37"
  shows "\<exists>a c d e r. b = [0x37, 0x22, a, c, d, e, 0x00] @ r \<and>
    list_all isPrintableAscii [a, c, d, e]"
proof -
  have len: "7 \<le> length b" and h: "b ! 1 = 0x22" "b ! 6 = 0x00"
    and p: "list_all isPrintableAscii (drop 2 (take 6 b))"
    using assms(1) by (auto simp: gsh_status_def Let_def min_def split: if_splits)
  then obtain x y a c d e z r where "b = x # y # a # c # d # e # z # r"
    by (auto simp: numeral_eq_Suc Suc_le_length_iff)
  with h p assms(3) show ?thesis by (auto simp: numeral_eq_Suc)
qed

lemma asb_complete:
  assumes "asb_status b = Complete" "b \<noteq> []" "looksLikeAsbByte (hd b)"
  shows "length (take 4 b) = 4 \<and> list_all looksLikeAsbByte (take 4 b)"
  using assms by (cases b) (auto simp: asb_status_def split: if_splits)

lemma isPrintable_token:
  "list_all isPrintableAscii w \<Longrightarrow> length w = 4 \<Longrightarrow> isValidProcessIdToken (map char_of_byte w)"
  by (auto simp: isValidProcessIdToken_def isPrintableAscii_def list_all_iff)

lemma single_step_emits:
  assumes "single_step p = (r, p')" "rp_buffer p \<noteq> []"
  shows "\<exists>e. r = Emitted e \<and> rp_covers e [hd (rp_buffer p)] \<and> rp_buffer p' = tl (rp_buffer p)"
  using assms by (auto simp: single_step_def Let_def default_event_def split: if_splits)

lemma asb_step_emits:
  assumes "asb_step f p = (Emitted e, p')" "rp_buffer p \<noteq> []"
  shows "\<exists>w. w \<noteq> [] \<and> rp_covers e w \<and> rp_buffer p = w @ rp_buffer p'"
proof -
  have single: ?thesis if "single_step p = (Emitted e, p')"
    using single_step_emits [OF that assms(2)] assms(2)
    by (intro exI [of _ "[hd (rp_buffer p)]"]) simp
  show ?thesis
  proof (cases "looksLikeAsbByte (hd (rp_buffer p)) \<and> asb_status (rp_buffer p) = Complete")
    case True
    with assms have "rp_covers e (take 4 (rp_buffer p))" "rp_buffer p' = drop 4 (rp_buffer p)"
      using asb_complete [of "rp_buffer p"]
      by (auto simp: asb_step_def Let_def default_event_def)
    then show ?thesis using assms(2) by (intro exI [of _ "take 4 (rp_buffer p)"]) simp
  next
    case False
    with assms single show ?thesis
      by (auto simp: asb_step_def split: if_splits frame_status.splits)
  qed
qed

lemma rp_step_emits:
  assumes "rp_step f p = (Emitted e, p')"
  shows "\<exists>w. w \<noteq> [] \<and> rp_covers e w \<and> rp_buffer p = w @ rp_buffer p'"
proof -
  have ne: "rp_buffer p \<noteq> []" using assms by (auto simp: rp_step_def)
  show ?thesis
  proof (cases "hd (rp_buffer p) = 0x37 \<and> gsh_status (rp_buffer p) = Complete")
    case True
    then obtain a c d g r where b: "rp_buffer p = [0x37, 0x22, a, c, d, g, 0x00] @ r"
      and pr: "list_all isPrintableAscii [a, c, d, g]"
      using gsh_complete [of "rp_buffer p"] ne by blast
    have "isValidProcessIdToken (map char_of_byte [a, c, d, g])"
      using isPrintable_token [OF pr] by simp
    then show ?thesis
      using assms True b
      by (intro exI [of _ "[0x37, 0x22, a, c, d, g, 0x00]"])
        (auto simp: rp_step_def default_event_def)
  next
    case False
    then have "asb_step f p = (Emitted e, p')"
      using assms ne by (auto simp: rp_step_def split: if_splits frame_status.splits)
    then show ?thesis using asb_step_emits ne by blast
  qed
qed

section \<open>Draining and feeding\<close>

function rp_drain :: "bool \<Rightarrow> response_parser \<Rightarrow> parsed_event list \<times> response_parser" where
  "rp_drain force p =
     (case rp_step force p of
        (Emitted e, p') \<Rightarrow> (case rp_drain force p' of (es, q) \<Rightarrow> (e # es, q))
      | (_, p') \<Rightarrow> ([], p'))"
  by pat_completeness auto
termination
proof (relation "measure (\<lambda>(force, p). length (rp_buffer p))", goal_cases)
  case (2 force p r p' e)
  then have "rp_step force p = (Emitted e, p')" by simp
  from rp_step_emits [OF this] show ?case by fastforce
qed simp

declare rp_drain.simps [simp del]

definition rp_push :: "bytes \<Rightarrow> response_parser \<Rightarrow> response_parser" where
  "rp_push data p = p\<lparr>rp_buffer := rp_buffer p @ data\<rparr>"

definition rp_feed :: "bytes \<Rightarrow> response_parser \<Rightarrow> parsed_event list \<times> response_parser" where
  "rp_feed data p = rp_drain False (rp_push data p)"

definition rp_flush :: "response_parser \<Rightarrow> parsed_event list \<times> response_parser" where
  "rp_flush p = rp_drain True p"

section \<open>The parser meets the incremental contract\<close>

text \<open>A classification that has been made does not change when more bytes arrive.\<close>

lemma gsh_status_alt:
  "gsh_status b =
     (if (2 \<le> length b \<and> b ! 1 \<noteq> 0x22) \<or> \<not> list_all isPrintableAscii (drop 2 (take 6 b)) \<or>
         (7 \<le> length b \<and> b ! 6 \<noteq> 0x00) then Disqualified
      else if 7 \<le> length b then Complete else Partial)"
proof -
  have "take (min (min (length b) 7) 6) b = take 6 b"
    by (cases "length b \<le> 6") (simp_all add: min_def)
  then show ?thesis by (auto simp: gsh_status_def Let_def min_def)
qed

lemma gsh_status_stable:
  "gsh_status b \<noteq> Partial \<Longrightarrow> gsh_status (b @ d) = gsh_status b"
proof (cases "7 \<le> length b")
  case True
  then show ?thesis by (simp add: gsh_status_alt nth_append)
next
  case False
  then have "take 6 b = b" by simp
  moreover assume "gsh_status b \<noteq> Partial"
  ultimately show ?thesis
    using False by (auto simp: gsh_status_alt nth_append split: if_splits)
qed

lemma asb_status_stable:
  "asb_status b \<noteq> Partial \<Longrightarrow> asb_status (b @ d) = asb_status b"
  by (auto simp: asb_status_def split: if_splits)

lemma single_step_stable:
  "single_step p = (r, p') \<Longrightarrow> rp_buffer p \<noteq> [] \<Longrightarrow>
   single_step (rp_push d p) = (r, rp_push d p')"
  by (auto simp: single_step_def Let_def rp_push_def split: if_splits)

lemma asb_step_stable:
  assumes "asb_step False p = (Emitted e, p')" "rp_buffer p \<noteq> []"
  shows "asb_step False (rp_push d p) = (Emitted e, rp_push d p')"
proof (cases "looksLikeAsbByte (hd (rp_buffer p))")
  case False
  with assms show ?thesis
    using single_step_stable [of p "Emitted e" p' d] by (simp add: asb_step_def rp_push_def)
next
  case True
  with assms have st: "asb_status (rp_buffer p) \<noteq> Partial" by (auto simp: asb_step_def)
  note same = asb_status_stable [OF st, of d]
  show ?thesis
  proof (cases "asb_status (rp_buffer p)")
    case Disqualified
    with assms True same show ?thesis
      using single_step_stable [of p "Emitted e" p' d] by (simp add: asb_step_def rp_push_def)
  next
    case Complete
    then have "4 \<le> length (rp_buffer p)" by (auto simp: asb_status_def split: if_splits)
    with Complete assms True same show ?thesis
      by (auto simp: asb_step_def rp_push_def Let_def)
  qed (use st in simp)
qed

lemma rp_step_stable:
  assumes "rp_step False p = (Emitted e, p')"
  shows "rp_step False (rp_push d p) = (Emitted e, rp_push d p')"
proof -
  have ne: "rp_buffer p \<noteq> []" using assms by (auto simp: rp_step_def)
  show ?thesis
  proof (cases "hd (rp_buffer p) = 0x37")
    case False
    with assms ne show ?thesis
      using asb_step_stable [of p e p' d] by (simp add: rp_step_def rp_push_def)
  next
    case True
    with assms ne have st: "gsh_status (rp_buffer p) \<noteq> Partial" by (auto simp: rp_step_def)
    note same = gsh_status_stable [OF st, of d]
    show ?thesis
    proof (cases "gsh_status (rp_buffer p)")
      case Disqualified
      with assms ne True same show ?thesis
        using asb_step_stable [of p e p' d] by (simp add: rp_step_def rp_push_def)
    next
      case Complete
      then have "7 \<le> length (rp_buffer p)" by (auto simp: gsh_status_alt split: if_splits)
      with Complete assms ne True same show ?thesis
        by (auto simp: rp_step_def rp_push_def)
    qed (use st in simp)
  qed
qed

lemma rp_step_NeedMore: "rp_step f p = (NeedMore, p') \<Longrightarrow> \<not> f \<and> p' = p"
  using single_step_emits [of p NeedMore p']
  by (auto simp: rp_step_def asb_step_def Let_def split: if_splits frame_status.splits)

lemma rp_step_Empty: "rp_step f p = (Empty, p') \<Longrightarrow> rp_buffer p = [] \<and> p' = p"
  using single_step_emits [of p Empty p']
  by (auto simp: rp_step_def asb_step_def Let_def split: if_splits frame_status.splits)

interpretation rp: incremental_parser rp_step rp_drain rp_buffer rp_push rp_covers
proof (unfold_locales, goal_cases)
  case (6 f s)
  show ?case by (subst rp_drain.simps) (rule refl)
qed (rule rp_step_NeedMore rp_step_Empty rp_step_emits rp_step_stable; assumption
  | simp add: rp_step_def rp_push_def)+

section \<open>Properties of the parser\<close>

text \<open>A parser no further byte can be classified in: every state a read leaves behind.\<close>

definition rp_settled :: "response_parser \<Rightarrow> bool" where
  "rp_settled p \<longleftrightarrow> (case fst (rp_step False p) of Emitted e \<Rightarrow> False | _ \<Rightarrow> True)"

lemma rp_settled_iff: "rp_settled p \<longleftrightarrow> fst (rp_step False p) \<in> {NeedMore, Empty}"
  by (auto simp: rp_settled_def split: parse_step.splits)

lemma rp_settled_feed: "rp_settled (snd (rp_feed d p))"
  using rp.drain_stuck by (simp add: rp_settled_iff rp_feed_def)

lemma rp_settled_empty [simp]: "rp_buffer p = [] \<Longrightarrow> rp_settled p"
  by (simp add: rp_settled_def rp_step_def)

lemma settled_holds_little:
  assumes "rp_settled p"
  shows "length (rp_buffer p) \<le> 6"
proof -
  obtain r p' where st: "rp_step False p = (r, p')" by fastforce
  have "\<not> 6 < length (rp_buffer p)" if "r = NeedMore"
    using st that single_step_emits [of p NeedMore p']
    by (auto simp: rp_step_def asb_step_def gsh_status_alt asb_status_def Let_def
        split: if_splits frame_status.splits)
  moreover have "rp_buffer p = []" if "r = Empty" using st that rp_step_Empty by blast
  moreover have "r = NeedMore \<or> r = Empty" using assms st by (simp add: rp_settled_iff)
  ultimately show ?thesis by fastforce
qed

text \<open>Successive reads of one connection.\<close>

fun rp_reads :: "bytes list \<Rightarrow> response_parser \<Rightarrow> parsed_event list \<times> response_parser" where
  "rp_reads [] p = ([], p)"
| "rp_reads (d # ds) p =
     (let (es, p') = rp_feed d p; (es', p'') = rp_reads ds p' in (es @ es', p''))"

lemma rp_reads_feed_all: "rp_reads ds p = rp.feed_all ds p"
  by (induction ds arbitrary: p) (simp_all add: rp_feed_def split_beta)

lemma ack_covers:
  assumes "list_all2 rp_covers es ws" "ev \<in> set es" "pe_kind ev = GsHAck"
  shows "isValidProcessIdToken (pe_token ev) \<and>
    (\<exists>pre post. concat ws = pre @ [0x37, 0x22] @ bytes_of (pe_token ev) @ [0x00] @ post)"
proof -
  from assms(2) obtain i where "i < length es" "es ! i = ev" by (auto simp: in_set_conv_nth)
  then have i: "i < length ws" "rp_covers ev (ws ! i)"
    using assms(1) by (auto simp: list_all2_conv_all_nth)
  then have "concat ws = concat (take i ws) @ ws ! i @ concat (drop (Suc i) ws)"
    by (metis concat.simps(2) concat_append id_take_nth_drop)
  with i(2) assms(3) show ?thesis by auto
qed

lemma parser_lossless_ws:
  "\<exists>ws. list_all2 rp_covers (fst (rp_feed data p)) ws \<and>
     rp_buffer p @ data = concat ws @ rp_buffer (snd (rp_feed data p))"
  using rp.drain_lossless [of False "rp_push data p"] by (auto simp: rp_feed_def rp_push_def)

text \<open>
  C14: a read loses and invents nothing. The bytes held before it and the bytes it brings are,
  in order, the bytes the reported events stand for followed by the bytes still held, and
  fewer than one acknowledgement frame is ever held back.
\<close>

theorem parser_lossless:
  "(\<exists>ws. list_all2 rp_covers (fst (rp_feed data p)) ws \<and>
         rp_buffer p @ data = concat ws @ rp_buffer (snd (rp_feed data p))) \<and>
   length (rp_buffer (snd (rp_feed data p))) \<le> 6"
  by (intro conjI parser_lossless_ws settled_holds_little rp_settled_feed)

text \<open>
  How the operating system cuts the stream into reads does not matter. Any two sequences
  of reads of the same bytes report the same events and leave the same parser.
\<close>

theorem parser_chunking_irrelevant:
  assumes "concat ds = concat ds'" and "rp_settled p"
  shows "rp_reads ds p = rp_reads ds' p"
  using rp.chunking_irrelevant [OF assms(1)] assms(2)
  unfolding rp_reads_feed_all rp_settled_iff .

theorem parser_chunking_irrelevant_witness:
  "rp_reads [[0x37, 0x22, 0x41], [0x42, 0x43, 0x44, 0x00]] new_response_parser =
   rp_reads [[0x37], [0x22, 0x41, 0x42, 0x43, 0x44], [0x00]] new_response_parser"
  by (rule parser_chunking_irrelevant) (simp_all add: new_response_parser_def)

lemma ack_frame_step:
  assumes "isValidProcessIdToken tok"
  shows "rp_step f (p\<lparr>rp_buffer := [0x37, 0x22] @ bytes_of tok @ 0x00 # rest\<rparr>) =
    (Emitted (default_event\<lparr>pe_kind := GsHAck, pe_token := tok\<rparr>), p\<lparr>rp_buffer := rest\<rparr>)"
proof -
  have len: "length tok = 4" and pr: "list_all isPrintableAscii (bytes_of tok)"
    using assms by (auto simp: isValidProcessIdToken_def isPrintableAscii_def list_all_iff)
  from len obtain a b c d where tok: "tok = [a, b, c, d]"
    by (auto simp: numeral_eq_Suc length_Suc_conv)
  with pr show ?thesis
    by (simp add: rp_step_def gsh_status_alt numeral_eq_Suc byte_simps [simplified])
qed

lemma ack_frame_feed:
  assumes "isValidProcessIdToken tok" "rp_buffer p = []"
  shows "rp_feed ([0x37, 0x22] @ bytes_of tok @ [0x00]) p =
    ([default_event\<lparr>pe_kind := GsHAck, pe_token := tok\<rparr>], p)"
proof -
  have step: "rp_step False (rp_push ([0x37, 0x22] @ bytes_of tok @ [0x00]) p) =
      (Emitted (default_event\<lparr>pe_kind := GsHAck, pe_token := tok\<rparr>), p)"
    using ack_frame_step [OF assms(1), of False "[]" p] assms(2) by (simp add: rp_push_def)
  have "rp_drain False p = ([], p)"
    using assms(2) by (subst rp_drain.simps) (simp add: rp_step_def)
  then show ?thesis using rp.drain_Emitted [OF step] by (simp add: rp_feed_def)
qed

text \<open>
  An acknowledgement is never inferred. A \<^verbatim>\<open>GsHAck\<close> event carries four printable
  characters and the complete frame 37 22 token 00 with exactly these characters occurs in
  the bytes that arrived.
\<close>

theorem ack_needs_frame:
  assumes "ev \<in> set (fst (rp_feed data p))" and "pe_kind ev = GsHAck"
  shows "isValidProcessIdToken (pe_token ev) \<and>
    (\<exists>pre post. rp_buffer p @ data =
       pre @ [0x37, 0x22] @ bytes_of (pe_token ev) @ [0x00] @ post)"
proof -
  from parser_lossless_ws [of data p] obtain ws where
    "list_all2 rp_covers (fst (rp_feed data p)) ws"
    "rp_buffer p @ data = concat ws @ rp_buffer (snd (rp_feed data p))" by blast
  then show ?thesis using ack_covers [OF _ assms] by fastforce
qed

theorem ack_needs_frame_witness:
  "\<exists>pre post. [0x37, 0x22, 0x50, 0x21, 0x21, 0x22, 0x00] =
     pre @ [0x37, 0x22] @ bytes_of (''P!!'' @ [CHR 0x22]) @ [0x00 :: u8] @ post"
proof -
  let ?ev = "default_event\<lparr>pe_kind := GsHAck, pe_token := ''P!!'' @ [CHR 0x22]\<rparr>"
  have "isValidProcessIdToken (''P!!'' @ [CHR 0x22])"
    by (simp add: isValidProcessIdToken_def byte_of_def)
  from ack_frame_feed [OF this, of new_response_parser]
  have "?ev \<in> set (fst (rp_feed [0x37, 0x22, 0x50, 0x21, 0x21, 0x22, 0x00] new_response_parser))"
    by (simp add: new_response_parser_def byte_of_def)
  from ack_needs_frame [OF this] show ?thesis
    by (simp add: new_response_parser_def default_event_def)
qed

text \<open>
  The marker comes back. When the printer answers a marker that \<^theory_text>\<open>processIdMarker\<close>
  accepted with the documented echo, a parser that holds nothing reports exactly one event,
  the acknowledgement of that token, and keeps its expectations.
\<close>

theorem marker_echo_acknowledged:
  assumes "processIdMarker tok = Inr marker" and "rp_buffer p = []"
  shows "rp_feed ([0x37, 0x22] @ drop 7 marker @ [0x00]) p =
    ([default_event\<lparr>pe_kind := GsHAck, pe_token := tok\<rparr>], p)"
proof -
  have "isValidProcessIdToken tok" "drop 7 marker = bytes_of tok"
    using assms(1) by (auto simp: processIdMarker_def split: if_splits)
  then show ?thesis using ack_frame_feed assms(2) by simp
qed

theorem marker_echo_acknowledged_witness:
  "rp_feed [0x37, 0x22, 0x50, 0x21, 0x21, 0x22, 0x00] new_response_parser =
    ([default_event\<lparr>pe_kind := GsHAck, pe_token := ''P!!'' @ [CHR 0x22]\<rparr>], new_response_parser)"
proof -
  have "processIdMarker (''P!!'' @ [CHR 0x22]) =
      Inr [0x1D, 0x28, 0x48, 0x06, 0x00, 0x30, 0x30, 0x50, 0x21, 0x21, 0x22]"
    by (simp add: processIdMarker_def isValidProcessIdToken_def byte_of_def)
  from marker_echo_acknowledged [OF this, of new_response_parser] show ?thesis
    by (simp add: new_response_parser_def)
qed

end
