(* ===== verification/Star.thy ===== *)
theory Star imports
  Stream_Parser
  Escpos_Encoder
begin

text \<open>
  \<^verbatim>\<open>core/include/printerdriver/star.hpp\<close> and \<^verbatim>\<open>core/src/star.cpp\<close>: the two Star fences
  and the five-bit counter, the incremental parser of a Star printer's answers, the Line
  Mode encoder, and the transcoder that turns the ESC/POS this core emits into Line Mode.
  The parser is an interpretation of \<^theory_text>\<open>incremental_parser\<close>; the transcoder is related to
  the encoder by a printer model of each language.
\<close>

section \<open>Fences\<close>

definition kEtb :: u8 where "kEtb = 0x17"

definition etbFence :: bytes where "etbFence = [kEtb]"

definition star_asbEnable :: bytes where "star_asbEnable = [0x1B, 0x1E, 0x61, 0x01]"

definition star_asbDisable :: bytes where "star_asbDisable = [0x1B, 0x1E, 0x61, 0x00]"

definition asbRequestNow :: bytes where "asbRequestNow = [0x1B, 0x06, 0x01]"

definition clearEtbCounter :: bytes where "clearEtbCounter = [0x1B, 0x1E, 0x45, 0x00]"

definition etbCounter :: "u8 \<Rightarrow> u8" where
  "etbCounter b = drop_bit 2 (b AND 0x60) OR drop_bit 1 (b AND 0x0E)"

definition nextEtbCounter :: "u8 \<Rightarrow> u8" where
  "nextEtbCounter c = (c + 1) AND 0x1F"

definition escGsEtxFence :: "u8 \<Rightarrow> u8 \<Rightarrow> bytes" where
  "escGsEtxFence n1 n2 = [0x1B, 0x1D, 0x03, 0x01, n1, n2]"

section \<open>The response parser\<close>

datatype star_event_kind = SE_EtxAck | SE_AsbStatus | SE_UnknownByte

fun star_event_kind_name :: "star_event_kind \<Rightarrow> string" where
  "star_event_kind_name SE_EtxAck = ''EtxAck''"
| "star_event_kind_name SE_AsbStatus = ''AsbStatus''"
| "star_event_kind_name SE_UnknownByte = ''UnknownByte''"

record star_event =
  se_kind :: star_event_kind
  se_n1 :: u8
  se_n2 :: u8
  se_counter :: u8
  se_byte :: u8
  se_frame :: bytes

definition default_star_event :: star_event where
  "default_star_event =
     \<lparr>se_kind = SE_UnknownByte, se_n1 = 0, se_n2 = 0, se_counter = 0, se_byte = 0, se_frame = []\<rparr>"

record star_parser =
  sp_buffer :: bytes
  sp_asb_block_bytes :: u8

definition new_star_parser :: star_parser where
  "new_star_parser = \<lparr>sp_buffer = [], sp_asb_block_bytes = 8\<rparr>"

definition setAsbBlockBytes :: "u8 \<Rightarrow> star_parser \<Rightarrow> star_parser" where
  "setAsbBlockBytes n p = p\<lparr>sp_asb_block_bytes := n\<rparr>"

definition sp_reset :: "star_parser \<Rightarrow> star_parser" where
  "sp_reset p = p\<lparr>sp_buffer := []\<rparr>"

definition kEtxPrefix :: bytes where "kEtxPrefix = [0x1B, 0x1D, 0x03, 0x01]"

text \<open>The head byte reported as unknown.\<close>

definition sp_unknown :: "star_parser \<Rightarrow> star_event parse_step \<times> star_parser" where
  "sp_unknown p =
     (Emitted (default_star_event\<lparr>se_byte := hd (sp_buffer p)\<rparr>), p\<lparr>sp_buffer := tl (sp_buffer p)\<rparr>)"

definition sp_step :: "bool \<Rightarrow> star_parser \<Rightarrow> star_event parse_step \<times> star_parser" where
  "sp_step force p =
     (let b = sp_buffer p; block = unat (sp_asb_block_bytes p)
      in if b = [] then (Empty, p)
         else if hd b = 0x1B then
           (if take 4 b \<noteq> take (length b) kEtxPrefix then sp_unknown p
            else if length b < 8 then (if force then sp_unknown p else (NeedMore, p))
            else (Emitted (default_star_event\<lparr>se_kind := SE_EtxAck, se_n1 := b ! 4, se_n2 := b ! 5,
                             se_counter := b ! 6\<rparr>),
                  p\<lparr>sp_buffer := drop 8 b\<rparr>))
         else if block > 0 then
           (if length b < block then (if force then sp_unknown p else (NeedMore, p))
            else let frame = take block b
                 in (Emitted (default_star_event\<lparr>se_kind := SE_AsbStatus, se_frame := frame,
                               se_counter := (if length frame > 7 then etbCounter (frame ! 7) else 0)\<rparr>),
                     p\<lparr>sp_buffer := drop block b\<rparr>))
         else sp_unknown p)"

text \<open>The bytes an event stands for; the last byte of an acknowledgement is not looked at.\<close>

fun sp_covers :: "star_event \<Rightarrow> bytes \<Rightarrow> bool" where
  "sp_covers ev w \<longleftrightarrow>
     (case se_kind ev of
        SE_EtxAck \<Rightarrow> length w = 8 \<and>
          take 7 w = kEtxPrefix @ [se_n1 ev, se_n2 ev, se_counter ev]
      | SE_AsbStatus \<Rightarrow> w \<noteq> [] \<and> w = se_frame ev \<and>
          se_counter ev = (if length w > 7 then etbCounter (w ! 7) else 0)
      | SE_UnknownByte \<Rightarrow> w = [se_byte ev])"

lemma sp_step_emits:
  assumes "sp_step f p = (Emitted e, p')"
  shows "\<exists>w. w \<noteq> [] \<and> sp_covers e w \<and> sp_buffer p = w @ sp_buffer p'"
proof -
  let ?b = "sp_buffer p"
  let ?n = "unat (sp_asb_block_bytes p)"
  have ne: "?b \<noteq> []" using assms by (auto simp: sp_step_def Let_def)
  have unknown: ?thesis if "sp_unknown p = (Emitted e, p')"
    using that ne by (intro exI [of _ "[hd ?b]"]) (auto simp: sp_unknown_def default_star_event_def)
  show ?thesis
  proof (cases "hd ?b = 0x1B")
    case esc: True
    show ?thesis
    proof (cases "take 4 ?b = take (length ?b) kEtxPrefix \<and> 8 \<le> length ?b")
      case False
      then have "sp_unknown p = (Emitted e, p')"
        using assms ne esc by (simp add: sp_step_def Let_def not_le split: if_splits)
      then show ?thesis by (rule unknown)
    next
      case True
      then obtain a c d g n1 n2 k z r where b: "?b = [a, c, d, g, n1, n2, k, z] @ r"
        by (auto simp: numeral_eq_Suc Suc_le_length_iff)
      with True have "[a, c, d, g] = kEtxPrefix" by (simp add: kEtxPrefix_def)
      with True b show ?thesis
        using assms esc
        by (intro exI [of _ "[a, c, d, g, n1, n2, k, z]"])
          (auto simp: sp_step_def default_star_event_def numeral_eq_Suc)
    qed
  next
    case other: False
    show ?thesis
    proof (cases "0 < ?n \<and> ?n \<le> length ?b")
      case False
      then have "sp_unknown p = (Emitted e, p')"
        using assms ne other by (auto simp: sp_step_def Let_def split: if_splits)
      then show ?thesis by (rule unknown)
    next
      case True
      then show ?thesis
        using assms ne other
        by (intro exI [of _ "take ?n ?b"]) (auto simp: sp_step_def Let_def)
    qed
  qed
qed

function sp_drain :: "bool \<Rightarrow> star_parser \<Rightarrow> star_event list \<times> star_parser" where
  "sp_drain force p =
     (case sp_step force p of
        (Emitted e, p') \<Rightarrow> (case sp_drain force p' of (es, q) \<Rightarrow> (e # es, q))
      | (_, p') \<Rightarrow> ([], p'))"
  by pat_completeness auto
termination
proof (relation "measure (\<lambda>(force, p). length (sp_buffer p))", goal_cases)
  case (2 force p r p' e)
  then have "sp_step force p = (Emitted e, p')" by simp
  from sp_step_emits [OF this] show ?case by fastforce
qed simp

declare sp_drain.simps [simp del]

definition sp_push :: "bytes \<Rightarrow> star_parser \<Rightarrow> star_parser" where
  "sp_push data p = p\<lparr>sp_buffer := sp_buffer p @ data\<rparr>"

definition sp_feed :: "bytes \<Rightarrow> star_parser \<Rightarrow> star_event list \<times> star_parser" where
  "sp_feed data p = sp_drain False (sp_push data p)"

definition sp_flush :: "star_parser \<Rightarrow> star_event list \<times> star_parser" where
  "sp_flush p = sp_drain True p"

section \<open>The Line Mode encoder\<close>

datatype star_cut = StarPartial | StarFull

definition transliterateAscii :: "bytes \<Rightarrow> bytes" where
  "transliterateAscii utf8 = map (\<lambda>b. if b < 0x80 then b else kUnmappedCodepointFallback) utf8"

record star_encoder =
  sn_buffer :: bytes
  sn_alignment :: alignment
  sn_bold :: bool
  sn_underline :: bool

definition new_star_encoder :: star_encoder where
  "new_star_encoder = \<lparr>sn_buffer = [], sn_alignment = AL_Left, sn_bold = False, sn_underline = False\<rparr>"

definition sn_put :: "bytes \<Rightarrow> star_encoder \<Rightarrow> star_encoder" where
  "sn_put data e = e\<lparr>sn_buffer := sn_buffer e @ data\<rparr>"

definition sn_initialize :: "star_encoder \<Rightarrow> star_encoder" where
  "sn_initialize e =
     (sn_put [0x1B, 0x40] e)\<lparr>sn_alignment := AL_Left, sn_bold := False, sn_underline := False\<rparr>"

definition sn_align :: "alignment \<Rightarrow> star_encoder \<Rightarrow> star_encoder" where
  "sn_align a e =
     (if a = sn_alignment e then e
      else sn_put [0x1B, 0x1D, 0x61, alignment_n a] (e\<lparr>sn_alignment := a\<rparr>))"

definition sn_set_bold :: "bool \<Rightarrow> star_encoder \<Rightarrow> star_encoder" where
  "sn_set_bold enabled e =
     (if enabled = sn_bold e then e
      else sn_put [0x1B, (if enabled then 0x45 else 0x46)] (e\<lparr>sn_bold := enabled\<rparr>))"

definition sn_set_underline :: "bool \<Rightarrow> star_encoder \<Rightarrow> star_encoder" where
  "sn_set_underline enabled e =
     (if enabled = sn_underline e then e
      else sn_put [0x1B, 0x2D, (if enabled then 0x01 else 0x00)] (e\<lparr>sn_underline := enabled\<rparr>))"

definition sn_text :: "bytes \<Rightarrow> star_encoder \<Rightarrow> star_encoder" where
  "sn_text utf8 e = sn_put (transliterateAscii utf8) e"

definition sn_line :: "bytes \<Rightarrow> star_encoder \<Rightarrow> star_encoder" where
  "sn_line utf8 e = sn_put [0x0A] (sn_text utf8 e)"

definition sn_feed :: "star_encoder \<Rightarrow> star_encoder" where
  "sn_feed e = sn_put [0x0A] e"

definition sn_feedLines :: "u8 \<Rightarrow> star_encoder \<Rightarrow> star_encoder" where
  "sn_feedLines n e = (if n = 0 then e else sn_put [0x1B, 0x61, n] e)"

text \<open>The loop is the one of the ESC/POS encoder, command for command.\<close>

definition sn_feedDots :: "u16 \<Rightarrow> star_encoder \<Rightarrow> star_encoder" where
  "sn_feedDots dots e = sn_put (feed_dots_bytes dots) e"

definition star_cut_bytes :: "star_cut \<Rightarrow> bytes" where
  "star_cut_bytes mode = [0x1B, 0x64, (if mode = StarFull then 0x02 else 0x03)]"

definition sn_cut :: "star_cut \<Rightarrow> star_encoder \<Rightarrow> star_encoder" where
  "sn_cut mode e = sn_put (star_cut_bytes mode) e"

text \<open>The rows of a raster, one \<^verbatim>\<open>b\<close> block each.\<close>

fun star_rows :: "nat \<Rightarrow> nat \<Rightarrow> bytes \<Rightarrow> bytes" where
  "star_rows bpr 0 data = []"
| "star_rows bpr (Suc n) data =
     [0x62, lo8 bpr, hi8 bpr] @ take bpr data @ star_rows bpr n (drop bpr data)"

definition star_raster_bytes :: "bytes \<Rightarrow> nat \<Rightarrow> nat \<Rightarrow> bytes" where
  "star_raster_bytes data width_dots height_dots =
     (let bpr = (width_dots + 7) div 8
      in if width_dots = 0 \<or> height_dots = 0 then []
         else if length data < bpr * height_dots then []
         else [0x1B, 0x2A, 0x72, 0x41] @ star_rows bpr height_dots data @ [0x1B, 0x2A, 0x72, 0x42])"

definition sn_rasterPacked :: "bytes \<Rightarrow> u32 \<Rightarrow> u32 \<Rightarrow> star_encoder \<Rightarrow> star_encoder" where
  "sn_rasterPacked data width_dots height_dots e =
     sn_put (star_raster_bytes data (unat width_dots) (unat height_dots)) e"

definition sn_rasterGrayscale ::
    "bytes \<Rightarrow> u32 \<Rightarrow> u32 \<Rightarrow> u32 \<Rightarrow> binarization \<Rightarrow> u8 \<Rightarrow> star_encoder \<Rightarrow> encoding_error + star_encoder" where
  "sn_rasterGrayscale gray width height target_width_dots bin threshold e =
     (if width = 0 \<or> height = 0 \<or> target_width_dots = 0 then Inr e
      else case packGrayscale gray width height target_width_dots bin threshold of
             Inl err \<Rightarrow> Inl err
           | Inr p \<Rightarrow> Inr (sn_put (star_raster_bytes (pr_data p) (pr_width_dots p) (pr_height_dots p)) e))"

section \<open>The transcoder\<close>

text \<open>The degradations a result names.\<close>

definition note_page :: string where
  "note_page =
      ''code page selection (ESC t): Star text is transcoded as 7-bit ASCII''"

definition note_drawer :: string where
  "note_drawer =
      ''cash drawer kick (ESC p): Star'' @
      [CHR 0x27] @
      ''s drawer command varies by model and interface and is not established '' @
      ''here''"

definition note_raster :: string where
  "note_raster =
      ''raster image (GS v 0): declined because this profile does not enable '' @
      ''Star raster line mode''"

definition note_qr :: string where
  "note_qr =
      ''QR code / 2D symbol (GS ( k): no Star symbol command is emitted '' @
      ''by this engine''"

definition note_pid :: string where
  "note_pid =
      ''ESC/POS process-ID fence (GS ( H): Star uses its own''"

definition note_gsparen :: string where
  "note_gsparen =
      ''unsupported GS ( command''"

definition note_gsr :: string where
  "note_gsr =
      ''ESC/POS queued status (GS r): Star uses its own fence''"

definition note_asb :: string where
  "note_asb =
      ''ESC/POS automatic status back (GS a): Star spells it ESC RS a and '' @
      ''the job path issues it''"

definition note_dle :: string where
  "note_dle =
      ''ESC/POS realtime status (DLE EOT): not issued on Star''"

definition note_ascii :: string where
  "note_ascii =
      ''non-ASCII characters: the document'' @
      [CHR 0x27] @
      ''s code page has no Star mapping here, so they print as '' @
      [CHR 0x27] @
      ''?'' @
      [CHR 0x27]"
definition declaredDegradations :: "string list" where
  "declaredDegradations =
     [''text is 7-bit ASCII only; Star character-set selection is per model '' @
      ''and is not carried here, so anything above 0x7F prints as '' @
      [CHR 0x27] @
      ''?'' @
      [CHR 0x27],
      ''no barcode or 2D symbol commands: a QR or a barcode in a document '' @
      ''is dropped rather than emitted as an unverified command sequence'',
      ''no cash-drawer kick: Star'' @
      [CHR 0x27] @
      ''s drawer command differs by model and interface and is not established '' @
      ''here, so open_drawer is ignored on a Star profile'',
      ''no NV graphics, no downloaded logos, no macro storage'',
      ''raster is the documented ESC * r A / b / ESC * r B path and is documented-provisional '' @
      ''rather than hardware-confirmed in this repository; StarCapabilities::raster_line_mode '' @
      ''false declines it and reports Unsupported'',
      ''ASB decoding is limited to the ETB counter at block offset 7; the '' @
      ''remaining status bytes are reported raw because only that field '' @
      ''is documented here'',
      ''no realtime status query, so a Star job has no preflight and cannot '' @
      ''refuse before printing on cover-open or paper-out'']"

definition le16 :: "u8 \<Rightarrow> u8 \<Rightarrow> nat" where
  "le16 low high = unat low + 256 * unat high"

record transcode_result =
  tc_bytes :: bytes
  tc_dropped :: "string list"
  tc_unrecognised :: nat

definition add_note :: "string \<Rightarrow> string list \<Rightarrow> string list" where
  "add_note what dropped = (if what \<in> set dropped then dropped else dropped @ [what])"

text \<open>
  What one turn of the loop does at the head of the input: how many bytes it consumes, what
  it emits, what it names as dropped and whether it counts an unrecognised byte; or it
  leaves the loop because a command is cut off.
\<close>

record transcode_move =
  tm_used :: nat
  tm_emit :: bytes
  tm_note :: "string option"
  tm_unrecognised :: nat

definition move :: "nat \<Rightarrow> bytes \<Rightarrow> transcode_move" where
  "move used out = \<lparr>tm_used = used, tm_emit = out, tm_note = None, tm_unrecognised = 0\<rparr>"

definition drop_move :: "nat \<Rightarrow> string \<Rightarrow> transcode_move" where
  "drop_move used what = \<lparr>tm_used = used, tm_emit = [], tm_note = Some what, tm_unrecognised = 0\<rparr>"

definition esc_move :: "bytes \<Rightarrow> transcode_move option" where
  "esc_move d =
     (let second = d ! 1; n = d ! 2
      in if second = 0x40 then Some (move 2 [0x1B, 0x40])
         else if second = 0x74 \<and> length d \<ge> 3 then Some (drop_move 3 note_page)
         else if second = 0x61 \<and> length d \<ge> 3 then Some (move 3 [0x1B, 0x1D, 0x61, n])
         else if second = 0x45 \<and> length d \<ge> 3 then
           Some (move 3 [0x1B, (if n \<noteq> 0 then 0x45 else 0x46)])
         else if second = 0x2D \<and> length d \<ge> 3 then
           Some (move 3 [0x1B, 0x2D, (if n \<noteq> 0 then 0x01 else 0x00)])
         else if second = 0x64 \<and> length d \<ge> 3 then Some (move 3 [0x1B, 0x61, n])
         else if second = 0x4A \<and> length d \<ge> 3 then Some (move 3 [0x1B, 0x4A, n])
         else if second = 0x70 \<and> length d \<ge> 5 then Some (drop_move 5 note_drawer)
         else None)"

datatype gs_outcome = GsMove transcode_move | GsBreak | GsFallThrough

definition gs_move :: "bool \<Rightarrow> bytes \<Rightarrow> gs_outcome" where
  "gs_move raster_line_mode d =
     (let second = d ! 1; n = d ! 2; have3 = (length d \<ge> 3)
      in if second = 0x21 \<and> have3 then
           GsMove (move 3 [0x1B, 0x69, n AND 0x07, drop_bit 4 n AND 0x07])
         else if second = 0x56 \<and> have3 then
           (let len = (if n = 65 \<or> n = 66 then 4 else 3)
            in if length d < len then GsBreak
               else GsMove (move len (star_cut_bytes
                      (if n = 0 \<or> n = 48 \<or> n = 65 then StarFull else StarPartial))))
         else if second = 0x76 \<and> have3 \<and> n = 0x30 then
           (if length d < 8 then GsBreak
            else let bpr = le16 (d ! 4) (d ! 5); rows = le16 (d ! 6) (d ! 7);
                     total = 8 + bpr * rows
                 in if length d < total then GsBreak
                    else if raster_line_mode \<and> bpr > 0 \<and> rows > 0 then
                      GsMove (move total (star_raster_bytes (take (bpr * rows) (drop 8 d)) (bpr * 8) rows))
                    else GsMove (drop_move total note_raster))
         else if second = 0x28 \<and> length d \<ge> 5 then
           (let total = 5 + le16 (d ! 3) (d ! 4)
            in if length d < total then GsBreak
               else GsMove (drop_move total
                      (if n = 0x6B then note_qr else if n = 0x48 then note_pid else note_gsparen)))
         else if second = 0x72 \<and> have3 then GsMove (drop_move 3 note_gsr)
         else if second = 0x61 \<and> have3 then GsMove (drop_move 3 note_asb)
         else GsFallThrough)"

definition byte_move :: "bytes \<Rightarrow> transcode_move" where
  "byte_move d =
     (if hd d = 0x10 \<and> length d \<ge> 3 \<and> d ! 1 = 0x04 then drop_move 3 note_dle
      else if hd d < 0x80 then move 1 [hd d]
      else \<lparr>tm_used = 1, tm_emit = [kUnmappedCodepointFallback], tm_note = Some note_ascii,
            tm_unrecognised = 1\<rparr>)"

text \<open>None where the sources break out of the loop.\<close>

definition transcode_turn :: "bool \<Rightarrow> bytes \<Rightarrow> transcode_move option" where
  "transcode_turn raster_line_mode d =
     (if hd d = 0x1B \<and> length d \<ge> 2 then
        (case esc_move d of Some m \<Rightarrow> Some m | None \<Rightarrow> Some (byte_move d))
      else if hd d = 0x1D \<and> length d \<ge> 2 then
        (case gs_move raster_line_mode d of
           GsMove m \<Rightarrow> Some m | GsBreak \<Rightarrow> None | GsFallThrough \<Rightarrow> Some (byte_move d))
      else Some (byte_move d))"

definition apply_move :: "transcode_move \<Rightarrow> transcode_result \<Rightarrow> transcode_result" where
  "apply_move m r =
     r\<lparr>tc_bytes := tc_bytes r @ tm_emit m,
       tc_dropped := (case tm_note m of None \<Rightarrow> tc_dropped r | Some w \<Rightarrow> add_note w (tc_dropped r)),
       tc_unrecognised := tc_unrecognised r + tm_unrecognised m\<rparr>"

lemma turn_uses: "transcode_turn rl d = Some m \<Longrightarrow> 0 < tm_used m"
  by (auto simp: transcode_turn_def esc_move_def gs_move_def byte_move_def move_def drop_move_def Let_def
      split: if_splits option.splits gs_outcome.splits)

function transcode_go :: "bool \<Rightarrow> bytes \<Rightarrow> transcode_result \<Rightarrow> transcode_result" where
  "transcode_go rl d r =
     (if d = [] then r
      else case transcode_turn rl d of
             Some m \<Rightarrow> transcode_go rl (drop (tm_used m) d) (apply_move m r)
           | None \<Rightarrow> r\<lparr>tc_bytes := tc_bytes r @ d, tc_unrecognised := tc_unrecognised r + length d\<rparr>)"
  by pat_completeness auto
termination
  by (relation "measure (\<lambda>(rl, d, r). length d)") (auto dest: turn_uses)

declare transcode_go.simps [simp del]

definition transcodeFromEscPos :: "bool \<Rightarrow> bytes \<Rightarrow> transcode_result" where
  "transcodeFromEscPos raster_line_mode d =
     transcode_go raster_line_mode d \<lparr>tc_bytes = [], tc_dropped = [], tc_unrecognised = 0\<rparr>"

section \<open>The parser meets the incremental contract\<close>

lemma prefix_mismatch:
  assumes "take k b \<noteq> take (length b) pre"
  shows "take k (b @ d) \<noteq> take (length (b @ d)) pre"
proof
  assume "take k (b @ d) = take (length (b @ d)) pre"
  then have "take (length b) (take k (b @ d)) = take (length b) (take (length (b @ d)) pre)" by simp
  moreover have "take (length b) (take k (b @ d)) = take k (take (length b) (b @ d))"
    by (simp only: take_take min.commute)
  ultimately show False using assms by (simp add: take_take)
qed

lemma sp_step_stable:
  assumes "sp_step False p = (Emitted e, p')"
  shows "sp_step False (sp_push d p) = (Emitted e, sp_push d p')"
proof -
  let ?b = "sp_buffer p"
  let ?n = "unat (sp_asb_block_bytes p)"
  have ne: "?b \<noteq> []" using assms by (auto simp: sp_step_def Let_def)
  have unknown: "sp_unknown (sp_push d p) = (Emitted e, sp_push d p')"
    if "sp_unknown p = (Emitted e, p')"
    using that ne by (auto simp: sp_unknown_def sp_push_def)
  show ?thesis
  proof (cases "hd ?b = 0x1B")
    case esc: True
    show ?thesis
    proof (cases "take 4 ?b = take (length ?b) kEtxPrefix")
      case False
      then have "take 4 (?b @ d) \<noteq> take (length (?b @ d)) kEtxPrefix" by (rule prefix_mismatch)
      then show ?thesis
        using assms ne esc False unknown by (simp add: sp_step_def Let_def sp_push_def)
    next
      case True
      then have "8 \<le> length ?b" using assms ne esc
        by (auto simp: sp_step_def Let_def split: if_splits)
      moreover from this True have "take 4 ?b = kEtxPrefix" by (simp add: kEtxPrefix_def)
      ultimately show ?thesis
        using assms ne esc
        by (auto simp: sp_step_def Let_def sp_push_def nth_append kEtxPrefix_def)
    qed
  next
    case other: False
    then show ?thesis
      using assms ne unknown
      by (auto simp: sp_step_def Let_def sp_push_def nth_append split: if_splits)
  qed
qed

lemma sp_step_NeedMore: "sp_step f p = (NeedMore, p') \<Longrightarrow> \<not> f \<and> p' = p"
  by (auto simp: sp_step_def sp_unknown_def Let_def split: if_splits)

lemma sp_step_Empty: "sp_step f p = (Empty, p') \<Longrightarrow> sp_buffer p = [] \<and> p' = p"
  by (auto simp: sp_step_def sp_unknown_def Let_def split: if_splits)

interpretation sp: incremental_parser sp_step sp_drain sp_buffer sp_push sp_covers
proof (unfold_locales, goal_cases)
  case (6 f s)
  show ?case by (subst sp_drain.simps) (rule refl)
qed (rule sp_step_NeedMore sp_step_Empty sp_step_emits sp_step_stable; assumption
  | simp add: sp_step_def sp_push_def)+

text \<open>Successive reads of one connection.\<close>

fun sp_reads :: "bytes list \<Rightarrow> star_parser \<Rightarrow> star_event list \<times> star_parser" where
  "sp_reads [] p = ([], p)"
| "sp_reads (d # ds) p =
     (let (es, p') = sp_feed d p; (es', p'') = sp_reads ds p' in (es @ es', p''))"

lemma sp_reads_feed_all: "sp_reads ds p = sp.feed_all ds p"
  by (induction ds arbitrary: p) (simp_all add: sp_feed_def split_beta)

lemma sp_fresh_settled: "sp_buffer p = [] \<Longrightarrow> fst (sp_step False p) \<in> {NeedMore, Empty}"
  by (simp add: sp_step_def)

lemma sp_lossless_ws:
  "\<exists>ws. list_all2 sp_covers (fst (sp_feed data p)) ws \<and>
     sp_buffer p @ data = concat ws @ sp_buffer (snd (sp_feed data p))"
  using sp.drain_lossless [of False "sp_push data p"] by (auto simp: sp_feed_def sp_push_def)

lemma etx_step:
  "sp_step f (p\<lparr>sp_buffer := [0x1B, 0x1D, 0x03, 0x01, n1, n2, c, z] @ rest\<rparr>) =
     (Emitted (default_star_event\<lparr>se_kind := SE_EtxAck, se_n1 := n1, se_n2 := n2, se_counter := c\<rparr>),
      p\<lparr>sp_buffer := rest\<rparr>)"
  by (simp add: sp_step_def kEtxPrefix_def numeral_eq_Suc)

text \<open>
  The events of a Star printer's answers do not depend on how the stream is cut into
  reads, and together with the bytes still held they account for every byte that arrived.
\<close>

theorem star_reads_lossless_and_chunk_free:
  assumes "sp_buffer p = []"
  shows "sp_reads ds p = sp_feed (concat ds) p \<and>
    (\<exists>ws. list_all2 sp_covers (fst (sp_reads ds p)) ws \<and>
          concat ds = concat ws @ sp_buffer (snd (sp_reads ds p)))"
proof -
  have eq: "sp_reads ds p = sp_feed (concat ds) p"
    using sp.feed_all_concat [OF sp_fresh_settled [OF assms]]
    by (simp add: sp_reads_feed_all sp_feed_def)
  then show ?thesis using sp_lossless_ws [of "concat ds" p] assms by simp
qed

theorem star_reads_lossless_and_chunk_free_witness:
  "sp_reads [[0x1B, 0x1D], [0x03, 0x01, 0x31], [0x32, 0x05, 0x00]] new_star_parser =
   sp_feed [0x1B, 0x1D, 0x03, 0x01, 0x31, 0x32, 0x05, 0x00] new_star_parser"
  using star_reads_lossless_and_chunk_free
    [of new_star_parser "[[0x1B, 0x1D], [0x03, 0x01, 0x31], [0x32, 0x05, 0x00]]"]
  by (simp add: new_star_parser_def)

lemma sp_etx_in_stream:
  assumes "list_all2 sp_covers es ws" "ev \<in> set es" "se_kind ev = SE_EtxAck"
  shows "\<exists>pre z post. concat ws = pre @ escGsEtxFence (se_n1 ev) (se_n2 ev) @ [se_counter ev, z] @ post"
proof -
  from assms(2) obtain i where "i < length es" "es ! i = ev" by (auto simp: in_set_conv_nth)
  then have i: "i < length ws" "sp_covers ev (ws ! i)"
    using assms(1) by (auto simp: list_all2_conv_all_nth simp del: sp_covers.simps)
  then have w: "length (ws ! i) = 8"
    "take 7 (ws ! i) = escGsEtxFence (se_n1 ev) (se_n2 ev) @ [se_counter ev]"
    using assms(3) by (auto simp: escGsEtxFence_def kEtxPrefix_def)
  have "ws ! i = take 7 (ws ! i) @ [ws ! i ! 7]"
    using w(1) by (metis Suc_numeral add_One_commute lessI numeral_eq_iff order_refl
        semiring_norm(5) take_Suc_conv_app_nth take_all_iff semiring_norm(2,8))
  moreover have "concat ws = concat (take i ws) @ ws ! i @ concat (drop (Suc i) ws)"
    using i by (metis concat.simps(2) concat_append id_take_nth_drop)
  ultimately show ?thesis using w(2) by (metis append.assoc append_Cons append_Nil)
qed

lemma etx_feed:
  assumes "sp_buffer p = []"
  shows "sp_feed (escGsEtxFence n1 n2 @ [c, z]) p =
    ([default_star_event\<lparr>se_kind := SE_EtxAck, se_n1 := n1, se_n2 := n2, se_counter := c\<rparr>], p)"
proof -
  have step: "sp_step False (sp_push (escGsEtxFence n1 n2 @ [c, z]) p) =
      (Emitted (default_star_event\<lparr>se_kind := SE_EtxAck, se_n1 := n1, se_n2 := n2, se_counter := c\<rparr>), p)"
    using etx_step [of False n1 n2 c z "[]" p] assms by (simp add: sp_push_def escGsEtxFence_def)
  have "sp_drain False p = ([], p)"
    using assms by (subst sp_drain.simps) (simp add: sp_step_def)
  then show ?thesis using sp.drain_Emitted [OF step] by (simp add: sp_feed_def)
qed

text \<open>
  A Star fence is acknowledged only by its own echo. An acknowledgement event with two
  identifier bytes is reported only when the fence command with exactly these bytes, followed
  by the reported counter and one more byte, occurs in what the printer sent.
\<close>

theorem star_ack_needs_fence:
  assumes "ev \<in> set (fst (sp_feed data p))" and "se_kind ev = SE_EtxAck"
  shows "\<exists>pre z post. sp_buffer p @ data =
    pre @ escGsEtxFence (se_n1 ev) (se_n2 ev) @ [se_counter ev, z] @ post"
proof -
  obtain ws where "list_all2 sp_covers (fst (sp_feed data p)) ws"
    "sp_buffer p @ data = concat ws @ sp_buffer (snd (sp_feed data p))"
    using sp_lossless_ws by blast
  then show ?thesis using sp_etx_in_stream [OF _ assms] by fastforce
qed

theorem star_ack_needs_fence_witness:
  "\<exists>pre z post. [0x1B, 0x1D, 0x03, 0x01, 0x31, 0x32, 0x05, 0x00] =
    pre @ escGsEtxFence 0x31 0x32 @ [0x05, z] @ post"
proof -
  let ?ev = "default_star_event\<lparr>se_kind := SE_EtxAck, se_n1 := 0x31, se_n2 := 0x32, se_counter := 0x05\<rparr>"
  have "?ev \<in> set (fst (sp_feed [0x1B, 0x1D, 0x03, 0x01, 0x31, 0x32, 0x05, 0x00] new_star_parser))"
    using etx_feed [of new_star_parser "0x31" "0x32" "0x05" 0]
    by (simp add: new_star_parser_def escGsEtxFence_def)
  from star_ack_needs_fence [OF this] show ?thesis
    by (simp add: new_star_parser_def default_star_event_def)
qed

section \<open>The five-bit counter\<close>

text \<open>The place a Star printer puts a count in the status byte.\<close>

definition counter_byte :: "u8 \<Rightarrow> u8" where
  "counter_byte c = push_bit 2 (c AND 0x18) OR push_bit 1 (c AND 0x07)"

lemma all_bytes:
  assumes "list_all P (map word_of_nat [0..<256])"
  shows "P (b :: u8)"
proof -
  have "unat b < 2 ^ LENGTH(8)" by (rule unsigned_less)
  then have "unat b \<in> set [0..<256]" by simp
  then have "word_of_nat (unat b) \<in> set (map word_of_nat [0..<256] :: u8 list)"
    by (metis image_eqI set_map)
  then show ?thesis using assms by (auto simp: list_all_iff simp del: set_upt)
qed

lemma counter_byte_read: "etbCounter (counter_byte c) = c AND 0x1F \<and> counter_byte c AND 0x6E = counter_byte c"
proof -
  have "list_all (\<lambda>c. etbCounter (counter_byte c) = c AND 0x1F \<and> counter_byte c AND 0x6E = counter_byte c)
      (map word_of_nat [0..<256])"
    by code_simp
  from all_bytes [OF this] show ?thesis .
qed

lemma etbCounter_mask: "etbCounter b = etbCounter (b AND 0x6E)"
proof -
  have "(b AND 0x6E) AND 0x60 = b AND 0x60" "(b AND 0x6E) AND 0x0E = b AND 0x0E"
    by (simp_all add: and.assoc)
  then show ?thesis by (simp add: etbCounter_def)
qed

lemma nextEtbCounter_steps: "unat ((nextEtbCounter ^^ k) 0) = k mod 32"
proof (induction k)
  case (Suc k)
  have "list_all (\<lambda>c. unat (nextEtbCounter c) = (unat c + 1) mod 32) (map word_of_nat [0..<256])"
    by code_simp
  from all_bytes [OF this, of "(nextEtbCounter ^^ k) 0"] Suc show ?case by (simp add: mod_Suc)
qed simp

text \<open>
  The counter of the ETB fence. Whatever the other bits of the status byte are, reading a
  byte into which a printer put a count gives the count's low five bits, and after \<^theory_text>\<open>k\<close> fences
  the expected value is \<^theory_text>\<open>k mod 32\<close>, so up to 31 outstanding fences are told apart.
\<close>

theorem etb_counter_round_trip:
  "etbCounter ((other AND 0x91) OR counter_byte c) = c AND 0x1F \<and>
   unat ((nextEtbCounter ^^ k) 0) = k mod 32"
proof -
  have "((other AND 0x91) OR counter_byte c) AND 0x6E = counter_byte c"
    by (simp add: bit.conj_disj_distrib2 and.assoc counter_byte_read)
  then show ?thesis
    using etbCounter_mask [of "(other AND 0x91) OR counter_byte c"]
    by (simp add: counter_byte_read nextEtbCounter_steps)
qed

section \<open>Two printers\<close>

text \<open>
  What a command stream does to the paper, for the commands this engine emits in ESC/POS and
  in Line Mode. A printer model reads the action at the head of a stream and the number of
  bytes it takes; a stream it cannot read has no trace.
\<close>

datatype paper_action =
    PReset | PPage u8 | PAlign u8 | PBold bool | PUnderline u8 | PSize u8 u8
  | PGlyph u8 | PLine | PFeedLines u8 | PFeedDots u8 | PCut bool | PFeedCut bool u8
  | PRaster "bytes list" | PDrawer | PParen u8 | PQueuedStatus | PAutoStatus | PRealtimeStatus

text \<open>The first rows of a packed image.\<close>

fun image_rows :: "nat \<Rightarrow> nat \<Rightarrow> bytes \<Rightarrow> bytes list" where
  "image_rows bpr 0 data = []"
| "image_rows bpr (Suc n) data = take bpr data # image_rows bpr n (drop bpr data)"

definition escpos_gs_next :: "bytes \<Rightarrow> (paper_action \<times> nat) option" where
  "escpos_gs_next d =
     (let c = d ! 1; n = d ! 2; bpr = le16 (d ! 4) (d ! 5); rows = le16 (d ! 6) (d ! 7);
          paren = 5 + le16 (d ! 3) (d ! 4)
      in if length d < 3 then None
         else if c = 0x21 \<and> n AND 0x88 = 0 then Some (PSize (drop_bit 4 n AND 0x07) (n AND 0x07), 3)
         else if c = 0x56 \<and> (n = 0 \<or> n = 48) then Some (PCut True, 3)
         else if c = 0x56 \<and> (n = 1 \<or> n = 49) then Some (PCut False, 3)
         else if c = 0x56 \<and> (n = 65 \<or> n = 66) \<and> 4 \<le> length d then Some (PFeedCut (n = 65) (d ! 3), 4)
         else if c = 0x76 \<and> n = 0x30 \<and> 8 + bpr * rows \<le> length d then
           Some (PRaster (image_rows bpr rows (drop 8 d)), 8 + bpr * rows)
         else if c = 0x28 \<and> 5 \<le> length d \<and> paren \<le> length d then Some (PParen n, paren)
         else if c = 0x72 then Some (PQueuedStatus, 3)
         else if c = 0x61 then Some (PAutoStatus, 3)
         else None)"

definition escpos_esc_next :: "bytes \<Rightarrow> (paper_action \<times> nat) option" where
  "escpos_esc_next d =
     (let c = d ! 1; n = d ! 2
      in if length d < 2 then None
         else if c = 0x40 then Some (PReset, 2)
         else if length d < 3 then None
         else if c = 0x74 then Some (PPage n, 3)
         else if c = 0x61 then Some (PAlign n, 3)
         else if c = 0x45 \<and> n \<le> 1 then Some (PBold (n \<noteq> 0), 3)
         else if c = 0x2D \<and> n \<le> 2 then Some (PUnderline n, 3)
         else if c = 0x64 then Some (PFeedLines n, 3)
         else if c = 0x4A then Some (PFeedDots n, 3)
         else if c = 0x70 \<and> 5 \<le> length d then Some (PDrawer, 5)
         else None)"

definition escpos_next :: "bytes \<Rightarrow> (paper_action \<times> nat) option" where
  "escpos_next d =
     (if hd d = 0x1B then escpos_esc_next d
      else if hd d = 0x1D then escpos_gs_next d
      else if hd d = 0x10 then
        (if 3 \<le> length d \<and> d ! 1 = 0x04 then Some (PRealtimeStatus, 3) else None)
      else if hd d = 0x0A then Some (PLine, 1)
      else if 0x20 \<le> hd d then Some (PGlyph (hd d), 1)
      else None)"

text \<open>The \<^verbatim>\<open>b\<close> blocks of a Star raster up to its end command, and the bytes they take.\<close>

fun read_rows :: "bytes \<Rightarrow> (bytes list \<times> nat) option" where
  "read_rows (b # l # h # r) =
     (if b = 0x62 \<and> le16 l h \<le> length r then
        map_option (\<lambda>(rows, k). (take (le16 l h) r # rows, k + 3 + le16 l h)) (read_rows (drop (le16 l h) r))
      else if b = 0x1B \<and> l = 0x2A \<and> h = 0x72 \<and> r \<noteq> [] \<and> hd r = 0x42 then Some ([], 4)
      else None)"
| "read_rows _ = None"

definition star_next :: "bytes \<Rightarrow> (paper_action \<times> nat) option" where
  "star_next d =
     (let c = d ! 1; n = d ! 2
      in if hd d = 0x1B then
           (if length d < 2 then None
            else if c = 0x40 then Some (PReset, 2)
            else if c = 0x45 then Some (PBold True, 2)
            else if c = 0x46 then Some (PBold False, 2)
            else if length d < 3 then None
            else if c = 0x2D \<and> n \<le> 1 then Some (PUnderline n, 3)
            else if c = 0x61 then Some (PFeedLines n, 3)
            else if c = 0x4A then Some (PFeedDots n, 3)
            else if c = 0x64 \<and> (n = 2 \<or> n = 3) then Some (PCut (n = 2), 3)
            else if length d < 4 then None
            else if c = 0x1D \<and> n = 0x61 then Some (PAlign (d ! 3), 4)
            else if c = 0x69 then Some (PSize (d ! 3) n, 4)
            else if c = 0x2A \<and> n = 0x72 \<and> d ! 3 = 0x41 then
              map_option (\<lambda>(rows, k). (PRaster rows, 4 + k)) (read_rows (drop 4 d))
            else None)
         else if hd d = 0x0A then Some (PLine, 1)
         else if 0x20 \<le> hd d \<and> hd d < 0x80 then Some (PGlyph (hd d), 1)
         else None)"

text \<open>The actions of a whole stream.\<close>

function trace_of :: "(bytes \<Rightarrow> (paper_action \<times> nat) option) \<Rightarrow> bytes \<Rightarrow> paper_action list option" where
  "trace_of next d =
     (if d = [] then Some []
      else case next d of
             None \<Rightarrow> None
           | Some (a, k) \<Rightarrow> if k = 0 then None else map_option ((#) a) (trace_of next (drop k d)))"
  by pat_completeness auto
termination by (relation "measure (\<lambda>(next, d). length d)") auto

declare trace_of.simps [simp del]

text \<open>How an ESC/POS action comes out on a Star printer, and what is named as lost.\<close>

fun rendering :: "bool \<Rightarrow> paper_action \<Rightarrow> paper_action list" where
  "rendering rl (PPage n) = []"
| "rendering rl (PUnderline n) = [PUnderline (if n \<noteq> 0 then 1 else 0)]"
| "rendering rl (PGlyph b) = [PGlyph (if b < 0x80 then b else kUnmappedCodepointFallback)]"
| "rendering rl (PFeedCut full n) = [PCut full]"
| "rendering rl (PRaster rows) = (if rl \<and> rows \<noteq> [] \<and> hd rows \<noteq> [] then [PRaster rows] else [])"
| "rendering rl PDrawer = []"
| "rendering rl (PParen n) = []"
| "rendering rl PQueuedStatus = []"
| "rendering rl PAutoStatus = []"
| "rendering rl PRealtimeStatus = []"
| "rendering rl a = [a]"

fun loss :: "bool \<Rightarrow> paper_action \<Rightarrow> string option" where
  "loss rl (PPage n) = Some note_page"
| "loss rl (PGlyph b) = (if b < 0x80 then None else Some note_ascii)"
| "loss rl (PRaster rows) = (if rl \<and> rows \<noteq> [] \<and> hd rows \<noteq> [] then None else Some note_raster)"
| "loss rl PDrawer = Some note_drawer"
| "loss rl (PParen n) = Some (if n = 0x6B then note_qr else if n = 0x48 then note_pid else note_gsparen)"
| "loss rl PQueuedStatus = Some note_gsr"
| "loss rl PAutoStatus = Some note_asb"
| "loss rl PRealtimeStatus = Some note_dle"
| "loss rl a = None"

fun foreign_glyph :: "paper_action \<Rightarrow> bool" where
  "foreign_glyph (PGlyph b) = (0x80 \<le> b)"
| "foreign_glyph a = False"

section \<open>The transcoder carries the paper actions\<close>

definition emits :: "bytes \<Rightarrow> paper_action list \<Rightarrow> bool" where
  "emits bs as \<longleftrightarrow> (\<forall>rest. trace_of star_next (bs @ rest) = map_option ((@) as) (trace_of star_next rest))"

lemma emits_Nil: "emits [] []"
proof -
  have "map_option ((@) []) x = x" for x :: "paper_action list option" by (cases x) simp_all
  then show ?thesis by (simp add: emits_def)
qed

lemma emits_one:
  assumes "bs \<noteq> []" "\<And>rest. star_next (bs @ rest) = Some (a, length bs)"
  shows "emits bs [a]"
proof -
  have "(#) a = (@) [a]" by auto
  then show ?thesis using assms by (simp add: emits_def trace_of.simps [of _ "bs @ _"])
qed

lemma emits_commands:
  "emits [0x1B, 0x40] [PReset]"
  "emits [0x1B, 0x45] [PBold True]"
  "emits [0x1B, 0x46] [PBold False]"
  "emits [0x1B, 0x2D, 0] [PUnderline 0]"
  "emits [0x1B, 0x2D, 1] [PUnderline 1]"
  "emits [0x1B, 0x61, n] [PFeedLines n]"
  "emits [0x1B, 0x4A, n] [PFeedDots n]"
  "emits [0x1B, 0x64, 2] [PCut True]"
  "emits [0x1B, 0x64, 3] [PCut False]"
  "emits [0x1B, 0x1D, 0x61, n] [PAlign n]"
  "emits [0x1B, 0x69, h, w] [PSize w h]"
  "emits [0x0A] [PLine]"
  "emits [0x3F] [PGlyph 0x3F]"
  by (rule emits_one; simp add: star_next_def)+

lemma emits_glyph: "0x20 \<le> b \<Longrightarrow> b < 0x80 \<Longrightarrow> emits [b] [PGlyph b]"
proof (rule emits_one)
  fix rest
  assume "0x20 \<le> b" "b < 0x80"
  moreover from this have "b \<noteq> 0x1B" "b \<noteq> 0x0A" by (auto simp: word_le_nat_alt)
  ultimately show "star_next ([b] @ rest) = Some (PGlyph b, length [b])"
    by (simp add: star_next_def Let_def)
qed simp

lemma le16_lo8_hi8: "n < 65536 \<Longrightarrow> le16 (lo8 n) (hi8 n) = n"
  by (simp add: le16_def lo8_hi8)

lemma le16_less: "le16 l h < 65536"
proof -
  have "unat l < 2 ^ LENGTH(8)" "unat h < 2 ^ LENGTH(8)" by (rule unsigned_less)+
  then show ?thesis by (simp add: le16_def)
qed

lemma read_rows_star_rows:
  assumes "bpr < 65536" "bpr * n \<le> length data"
  shows "read_rows (star_rows bpr n data @ [0x1B, 0x2A, 0x72, 0x42] @ rest) =
    Some (image_rows bpr n data, length (star_rows bpr n data) + 4)"
  using assms(2)
proof (induction n arbitrary: data)
  case (Suc n)
  then have len: "min (length data) bpr = bpr" and le: "bpr * n \<le> length (drop bpr data)" by auto
  show ?case using Suc.IH [OF le] len assms(1) by (simp add: le16_lo8_hi8)
qed simp

lemma image_rows_take: "image_rows bpr n (take (bpr * n) data) = image_rows bpr n data"
proof (induction n arbitrary: data)
  case (Suc n)
  have "drop bpr (take (bpr * Suc n) data) = take (bpr * n) (drop bpr data)"
    by (simp add: drop_take)
  then show ?case using Suc by (simp add: take_take min.absorb1)
qed simp

lemma emits_raster:
  assumes "0 < bpr" "bpr < 65536" "0 < n" "bpr * n \<le> length data"
  shows "emits (star_raster_bytes (take (bpr * n) data) (bpr * 8) n) [PRaster (image_rows bpr n data)]"
proof -
  let ?t = "take (bpr * n) data"
  have w: "(bpr * 8 + 7) div 8 = bpr" by simp
  have le: "bpr * n \<le> length ?t" using assms(4) by simp
  have bytes: "star_raster_bytes ?t (bpr * 8) n =
      [0x1B, 0x2A, 0x72, 0x41] @ star_rows bpr n ?t @ [0x1B, 0x2A, 0x72, 0x42]"
    using assms w by (simp add: star_raster_bytes_def Let_def min_def)
  show ?thesis
    unfolding bytes
    using read_rows_star_rows [OF assms(2) le] image_rows_take [of bpr n data]
    by (intro emits_one) (simp_all add: star_next_def)
qed

definition turn_ok :: "bool \<Rightarrow> bytes \<Rightarrow> paper_action \<Rightarrow> nat \<Rightarrow> bool" where
  "turn_ok rl d a k \<longleftrightarrow>
     (case transcode_turn rl d of
        None \<Rightarrow> False
      | Some m \<Rightarrow> tm_used m = k \<and> tm_note m = loss rl a \<and>
          tm_unrecognised m = (if foreign_glyph a then 1 else 0) \<and> emits (tm_emit m) (rendering rl a))"

lemma le1_cases: "(n :: u8) \<le> 1 \<longleftrightarrow> n = 0 \<or> n = 1"
  by (auto simp: word_le_nat_alt word_unat_eq_iff)

lemma turn_esc:
  assumes "escpos_esc_next d = Some (a, k)" "hd d = 0x1B"
  shows "turn_ok rl d a k"
  using assms
  by (auto simp: escpos_esc_next_def turn_ok_def transcode_turn_def esc_move_def move_def drop_move_def
      Let_def emits_Nil emits_commands le1_cases split: if_splits)

lemma image_rows_shape: "image_rows bpr n d \<noteq> [] \<longleftrightarrow> 0 < n"
  by (cases n) simp_all

lemma image_rows_width:
  "0 < n \<Longrightarrow> bpr * n \<le> length d \<Longrightarrow> hd (image_rows bpr n d) \<noteq> [] \<longleftrightarrow> 0 < bpr"
  by (cases n) auto

lemma turn_gs:
  assumes "escpos_gs_next d = Some (a, k)" "hd d = 0x1D"
  shows "turn_ok rl d a k"
proof -
  let ?c = "d ! 1" and ?n = "d ! 2"
  have len: "3 \<le> length d" using assms(1) by (simp add: escpos_gs_next_def Let_def split: if_splits)
  show ?thesis
  proof (cases "?c = 0x76")
    case True
    let ?bpr = "le16 (d ! 4) (d ! 5)" and ?rows = "le16 (d ! 6) (d ! 7)"
    from True assms have r: "?n = 0x30" "8 + ?bpr * ?rows \<le> length d"
      "a = PRaster (image_rows ?bpr ?rows (drop 8 d))" "k = 8 + ?bpr * ?rows"
      by (auto simp: escpos_gs_next_def Let_def split: if_splits)
    then have le: "?bpr * ?rows \<le> length (drop 8 d)" by simp
    show ?thesis
      using True r len assms(2) emits_raster [OF _ le16_less _ le] image_rows_width [OF _ le]
      by (auto simp: turn_ok_def transcode_turn_def gs_move_def move_def drop_move_def
          Let_def emits_Nil image_rows_shape)
  next
    case False
    with assms len show ?thesis
      by (auto simp: escpos_gs_next_def turn_ok_def transcode_turn_def gs_move_def move_def drop_move_def
          star_cut_bytes_def Let_def emits_Nil emits_commands split: if_splits)
  qed
qed

lemma turn_next:
  assumes "escpos_next d = Some (a, k)"
  shows "turn_ok rl d a k"
proof -
  consider (esc) "hd d = 0x1B" | (gs) "hd d = 0x1D" | (other) "hd d \<noteq> 0x1B" "hd d \<noteq> 0x1D" by blast
  then show ?thesis
  proof cases
    case esc
    with assms show ?thesis by (intro turn_esc) (simp_all add: escpos_next_def)
  next
    case gs
    with assms show ?thesis by (intro turn_gs) (simp_all add: escpos_next_def)
  next
    case other
    with assms show ?thesis
      by (auto simp: escpos_next_def turn_ok_def transcode_turn_def byte_move_def move_def drop_move_def
          emits_Nil emits_commands emits_glyph kUnmappedCodepointFallback_def not_less split: if_splits)
  qed
qed


lemma emits_append: "emits xs as \<Longrightarrow> emits ys bs \<Longrightarrow> emits (xs @ ys) (as @ bs)"
proof -
  have "(\<lambda>x. as @ bs @ x) = (@) (as @ bs)" by auto
  then show "emits xs as \<Longrightarrow> emits ys bs \<Longrightarrow> ?thesis"
    by (simp add: emits_def option.map_comp comp_def)
qed

text \<open>One result carries the actions \<^theory_text>\<open>as\<close> beyond another.\<close>

definition carries :: "bool \<Rightarrow> paper_action list \<Rightarrow> transcode_result \<Rightarrow> transcode_result \<Rightarrow> bool" where
  "carries rl as r r' \<longleftrightarrow>
     (\<exists>out. tc_bytes r' = tc_bytes r @ out \<and> emits out (concat (map (rendering rl) as))) \<and>
     set (tc_dropped r') = set (tc_dropped r) \<union> set (List.map_filter (loss rl) as) \<and>
     tc_unrecognised r' = tc_unrecognised r + length (filter foreign_glyph as)"

lemma carries_step:
  assumes "turn_ok rl d a k" "transcode_turn rl d = Some m" "carries rl as (apply_move m r) r'"
  shows "carries rl (a # as) r r'"
proof -
  have m: "tm_note m = loss rl a" "tm_unrecognised m = (if foreign_glyph a then 1 else 0)"
    "emits (tm_emit m) (rendering rl a)"
    using assms(1,2) by (simp_all add: turn_ok_def)
  obtain out where out: "tc_bytes r' = tc_bytes r @ tm_emit m @ out"
    "emits out (concat (map (rendering rl) as))"
    using assms(3) by (auto simp: carries_def apply_move_def)
  have bytes: "\<exists>out. tc_bytes r' = tc_bytes r @ out \<and> emits out (concat (map (rendering rl) (a # as)))"
    using out emits_append [OF m(3) out(2)] by (intro exI [of _ "tm_emit m @ out"]) simp
  have "set (tc_dropped (apply_move m r)) = set (tc_dropped r) \<union> set (List.map_filter (loss rl) [a])"
    by (cases "loss rl a") (auto simp: apply_move_def m(1) add_note_def List.map_filter_def)
  then have "set (tc_dropped r') = set (tc_dropped r) \<union> set (List.map_filter (loss rl) (a # as))"
    using assms(3) by (auto simp: carries_def List.map_filter_def split: if_splits)
  moreover have "tc_unrecognised r' = tc_unrecognised r + length (filter foreign_glyph (a # as))"
    using assms(3) m(2) by (simp add: carries_def apply_move_def)
  ultimately show ?thesis using bytes by (simp add: carries_def)
qed

lemma transcode_carries:
  "trace_of escpos_next d = Some as \<Longrightarrow> carries rl as r (transcode_go rl d r)"
proof (induction "length d" arbitrary: d as r rule: less_induct)
  case less
  show ?case
  proof (cases "d = []")
    case True
    with less.prems show ?thesis
      by (simp add: trace_of.simps transcode_go.simps carries_def emits_Nil List.map_filter_def)
  next
    case False
    then obtain a k as' where n: "escpos_next d = Some (a, k)" "0 < k"
      "trace_of escpos_next (drop k d) = Some as'" "as = a # as'"
      using less.prems by (subst (asm) trace_of.simps) (auto split: option.splits if_splits)
    from turn_next [OF n(1), of rl] obtain m where m: "transcode_turn rl d = Some m" "tm_used m = k"
      by (auto simp: turn_ok_def split: option.splits)
    have "carries rl as' (apply_move m r) (transcode_go rl (drop k d) (apply_move m r))"
      using less.hyps [OF _ n(3)] n(2) False by simp
    from carries_step [OF turn_next [OF n(1)] m(1) this]
    show ?thesis using False m n(4) by (simp add: transcode_go.simps [of rl d])
  qed
qed

text \<open>
  C15: the transcoder keeps the document. For every ESC/POS stream a printer can read, the
  Line Mode bytes make a Star printer perform the same paper actions in the same order, each
  in its Star rendering; the names reported as dropped are exactly those of the actions that
  are lost, and the unrecognised count is the number of glyphs above 7-bit ASCII.
\<close>

theorem transcoder_refines_document:
  assumes "trace_of escpos_next d = Some acts"
  shows "trace_of star_next (tc_bytes (transcodeFromEscPos rl d)) =
      Some (concat (map (rendering rl) acts)) \<and>
    set (tc_dropped (transcodeFromEscPos rl d)) = set (List.map_filter (loss rl) acts) \<and>
    tc_unrecognised (transcodeFromEscPos rl d) = length (filter foreign_glyph acts)"
proof -
  let ?z = "\<lparr>tc_bytes = [], tc_dropped = [], tc_unrecognised = 0\<rparr>"
  have c: "carries rl acts ?z (transcodeFromEscPos rl d)"
    unfolding transcodeFromEscPos_def by (rule transcode_carries [OF assms])
  then obtain out where out: "tc_bytes (transcodeFromEscPos rl d) = out"
    "emits out (concat (map (rendering rl) acts))" by (auto simp: carries_def)
  then have "trace_of star_next (out @ []) = map_option ((@) (concat (map (rendering rl) acts))) (trace_of star_next [])"
    unfolding emits_def by blast
  then show ?thesis using c out(1) by (simp add: carries_def trace_of.simps)
qed

text \<open>Emphasis, a wide line, three lines of feed and a cut with feed.\<close>

definition sample_document :: bytes where
  "sample_document = [0x1B, 0x40, 0x1B, 0x45, 0x01, 0x1D, 0x21, 0x10, 0x41, 0xE1, 0x0A,
     0x1B, 0x64, 0x03, 0x1D, 0x76, 0x30, 0x00, 0x01, 0x00, 0x02, 0x00, 0x81, 0x7E,
     0x1D, 0x56, 0x41, 0x10]"

theorem transcoder_refines_document_witness:
  "trace_of star_next (tc_bytes (transcodeFromEscPos True sample_document)) =
     Some [PReset, PBold True, PSize 1 0, PGlyph 0x41, PGlyph 0x3F, PLine, PFeedLines 3,
           PRaster [[0x81], [0x7E]], PCut True]"
proof -
  have "trace_of escpos_next sample_document =
    Some [PReset, PBold True, PSize 1 0, PGlyph 0x41, PGlyph 0xE1, PLine, PFeedLines 3,
          PRaster [[0x81], [0x7E]], PFeedCut True 0x10]"
    by code_simp
  from transcoder_refines_document [OF this, of True] show ?thesis
    by (simp add: kUnmappedCodepointFallback_def)
qed

end
