(* ===== verification/Registrations.thy ===== *)
theory Registrations imports
  PD_Types
  Escpos_Encoder
begin

text \<open>
  \<^verbatim>\<open>core/include/printerdriver/registrations.hpp\<close> and \<^verbatim>\<open>core/src/registrations.cpp\<close>:
  the add-only registries through which an embedder supplies a completion method, a probe
  step, a drawer kick, a formatter or a block handler. Callbacks are functions of the model,
  None where the \<^verbatim>\<open>std::function\<close> is empty. A refused registration is the left case of a sum.
  The five registries interpret one contract: names stay unique and a registered entry is
  never replaced.
\<close>

section \<open>What can be registered\<close>

datatype custom_match = CM_Matched string | CM_NotMine | CM_NeedMore

record completion_method =
  cm_id :: string
  cm_fence_bytes :: "(string \<Rightarrow> bytes) option"
  cm_matcher :: "(bytes \<Rightarrow> custom_match) option"
  cm_grade :: confidence_grade
  cm_authority :: completion_authority
  cm_method_name :: string

definition cm_valid :: "completion_method \<Rightarrow> bool" where
  "cm_valid m \<longleftrightarrow> cm_id m \<noteq> [] \<and> cm_fence_bytes m \<noteq> None \<and> cm_matcher m \<noteq> None \<and> cm_method_name m \<noteq> []"

record probe_finding =
  pf_answered :: bool
  pf_label :: string

record probe_step =
  ps_id :: string
  ps_request_bytes :: bytes
  ps_classify :: "(bytes \<Rightarrow> probe_finding) option"

definition ps_valid :: "probe_step \<Rightarrow> bool" where
  "ps_valid s \<longleftrightarrow> ps_id s \<noteq> [] \<and> ps_classify s \<noteq> None"

record drawer_kick_reg =
  kr_id :: string
  kr_kick_bytes :: "(u8 \<Rightarrow> u16 \<Rightarrow> bytes) option"
  kr_status_request :: "bytes option"
  kr_status_parse :: "(bytes \<Rightarrow> bool option) option"

definition kr_valid :: "drawer_kick_reg \<Rightarrow> bool" where
  "kr_valid k \<longleftrightarrow> kr_id k \<noteq> [] \<and> kr_kick_bytes k \<noteq> None"

definition kr_readable :: "drawer_kick_reg \<Rightarrow> bool" where
  "kr_readable k \<longleftrightarrow> kr_status_request k \<noteq> None \<and> kr_status_parse k \<noteq> None"

record formatter_reg =
  fr_name :: string
  fr_fn :: "(string \<Rightarrow> string \<Rightarrow> string \<Rightarrow> string option) option"

definition fr_valid :: "formatter_reg \<Rightarrow> bool" where
  "fr_valid f \<longleftrightarrow> fr_name f \<noteq> [] \<and> fr_fn f \<noteq> None"

record block_render_result =
  br_ok :: bool
  br_bytes :: bytes
  br_requested :: string
  br_delivered :: string
  br_detail :: string

record block_handler_reg =
  bh_kind :: string
  bh_fn :: "(string \<Rightarrow> string \<Rightarrow> block_render_result) option"

definition bh_valid :: "block_handler_reg \<Rightarrow> bool" where
  "bh_valid h \<longleftrightarrow> bh_kind h \<noteq> [] \<and> bh_fn h \<noteq> None"

record registrations =
  rs_completions :: "completion_method list"
  rs_probe_steps :: "probe_step list"
  rs_drawer_kicks :: "drawer_kick_reg list"
  rs_formatters :: "formatter_reg list"
  rs_block_handlers :: "block_handler_reg list"

definition no_registrations :: registrations where
  "no_registrations =
     \<lparr>rs_completions = [], rs_probe_steps = [], rs_drawer_kicks = [], rs_formatters = [],
      rs_block_handlers = []\<rparr>"

section \<open>The checks\<close>

definition isValidRegistrationId :: "string \<Rightarrow> bool" where
  "isValidRegistrationId i \<longleftrightarrow>
     i \<noteq> [] \<and> list_all (\<lambda>c. \<not> (byte_of c \<le> 0x20 \<or> byte_of c = 0x7F)) i"

definition isNonPrintingRequest :: "bytes \<Rightarrow> bool" where
  "isNonPrintingRequest bs \<longleftrightarrow>
     list_all (\<lambda>b. \<not> (b = 0x0A \<or> (0x20 \<le> b \<and> b \<le> 0x7E))) bs"

text \<open>\<^verbatim>\<open>idTaken\<close> and the loops that look a name up.\<close>

definition id_taken :: "('e \<Rightarrow> string) \<Rightarrow> 'e list \<Rightarrow> string \<Rightarrow> bool" where
  "id_taken name es i \<longleftrightarrow> list_ex (\<lambda>e. name e = i) es"

fun lookup_id :: "('e \<Rightarrow> string) \<Rightarrow> 'e list \<Rightarrow> string \<Rightarrow> 'e option" where
  "lookup_id name [] i = None"
| "lookup_id name (e # es) i = (if name e = i then Some e else lookup_id name es i)"

section \<open>The operations\<close>

definition quoted :: "string \<Rightarrow> string \<Rightarrow> string \<Rightarrow> string" where
  "quoted before name after = before @ [CHR 0x22] @ name @ [CHR 0x22] @ after"

definition named_method :: "completion_method \<Rightarrow> completion_method" where
  "named_method m = (if cm_method_name m = [] then m\<lparr>cm_method_name := cm_id m\<rparr> else m)"

definition addCompletionMethod :: "completion_method \<Rightarrow> registrations \<Rightarrow> string + registrations" where
  "addCompletionMethod m r =
     (if \<not> isValidRegistrationId (cm_id m) then
        Inl ''completion method id must be a non-empty namespaced token''
      else let m' = named_method m
           in if \<not> cm_valid m' then
                Inl (quoted ''completion method '' (cm_id m') '' needs both a fence-bytes and a matcher callback'')
              else if id_taken cm_id (rs_completions r) (cm_id m') then
                Inl (''completion method id already registered: '' @ cm_id m')
              else Inr (r\<lparr>rs_completions := rs_completions r @ [m']\<rparr>))"

definition completionMethod :: "string \<Rightarrow> registrations \<Rightarrow> completion_method option" where
  "completionMethod i r = lookup_id cm_id (rs_completions r) i"

definition addProbeStep :: "probe_step \<Rightarrow> registrations \<Rightarrow> string + registrations" where
  "addProbeStep s r =
     (if \<not> isValidRegistrationId (ps_id s) then Inl ''probe step id must be a non-empty namespaced token''
      else if \<not> ps_valid s then Inl (quoted ''probe step '' (ps_id s) '' needs a classify callback'')
      else if \<not> isNonPrintingRequest (ps_request_bytes s) then
        Inl (quoted ''probe step '' (ps_id s)
          ('' request bytes contain printable data; a probe step must be '' @
           ''non-printing (no 0x20-0x7E and no line feed)''))
      else if id_taken ps_id (rs_probe_steps r) (ps_id s) then
        Inl (''probe step id already registered: '' @ ps_id s)
      else Inr (r\<lparr>rs_probe_steps := rs_probe_steps r @ [s]\<rparr>))"

definition probeSteps :: "registrations \<Rightarrow> probe_step list" where
  "probeSteps r = rs_probe_steps r"

definition addDrawerKick :: "drawer_kick_reg \<Rightarrow> registrations \<Rightarrow> string + registrations" where
  "addDrawerKick k r =
     (if \<not> isValidRegistrationId (kr_id k) then Inl ''drawer kick id must be a non-empty namespaced token''
      else if \<not> kr_valid k then Inl (quoted ''drawer kick '' (kr_id k) '' needs a kick-bytes callback'')
      else if id_taken kr_id (rs_drawer_kicks r) (kr_id k) then
        Inl (''drawer kick id already registered: '' @ kr_id k)
      else Inr (r\<lparr>rs_drawer_kicks := rs_drawer_kicks r @ [k]\<rparr>))"

definition reg_drawerKick :: "string \<Rightarrow> registrations \<Rightarrow> drawer_kick_reg option" where
  "reg_drawerKick i r = lookup_id kr_id (rs_drawer_kicks r) i"

definition addFormatter :: "formatter_reg \<Rightarrow> registrations \<Rightarrow> string + registrations" where
  "addFormatter f r =
     (if fr_name f = [] then Inl ''formatter name must be non-empty''
      else if \<not> fr_valid f then Inl (quoted ''formatter '' (fr_name f) '' needs a callback'')
      else if id_taken fr_name (rs_formatters r) (fr_name f) then
        Inl (''formatter name already registered: '' @ fr_name f)
      else Inr (r\<lparr>rs_formatters := rs_formatters r @ [f]\<rparr>))"

definition hasFormatter :: "string \<Rightarrow> registrations \<Rightarrow> bool" where
  "hasFormatter name r = id_taken fr_name (rs_formatters r) name"

definition reg_format :: "string \<Rightarrow> string \<Rightarrow> string \<Rightarrow> string \<Rightarrow> registrations \<Rightarrow> string option" where
  "reg_format name text args loc r =
     (case lookup_id fr_name (rs_formatters r) name of
        None \<Rightarrow> None
      | Some f \<Rightarrow> (case fr_fn f of None \<Rightarrow> None | Some fn \<Rightarrow> fn text args loc))"

definition addBlockHandler :: "block_handler_reg \<Rightarrow> registrations \<Rightarrow> string + registrations" where
  "addBlockHandler h r =
     (if bh_kind h = [] then Inl ''block handler kind must be non-empty''
      else if \<not> bh_valid h then Inl (quoted ''block handler '' (bh_kind h) '' needs a callback'')
      else if id_taken bh_kind (rs_block_handlers r) (bh_kind h) then
        Inl (''block handler kind already registered: '' @ bh_kind h)
      else Inr (r\<lparr>rs_block_handlers := rs_block_handlers r @ [h]\<rparr>))"

definition hasBlockHandler :: "string \<Rightarrow> registrations \<Rightarrow> bool" where
  "hasBlockHandler kind r = id_taken bh_kind (rs_block_handlers r) kind"

definition renderBlock :: "string \<Rightarrow> string \<Rightarrow> string \<Rightarrow> registrations \<Rightarrow> block_render_result option" where
  "renderBlock kind block_json profile_json r =
     (case lookup_id bh_kind (rs_block_handlers r) kind of
        None \<Rightarrow> None
      | Some h \<Rightarrow> (case bh_fn h of None \<Rightarrow> None | Some fn \<Rightarrow> Some (fn block_json profile_json)))"

section \<open>The contract of a registry\<close>

lemma id_taken_set: "id_taken name es i \<longleftrightarrow> i \<in> name ` set es"
  by (auto simp: id_taken_def list_ex_iff)

lemma lookup_id_append:
  "lookup_id name (es @ fs) i = (case lookup_id name es i of None \<Rightarrow> lookup_id name fs i | r \<Rightarrow> r)"
  by (induction es) simp_all

lemma lookup_id_None: "lookup_id name es i = None \<longleftrightarrow> \<not> id_taken name es i"
  by (induction es) (auto simp: id_taken_def)

locale registry =
  fixes entries :: "'r \<Rightarrow> 'e list"
    and name :: "'e \<Rightarrow> string"
    and acceptable :: "'e \<Rightarrow> bool"
    and norm :: "'e \<Rightarrow> 'e"
    and add :: "'e \<Rightarrow> 'r \<Rightarrow> string + 'r"
  assumes add_Inr:
      "add e r = Inr r' \<Longrightarrow>
         acceptable e \<and> \<not> id_taken name (entries r) (name e) \<and> entries r' = entries r @ [norm e]"
    and add_accepts:
      "acceptable e \<Longrightarrow> \<not> id_taken name (entries r) (name e) \<Longrightarrow> \<exists>r'. add e r = Inr r'"
    and norm_name: "name (norm e) = name e"
    and norm_acceptable: "acceptable e \<Longrightarrow> acceptable (norm e)"
begin

lemma lookup_after_add:
  "add e r = Inr r' \<Longrightarrow>
   lookup_id name (entries r') i =
     (if i = name e then Some (norm e) else lookup_id name (entries r) i)"
  using add_Inr [of e r r'] norm_name [of e]
  by (auto simp: lookup_id_append lookup_id_None [symmetric] split: option.split)

lemma add_again: "add e r = Inr r' \<Longrightarrow> name e' = name e \<Longrightarrow> \<exists>msg. add e' r' = Inl msg"
  using add_Inr [of e r r'] add_Inr [of e' r'] norm_name [of e]
  by (cases "add e' r'") (auto simp: id_taken_set)

definition sound :: "'r \<Rightarrow> bool" where
  "sound r \<longleftrightarrow> distinct (map name (entries r)) \<and> list_all acceptable (entries r)"

lemma sound_add: "add e r = Inr r' \<Longrightarrow> sound r \<Longrightarrow> sound r'"
  using add_Inr [of e r r'] norm_name [of e] norm_acceptable [of e]
  by (auto simp: sound_def id_taken_set)

lemma sound_frame: "entries r' = entries r \<Longrightarrow> sound r \<Longrightarrow> sound r'"
  by (simp add: sound_def)

end

definition cm_acceptable :: "completion_method \<Rightarrow> bool" where
  "cm_acceptable m \<longleftrightarrow> isValidRegistrationId (cm_id m) \<and> cm_fence_bytes m \<noteq> None \<and> cm_matcher m \<noteq> None"

definition ps_acceptable :: "probe_step \<Rightarrow> bool" where
  "ps_acceptable s \<longleftrightarrow>
     isValidRegistrationId (ps_id s) \<and> ps_classify s \<noteq> None \<and> isNonPrintingRequest (ps_request_bytes s)"

definition kr_acceptable :: "drawer_kick_reg \<Rightarrow> bool" where
  "kr_acceptable k \<longleftrightarrow> isValidRegistrationId (kr_id k) \<and> kr_kick_bytes k \<noteq> None"

lemma valid_id_nonempty: "isValidRegistrationId i \<Longrightarrow> i \<noteq> []"
  by (simp add: isValidRegistrationId_def)

lemmas registry_defs = addCompletionMethod_def addProbeStep_def addDrawerKick_def addFormatter_def
  addBlockHandler_def cm_acceptable_def ps_acceptable_def kr_acceptable_def cm_valid_def ps_valid_def
  kr_valid_def named_method_def Let_def

interpretation completions:
  registry rs_completions cm_id cm_acceptable named_method addCompletionMethod
  by unfold_locales (auto simp: registry_defs dest: valid_id_nonempty split: if_splits)

interpretation probe_steps: registry rs_probe_steps ps_id ps_acceptable "\<lambda>s. s" addProbeStep
  by unfold_locales (auto simp: registry_defs dest: valid_id_nonempty split: if_splits)

interpretation drawer_kicks: registry rs_drawer_kicks kr_id kr_acceptable "\<lambda>k. k" addDrawerKick
  by unfold_locales (auto simp: registry_defs dest: valid_id_nonempty split: if_splits)

interpretation formatters: registry rs_formatters fr_name fr_valid "\<lambda>f. f" addFormatter
  by unfold_locales (auto simp: registry_defs fr_valid_def split: if_splits)

interpretation block_handlers: registry rs_block_handlers bh_kind bh_valid "\<lambda>h. h" addBlockHandler
  by unfold_locales (auto simp: registry_defs bh_valid_def split: if_splits)

section \<open>Properties of the registries\<close>

datatype registration =
    RegCompletion completion_method | RegProbe probe_step | RegKick drawer_kick_reg
  | RegFormatter formatter_reg | RegBlock block_handler_reg

fun try_add :: "registration \<Rightarrow> registrations \<Rightarrow> string + registrations" where
  "try_add (RegCompletion m) r = addCompletionMethod m r"
| "try_add (RegProbe s) r = addProbeStep s r"
| "try_add (RegKick k) r = addDrawerKick k r"
| "try_add (RegFormatter f) r = addFormatter f r"
| "try_add (RegBlock h) r = addBlockHandler h r"

text \<open>A registration attempt: a refused one leaves the registries as they are.\<close>

definition register :: "registrations \<Rightarrow> registration \<Rightarrow> registrations" where
  "register r x = (case try_add x r of Inl msg \<Rightarrow> r | Inr r' \<Rightarrow> r')"

definition all_sound :: "registrations \<Rightarrow> bool" where
  "all_sound r \<longleftrightarrow> completions.sound r \<and> probe_steps.sound r \<and> drawer_kicks.sound r \<and>
     formatters.sound r \<and> block_handlers.sound r"

lemma add_frames:
  "addCompletionMethod m r = Inr r' \<Longrightarrow> rs_probe_steps r' = rs_probe_steps r \<and>
     rs_drawer_kicks r' = rs_drawer_kicks r \<and> rs_formatters r' = rs_formatters r \<and>
     rs_block_handlers r' = rs_block_handlers r"
  "addProbeStep s r = Inr r' \<Longrightarrow> rs_completions r' = rs_completions r \<and>
     rs_drawer_kicks r' = rs_drawer_kicks r \<and> rs_formatters r' = rs_formatters r \<and>
     rs_block_handlers r' = rs_block_handlers r"
  "addDrawerKick k r = Inr r' \<Longrightarrow> rs_completions r' = rs_completions r \<and>
     rs_probe_steps r' = rs_probe_steps r \<and> rs_formatters r' = rs_formatters r \<and>
     rs_block_handlers r' = rs_block_handlers r"
  "addFormatter f r = Inr r' \<Longrightarrow> rs_completions r' = rs_completions r \<and>
     rs_probe_steps r' = rs_probe_steps r \<and> rs_drawer_kicks r' = rs_drawer_kicks r \<and>
     rs_block_handlers r' = rs_block_handlers r"
  "addBlockHandler h r = Inr r' \<Longrightarrow> rs_completions r' = rs_completions r \<and>
     rs_probe_steps r' = rs_probe_steps r \<and> rs_drawer_kicks r' = rs_drawer_kicks r \<and>
     rs_formatters r' = rs_formatters r"
  by (auto simp: registry_defs split: if_splits)

lemma all_sound_add: "try_add x r = Inr r' \<Longrightarrow> all_sound r \<Longrightarrow> all_sound r'"
  by (cases x)
    (auto simp: all_sound_def dest: add_frames
      intro: completions.sound_add probe_steps.sound_add drawer_kicks.sound_add
        formatters.sound_add block_handlers.sound_add
        completions.sound_frame probe_steps.sound_frame drawer_kicks.sound_frame
        formatters.sound_frame block_handlers.sound_frame)

lemma all_sound_register: "all_sound r \<Longrightarrow> all_sound (register r x)"
  using all_sound_add [of x r] by (cases "try_add x r") (simp_all add: register_def)

lemma all_sound_run: "all_sound r \<Longrightarrow> all_sound (foldl register r xs)"
  by (induction xs arbitrary: r) (simp_all add: all_sound_register)

lemma all_sound_new: "all_sound no_registrations"
  by (simp add: all_sound_def no_registrations_def completions.sound_def probe_steps.sound_def
      drawer_kicks.sound_def formatters.sound_def block_handlers.sound_def)

text \<open>
  After any sequence of registration attempts every registry holds each name at most once,
  every registered completion method has both its callbacks and a clean identifier, and the
  request of every registered probe step has no printable ASCII byte and no line feed.
\<close>

theorem registries_stay_sound:
  "let r = foldl register no_registrations xs
   in distinct (map cm_id (rs_completions r)) \<and> distinct (map ps_id (rs_probe_steps r)) \<and>
      distinct (map kr_id (rs_drawer_kicks r)) \<and> distinct (map fr_name (rs_formatters r)) \<and>
      distinct (map bh_kind (rs_block_handlers r)) \<and>
      list_all cm_acceptable (rs_completions r) \<and> list_all ps_acceptable (rs_probe_steps r)"
  using all_sound_run [OF all_sound_new, of xs]
  by (simp add: Let_def all_sound_def completions.sound_def probe_steps.sound_def
      drawer_kicks.sound_def formatters.sound_def block_handlers.sound_def)

text \<open>
  A registered completion method is found under its own identifier and nothing else
  changes: every other identifier resolves as before, and a later registration of the same
  identifier is refused.
\<close>

theorem completion_method_registered_once:
  assumes "addCompletionMethod m r = Inr r'"
  shows "completionMethod i r' = (if i = cm_id m then Some (named_method m) else completionMethod i r) \<and>
    (\<exists>msg. addCompletionMethod (m'\<lparr>cm_id := cm_id m\<rparr>) r' = Inl msg)"
  using completions.lookup_after_add [OF assms] completions.add_again [OF assms, of "m'\<lparr>cm_id := cm_id m\<rparr>"]
  by (simp add: completionMethod_def)

definition sample_method :: completion_method where
  "sample_method =
     \<lparr>cm_id = ''acme.idle'', cm_fence_bytes = Some bytes_of, cm_matcher = Some (\<lambda>bs. CM_NotMine),
      cm_grade = CG_A_JobLevelConfirmation, cm_authority = CA_PhysicalPrinter, cm_method_name = []\<rparr>"

theorem completion_method_registered_once_witness:
  "completionMethod ''acme.idle'' (register no_registrations (RegCompletion sample_method)) =
     Some (sample_method\<lparr>cm_method_name := ''acme.idle''\<rparr>)"
proof -
  have "addCompletionMethod sample_method no_registrations =
      Inr (no_registrations\<lparr>rs_completions := [sample_method\<lparr>cm_method_name := ''acme.idle''\<rparr>]\<rparr>)"
    by (simp add: registry_defs sample_method_def no_registrations_def id_taken_def
        isValidRegistrationId_def byte_of_def)
  from completion_method_registered_once [OF this, of "''acme.idle''"] this show ?thesis
    by (simp add: register_def sample_method_def named_method_def)
qed

text \<open>
  The check looks at 7-bit bytes only: a request made of a code page glyph passes it, and so
  does one that returns the carriage or feeds a form.
\<close>

lemma nonprinting_admits_glyphs:
  "isNonPrintingRequest [0x90, 0x0C, 0x0D] \<and> map_codepoint PC852 0xC9 = 0x90"
  by code_simp

end
