(* ===== verification/Markers.thy ===== *)
theory Markers imports
  PD_Prelude
  Escpos_Encoder
begin

text \<open>
  The verification identifiers of \<^verbatim>\<open>core/src/driver.cpp\<close>: the base-94 alphabet, the
  instance nonce and its file, and the \<^verbatim>\<open>MarkerAllocator\<close> that leases a job its pair of
  tokens. The lemmas show that no two live leases share a token, that an allocator with a free
  pair finds it, and that every token is one a \<^verbatim>\<open>GS ( H\<close> marker accepts.
\<close>

section \<open>The alphabet and the nonce\<close>

definition kTokenAlphabetFirst :: nat where "kTokenAlphabetFirst = 0x21"
definition kTokenAlphabetSize :: nat where "kTokenAlphabetSize = 94"
definition kTokenSequenceSpace :: nat where "kTokenSequenceSpace = 8836"

definition encodeBase94 :: "u32 \<Rightarrow> string" where
  "encodeBase94 v =
     (let wrapped = unat v mod kTokenSequenceSpace
      in [char_of (kTokenAlphabetFirst + wrapped div kTokenAlphabetSize),
          char_of (kTokenAlphabetFirst + wrapped mod kTokenAlphabetSize)])"

text \<open>The same on words, for evaluation.\<close>

lemma encodeBase94_words [code]:
  "encodeBase94 v =
     [char_of_byte (ucast (0x21 + (v mod 8836) div 94)), char_of_byte (ucast (0x21 + (v mod 8836) mod 94))]"
proof -
  let ?a = "(v mod 8836) div 94" and ?b = "(v mod 8836) mod 94"
  have m: "unat (v mod 8836) = unat v mod 8836" by (simp add: unat_mod)
  have a: "unat ?a = unat v mod 8836 div 94" by (simp add: unat_div m)
  have b: "unat ?b = unat v mod 8836 mod 94" by (simp add: unat_mod m)
  have "unat ?a < 94" unfolding a by (simp add: less_mult_imp_div_less)
  then have "unat (ucast (0x21 + ?a) :: u8) = 0x21 + unat ?a"
    by (simp add: unsigned_ucast_eq take_bit_eq_mod unat_word_ariths)
  moreover have "unat ?b < 94" unfolding b by simp
  then have "unat (ucast (0x21 + ?b) :: u8) = 0x21 + unat ?b"
    by (simp add: unsigned_ucast_eq take_bit_eq_mod unat_word_ariths)
  ultimately show ?thesis
    by (simp add: encodeBase94_def Let_def char_of_byte_def kTokenAlphabetFirst_def kTokenAlphabetSize_def
        kTokenSequenceSpace_def a b)
qed

definition isTokenAlphabet :: "char \<Rightarrow> bool" where
  "isTokenAlphabet c \<longleftrightarrow>
     kTokenAlphabetFirst \<le> of_char c \<and> of_char c < kTokenAlphabetFirst + kTokenAlphabetSize"

text \<open>The first line of the nonce file, when it is two characters of the alphabet.\<close>

definition stored_nonce :: "string option \<Rightarrow> string option" where
  "stored_nonce content =
     (case content of
        None \<Rightarrow> None
      | Some text \<Rightarrow>
          (case getlines text of
             [] \<Rightarrow> None
           | l # ls \<Rightarrow> if length l = 2 \<and> isTokenAlphabet (l ! 0) \<and> isTokenAlphabet (l ! 1) then Some l else None))"

text \<open>
  The file is a parameter: its content on entry, whether the temporary file can be written,
  and the content found by the second read, which a racing process may have replaced.
\<close>

definition loadOrCreateNonce ::
    "string \<Rightarrow> string option \<Rightarrow> string \<Rightarrow> bool \<Rightarrow> string option \<Rightarrow> string" where
  "loadOrCreateNonce directory content fresh writable reread =
     (if directory = [] then fresh
      else case stored_nonce content of
             Some n \<Rightarrow> n
           | None \<Rightarrow> if \<not> writable then fresh
                     else case stored_nonce reread of Some n \<Rightarrow> n | None \<Rightarrow> fresh)"

section \<open>The allocator\<close>

record marker_pair =
  mp_print :: string
  mp_cut :: string

record marker_allocator =
  ma_nonce :: string
  ma_next :: u32
  ma_in_use :: "string set"

definition new_allocator :: "string \<Rightarrow> marker_allocator" where
  "new_allocator nonce = \<lparr>ma_nonce = nonce, ma_next = 0, ma_in_use = {}\<rparr>"

definition slot_pair :: "string \<Rightarrow> u32 \<Rightarrow> marker_pair" where
  "slot_pair nonce slot =
     \<lparr>mp_print = nonce @ encodeBase94 (slot * 2), mp_cut = nonce @ encodeBase94 (slot * 2 + 1)\<rparr>"

text \<open>The loop of \<^verbatim>\<open>acquire\<close>, bounded by the tries left; None where it throws.\<close>

fun acquire_tries :: "nat \<Rightarrow> marker_allocator \<Rightarrow> marker_pair option \<times> marker_allocator" where
  "acquire_tries 0 a = (None, a)"
| "acquire_tries (Suc n) a =
     (let p = slot_pair (ma_nonce a) (ma_next a); a' = a\<lparr>ma_next := ma_next a + 1\<rparr>
      in if mp_print p \<in> ma_in_use a \<or> mp_cut p \<in> ma_in_use a then acquire_tries n a'
         else (Some p, a'\<lparr>ma_in_use := insert (mp_cut p) (insert (mp_print p) (ma_in_use a))\<rparr>))"

definition acquire :: "marker_allocator \<Rightarrow> marker_pair option \<times> marker_allocator" where
  "acquire a = acquire_tries (kTokenSequenceSpace div 2) a"

text \<open>The first try, unrolled for evaluation.\<close>

lemma acquire_first [code]:
  "acquire a =
     (let p = slot_pair (ma_nonce a) (ma_next a); a' = a\<lparr>ma_next := ma_next a + 1\<rparr>
      in if mp_print p \<in> ma_in_use a \<or> mp_cut p \<in> ma_in_use a then acquire_tries 4417 a'
         else (Some p, a'\<lparr>ma_in_use := insert (mp_cut p) (insert (mp_print p) (ma_in_use a))\<rparr>))"
proof -
  have "kTokenSequenceSpace div 2 = Suc 4417" by (simp add: kTokenSequenceSpace_def)
  then show ?thesis by (simp only: acquire_def acquire_tries.simps)
qed

definition release :: "marker_pair \<Rightarrow> marker_allocator \<Rightarrow> marker_allocator" where
  "release p a = a\<lparr>ma_in_use := ma_in_use a - {mp_print p} - {mp_cut p}\<rparr>"

definition isOutstanding :: "string \<Rightarrow> marker_allocator \<Rightarrow> bool" where
  "isOutstanding token a \<longleftrightarrow> token \<in> ma_in_use a"

definition isOurs :: "string \<Rightarrow> marker_allocator \<Rightarrow> bool" where
  "isOurs token a \<longleftrightarrow> length token = 4 \<and> take 2 token = ma_nonce a"

definition outstanding :: "marker_allocator \<Rightarrow> nat" where
  "outstanding a = card (ma_in_use a)"

section \<open>Tokens by number\<close>

definition base94 :: "nat \<Rightarrow> string" where
  "base94 k = [char_of (33 + k div 94), char_of (33 + k mod 94)]"

lemma char_code: "k < 256 \<Longrightarrow> of_char (char_of k) = (k :: nat)"
  by (simp add: take_bit_nat_eq_self)

lemma base94_inject:
  assumes "j < 8836" "k < 8836"
  shows "base94 j = base94 k \<longleftrightarrow> j = k"
proof
  have small: "33 + i div 94 < 256" "33 + i mod 94 < 256" if "i < 8836" for i :: nat
    using that by (auto simp: less_mult_imp_div_less)
  assume "base94 j = base94 k"
  then have "(of_char (char_of (33 + j div 94)) :: nat) = of_char (char_of (33 + k div 94))"
    "(of_char (char_of (33 + j mod 94)) :: nat) = of_char (char_of (33 + k mod 94))"
    by (simp_all add: base94_def)
  then have "j div 94 = k div 94" "j mod 94 = k mod 94"
    unfolding char_code [OF small(1) [OF assms(1)]] char_code [OF small(1) [OF assms(2)]]
      char_code [OF small(2) [OF assms(1)]] char_code [OF small(2) [OF assms(2)]] by simp_all
  then show "j = k" by (metis div_mult_mod_eq)
qed simp

lemma slot_numbers:
  "unat (slot * 2 :: u32) mod 8836 = 2 * (unat slot mod 2 ^ 31 mod 4418)"
  "unat (slot * 2 + 1 :: u32) mod 8836 = 2 * (unat slot mod 2 ^ 31 mod 4418) + 1"
proof -
  have e: "unat (slot * 2 :: u32) = 2 * (unat slot mod 2 ^ 31)"
    by (simp add: unat_word_ariths mult.commute mult_mod_right)
  have half: "2 * x mod 8836 = 2 * (x mod 4418)" for x :: nat
    by (simp add: mult_mod_right)
  show "unat (slot * 2 :: u32) mod 8836 = 2 * (unat slot mod 2 ^ 31 mod 4418)"
    by (simp add: e half)
  have "unat (slot * 2 + 1 :: u32) = (unat (slot * 2 :: u32) + unat (1 :: u32)) mod 2 ^ LENGTH(32)"
    by (rule unat_word_ariths(1))
  moreover have "2 * (unat slot mod 2 ^ 31) + 1 < 2 ^ 32" by simp
  ultimately have o1: "unat (slot * 2 + 1 :: u32) = 2 * (unat slot mod 2 ^ 31) + 1"
    unfolding e by simp
  have odd: "(2 * x + 1) mod 8836 = 2 * (x mod 4418) + 1" for x :: nat
  proof -
    have "(2 * x + 1) mod 8836 = (2 * (x mod 4418) + 1) mod 8836"
      by (metis half mod_add_left_eq)
    then show ?thesis by simp
  qed
  show "unat (slot * 2 + 1 :: u32) mod 8836 = 2 * (unat slot mod 2 ^ 31 mod 4418) + 1"
    unfolding o1 by (rule odd)
qed

text \<open>The pair a slot stands for: one of 4418.\<close>

definition pair_number :: "u32 \<Rightarrow> nat" where
  "pair_number slot = unat slot mod 2 ^ 31 mod 4418"

definition number_pair :: "string \<Rightarrow> nat \<Rightarrow> marker_pair" where
  "number_pair nonce r = \<lparr>mp_print = nonce @ base94 (2 * r), mp_cut = nonce @ base94 (2 * r + 1)\<rparr>"

lemma pair_number_less: "pair_number slot < 4418"
  by (simp add: pair_number_def)

lemma slot_pair_number: "slot_pair nonce slot = number_pair nonce (pair_number slot)"
  unfolding slot_pair_def number_pair_def pair_number_def
  by (simp add: encodeBase94_def base94_def kTokenSequenceSpace_def kTokenAlphabetSize_def
      kTokenAlphabetFirst_def slot_numbers [simplified])

definition tokens_of :: "marker_pair \<Rightarrow> string list" where
  "tokens_of p = [mp_print p, mp_cut p]"

lemma number_pair_disjoint:
  assumes "q < 4418" "r < 4418" "q \<noteq> r"
  shows "set (tokens_of (number_pair nonce q)) \<inter> set (tokens_of (number_pair nonce r)) = {}"
proof -
  have "2 * q \<noteq> 2 * r" "2 * q \<noteq> 2 * r + 1" "2 * q + 1 \<noteq> 2 * r" using assms(3) by presburger+
  then show ?thesis
    using assms(1,2) by (auto simp: tokens_of_def number_pair_def base94_inject)
qed

lemma number_pair_distinct: "r < 4418 \<Longrightarrow> distinct (tokens_of (number_pair nonce r))"
  by (simp add: tokens_of_def number_pair_def base94_inject)

section \<open>A search that fails has seen every pair taken\<close>

lemma acquire_tries_some:
  "acquire_tries n a = (Some p, a') \<Longrightarrow>
   (\<exists>slot. p = slot_pair (ma_nonce a) slot) \<and> mp_print p \<notin> ma_in_use a \<and> mp_cut p \<notin> ma_in_use a \<and>
   ma_in_use a' = set (tokens_of p) \<union> ma_in_use a \<and> ma_nonce a' = ma_nonce a"
proof (induction n arbitrary: a)
  case (Suc n)
  let ?q = "slot_pair (ma_nonce a) (ma_next a)" and ?b = "a\<lparr>ma_next := ma_next a + 1\<rparr>"
  show ?case
  proof (cases "mp_print ?q \<in> ma_in_use a \<or> mp_cut ?q \<in> ma_in_use a")
    case True
    with Suc.prems have "acquire_tries n ?b = (Some p, a')" by simp
    from Suc.IH [OF this] show ?thesis by simp
  next
    case False
    with Suc.prems have "p = ?q" "a' = ?b\<lparr>ma_in_use := insert (mp_cut p) (insert (mp_print p) (ma_in_use a))\<rparr>"
      by (auto simp: Let_def)
    with False show ?thesis by (auto simp: tokens_of_def)
  qed
qed simp

lemma acquire_tries_none:
  "acquire_tries n a = (None, a') \<Longrightarrow> unat (ma_next a) + n \<le> 2 ^ 31 \<Longrightarrow> i < n \<Longrightarrow>
   ma_in_use a \<inter> set (tokens_of (number_pair (ma_nonce a) ((unat (ma_next a) + i) mod 4418))) \<noteq> {}"
proof (induction n arbitrary: a i)
  case (Suc n)
  let ?q = "slot_pair (ma_nonce a) (ma_next a)" and ?b = "a\<lparr>ma_next := ma_next a + 1\<rparr>"
  have taken: "mp_print ?q \<in> ma_in_use a \<or> mp_cut ?q \<in> ma_in_use a"
    and rest: "acquire_tries n ?b = (None, a')"
    using Suc.prems(1) by (auto simp: Let_def split: if_splits)
  have lt: "unat (ma_next a) < 2 ^ 31" using Suc.prems(2) by simp
  have nxt: "unat (ma_next a + 1) = unat (ma_next a) + 1"
    using lt by (simp add: unat_word_ariths)
  show ?case
  proof (cases i)
    case 0
    with taken lt show ?thesis
      by (auto simp: slot_pair_number pair_number_def tokens_of_def)
  next
    case (Suc j)
    have "unat (ma_next ?b) + n \<le> 2 ^ 31" "j < n"
      using Suc.prems Suc nxt by simp_all
    from Suc.IH [OF rest this] show ?thesis using Suc nxt by simp
  qed
qed simp

lemma residues_cover: "r < 4418 \<Longrightarrow> \<exists>i < 4418. (s + i) mod 4418 = (r :: nat)"
proof -
  assume r: "r < 4418"
  let ?m = "s mod 4418"
  have "?m < 4418" by simp
  then have sum: "?m + (r + 4418 - ?m) = r + 4418" by linarith
  have "(s + (r + 4418 - ?m) mod 4418) mod 4418 = (?m + (r + 4418 - ?m)) mod 4418"
    by (metis mod_add_left_eq mod_add_right_eq)
  also have "\<dots> = r" using r unfolding sum by simp
  finally show ?thesis by (intro exI [of _ "(r + 4418 - ?m) mod 4418"]) simp
qed

section \<open>Leases\<close>

text \<open>Jobs taking a lease and giving one back, in any order.\<close>

datatype lease_op = TakeLease | DropLease nat

fun lease_step :: "marker_allocator \<times> marker_pair list \<Rightarrow> lease_op \<Rightarrow> marker_allocator \<times> marker_pair list" where
  "lease_step (a, held) TakeLease =
     (case acquire a of (Some p, a') \<Rightarrow> (a', held @ [p]) | (None, a') \<Rightarrow> (a', held))"
| "lease_step (a, held) (DropLease n) =
     (if n < length held then (release (held ! n) a, take n held @ drop (Suc n) held) else (a, held))"

definition leases_ok :: "marker_allocator \<times> marker_pair list \<Rightarrow> bool" where
  "leases_ok w \<longleftrightarrow>
     (case w of (a, held) \<Rightarrow>
        distinct (concat (map tokens_of held)) \<and> ma_in_use a = set (concat (map tokens_of held)) \<and>
        list_all (\<lambda>p. \<exists>r < 4418. p = number_pair (ma_nonce a) r) held)"

lemma acquire_tries_frame: "acquire_tries n a = (None, a') \<Longrightarrow> ma_in_use a' = ma_in_use a \<and> ma_nonce a' = ma_nonce a"
  by (induction n arbitrary: a) (fastforce simp: Let_def split: if_splits)+

lemma leases_ok_step: "leases_ok (a, held) \<Longrightarrow> leases_ok (lease_step (a, held) op)"
proof (cases op)
  case TakeLease
  assume ok: "leases_ok (a, held)"
  obtain q a' where acq: "acquire a = (q, a')" by fastforce
  show ?thesis
  proof (cases q)
    case None
    with acq acquire_tries_frame have "ma_in_use a' = ma_in_use a" "ma_nonce a' = ma_nonce a"
      by (auto simp: acquire_def)
    with ok acq None TakeLease show ?thesis by (simp add: leases_ok_def)
  next
    case (Some p)
    from acquire_tries_some [OF acq [unfolded acquire_def Some]]
    have p: "\<exists>slot. p = slot_pair (ma_nonce a) slot" "mp_print p \<notin> ma_in_use a" "mp_cut p \<notin> ma_in_use a"
      "ma_in_use a' = set (tokens_of p) \<union> ma_in_use a" "ma_nonce a' = ma_nonce a" by blast+
    then obtain r where r: "r < 4418" "p = number_pair (ma_nonce a) r"
      using pair_number_less slot_pair_number by metis
    show ?thesis
      using ok acq Some TakeLease p r number_pair_distinct [OF r(1), of "ma_nonce a"]
      by (auto simp: leases_ok_def tokens_of_def)
  qed
next
  case (DropLease n)
  assume ok: "leases_ok (a, held)"
  show ?thesis
  proof (cases "n < length held")
    case True
    let ?pre = "take n held" and ?post = "drop (Suc n) held" and ?p = "held ! n"
    have h: "held = ?pre @ ?p # ?post" by (rule id_take_nth_drop [OF True])
    have d: "distinct (concat (map tokens_of (?pre @ ?p # ?post)))"
      "ma_in_use a = set (concat (map tokens_of (?pre @ ?p # ?post)))"
      "list_all (\<lambda>p. \<exists>r < 4418. p = number_pair (ma_nonce a) r) (?pre @ ?p # ?post)"
      using ok h by (simp_all add: leases_ok_def)
    have "ma_in_use (release ?p a) = ma_in_use a - set (tokens_of ?p)"
      by (auto simp: release_def tokens_of_def)
    also have "\<dots> = set (concat (map tokens_of (?pre @ ?post)))"
      using d(1) unfolding d(2) by auto
    finally have u: "ma_in_use (release ?p a) = set (concat (map tokens_of (?pre @ ?post)))" .
    have n: "ma_nonce (release ?p a) = ma_nonce a" by (simp add: release_def)
    have "leases_ok (release ?p a, ?pre @ ?post)"
      unfolding leases_ok_def prod.case u n using d(1,3) by auto
    with True DropLease show ?thesis by simp
  qed (use ok DropLease in simp)
qed

lemma leases_ok_run: "leases_ok w \<Longrightarrow> leases_ok (foldl lease_step w ops)"
proof (induction ops arbitrary: w)
  case (Cons op ops)
  then show ?case using leases_ok_step by (cases w) auto
qed simp

lemma leases_ok_new: "leases_ok (new_allocator nonce, [])"
  by (simp add: leases_ok_def new_allocator_def)

lemma acquire_free:
  assumes ok: "leases_ok (a, held)" and few: "length held < 4418" and room: "unat (ma_next a) + 4418 \<le> 2 ^ 31"
  shows "fst (acquire a) \<noteq> None"
proof
  assume "fst (acquire a) = None"
  moreover have "acquire a = acquire_tries 4418 a" by (simp add: acquire_def kTokenSequenceSpace_def)
  ultimately obtain a' where acq: "acquire_tries 4418 a = (None, a')" by (metis prod.collapse)
  have idx: "\<forall>p \<in> set held. \<exists>r < 4418. p = number_pair (ma_nonce a) r"
    using ok by (simp add: leases_ok_def list_all_iff)
  have "\<exists>p \<in> set held. p = number_pair (ma_nonce a) r" if r: "r < 4418" for r
  proof -
    obtain i where "i < 4418" "(unat (ma_next a) + i) mod 4418 = r"
      using residues_cover [OF r] by blast
    with acquire_tries_none [OF acq room] obtain t where
      t: "t \<in> ma_in_use a" "t \<in> set (tokens_of (number_pair (ma_nonce a) r))" by blast
    then obtain p where p: "p \<in> set held" "t \<in> set (tokens_of p)"
      using ok by (auto simp: leases_ok_def)
    with idx obtain q where q: "q < 4418" "p = number_pair (ma_nonce a) q" by blast
    with t(2) p(2) number_pair_disjoint [OF q(1) r] have "q = r" by blast
    with p q show ?thesis by blast
  qed
  then have "number_pair (ma_nonce a) ` {..<4418} \<subseteq> set held" by blast
  moreover have "inj_on (number_pair (ma_nonce a)) {..<4418}"
  proof (rule inj_onI)
    fix q r assume "q \<in> {..<4418 :: nat}" "r \<in> {..<4418}" "number_pair (ma_nonce a) q = number_pair (ma_nonce a) r"
    then show "q = r" using number_pair_disjoint [of q r "ma_nonce a"] by (auto simp: tokens_of_def)
  qed
  ultimately have "4418 \<le> card (set held)"
    by (metis card_image card_lessThan card_mono List.finite_set)
  with few card_length [of held] show False by simp
qed

section \<open>Properties of the allocator\<close>

text \<open>
  C18: an outstanding identifier names one job. Whatever leases were taken and given back, no
  token belongs to two live leases or twice to one, and the outstanding tokens are exactly
  those of the live leases.
\<close>

theorem live_leases_disjoint:
  "case foldl lease_step (new_allocator nonce, []) ops of (a, held) \<Rightarrow>
     distinct (concat (map tokens_of held)) \<and> ma_in_use a = set (concat (map tokens_of held))"
  using leases_ok_run [OF leases_ok_new, of nonce ops] by (auto simp: leases_ok_def split: prod.splits)

text \<open>
  A free pair is found. While fewer than 4418 jobs hold a lease and the 32-bit slot counter
  is not within one wrap of 2^31, \<^theory_text>\<open>acquire\<close> does not throw, and the pair it returns is not
  outstanding.
\<close>

theorem acquire_finds_free_pair:
  assumes "foldl lease_step (new_allocator nonce, []) ops = (a, held)"
    and "length held < 4418" and "unat (ma_next a) + 4418 \<le> 2 ^ 31"
  shows "\<exists>p a'. acquire a = (Some p, a') \<and> \<not> isOutstanding (mp_print p) a \<and> \<not> isOutstanding (mp_cut p) a"
proof -
  have "leases_ok (a, held)" using leases_ok_run [OF leases_ok_new, of nonce ops] assms(1) by simp
  from acquire_free [OF this assms(2,3)] obtain p a' where acq: "acquire a = (Some p, a')"
    by (metis option.exhaust_sel prod.collapse)
  from acquire_tries_some [OF acq [unfolded acquire_def]] acq show ?thesis
    by (auto simp: isOutstanding_def)
qed

theorem acquire_finds_free_pair_witness:
  "\<exists>p a'. acquire (new_allocator ''ab'') = (Some p, a')"
  using acquire_finds_free_pair [of "''ab''" "[]" "new_allocator ''ab''" "[]"]
  by (auto simp: new_allocator_def)

text \<open>
  With a nonce of the alphabet both tokens of a lease are accepted by a \<^verbatim>\<open>GS ( H\<close> marker
  and recognised as ours, an allocator with another nonce does not recognise them, and the
  print token and the cut token differ.
\<close>

theorem leased_tokens_usable:
  assumes "acquire a = (Some p, a')" and "length (ma_nonce a) = 2" and "list_all isTokenAlphabet (ma_nonce a)"
  shows "list_all (\<lambda>t. isValidProcessIdToken t \<and> isOurs t a \<and> (isOurs t b \<longleftrightarrow> ma_nonce b = ma_nonce a)) (tokens_of p) \<and>
    mp_print p \<noteq> mp_cut p"
proof -
  from acquire_tries_some [OF assms(1) [unfolded acquire_def]] obtain r where
    r: "r < 4418" "p = number_pair (ma_nonce a) r"
    using pair_number_less slot_pair_number by metis
  have ch: "0x20 \<le> byte_of (char_of k) \<and> byte_of (char_of k) \<le> 0x7E" if "33 \<le> k" "k < 127" for k :: nat
    using that by (simp add: word_le_nat_alt)
  have nonce: "\<forall>c \<in> set (ma_nonce a). 0x20 \<le> byte_of c \<and> byte_of c \<le> 0x7E"
    using assms(3) by (auto simp: list_all_iff isTokenAlphabet_def kTokenAlphabetFirst_def
        kTokenAlphabetSize_def word_le_nat_alt)
  have valid: "isValidProcessIdToken (ma_nonce a @ base94 k)" if "k < 8836" for k
    using that nonce assms(2) ch [of "33 + k div 94"] ch [of "33 + k mod 94"]
    by (auto simp: isValidProcessIdToken_def base94_def list_all_iff less_mult_imp_div_less)
  show ?thesis
    using r valid [of "2 * r"] valid [of "2 * r + 1"] assms(2) number_pair_distinct [OF r(1), of "ma_nonce a"]
    by (auto simp: tokens_of_def number_pair_def isOurs_def base94_def)
qed

theorem leased_tokens_usable_witness:
  "list_all isValidProcessIdToken (tokens_of (slot_pair ''ab'' 0))"
proof -
  have tries: "kTokenSequenceSpace div 2 = Suc 4417" by (simp add: kTokenSequenceSpace_def)
  have "acquire (new_allocator ''ab'') = (Some (slot_pair ''ab'' 0),
      \<lparr>ma_nonce = ''ab'', ma_next = 1, ma_in_use = set (tokens_of (slot_pair ''ab'' 0))\<rparr>)"
    unfolding acquire_def tries acquire_tries.simps(2)
    by (simp add: new_allocator_def tokens_of_def Let_def insert_commute)
  from leased_tokens_usable [OF this, of "new_allocator ''ab''"] show ?thesis
    by (simp add: new_allocator_def isTokenAlphabet_def kTokenAlphabetFirst_def
        kTokenAlphabetSize_def list_all_iff)
qed

end
