(* ===== verification/Backchannel.thy ===== *)
theory Backchannel imports
  Response_Parser
  Star
  Registrations
  Markers
  Capability_Profile
begin

text \<open>
  The receiving half of \<^verbatim>\<open>PrinterRuntime\<close> in \<^verbatim>\<open>core/src/driver.cpp\<close>: what the reader
  thread does with arriving bytes and a lost link (\<^verbatim>\<open>onBytes\<close>, \<^verbatim>\<open>onDisconnected\<close>,
  \<^verbatim>\<open>mergeStatus\<close>), what a job resets and arms, and what each wait concludes. A wait is
  modelled by what has arrived when it ends: the conditions only ever become true while a wait
  lasts, so the checks after it see the same state whether it was woken or timed out. The
  lemmas say which bytes can complete a fence.
\<close>

section \<open>State\<close>

record device_status =
  ds_connected :: bool
  ds_online :: "bool option"
  ds_cover_open :: "bool option"
  ds_paper_out :: "bool option"
  ds_paper_near_end :: "bool option"
  ds_cutter_error :: "bool option"
  ds_unrecoverable_error :: "bool option"
  ds_recoverable_error :: "bool option"
  ds_observed :: bool

definition unknown_status :: device_status where
  "unknown_status =
     \<lparr>ds_connected = False, ds_online = None, ds_cover_open = None, ds_paper_out = None,
      ds_paper_near_end = None, ds_cutter_error = None, ds_unrecoverable_error = None,
      ds_recoverable_error = None, ds_observed = False\<rparr>"

record link =
  lk_parser :: response_parser
  lk_gsh_tokens :: "string list"
  lk_queued_answers :: nat
  lk_queued_bytes :: bytes
  lk_realtime_answers :: "parsed_event list"
  lk_link_down :: bool
  lk_star_parser :: star_parser
  lk_star_mode :: bool
  lk_fence_outstanding :: bool
  lk_fence_signalled :: bool
  lk_fence_is_etb :: bool
  lk_expect_n1 :: u8
  lk_expect_n2 :: u8
  lk_expect_counter :: u8
  lk_star_counter :: "u8 option"
  lk_star_sequence :: u16
  lk_custom_method :: "completion_method option"
  lk_custom_outstanding :: bool
  lk_custom_rx :: bytes
  lk_custom_tokens :: "string list"
  lk_status :: device_status
  lk_drawer_pin :: "bool option"
  lk_stopping :: bool

definition new_link :: link where
  "new_link =
     \<lparr>lk_parser = new_response_parser, lk_gsh_tokens = [], lk_queued_answers = 0,
      lk_queued_bytes = [], lk_realtime_answers = [], lk_link_down = False,
      lk_star_parser = new_star_parser, lk_star_mode = False, lk_fence_outstanding = False,
      lk_fence_signalled = False, lk_fence_is_etb = False, lk_expect_n1 = 0, lk_expect_n2 = 0,
      lk_expect_counter = 0, lk_star_counter = None, lk_star_sequence = 0,
      lk_custom_method = None, lk_custom_outstanding = False, lk_custom_rx = [],
      lk_custom_tokens = [], lk_status = unknown_status, lk_drawer_pin = None,
      lk_stopping = False\<rparr>"

section \<open>What the reader thread does\<close>

text \<open>A decoded flag replaces what was known, an undecoded one leaves it.\<close>

definition newer :: "'a option \<Rightarrow> 'a option \<Rightarrow> 'a option" where
  "newer new old = (case new of None \<Rightarrow> old | Some v \<Rightarrow> Some v)"

definition mergeStatus :: "status_flags \<Rightarrow> link \<Rightarrow> link \<times> device_event list" where
  "mergeStatus f lk =
     (let s = lk_status lk
      in (lk\<lparr>lk_status := s\<lparr>ds_observed := True,
               ds_online := newer (sf_online f) (ds_online s),
               ds_cover_open := newer (sf_cover_open f) (ds_cover_open s),
               ds_paper_out := newer (sf_paper_out f) (ds_paper_out s),
               ds_paper_near_end := newer (sf_paper_near_end f) (ds_paper_near_end s),
               ds_cutter_error := newer (sf_cutter_error f) (ds_cutter_error s),
               ds_unrecoverable_error := newer (sf_unrecoverable_error f) (ds_unrecoverable_error s),
               ds_recoverable_error := newer (sf_auto_recoverable_error f) (ds_recoverable_error s)\<rparr>,
             lk_drawer_pin := newer (sf_drawer_pin_high f) (lk_drawer_pin lk)\<rparr>,
          toDeviceEvents f))"

definition on_star_event :: "star_event \<Rightarrow> link \<Rightarrow> link \<times> device_event list" where
  "on_star_event ev lk =
     (case se_kind ev of
        SE_EtxAck \<Rightarrow>
          if lk_fence_outstanding lk \<and> \<not> lk_fence_is_etb lk \<and>
             se_n1 ev = lk_expect_n1 lk \<and> se_n2 ev = lk_expect_n2 lk
          then (lk\<lparr>lk_fence_signalled := True\<rparr>, [])
          else (lk, [DE_ForeignWriterDetected])
      | SE_AsbStatus \<Rightarrow>
          if lk_star_counter lk = Some (se_counter ev) then (lk, [])
          else let ours = (lk_fence_outstanding lk \<and> lk_fence_is_etb lk \<and>
                           se_counter ev = lk_expect_counter lk);
                   lk' = lk\<lparr>lk_star_counter := Some (se_counter ev)\<rparr>
               in if ours then (lk'\<lparr>lk_fence_signalled := True\<rparr>, [])
                  else (lk', [DE_ForeignWriterDetected])
      | SE_UnknownByte \<Rightarrow> (lk, []))"

definition on_escpos_event :: "marker_allocator \<Rightarrow> parsed_event \<Rightarrow> link \<Rightarrow> link \<times> device_event list" where
  "on_escpos_event mk ev lk =
     (case pe_kind ev of
        GsHAck \<Rightarrow>
          if \<not> isOurs (pe_token ev) mk then (lk, [DE_ForeignWriterDetected])
          else (lk\<lparr>lk_gsh_tokens := lk_gsh_tokens lk @ [pe_token ev]\<rparr>, [])
      | QueuedStatus \<Rightarrow>
          (lk\<lparr>lk_queued_answers := lk_queued_answers lk + 1,
              lk_queued_bytes := lk_queued_bytes lk @ [pe_byte ev]\<rparr>, [])
      | RealtimeStatus \<Rightarrow>
          (case mergeStatus (pe_flags ev) lk of
             (lk', es) \<Rightarrow> (lk'\<lparr>lk_realtime_answers := lk_realtime_answers lk' @ [ev]\<rparr>, es))
      | AsbStatus \<Rightarrow> mergeStatus (pe_flags ev) lk
      | UnknownByte \<Rightarrow> (lk, []))"

text \<open>One handler over a list of events, collecting the device events.\<close>

fun each_event :: "('e \<Rightarrow> link \<Rightarrow> link \<times> device_event list) \<Rightarrow> 'e list \<Rightarrow> link \<Rightarrow> link \<times> device_event list" where
  "each_event h [] lk = (lk, [])"
| "each_event h (ev # evs) lk =
     (case h ev lk of (lk', es) \<Rightarrow> (case each_event h evs lk' of (lk'', es') \<Rightarrow> (lk'', es @ es')))"

text \<open>The registered matcher, fed alongside the built-in parser while its fence is out.\<close>

definition on_custom :: "marker_allocator \<Rightarrow> bytes \<Rightarrow> link \<Rightarrow> link \<times> device_event list" where
  "on_custom mk data lk =
     (case lk_custom_method lk of
        None \<Rightarrow> (lk, [])
      | Some m \<Rightarrow>
          if \<not> lk_custom_outstanding lk then (lk, [])
          else case cm_matcher m of
                 None \<Rightarrow> (lk, [])
               | Some matcher \<Rightarrow>
                   (let rx = lk_custom_rx lk @ data
                    in case matcher rx of
                         CM_Matched token \<Rightarrow>
                           if \<not> isOurs token mk then (lk\<lparr>lk_custom_rx := []\<rparr>, [DE_ForeignWriterDetected])
                           else (lk\<lparr>lk_custom_tokens := lk_custom_tokens lk @ [token], lk_custom_rx := []\<rparr>, [])
                       | CM_NotMine \<Rightarrow> (lk\<lparr>lk_custom_rx := []\<rparr>, [])
                       | CM_NeedMore \<Rightarrow> (lk\<lparr>lk_custom_rx := rx\<rparr>, [])))"

text \<open>
  \<^verbatim>\<open>onBytes\<close> outside a capability probe. The Star parser and the ESC/POS parser never both run.
\<close>

definition onBytes :: "marker_allocator \<Rightarrow> bytes \<Rightarrow> link \<Rightarrow> link \<times> device_event list" where
  "onBytes mk data lk =
     (if lk_star_mode lk then
        (case sp_feed data (lk_star_parser lk) of
           (evs, sp) \<Rightarrow> each_event on_star_event evs (lk\<lparr>lk_star_parser := sp\<rparr>))
      else (case rp_feed data (lk_parser lk) of
              (evs, rp) \<Rightarrow>
                (case each_event (on_escpos_event mk) evs (lk\<lparr>lk_parser := rp\<rparr>) of
                   (lk', es) \<Rightarrow> (case on_custom mk data lk' of (lk'', es') \<Rightarrow> (lk'', es @ es')))))"

definition onDisconnected :: "link \<Rightarrow> link \<times> device_event list" where
  "onDisconnected lk =
     (lk\<lparr>lk_link_down := True, lk_status := (lk_status lk)\<lparr>ds_connected := False\<rparr>\<rparr>, [DE_ConnectionLost])"

text \<open>What can reach a waiting worker: bytes, the loss of the link, a request to stop.\<close>

datatype arrival = Rx bytes | LinkLost | StopRequested

fun deliver :: "marker_allocator \<Rightarrow> arrival \<Rightarrow> link \<Rightarrow> link \<times> device_event list" where
  "deliver mk (Rx data) lk = onBytes mk data lk"
| "deliver mk LinkLost lk = onDisconnected lk"
| "deliver mk StopRequested lk = (lk\<lparr>lk_stopping := True\<rparr>, [])"

section \<open>What a job resets, arms and waits for\<close>

definition beginJobIo :: "link \<Rightarrow> link" where
  "beginJobIo lk =
     lk\<lparr>lk_parser := rp_reset (lk_parser lk), lk_gsh_tokens := [], lk_queued_answers := 0,
        lk_queued_bytes := [], lk_realtime_answers := [], lk_link_down := False,
        lk_star_parser := sp_reset (lk_star_parser lk), lk_star_mode := False,
        lk_fence_outstanding := False, lk_fence_signalled := False,
        lk_custom_method := None, lk_custom_outstanding := False, lk_custom_rx := [],
        lk_custom_tokens := []\<rparr>"

definition clearRealtime :: "link \<Rightarrow> link" where
  "clearRealtime lk =
     (let lk' = lk\<lparr>lk_realtime_answers := []\<rparr>
      in if rp_realtime (lk_parser lk') \<noteq> [] then lk'\<lparr>lk_parser := rp_reset (lk_parser lk')\<rparr> else lk')"

definition setCustomMethod :: "completion_method option \<Rightarrow> link \<Rightarrow> link" where
  "setCustomMethod m lk =
     lk\<lparr>lk_custom_method := m, lk_custom_outstanding := False, lk_custom_rx := [], lk_custom_tokens := []\<rparr>"

definition armCustomFence :: "link \<Rightarrow> link" where
  "armCustomFence lk = lk\<lparr>lk_custom_outstanding := True, lk_custom_rx := []\<rparr>"

definition armStarFence :: "capability_profile \<Rightarrow> link \<Rightarrow> bytes \<times> link" where
  "armStarFence profile lk =
     (let lk1 = lk\<lparr>lk_fence_signalled := False, lk_fence_outstanding := True\<rparr>
      in if cp_completion profile = CM_StarEtb then
           (etbFence, lk1\<lparr>lk_fence_is_etb := True,
              lk_expect_counter := nextEtbCounter (case lk_star_counter lk of Some c \<Rightarrow> c | None \<Rightarrow> 0)\<rparr>)
         else let s = lk_star_sequence lk + 1; n1 = ucast (drop_bit 8 s); n2 = ucast s
              in (escGsEtxFence n1 n2,
                  lk1\<lparr>lk_fence_is_etb := False, lk_star_sequence := s, lk_expect_n1 := n1,
                      lk_expect_n2 := n2\<rparr>))"

datatype wait_outcome = Signalled | WaitLinkDown | WaitTimeout | WaitAborted

text \<open>The order in which every wait looks at what woke it.\<close>

definition conclude :: "bool \<Rightarrow> link \<Rightarrow> wait_outcome" where
  "conclude signalled lk =
     (if signalled then Signalled
      else if lk_link_down lk then WaitLinkDown
      else if lk_stopping lk then WaitAborted
      else WaitTimeout)"

definition awaitToken :: "string \<Rightarrow> link \<Rightarrow> wait_outcome \<times> link" where
  "awaitToken token lk = (conclude (token \<in> set (lk_gsh_tokens lk)) lk, lk)"

definition awaitCustomToken :: "string \<Rightarrow> link \<Rightarrow> wait_outcome \<times> link" where
  "awaitCustomToken token lk =
     (conclude (token \<in> set (lk_custom_tokens lk)) lk, lk\<lparr>lk_custom_outstanding := False\<rparr>)"

text \<open>With the answer byte the expectation consumed.\<close>

definition awaitQueued :: "link \<Rightarrow> (wait_outcome \<times> u8) \<times> link" where
  "awaitQueued lk =
     (if lk_queued_answers lk > 0 then
        ((Signalled, (case lk_queued_bytes lk of [] \<Rightarrow> 0 | b # bs \<Rightarrow> b)),
         lk\<lparr>lk_queued_answers := lk_queued_answers lk - 1, lk_queued_bytes := tl (lk_queued_bytes lk)\<rparr>)
      else ((conclude False lk, 0), lk))"

definition awaitRealtime :: "nat \<Rightarrow> link \<Rightarrow> (wait_outcome \<times> parsed_event list) \<times> link" where
  "awaitRealtime count lk =
     ((conclude (count \<le> length (lk_realtime_answers lk)) lk, lk_realtime_answers lk), lk)"

definition awaitStarFence :: "link \<Rightarrow> wait_outcome \<times> link" where
  "awaitStarFence lk =
     (conclude (lk_fence_signalled lk) lk,
      lk\<lparr>lk_fence_outstanding := False, lk_fence_signalled := False\<rparr>)"

end
