(* ===== verification/Job_Payload.thy ===== *)
theory Job_Payload imports
  Star
  Job_Store
  Capability_Profile
begin

text \<open>
  What a job sends (\<^verbatim>\<open>core/include/printerdriver/driver.hpp\<close> and the builders of
  \<^verbatim>\<open>core/src/driver.cpp\<close>): the payload tiers, the job options, the framed payload with its
  margins, reprint banner and verification trailer, the cut with its blade clearance, and the
  Star counterpart. A thrown \<^verbatim>\<open>EncodingError\<close> is the left case of a sum.
\<close>

section \<open>Payloads and options\<close>

record raster_payload =
  ra_gray :: bytes
  ra_width :: u32
  ra_height :: u32
  ra_binarization :: binarization
  ra_threshold :: u8
  ra_max_rows_per_band :: u32

datatype payload = RasterPayload raster_payload | DocumentPayload bytes code_page | RawPayload bytes

fun payload_kind_of :: "payload \<Rightarrow> payload_kind" where
  "payload_kind_of (RasterPayload r) = PK_Raster"
| "payload_kind_of (DocumentPayload b cp) = PK_Document"
| "payload_kind_of (RawPayload b) = PK_Raw"

fun payloadInputBytes :: "payload \<Rightarrow> nat" where
  "payloadInputBytes (RasterPayload r) = length (ra_gray r)"
| "payloadInputBytes (DocumentPayload b cp) = length b"
| "payloadInputBytes (RawPayload b) = length b"

datatype cut_setting = CutSettingProfile | CutSettingPartial | CutSettingFull | CutSettingNone

datatype preflight_mode = PreflightStrict | PreflightSkip

record job_options =
  op_key :: string
  op_cut :: cut_setting
  op_open_drawer :: bool
  op_preflight :: preflight_mode
  op_timeout_ms :: u32
  op_top_feed_dots :: u16
  op_bottom_feed_dots :: u16
  op_print_verification_id :: bool

definition default_options :: job_options where
  "default_options =
     \<lparr>op_key = [], op_cut = CutSettingProfile, op_open_drawer = False,
      op_preflight = PreflightStrict, op_timeout_ms = 0, op_top_feed_dots = 0,
      op_bottom_feed_dots = 0, op_print_verification_id = True\<rparr>"

fun effectiveCut :: "cut_setting \<Rightarrow> capability_profile \<Rightarrow> cut_variant" where
  "effectiveCut CutSettingProfile profile = cp_cut profile"
| "effectiveCut CutSettingPartial profile = CV_Partial"
| "effectiveCut CutSettingFull profile = CV_Full"
| "effectiveCut CutSettingNone profile = CV_None"

section \<open>The ESC/POS payload\<close>

definition kReprintBannerLine :: string where
  "kReprintBannerLine = ''*** REPRINT / POSSIBLE DUPLICATE ***''"
definition kReprintAttemptPrefix :: string where "kReprintAttemptPrefix = ''PRINT ATTEMPT: ''"
definition kOrderPrefix :: string where "kOrderPrefix = ''ORDER: ''"
definition kVerificationPrefix :: string where "kVerificationPrefix = ''V:''"

definition banner_lines :: "string \<Rightarrow> u32 \<Rightarrow> encoder \<Rightarrow> encoder" where
  "banner_lines key attempt e =
     (let e1 = bold False (enc_line (bytes_of kReprintBannerLine) (bold True (align AL_Center e)));
          e2 = (if key \<noteq> [] then enc_line (bytes_of (''ORDER: '' @ key)) e1 else e1)
      in feed (align AL_Left (enc_line (bytes_of (kReprintAttemptPrefix @ dec_digits (unat attempt))) e2)))"

text \<open>The code page, the framing and the banner ahead of the content.\<close>

definition payload_code_page :: "capability_profile \<Rightarrow> payload \<Rightarrow> code_page" where
  "payload_code_page profile payload =
     (case payload of DocumentPayload b cp \<Rightarrow> cp | _ \<Rightarrow> cp_code_page profile)"

definition payload_head ::
    "capability_profile \<Rightarrow> payload \<Rightarrow> job_options \<Rightarrow> u32 \<Rightarrow> string \<Rightarrow> bool \<Rightarrow> encoder" where
  "payload_head profile payload options attempt key banner =
     (let e0 = selectCodePage (payload_code_page profile payload) (initialize new_encoder);
          e1 = (if op_top_feed_dots options > 0 then feedDots (op_top_feed_dots options) e0 else e0)
      in if banner then banner_lines key attempt e1 else e1)"

definition payload_content :: "u32 \<Rightarrow> payload \<Rightarrow> encoder \<Rightarrow> encoding_error + encoder" where
  "payload_content width_dots payload e =
     (case payload of
        RasterPayload r \<Rightarrow>
          if ra_width r > 0 \<and> ra_height r > 0 \<and> ra_gray r \<noteq> [] then
            rasterGrayscale (ra_gray r) (ra_width r) (ra_height r) width_dots (ra_binarization r)
              (ra_threshold r) ScaleNormal (ra_max_rows_per_band r) e
          else Inr e
      | DocumentPayload b cp \<Rightarrow> Inr (raw b e)
      | RawPayload b \<Rightarrow> Inr (raw b e))"

definition verification_line :: "string \<Rightarrow> string \<Rightarrow> string" where
  "verification_line key print_token =
     (if key \<noteq> [] then kOrderPrefix @ key @ ''  '' else []) @ kVerificationPrefix @ print_token"

definition payload_trailer ::
    "job_options \<Rightarrow> string \<Rightarrow> string \<Rightarrow> encoder \<Rightarrow> encoding_error + encoder" where
  "payload_trailer options key print_token e =
     (if op_print_verification_id options \<and> print_token \<noteq> [] then
        (let line = bytes_of (verification_line key print_token)
         in case qr line 4 EC_M Model2 (enc_line line (align AL_Center (feed e))) of
              Inl err \<Rightarrow> Inl err
            | Inr e' \<Rightarrow> Inr (align AL_Left e'))
      else Inr e)"

definition payload_tail :: "capability_profile \<Rightarrow> job_options \<Rightarrow> encoder \<Rightarrow> encoding_error + bytes" where
  "payload_tail profile options e =
     (case (if op_open_drawer options then kickCashDrawer 0 25 25 e else Inr e) of
        Inl err \<Rightarrow> Inl err
      | Inr e' \<Rightarrow> Inr (enc_buffer (feedLines (cp_final_feed_lines profile) e')))"

definition payload_end ::
    "capability_profile \<Rightarrow> job_options \<Rightarrow> string \<Rightarrow> string \<Rightarrow> encoder \<Rightarrow> encoding_error + bytes" where
  "payload_end profile options key print_token e =
     (case payload_trailer options key print_token e of
        Inl err \<Rightarrow> Inl err
      | Inr e' \<Rightarrow> payload_tail profile options e')"

definition buildPayload ::
    "capability_profile \<Rightarrow> u32 \<Rightarrow> payload \<Rightarrow> job_options \<Rightarrow> u32 \<Rightarrow> string \<Rightarrow> bool \<Rightarrow> string \<Rightarrow>
     encoding_error + bytes" where
  "buildPayload profile width_dots payload options attempt key banner print_token =
     (case payload_content width_dots payload (payload_head profile payload options attempt key banner) of
        Inl err \<Rightarrow> Inl err
      | Inr e1 \<Rightarrow> payload_end profile options key print_token e1)"

section \<open>The cut\<close>

definition cut_feed :: "capability_profile \<Rightarrow> job_options \<Rightarrow> u16" where
  "cut_feed profile options =
     max (md_head_to_cutter_feed_dots (cp_media profile)) (op_bottom_feed_dots options)"

definition cut_encoder :: "capability_profile \<Rightarrow> job_options \<Rightarrow> cut_variant \<Rightarrow> encoder" where
  "cut_encoder profile options variant =
     cut (if variant = CV_Full then CutFull else CutPartial)
       (useCutWithFeed (qk_extra_feed_before_cut (cp_quirks profile) > 0)
          (qk_extra_feed_before_cut (cp_quirks profile))
          (feedDots (cut_feed profile options) new_encoder))"

definition buildCut ::
    "capability_profile \<Rightarrow> job_options \<Rightarrow> cut_variant \<Rightarrow> string \<Rightarrow> encoding_error + bytes" where
  "buildCut profile options variant marker_token =
     (let e = cut_encoder profile options variant
      in case cp_completion profile of
           CM_GsParenH \<Rightarrow> (case processId marker_token e of Inl err \<Rightarrow> Inl err | Inr e' \<Rightarrow> Inr (enc_buffer e'))
         | CM_GsR1 \<Rightarrow> Inr (enc_buffer (queuedPaperStatus e))
         | _ \<Rightarrow> Inr (enc_buffer e))"

section \<open>The Star payload\<close>

definition star_banner_lines :: "string \<Rightarrow> u32 \<Rightarrow> star_encoder \<Rightarrow> star_encoder" where
  "star_banner_lines key attempt e =
     (let e1 = sn_set_bold False (sn_line (bytes_of kReprintBannerLine) (sn_set_bold True (sn_align AL_Center e)));
          e2 = (if key \<noteq> [] then sn_line (bytes_of (''ORDER: '' @ key)) e1 else e1)
      in sn_feed (sn_align AL_Left (sn_line (bytes_of (kReprintAttemptPrefix @ dec_digits (unat attempt))) e2)))"

definition note_star_raster :: string where
  "note_star_raster = ''raster image: this profile does not enable Star raster line mode''"

definition note_star_drawer :: string where
  "note_star_drawer =
     ''cash drawer kick: Star'' @ [CHR 0x27] @
     ''s drawer command varies by model and interface and is not established here''"

definition note_star_id :: string where
  "note_star_id =
     ''printed verification identifier: the Star fences carry a counter, not a '' @
     ''per-job token, so there is no wire token to promote onto the paper''"

definition star_content ::
    "capability_profile \<Rightarrow> u32 \<Rightarrow> payload \<Rightarrow> star_encoder \<Rightarrow> encoding_error + star_encoder \<times> string list" where
  "star_content profile width_dots payload e =
     (case payload of
        RasterPayload r \<Rightarrow>
          if \<not> sr_raster_line_mode (cp_star profile) then Inr (e, [note_star_raster])
          else if ra_width r > 0 \<and> ra_height r > 0 \<and> ra_gray r \<noteq> [] then
            (case sn_rasterGrayscale (ra_gray r) (ra_width r) (ra_height r) width_dots
                    (ra_binarization r) (ra_threshold r) e of
               Inl err \<Rightarrow> Inl err | Inr e' \<Rightarrow> Inr (e', []))
          else Inr (e, [])
      | DocumentPayload b cp \<Rightarrow>
          (let c = transcodeFromEscPos (sr_raster_line_mode (cp_star profile)) b
           in Inr (sn_put (tc_bytes c) e, foldl (\<lambda>d w. add_note w d) [] (tc_dropped c)))
      | RawPayload b \<Rightarrow> Inr (sn_put b e, []))"

definition buildStarPayload ::
    "capability_profile \<Rightarrow> u32 \<Rightarrow> payload \<Rightarrow> job_options \<Rightarrow> u32 \<Rightarrow> string \<Rightarrow> bool \<Rightarrow>
     encoding_error + bytes \<times> string list" where
  "buildStarPayload profile width_dots payload options attempt key banner =
     (let e0 = sn_initialize new_star_encoder;
          e1 = (if op_top_feed_dots options > 0 then sn_feedDots (op_top_feed_dots options) e0 else e0);
          e2 = (if banner then star_banner_lines key attempt e1 else e1)
      in case star_content profile width_dots payload e2 of
           Inl err \<Rightarrow> Inl err
         | Inr (e3, d0) \<Rightarrow>
             (let d1 = (if op_open_drawer options then add_note note_star_drawer d0 else d0);
                  d2 = (if op_print_verification_id options then add_note note_star_id d1 else d1)
              in Inr (sn_buffer (sn_feedLines (cp_final_feed_lines profile) e3), d2)))"

section \<open>Facts\<close>

text \<open>The trailer and the tail append bytes that do not depend on what is already there.\<close>

lemma trailer_append:
  assumes "payload_trailer options key tok e = Inr e'"
  shows "\<exists>bs. \<forall>c. payload_trailer options key tok (e\<lparr>enc_buffer := c\<rparr>) = Inr (e'\<lparr>enc_buffer := c @ bs\<rparr>)"
proof (cases "op_print_verification_id options \<and> tok \<noteq> []")
  case False
  with assms show ?thesis by (intro exI [of _ "[]"]) (auto simp: payload_trailer_def)
next
  case True
  with assms show ?thesis
    by (auto simp: payload_trailer_def qr_def enc_line_def enc_text_def feed_def align_def put_def Let_def
        split: if_splits sum.splits)
qed

lemma tail_append:
  assumes "payload_tail profile options e = Inr w"
  shows "\<exists>bs. \<forall>c. payload_tail profile options (e\<lparr>enc_buffer := c\<rparr>) = Inr (c @ bs)"
  by (auto simp: payload_tail_def kickCashDrawer_def feedLines_def put_def)

lemma end_append:
  assumes "payload_end profile options key tok e = Inr w"
  shows "\<exists>post. \<forall>c. payload_end profile options key tok (e\<lparr>enc_buffer := c\<rparr>) = Inr (c @ post)"
proof -
  from assms obtain e' where e': "payload_trailer options key tok e = Inr e'" "payload_tail profile options e' = Inr w"
    by (auto simp: payload_end_def split: sum.splits)
  from trailer_append [OF e'(1)] obtain bs where
    bs: "\<forall>c. payload_trailer options key tok (e\<lparr>enc_buffer := c\<rparr>) = Inr (e'\<lparr>enc_buffer := c @ bs\<rparr>)" by blast
  from tail_append [OF e'(2)] obtain cs where
    cs: "\<forall>c. payload_tail profile options (e'\<lparr>enc_buffer := c\<rparr>) = Inr (c @ cs)" by blast
  from bs cs show ?thesis by (intro exI [of _ "bs @ cs"]) (simp add: payload_end_def)
qed

text \<open>
  A document or raw payload reaches the wire verbatim: what is sent is a head and a tail
  that are the same for every content of that tier, with the caller's bytes unchanged between.
\<close>

theorem payload_bytes_verbatim:
  assumes "tier = RawPayload \<or> (\<exists>cp. tier = (\<lambda>b. DocumentPayload b cp))"
    and "buildPayload profile width_dots (tier b) options attempt key banner tok = Inr w"
  shows "\<exists>head tail. w = head @ b @ tail \<and>
    (\<forall>b'. buildPayload profile width_dots (tier b') options attempt key banner tok = Inr (head @ b' @ tail))"
proof -
  let ?e = "payload_head profile (tier b) options attempt key banner"
  have same: "payload_head profile (tier b') options attempt key banner = ?e" for b'
    using assms(1) by (auto simp: payload_head_def payload_code_page_def)
  have content: "payload_content width_dots (tier b') e = Inr (raw b' e)" for b' e
    using assms(1) by (auto simp: payload_content_def)
  from assms(2) have "payload_end profile options key tok (raw b ?e) = Inr w"
    by (simp add: buildPayload_def content)
  from end_append [OF this] obtain post where
    post: "\<And>c. payload_end profile options key tok ((raw b ?e)\<lparr>enc_buffer := c\<rparr>) = Inr (c @ post)" by blast
  have raw: "(raw b ?e)\<lparr>enc_buffer := enc_buffer ?e @ b'\<rparr> = raw b' ?e" for b'
    by (simp add: raw_def put_def)
  have all: "buildPayload profile width_dots (tier b') options attempt key banner tok =
      Inr (enc_buffer ?e @ b' @ post)" for b'
    using post [of "enc_buffer ?e @ b'"] unfolding raw by (simp add: buildPayload_def content same [of b'])
  have "Inr w = (Inr (enc_buffer ?e @ b @ post) :: encoding_error + bytes)"
    by (rule trans [OF assms(2) [symmetric] all])
  then have "w = enc_buffer ?e @ b @ post" by (rule sum.inject(2) [THEN iffD1])
  then show ?thesis
    by (intro exI [of _ "enc_buffer ?e"] exI [of _ post] conjI allI all)
qed

theorem payload_bytes_verbatim_witness:
  "\<exists>head tail. \<forall>b'. buildPayload generic_escpos 576 (RawPayload b') default_options 1 ''k'' False [] =
     Inr (head @ b' @ tail)"
proof -
  have "\<exists>w. buildPayload generic_escpos 576 (RawPayload [0x41]) default_options 1 ''k'' False [] = Inr w"
    by (simp add: buildPayload_def payload_content_def payload_end_def payload_trailer_def payload_tail_def default_options_def)
  then obtain w where "buildPayload generic_escpos 576 (RawPayload [0x41]) default_options 1 ''k'' False [] = Inr w"
    by blast
  from payload_bytes_verbatim [of RawPayload, OF _ this] show ?thesis by blast
qed


end
