(* ===== verification/Engine.thy ===== *)
theory Engine imports
  Backchannel
  Job_Payload
begin

text \<open>
  The state one printer's worker thread works on (\<^verbatim>\<open>PrinterRuntime\<close> of
  \<^verbatim>\<open>core/src/driver.cpp\<close>) and the operations every job path is made of: connecting, the
  paced write, the waits, persisting and publishing a transition, ending a job, leasing its
  tokens. What the outside does is an argument: one turn per connect, write and wait, and one
  disk outcome per journal append. What the engine does that others can see is a log of effects.
\<close>

section \<open>State\<close>

record print_job =
  pj_id :: string
  pj_key :: string
  pj_printer_id :: string
  pj_attempt :: u32
  pj_state :: job_state
  pj_confidence :: confidence_level
  pj_history :: "job_event list"
  pj_result :: job_result
  pj_terminal :: bool
  pj_print_token :: string
  pj_cut_token :: string

definition new_job :: "string \<Rightarrow> string \<Rightarrow> string \<Rightarrow> u32 \<Rightarrow> print_job" where
  "new_job i key printer_id attempt =
     \<lparr>pj_id = i, pj_key = key, pj_printer_id = printer_id, pj_attempt = attempt,
      pj_state = JS_Queued, pj_confidence = CL_TransportAccepted, pj_history = [],
      pj_result = mk_result JO_Unknown CL_TransportAccepted FR_None, pj_terminal = False,
      pj_print_token = [], pj_cut_token = []\<rparr>"

text \<open>\<^verbatim>\<open>PrintJob::emit\<close>, \<^verbatim>\<open>finish\<close> and \<^verbatim>\<open>setTokens\<close>.\<close>

definition job_emit :: "job_event \<Rightarrow> print_job \<Rightarrow> print_job" where
  "job_emit ev j =
     j\<lparr>pj_state := je_state ev, pj_confidence := je_confidence ev, pj_history := pj_history j @ [ev]\<rparr>"

definition job_finish :: "job_result \<Rightarrow> print_job \<Rightarrow> print_job" where
  "job_finish r j = j\<lparr>pj_result := r, pj_terminal := True\<rparr>"

definition setTokens :: "string \<Rightarrow> string \<Rightarrow> print_job \<Rightarrow> print_job" where
  "setTokens p c j = j\<lparr>pj_print_token := p, pj_cut_token := c\<rparr>"

text \<open>
  One turn of the outside: whether the transport still claims to be connected, at which byte
  the call fails if it does, what the reader thread delivers until the call ends, and whether
  a deadline looked at afterwards has passed.
\<close>

record turn =
  tn_alive :: bool
  tn_fail :: "nat option"
  tn_arrivals :: "arrival list"
  tn_late :: bool

definition quiet_turn :: turn where
  "quiet_turn = \<lparr>tn_alive = True, tn_fail = None, tn_arrivals = [], tn_late = True\<rparr>"

datatype effect =
    Journaled string job_state confidence_level failure_reason
  | JournaledTokens string string string
  | Published string job_event
  | Wrote bytes
  | Received bytes
  | Notified device_event
  | Finished string job_result

record engine =
  en_profile :: capability_profile
  en_width_dots :: u32
  en_printer_id :: string
  en_link :: link
  en_transport :: bool
  en_had_connection :: bool
  en_store :: job_store
  en_markers :: marker_allocator
  en_registrations :: registrations
  en_jobs :: "string \<rightharpoonup> print_job"
  en_by_token :: "string \<Rightarrow> string list"
  en_turns :: "turn list"
  en_disk :: "(append_io \<times> u64) list"
  en_log :: "effect list"

definition log_effect :: "effect \<Rightarrow> engine \<Rightarrow> engine" where
  "log_effect x e = e\<lparr>en_log := en_log e @ [x]\<rparr>"

definition on_link :: "(link \<Rightarrow> link) \<Rightarrow> engine \<Rightarrow> engine" where
  "on_link f e = e\<lparr>en_link := f (en_link e)\<rparr>"

definition on_job :: "string \<Rightarrow> (print_job \<Rightarrow> print_job) \<Rightarrow> engine \<Rightarrow> engine" where
  "on_job i f e = e\<lparr>en_jobs := (en_jobs e)(i := map_option f (en_jobs e i))\<rparr>"

section \<open>The outside\<close>

definition take_turn :: "engine \<Rightarrow> turn \<times> engine" where
  "take_turn e = (case en_turns e of [] \<Rightarrow> (quiet_turn, e) | t # ts \<Rightarrow> (t, e\<lparr>en_turns := ts\<rparr>))"

definition take_disk :: "engine \<Rightarrow> (append_io \<times> u64) \<times> engine" where
  "take_disk e = (case en_disk e of [] \<Rightarrow> ((AppendOk, 0), e) | d # ds \<Rightarrow> (d, e\<lparr>en_disk := ds\<rparr>))"

text \<open>The reader thread delivers; \<^verbatim>\<open>dispatchDeviceEvents\<close> tells the subscribers.\<close>

definition arrive :: "arrival \<Rightarrow> engine \<Rightarrow> engine" where
  "arrive a e =
     (case deliver (en_markers e) a (en_link e) of
        (lk, es) \<Rightarrow> e\<lparr>en_link := lk,
           en_log := en_log e @ (case a of Rx d \<Rightarrow> [Received d] | _ \<Rightarrow> []) @ map Notified es\<rparr>)"

definition arrive_all :: "arrival list \<Rightarrow> engine \<Rightarrow> engine" where
  "arrive_all as e = foldl (\<lambda>e a. arrive a e) e as"

definition ensureConnected :: "engine \<Rightarrow> bool \<times> engine" where
  "ensureConnected e =
     (case take_turn e of
        (t, e1) \<Rightarrow>
          let e2 = arrive_all (tn_arrivals t) e1
          in if en_transport e2 \<and> tn_alive t then (True, e2)
             else if tn_fail t \<noteq> None then (False, e2\<lparr>en_transport := False\<rparr>)
             else let restored = en_had_connection e2;
                      e3 = on_link (\<lambda>lk. lk\<lparr>lk_status := (lk_status lk)\<lparr>ds_connected := True\<rparr>\<rparr>)
                             (e2\<lparr>en_transport := True, en_had_connection := True\<rparr>)
                  in (True, if restored then log_effect (Notified DE_ConnectionRestored) e3 else e3))"

text \<open>One \<^verbatim>\<open>Transport::write\<close>: whether all bytes were accepted and how many were.\<close>

definition write_once :: "bytes \<Rightarrow> engine \<Rightarrow> (bool \<times> nat) \<times> engine" where
  "write_once bs e =
     (case take_turn e of
        (t, e1) \<Rightarrow>
          let n = (case tn_fail t of None \<Rightarrow> length bs | Some k \<Rightarrow> min k (length bs))
          in ((tn_fail t = None, n), arrive_all (tn_arrivals t) (log_effect (Wrote (take n bs)) e1)))"

function send_chunks :: "nat \<Rightarrow> bytes \<Rightarrow> nat \<Rightarrow> engine \<Rightarrow> (bool \<times> nat) \<times> engine" where
  "send_chunks chunk bs offset e =
     (if bs = [] \<or> chunk = 0 then ((True, offset), e)
      else case write_once (take chunk bs) e of
             ((True, n), e') \<Rightarrow> send_chunks chunk (drop chunk bs) (offset + min chunk (length bs)) e'
           | ((False, n), e') \<Rightarrow> ((False, offset + n), e'))"
  by pat_completeness auto
termination by (relation "measure (\<lambda>(chunk, bs, offset, e). length bs)") auto

declare send_chunks.simps [simp del]

definition sendPaced :: "capability_profile \<Rightarrow> bytes \<Rightarrow> engine \<Rightarrow> (bool \<times> nat) \<times> engine" where
  "sendPaced profile bs e =
     (if \<not> en_transport e then ((False, 0), e)
      else if cp_chunk_bytes profile = 0 then write_once bs e
      else send_chunks (cp_chunk_bytes profile) bs 0 e)"

text \<open>A wait: what arrives until it ends, then the code's checks in their order.\<close>

definition waiting :: "(link \<Rightarrow> 'r \<times> link) \<Rightarrow> engine \<Rightarrow> 'r \<times> engine" where
  "waiting f e =
     (case take_turn e of
        (t, e1) \<Rightarrow>
          let e2 = arrive_all (tn_arrivals t) e1
          in case f (en_link e2) of (r, lk) \<Rightarrow> (r, e2\<lparr>en_link := lk\<rparr>))"

section \<open>Steps that may return early or throw\<close>

datatype 'a flow = Next 'a | Returned | Raised string

type_synonym 'a phase = "engine \<Rightarrow> 'a flow \<times> engine"

definition run_then :: "'a phase \<Rightarrow> ('a \<Rightarrow> 'b phase) \<Rightarrow> 'b phase" where
  "run_then m k e =
     (case m e of
        (Next a, e') \<Rightarrow> k a e'
      | (Returned, e') \<Rightarrow> (Returned, e')
      | (Raised x, e') \<Rightarrow> (Raised x, e'))"

definition perform :: "(engine \<Rightarrow> 'r \<times> engine) \<Rightarrow> 'r phase" where
  "perform f e = (case f e of (r, e') \<Rightarrow> (Next r, e'))"

definition change :: "(engine \<Rightarrow> engine) \<Rightarrow> unit phase" where
  "change f e = (Next (), f e)"

definition skip :: "unit phase" where
  "skip e = (Next (), e)"

definition return_early :: "'a phase" where
  "return_early e = (Returned, e)"

text \<open>The value of an encoding step, or its exception.\<close>

definition encoded :: "encoding_error + 'r \<Rightarrow> 'r phase" where
  "encoded r e = (case r of Inl (EncodingError msg) \<Rightarrow> (Raised msg, e) | Inr v \<Rightarrow> (Next v, e))"

section \<open>Transitions\<close>

text \<open>\<^verbatim>\<open>advance\<close>: persist, then publish. A journal failure leaves as an exception.\<close>

definition advance ::
    "string \<Rightarrow> job_state \<Rightarrow> confidence_level \<Rightarrow> failure_reason \<Rightarrow> job_evidence \<Rightarrow> unit phase" where
  "advance i state confidence reason evidence e =
     (case take_disk e of
        ((io, now), e1) \<Rightarrow>
          (case recordState io now i state confidence reason evidence (en_store e1) of
             (s, Some (StoreError msg)) \<Rightarrow> (Raised msg, e1\<lparr>en_store := s\<rparr>)
           | (s, None) \<Rightarrow>
               let ev = make_event state confidence (if reason = FR_None then None else Some reason)
               in (Next (),
                   log_effect (Published i ev)
                     (on_job i (job_emit ev)
                       (log_effect (Journaled i state confidence reason) (e1\<lparr>en_store := s\<rparr>))))))"

definition result_evidence :: "job_result \<Rightarrow> job_evidence" where
  "result_evidence r = \<lparr>ev_grade = jr_grade r, ev_authority = jr_authority r, ev_method = jr_method r\<rparr>"

definition terminate_job :: "string \<Rightarrow> job_state \<Rightarrow> job_result \<Rightarrow> unit phase" where
  "terminate_job i state outcome =
     run_then (advance i state (jr_confidence outcome) (jr_reason outcome) (result_evidence outcome))
       (\<lambda>_. change (\<lambda>e. log_effect (Finished i outcome) (on_job i (job_finish outcome) e)))"

text \<open>\<^verbatim>\<open>terminate(...); return;\<close>\<close>

definition end_job :: "string \<Rightarrow> job_state \<Rightarrow> job_result \<Rightarrow> 'a phase" where
  "end_job i state outcome = run_then (terminate_job i state outcome) (\<lambda>_. return_early)"

text \<open>\<^verbatim>\<open>JobIndex::registerToken\<close>.\<close>

definition registerToken :: "string \<Rightarrow> string \<Rightarrow> (string \<Rightarrow> string list) \<Rightarrow> string \<Rightarrow> string list" where
  "registerToken token i m = (if token = [] then m else m(token := m token @ [i]))"

text \<open>
  \<^verbatim>\<open>leaseTokens\<close>: nothing without a wire token to promote; else a pair that is on the job, in
  the journal and in the index. The lease is given back when the job function is left.
\<close>

definition leaseTokens :: "string \<Rightarrow> capability_profile \<Rightarrow> bool \<Rightarrow> marker_pair option phase" where
  "leaseTokens i profile custom_completion e =
     (if cp_completion profile \<noteq> CM_GsParenH \<and> \<not> custom_completion then (Next None, e)
      else case acquire (en_markers e) of
             (None, mk) \<Rightarrow> (Raised ''no free completion marker tokens'', e\<lparr>en_markers := mk\<rparr>)
           | (Some p, mk) \<Rightarrow>
               (case take_disk (on_job i (setTokens (mp_print p) (mp_cut p)) (e\<lparr>en_markers := mk\<rparr>)) of
                  ((io, now), e1) \<Rightarrow>
                    (case recordTokens io i (mp_print p) (mp_cut p) (en_store e1) of
                       (s, Some (StoreError msg)) \<Rightarrow> (Raised msg, e1\<lparr>en_store := s\<rparr>)
                     | (s, None) \<Rightarrow>
                         (Next (Some p),
                          log_effect (JournaledTokens i (mp_print p) (mp_cut p))
                            (e1\<lparr>en_store := s,
                               en_by_token := registerToken (mp_cut p) i
                                                (registerToken (mp_print p) i (en_by_token e1))\<rparr>)))))"

definition release_lease :: "marker_pair option \<Rightarrow> engine \<Rightarrow> engine" where
  "release_lease lease e =
     (case lease of None \<Rightarrow> e | Some p \<Rightarrow> e\<lparr>en_markers := release p (en_markers e)\<rparr>)"

text \<open>The rest of a function under a lease: the destructor runs whichever way it is left.\<close>

definition under_lease :: "marker_pair option \<Rightarrow> 'a phase \<Rightarrow> 'a phase" where
  "under_lease lease m e = (case m e of (f, e') \<Rightarrow> (f, release_lease lease e'))"

end
