(* ===== verification/Job_Engine.thy ===== *)
theory Job_Engine imports
  Engine
begin

text \<open>
  \<^verbatim>\<open>runJob\<close> and \<^verbatim>\<open>runStarJob\<close> of \<^verbatim>\<open>core/src/driver.cpp\<close>, paragraph by paragraph: the
  refusals, the preflight, the token lease, the framed payload behind a durable \<^verbatim>\<open>SendStarted\<close>,
  the print fence, the cut and its fence, and the cutter status. Then the job protocol: an
  automaton over the effects a job may have, which every run of either path follows.
\<close>

section \<open>What a job run is about\<close>

record job_run =
  jx_id :: string
  jx_key :: string
  jx_profile :: capability_profile
  jx_options :: job_options
  jx_custom :: "completion_method option"

definition jx_ceiling :: "job_run \<Rightarrow> confidence_level" where
  "jx_ceiling x = maxConfidence (jx_profile x)"

text \<open>The lambda \<^verbatim>\<open>reached\<close>.\<close>

definition reached :: "job_run \<Rightarrow> confidence_level \<Rightarrow> confidence_level" where
  "reached x confidence = clamp_to confidence (jx_ceiling x)"

definition transport_evidence :: job_evidence where
  "transport_evidence = evidenceFor CM_None"

definition no_evidence :: job_evidence where
  "no_evidence = mk_evidence CG_E_TransportOnly CA_TransportOnly ''none''"

definition status_evidence :: job_evidence where
  "status_evidence = mk_evidence CG_C_DeviceStatusAround CA_PhysicalPrinter ''DLE EOT''"

definition success_evidence :: "job_run \<Rightarrow> job_evidence" where
  "success_evidence x =
     (case jx_custom x of
        Some m \<Rightarrow> mk_evidence (cm_grade m) (cm_authority m) (cm_method_name m)
      | None \<Rightarrow> profile_evidence (jx_profile x))"

text \<open>The ways a job ends.\<close>

definition fail_job :: "job_run \<Rightarrow> failure_reason \<Rightarrow> confidence_level \<Rightarrow> job_evidence \<Rightarrow> 'a phase" where
  "fail_job x reason confidence evidence =
     end_job (jx_id x) JS_FailedKnown (result_with evidence (result_failed reason (reached x confidence)))"

definition lose_job :: "job_run \<Rightarrow> failure_reason \<Rightarrow> confidence_level \<Rightarrow> 'a phase" where
  "lose_job x reason confidence =
     end_job (jx_id x) JS_Unknown
       (result_with transport_evidence (mk_result JO_Unknown (reached x confidence) reason))"

definition complete_job :: "job_run \<Rightarrow> confidence_level \<Rightarrow> job_evidence \<Rightarrow> 'a phase" where
  "complete_job x confidence evidence =
     end_job (jx_id x) JS_DoneSoftware (result_with evidence (result_done (reached x confidence)))"

text \<open>A transition on the way.\<close>

definition pass_state :: "job_run \<Rightarrow> job_state \<Rightarrow> confidence_level \<Rightarrow> unit phase" where
  "pass_state x state confidence = advance (jx_id x) state (reached x confidence) FR_None default_evidence"

definition value_of :: "'a \<Rightarrow> 'a phase" where
  "value_of v e = (Next v, e)"

section \<open>Preflight\<close>

definition preflight_kinds :: "dle_eot_kind list" where
  "preflight_kinds = [PrinterStatus, OfflineCause, ErrorCause, PaperSensor]"

definition preflight_bytes :: bytes where
  "preflight_bytes = concat (map dleEot preflight_kinds)"

definition expect_preflight :: "link \<Rightarrow> link" where
  "expect_preflight lk = lk\<lparr>lk_parser := foldl (\<lambda>p k. expectRealtime k p) (lk_parser lk) preflight_kinds\<rparr>"

definition merge_answer :: "status_flags \<Rightarrow> parsed_event \<Rightarrow> status_flags" where
  "merge_answer m ev =
     (let f = pe_flags ev
      in m\<lparr>sf_online := newer (sf_online f) (sf_online m),
           sf_cover_open := newer (sf_cover_open f) (sf_cover_open m),
           sf_paper_out := newer (sf_paper_out f) (sf_paper_out m),
           sf_paper_near_end := newer (sf_paper_near_end f) (sf_paper_near_end m),
           sf_cutter_error := newer (sf_cutter_error f) (sf_cutter_error m),
           sf_unrecoverable_error := newer (sf_unrecoverable_error f) (sf_unrecoverable_error m)\<rparr>)"

definition refusal_of :: "status_flags \<Rightarrow> failure_reason option" where
  "refusal_of m =
     (if value_or (sf_cover_open m) False then Some FR_PreflightCoverOpen
      else if value_or (sf_paper_out m) False then Some FR_PreflightPaperOut
      else if value_or (sf_unrecoverable_error m) False \<or> value_or (sf_cutter_error m) False \<or>
              sf_online m = Some False then Some FR_PreflightHardwareError
      else None)"

definition judge_preflight :: "job_run \<Rightarrow> parsed_event list \<Rightarrow> confidence_level \<Rightarrow> confidence_level phase" where
  "judge_preflight x answers confidence =
     (case refusal_of (foldl merge_answer no_flags answers) of
        Some reason \<Rightarrow> fail_job x reason confidence status_evidence
      | None \<Rightarrow>
          if answers = [] then value_of confidence
          else let c = raise_to confidence CL_PrinterHealthy
               in run_then (pass_state x JS_PreflightOk c) (\<lambda>_. value_of c))"

definition preflight :: "job_run \<Rightarrow> confidence_level \<Rightarrow> confidence_level phase" where
  "preflight x confidence =
     (if op_preflight (jx_options x) \<noteq> PreflightStrict \<or> \<not> ss_dle_eot (cp_status (jx_profile x))
      then value_of confidence
      else run_then (change (on_link expect_preflight)) (\<lambda>_.
           run_then (perform (sendPaced (jx_profile x) preflight_bytes)) (\<lambda>sent.
             if \<not> fst sent then fail_job x FR_TransportUnreachable confidence no_evidence
             else run_then (perform (waiting (awaitRealtime 4))) (\<lambda>r.
               if fst r = WaitLinkDown then fail_job x FR_TransportUnreachable confidence no_evidence
               else run_then (change (on_link clearRealtime)) (\<lambda>_. judge_preflight x (snd r) confidence)))))"

section \<open>Payload, fence, cut\<close>

definition send_payload :: "job_run \<Rightarrow> bytes \<Rightarrow> confidence_level \<Rightarrow> unit phase" where
  "send_payload x wire confidence =
     run_then (pass_state x JS_SendStarted confidence) (\<lambda>_.
     run_then (perform (sendPaced (jx_profile x) wire)) (\<lambda>sent.
       if fst sent then skip
       else if snd sent = 0 then fail_job x FR_TransportUnreachable confidence no_evidence
       else lose_job x FR_Unknown confidence))"

definition custom_fence_bytes :: "completion_method \<Rightarrow> string \<Rightarrow> bytes" where
  "custom_fence_bytes m token = (case cm_fence_bytes m of Some f \<Rightarrow> f token | None \<Rightarrow> [])"

definition expect_queued :: "link \<Rightarrow> link" where
  "expect_queued lk = lk\<lparr>lk_parser := expectQueued (lk_parser lk)\<rparr>"

definition print_fence :: "job_run \<Rightarrow> string \<Rightarrow> bytes phase" where
  "print_fence x token =
     (case jx_custom x of
        Some m \<Rightarrow> run_then (change (on_link armCustomFence)) (\<lambda>_. value_of (custom_fence_bytes m token))
      | None \<Rightarrow>
          (case cp_completion (jx_profile x) of
             CM_GsParenH \<Rightarrow> encoded (processIdMarker token)
           | CM_GsR1 \<Rightarrow> run_then (change (on_link expect_queued)) (\<lambda>_. value_of gsPaperStatus)
           | _ \<Rightarrow> let variant = effectiveCut (op_cut (jx_options x)) (jx_profile x)
                  in if variant \<noteq> CV_None then encoded (buildCut (jx_profile x) (jx_options x) variant token)
                     else value_of []))"

definition send_fence :: "job_run \<Rightarrow> bytes \<Rightarrow> confidence_level \<Rightarrow> unit phase" where
  "send_fence x fence confidence =
     (if fence = [] then skip
      else run_then (perform (sendPaced (jx_profile x) fence)) (\<lambda>sent.
             if fst sent then skip else lose_job x FR_Unknown confidence))"

definition await_ack :: "job_run \<Rightarrow> string \<Rightarrow> wait_outcome phase" where
  "await_ack x token =
     (if jx_custom x \<noteq> None then perform (waiting (awaitCustomToken token))
      else if cp_completion (jx_profile x) = CM_GsParenH then perform (waiting (awaitToken token))
      else perform (waiting (\<lambda>lk. case awaitQueued lk of ((w, b), lk') \<Rightarrow> (w, lk'))))"

text \<open>What a wait without an answer makes of the job.\<close>

definition unanswered :: "job_run \<Rightarrow> wait_outcome \<Rightarrow> confidence_level \<Rightarrow> unit phase" where
  "unanswered x w confidence =
     (if w = Signalled then skip
      else lose_job x (if w = WaitTimeout then FR_TimeoutAwaitingCompletion else FR_Unknown) confidence)"

definition cut_wire :: "job_run \<Rightarrow> cut_variant \<Rightarrow> string \<Rightarrow> bytes phase" where
  "cut_wire x variant token =
     run_then (encoded (buildCut (jx_profile x) (jx_options x) variant token)) (\<lambda>bs.
       case jx_custom x of
         Some m \<Rightarrow> run_then (change (on_link armCustomFence)) (\<lambda>_. value_of (bs @ custom_fence_bytes m token))
       | None \<Rightarrow>
           if cp_completion (jx_profile x) = CM_GsR1
           then run_then (change (on_link expect_queued)) (\<lambda>_. value_of bs)
           else value_of bs)"

text \<open>\<^verbatim>\<open>DLE EOT 3\<close> behind the cut's fence.\<close>

definition cutter_status :: "job_run \<Rightarrow> confidence_level \<Rightarrow> unit phase" where
  "cutter_status x confidence =
     run_then (change (on_link clearRealtime)) (\<lambda>_.
     run_then (change (on_link (\<lambda>lk. lk\<lparr>lk_parser := expectRealtime ErrorCause (lk_parser lk)\<rparr>))) (\<lambda>_.
     run_then (perform (sendPaced (jx_profile x) (dleEot ErrorCause))) (\<lambda>sent.
     run_then (if fst sent then run_then (perform (waiting (awaitRealtime 1))) (\<lambda>r. value_of (snd r))
               else value_of []) (\<lambda>answers.
       if list_ex (\<lambda>ev. value_or (sf_cutter_error (pe_flags ev)) False) answers
       then fail_job x FR_CutterFault confidence status_evidence
       else complete_job x
              (if answers = [] then confidence else raise_to confidence CL_CutFaultFree)
              (profile_evidence (jx_profile x))))))"

definition cut_phase :: "job_run \<Rightarrow> cut_variant \<Rightarrow> string \<Rightarrow> confidence_level \<Rightarrow> unit phase" where
  "cut_phase x variant token confidence =
     run_then (cut_wire x variant token) (\<lambda>bs.
     run_then (perform (sendPaced (jx_profile x) bs)) (\<lambda>sent.
       if \<not> fst sent then lose_job x FR_Unknown confidence
       else run_then (await_ack x token) (\<lambda>w.
            run_then (unanswered x w confidence) (\<lambda>_.
              let c = raise_to confidence CL_CutProcessed
              in run_then (pass_state x JS_CutCommandProcessed c) (\<lambda>_.
                   if cp_completion (jx_profile x) \<noteq> CM_GsParenH
                   then complete_job x c (success_evidence x)
                   else cutter_status x c)))))"

text \<open>From the payload to the end, under the lease of the two tokens.\<close>

definition print_phase ::
    "job_run \<Rightarrow> u32 \<Rightarrow> payload \<Rightarrow> u32 \<Rightarrow> bool \<Rightarrow> confidence_level \<Rightarrow> marker_pair option \<Rightarrow> unit phase" where
  "print_phase x width_dots payload attempt banner confidence lease =
     (let print_token = (case lease of Some p \<Rightarrow> mp_print p | None \<Rightarrow> []);
          cut_token = (case lease of Some p \<Rightarrow> mp_cut p | None \<Rightarrow> []);
          variant = effectiveCut (op_cut (jx_options x)) (jx_profile x)
      in run_then (encoded (buildPayload (jx_profile x) width_dots payload (jx_options x) attempt
                              (jx_key x) banner print_token)) (\<lambda>wire.
         run_then (send_payload x wire confidence) (\<lambda>_.
         run_then (print_fence x print_token) (\<lambda>fence.
         run_then (send_fence x fence confidence) (\<lambda>_.
         run_then (pass_state x JS_BytesSent confidence) (\<lambda>_.
           if cp_completion (jx_profile x) = CM_None
           then complete_job x CL_TransportAccepted (profile_evidence (jx_profile x))
           else run_then (await_ack x print_token) (\<lambda>w.
                run_then (unanswered x w confidence) (\<lambda>_.
                  let c = raise_to confidence CL_PrintConfirmed
                  in run_then (pass_state x JS_PrintConfirmed c) (\<lambda>_.
                       if variant = CV_None then complete_job x c (success_evidence x)
                       else cut_phase x variant cut_token c)))))))))"

section \<open>The Star path\<close>

definition enter_star_mode :: "capability_profile \<Rightarrow> link \<Rightarrow> link" where
  "enter_star_mode profile lk =
     lk\<lparr>lk_star_mode := True,
        lk_star_parser := setAsbBlockBytes (sr_asb_block_bytes (cp_star profile)) (lk_star_parser lk)\<rparr>"

definition star_preamble_bytes :: bytes where
  "star_preamble_bytes = star_asbEnable @ clearEtbCounter"

definition star_preamble :: "job_run \<Rightarrow> confidence_level \<Rightarrow> unit phase" where
  "star_preamble x confidence =
     (if cp_completion (jx_profile x) \<noteq> CM_StarEtb then skip
      else run_then (perform (sendPaced (jx_profile x) star_preamble_bytes)) (\<lambda>sent.
             if \<not> fst sent then fail_job x FR_TransportUnreachable confidence no_evidence
             else change (on_link (\<lambda>lk. lk\<lparr>lk_star_counter := Some 0\<rparr>))))"

definition star_cut_of :: "cut_variant \<Rightarrow> bytes" where
  "star_cut_of variant =
     sn_buffer (sn_cut (if variant = CV_Full then StarFull else StarPartial) new_star_encoder)"

text \<open>The fence is armed before its bytes leave.\<close>

definition arm_star :: "job_run \<Rightarrow> bytes phase" where
  "arm_star x = perform (\<lambda>e. case armStarFence (jx_profile x) (en_link e) of
                                (bs, lk) \<Rightarrow> (bs, e\<lparr>en_link := lk\<rparr>))"

definition star_send :: "job_run \<Rightarrow> bytes \<Rightarrow> confidence_level \<Rightarrow> unit phase" where
  "star_send x bs confidence =
     run_then (perform (sendPaced (jx_profile x) bs)) (\<lambda>sent.
       if fst sent then skip else lose_job x FR_Unknown confidence)"

definition star_unfenced :: "job_run \<Rightarrow> cut_variant \<Rightarrow> confidence_level \<Rightarrow> unit phase" where
  "star_unfenced x variant confidence =
     run_then (if variant \<noteq> CV_None
               then run_then (perform (sendPaced (jx_profile x) (star_cut_of variant))) (\<lambda>_. skip)
               else skip) (\<lambda>_.
     run_then (pass_state x JS_BytesSent confidence) (\<lambda>_.
       complete_job x CL_TransportAccepted (profile_evidence (jx_profile x))))"

definition star_cut_phase :: "job_run \<Rightarrow> cut_variant \<Rightarrow> confidence_level \<Rightarrow> unit phase" where
  "star_cut_phase x variant confidence =
     run_then (arm_star x) (\<lambda>fence.
     run_then (star_send x (star_cut_of variant @ fence) confidence) (\<lambda>_.
     run_then (perform (waiting awaitStarFence)) (\<lambda>w.
     run_then (unanswered x w confidence) (\<lambda>_.
       let c = raise_to confidence CL_CutProcessed
       in run_then (pass_state x JS_CutCommandProcessed c) (\<lambda>_.
            complete_job x c (profile_evidence (jx_profile x)))))))"

definition star_fenced :: "job_run \<Rightarrow> cut_variant \<Rightarrow> confidence_level \<Rightarrow> unit phase" where
  "star_fenced x variant confidence =
     run_then (arm_star x) (\<lambda>fence.
     run_then (star_send x fence confidence) (\<lambda>_.
     run_then (pass_state x JS_BytesSent confidence) (\<lambda>_.
     run_then (perform (waiting awaitStarFence)) (\<lambda>w.
     run_then (unanswered x w confidence) (\<lambda>_.
       let c = raise_to confidence CL_PrintConfirmed
       in run_then (pass_state x JS_PrintConfirmed c) (\<lambda>_.
            if variant = CV_None then complete_job x c (profile_evidence (jx_profile x))
            else star_cut_phase x variant c))))))"

definition runStarJob :: "job_run \<Rightarrow> u32 \<Rightarrow> payload \<Rightarrow> u32 \<Rightarrow> bool \<Rightarrow> unit phase" where
  "runStarJob x width_dots payload attempt banner =
     (let confidence = CL_TransportAccepted;
          variant = effectiveCut (op_cut (jx_options x)) (jx_profile x)
      in run_then (perform ensureConnected) (\<lambda>ok.
           if \<not> ok then fail_job x FR_TransportUnreachable confidence no_evidence
           else run_then (change (on_link (\<lambda>lk. enter_star_mode (jx_profile x) (beginJobIo lk)))) (\<lambda>_.
                run_then (star_preamble x confidence) (\<lambda>_.
                run_then (encoded (buildStarPayload (jx_profile x) width_dots payload (jx_options x)
                                     attempt (jx_key x) banner)) (\<lambda>built.
                run_then (send_payload x (fst built) confidence) (\<lambda>_.
                  if cp_completion (jx_profile x) = CM_None then star_unfenced x variant confidence
                  else star_fenced x variant confidence))))))"

section \<open>The job\<close>

definition custom_method_for :: "capability_profile \<Rightarrow> registrations \<Rightarrow> completion_method option" where
  "custom_method_for profile r =
     (if cp_completion profile = CM_VendorIdle \<and> cp_completion_vendor_id profile \<noteq> []
      then completionMethod (cp_completion_vendor_id profile) r else None)"

definition runJob :: "string \<Rightarrow> string \<Rightarrow> payload \<Rightarrow> job_options \<Rightarrow> u32 \<Rightarrow> bool \<Rightarrow> unit phase" where
  "runJob i key payload options attempt banner e =
     (let profile = en_profile e;
          custom = custom_method_for profile (en_registrations e);
          x = \<lparr>jx_id = i, jx_key = key, jx_profile = profile, jx_options = options, jx_custom = custom\<rparr>;
          confidence = CL_TransportAccepted
      in (if \<not> drivableByEscposEngine profile \<and> custom = None then
            (if drivableByStarEngine profile then runStarJob x (en_width_dots e) payload attempt banner
             else fail_job x FR_Unsupported confidence no_evidence)
          else run_then (perform ensureConnected) (\<lambda>ok.
                 if \<not> ok then fail_job x FR_TransportUnreachable confidence no_evidence
                 else run_then (change (on_link (\<lambda>lk. setCustomMethod custom (beginJobIo lk)))) (\<lambda>_.
                      run_then (preflight x confidence) (\<lambda>c.
                      run_then (leaseTokens i profile (custom \<noteq> None)) (\<lambda>lease.
                        under_lease lease
                          (print_phase x (en_width_dots e) payload attempt banner c lease)))))) e)"

end
