(* ===== verification/Job_Protocol.thy ===== *)
theory Job_Protocol imports
  Job_Engine
  "HOL-Library.Sublist"
begin

text \<open>
  The contract of a job, as an automaton over the effects of its run, and the proof that every
  run of \<^verbatim>\<open>runJob\<close> follows it, whatever the printer, the link and the disk do. The ordering
  rules of the engine are then facts about words of the automaton: nothing but status requests
  before a durable \<^verbatim>\<open>SendStarted\<close>, no publication without its journal entry, a known failure
  only where no payload byte was accepted, one terminal transition, a confidence that never
  falls and never passes the profile's ceiling.
\<close>

section \<open>The protocol\<close>

record protocol =
  pr_state :: job_state
  pr_confidence :: confidence_level
  pr_reason :: failure_reason
  pr_pending :: "job_event option"
  pr_early :: bytes
  pr_sent :: nat
  pr_result :: "job_result option"

definition protocol_start :: protocol where
  "protocol_start =
     \<lparr>pr_state = JS_Queued, pr_confidence = CL_TransportAccepted, pr_reason = FR_None,
      pr_pending = None, pr_early = [], pr_sent = 0, pr_result = None\<rparr>"

text \<open>Which state may be entered next, given the bytes accepted since \<^verbatim>\<open>SendStarted\<close>.\<close>

fun may_enter :: "job_state \<Rightarrow> failure_reason \<Rightarrow> nat \<Rightarrow> job_state \<Rightarrow> bool" where
  "may_enter JS_PreflightOk r sent s = (s = JS_Queued)"
| "may_enter JS_SendStarted r sent s = (s = JS_Queued \<or> s = JS_PreflightOk)"
| "may_enter JS_BytesSent r sent s = (s = JS_SendStarted \<and> 0 < sent)"
| "may_enter JS_PrintConfirmed r sent s = (s = JS_BytesSent)"
| "may_enter JS_CutCommandProcessed r sent s = (s = JS_PrintConfirmed)"
| "may_enter JS_DoneSoftware r sent s =
     (r = FR_None \<and> (s = JS_BytesSent \<or> s = JS_PrintConfirmed \<or> s = JS_CutCommandProcessed))"
| "may_enter JS_FailedKnown r sent s =
     (s = JS_Queued \<or> s = JS_PreflightOk \<or> (s = JS_SendStarted \<and> sent = 0) \<or>
      (s = JS_CutCommandProcessed \<and> r = FR_CutterFault))"
| "may_enter JS_Unknown r sent s =
     (0 < sent \<and> (s = JS_SendStarted \<or> s = JS_BytesSent \<or> s = JS_PrintConfirmed))"
| "may_enter JS_Queued r sent s = False"
| "may_enter JS_PhysicallyVerified r sent s = False"
| "may_enter JS_HeldOffline r sent s = False"

fun outcome_state :: "job_outcome \<Rightarrow> job_state" where
  "outcome_state JO_Done = JS_DoneSoftware"
| "outcome_state JO_Failed = JS_FailedKnown"
| "outcome_state JO_Unknown = JS_Unknown"

definition unsent_states :: "job_state list" where
  "unsent_states = [JS_Queued, JS_PreflightOk]"

definition sending_states :: "job_state list" where
  "sending_states = [JS_SendStarted, JS_BytesSent, JS_PrintConfirmed, JS_CutCommandProcessed]"

text \<open>What may be written before \<^verbatim>\<open>SendStarted\<close>: the status requests, or the Star preamble.\<close>

definition early_bytes :: "job_run \<Rightarrow> bytes" where
  "early_bytes x =
     (if drivableByEscposEngine (jx_profile x) \<or> jx_custom x \<noteq> None then preflight_bytes
      else star_preamble_bytes)"

fun protocol_step :: "job_run \<Rightarrow> effect \<Rightarrow> protocol \<Rightarrow> protocol option" where
  "protocol_step x (Journaled i s c r) p =
     (if i = jx_id x \<and> pr_pending p = None \<and> pr_result p = None \<and>
         may_enter s r (pr_sent p) (pr_state p) \<and> pr_confidence p \<le> c \<and> c \<le> jx_ceiling x
      then Some (p\<lparr>pr_state := s, pr_confidence := c, pr_reason := r,
                   pr_pending := Some (make_event s c (if r = FR_None then None else Some r))\<rparr>)
      else None)"
| "protocol_step x (Published i ev) p =
     (if i = jx_id x \<and> pr_pending p = Some ev then Some (p\<lparr>pr_pending := None\<rparr>) else None)"
| "protocol_step x (JournaledTokens i a b) p =
     (if i = jx_id x \<and> pr_pending p = None \<and> pr_result p = None \<and> pr_state p \<in> set unsent_states
      then Some p else None)"
| "protocol_step x (Wrote bs) p =
     (if pr_pending p \<noteq> None \<or> pr_result p \<noteq> None then None
      else if pr_state p \<in> set unsent_states then
        (if prefix (pr_early p @ bs) (early_bytes x) then Some (p\<lparr>pr_early := pr_early p @ bs\<rparr>) else None)
      else if pr_state p \<in> set sending_states then Some (p\<lparr>pr_sent := pr_sent p + length bs\<rparr>)
      else None)"
| "protocol_step x (Received bs) p =
     (if pr_pending p = None \<and> pr_result p = None then Some p else None)"
| "protocol_step x (Notified ev) p =
     (if pr_pending p = None \<and> pr_result p = None then Some p else None)"
| "protocol_step x (Finished i r) p =
     (if i = jx_id x \<and> pr_pending p = None \<and> pr_result p = None \<and>
         pr_state p = outcome_state (jr_outcome r) \<and> pr_confidence p = jr_confidence r \<and>
         pr_reason p = jr_reason r
      then Some (p\<lparr>pr_result := Some r\<rparr>) else None)"

fun protocol_run :: "job_run \<Rightarrow> effect list \<Rightarrow> protocol \<Rightarrow> protocol option" where
  "protocol_run x [] p = Some p"
| "protocol_run x (ef # w) p = (case protocol_step x ef p of None \<Rightarrow> None | Some q \<Rightarrow> protocol_run x w q)"

lemma protocol_run_append:
  "protocol_run x (u @ v) p = (case protocol_run x u p of None \<Rightarrow> None | Some q \<Rightarrow> protocol_run x v q)"
  by (induction u arbitrary: p) (simp_all split: option.split)

section \<open>What one phase does to the protocol\<close>

definition quiet :: "protocol \<Rightarrow> bool" where
  "quiet p \<longleftrightarrow> pr_pending p = None \<and> pr_result p = None"

text \<open>
  From the protocol state \<^theory_text>\<open>p\<close> the effects of the phase are a word of the protocol; if it goes on
  its value and the state reached satisfy \<^theory_text>\<open>Q\<close>, if it returns the job has its result.
\<close>

definition job_step :: "job_run \<Rightarrow> protocol \<Rightarrow> 'a phase \<Rightarrow> ('a \<Rightarrow> protocol \<Rightarrow> bool) \<Rightarrow> bool" where
  "job_step x p m Q \<longleftrightarrow>
     (\<forall>e f e'. m e = (f, e') \<longrightarrow>
        (\<exists>w p'. en_log e' = en_log e @ w \<and> protocol_run x w p = Some p' \<and>
           (case f of Next a \<Rightarrow> Q a p' | Returned \<Rightarrow> pr_result p' \<noteq> None | Raised msg \<Rightarrow> True)))"

lemma job_stepI:
  "(\<And>e f e'. m e = (f, e') \<Longrightarrow> \<exists>w p'. en_log e' = en_log e @ w \<and> protocol_run x w p = Some p' \<and>
      (case f of Next a \<Rightarrow> Q a p' | Returned \<Rightarrow> pr_result p' \<noteq> None | Raised msg \<Rightarrow> True)) \<Longrightarrow>
   job_step x p m Q"
  by (simp add: job_step_def)

lemma job_step_then:
  assumes "job_step x p m Q" "\<And>a q. Q a q \<Longrightarrow> job_step x q (k a) R"
  shows "job_step x p (run_then m k) R"
proof (rule job_stepI)
  fix e f e' assume run: "run_then m k e = (f, e')"
  obtain g e1 where m: "m e = (g, e1)" by fastforce
  with assms(1) obtain w p1 where w: "en_log e1 = en_log e @ w" "protocol_run x w p = Some p1"
    and g: "case g of Next a \<Rightarrow> Q a p1 | Returned \<Rightarrow> pr_result p1 \<noteq> None | Raised msg \<Rightarrow> True"
    unfolding job_step_def by blast
  show "\<exists>w p'. en_log e' = en_log e @ w \<and> protocol_run x w p = Some p' \<and>
      (case f of Next a \<Rightarrow> R a p' | Returned \<Rightarrow> pr_result p' \<noteq> None | Raised msg \<Rightarrow> True)"
  proof (cases g)
    case (Next a)
    with run m have "k a e1 = (f, e')" by (simp add: run_then_def)
    moreover have "job_step x p1 (k a) R" using assms(2) g Next by simp
    ultimately obtain v p2 where "en_log e' = en_log e1 @ v" "protocol_run x v p1 = Some p2"
      "case f of Next a \<Rightarrow> R a p2 | Returned \<Rightarrow> pr_result p2 \<noteq> None | Raised msg \<Rightarrow> True"
      unfolding job_step_def by blast
    with w show ?thesis by (intro exI [of _ "w @ v"] exI [of _ p2]) (simp add: protocol_run_append)
  qed (use run m w g in \<open>auto simp: run_then_def\<close>)
qed

lemma job_step_weaken:
  assumes "job_step x p m Q" "\<And>a q. Q a q \<Longrightarrow> R a q"
  shows "job_step x p m R"
proof (rule job_stepI)
  fix e f e' assume "m e = (f, e')"
  with assms(1) obtain w p' where w: "en_log e' = en_log e @ w" "protocol_run x w p = Some p'"
    and f: "case f of Next a \<Rightarrow> Q a p' | Returned \<Rightarrow> pr_result p' \<noteq> None | Raised msg \<Rightarrow> True"
    unfolding job_step_def by blast
  from f have "case f of Next a \<Rightarrow> R a p' | Returned \<Rightarrow> pr_result p' \<noteq> None | Raised msg \<Rightarrow> True"
    using assms(2) by (cases f) simp_all
  with w show "\<exists>w p'. en_log e' = en_log e @ w \<and> protocol_run x w p = Some p' \<and>
      (case f of Next a \<Rightarrow> R a p' | Returned \<Rightarrow> pr_result p' \<noteq> None | Raised msg \<Rightarrow> True)" by blast
qed

lemma job_step_silent:
  assumes "\<And>e. fst (m e) = Next a \<and> en_log (snd (m e)) = en_log e" "Q a p"
  shows "job_step x p m Q"
proof (rule job_stepI)
  fix e f e' assume "m e = (f, e')"
  with assms(1) [of e] have "f = Next a" "en_log e' = en_log e" by simp_all
  with assms(2) show "\<exists>w p'. en_log e' = en_log e @ w \<and> protocol_run x w p = Some p' \<and>
      (case f of Next a \<Rightarrow> Q a p' | Returned \<Rightarrow> pr_result p' \<noteq> None | Raised msg \<Rightarrow> True)"
    by (intro exI [of _ "[]"] exI [of _ p]) simp
qed

lemma job_step_value: "Q v p \<Longrightarrow> job_step x p (value_of v) Q"
  by (rule job_step_silent [where a = v]) (simp_all add: value_of_def)

lemma job_step_skip: "Q () p \<Longrightarrow> job_step x p skip Q"
  by (rule job_step_silent [where a = "()"]) (simp_all add: skip_def)

lemma job_step_on_link: "Q () p \<Longrightarrow> job_step x p (change (on_link f)) Q"
  by (rule job_step_silent [where a = "()"]) (simp_all add: change_def on_link_def)

lemma job_step_encoded: "(\<And>v. r = Inr v \<Longrightarrow> Q v p) \<Longrightarrow> job_step x p (encoded r) Q"
  by (rule job_stepI, rule exI [of _ "[]"], rule exI [of _ p])
    (auto simp: encoded_def split: sum.splits encoding_error.splits)

lemma job_step_if:
  "(b \<Longrightarrow> job_step x p m Q) \<Longrightarrow> (\<not> b \<Longrightarrow> job_step x p m' Q) \<Longrightarrow> job_step x p (if b then m else m') Q"
  by simp

section \<open>Input and output\<close>

fun is_io :: "effect \<Rightarrow> bool" where
  "is_io (Wrote bs) = True"
| "is_io (Received bs) = True"
| "is_io (Notified ev) = True"
| "is_io ef = False"

fun written_by :: "effect \<Rightarrow> bytes" where
  "written_by (Wrote bs) = bs"
| "written_by ef = []"

definition written :: "effect list \<Rightarrow> bytes" where
  "written w = concat (map written_by w)"

lemma written_append [simp]: "written (u @ v) = written u @ written v"
  by (simp add: written_def)

lemma written_Cons [simp]: "written (ef # w) = written_by ef @ written w"
  by (simp add: written_def)

lemma written_Nil [simp]: "written [] = []"
  by (simp add: written_def)

text \<open>The engine's log grew by input and output only, and by these written bytes.\<close>

definition io_log :: "bytes \<Rightarrow> engine \<Rightarrow> engine \<Rightarrow> bool" where
  "io_log bs e e' \<longleftrightarrow> (\<exists>w. en_log e' = en_log e @ w \<and> list_all is_io w \<and> written w = bs)"

lemma io_log_refl: "en_log e' = en_log e \<Longrightarrow> io_log [] e e'"
  by (simp add: io_log_def)

lemma io_log_trans: "io_log a e e' \<Longrightarrow> io_log b e' e'' \<Longrightarrow> io_log (a @ b) e e''"
  unfolding io_log_def by (metis append.assoc list_all_append written_append)

lemma io_log_one: "is_io ef \<Longrightarrow> io_log (written_by ef) e (log_effect ef e)"
  by (simp add: io_log_def log_effect_def)

lemma io_log_arrive: "io_log [] e (arrive a e)"
proof -
  have "list_all is_io (map Notified es)" "written (map Notified es) = []" for es
    by (induction es) simp_all
  then show ?thesis by (auto simp: io_log_def arrive_def split: prod.split arrival.split)
qed

lemma io_log_arrive_all: "io_log [] e (arrive_all as e)"
proof (induction as arbitrary: e)
  case (Cons a as)
  show ?case using io_log_trans [OF io_log_arrive Cons.IH, of e a] by (simp add: arrive_all_def)
qed (simp add: arrive_all_def io_log_refl)

lemma io_log_turn: "take_turn e = (t, e1) \<Longrightarrow> io_log [] e e1"
  by (auto simp: take_turn_def intro: io_log_refl split: list.splits)

lemma io_log_waiting: "waiting f e = (r, e') \<Longrightarrow> io_log [] e e'"
proof -
  assume w: "waiting f e = (r, e')"
  obtain t e1 where t: "take_turn e = (t, e1)" by fastforce
  have "io_log [] e (arrive_all (tn_arrivals t) e1)"
    using io_log_trans [OF io_log_turn [OF t] io_log_arrive_all] by simp
  then show ?thesis using w t by (auto simp: waiting_def Let_def io_log_def split: prod.splits)
qed

lemma io_log_write:
  assumes "write_once bs e = ((ok, n), e')"
  shows "io_log (take n bs) e e' \<and> n \<le> length bs \<and> (ok \<longrightarrow> n = length bs)"
proof -
  obtain t e1 where t: "take_turn e = (t, e1)" by fastforce
  have "io_log (take n bs) e1 (log_effect (Wrote (take n bs)) e1)"
    using io_log_one [of "Wrote (take n bs)" e1] by simp
  then have "io_log (take n bs) e (arrive_all (tn_arrivals t) (log_effect (Wrote (take n bs)) e1))"
    using io_log_trans [OF io_log_turn [OF t]] io_log_trans [OF _ io_log_arrive_all] by fastforce
  then show ?thesis
    using assms t by (auto simp: write_once_def Let_def split: option.splits)
qed

lemma io_log_chunks:
  "send_chunks chunk bs offset e = ((ok, n), e') \<Longrightarrow> 0 < chunk \<Longrightarrow>
   \<exists>m. n = offset + m \<and> m \<le> length bs \<and> (ok \<longrightarrow> m = length bs) \<and> io_log (take m bs) e e'"
proof (induction "length bs" arbitrary: bs offset e rule: less_induct)
  case less
  show ?case
  proof (cases "bs = []")
    case True
    with less.prems show ?thesis by (simp add: send_chunks.simps io_log_refl)
  next
    case False
    obtain ok1 n1 e1 where w: "write_once (take chunk bs) e = ((ok1, n1), e1)" by (metis prod.collapse)
    note io = io_log_write [OF w]
    show ?thesis
    proof (cases ok1)
      case False
      with less.prems \<open>bs \<noteq> []\<close> w have "ok = False" "n = offset + n1" "e' = e1"
        by (auto simp: send_chunks.simps)
      with io show ?thesis by (auto simp: take_take min_def split: if_splits)
    next
      case True
      let ?k = "min chunk (length bs)"
      from True io have k: "n1 = ?k" by (simp add: min.commute)
      from io have "io_log (take n1 (take chunk bs)) e e1" by blast
      then have io1: "io_log (take ?k bs) e e1" unfolding k take_take by (simp add: min.commute min.left_commute)
      have rest: "send_chunks chunk (drop chunk bs) (offset + ?k) e1 = ((ok, n), e')"
        using less.prems \<open>bs \<noteq> []\<close> w True by (subst (asm) send_chunks.simps) simp
      have "length (drop chunk bs) < length bs" using False less.prems(2) by simp
      from less.hyps [OF this rest less.prems(2)] obtain m where
        m: "n = offset + ?k + m" "m \<le> length (drop chunk bs)" "ok \<longrightarrow> m = length (drop chunk bs)"
        "io_log (take m (drop chunk bs)) e1 e'" by blast
      have "take (?k + m) bs = take ?k bs @ take m (drop chunk bs)"
      proof (cases "chunk \<le> length bs")
        case True
        then show ?thesis by (simp add: take_add min_def)
      next
        case False
        with m(2) show ?thesis by simp
      qed
      with io_log_trans [OF io1 m(4)] m(1-3) show ?thesis
        by (intro exI [of _ "?k + m"]) (auto simp: min_def split: if_splits)
    qed
  qed
qed

lemma io_log_send:
  assumes "sendPaced profile bs e = ((ok, n), e')"
  shows "io_log (take n bs) e e' \<and> n \<le> length bs \<and> (ok \<longrightarrow> n = length bs)"
proof (cases "en_transport e")
  case False
  with assms show ?thesis by (auto simp: sendPaced_def io_log_refl)
next
  case True
  show ?thesis
  proof (cases "cp_chunk_bytes profile = 0")
    case False
    with True assms have "send_chunks (cp_chunk_bytes profile) bs 0 e = ((ok, n), e')" "0 < cp_chunk_bytes profile"
      by (auto simp: sendPaced_def)
    from io_log_chunks [OF this] show ?thesis by auto
  qed (use True assms io_log_write in \<open>auto simp: sendPaced_def\<close>)
qed

lemma io_log_connect: "ensureConnected e = (ok, e') \<Longrightarrow> io_log [] e e'"
proof -
  assume c: "ensureConnected e = (ok, e')"
  obtain t e1 where t: "take_turn e = (t, e1)" by fastforce
  let ?e2 = "arrive_all (tn_arrivals t) e1"
  have io: "io_log [] e ?e2" using io_log_trans [OF io_log_turn [OF t] io_log_arrive_all] by simp
  have more: "io_log [] e e3" if "en_log e3 = en_log ?e2" for e3
    using io that by (simp add: io_log_def)
  have noted: "io_log [] e (log_effect (Notified ev) e3)" if "en_log e3 = en_log ?e2" for e3 ev
    using io_log_trans [OF more [OF that] io_log_one [of "Notified ev" e3]] by simp
  from c t show ?thesis
    by (auto simp: ensureConnected_def Let_def on_link_def intro!: noted intro: more split: if_splits)
qed

section \<open>The rules of the basic phases\<close>

lemma run_io_unsent:
  "list_all is_io w \<Longrightarrow> quiet p \<Longrightarrow> pr_state p \<in> set unsent_states \<Longrightarrow>
   prefix (pr_early p @ written w) (early_bytes x) \<Longrightarrow>
   protocol_run x w p = Some (p\<lparr>pr_early := pr_early p @ written w\<rparr>)"
proof (induction w arbitrary: p)
  case (Cons ef w)
  show ?case
  proof (cases ef)
    case (Wrote bs)
    let ?q = "p\<lparr>pr_early := pr_early p @ bs\<rparr>"
    have "prefix (pr_early p @ bs) (early_bytes x)"
      using Cons.prems(4) Wrote by (metis append.assoc append_prefixD written_Cons written_by.simps(1))
    moreover have "protocol_run x w ?q = Some (?q\<lparr>pr_early := pr_early ?q @ written w\<rparr>)"
      using Cons.prems Wrote by (intro Cons.IH) (simp_all add: quiet_def)
    ultimately show ?thesis using Cons.prems Wrote by (simp add: quiet_def)
  qed (use Cons in \<open>simp_all add: quiet_def\<close>)
qed simp

lemma run_io_sending:
  "list_all is_io w \<Longrightarrow> quiet p \<Longrightarrow> pr_state p \<in> set sending_states \<Longrightarrow>
   protocol_run x w p = Some (p\<lparr>pr_sent := pr_sent p + length (written w)\<rparr>)"
proof (induction w arbitrary: p)
  case (Cons ef w)
  show ?case
  proof (cases ef)
    case (Wrote bs)
    let ?q = "p\<lparr>pr_sent := pr_sent p + length bs\<rparr>"
    have "protocol_run x w ?q = Some (?q\<lparr>pr_sent := pr_sent ?q + length (written w)\<rparr>)"
      using Cons.prems Wrote by (intro Cons.IH) (simp_all add: quiet_def)
    then show ?thesis
      using Cons.prems Wrote by (auto simp: quiet_def unsent_states_def sending_states_def)
  qed (use Cons in \<open>simp_all add: quiet_def\<close>)
qed simp

text \<open>Where a job is: nothing of the payload sent yet, or some of it, at a confidence.\<close>

definition unsent :: "job_run \<Rightarrow> confidence_level \<Rightarrow> protocol \<Rightarrow> bool" where
  "unsent x confidence p \<longleftrightarrow>
     quiet p \<and> pr_state p \<in> set unsent_states \<and> pr_confidence p = reached x confidence \<and>
     pr_sent p = 0 \<and> prefix (pr_early p) (early_bytes x)"

definition sending :: "job_run \<Rightarrow> job_state \<Rightarrow> confidence_level \<Rightarrow> protocol \<Rightarrow> bool" where
  "sending x s confidence p \<longleftrightarrow>
     quiet p \<and> pr_state p = s \<and> s \<in> set sending_states \<and> pr_confidence p = reached x confidence \<and>
     0 < pr_sent p"

lemma js_io:
  assumes "\<And>e r e'. m e = (r, e') \<Longrightarrow> io_log [] e e'"
    and "quiet p" "pr_state p \<in> set sending_states \<or> (pr_state p \<in> set unsent_states \<and> prefix (pr_early p) (early_bytes x))"
    and "\<And>r. Q r p"
  shows "job_step x p (perform m) Q"
proof (rule job_stepI)
  fix e f e' assume "perform m e = (f, e')"
  then obtain r where r: "m e = (r, e')" "f = Next r" by (auto simp: perform_def split: prod.splits)
  from assms(1) [OF r(1)] obtain w where w: "en_log e' = en_log e @ w" "list_all is_io w" "written w = []"
    by (auto simp: io_log_def)
  have "protocol_run x w p = Some p"
    using assms(3) run_io_sending [OF w(2) assms(2)] run_io_unsent [OF w(2) assms(2)] w(3) by auto
  with w(1) r(2) assms(4) show "\<exists>w p'. en_log e' = en_log e @ w \<and> protocol_run x w p = Some p' \<and>
      (case f of Next a \<Rightarrow> Q a p' | Returned \<Rightarrow> pr_result p' \<noteq> None | Raised msg \<Rightarrow> True)"
    by (intro exI [of _ w] exI [of _ p]) simp
qed

lemma js_wait_sending: "sending x s c p \<Longrightarrow> (\<And>r. Q r p) \<Longrightarrow> job_step x p (perform (waiting f)) Q"
  by (rule js_io [OF io_log_waiting]) (auto simp: sending_def)

lemma js_wait_unsent: "unsent x c p \<Longrightarrow> (\<And>r. Q r p) \<Longrightarrow> job_step x p (perform (waiting f)) Q"
  by (rule js_io [OF io_log_waiting]) (auto simp: unsent_def)

lemma js_connect: "unsent x c p \<Longrightarrow> (\<And>r. Q r p) \<Longrightarrow> job_step x p (perform ensureConnected) Q"
  by (rule js_io [OF io_log_connect]) (auto simp: unsent_def)

lemma js_send_early:
  assumes "unsent x c p" "pr_early p = []" "bs = early_bytes x"
  shows "job_step x p (perform (sendPaced profile bs)) (\<lambda>r q. unsent x c q)"
proof (rule job_stepI)
  fix e f e' assume "perform (sendPaced profile bs) e = (f, e')"
  then obtain ok n where r: "sendPaced profile bs e = ((ok, n), e')" "f = Next (ok, n)"
    by (auto simp: perform_def split: prod.splits)
  from io_log_send [OF r(1)] obtain w where
    w: "en_log e' = en_log e @ w" "list_all is_io w" "written w = take n bs" by (auto simp: io_log_def)
  have pre: "prefix (take n bs) (early_bytes x)" using assms(3) take_is_prefix by blast
  have "protocol_run x w p = Some (p\<lparr>pr_early := take n bs\<rparr>)"
    using run_io_unsent [OF w(2), of p x] assms(1,2) w(3) pre by (simp add: unsent_def)
  moreover have "unsent x c (p\<lparr>pr_early := take n bs\<rparr>)"
    using assms(1) pre by (simp add: unsent_def quiet_def)
  ultimately show "\<exists>w p'. en_log e' = en_log e @ w \<and> protocol_run x w p = Some p' \<and>
      (case f of Next a \<Rightarrow> unsent x c p' | Returned \<Rightarrow> pr_result p' \<noteq> None | Raised msg \<Rightarrow> True)"
    using w(1) r(2) by (intro exI [of _ w] exI [of _ "p\<lparr>pr_early := take n bs\<rparr>"]) simp
qed

lemma js_send:
  assumes "quiet p" "pr_state p \<in> set sending_states"
    and "\<And>ok n. n \<le> length bs \<Longrightarrow> (ok \<longrightarrow> n = length bs) \<Longrightarrow> Q (ok, n) (p\<lparr>pr_sent := pr_sent p + n\<rparr>)"
  shows "job_step x p (perform (sendPaced profile bs)) Q"
proof (rule job_stepI)
  fix e f e' assume "perform (sendPaced profile bs) e = (f, e')"
  then obtain ok n where r: "sendPaced profile bs e = ((ok, n), e')" "f = Next (ok, n)"
    by (auto simp: perform_def split: prod.splits)
  note io = io_log_send [OF r(1)]
  then obtain w where
    w: "en_log e' = en_log e @ w" "list_all is_io w" "written w = take n bs" by (auto simp: io_log_def)
  have "protocol_run x w p = Some (p\<lparr>pr_sent := pr_sent p + n\<rparr>)"
    using run_io_sending [OF w(2) assms(1,2), of x] w(3) io by (simp add: min_def)
  with w(1) r(2) assms(3) io show "\<exists>w p'. en_log e' = en_log e @ w \<and> protocol_run x w p = Some p' \<and>
      (case f of Next a \<Rightarrow> Q a p' | Returned \<Rightarrow> pr_result p' \<noteq> None | Raised msg \<Rightarrow> True)"
    by (intro exI [of _ w] exI [of _ "p\<lparr>pr_sent := pr_sent p + n\<rparr>"]) simp
qed

lemma js_send_on:
  assumes "sending x s c p"
    and "\<And>r q. sending x s c q \<Longrightarrow> Q r q"
  shows "job_step x p (perform (sendPaced profile bs)) Q"
  using assms by (intro js_send) (auto simp: sending_def quiet_def)

lemma js_advance:
  assumes "quiet p" "may_enter s r (pr_sent p) (pr_state p)" "pr_confidence p \<le> c" "c \<le> jx_ceiling x"
    and "Q () (p\<lparr>pr_state := s, pr_confidence := c, pr_reason := r\<rparr>)"
  shows "job_step x p (advance (jx_id x) s c r ev) Q"
proof (rule job_stepI)
  fix e f e' assume a: "advance (jx_id x) s c r ev e = (f, e')"
  obtain io now e1 where d: "take_disk e = ((io, now), e1)" by (metis prod.collapse)
  then have l: "en_log e1 = en_log e" by (auto simp: take_disk_def split: list.splits)
  obtain st err where st: "recordState io now (jx_id x) s c r ev (en_store e1) = (st, err)" by fastforce
  let ?q = "p\<lparr>pr_state := s, pr_confidence := c, pr_reason := r\<rparr>"
  let ?ev = "make_event s c (if r = FR_None then None else Some r)"
  show "\<exists>w p'. en_log e' = en_log e @ w \<and> protocol_run x w p = Some p' \<and>
      (case f of Next a \<Rightarrow> Q a p' | Returned \<Rightarrow> pr_result p' \<noteq> None | Raised msg \<Rightarrow> True)"
  proof (cases err)
    case (Some er)
    with a d st l have "en_log e' = en_log e" "\<exists>msg. f = Raised msg"
      by (auto simp: advance_def split: store_error.splits)
    then show ?thesis by (intro exI [of _ "[]"] exI [of _ p]) auto
  next
    case None
    with a d st l have "en_log e' = en_log e @ [Journaled (jx_id x) s c r, Published (jx_id x) ?ev]" "f = Next ()"
      by (auto simp: advance_def log_effect_def on_job_def Let_def)
    moreover have "protocol_run x [Journaled (jx_id x) s c r, Published (jx_id x) ?ev] p = Some ?q"
      using assms(1-4) by (simp add: quiet_def)
    ultimately show ?thesis
      using assms(5) by (intro exI [of _ "[Journaled (jx_id x) s c r, Published (jx_id x) ?ev]"] exI [of _ ?q]) simp
  qed
qed

lemma js_end:
  assumes "quiet p" "may_enter s (jr_reason r) (pr_sent p) (pr_state p)" "pr_confidence p \<le> jr_confidence r"
    "jr_confidence r \<le> jx_ceiling x" "s = outcome_state (jr_outcome r)"
  shows "job_step x p (end_job (jx_id x) s r) Q"
proof -
  let ?q = "p\<lparr>pr_state := s, pr_confidence := jr_confidence r, pr_reason := jr_reason r\<rparr>"
  have fin: "job_step x ?q (change (\<lambda>e. log_effect (Finished (jx_id x) r) (on_job (jx_id x) (job_finish r) e)))
      (\<lambda>_ q. pr_result q \<noteq> None)"
  proof (rule job_stepI)
    fix e f e' assume "change (\<lambda>e. log_effect (Finished (jx_id x) r) (on_job (jx_id x) (job_finish r) e)) e = (f, e')"
    then have "en_log e' = en_log e @ [Finished (jx_id x) r]" "f = Next ()"
      by (auto simp: change_def log_effect_def on_job_def)
    moreover have "protocol_run x [Finished (jx_id x) r] ?q = Some (?q\<lparr>pr_result := Some r\<rparr>)"
      using assms by (simp add: quiet_def)
    ultimately show "\<exists>w p'. en_log e' = en_log e @ w \<and> protocol_run x w ?q = Some p' \<and>
        (case f of Next a \<Rightarrow> pr_result p' \<noteq> None | Returned \<Rightarrow> pr_result p' \<noteq> None | Raised msg \<Rightarrow> True)"
      by (intro exI [of _ "[Finished (jx_id x) r]"] exI [of _ "?q\<lparr>pr_result := Some r\<rparr>"]) simp
  qed
  have ret: "job_step x q return_early Q" if "pr_result q \<noteq> None" for q
  proof (rule job_stepI)
    fix e f e' assume "return_early e = (f :: 'a flow, e')"
    with that show "\<exists>w p'. en_log e' = en_log e @ w \<and> protocol_run x w q = Some p' \<and>
        (case f of Next a \<Rightarrow> Q a p' | Returned \<Rightarrow> pr_result p' \<noteq> None | Raised msg \<Rightarrow> True)"
      by (intro exI [of _ "[]"] exI [of _ q]) (auto simp: return_early_def)
  qed
  show ?thesis
    unfolding end_job_def terminate_job_def
    by (rule job_step_then [OF job_step_then [OF js_advance [OF assms(1-4), where Q = "\<lambda>_ q. q = ?q"]]])
      (auto intro!: job_step_weaken [OF fin] ret)
qed

section \<open>Confidence\<close>

lemma reached_ceiling: "reached x c \<le> jx_ceiling x"
  by (simp add: reached_def clamp_to_min)

lemma reached_raise: "reached x c \<le> reached x (raise_to c l)"
  by (simp add: reached_def clamp_to_min raise_to_max min.coboundedI1 le_max_iff_disj min_le_iff_disj)

lemma level_least: "CL_TransportAccepted \<le> l"
  by (cases l) (simp_all add: level_order)

lemma reached_base: "reached x CL_TransportAccepted = CL_TransportAccepted"
  using level_least [of "jx_ceiling x"] by (simp add: reached_def clamp_to_min min_def antisym)

text \<open>The ends a job may come to.\<close>

lemma js_fail:
  assumes "quiet p" "may_enter JS_FailedKnown reason (pr_sent p) (pr_state p)" "pr_confidence p = reached x c"
  shows "job_step x p (fail_job x reason c ev) Q"
  unfolding fail_job_def using assms reached_ceiling [of x c]
  by (intro js_end) (simp_all add: result_with_def result_failed_def mk_result_def)

lemma js_fail_unsent: "unsent x c p \<Longrightarrow> job_step x p (fail_job x reason c ev) Q"
  by (intro js_fail) (auto simp: unsent_def unsent_states_def)

lemma js_lose:
  assumes "sending x s c p" "s \<noteq> JS_CutCommandProcessed"
  shows "job_step x p (lose_job x reason c) Q"
  unfolding lose_job_def using assms reached_ceiling [of x c]
  by (intro js_end) (auto simp: result_with_def mk_result_def sending_def sending_states_def)

lemma js_complete:
  assumes "sending x s c p" "s \<noteq> JS_SendStarted" "reached x c \<le> reached x c'"
  shows "job_step x p (complete_job x c' ev) Q"
  unfolding complete_job_def using assms reached_ceiling [of x c']
  by (intro js_end) (auto simp: result_with_def result_done_def mk_result_def sending_def sending_states_def)

lemma js_pass:
  assumes "sending x s c p" "may_enter t FR_None (pr_sent p) s" "t \<in> set sending_states"
    "reached x c \<le> reached x c'" "\<And>q. sending x t c' q \<Longrightarrow> Q () q"
  shows "job_step x p (pass_state x t c') Q"
  unfolding pass_state_def using assms reached_ceiling [of x c']
  by (intro js_advance) (auto simp: sending_def quiet_def)

text \<open>A step in front of a continuation.\<close>

lemma then_link: "job_step x p (k ()) R \<Longrightarrow> job_step x p (run_then (change (on_link f)) k) R"
  by (rule job_step_then [OF job_step_on_link [where Q = "\<lambda>_ q. q = p"]]) simp_all

lemma then_value: "job_step x p (k v) R \<Longrightarrow> job_step x p (run_then (value_of v) k) R"
  by (rule job_step_then [OF job_step_value [where Q = "\<lambda>a q. a = v \<and> q = p"]]) simp_all

lemma then_skip: "job_step x p (k ()) R \<Longrightarrow> job_step x p (run_then skip k) R"
  by (rule job_step_then [OF job_step_skip [where Q = "\<lambda>_ q. q = p"]]) simp_all

lemma then_encoded: "(\<And>v. r = Inr v \<Longrightarrow> job_step x p (k v) R) \<Longrightarrow> job_step x p (run_then (encoded r) k) R"
  by (rule job_step_then [OF job_step_encoded [where Q = "\<lambda>a q. r = Inr a \<and> q = p"]]) auto

lemma then_wait_unsent:
  "unsent x c p \<Longrightarrow> (\<And>r. job_step x p (k r) R) \<Longrightarrow> job_step x p (run_then (perform (waiting f)) k) R"
  by (rule job_step_then [OF js_wait_unsent [where Q = "\<lambda>_ q. q = p"]]) auto

lemma then_wait:
  "sending x s c p \<Longrightarrow> (\<And>r. job_step x p (k r) R) \<Longrightarrow> job_step x p (run_then (perform (waiting f)) k) R"
  by (rule job_step_then [OF js_wait_sending [where Q = "\<lambda>_ q. q = p"]]) auto

lemma then_send:
  "sending x s c p \<Longrightarrow> (\<And>r q. sending x s c q \<Longrightarrow> job_step x q (k r) R) \<Longrightarrow>
   job_step x p (run_then (perform (sendPaced profile bs)) k) R"
  by (rule job_step_then [OF js_send_on [where Q = "\<lambda>_ q. sending x s c q"]]) auto

lemma then_pass:
  "sending x s c p \<Longrightarrow> may_enter t FR_None (pr_sent p) s \<Longrightarrow> t \<in> set sending_states \<Longrightarrow>
   reached x c \<le> reached x c' \<Longrightarrow> (\<And>q. sending x t c' q \<Longrightarrow> job_step x q (k ()) R) \<Longrightarrow>
   job_step x p (run_then (pass_state x t c') k) R"
  by (rule job_step_then [OF js_pass [where Q = "\<lambda>_ q. sending x t c' q"]]) auto

lemma then_if:
  "(b \<Longrightarrow> job_step x p m Q) \<Longrightarrow> (\<not> b \<Longrightarrow> job_step x p m' Q) \<Longrightarrow> job_step x p (if b then m else m') Q"
  by simp


section \<open>The paragraphs of the job\<close>

lemma js_lease:
  assumes "unsent x c p"
  shows "job_step x p (leaseTokens (jx_id x) profile b) (\<lambda>_ q. q = p)"
proof (rule job_stepI)
  fix e f e' assume l: "leaseTokens (jx_id x) profile b e = (f, e')"
  have p: "protocol_run x [JournaledTokens (jx_id x) a d] p = Some p" for a d
    using assms by (simp add: unsent_def quiet_def)
  obtain q mk where acq: "acquire (en_markers e) = (q, mk)" by fastforce
  show "\<exists>w p'. en_log e' = en_log e @ w \<and> protocol_run x w p = Some p' \<and>
      (case f of Next a \<Rightarrow> p' = p | Returned \<Rightarrow> pr_result p' \<noteq> None | Raised msg \<Rightarrow> True)"
  proof (cases "cp_completion profile \<noteq> CM_GsParenH \<and> \<not> b")
    case True
    with l show ?thesis by (intro exI [of _ "[]"] exI [of _ p]) (auto simp: leaseTokens_def)
  next
    case lease: False
    show ?thesis
    proof (cases q)
      case None
      with l acq lease show ?thesis by (intro exI [of _ "[]"] exI [of _ p]) (auto simp: leaseTokens_def)
    next
      case (Some mp)
      let ?e0 = "on_job (jx_id x) (setTokens (mp_print mp) (mp_cut mp)) (e\<lparr>en_markers := mk\<rparr>)"
      obtain io now e1 where d: "take_disk ?e0 = ((io, now), e1)" by (metis prod.collapse)
      then have log: "en_log e1 = en_log e" by (auto simp: take_disk_def on_job_def split: list.splits)
      obtain st err where st: "recordTokens io (jx_id x) (mp_print mp) (mp_cut mp) (en_store e1) = (st, err)"
        by fastforce
      show ?thesis
      proof (cases err)
        case (Some er)
        with l acq lease \<open>q = Some mp\<close> d st log show ?thesis
          by (intro exI [of _ "[]"] exI [of _ p]) (auto simp: leaseTokens_def split: store_error.splits)
      next
        case None
        with l acq lease \<open>q = Some mp\<close> d st log p show ?thesis
          by (intro exI [of _ "[JournaledTokens (jx_id x) (mp_print mp) (mp_cut mp)]"] exI [of _ p])
            (auto simp: leaseTokens_def log_effect_def)
      qed
    qed
  qed
qed

lemma js_under_lease:
  assumes "job_step x p m Q"
  shows "job_step x p (under_lease lease m) Q"
proof (rule job_stepI)
  fix e f e' assume u: "under_lease lease m e = (f, e')"
  then obtain e1 where m: "m e = (f, e1)" and e': "e' = release_lease lease e1"
    by (auto simp: under_lease_def split: prod.splits)
  then have "en_log e' = en_log e1" by (auto simp: release_lease_def split: option.splits)
  with assms m show "\<exists>w p'. en_log e' = en_log e @ w \<and> protocol_run x w p = Some p' \<and>
      (case f of Next a \<Rightarrow> Q a p' | Returned \<Rightarrow> pr_result p' \<noteq> None | Raised msg \<Rightarrow> True)"
    unfolding job_step_def by metis
qed

lemma js_preflight:
  assumes "unsent x c p" "pr_state p = JS_Queued" "pr_early p = []" "preflight_bytes = early_bytes x"
  shows "job_step x p (preflight x c) (\<lambda>c' q. unsent x c' q)"
proof -
  have judged: "job_step x q (judge_preflight x answers c) (\<lambda>c' q. unsent x c' q)"
    if q: "unsent x c q" "pr_state q = JS_Queued" for answers q
  proof (cases "refusal_of (foldl merge_answer no_flags answers)")
    case (Some reason)
    then show ?thesis using js_fail_unsent [OF q(1)] by (simp add: judge_preflight_def)
  next
    case None
    let ?c = "raise_to c CL_PrinterHealthy"
    have "job_step x q (pass_state x JS_PreflightOk ?c) (\<lambda>_ q. unsent x ?c q)"
      unfolding pass_state_def using q reached_ceiling [of x ?c] reached_raise [of x c]
      by (intro js_advance) (auto simp: unsent_def quiet_def unsent_states_def)
    then have "job_step x q (run_then (pass_state x JS_PreflightOk ?c) (\<lambda>_. value_of ?c)) (\<lambda>c' q. unsent x c' q)"
      by (rule job_step_then) (rule job_step_value)
    with None q show ?thesis by (simp add: judge_preflight_def Let_def job_step_value)
  qed
  have sent: "job_step x p (perform (sendPaced (jx_profile x) preflight_bytes))
      (\<lambda>r q. unsent x c q \<and> pr_state q = JS_Queued)"
  proof (rule job_stepI)
    fix e f e' assume "perform (sendPaced (jx_profile x) preflight_bytes) e = (f, e')"
    then obtain ok n where r: "sendPaced (jx_profile x) preflight_bytes e = ((ok, n), e')" "f = Next (ok, n)"
      by (auto simp: perform_def split: prod.splits)
    from io_log_send [OF r(1)] obtain w where w: "en_log e' = en_log e @ w" "list_all is_io w"
      "written w = take n preflight_bytes" by (auto simp: io_log_def)
    have pre: "prefix (take n preflight_bytes) (early_bytes x)" using assms(4) take_is_prefix by metis
    have "protocol_run x w p = Some (p\<lparr>pr_early := take n preflight_bytes\<rparr>)"
      using run_io_unsent [OF w(2), of p x] assms w(3) pre by (simp add: unsent_def)
    with w(1) r(2) assms pre show "\<exists>w p'. en_log e' = en_log e @ w \<and> protocol_run x w p = Some p' \<and>
        (case f of Next a \<Rightarrow> unsent x c p' \<and> pr_state p' = JS_Queued
         | Returned \<Rightarrow> pr_result p' \<noteq> None | Raised msg \<Rightarrow> True)"
      by (intro exI [of _ w] exI [of _ "p\<lparr>pr_early := take n preflight_bytes\<rparr>"])
        (simp add: unsent_def quiet_def)
  qed
  have asked: "job_step x q (run_then (perform (waiting (awaitRealtime 4))) (\<lambda>r.
         if fst r = WaitLinkDown then fail_job x FR_TransportUnreachable c no_evidence
         else run_then (change (on_link clearRealtime)) (\<lambda>_. judge_preflight x (snd r) c)))
      (\<lambda>c' q. unsent x c' q)" if q: "unsent x c q" "pr_state q = JS_Queued" for q
    by (intro then_wait_unsent [OF q(1)] then_if js_fail_unsent [OF q(1)] then_link judged [OF q])
  show ?thesis
    unfolding preflight_def
    by (intro then_if job_step_value assms(1) then_link job_step_then [OF sent])
      (auto intro: js_fail_unsent asked)
qed

lemma js_send_payload:
  assumes "unsent x c p" "wire \<noteq> []"
  shows "job_step x p (send_payload x wire c) (\<lambda>_ q. sending x JS_SendStarted c q)"
proof -
  let ?p = "p\<lparr>pr_state := JS_SendStarted, pr_confidence := reached x c, pr_reason := FR_None\<rparr>"
  have s: "job_step x p (pass_state x JS_SendStarted c) (\<lambda>_ q. q = ?p)"
    unfolding pass_state_def using assms(1) reached_ceiling [of x c]
    by (intro js_advance) (auto simp: unsent_def unsent_states_def)
  have q: "quiet ?p" "pr_state ?p \<in> set sending_states" "pr_sent ?p = 0" "pr_confidence ?p = reached x c"
    using assms(1) by (simp_all add: unsent_def quiet_def sending_states_def)
  have d: "job_step x ?p (perform (sendPaced (jx_profile x) wire))
      (\<lambda>r q. (snd r = 0 \<longrightarrow> q = ?p) \<and> (0 < snd r \<longrightarrow> sending x JS_SendStarted c q) \<and> (fst r \<longrightarrow> 0 < snd r))"
    using assms by (intro js_send q) (auto simp: sending_def quiet_def unsent_def sending_states_def)
  show ?thesis
    unfolding send_payload_def
  proof (rule job_step_then [OF s], simp, rule job_step_then [OF d], elim conjE, intro job_step_if)
    fix r :: "bool \<times> nat" and q
    assume r: "snd r = 0 \<longrightarrow> q = ?p" "0 < snd r \<longrightarrow> sending x JS_SendStarted c q" "fst r \<longrightarrow> 0 < snd r"
    show "job_step x q skip (\<lambda>_ q. sending x JS_SendStarted c q)" if "fst r"
      using r that by (intro job_step_skip) simp
    show "job_step x q (fail_job x FR_TransportUnreachable c no_evidence) (\<lambda>_ q. sending x JS_SendStarted c q)"
      if "snd r = 0"
      using r(1) that q by (intro js_fail) simp_all
    show "job_step x q (lose_job x FR_Unknown c) (\<lambda>_ q. sending x JS_SendStarted c q)" if "snd r \<noteq> 0"
      using r(2) that by (intro js_lose [where s = JS_SendStarted]) simp_all
  qed
qed

text \<open>Steps that leave the protocol where it is, and steps that keep a job sending.\<close>

lemma then_still:
  "job_step x p m (\<lambda>_ q. q = p) \<Longrightarrow> (\<And>a. job_step x p (k a) R) \<Longrightarrow> job_step x p (run_then m k) R"
  by (rule job_step_then [where Q = "\<lambda>_ q. q = p"]) auto

lemma then_sending:
  "job_step x p m (\<lambda>_ q. sending x s c q) \<Longrightarrow> (\<And>a q. sending x s c q \<Longrightarrow> job_step x q (k a) R) \<Longrightarrow>
   job_step x p (run_then m k) R"
  by (rule job_step_then)

lemma js_print_fence: "job_step x p (print_fence x token) (\<lambda>_ q. q = p)"
  unfolding print_fence_def Let_def
  by (cases "jx_custom x"; cases "cp_completion (jx_profile x)")
    (auto intro!: then_link job_step_value job_step_encoded)

lemma js_cut_wire: "job_step x p (cut_wire x variant token) (\<lambda>_ q. q = p)"
  unfolding cut_wire_def
  by (cases "jx_custom x") (auto intro!: then_encoded then_link job_step_value)

lemma js_arm_star: "job_step x p (arm_star x) (\<lambda>_ q. q = p)"
proof (rule job_stepI)
  fix e f e' assume "arm_star x e = (f, e')"
  then have "en_log e' = en_log e" "\<exists>bs. f = Next bs"
    by (auto simp: arm_star_def perform_def split: prod.splits)
  then show "\<exists>w p'. en_log e' = en_log e @ w \<and> protocol_run x w p = Some p' \<and>
      (case f of Next a \<Rightarrow> p' = p | Returned \<Rightarrow> pr_result p' \<noteq> None | Raised msg \<Rightarrow> True)"
    by (intro exI [of _ "[]"] exI [of _ p]) auto
qed

lemma js_await_ack: "sending x s c p \<Longrightarrow> job_step x p (await_ack x token) (\<lambda>_ q. q = p)"
  unfolding await_ack_def by (auto intro!: js_wait_sending)

lemma js_send_or_lose:
  assumes "sending x s c p" "s \<noteq> JS_CutCommandProcessed"
  shows "job_step x p (run_then (perform (sendPaced profile bs))
           (\<lambda>sent. if fst sent then skip else lose_job x FR_Unknown c)) (\<lambda>_ q. sending x s c q)"
  by (rule then_send [OF assms(1)]) (use assms(2) in \<open>auto intro: job_step_skip js_lose\<close>)

lemma js_send_fence:
  assumes "sending x s c p" "s \<noteq> JS_CutCommandProcessed"
  shows "job_step x p (send_fence x fence c) (\<lambda>_ q. sending x s c q)"
  unfolding send_fence_def
  by (intro then_if job_step_skip js_send_or_lose assms)

lemma js_star_send:
  assumes "sending x s c p" "s \<noteq> JS_CutCommandProcessed"
  shows "job_step x p (star_send x bs c) (\<lambda>_ q. sending x s c q)"
  unfolding star_send_def by (intro js_send_or_lose assms)

lemma js_unanswered:
  assumes "sending x s c p" "s \<noteq> JS_CutCommandProcessed"
  shows "job_step x p (unanswered x w c) (\<lambda>_ q. q = p)"
  unfolding unanswered_def by (intro then_if job_step_skip js_lose [OF assms]) simp

text \<open>The end of the job from each place it may be reached.\<close>

lemma js_cutter_status:
  assumes "sending x JS_CutCommandProcessed c p"
  shows "job_step x p (cutter_status x c) Q"
proof -
  have judged: "job_step x q (if list_ex (\<lambda>ev. value_or (sf_cutter_error (pe_flags ev)) False) answers
       then fail_job x FR_CutterFault c status_evidence
       else complete_job x (if answers = [] then c else raise_to c CL_CutFaultFree)
              (profile_evidence (jx_profile x))) Q"
    if q: "sending x JS_CutCommandProcessed c q" for answers q
    using q reached_raise [of x c]
    by (intro then_if js_fail js_complete [OF q]) (auto simp: sending_def)
  show ?thesis
    unfolding cutter_status_def
  proof (intro then_link then_send [OF assms])
    fix r :: "bool \<times> nat" and q assume q: "sending x JS_CutCommandProcessed c q"
    have "job_step x q (if fst r then run_then (perform (waiting (awaitRealtime 1))) (\<lambda>r. value_of (snd r))
        else value_of []) (\<lambda>_ q'. q' = q)"
      by (intro then_if then_wait [OF q] job_step_value) simp_all
    then show "job_step x q (run_then (if fst r then run_then (perform (waiting (awaitRealtime 1))) (\<lambda>r. value_of (snd r))
        else value_of []) (\<lambda>answers. if list_ex (\<lambda>ev. value_or (sf_cutter_error (pe_flags ev)) False) answers
       then fail_job x FR_CutterFault c status_evidence
       else complete_job x (if answers = [] then c else raise_to c CL_CutFaultFree)
              (profile_evidence (jx_profile x)))) Q"
      by (rule then_still) (rule judged [OF q])
  qed
qed

lemma js_cut_done:
  assumes "sending x JS_PrintConfirmed c p"
    and "\<And>q. sending x JS_CutCommandProcessed (raise_to c CL_CutProcessed) q \<Longrightarrow> job_step x q (k ()) Q"
  shows "job_step x p (run_then (pass_state x JS_CutCommandProcessed (raise_to c CL_CutProcessed)) k) Q"
  by (rule then_pass [OF assms(1)]) (use assms(2) in \<open>auto simp: sending_states_def reached_raise\<close>)

lemma js_print_confirmed:
  assumes "sending x JS_BytesSent c p"
    and "\<And>q. sending x JS_PrintConfirmed (raise_to c CL_PrintConfirmed) q \<Longrightarrow> job_step x q (k ()) Q"
  shows "job_step x p (run_then (pass_state x JS_PrintConfirmed (raise_to c CL_PrintConfirmed)) k) Q"
  by (rule then_pass [OF assms(1)]) (use assms(2) in \<open>auto simp: sending_states_def reached_raise\<close>)

lemma js_bytes_sent:
  assumes "sending x JS_SendStarted c p" "\<And>q. sending x JS_BytesSent c q \<Longrightarrow> job_step x q (k ()) Q"
  shows "job_step x p (run_then (pass_state x JS_BytesSent c) k) Q"
  by (rule then_pass [OF assms(1)]) (use assms in \<open>auto simp: sending_states_def sending_def\<close>)

lemma js_complete_here: "sending x s c p \<Longrightarrow> s \<noteq> JS_SendStarted \<Longrightarrow> job_step x p (complete_job x c ev) Q"
  by (erule js_complete) simp_all

lemma js_cut_phase:
  assumes "sending x JS_PrintConfirmed c p"
  shows "job_step x p (cut_phase x variant token c) Q"
  unfolding cut_phase_def Let_def
proof (intro then_still [OF js_cut_wire] then_send [OF assms] then_if)
  fix bs :: bytes and r :: "bool \<times> nat" and q assume q: "sending x JS_PrintConfirmed c q"
  show "job_step x q (lose_job x FR_Unknown c) Q" using q by (rule js_lose) simp
  show "job_step x q (run_then (await_ack x token) (\<lambda>w. run_then (unanswered x w c) (\<lambda>_.
      run_then (pass_state x JS_CutCommandProcessed (raise_to c CL_CutProcessed)) (\<lambda>_.
        if cp_completion (jx_profile x) \<noteq> CM_GsParenH
        then complete_job x (raise_to c CL_CutProcessed) (success_evidence x)
        else cutter_status x (raise_to c CL_CutProcessed))))) Q"
    by (intro then_still [OF js_await_ack [OF q]] then_still [OF js_unanswered [OF q]] js_cut_done [OF q]
        then_if js_cutter_status) (auto intro: js_complete_here)
qed


text \<open>Without a mechanism the ceiling keeps every claim at the transport.\<close>

lemma reached_unfenced: "cp_completion (jx_profile x) = CM_None \<Longrightarrow> reached x c = CL_TransportAccepted"
  using reached_ceiling [of x c] level_least [of "reached x c"]
  by (simp add: jx_ceiling_def maxConfidence_def antisym)

lemma js_complete_unfenced:
  assumes "sending x JS_BytesSent c p" "cp_completion (jx_profile x) = CM_None"
  shows "job_step x p (complete_job x CL_TransportAccepted ev) Q"
  using assms(2) by (intro js_complete [OF assms(1)]) (simp_all add: reached_unfenced)

lemma js_acknowledged:
  assumes "sending x JS_BytesSent c p"
  shows "job_step x p (if cp_completion (jx_profile x) = CM_None
      then complete_job x CL_TransportAccepted (profile_evidence (jx_profile x))
      else run_then (await_ack x tok) (\<lambda>w.
           run_then (unanswered x w c) (\<lambda>_.
           run_then (pass_state x JS_PrintConfirmed (raise_to c CL_PrintConfirmed)) (\<lambda>_.
             if variant = CV_None then complete_job x (raise_to c CL_PrintConfirmed) (success_evidence x)
             else cut_phase x variant tok' (raise_to c CL_PrintConfirmed))))) Q"
  by (intro then_if js_complete_unfenced [OF assms] then_still [OF js_await_ack [OF assms]]
      then_still [OF js_unanswered [OF assms]] js_print_confirmed [OF assms] js_cut_phase)
    (auto intro: js_complete_here)

lemma js_print_phase:
  assumes "unsent x c p"
    and "\<And>tok w. buildPayload (jx_profile x) width_dots payload (jx_options x) attempt (jx_key x) banner tok = Inr w \<Longrightarrow> w \<noteq> []"
  shows "job_step x p (print_phase x width_dots payload attempt banner c lease) Q"
  unfolding print_phase_def Let_def
  by (intro then_encoded then_sending [OF js_send_payload [OF assms(1)]] assms(2) then_still [OF js_print_fence]
      then_sending [OF js_send_fence] js_bytes_sent js_acknowledged) (assumption | simp)+

section \<open>The Star path\<close>

lemma js_star_preamble:
  assumes "unsent x c p" "pr_early p = []" "star_preamble_bytes = early_bytes x"
  shows "job_step x p (star_preamble x c) (\<lambda>_ q. unsent x c q)"
  unfolding star_preamble_def
  by (intro then_if job_step_skip job_step_then [OF js_send_early [OF assms]] js_fail_unsent job_step_on_link assms(1))

lemma js_star_unfenced:
  assumes "sending x JS_SendStarted c p" "cp_completion (jx_profile x) = CM_None"
  shows "job_step x p (star_unfenced x variant c) Q"
proof -
  have "job_step x p (if variant \<noteq> CV_None
      then run_then (perform (sendPaced (jx_profile x) (star_cut_of variant))) (\<lambda>_. skip) else skip)
      (\<lambda>_ q. sending x JS_SendStarted c q)"
    by (intro then_if then_send [OF assms(1)] job_step_skip assms(1))
  then show ?thesis
    unfolding star_unfenced_def
    by (rule then_sending) (intro js_bytes_sent js_complete_unfenced assms(2))
qed

lemma js_star_cut_phase:
  assumes "sending x JS_PrintConfirmed c p"
  shows "job_step x p (star_cut_phase x variant c) Q"
  unfolding star_cut_phase_def Let_def
  by (intro then_still [OF js_arm_star] then_sending [OF js_star_send [OF assms]] then_wait
      then_still [OF js_unanswered] js_cut_done) (auto intro: js_complete_here)

lemma js_star_fenced:
  assumes "sending x JS_SendStarted c p"
  shows "job_step x p (star_fenced x variant c) Q"
  unfolding star_fenced_def Let_def
  by (intro then_still [OF js_arm_star] then_sending [OF js_star_send [OF assms]] js_bytes_sent then_wait
      then_still [OF js_unanswered] js_print_confirmed then_if js_star_cut_phase) (auto intro: js_complete_here)


section \<open>A payload is never empty\<close>

lemma tail_nonempty: "payload_tail profile options e = Inr w \<Longrightarrow> w \<noteq> []"
  by (auto simp: payload_tail_def feedLines_def put_def split: sum.splits)

lemma payload_nonempty:
  "buildPayload profile width_dots payload options attempt key banner tok = Inr w \<Longrightarrow> w \<noteq> []"
  by (auto simp: buildPayload_def payload_end_def dest: tail_nonempty split: sum.splits)

lemma sn_put_nonempty: "sn_buffer e \<noteq> [] \<Longrightarrow> sn_buffer (sn_put bs e) \<noteq> []"
  by (simp add: sn_put_def)

lemma sn_put_bytes: "bs \<noteq> [] \<Longrightarrow> sn_buffer (sn_put bs e) \<noteq> []"
  by (simp add: sn_put_def)

lemma star_banner_nonempty: "sn_buffer (star_banner_lines key attempt e) \<noteq> []"
  by (simp add: star_banner_lines_def Let_def sn_feed_def sn_put_bytes)

lemma star_content_nonempty:
  "star_content profile width_dots payload e = Inr (e', notes) \<Longrightarrow> sn_buffer e \<noteq> [] \<Longrightarrow> sn_buffer e' \<noteq> []"
  by (auto simp: star_content_def Let_def sn_rasterGrayscale_def sn_put_nonempty split: payload.splits sum.splits if_splits)

lemma star_payload_nonempty:
  assumes "buildStarPayload profile width_dots payload options attempt key banner = Inr (w, notes)"
  shows "w \<noteq> []"
proof -
  let ?e0 = "sn_initialize new_star_encoder"
  let ?e1 = "if op_top_feed_dots options > 0 then sn_feedDots (op_top_feed_dots options) ?e0 else ?e0"
  let ?e2 = "if banner then star_banner_lines key attempt ?e1 else ?e1"
  have "sn_buffer ?e0 \<noteq> []" by (simp add: sn_initialize_def sn_put_def)
  then have "sn_buffer ?e1 \<noteq> []" by (simp add: sn_feedDots_def sn_put_nonempty)
  then have e2: "sn_buffer ?e2 \<noteq> []" by (simp add: star_banner_nonempty)
  from assms obtain e3 d where c: "star_content profile width_dots payload ?e2 = Inr (e3, d)"
    and w: "w = sn_buffer (sn_feedLines (cp_final_feed_lines profile) e3)"
    by (auto simp: buildStarPayload_def Let_def split: sum.splits prod.splits)
  from star_content_nonempty [OF c e2] w show ?thesis by (simp add: sn_feedLines_def sn_put_nonempty)
qed

section \<open>The whole job\<close>

lemma unsent_start: "unsent x CL_TransportAccepted protocol_start"
  by (simp add: unsent_def quiet_def protocol_start_def unsent_states_def reached_base)

lemma js_runStarJob:
  assumes "star_preamble_bytes = early_bytes x"
  shows "job_step x protocol_start (runStarJob x width_dots payload attempt banner) (\<lambda>_ _. False)"
proof -
  have s: "unsent x CL_TransportAccepted protocol_start" by (rule unsent_start)
  have e: "pr_early protocol_start = []" by (simp add: protocol_start_def)
  have c: "job_step x protocol_start (perform ensureConnected) (\<lambda>_ q. q = protocol_start)"
    by (rule js_connect [OF s]) simp
  show ?thesis
    unfolding runStarJob_def Let_def
    by (intro then_still [OF c] then_if js_fail_unsent [OF s] then_link
        job_step_then [OF js_star_preamble [OF s e assms]] then_encoded then_sending [OF js_send_payload]
        js_star_unfenced js_star_fenced) (auto dest: star_payload_nonempty)
qed

definition run_of :: "string \<Rightarrow> string \<Rightarrow> job_options \<Rightarrow> engine \<Rightarrow> job_run" where
  "run_of i key options e =
     \<lparr>jx_id = i, jx_key = key, jx_profile = en_profile e, jx_options = options,
      jx_custom = custom_method_for (en_profile e) (en_registrations e)\<rparr>"

lemma js_escpos_job:
  assumes "preflight_bytes = early_bytes x"
  shows "job_step x protocol_start (run_then (perform ensureConnected) (\<lambda>ok.
      if \<not> ok then fail_job x FR_TransportUnreachable CL_TransportAccepted no_evidence
      else run_then (change (on_link (\<lambda>lk. setCustomMethod custom (beginJobIo lk)))) (\<lambda>_.
           run_then (preflight x CL_TransportAccepted) (\<lambda>c.
           run_then (leaseTokens (jx_id x) profile b) (\<lambda>lease.
             under_lease lease (print_phase x width_dots payload attempt banner c lease)))))) (\<lambda>_ _. False)"
proof -
  have s: "unsent x CL_TransportAccepted protocol_start" by (rule unsent_start)
  have c: "job_step x protocol_start (perform ensureConnected) (\<lambda>_ q. q = protocol_start)"
    by (rule js_connect [OF s]) simp
  have p: "job_step x protocol_start (preflight x CL_TransportAccepted) (\<lambda>c q. unsent x c q)"
    by (rule js_preflight [OF s _ _ assms]) (simp_all add: protocol_start_def)
  show ?thesis
    by (intro then_still [OF c] then_if js_fail_unsent [OF s] then_link job_step_then [OF p]
        then_still [OF js_lease] js_under_lease js_print_phase) (auto dest: payload_nonempty)
qed

lemma runJob_word:
  assumes "runJob i key payload options attempt banner e = (f, e')"
  obtains w p where "en_log e' = en_log e @ w" "protocol_run (run_of i key options e) w protocol_start = Some p"
    "f = Returned \<and> pr_result p \<noteq> None \<or> (\<exists>msg. f = Raised msg)"
proof -
  let ?x = "run_of i key options e"
  have i: "jx_id ?x = i" "jx_profile ?x = en_profile e"
    "jx_custom ?x = custom_method_for (en_profile e) (en_registrations e)" by (simp_all add: run_of_def)
  consider (star) "\<not> drivableByEscposEngine (en_profile e)" "jx_custom ?x = None"
    | (escpos) "drivableByEscposEngine (en_profile e) \<or> jx_custom ?x \<noteq> None" by blast
  then obtain body where body: "runJob i key payload options attempt banner e = body e"
    "job_step ?x protocol_start body (\<lambda>_ _. False)"
  proof cases
    case star
    let ?body = "if drivableByStarEngine (en_profile e) then runStarJob ?x (en_width_dots e) payload attempt banner
      else fail_job ?x FR_Unsupported CL_TransportAccepted no_evidence"
    have "job_step ?x protocol_start ?body (\<lambda>_ _. False)"
      using star by (intro then_if js_runStarJob js_fail_unsent [OF unsent_start]) (simp add: early_bytes_def i)
    moreover have "runJob i key payload options attempt banner e = ?body e"
      using star by (simp add: runJob_def Let_def run_of_def)
    ultimately show ?thesis by (rule that [rotated])
  next
    case escpos
    have "preflight_bytes = early_bytes ?x" using escpos by (auto simp: early_bytes_def i)
    from js_escpos_job [OF this, where custom = "jx_custom ?x" and profile = "en_profile e" and
        b = "jx_custom ?x \<noteq> None" and width_dots = "en_width_dots e" and payload = payload and
        attempt = attempt and banner = banner]
    show ?thesis
    proof (rule that [rotated])
      show "runJob i key payload options attempt banner e =
          run_then (perform ensureConnected) (\<lambda>ok.
            if \<not> ok then fail_job ?x FR_TransportUnreachable CL_TransportAccepted no_evidence
            else run_then (change (on_link (\<lambda>lk. setCustomMethod (jx_custom ?x) (beginJobIo lk)))) (\<lambda>_.
                 run_then (preflight ?x CL_TransportAccepted) (\<lambda>c.
                 run_then (leaseTokens (jx_id ?x) (en_profile e) (jx_custom ?x \<noteq> None)) (\<lambda>lease.
                   under_lease lease (print_phase ?x (en_width_dots e) payload attempt banner c lease))))) e"
        unfolding runJob_def Let_def i run_of_def [symmetric]
        using escpos by (subst if_not_P) (auto simp: i)
    qed
  qed
  from body assms obtain w p where "en_log e' = en_log e @ w" "protocol_run ?x w protocol_start = Some p"
    "case f of Next a \<Rightarrow> False | Returned \<Rightarrow> pr_result p \<noteq> None | Raised msg \<Rightarrow> True"
    unfolding job_step_def by metis
  then show thesis by (intro that [of w p]) (auto split: flow.splits)
qed

end
