(* ===== verification/Job_Guarantees.thy ===== *)
theory Job_Guarantees imports
  Job_Protocol
begin

text \<open>
  What the contract of a job means for the printer, the journal and the observers: facts about
  every effect log a run of \<^verbatim>\<open>runJob\<close> can leave. First the words of the protocol automaton
  with what each state of it remembers of the word, then the engine's runs.
\<close>

section \<open>What the automaton remembers\<close>

fun claim_of :: "effect \<Rightarrow> confidence_level list" where
  "claim_of (Journaled i s c r) = [c]"
| "claim_of ef = []"

definition claims :: "effect list \<Rightarrow> confidence_level list" where
  "claims w = concat (map claim_of w)"

lemma claims_append [simp]: "claims (u @ v) = claims u @ claims v"
  by (simp add: claims_def)

lemma claims_Cons [simp]: "claims (ef # w) = claim_of ef @ claims w"
  by (simp add: claims_def)

lemma claims_Nil [simp]: "claims [] = []"
  by (simp add: claims_def)

definition started :: "job_run \<Rightarrow> effect list \<Rightarrow> bool" where
  "started x u \<longleftrightarrow> (\<exists>c r. Journaled (jx_id x) JS_SendStarted c r \<in> set u)"

definition account :: "job_run \<Rightarrow> effect list \<Rightarrow> protocol \<Rightarrow> bool" where
  "account x u q \<longleftrightarrow>
     prefix (pr_early q) (early_bytes x) \<and>
     (\<exists>data. written u = pr_early q @ data \<and> length data = pr_sent q)"

text \<open>The states with nothing sent, and those only reached with something sent.\<close>

definition counts :: "protocol \<Rightarrow> bool" where
  "counts q \<longleftrightarrow>
     (if pr_state q \<in> set unsent_states \<or> (pr_state q = JS_FailedKnown \<and> pr_reason q \<noteq> FR_CutterFault)
      then pr_sent q = 0
      else pr_state q = JS_SendStarted \<or> pr_state q = JS_FailedKnown \<or> 0 < pr_sent q)"

definition begun :: "job_run \<Rightarrow> effect list \<Rightarrow> protocol \<Rightarrow> bool" where
  "begun x u q \<longleftrightarrow> pr_sent q = 0 \<and> pr_state q \<notin> set sending_states \<or> started x u"

definition claimed :: "job_run \<Rightarrow> effect list \<Rightarrow> protocol \<Rightarrow> bool" where
  "claimed x u q \<longleftrightarrow>
     sorted (claims u) \<and> list_all (\<lambda>c. c \<le> pr_confidence q) (claims u) \<and> pr_confidence q \<le> jx_ceiling x"

text \<open>The journal entry an event stands for.\<close>

definition entry_for :: "string \<Rightarrow> job_event \<Rightarrow> effect" where
  "entry_for i ev =
     Journaled i (je_state ev) (je_confidence ev) (case je_reason ev of None \<Rightarrow> FR_None | Some r \<Rightarrow> r)"

definition observed :: "job_run \<Rightarrow> effect list \<Rightarrow> protocol \<Rightarrow> bool" where
  "observed x u q \<longleftrightarrow>
     (case pr_pending q of None \<Rightarrow> True | Some ev \<Rightarrow> \<exists>u'. u = u' @ [entry_for (jx_id x) ev]) \<and>
     (case pr_result q of None \<Rightarrow> \<forall>i r. Finished i r \<notin> set u
      | Some r \<Rightarrow> \<exists>u'. u = u' @ [Finished (jx_id x) r] \<and> (\<forall>i r. Finished i r \<notin> set u') \<and>
                       pr_state q = outcome_state (jr_outcome r) \<and> pr_reason q = jr_reason r)"

fun is_entry :: "effect \<Rightarrow> bool" where
  "is_entry (Journaled i s c r) = True"
| "is_entry ef = False"

definition recorded :: "job_run \<Rightarrow> effect list \<Rightarrow> protocol \<Rightarrow> bool" where
  "recorded x u q \<longleftrightarrow>
     (if filter is_entry u = [] then pr_state q = JS_Queued
      else last (filter is_entry u) = Journaled (jx_id x) (pr_state q) (pr_confidence q) (pr_reason q))"

lemma account_start: "account x [] protocol_start"
  by (simp add: account_def protocol_start_def)

lemma account_step:
  assumes "account x u q" "counts q" "protocol_step x ef q = Some q'"
  shows "account x (u @ [ef]) q'"
  using assms by (cases ef) (auto simp: account_def counts_def split: if_splits)

lemma counts_start: "counts protocol_start"
  by (simp add: counts_def protocol_start_def unsent_states_def)

lemma counts_step:
  assumes "counts q" "protocol_step x ef q = Some q'"
  shows "counts q'"
proof (cases ef)
  case (Journaled i s c r)
  with assms have "may_enter s r (pr_sent q) (pr_state q)" "pr_state q' = s" "pr_reason q' = r" "pr_sent q' = pr_sent q"
    by (auto split: if_splits)
  with assms(1) show ?thesis
    by (cases s) (auto simp: counts_def unsent_states_def)
next
  case (Wrote bs)
  with assms show ?thesis
    by (auto simp: counts_def unsent_states_def sending_states_def split: if_splits)
qed (use assms in \<open>auto simp: counts_def split: if_splits\<close>)

lemma begun_start: "begun x [] protocol_start"
  by (simp add: begun_def protocol_start_def sending_states_def)

lemma begun_step:
  assumes "begun x u q" "protocol_step x ef q = Some q'"
  shows "begun x (u @ [ef]) q'"
proof (cases ef)
  case (Journaled i s c r)
  with assms have e: "may_enter s r (pr_sent q) (pr_state q)" "pr_state q' = s" "pr_sent q' = pr_sent q" "i = jx_id x"
    by (auto split: if_splits)
  show ?thesis
  proof (cases "s = JS_SendStarted")
    case True
    with Journaled e show ?thesis by (auto simp: begun_def started_def)
  next
    case False
    with e assms(1) show ?thesis
      by (cases s) (auto simp: begun_def started_def sending_states_def)
  qed
next
  case (Wrote bs)
  with assms show ?thesis
    by (auto simp: begun_def started_def split: if_splits)
qed (use assms in \<open>auto simp: begun_def started_def split: if_splits\<close>)

lemma claimed_start: "claimed x [] protocol_start"
  by (simp add: claimed_def protocol_start_def level_least)

lemma claimed_step:
  assumes "claimed x u q" "protocol_step x ef q = Some q'"
  shows "claimed x (u @ [ef]) q'"
  using assms by (cases ef) (auto simp: claimed_def sorted_append list_all_iff split: if_splits intro: order_trans)

lemma observed_start: "observed x [] protocol_start"
  by (simp add: observed_def protocol_start_def)

lemma observed_step:
  assumes "observed x u q" "protocol_step x ef q = Some q'"
  shows "observed x (u @ [ef]) q'"
  using assms
  by (cases ef) (auto simp: observed_def entry_for_def make_event_def split: if_splits option.splits)

lemma recorded_start: "recorded x [] protocol_start"
  by (simp add: recorded_def protocol_start_def)

lemma recorded_step:
  assumes "recorded x u q" "protocol_step x ef q = Some q'"
  shows "recorded x (u @ [ef]) q'"
  using assms by (cases ef) (auto simp: recorded_def split: if_splits)

lemma word_invariant:
  assumes "protocol_run x u protocol_start = Some q"
  shows "account x u q \<and> counts q \<and> begun x u q \<and> claimed x u q \<and> observed x u q \<and> recorded x u q"
  using assms
proof (induction u arbitrary: q rule: rev_induct)
  case Nil
  then show ?case by (simp add: account_start counts_start begun_start claimed_start observed_start recorded_start)
next
  case (snoc ef u)
  then obtain p where p: "protocol_run x u protocol_start = Some p" "protocol_step x ef p = Some q"
    by (auto simp: protocol_run_append split: option.splits)
  from snoc.IH [OF p(1)] show ?case
    using account_step [OF _ _ p(2)] counts_step [OF _ p(2)] begun_step [OF _ p(2)]
      claimed_step [OF _ p(2)] observed_step [OF _ p(2)] recorded_step [OF _ p(2)] by blast
qed

lemma word_split:
  assumes "protocol_run x (u @ ef # v) protocol_start = Some p"
  obtains q q' where "protocol_run x u protocol_start = Some q" "protocol_step x ef q = Some q'"
  using assms by (auto simp: protocol_run_append split: option.splits)


section \<open>Runs of the engine\<close>

text \<open>What one run of a job adds to the log.\<close>

definition effects_of ::
    "string \<Rightarrow> string \<Rightarrow> payload \<Rightarrow> job_options \<Rightarrow> u32 \<Rightarrow> bool \<Rightarrow> engine \<Rightarrow> effect list" where
  "effects_of i key payload options attempt banner e =
     drop (length (en_log e)) (en_log (snd (runJob i key payload options attempt banner e)))"

lemma effects_word:
  obtains p where "protocol_run (run_of i key options e) (effects_of i key payload options attempt banner e)
      protocol_start = Some p"
    "en_log (snd (runJob i key payload options attempt banner e)) =
       en_log e @ effects_of i key payload options attempt banner e"
    "fst (runJob i key payload options attempt banner e) = Returned \<and> pr_result p \<noteq> None \<or>
     (\<exists>msg. fst (runJob i key payload options attempt banner e) = Raised msg)"
proof -
  obtain f e' where r: "runJob i key payload options attempt banner e = (f, e')" by fastforce
  from runJob_word [OF r] obtain w p where w: "en_log e' = en_log e @ w"
    "protocol_run (run_of i key options e) w protocol_start = Some p"
    "f = Returned \<and> pr_result p \<noteq> None \<or> (\<exists>msg. f = Raised msg)" by blast
  from w(1) r have "w = effects_of i key payload options attempt banner e" by (simp add: effects_of_def)
  with w r show thesis by (intro that [of p]) simp_all
qed

lemma effects_run:
  obtains p where "protocol_run (run_of i key options e) (effects_of i key payload options attempt banner e)
      protocol_start = Some p"
  by (rule effects_word)

lemma run_of_id [simp]: "jx_id (run_of i key options e) = i" "jx_profile (run_of i key options e) = en_profile e"
  by (simp_all add: run_of_def)

text \<open>
  C2: every run of a job is a word of the protocol. Whatever the printer, the link and the
  disk do, the effects of \<^theory_text>\<open>runJob\<close> are accepted by the automaton in order; the function returns
  only when the job has its result, never falls through, and otherwise leaves by an exception.
\<close>

theorem job_follows_protocol:
  "case runJob i key payload options attempt banner e of (f, e') \<Rightarrow>
     \<exists>w p. en_log e' = en_log e @ w \<and> protocol_run (run_of i key options e) w protocol_start = Some p \<and>
       (case f of Returned \<Rightarrow> pr_result p \<noteq> None | Raised msg \<Rightarrow> True | Next u \<Rightarrow> False)"
proof -
  obtain f e' where r: "runJob i key payload options attempt banner e = (f, e')" by fastforce
  from runJob_word [OF r] obtain w p where "en_log e' = en_log e @ w"
    "protocol_run (run_of i key options e) w protocol_start = Some p"
    "f = Returned \<and> pr_result p \<noteq> None \<or> (\<exists>msg. f = Raised msg)" by blast
  with r show ?thesis by (auto intro!: exI [of _ w] exI [of _ p])
qed

section \<open>A run from start to end\<close>

text \<open>A raw byte on a \<^verbatim>\<open>GS ( H\<close> printer that echoes both markers and has no cutter fault.\<close>

definition demo_options :: job_options where
  "demo_options = default_options\<lparr>op_preflight := PreflightSkip, op_print_verification_id := False\<rparr>"

definition demo_turn :: "bytes \<Rightarrow> turn" where
  "demo_turn bs = quiet_turn\<lparr>tn_arrivals := [Rx bs]\<rparr>"

definition demo_engine :: engine where
  "demo_engine =
     \<lparr>en_profile = generic_escpos\<lparr>cp_completion := CM_GsParenH, cp_chunk_bytes := 0\<rparr>, en_width_dots = 576,
      en_printer_id = ''p'', en_link = new_link, en_transport = True, en_had_connection = True,
      en_store = (blank_store False [])\<lparr>js_by_id := [''j'' \<mapsto> default_record\<lparr>rec_id := ''j''\<rparr>]\<rparr>,
      en_markers = new_allocator ''AB'', en_registrations = no_registrations,
      en_jobs = [''j'' \<mapsto> new_job ''j'' ''k'' ''p'' 1], en_by_token = (\<lambda>t. []),
      en_turns = [quiet_turn, quiet_turn, quiet_turn, demo_turn [0x37, 0x22, 0x41, 0x42, 0x21, 0x21, 0x00],
                  quiet_turn, demo_turn [0x37, 0x22, 0x41, 0x42, 0x21, 0x22, 0x00],
                  quiet_turn, demo_turn [0x12]],
      en_disk = [], en_log = []\<rparr>"

definition demo_run :: "unit flow \<times> engine" where
  "demo_run = runJob ''j'' ''k'' (RawPayload [0x41]) demo_options 1 False demo_engine"

text \<open>Its effects, evaluated.\<close>

definition demo_token :: "char \<Rightarrow> string" where
  "demo_token c = [CHR ''A'', CHR ''B'', CHR ''!'', c]"

definition demo_event :: "job_state \<Rightarrow> confidence_level \<Rightarrow> effect list" where
  "demo_event s c = [Journaled ''j'' s c FR_None, Published ''j'' (make_event s c None)]"

lemma demo_effects:
  "fst demo_run = Returned \<and>
   en_log (snd demo_run) =
     JournaledTokens ''j'' (demo_token (CHR ''!'')) (demo_token (CHR 0x22)) #
     demo_event JS_SendStarted CL_TransportAccepted @
     [Wrote [0x1B, 0x40, 0x41, 0x1B, 0x64, 6],
      Wrote [0x1D, 0x28, 0x48, 6, 0, 48, 48, 0x41, 0x42, 0x21, 0x21]] @
     demo_event JS_BytesSent CL_TransportAccepted @
     [Received [0x37, 0x22, 0x41, 0x42, 0x21, 0x21, 0]] @
     demo_event JS_PrintConfirmed CL_PrintConfirmed @
     [Wrote [0x1B, 0x4A, ucast (120 :: u16), 0x1D, 0x56, 1, 0x1D, 0x28, 0x48, 6, 0, 48, 48, 0x41, 0x42, 0x21, 0x22],
      Received [0x37, 0x22, 0x41, 0x42, 0x21, 0x22, 0]] @
     demo_event JS_CutCommandProcessed CL_CutProcessed @
     [Wrote [0x10, 0x04, 3], Received [0x12]] @
     demo_event JS_DoneSoftware CL_CutFaultFree @
     [Finished ''j'' (result_with (evidenceFor CM_GsParenH) (result_done CL_CutFaultFree))]"
  by code_simp

lemma demo_effects_of:
  "effects_of ''j'' ''k'' (RawPayload [0x41]) demo_options 1 False demo_engine = en_log (snd demo_run)"
  by (simp add: effects_of_def demo_run_def demo_engine_def)

lemmas demo_word = demo_effects_of [unfolded demo_effects [THEN conjunct2] demo_event_def append.simps]

text \<open>
  C6: durable before the wire. When the transport accepts bytes, either everything accepted so
  far is the status request of the preflight (or the Star preamble), or the journal already
  has the transition to SendStarted.
\<close>

theorem durable_before_wire:
  assumes "effects_of i key payload options attempt banner e = u @ Wrote bs # v"
  shows "prefix (written u @ bs) (early_bytes (run_of i key options e)) \<or>
    (\<exists>c r. Journaled i JS_SendStarted c r \<in> set u)"
proof -
  let ?x = "run_of i key options e"
  obtain p where "protocol_run ?x (u @ Wrote bs # v) protocol_start = Some p"
    using effects_run [of i key options e payload attempt banner] assms by metis
  then obtain q q' where q: "protocol_run ?x u protocol_start = Some q" "protocol_step ?x (Wrote bs) q = Some q'"
    by (rule word_split)
  from word_invariant [OF q(1)] have inv: "account ?x u q" "counts q" "begun ?x u q" by auto
  show ?thesis
  proof (cases "pr_state q \<in> set unsent_states")
    case True
    with inv q(2) show ?thesis by (auto simp: account_def counts_def split: if_splits)
  next
    case False
    with q(2) have "pr_state q \<in> set sending_states" by (auto split: if_splits)
    with inv(3) show ?thesis by (auto simp: begun_def started_def)
  qed
qed

theorem durable_before_wire_witness:
  "\<exists>u bs v. effects_of ''j'' ''k'' (RawPayload [0x41]) demo_options 1 False demo_engine = u @ Wrote bs # v \<and>
     (prefix (written u @ bs) (early_bytes (run_of ''j'' ''k'' demo_options demo_engine)) \<or>
      (\<exists>c r. Journaled ''j'' JS_SendStarted c r \<in> set u))"
proof -
  obtain u bs v where w: "effects_of ''j'' ''k'' (RawPayload [0x41]) demo_options 1 False demo_engine = u @ Wrote bs # v"
    using split_list [of "Wrote [0x1B, 0x40, 0x41, 0x1B, 0x64, 6]"] unfolding demo_word
    by (metis list.set_intros)
  from w durable_before_wire [OF w] show ?thesis by blast
qed

text \<open>
  C8: persist, then publish. Every event a subscriber sees is about this job and stands right
  behind the journal entry with its state, confidence and reason.
\<close>

theorem published_after_journaled:
  assumes "effects_of i key payload options attempt banner e = u @ Published j ev # v"
  shows "j = i \<and> (\<exists>u'. u = u' @ [entry_for i ev])"
proof -
  let ?x = "run_of i key options e"
  obtain p where "protocol_run ?x (u @ Published j ev # v) protocol_start = Some p"
    using effects_run [of i key options e payload attempt banner] assms by metis
  then obtain q q' where q: "protocol_run ?x u protocol_start = Some q" "protocol_step ?x (Published j ev) q = Some q'"
    by (rule word_split)
  from word_invariant [OF q(1)] q(2) show ?thesis by (auto simp: observed_def split: if_splits)
qed

theorem published_after_journaled_witness:
  "\<exists>u j ev v. effects_of ''j'' ''k'' (RawPayload [0x41]) demo_options 1 False demo_engine = u @ Published j ev # v \<and>
     j = ''j'' \<and> (\<exists>u'. u = u' @ [entry_for ''j'' ev])"
proof -
  obtain u v where w: "effects_of ''j'' ''k'' (RawPayload [0x41]) demo_options 1 False demo_engine =
      u @ Published ''j'' (make_event JS_SendStarted CL_TransportAccepted None) # v"
    using split_list [of "Published ''j'' (make_event JS_SendStarted CL_TransportAccepted None)"] unfolding demo_word
    by (metis list.set_intros)
  from w published_after_journaled [OF w] show ?thesis by blast
qed



text \<open>
  C9: one ending, and the journal has it. When \<^theory_text>\<open>runJob\<close> returns, the last effect of the run
  is the only result it gives, and the last entry of the journal carries the same state,
  confidence and reason.
\<close>

theorem one_ending:
  assumes "fst (runJob i key payload options attempt banner e) = Returned"
  shows "\<exists>u r. effects_of i key payload options attempt banner e = u @ [Finished i r] \<and>
    (\<forall>j r'. Finished j r' \<notin> set u) \<and> filter is_entry u \<noteq> [] \<and>
    last (filter is_entry u) = Journaled i (outcome_state (jr_outcome r)) (jr_confidence r) (jr_reason r)"
proof -
  let ?x = "run_of i key options e" and ?w = "effects_of i key payload options attempt banner e"
  obtain p where p: "protocol_run ?x ?w protocol_start = Some p" "pr_result p \<noteq> None"
    using effects_word [of i key options e payload attempt banner] assms by force
  then obtain r where r: "pr_result p = Some r" by blast
  from word_invariant [OF p(1)] have inv: "observed ?x ?w p" "recorded ?x ?w p" by auto
  from inv(1) r obtain u where u: "?w = u @ [Finished i r]" "\<forall>j r'. Finished j r' \<notin> set u"
    "pr_state p = outcome_state (jr_outcome r)" "pr_reason p = jr_reason r"
    by (auto simp: observed_def)
  obtain q q' where q: "protocol_run ?x u protocol_start = Some q" "protocol_step ?x (Finished i r) q = Some q'"
    using p(1) unfolding u(1) by (rule word_split)
  from word_invariant [OF q(1)] have "recorded ?x u q" by auto
  moreover from q(2) have "pr_state q = outcome_state (jr_outcome r)" "pr_confidence q = jr_confidence r"
    "pr_reason q = jr_reason r" by (auto split: if_splits)
  ultimately have "filter is_entry u \<noteq> [] \<and>
      last (filter is_entry u) = Journaled i (outcome_state (jr_outcome r)) (jr_confidence r) (jr_reason r)"
    by (cases "jr_outcome r") (auto simp: recorded_def split: if_splits)
  with u(1,2) show ?thesis by blast
qed

theorem one_ending_witness:
  "\<exists>u r. effects_of ''j'' ''k'' (RawPayload [0x41]) demo_options 1 False demo_engine = u @ [Finished ''j'' r] \<and>
     last (filter is_entry u) = Journaled ''j'' (outcome_state (jr_outcome r)) (jr_confidence r) (jr_reason r)"
proof -
  have "fst (runJob ''j'' ''k'' (RawPayload [0x41]) demo_options 1 False demo_engine) = Returned"
    using demo_effects by (simp add: demo_run_def)
  from one_ending [OF this] show ?thesis by blast
qed

text \<open>
  C10: confidence is honest. The confidences the journal records for a job never fall and never
  pass the ceiling of the profile's mechanism.
\<close>

theorem confidence_climbs_to_ceiling:
  "sorted (claims (effects_of i key payload options attempt banner e)) \<and>
   list_all (\<lambda>c. c \<le> maxConfidence (en_profile e)) (claims (effects_of i key payload options attempt banner e))"
proof -
  let ?x = "run_of i key options e" and ?w = "effects_of i key payload options attempt banner e"
  obtain p where p: "protocol_run ?x ?w protocol_start = Some p" by (rule effects_run)
  from word_invariant [OF p] have "claimed ?x ?w p" by auto
  then show ?thesis by (auto simp: claimed_def jx_ceiling_def list_all_iff intro: order_trans)
qed

end
