(* ===== verification/Fences.thy ===== *)
theory Fences imports
  Backchannel
  "HOL-Library.Sublist"
begin

text \<open>
  What can complete a wait. A \<^verbatim>\<open>GS ( H\<close> token counts as acknowledged, and a Star fence as
  signalled, only when the bytes that stand for it occur in what the printer sent since the
  job began or the fence was armed, in whatever pieces they arrived.
\<close>

section \<open>The stream of a wait\<close>

fun rx_bytes :: "arrival \<Rightarrow> bytes" where
  "rx_bytes (Rx data) = data"
| "rx_bytes a = []"

definition stream_of :: "arrival list \<Rightarrow> bytes" where
  "stream_of as = concat (map rx_bytes as)"

definition deliver_all :: "marker_allocator \<Rightarrow> arrival list \<Rightarrow> link \<Rightarrow> link" where
  "deliver_all mk as lk = foldl (\<lambda>lk a. fst (deliver mk a lk)) lk as"

lemma deliver_all_snoc [simp]: "deliver_all mk (as @ [a]) lk = fst (deliver mk a (deliver_all mk as lk))"
  by (simp add: deliver_all_def)

lemma deliver_all_Nil [simp]: "deliver_all mk [] lk = lk"
  by (simp add: deliver_all_def)

lemma stream_of_snoc [simp]: "stream_of (as @ [a]) = stream_of as @ rx_bytes a"
  by (simp add: stream_of_def)

lemma stream_of_Nil [simp]: "stream_of [] = []"
  by (simp add: stream_of_def)

section \<open>The tokens of the ESC/POS fence\<close>

definition ack_frame :: "string \<Rightarrow> bytes" where
  "ack_frame token = [0x37, 0x22] @ bytes_of token @ [0x00]"

text \<open>After the bytes \<^theory_text>\<open>r\<close> of a job: every token held was echoed, and the parser holds their end.\<close>

definition heard :: "bytes \<Rightarrow> link \<Rightarrow> bool" where
  "heard r lk \<longleftrightarrow>
     \<not> lk_star_mode lk \<and> suffix (rp_buffer (lk_parser lk)) r \<and>
     list_all (\<lambda>t. sublist (ack_frame t) r) (lk_gsh_tokens lk)"

text \<open>What the handlers leave alone.\<close>

lemma mergeStatus_frame:
  "fst (mergeStatus f lk) = lk' \<Longrightarrow>
   lk_parser lk' = lk_parser lk \<and> lk_gsh_tokens lk' = lk_gsh_tokens lk \<and> lk_star_mode lk' = lk_star_mode lk \<and>
   lk_stopping lk' = lk_stopping lk"
  by (auto simp: mergeStatus_def Let_def)

lemma on_escpos_frame:
  assumes "on_escpos_event mk ev lk = (lk', es)"
  shows "lk_parser lk' = lk_parser lk \<and> lk_star_mode lk' = lk_star_mode lk \<and>
    lk_gsh_tokens lk' = lk_gsh_tokens lk @
      (if pe_kind ev = GsHAck \<and> isOurs (pe_token ev) mk then [pe_token ev] else [])"
proof (cases "pe_kind ev = RealtimeStatus \<or> pe_kind ev = AsbStatus")
  case True
  obtain m ms where m: "mergeStatus (pe_flags ev) lk = (m, ms)" by fastforce
  from mergeStatus_frame [of "pe_flags ev" lk m] m True assms show ?thesis
    by (auto simp: on_escpos_event_def)
next
  case False
  with assms show ?thesis
    by (cases "pe_kind ev") (auto simp: on_escpos_event_def split: if_splits)
qed

lemma each_escpos_frame:
  "each_event (on_escpos_event mk) evs lk = (lk', es) \<Longrightarrow>
   lk_parser lk' = lk_parser lk \<and> lk_star_mode lk' = lk_star_mode lk \<and>
   lk_gsh_tokens lk' = lk_gsh_tokens lk @
     map pe_token (filter (\<lambda>ev. pe_kind ev = GsHAck \<and> isOurs (pe_token ev) mk) evs)"
proof (induction evs arbitrary: lk lk' es)
  case (Cons ev evs)
  obtain l1 e1 where o: "on_escpos_event mk ev lk = (l1, e1)" by fastforce
  obtain l2 e2 where r: "each_event (on_escpos_event mk) evs l1 = (l2, e2)" by fastforce
  from Cons.prems o r have "lk' = l2" by simp
  with on_escpos_frame [OF o] Cons.IH [OF r] show ?case by auto
qed simp

lemma on_custom_frame:
  "on_custom mk data lk = (lk', es) \<Longrightarrow>
   lk_parser lk' = lk_parser lk \<and> lk_star_mode lk' = lk_star_mode lk \<and> lk_gsh_tokens lk' = lk_gsh_tokens lk"
  by (auto simp: on_custom_def Let_def split: option.splits if_splits custom_match.splits)

lemma onBytes_escpos:
  assumes "\<not> lk_star_mode lk" "rp_feed data (lk_parser lk) = (evs, rp)"
  shows "lk_parser (fst (onBytes mk data lk)) = rp \<and> \<not> lk_star_mode (fst (onBytes mk data lk)) \<and>
    lk_gsh_tokens (fst (onBytes mk data lk)) = lk_gsh_tokens lk @
      map pe_token (filter (\<lambda>ev. pe_kind ev = GsHAck \<and> isOurs (pe_token ev) mk) evs)"
proof -
  obtain l1 e1 where l1: "each_event (on_escpos_event mk) evs (lk\<lparr>lk_parser := rp\<rparr>) = (l1, e1)" by fastforce
  obtain l2 e2 where l2: "on_custom mk data l1 = (l2, e2)" by fastforce
  have "fst (onBytes mk data lk) = l2" using assms l1 l2 by (simp add: onBytes_def)
  with each_escpos_frame [OF l1] on_custom_frame [OF l2] assms(1) show ?thesis by simp
qed

lemma heard_bytes:
  assumes "heard r lk"
  shows "heard (r @ data) (fst (onBytes mk data lk))"
proof -
  obtain evs rp where f: "rp_feed data (lk_parser lk) = (evs, rp)" by fastforce
  from assms have nostar: "\<not> lk_star_mode lk" by (simp add: heard_def)
  note b = onBytes_escpos [OF nostar f, of mk]
  from parser_lossless_ws [of data "lk_parser lk"] f obtain ws where
    ws: "list_all2 rp_covers evs ws" "rp_buffer (lk_parser lk) @ data = concat ws @ rp_buffer rp" by auto
  from assms obtain pre where pre: "r = pre @ rp_buffer (lk_parser lk)" by (auto simp: heard_def suffix_def)
  have all: "r @ data = pre @ concat ws @ rp_buffer rp" unfolding pre using ws(2) by simp
  have new: "sublist (ack_frame (pe_token ev)) (r @ data)" if "ev \<in> set evs" "pe_kind ev = GsHAck" for ev
  proof -
    from ack_covers [OF ws(1) that] obtain a b where "concat ws = a @ ack_frame (pe_token ev) @ b"
      by (auto simp: ack_frame_def)
    then have "r @ data = (pre @ a) @ ack_frame (pe_token ev) @ (b @ rp_buffer rp)" using all by simp
    then show ?thesis unfolding sublist_def by blast
  qed
  have old: "sublist (ack_frame t) (r @ data)" if "t \<in> set (lk_gsh_tokens lk)" for t
    using assms that unfolding sublist_def heard_def list_all_iff by (metis append.assoc)
  show ?thesis
    using b all new old by (auto simp: heard_def list_all_iff suffix_def)
qed

lemma heard_deliver: "heard r lk \<Longrightarrow> heard (r @ rx_bytes a) (fst (deliver mk a lk))"
  by (cases a) (simp_all add: heard_bytes, simp_all add: heard_def onDisconnected_def)

lemma heard_begin: "heard r (beginJobIo lk)"
  by (simp add: heard_def beginJobIo_def rp_reset_def)

lemma heard_stream: "heard (stream_of as) (deliver_all mk as (beginJobIo lk))"
proof (induction as rule: rev_induct)
  case (snoc a as)
  then show ?case using heard_deliver [of "stream_of as" "deliver_all mk as (beginJobIo lk)" a mk] by simp
qed (simp add: heard_begin)

lemma conclude_signalled: "conclude b lk = Signalled \<longleftrightarrow> b"
  by (auto simp: conclude_def)

lemma each_event_Cons: "fst (each_event h (ev # evs) lk) = fst (each_event h evs (fst (h ev lk)))"
  by (simp split: prod.splits)

lemma star_event_tokens: "lk_gsh_tokens (fst (on_star_event ev lk)) = lk_gsh_tokens lk"
  by (simp add: on_star_event_def Let_def split: star_event_kind.splits)

lemma each_star_tokens: "lk_gsh_tokens (fst (each_event on_star_event evs lk)) = lk_gsh_tokens lk"
  by (induction evs arbitrary: lk) (simp_all add: each_event_Cons star_event_tokens del: each_event.simps(2))

lemma deliver_ours:
  assumes "list_all (\<lambda>t. isOurs t mk) (lk_gsh_tokens lk)"
  shows "list_all (\<lambda>t. isOurs t mk) (lk_gsh_tokens (fst (deliver mk a lk)))"
proof (cases a)
  case (Rx data)
  show ?thesis
  proof (cases "lk_star_mode lk")
    case False
    obtain evs rp where f: "rp_feed data (lk_parser lk) = (evs, rp)" by fastforce
    from onBytes_escpos [OF False f, of mk] assms Rx show ?thesis by (auto simp: list_all_iff)
  next
    case True
    with True Rx assms show ?thesis by (simp add: onBytes_def each_star_tokens split: prod.splits)
  qed
qed (use assms in \<open>simp_all add: onDisconnected_def\<close>)

text \<open>
  C11: a token is never acknowledged on trust. When the wait for a completion token of a job
  succeeds, the token carries this instance's nonce and its complete acknowledgement frame
  occurs in the bytes received since the job's I/O began, whatever else arrived between.
\<close>

theorem token_needs_echo:
  assumes "fst (awaitToken t (deliver_all mk as (beginJobIo lk))) = Signalled"
  shows "isOurs t mk \<and> sublist (ack_frame t) (stream_of as)"
proof -
  from assms have t: "t \<in> set (lk_gsh_tokens (deliver_all mk as (beginJobIo lk)))"
    by (simp add: awaitToken_def conclude_signalled)
  have "list_all (\<lambda>t. isOurs t mk) (lk_gsh_tokens (deliver_all mk as (beginJobIo lk)))"
    by (induction as rule: rev_induct) (simp_all add: deliver_ours, simp add: beginJobIo_def)
  with t heard_stream [of as mk lk] show ?thesis by (auto simp: heard_def list_all_iff)
qed


theorem token_needs_echo_witness:
  "isOurs ''AB!!'' (new_allocator ''AB'') \<and>
   sublist (ack_frame ''AB!!'') [0x00, 0x37, 0x22, 0x41, 0x42, 0x21, 0x21, 0x00]"
proof -
  let ?as = "[Rx [0x00, 0x37, 0x22, 0x41], LinkLost, Rx [0x42, 0x21, 0x21, 0x00]]"
  have "fst (awaitToken ''AB!!'' (deliver_all (new_allocator ''AB'') ?as (beginJobIo new_link))) = Signalled"
    by code_simp
  from token_needs_echo [OF this] show ?thesis by (simp add: stream_of_def)
qed

section \<open>The Star fences\<close>

text \<open>The block of an ASB transmission that carries a counter value.\<close>

definition counter_block :: "u8 \<Rightarrow> bytes \<Rightarrow> bool" where
  "counter_block c w \<longleftrightarrow> w \<noteq> [] \<and> (if length w > 7 then etbCounter (w ! 7) else 0) = c"

text \<open>The answer an armed fence waits for occurs in \<^theory_text>\<open>r\<close>.\<close>

definition answered :: "link \<Rightarrow> bytes \<Rightarrow> bool" where
  "answered lk r \<longleftrightarrow>
     (if lk_fence_is_etb lk then \<exists>w. counter_block (lk_expect_counter lk) w \<and> sublist w r
      else \<exists>c z. sublist (escGsEtxFence (lk_expect_n1 lk) (lk_expect_n2 lk) @ [c, z]) r)"

definition same_fence :: "link \<Rightarrow> link \<Rightarrow> bool" where
  "same_fence lk lk' \<longleftrightarrow>
     lk_fence_is_etb lk' = lk_fence_is_etb lk \<and> lk_expect_n1 lk' = lk_expect_n1 lk \<and>
     lk_expect_n2 lk' = lk_expect_n2 lk \<and> lk_expect_counter lk' = lk_expect_counter lk \<and>
     lk_star_mode lk' = lk_star_mode lk \<and> lk_star_parser lk' = lk_star_parser lk"

lemma star_event_fence: "same_fence lk (fst (on_star_event ev lk))"
  by (simp add: same_fence_def on_star_event_def Let_def split: star_event_kind.splits)

lemma same_fence_trans: "same_fence a b \<Longrightarrow> same_fence b c \<Longrightarrow> same_fence a c"
  by (simp add: same_fence_def)

lemma each_star_fence: "same_fence lk (fst (each_event on_star_event evs lk))"
proof (induction evs arbitrary: lk)
  case (Cons ev evs)
  show ?case unfolding each_event_Cons
    by (rule same_fence_trans [OF star_event_fence Cons.IH])
qed (simp add: same_fence_def)

lemma answered_same: "same_fence lk lk' \<Longrightarrow> answered lk' r = answered lk r"
  by (simp add: same_fence_def answered_def)

text \<open>The bytes of one event.\<close>

lemma star_event_answer:
  assumes "lk_fence_signalled (fst (on_star_event ev lk))" "\<not> lk_fence_signalled lk" "sp_covers ev w" "sublist w r"
  shows "answered lk r"
proof (cases "se_kind ev")
  case SE_EtxAck
  with assms(1,2) have e: "\<not> lk_fence_is_etb lk" "se_n1 ev = lk_expect_n1 lk" "se_n2 ev = lk_expect_n2 lk"
    by (auto simp: on_star_event_def split: if_splits)
  from assms(3) SE_EtxAck have w: "length w = 8" "take 7 w = kEtxPrefix @ [se_n1 ev, se_n2 ev, se_counter ev]" by auto
  then have "w = take 7 w @ [w ! 7]"
    by (metis Suc_numeral lessI take_Suc_conv_app_nth take_all_iff order_refl semiring_norm(2,5,8))
  with w(2) e have "w = escGsEtxFence (lk_expect_n1 lk) (lk_expect_n2 lk) @ [se_counter ev, w ! 7]"
    by (simp add: escGsEtxFence_def kEtxPrefix_def)
  with assms(4) e(1) show ?thesis by (metis answered_def)
next
  case SE_AsbStatus
  with assms(1,2) have e: "lk_fence_is_etb lk" "se_counter ev = lk_expect_counter lk"
    by (auto simp: on_star_event_def Let_def split: if_splits)
  from assms(3) SE_AsbStatus e have "counter_block (lk_expect_counter lk) w"
    by (auto simp: counter_block_def)
  with assms(4) e(1) show ?thesis by (auto simp: answered_def)
qed (use assms in \<open>simp add: on_star_event_def\<close>)

lemma each_star_answer:
  assumes "list_all2 sp_covers evs ws" "\<forall>w \<in> set ws. sublist w r"
    "lk_fence_signalled (fst (each_event on_star_event evs lk))" "\<not> lk_fence_signalled lk"
  shows "answered lk r"
  using assms
proof (induction evs ws arbitrary: lk rule: list_all2_induct)
  case (Cons ev evs w ws)
  let ?l = "fst (on_star_event ev lk)"
  show ?case
  proof (cases "lk_fence_signalled ?l")
    case True
    with Cons.prems Cons.hyps(1) show ?thesis by (intro star_event_answer [of ev lk w]) auto
  next
    case False
    have "answered ?l r"
      using Cons.prems False by (intro Cons.IH) (auto simp: each_event_Cons simp del: each_event.simps(2))
    with answered_same [OF star_event_fence] show ?thesis by blast
  qed
qed simp

text \<open>The link while an armed fence is out.\<close>

definition fenced :: "link \<Rightarrow> bytes \<Rightarrow> link \<Rightarrow> bool" where
  "fenced armed r lk \<longleftrightarrow>
     lk_star_mode lk \<and> lk_star_mode armed \<and> suffix (sp_buffer (lk_star_parser lk)) r \<and>
     same_fence (armed\<lparr>lk_star_parser := lk_star_parser lk\<rparr>) lk \<and>
     (lk_fence_signalled lk \<longrightarrow> answered armed r)"

lemma answered_more: "answered lk r \<Longrightarrow> answered lk (r @ data)"
proof -
  have "sublist w r \<Longrightarrow> sublist w (r @ data)" for w unfolding sublist_def by (metis append.assoc)
  then show "answered lk r \<Longrightarrow> ?thesis" unfolding answered_def by (auto split: if_splits)
qed

lemma fenced_bytes:
  assumes "fenced armed r lk"
  shows "fenced armed (r @ data) (fst (onBytes mk data lk))"
proof -
  obtain evs sp where f: "sp_feed data (lk_star_parser lk) = (evs, sp)" by fastforce
  let ?l = "lk\<lparr>lk_star_parser := sp\<rparr>"
  let ?m = "fst (each_event on_star_event evs ?l)"
  have m: "fst (onBytes mk data lk) = ?m"
    using assms f by (simp add: onBytes_def fenced_def)
  from sp_lossless_ws [of data "lk_star_parser lk"] f obtain ws where
    ws: "list_all2 sp_covers evs ws" "sp_buffer (lk_star_parser lk) @ data = concat ws @ sp_buffer sp" by auto
  from assms obtain pre where pre: "r = pre @ sp_buffer (lk_star_parser lk)" by (auto simp: fenced_def suffix_def)
  have all: "r @ data = pre @ concat ws @ sp_buffer sp" unfolding pre using ws(2) by simp
  have parts: "\<forall>w \<in> set ws. sublist w (r @ data)"
  proof
    fix w assume "w \<in> set ws"
    then obtain a b where "ws = a @ w # b" by (auto dest: split_list)
    then have "r @ data = (pre @ concat a) @ w @ (concat b @ sp_buffer sp)" using all by simp
    then show "sublist w (r @ data)" unfolding sublist_def by blast
  qed
  have same: "same_fence ?l ?m" by (rule each_star_fence)
  have arm: "answered ?l = answered armed"
    using assms by (auto simp: fenced_def same_fence_def answered_def fun_eq_iff)
  have "lk_fence_signalled ?m \<longrightarrow> answered armed (r @ data)"
  proof (cases "lk_fence_signalled lk")
    case True
    with assms show ?thesis by (simp add: fenced_def answered_more)
  next
    case False
    with each_star_answer [OF ws(1) parts, of ?l] arm show ?thesis by auto
  qed
  moreover have "suffix (sp_buffer sp) (r @ data)" using all by (auto simp: suffix_def)
  ultimately show ?thesis
    using assms same unfolding m by (auto simp: fenced_def same_fence_def)
qed

lemma fenced_deliver: "fenced armed r lk \<Longrightarrow> fenced armed (r @ rx_bytes a) (fst (deliver mk a lk))"
  by (cases a) (simp_all add: fenced_bytes, simp_all add: fenced_def same_fence_def onDisconnected_def)

lemma fenced_stream:
  "fenced lk r lk \<Longrightarrow> fenced lk (r @ stream_of as) (deliver_all mk as lk)"
proof (induction as rule: rev_induct)
  case (snoc a as)
  then show ?case using fenced_deliver [of lk "r @ stream_of as" "deliver_all mk as lk" a mk] by simp
qed simp

text \<open>
  C12: a Star fence is never signalled on trust. When the wait succeeds, the bytes held when the
  fence was armed and those received since contain its answer: for \<^verbatim>\<open>ESC GS ETX\<close> the echo of
  exactly the fence that was sent with its two identifier bytes, for ETB a status block whose
  counter is the successor of the last one seen.
\<close>

theorem star_fence_needs_answer:
  assumes "armStarFence profile lk = (fence, armed)" and "lk_star_mode lk"
    and "fst (awaitStarFence (deliver_all mk as armed)) = Signalled"
  shows "if cp_completion profile = CM_StarEtb
    then \<exists>w. counter_block (nextEtbCounter (case lk_star_counter lk of Some c \<Rightarrow> c | None \<Rightarrow> 0)) w \<and>
             sublist w (sp_buffer (lk_star_parser lk) @ stream_of as)
    else \<exists>c z. sublist (fence @ [c, z]) (sp_buffer (lk_star_parser lk) @ stream_of as)"
proof -
  from assms(1,2) have a: "lk_star_mode armed" "\<not> lk_fence_signalled armed" "lk_star_parser armed = lk_star_parser lk"
    by (auto simp: armStarFence_def Let_def split: if_splits)
  then have "fenced armed (sp_buffer (lk_star_parser lk)) armed"
    by (simp add: fenced_def same_fence_def)
  from fenced_stream [OF this, of as mk] assms(3)
  have "answered armed (sp_buffer (lk_star_parser lk) @ stream_of as)"
    by (auto simp: fenced_def awaitStarFence_def conclude_signalled)
  with assms(1) show ?thesis
    by (auto simp: answered_def armStarFence_def Let_def split: if_splits) blast
qed

theorem star_fence_needs_answer_witness:
  "\<exists>c z. sublist (escGsEtxFence 0 1 @ [c, z]) [0x1B, 0x1D, 0x03, 0x01, 0x00, 0x01, 0x05, 0x00]"
proof -
  let ?p = "generic_escpos\<lparr>cp_completion := CM_StarEscGsEtx\<rparr>" and ?lk = "new_link\<lparr>lk_star_mode := True\<rparr>"
  let ?as = "[Rx [0x1B, 0x1D, 0x03], Rx [0x01, 0x00, 0x01, 0x05, 0x00]]"
  have a: "armStarFence ?p ?lk = (escGsEtxFence 0 1, snd (armStarFence ?p ?lk))"
    by (simp add: armStarFence_def Let_def new_link_def)
  have "fst (awaitStarFence (deliver_all (new_allocator ''AB'') ?as (snd (armStarFence ?p ?lk)))) = Signalled"
    by code_simp
  from star_fence_needs_answer [OF a _ this] show ?thesis
    by (simp add: stream_of_def new_link_def new_star_parser_def)
qed

end
