(* ===== verification/Job_Acknowledgement.thy ===== *)
theory Job_Acknowledgement imports
  Job_Guarantees
  Fences
begin

text \<open>
  Where the two halves of the engine meet: a job on a \<^verbatim>\<open>GS ( H\<close> printer records a confirmed
  print only behind the printer's own echo of the print token it journaled, and a processed
  cut only behind the echo of the cut token. The proof follows the run with an assertion on
  the effects so far and the link's state.
\<close>

section \<open>Assertions on a run\<close>

fun received_by :: "effect \<Rightarrow> bytes" where
  "received_by (Received bs) = bs"
| "received_by ef = []"

definition received :: "effect list \<Rightarrow> bytes" where
  "received w = concat (map received_by w)"

lemma received_append [simp]: "received (u @ v) = received u @ received v"
  by (simp add: received_def)

lemma received_Cons [simp]: "received (ef # w) = received_by ef @ received w"
  by (simp add: received_def)

lemma received_Nil [simp]: "received [] = []"
  by (simp add: received_def)

lemma received_notified [simp]: "received (map Notified es) = []"
  by (induction es) simp_all

definition print_acked :: "string \<Rightarrow> effect list \<Rightarrow> bool" where
  "print_acked i w \<longleftrightarrow> (\<exists>p c. JournaledTokens i p c \<in> set w \<and> sublist (ack_frame p) (received w))"

definition cut_acked :: "string \<Rightarrow> effect list \<Rightarrow> bool" where
  "cut_acked i w \<longleftrightarrow> (\<exists>p c. JournaledTokens i p c \<in> set w \<and> sublist (ack_frame c) (received w))"

definition records :: "string \<Rightarrow> job_state \<Rightarrow> effect list \<Rightarrow> bool" where
  "records i s w \<longleftrightarrow> (\<exists>c r. Journaled i s c r \<in> set w)"

definition honest :: "string \<Rightarrow> effect list \<Rightarrow> bool" where
  "honest i w \<longleftrightarrow>
     (records i JS_PrintConfirmed w \<longrightarrow> print_acked i w) \<and>
     (records i JS_CutCommandProcessed w \<longrightarrow> cut_acked i w)"

lemma sublist_grow: "sublist a r \<Longrightarrow> sublist a (r @ s)"
  unfolding sublist_def by (metis append.assoc)

lemma acked_grow: "print_acked i w \<Longrightarrow> print_acked i (w @ v)" "cut_acked i w \<Longrightarrow> cut_acked i (w @ v)"
  unfolding print_acked_def cut_acked_def by (auto intro: sublist_grow)

lemma honest_grow:
  "honest i w \<Longrightarrow> \<not> records i JS_PrintConfirmed v \<Longrightarrow> \<not> records i JS_CutCommandProcessed v \<Longrightarrow> honest i (w @ v)"
  unfolding honest_def records_def using acked_grow by (auto; blast)

text \<open>
  The log is \<^theory_text>\<open>base\<close> and effects that satisfy \<^theory_text>\<open>P\<close>, confirmations in them are honest, and the link
  has heard exactly what they say was received.
\<close>

definition stands :: "effect list \<Rightarrow> string \<Rightarrow> (effect list \<Rightarrow> bool) \<Rightarrow> engine \<Rightarrow> bool" where
  "stands base i P e \<longleftrightarrow>
     (\<exists>w. en_log e = base @ w \<and> heard (received w) (en_link e) \<and> honest i w \<and> P w)"

definition lasting :: "(effect list \<Rightarrow> bool) \<Rightarrow> bool" where
  "lasting P \<longleftrightarrow> (\<forall>w v. P w \<longrightarrow> P (w @ v))"

lemma standsI:
  "en_log e = base @ w \<Longrightarrow> heard (received w) (en_link e) \<Longrightarrow> honest i w \<Longrightarrow> P w \<Longrightarrow> stands base i P e"
  by (auto simp: stands_def)

text \<open>The judgement on a phase; an exit keeps the log honest.\<close>

definition phase_ok ::
    "effect list \<Rightarrow> string \<Rightarrow> (effect list \<Rightarrow> bool) \<Rightarrow> 'a phase \<Rightarrow> ('a \<Rightarrow> effect list \<Rightarrow> bool) \<Rightarrow> bool" where
  "phase_ok base i P m Q \<longleftrightarrow>
     (\<forall>e f e'. stands base i P e \<longrightarrow> m e = (f, e') \<longrightarrow>
        (case f of Next a \<Rightarrow> stands base i (Q a) e' | _ \<Rightarrow> stands base i (\<lambda>w. True) e'))"

lemma stands_weaken: "stands base i P e \<Longrightarrow> (\<And>w. P w \<Longrightarrow> Q w) \<Longrightarrow> stands base i Q e"
  by (auto simp: stands_def)

lemma phase_ok_then:
  assumes "phase_ok base i P m Q" "\<And>a. phase_ok base i (Q a) (k a) R"
  shows "phase_ok base i P (run_then m k) R"
  unfolding phase_ok_def
proof (intro allI impI)
  fix e f e' assume s: "stands base i P e" and run: "run_then m k e = (f, e')"
  obtain g e1 where m: "m e = (g, e1)" by fastforce
  with assms(1) s have g: "case g of Next a \<Rightarrow> stands base i (Q a) e1 | _ \<Rightarrow> stands base i (\<lambda>w. True) e1"
    unfolding phase_ok_def by blast
  show "case f of Next a \<Rightarrow> stands base i (R a) e' | _ \<Rightarrow> stands base i (\<lambda>w. True) e'"
  proof (cases g)
    case (Next a)
    with run m have "k a e1 = (f, e')" by (simp add: run_then_def)
    moreover have "stands base i (Q a) e1" using g Next by simp
    ultimately show ?thesis using assms(2) [of a] unfolding phase_ok_def by blast
  qed (use run m g in \<open>auto simp: run_then_def\<close>)
qed

text \<open>A phase that reads, writes and receives but journals no confirmation.\<close>

definition calm :: "string \<Rightarrow> 'a phase \<Rightarrow> bool" where
  "calm i m \<longleftrightarrow>
     (\<forall>e f e' r. m e = (f, e') \<longrightarrow> heard r (en_link e) \<longrightarrow>
        (\<exists>v. en_log e' = en_log e @ v \<and> heard (r @ received v) (en_link e') \<and>
             \<not> records i JS_PrintConfirmed v \<and> \<not> records i JS_CutCommandProcessed v))"

lemma calm_ok:
  assumes "calm i m" "lasting P"
  shows "phase_ok base i P m (\<lambda>_. P)"
  unfolding phase_ok_def
proof (intro allI impI)
  fix e f e' assume s: "stands base i P e" and m: "m e = (f, e')"
  from s obtain w where w: "en_log e = base @ w" "heard (received w) (en_link e)" "honest i w" "P w"
    by (auto simp: stands_def)
  from assms(1) m w(2) obtain v where
    v: "en_log e' = en_log e @ v" "heard (received w @ received v) (en_link e')"
      "\<not> records i JS_PrintConfirmed v" "\<not> records i JS_CutCommandProcessed v"
    unfolding calm_def by blast
  have "stands base i P e'"
    using w v assms(2) honest_grow [OF w(3) v(3,4)] by (intro standsI [of _ _ "w @ v"]) (auto simp: lasting_def)
  then show "case f of Next a \<Rightarrow> stands base i P e' | _ \<Rightarrow> stands base i (\<lambda>w. True) e'"
    by (auto split: flow.split intro: stands_weaken)
qed

lemma calm_then:
  assumes "calm i m" "\<And>a. calm i (k a)"
  shows "calm i (run_then m k)"
  unfolding calm_def
proof (intro allI impI)
  fix e f e' r assume run: "run_then m k e = (f, e')" and h: "heard r (en_link e)"
  obtain g e1 where m: "m e = (g, e1)" by fastforce
  with assms(1) h obtain v where
    v: "en_log e1 = en_log e @ v" "heard (r @ received v) (en_link e1)"
      "\<not> records i JS_PrintConfirmed v" "\<not> records i JS_CutCommandProcessed v"
    unfolding calm_def by blast
  show "\<exists>v. en_log e' = en_log e @ v \<and> heard (r @ received v) (en_link e') \<and>
      \<not> records i JS_PrintConfirmed v \<and> \<not> records i JS_CutCommandProcessed v"
  proof (cases g)
    case (Next a)
    with run m have "k a e1 = (f, e')" by (simp add: run_then_def)
    with assms(2) [of a] v(2) obtain u where
      "en_log e' = en_log e1 @ u" "heard ((r @ received v) @ received u) (en_link e')"
      "\<not> records i JS_PrintConfirmed u" "\<not> records i JS_CutCommandProcessed u"
      unfolding calm_def by blast
    with v show ?thesis by (intro exI [of _ "v @ u"]) (auto simp: records_def)
  qed (use run m v in \<open>auto simp: run_then_def intro!: exI [of _ v]\<close>)
qed

lemma calm_silent:
  assumes "\<And>e. en_log (snd (m e)) = en_log e \<and> en_link (snd (m e)) = en_link e"
  shows "calm i m"
  unfolding calm_def
proof (intro allI impI)
  fix e f e' r assume "m e = (f, e')" "heard r (en_link e)"
  with assms [of e] show "\<exists>v. en_log e' = en_log e @ v \<and> heard (r @ received v) (en_link e') \<and>
      \<not> records i JS_PrintConfirmed v \<and> \<not> records i JS_CutCommandProcessed v"
    by (intro exI [of _ "[]"]) (simp add: records_def)
qed

lemma calm_value: "calm i (value_of v)"
  by (rule calm_silent) (simp add: value_of_def)

lemma calm_skip: "calm i skip"
  by (rule calm_silent) (simp add: skip_def)

lemma calm_return: "calm i return_early"
  by (rule calm_silent) (simp add: return_early_def)

lemma calm_encoded: "calm i (encoded r)"
  by (rule calm_silent) (auto simp: encoded_def split: sum.split encoding_error.split)

lemma calm_if: "(b \<Longrightarrow> calm i m) \<Longrightarrow> (\<not> b \<Longrightarrow> calm i m') \<Longrightarrow> calm i (if b then m else m')"
  by simp

text \<open>A change of the link that keeps what was heard.\<close>

definition keeps_heard :: "(link \<Rightarrow> link) \<Rightarrow> bool" where
  "keeps_heard g \<longleftrightarrow> (\<forall>r lk. heard r lk \<longrightarrow> heard r (g lk))"

lemma calm_link: "keeps_heard g \<Longrightarrow> calm i (change (on_link g))"
  unfolding calm_def keeps_heard_def
  by (auto simp: change_def on_link_def records_def intro!: exI [of _ "[]"])

lemma keeps_heard_expect: "keeps_heard expect_preflight" "keeps_heard expect_queued"
    "keeps_heard (\<lambda>lk. lk\<lparr>lk_parser := expectRealtime k (lk_parser lk)\<rparr>)"
  by (auto simp: keeps_heard_def heard_def expect_preflight_def expect_queued_def expectRealtime_def
      expectQueued_def preflight_kinds_def)

lemma keeps_heard_clear: "keeps_heard clearRealtime" "keeps_heard armCustomFence"
  by (auto simp: keeps_heard_def heard_def clearRealtime_def armCustomFence_def rp_reset_def Let_def)


section \<open>Reading, writing and waiting\<close>

definition hears :: "engine \<Rightarrow> engine \<Rightarrow> bool" where
  "hears e e' \<longleftrightarrow>
     (\<forall>r. heard r (en_link e) \<longrightarrow>
        (\<exists>v. en_log e' = en_log e @ v \<and> heard (r @ received v) (en_link e') \<and> list_all is_io v))"

lemma hears_trans:
  assumes "hears a b" "hears b c"
  shows "hears a c"
  unfolding hears_def
proof (intro allI impI)
  fix r assume "heard r (en_link a)"
  with assms(1) obtain v where v: "en_log b = en_log a @ v" "heard (r @ received v) (en_link b)" "list_all is_io v"
    unfolding hears_def by blast
  with assms(2) obtain u where "en_log c = en_log b @ u" "heard ((r @ received v) @ received u) (en_link c)"
    "list_all is_io u" unfolding hears_def by blast
  with v show "\<exists>v. en_log c = en_log a @ v \<and> heard (r @ received v) (en_link c) \<and> list_all is_io v"
    by (intro exI [of _ "v @ u"]) simp
qed

lemma hears_silent: "en_log e' = en_log e \<Longrightarrow> en_link e' = en_link e \<Longrightarrow> hears e e'"
  by (auto simp: hears_def intro!: exI [of _ "[]"])

lemma hears_io: "is_io ef \<Longrightarrow> received_by ef = [] \<Longrightarrow> hears e (log_effect ef e)"
  by (auto simp: hears_def log_effect_def intro!: exI [of _ "[ef]"])

lemma io_unrecorded: "list_all is_io v \<Longrightarrow> \<not> records i s v"
  by (auto simp: records_def list_all_iff)

lemma hears_arrive: "hears e (arrive a e)"
  unfolding hears_def
proof (intro allI impI)
  fix r assume h: "heard r (en_link e)"
  obtain lk es where d: "deliver (en_markers e) a (en_link e) = (lk, es)" by fastforce
  let ?v = "(case a of Rx d \<Rightarrow> [Received d] | _ \<Rightarrow> []) @ map Notified es"
  have "received ?v = rx_bytes a" "list_all is_io ?v"
    by (cases a; simp add: list_all_iff; fail)+
  moreover from heard_deliver [OF h, of a "en_markers e"] d have "heard (r @ rx_bytes a) lk" by simp
  ultimately show "\<exists>v. en_log (arrive a e) = en_log e @ v \<and> heard (r @ received v) (en_link (arrive a e)) \<and> list_all is_io v"
    using d by (intro exI [of _ ?v]) (simp add: arrive_def)
qed

lemma hears_arrive_all: "hears e (arrive_all as e)"
proof (induction as arbitrary: e)
  case (Cons a as)
  show ?case using hears_trans [OF hears_arrive Cons.IH, of e a] by (simp add: arrive_all_def)
qed (simp add: arrive_all_def hears_silent)

lemma hears_turn: "take_turn e = (t, e1) \<Longrightarrow> hears e e1"
  by (auto simp: take_turn_def intro: hears_silent split: list.splits)

lemma hears_write: "hears e (snd (write_once bs e))"
proof -
  obtain t e1 where t: "take_turn e = (t, e1)" by fastforce
  then show ?thesis
    using hears_trans [OF hears_turn [OF t] hears_trans [OF hears_io hears_arrive_all]]
    by (simp add: write_once_def Let_def)
qed

lemma hears_chunks: "hears e (snd (send_chunks chunk bs offset e))"
proof (induction chunk bs offset e rule: send_chunks.induct)
  case (1 chunk bs offset e)
  show ?case
  proof (cases "bs = [] \<or> chunk = 0")
    case False
    obtain ok n e1 where w: "write_once (take chunk bs) e = ((ok, n), e1)" by (metis prod.collapse)
    have h: "hears e e1" using hears_write [of e "take chunk bs"] w by simp
    show ?thesis
    proof (cases ok)
      case True
      with 1 [OF False _ _ ] w have "hears e1 (snd (send_chunks chunk (drop chunk bs) (offset + min chunk (length bs)) e1))"
        by simp
      with hears_trans [OF h] False w True show ?thesis by (subst send_chunks.simps) simp
    next
      case False
      with h w \<open>\<not> (bs = [] \<or> chunk = 0)\<close> show ?thesis by (subst send_chunks.simps) simp
    qed
  qed (auto simp: send_chunks.simps intro: hears_silent)
qed

lemma calm_hears: "(\<And>e. hears e (snd (m e))) \<Longrightarrow> calm i (perform m)"
  unfolding calm_def
proof (intro allI impI)
  fix e f e' r assume m: "\<And>e. hears e (snd (m e))" and p: "perform m e = (f, e')" and h: "heard r (en_link e)"
  from p have "e' = snd (m e)" by (auto simp: perform_def split: prod.splits)
  with m [of e] h obtain v where "en_log e' = en_log e @ v" "heard (r @ received v) (en_link e')" "list_all is_io v"
    unfolding hears_def by blast
  then show "\<exists>v. en_log e' = en_log e @ v \<and> heard (r @ received v) (en_link e') \<and>
      \<not> records i JS_PrintConfirmed v \<and> \<not> records i JS_CutCommandProcessed v"
    using io_unrecorded by blast
qed

lemma calm_send: "calm i (perform (sendPaced profile bs))"
  by (rule calm_hears) (simp add: sendPaced_def hears_silent hears_write hears_chunks)

lemma hears_waiting:
  assumes "keeps_heard (\<lambda>lk. snd (f lk))"
  shows "hears e (snd (waiting f e))"
proof -
  obtain t e1 where t: "take_turn e = (t, e1)" by fastforce
  let ?e2 = "arrive_all (tn_arrivals t) e1"
  have "hears ?e2 (?e2\<lparr>en_link := snd (f (en_link ?e2))\<rparr>)"
    using assms by (auto simp: hears_def keeps_heard_def intro!: exI [of _ "[]"])
  then have "hears e (?e2\<lparr>en_link := snd (f (en_link ?e2))\<rparr>)"
    using hears_trans [OF hears_turn [OF t] hears_trans [OF hears_arrive_all]] by blast
  with t show ?thesis by (simp add: waiting_def Let_def split_beta)
qed

lemma calm_wait: "keeps_heard (\<lambda>lk. snd (f lk)) \<Longrightarrow> calm i (perform (waiting f))"
  by (rule calm_hears) (rule hears_waiting)

lemma keeps_heard_await: "keeps_heard (\<lambda>lk. snd (awaitRealtime n lk))" "keeps_heard (\<lambda>lk. snd (awaitToken t lk))"
  by (simp_all add: keeps_heard_def awaitRealtime_def awaitToken_def)

section \<open>Transitions and tokens\<close>

lemma advance_log:
  assumes "advance i s c r ev e = (f, e')"
  obtains "f = Next ()" "en_log e' = en_log e @ [Journaled i s c r, Published i (make_event s c (if r = FR_None then None else Some r))]"
    "en_link e' = en_link e"
  | msg where "f = Raised msg" "en_log e' = en_log e" "en_link e' = en_link e"
proof -
  obtain io now e1 where d: "take_disk e = ((io, now), e1)" by (metis prod.collapse)
  then have l: "en_log e1 = en_log e" "en_link e1 = en_link e" by (auto simp: take_disk_def split: list.splits)
  obtain st err where st: "recordState io now i s c r ev (en_store e1) = (st, err)" by fastforce
  show thesis
  proof (cases err)
    case None
    with assms d st l show thesis by (intro that(1)) (auto simp: advance_def log_effect_def on_job_def Let_def)
  next
    case (Some er)
    with assms d st l show thesis by (cases er) (auto intro!: that(2) simp: advance_def)
  qed
qed

lemma calm_advance:
  assumes "s \<noteq> JS_PrintConfirmed" "s \<noteq> JS_CutCommandProcessed"
  shows "calm i (advance j s c r ev)"
  unfolding calm_def
proof (intro allI impI)
  fix e f e' q assume a: "advance j s c r ev e = (f, e')" and h: "heard q (en_link e)"
  from a show "\<exists>v. en_log e' = en_log e @ v \<and> heard (q @ received v) (en_link e') \<and>
      \<not> records i JS_PrintConfirmed v \<and> \<not> records i JS_CutCommandProcessed v"
  proof (cases rule: advance_log)
    case 1
    with h assms show ?thesis
      by (intro exI [of _ "[Journaled j s c r, Published j (make_event s c (if r = FR_None then None else Some r))]"])
        (auto simp: records_def)
  next
    case (2 msg)
    with h show ?thesis by (intro exI [of _ "[]"]) (simp add: records_def)
  qed
qed

lemma advance_confirmed:
  assumes "lasting P" "\<And>w. P w \<Longrightarrow> s = JS_PrintConfirmed \<Longrightarrow> print_acked i w"
    "\<And>w. P w \<Longrightarrow> s = JS_CutCommandProcessed \<Longrightarrow> cut_acked i w"
  shows "phase_ok base i P (advance i s c r ev) (\<lambda>_. P)"
  unfolding phase_ok_def
proof (intro allI impI)
  fix e f e' assume s: "stands base i P e" and a: "advance i s c r ev e = (f, e')"
  from s obtain w where w: "en_log e = base @ w" "heard (received w) (en_link e)" "honest i w" "P w"
    by (auto simp: stands_def)
  let ?v = "[Journaled i s c r, Published i (make_event s c (if r = FR_None then None else Some r))]"
  have "honest i (w @ ?v)"
    using w(3,4) assms(2,3) acked_grow unfolding honest_def records_def by fastforce
  with a w assms(1) show "case f of Next a \<Rightarrow> stands base i P e' | _ \<Rightarrow> stands base i (\<lambda>w. True) e'"
  proof (cases rule: advance_log)
    case 1
    with w \<open>honest i (w @ ?v)\<close> assms(1) have "stands base i P e'"
      by (intro standsI [of _ _ "w @ ?v"]) (auto simp: lasting_def)
    with 1 show ?thesis by simp
  next
    case (2 msg)
    with w have "stands base i (\<lambda>w. True) e'" by (intro standsI [of _ _ w]) auto
    with 2 show ?thesis by simp
  qed
qed

lemma calm_finish: "calm i (change (\<lambda>e. log_effect (Finished j r) (on_job j g e)))"
  unfolding calm_def
  by (auto simp: change_def log_effect_def on_job_def records_def intro!: exI [of _ "[Finished j r]"])

lemma calm_end:
  assumes "s \<noteq> JS_PrintConfirmed" "s \<noteq> JS_CutCommandProcessed"
  shows "calm i (end_job j s r)"
  unfolding end_job_def terminate_job_def
  by (intro calm_then calm_advance calm_finish calm_return assms)

lemma calm_ends: "calm i (fail_job x reason c ev)" "calm i (lose_job x reason c)" "calm i (complete_job x c ev)"
  unfolding fail_job_def lose_job_def complete_job_def by (simp_all add: calm_end)

lemma calm_pass:
  "s \<noteq> JS_PrintConfirmed \<Longrightarrow> s \<noteq> JS_CutCommandProcessed \<Longrightarrow> calm i (pass_state x s c)"
  unfolding pass_state_def by (rule calm_advance)


text \<open>The ends never go on.\<close>

lemma end_never_next: "fst (end_job j s r e) \<noteq> Next a"
  by (auto simp: end_job_def run_then_def return_early_def split: prod.splits flow.splits)

lemma calm_no_next:
  assumes "calm i m" "\<And>e a. fst (m e) \<noteq> Next a"
  shows "phase_ok base i P m Q"
  unfolding phase_ok_def
proof (intro allI impI)
  fix e f e' assume s: "stands base i P e" and m: "m e = (f, e')"
  have "stands base i (\<lambda>w. True) e" using s by (rule stands_weaken) simp
  with calm_ok [OF assms(1), of "\<lambda>w. True" base] m
  have "case f of Next a \<Rightarrow> stands base i (\<lambda>w. True) e' | _ \<Rightarrow> stands base i (\<lambda>w. True) e'"
    unfolding phase_ok_def lasting_def by blast
  with assms(2) [of e] m show "case f of Next a \<Rightarrow> stands base i (Q a) e' | _ \<Rightarrow> stands base i (\<lambda>w. True) e'"
    by (cases f) auto
qed

lemma end_ok: "phase_ok base i P (fail_job x reason c ev) Q" "phase_ok base i P (lose_job x reason c) Q"
    "phase_ok base i P (complete_job x c ev) Q"
  by (intro calm_no_next calm_ends; simp add: fail_job_def lose_job_def complete_job_def end_never_next)+

lemma phase_ok_if:
  "(b \<Longrightarrow> phase_ok base i P m Q) \<Longrightarrow> (\<not> b \<Longrightarrow> phase_ok base i P m' Q) \<Longrightarrow>
   phase_ok base i P (if b then m else m') Q"
  by simp

lemma phase_ok_weaken:
  assumes "phase_ok base i P m Q" "\<And>w. P' w \<Longrightarrow> P w" "\<And>a w. Q a w \<Longrightarrow> Q' a w"
  shows "phase_ok base i P' m Q'"
  unfolding phase_ok_def
proof (intro allI impI)
  fix e f e' assume "stands base i P' e" and m: "m e = (f, e')"
  from this(1) have "stands base i P e" by (rule stands_weaken) (rule assms(2))
  with assms(1) m have "case f of Next a \<Rightarrow> stands base i (Q a) e' | _ \<Rightarrow> stands base i (\<lambda>w. True) e'"
    unfolding phase_ok_def by blast
  then show "case f of Next a \<Rightarrow> stands base i (Q' a) e' | _ \<Rightarrow> stands base i (\<lambda>w. True) e'"
    by (cases f) (auto intro: stands_weaken assms(3))
qed

text \<open>A calm step in front.\<close>

lemma calm_first:
  "calm i m \<Longrightarrow> lasting P \<Longrightarrow> (\<And>a. phase_ok base i P (k a) R) \<Longrightarrow> phase_ok base i P (run_then m k) R"
  by (rule phase_ok_then [OF calm_ok])

section \<open>The paragraphs of the job\<close>

lemma calm_preflight: "calm i (preflight x c)"
proof -
  have "calm i (judge_preflight x answers c)" for answers
    unfolding judge_preflight_def
    by (auto intro!: calm_ends calm_if calm_value calm_then calm_pass simp: Let_def split: option.split)
  then show ?thesis
    unfolding preflight_def
    by (intro calm_if calm_value calm_then calm_link keeps_heard_expect keeps_heard_clear calm_send
        calm_wait keeps_heard_await calm_ends)
qed

lemma calm_send_payload: "calm i (send_payload x wire c)"
  unfolding send_payload_def by (intro calm_then calm_pass calm_send calm_if calm_skip calm_ends) simp_all

lemma calm_print_fence: "calm i (print_fence x token)"
  unfolding print_fence_def Let_def
  by (cases "jx_custom x"; cases "cp_completion (jx_profile x)")
    (auto intro!: calm_then calm_link keeps_heard_expect keeps_heard_clear calm_value calm_encoded)

lemma calm_send_fence: "calm i (send_fence x fence c)"
  unfolding send_fence_def by (intro calm_if calm_skip calm_then calm_send calm_ends)

lemma calm_cut_wire: "calm i (cut_wire x variant token)"
  unfolding cut_wire_def
  by (cases "jx_custom x") (auto intro!: calm_then calm_encoded calm_link keeps_heard_expect keeps_heard_clear calm_value)

lemma calm_cutter_status: "calm i (cutter_status x c)"
  unfolding cutter_status_def
  by (intro calm_then calm_link keeps_heard_clear keeps_heard_expect calm_send calm_if calm_wait
      keeps_heard_await calm_value calm_ends)

text \<open>What the wait for a token of a \<^verbatim>\<open>GS ( H\<close> job establishes.\<close>

lemma await_token_ok:
  assumes "jx_custom x = None" "cp_completion (jx_profile x) = CM_GsParenH" "lasting P"
  shows "phase_ok base i P (await_ack x token)
    (\<lambda>o' w. P w \<and> (if o' = Signalled then sublist (ack_frame token) (received w) else True))"
  unfolding phase_ok_def
proof (intro allI impI)
  fix e f e' assume s: "stands base i P e" and a: "await_ack x token e = (f, e')"
  from assms(1,2) a obtain o' where o: "waiting (awaitToken token) e = (o', e')" "f = Next o'"
    by (auto simp: await_ack_def perform_def split: prod.splits)
  have "phase_ok base i P (perform (waiting (awaitToken token))) (\<lambda>_. P)"
    by (intro calm_ok calm_wait keeps_heard_await assms(3))
  with s o have st: "stands base i P e'" unfolding phase_ok_def by (auto simp: perform_def)
  then obtain w where w: "en_log e' = base @ w" "heard (received w) (en_link e')" "honest i w" "P w"
    by (auto simp: stands_def)
  have "sublist (ack_frame token) (received w)" if "o' = Signalled"
  proof -
    from o(1) that have "token \<in> set (lk_gsh_tokens (en_link e'))"
      by (auto simp: waiting_def Let_def awaitToken_def conclude_signalled split: prod.splits)
    with w(2) show ?thesis by (auto simp: heard_def list_all_iff)
  qed
  with w o(2) show "case f of Next a \<Rightarrow> stands base i (\<lambda>w. P w \<and>
      (if a = Signalled then sublist (ack_frame token) (received w) else True)) e'
    | _ \<Rightarrow> stands base i (\<lambda>w. True) e'"
    by (auto intro!: standsI [of _ _ w])
qed

lemma unanswered_ok:
  assumes "lasting P"
  shows "phase_ok base i (\<lambda>w. P w \<and> (if o' = Signalled then X w else True)) (unanswered x o' c) (\<lambda>_ w. P w \<and> X w)"
proof (cases "o' = Signalled")
  case True
  have "phase_ok base i (\<lambda>w. P w \<and> X w) skip (\<lambda>_ w. P w \<and> X w)"
    by (auto simp: phase_ok_def skip_def)
  with True show ?thesis by (simp add: unanswered_def)
qed (simp add: unanswered_def end_ok)

lemma lasting_simps: "lasting (\<lambda>w. ef \<in> set w)" "lasting (\<lambda>w. sublist f (received w))"
    "lasting P \<Longrightarrow> lasting Q \<Longrightarrow> lasting (\<lambda>w. P w \<and> Q w)"
  by (auto simp: lasting_def intro: sublist_grow)

lemma acknowledged_ok:
  assumes "jx_custom x = None" "cp_completion (jx_profile x) = CM_GsParenH" "lasting P"
    and "phase_ok base i (\<lambda>w. P w \<and> sublist (ack_frame token) (received w)) rest Q"
  shows "phase_ok base i P (run_then (await_ack x token) (\<lambda>o'. run_then (unanswered x o' c) (\<lambda>_. rest))) Q"
  by (rule phase_ok_then [OF await_token_ok [OF assms(1-3)]],
      rule phase_ok_then [OF unanswered_ok [OF assms(3)]], rule assms(4))

lemma then_never_next:
  "(\<And>a e. fst (k a e) \<noteq> Next b) \<Longrightarrow> fst (run_then m k e) \<noteq> Next b"
  by (auto simp: run_then_def split: prod.split flow.split)

lemma cutter_never_next: "fst (cutter_status x c e) \<noteq> Next a"
  unfolding cutter_status_def
  by (intro then_never_next) (auto simp: fail_job_def complete_job_def end_never_next)

lemma cut_done_ok:
  assumes "jx_id x = i" "cp_completion (jx_profile x) = CM_GsParenH"
  shows "phase_ok base i (\<lambda>w. JournaledTokens i p q \<in> set w \<and> sublist (ack_frame q) (received w))
    (run_then (pass_state x JS_CutCommandProcessed c)
      (\<lambda>_. if cp_completion (jx_profile x) \<noteq> CM_GsParenH then complete_job x c (success_evidence x)
           else cutter_status x c)) Q"
proof (rule phase_ok_then)
  let ?P = "\<lambda>w. JournaledTokens i p q \<in> set w \<and> sublist (ack_frame q) (received w)"
  show "phase_ok base i ?P (pass_state x JS_CutCommandProcessed c) (\<lambda>_. ?P)"
    unfolding pass_state_def assms(1)
    by (rule advance_confirmed) (auto intro!: lasting_simps simp: cut_acked_def)
  have "phase_ok base i ?P (cutter_status x c) Q"
    by (intro calm_no_next calm_cutter_status cutter_never_next)
  with assms(2) show "phase_ok base i ?P (if cp_completion (jx_profile x) \<noteq> CM_GsParenH
      then complete_job x c (success_evidence x) else cutter_status x c) Q" by simp
qed

lemma cut_phase_ok:
  assumes "jx_id x = i" "jx_custom x = None" "cp_completion (jx_profile x) = CM_GsParenH"
  shows "phase_ok base i (\<lambda>w. JournaledTokens i p q \<in> set w) (cut_phase x variant q c) Q"
  unfolding cut_phase_def Let_def
  by (rule calm_first [OF calm_cut_wire lasting_simps(1)], rule calm_first [OF calm_send lasting_simps(1)],
      intro phase_ok_if end_ok, rule acknowledged_ok [OF assms(2,3) lasting_simps(1)], rule cut_done_ok [OF assms(1,3)])

lemma print_confirmed_ok:
  assumes "jx_id x = i" "jx_custom x = None" "cp_completion (jx_profile x) = CM_GsParenH"
  shows "phase_ok base i (\<lambda>w. JournaledTokens i p q \<in> set w \<and> sublist (ack_frame p) (received w))
    (run_then (pass_state x JS_PrintConfirmed c)
      (\<lambda>_. if variant = CV_None then complete_job x c (success_evidence x) else cut_phase x variant q c)) Q"
proof (rule phase_ok_then)
  let ?P = "\<lambda>w. JournaledTokens i p q \<in> set w \<and> sublist (ack_frame p) (received w)"
  show "phase_ok base i ?P (pass_state x JS_PrintConfirmed c) (\<lambda>_. ?P)"
    unfolding pass_state_def assms(1)
    by (rule advance_confirmed) (auto intro!: lasting_simps simp: print_acked_def)
  show "phase_ok base i ?P (if variant = CV_None then complete_job x c (success_evidence x)
      else cut_phase x variant q c) Q"
    by (intro phase_ok_if end_ok phase_ok_weaken [OF cut_phase_ok [OF assms]]) auto
qed

lemma print_phase_ok:
  assumes "jx_id x = i" "jx_custom x = None" "cp_completion (jx_profile x) = CM_GsParenH"
  shows "phase_ok base i (\<lambda>w. JournaledTokens i (mp_print l) (mp_cut l) \<in> set w)
    (print_phase x width_dots payload attempt banner c (Some l)) Q"
  unfolding print_phase_def Let_def option.case
  by (rule calm_first [OF calm_encoded lasting_simps(1)], rule calm_first [OF calm_send_payload lasting_simps(1)],
      rule calm_first [OF calm_print_fence lasting_simps(1)], rule calm_first [OF calm_send_fence lasting_simps(1)],
      rule calm_first [OF calm_pass lasting_simps(1)], simp, simp,
      intro phase_ok_if end_ok, rule acknowledged_ok [OF assms(2,3) lasting_simps(1)],
      rule print_confirmed_ok [OF assms])

section \<open>The job\<close>

lemma lease_ok:
  assumes "cp_completion profile = CM_GsParenH"
  shows "phase_ok base i (\<lambda>w. True) (leaseTokens i profile b)
    (\<lambda>lease w. \<exists>l. lease = Some l \<and> JournaledTokens i (mp_print l) (mp_cut l) \<in> set w)"
  unfolding phase_ok_def
proof (intro allI impI)
  fix e f e' assume s: "stands base i (\<lambda>w. True) e" and l: "leaseTokens i profile b e = (f, e')"
  from s obtain w where w: "en_log e = base @ w" "heard (received w) (en_link e)" "honest i w"
    by (auto simp: stands_def)
  obtain q mk where acq: "acquire (en_markers e) = (q, mk)" by fastforce
  show "case f of Next a \<Rightarrow> stands base i (\<lambda>w. \<exists>l. a = Some l \<and> JournaledTokens i (mp_print l) (mp_cut l) \<in> set w) e'
    | _ \<Rightarrow> stands base i (\<lambda>w. True) e'"
  proof (cases q)
    case None
    with l acq assms w show ?thesis by (auto simp: leaseTokens_def intro!: standsI [of _ _ w])
  next
    case (Some mp)
    let ?e0 = "on_job i (setTokens (mp_print mp) (mp_cut mp)) (e\<lparr>en_markers := mk\<rparr>)"
    obtain io now e1 where d: "take_disk ?e0 = ((io, now), e1)" by (metis prod.collapse)
    then have log: "en_log e1 = en_log e" "en_link e1 = en_link e"
      by (auto simp: take_disk_def on_job_def split: list.splits)
    obtain st err where st: "recordTokens io i (mp_print mp) (mp_cut mp) (en_store e1) = (st, err)"
      by fastforce
    have "honest i (w @ [JournaledTokens i (mp_print mp) (mp_cut mp)])"
      using w(3) by (rule honest_grow) (simp_all add: records_def)
    note facts = l acq assms Some d st log w this
    show ?thesis
    proof (cases err)
      case None
      with facts show ?thesis
        by (auto simp: leaseTokens_def log_effect_def
            intro!: standsI [of _ _ "w @ [JournaledTokens i (mp_print mp) (mp_cut mp)]"])
    next
      case (Some er)
      with facts show ?thesis
        by (auto simp: leaseTokens_def split: store_error.splits intro!: standsI [of _ _ w])
    qed
  qed
qed

lemma under_lease_ok:
  assumes "phase_ok base i P m (\<lambda>_ w. True)"
  shows "phase_ok base i P (under_lease lease m) (\<lambda>_ w. True)"
  unfolding phase_ok_def
proof (intro allI impI)
  fix e f e' assume s: "stands base i P e" and u: "under_lease lease m e = (f, e')"
  then obtain e1 where m: "m e = (f, e1)" and e': "e' = release_lease lease e1"
    by (auto simp: under_lease_def split: prod.splits)
  from assms s m have "stands base i (\<lambda>w. True) e1"
    unfolding phase_ok_def by (cases f) fastforce+
  then have "stands base i (\<lambda>w. True) e'"
    unfolding e' by (auto simp: stands_def release_lease_def split: option.split)
  then show "case f of Next a \<Rightarrow> stands base i (\<lambda>w. True) e' | _ \<Rightarrow> stands base i (\<lambda>w. True) e'"
    by (cases f) simp_all
qed


text \<open>From the reset of the link on, with the log as it was when the job began.\<close>

lemma after_connect_ok:
  assumes "jx_id x = i" "jx_custom x = None" "cp_completion (jx_profile x) = CM_GsParenH" "profile = jx_profile x"
  shows "phase_ok base i (\<lambda>w. True) (run_then (preflight x CL_TransportAccepted) (\<lambda>c.
      run_then (leaseTokens i profile b) (\<lambda>lease.
        under_lease lease (print_phase x width_dots payload attempt banner c lease)))) (\<lambda>_ w. True)"
proof (rule calm_first [OF calm_preflight])
  fix c
  show "phase_ok base i (\<lambda>w. True) (run_then (leaseTokens i profile b) (\<lambda>lease.
      under_lease lease (print_phase x width_dots payload attempt banner c lease))) (\<lambda>_ w. True)"
  proof (rule phase_ok_then)
    show "phase_ok base i (\<lambda>w. True) (leaseTokens i profile b)
        (\<lambda>lease w. \<exists>l. lease = Some l \<and> JournaledTokens i (mp_print l) (mp_cut l) \<in> set w)"
      using assms by (intro lease_ok) simp
    fix lease :: "marker_pair option"
    show "phase_ok base i (\<lambda>w. \<exists>l. lease = Some l \<and> JournaledTokens i (mp_print l) (mp_cut l) \<in> set w)
        (under_lease lease (print_phase x width_dots payload attempt banner c lease)) (\<lambda>_ w. True)"
    proof (cases lease)
      case None
      then show ?thesis by (simp add: phase_ok_def stands_def)
    next
      case (Some l)
      have "phase_ok base i (\<lambda>w. \<exists>l. lease = Some l \<and> JournaledTokens i (mp_print l) (mp_cut l) \<in> set w)
          (print_phase x width_dots payload attempt banner c lease) (\<lambda>_ w. True)"
        using print_phase_ok [OF assms(1-3), of base l width_dots payload attempt banner c "\<lambda>_ w. True"] Some
        by (simp add: phase_ok_def stands_def)
      then show ?thesis by (rule under_lease_ok)
    qed
  qed
qed (simp add: lasting_def)

lemma honest_io: "list_all is_io v \<Longrightarrow> honest i v"
  by (simp add: honest_def io_unrecorded)

text \<open>A refusal before anything was said to the printer.\<close>

lemma refused_honest:
  assumes "fail_job x reason c ev e = (f, e')" "en_log e = base @ v" "list_all is_io v"
  shows "\<exists>w. en_log e' = base @ w \<and> honest (jx_id x) w"
proof -
  let ?r = "result_with ev (result_failed reason (reached x c))"
  obtain g e1 where a: "advance (jx_id x) JS_FailedKnown (jr_confidence ?r) (jr_reason ?r) (result_evidence ?r) e = (g, e1)"
    by fastforce
  have h: "honest (jx_id x) (v @ u)"
    if "\<not> records (jx_id x) JS_PrintConfirmed u" "\<not> records (jx_id x) JS_CutCommandProcessed u" for u
    using honest_io [OF assms(3)] that by (rule honest_grow)
  from a show ?thesis
  proof (cases rule: advance_log)
    case 1
    let ?u = "[Journaled (jx_id x) JS_FailedKnown (jr_confidence ?r) (jr_reason ?r),
      Published (jx_id x) (make_event JS_FailedKnown (jr_confidence ?r)
        (if jr_reason ?r = FR_None then None else Some (jr_reason ?r))), Finished (jx_id x) ?r]"
    from assms(1,2) a 1 have "en_log e' = base @ (v @ ?u)"
      by (auto simp: fail_job_def end_job_def terminate_job_def run_then_def return_early_def change_def
          log_effect_def on_job_def)
    moreover have "honest (jx_id x) (v @ ?u)" by (rule h) (simp_all add: records_def)
    ultimately show ?thesis by blast
  next
    case (2 msg)
    with assms(1,2) a have "en_log e' = base @ v"
      by (auto simp: fail_job_def end_job_def terminate_job_def run_then_def)
    with honest_io [OF assms(3)] show ?thesis by blast
  qed
qed

lemma gsh_job_honest:
  assumes "cp_completion (en_profile e) = CM_GsParenH"
  shows "honest i (effects_of i key payload options attempt banner e)"
proof -
  let ?x = "run_of i key options e"
  have x: "jx_id ?x = i" "jx_custom ?x = None" "cp_completion (jx_profile ?x) = CM_GsParenH" "en_profile e = jx_profile ?x"
    using assms by (simp_all add: run_of_def custom_method_for_def)
  obtain f e' where run: "runJob i key payload options attempt banner e = (f, e')" by fastforce
  have goal: ?thesis if "\<exists>w. en_log e' = en_log e @ w \<and> honest i w"
    using that run by (auto simp: effects_of_def)
  have c: "custom_method_for (en_profile e) (en_registrations e) = None"
    using assms by (simp add: custom_method_for_def)
  show ?thesis
  proof (cases "drivableByEscposEngine (en_profile e)")
    case False
    then have "\<not> drivableByStarEngine (en_profile e)" using assms by (simp add: drivableByStarEngine_def)
    with False run c have "fail_job ?x FR_Unsupported CL_TransportAccepted no_evidence e = (f, e')"
      by (simp add: runJob_def Let_def run_of_def)
    from refused_honest [OF this, of "en_log e" "[]"] x(1) show ?thesis by (intro goal) simp
  next
    case True
    obtain ok e1 where con: "ensureConnected e = (ok, e1)" by fastforce
    from io_log_connect [OF con] obtain v where v: "en_log e1 = en_log e @ v" "list_all is_io v"
      by (auto simp: io_log_def)
    show ?thesis
    proof (cases ok)
      case False
      with True run c con have "fail_job ?x FR_TransportUnreachable CL_TransportAccepted no_evidence e1 = (f, e')"
        by (simp add: runJob_def Let_def run_of_def run_then_def perform_def)
      from refused_honest [OF this v] x(1) show ?thesis by (intro goal) simp
    next
      case ok: True
      let ?e2 = "on_link (\<lambda>lk. setCustomMethod None (beginJobIo lk)) e1"
      from True ok run c con have body: "run_then (preflight ?x CL_TransportAccepted) (\<lambda>c.
          run_then (leaseTokens i (en_profile e) False) (\<lambda>lease.
            under_lease lease (print_phase ?x (en_width_dots e) payload attempt banner c lease))) ?e2 = (f, e')"
        by (simp add: runJob_def Let_def run_of_def run_then_def perform_def change_def)
      have "heard (received v) (en_link ?e2)"
        by (simp add: heard_def on_link_def setCustomMethod_def beginJobIo_def rp_reset_def)
      then have "stands (en_log e) i (\<lambda>w. True) ?e2"
        using v honest_io by (intro standsI [of _ _ v]) (simp_all add: on_link_def)
      with after_connect_ok [OF x(1-4), where base = "en_log e" and b = False and
          width_dots = "en_width_dots e" and payload = payload and attempt = attempt and banner = banner] body
      have "stands (en_log e) i (\<lambda>w. True) e'"
        unfolding phase_ok_def by (cases f) fastforce+
      then show ?thesis by (intro goal) (auto simp: stands_def)
    qed
  qed
qed

text \<open>
  C1: no confirmation without the printer's own word. When the journal records a confirmed
  print, or a processed cut, for a job on a \<^verbatim>\<open>GS ( H\<close> printer, the complete echo of the print
  token, or of the cut token, that the same run journaled occurs in the bytes received during
  that run.
\<close>

theorem confirmation_needs_echo:
  assumes "cp_completion (en_profile e) = CM_GsParenH"
    and "Journaled i s c r \<in> set (effects_of i key payload options attempt banner e)"
    and "s \<in> {JS_PrintConfirmed, JS_CutCommandProcessed}"
  shows "\<exists>p q. JournaledTokens i p q \<in> set (effects_of i key payload options attempt banner e) \<and>
    sublist (ack_frame (if s = JS_PrintConfirmed then p else q))
      (received (effects_of i key payload options attempt banner e))"
proof -
  have "records i s (effects_of i key payload options attempt banner e)"
    using assms(2) by (auto simp: records_def)
  with gsh_job_honest [OF assms(1), of i key payload options attempt banner] assms(3)
  show ?thesis by (auto simp: honest_def print_acked_def cut_acked_def)
qed

theorem confirmation_needs_echo_witness:
  "\<exists>p q. JournaledTokens ''j'' p q \<in>
      set (effects_of ''j'' ''k'' (RawPayload [0x41]) demo_options 1 False demo_engine) \<and>
    sublist (ack_frame q) (received (effects_of ''j'' ''k'' (RawPayload [0x41]) demo_options 1 False demo_engine))"
proof -
  have c: "cp_completion (en_profile demo_engine) = CM_GsParenH" by (simp add: demo_engine_def)
  have "Journaled ''j'' JS_CutCommandProcessed CL_CutProcessed FR_None \<in>
      set (effects_of ''j'' ''k'' (RawPayload [0x41]) demo_options 1 False demo_engine)"
    unfolding demo_word by simp
  from confirmation_needs_echo [OF c this] show ?thesis by simp
qed

end
