(* ===== verification/Submission.thy ===== *)
theory Submission imports
  Job_Engine
begin

text \<open>
  The driver around its printers' workers (\<^verbatim>\<open>PrinterDriver\<close>, \<^verbatim>\<open>Printer\<close>, \<^verbatim>\<open>JobIndex\<close> and the
  queueing half of \<^verbatim>\<open>PrinterRuntime\<close> in \<^verbatim>\<open>core/src/driver.cpp\<close>): the index of jobs by key
  and by token, submission and its idempotency rule, reservations, reprints, the worker's
  loop, stopping, and the index rebuilt from the journal at a start. The state all printers
  share is in the driver; a worker carries what is its own, as an engine whose shared fields
  are taken from the driver while one of its functions runs. The two identifiers that
  \<^verbatim>\<open>newJobId\<close> draws at random are arguments.
\<close>

section \<open>State\<close>

record job_entry =
  ent_job :: string
  ent_printer_id :: string
  ent_payload :: "payload option"
  ent_options :: job_options
  ent_attempt :: u32

text \<open>The closures a worker is given.\<close>

datatype task =
    JobTask string payload job_options u32 bool
  | StatusTask
  | PulseTask

record worker =
  wk_engine :: engine
  wk_tasks :: "task list"
  wk_stopped :: bool

record driver =
  dr_store :: job_store
  dr_markers :: marker_allocator
  dr_registrations :: registrations
  dr_jobs :: "string \<rightharpoonup> print_job"
  dr_by_key :: "string \<rightharpoonup> job_entry"
  dr_by_token :: "string \<Rightarrow> string list"
  dr_printers :: "(string \<times> worker) list"
  dr_disk :: "(append_io \<times> u64) list"
  dr_log :: "effect list"

text \<open>A worker's engine on the shared state, and the shared state it leaves.\<close>

definition enter :: "driver \<Rightarrow> worker \<Rightarrow> engine" where
  "enter d w =
     (wk_engine w)\<lparr>en_store := dr_store d, en_markers := dr_markers d,
        en_registrations := dr_registrations d, en_jobs := dr_jobs d, en_by_token := dr_by_token d,
        en_disk := dr_disk d, en_log := dr_log d\<rparr>"

definition leave :: "engine \<Rightarrow> driver \<Rightarrow> driver" where
  "leave e d =
     d\<lparr>dr_store := en_store e, dr_markers := en_markers e, dr_registrations := en_registrations e,
       dr_jobs := en_jobs e, dr_by_token := en_by_token e, dr_disk := en_disk e, dr_log := en_log e\<rparr>"

definition find_printer :: "string \<Rightarrow> driver \<Rightarrow> worker option" where
  "find_printer pid d = map_of (dr_printers d) pid"

text \<open>\<^verbatim>\<open>PrinterDriver::printer\<close> takes the first printer of the id.\<close>

fun set_first :: "string \<Rightarrow> worker \<Rightarrow> (string \<times> worker) list \<Rightarrow> (string \<times> worker) list" where
  "set_first pid w [] = []"
| "set_first pid w (p # ps) = (if fst p = pid then (pid, w) # ps else p # set_first pid w ps)"

definition put_worker :: "string \<Rightarrow> worker \<Rightarrow> driver \<Rightarrow> driver" where
  "put_worker pid w d = d\<lparr>dr_printers := set_first pid w (dr_printers d)\<rparr>"

text \<open>One function of the printer's runtime; a handle always names a printer of the driver.\<close>

definition on_worker :: "string \<Rightarrow> 'a phase \<Rightarrow> driver \<Rightarrow> 'a flow \<times> driver" where
  "on_worker pid m d =
     (case find_printer pid d of
        None \<Rightarrow> (Raised ''no such printer'', d)
      | Some w \<Rightarrow>
          (case m (enter d w) of (f, e) \<Rightarrow> (f, put_worker pid (w\<lparr>wk_engine := e\<rparr>) (leave e d))))"

definition stopping :: "string \<Rightarrow> driver \<Rightarrow> bool" where
  "stopping pid d = (case find_printer pid d of None \<Rightarrow> True | Some w \<Rightarrow> lk_stopping (en_link (wk_engine w)))"

definition push :: "string \<Rightarrow> task \<Rightarrow> driver \<Rightarrow> driver" where
  "push pid t d =
     (case find_printer pid d of
        None \<Rightarrow> d
      | Some w \<Rightarrow> put_worker pid (w\<lparr>wk_tasks := wk_tasks w @ [t]\<rparr>) d)"

definition pushPeripheral :: "string \<Rightarrow> task \<Rightarrow> bool \<Rightarrow> driver \<Rightarrow> driver" where
  "pushPeripheral pid t ahead d =
     (case find_printer pid d of
        None \<Rightarrow> d
      | Some w \<Rightarrow>
          put_worker pid (w\<lparr>wk_tasks := (if ahead then t # wk_tasks w else wk_tasks w @ [t])\<rparr>) d)"

section \<open>Submission\<close>

definition take_driver_disk :: "driver \<Rightarrow> (append_io \<times> u64) \<times> driver" where
  "take_driver_disk d =
     (case dr_disk d of [] \<Rightarrow> ((AppendOk, 0), d) | x # xs \<Rightarrow> (x, d\<lparr>dr_disk := xs\<rparr>))"

text \<open>
  The part \<^verbatim>\<open>submit\<close> and \<^verbatim>\<open>reserve\<close> share: the journal has the job before its handle is
  published and the index points to it.
\<close>

definition new_record :: "string \<Rightarrow> string \<Rightarrow> string \<Rightarrow> u32 \<Rightarrow> payload_kind \<Rightarrow> nat \<Rightarrow> job_record" where
  "new_record i key pid attempt kind nbytes =
     default_record\<lparr>rec_id := i, rec_key := key, rec_printer_id := pid, rec_attempt := attempt,
       rec_kind := kind, rec_payload_bytes := of_nat nbytes\<rparr>"

definition mint ::
    "string \<Rightarrow> string \<Rightarrow> string \<Rightarrow> payload_kind \<Rightarrow> nat \<Rightarrow> job_entry \<Rightarrow> driver \<Rightarrow> unit flow \<times> driver" where
  "mint i key pid kind nbytes entry d =
     (case take_driver_disk d of
        ((io, now), d1) \<Rightarrow>
          (case createJob io now (new_record i key pid (ent_attempt entry) kind nbytes) (dr_store d1) of
             (s, Some (StoreError msg)) \<Rightarrow> (Raised msg, d1\<lparr>dr_store := s\<rparr>)
           | (s, None) \<Rightarrow>
               let ev = make_event JS_Queued CL_TransportAccepted None
               in (Next (),
                   d1\<lparr>dr_store := s,
                      dr_jobs := (dr_jobs d1)(i \<mapsto> job_emit ev (new_job i key pid (ent_attempt entry))),
                      dr_log := dr_log d1 @ [Published i ev],
                      dr_by_key := (dr_by_key d1)(key \<mapsto> entry)\<rparr>)))"

definition refuse_stopped :: "string \<Rightarrow> unit phase" where
  "refuse_stopped i =
     terminate_job i JS_FailedKnown (result_failed FR_TransportUnreachable CL_TransportAccepted)"

definition submit_new ::
    "string \<Rightarrow> string \<Rightarrow> string \<Rightarrow> payload \<Rightarrow> job_options \<Rightarrow> bool \<Rightarrow> u32 \<Rightarrow> driver \<Rightarrow>
     string option flow \<times> driver" where
  "submit_new auto_id i pid payload options banner attempt d =
     (let key = (if op_key options = [] then ''auto-'' @ auto_id else op_key options);
          entry = \<lparr>ent_job = i, ent_printer_id = pid, ent_payload = Some payload, ent_options = options,
                   ent_attempt = attempt\<rparr>
      in case mint i key pid (payload_kind_of payload) (payloadInputBytes payload) entry d of
           (Next u, d1) \<Rightarrow>
             if stopping pid d1 then
               (case on_worker pid (refuse_stopped i) d1 of
                  (Raised msg, d2) \<Rightarrow> (Raised msg, d2)
                | (f, d2) \<Rightarrow> (Next (Some i), d2))
             else (Next (Some i), push pid (JobTask i payload options attempt banner) d1)
         | (Returned, d1) \<Rightarrow> (Returned, d1)
         | (Raised msg, d1) \<Rightarrow> (Raised msg, d1))"

text \<open>A job that is finished and known to have failed.\<close>

definition failed_and_finished :: "string \<Rightarrow> driver \<Rightarrow> bool" where
  "failed_and_finished i d \<longleftrightarrow>
     (case dr_jobs d i of None \<Rightarrow> False | Some j \<Rightarrow> pj_terminal j \<and> pj_state j = JS_FailedKnown)"

definition submit ::
    "string \<Rightarrow> string \<Rightarrow> string \<Rightarrow> payload option \<Rightarrow> job_options \<Rightarrow> bool \<Rightarrow> bool \<Rightarrow> driver \<Rightarrow>
     string option flow \<times> driver" where
  "submit auto_id i pid payload options reprint banner d =
     (case (if op_key options = [] then None else dr_by_key d (op_key options)) of
        Some en \<Rightarrow>
          if \<not> reprint \<and> \<not> failed_and_finished (ent_job en) d then (Next (Some (ent_job en)), d)
          else (case (if payload = None then ent_payload en else payload) of
                  None \<Rightarrow> (Next None, d)
                | Some p \<Rightarrow> submit_new auto_id i pid p options banner (ent_attempt en + 1) d)
      | None \<Rightarrow>
          (case payload of
             None \<Rightarrow> (Next None, d)
           | Some p \<Rightarrow> submit_new auto_id i pid p options banner 1 d))"

text \<open>\<^verbatim>\<open>Printer::print\<close> and the two \<^verbatim>\<open>forceReprint\<close> of a printer.\<close>

definition print :: "string \<Rightarrow> string \<Rightarrow> string \<Rightarrow> payload \<Rightarrow> job_options \<Rightarrow> driver \<Rightarrow> string option flow \<times> driver" where
  "print auto_id i pid payload options = submit auto_id i pid (Some payload) options False False"

definition printer_reprint ::
    "string \<Rightarrow> string \<Rightarrow> string \<Rightarrow> string \<Rightarrow> payload option \<Rightarrow> job_options \<Rightarrow> bool \<Rightarrow> driver \<Rightarrow>
     string option flow \<times> driver" where
  "printer_reprint auto_id i pid key payload options banner =
     submit auto_id i pid payload (options\<lparr>op_key := key\<rparr>) True banner"

section \<open>Reservations\<close>

definition reserve ::
    "string \<Rightarrow> string \<Rightarrow> string \<Rightarrow> string \<Rightarrow> payload_kind \<Rightarrow> nat \<Rightarrow> driver \<Rightarrow> (string \<times> bool) flow \<times> driver" where
  "reserve auto_id i pid key kind nbytes d =
     (case (if key = [] then None else dr_by_key d key) of
        Some en \<Rightarrow> (Next (ent_job en, False), d)
      | None \<Rightarrow>
          let effective_key = (if key = [] then ''auto-'' @ auto_id else key);
              entry = \<lparr>ent_job = i, ent_printer_id = pid, ent_payload = None,
                       ent_options = default_options, ent_attempt = 1\<rparr>
          in case mint i effective_key pid kind nbytes entry d of
               (Next u, d1) \<Rightarrow> (Next (i, True), d1)
             | (Returned, d1) \<Rightarrow> (Returned, d1)
             | (Raised msg, d1) \<Rightarrow> (Raised msg, d1))"

definition submitReserved ::
    "string \<Rightarrow> string \<Rightarrow> payload \<Rightarrow> job_options \<Rightarrow> driver \<Rightarrow> unit flow \<times> driver" where
  "submitReserved pid i payload options d =
     (case dr_jobs d i of
        None \<Rightarrow> (Next (), d)
      | Some j \<Rightarrow>
          if pj_terminal j then (Next (), d)
          else let d1 = (case dr_by_key d (pj_key j) of
                           None \<Rightarrow> d
                         | Some en \<Rightarrow> d\<lparr>dr_by_key := (dr_by_key d)(pj_key j \<mapsto>
                                         en\<lparr>ent_payload := Some payload, ent_options := options\<rparr>)\<rparr>)
               in if stopping pid d1 then
                    (case on_worker pid (refuse_stopped i) d1 of
                       (Raised msg, d2) \<Rightarrow> (Raised msg, d2)
                     | (f, d2) \<Rightarrow> (Next (), d2))
                  else (Next (), push pid (JobTask i payload options 1 False) d1))"

section \<open>The worker\<close>

definition kick_pulse :: bytes where
  "kick_pulse = (case kickCashDrawer 0 25 25 new_encoder of Inl err \<Rightarrow> [] | Inr en \<Rightarrow> enc_buffer en)"

text \<open>The task of \<^verbatim>\<open>PrinterRuntime::openCashDrawer\<close>.\<close>

definition openCashDrawer :: "unit phase" where
  "openCashDrawer =
     run_then (perform ensureConnected) (\<lambda>ok.
       if \<not> ok then skip
       else (\<lambda>e. run_then (perform (sendPaced (en_profile e) kick_pulse)) (\<lambda>sent. skip) e))"

text \<open>The task of \<^verbatim>\<open>PrinterRuntime::refreshStatus\<close>.\<close>

definition refreshStatus :: "unit phase" where
  "refreshStatus =
     run_then (perform ensureConnected) (\<lambda>ok.
       if \<not> ok then skip
       else run_then (change (on_link (\<lambda>lk. expect_preflight (lk\<lparr>lk_realtime_answers := []\<rparr>)))) (\<lambda>u e.
              run_then (perform (sendPaced (en_profile e) preflight_bytes)) (\<lambda>sent.
              run_then (if fst sent then run_then (perform (waiting (awaitRealtime 4))) (\<lambda>r. skip) else skip) (\<lambda>u.
                change (on_link clearRealtime))) e))"

definition run_task :: "task \<Rightarrow> unit phase" where
  "run_task t e =
     (case t of
        JobTask i payload options attempt banner \<Rightarrow>
          runJob i (case en_jobs e i of None \<Rightarrow> [] | Some j \<Rightarrow> pj_key j) payload options attempt banner e
      | StatusTask \<Rightarrow> refreshStatus e
      | PulseTask \<Rightarrow> openCashDrawer e)"

text \<open>One turn of \<^verbatim>\<open>workerLoop\<close>; an exception leaves the thread, and the process ends.\<close>

definition worker_turn :: "string \<Rightarrow> driver \<Rightarrow> unit flow \<times> driver" where
  "worker_turn pid d =
     (case find_printer pid d of
        None \<Rightarrow> (Next (), d)
      | Some w \<Rightarrow>
          if stopping pid d then (Next (), d)
          else (case wk_tasks w of
                  [] \<Rightarrow> (Next (), d)
                | t # ts \<Rightarrow>
                    (case on_worker pid (run_task t) (put_worker pid (w\<lparr>wk_tasks := ts\<rparr>) d) of
                       (Raised msg, d') \<Rightarrow> (Raised msg, d')
                     | (f, d') \<Rightarrow> (Next (), d'))))"

definition cancel_task :: "task \<Rightarrow> unit phase" where
  "cancel_task t =
     (case t of
        JobTask i payload options attempt banner \<Rightarrow>
          terminate_job i JS_FailedKnown (result_failed FR_Unknown CL_TransportAccepted)
      | _ \<Rightarrow> skip)"

fun cancel_all :: "task list \<Rightarrow> unit phase" where
  "cancel_all [] = skip"
| "cancel_all (t # ts) = run_then (cancel_task t) (\<lambda>u. cancel_all ts)"

definition closeTransport :: "engine \<Rightarrow> engine" where
  "closeTransport e =
     on_link (\<lambda>lk. lk\<lparr>lk_status := (lk_status lk)\<lparr>ds_connected := False\<rparr>\<rparr>) (e\<lparr>en_transport := False\<rparr>)"

text \<open>\<^verbatim>\<open>PrinterRuntime::stop\<close>: what was never dequeued is cancelled, in order.\<close>

definition stop_printer :: "string \<Rightarrow> driver \<Rightarrow> unit flow \<times> driver" where
  "stop_printer pid d =
     (case find_printer pid d of
        None \<Rightarrow> (Next (), d)
      | Some w \<Rightarrow>
          if wk_stopped w then (Next (), d)
          else let w' = w\<lparr>wk_stopped := True, wk_tasks := [],
                          wk_engine := on_link (\<lambda>lk. lk\<lparr>lk_stopping := True\<rparr>) (wk_engine w)\<rparr>
               in on_worker pid (run_then (cancel_all (wk_tasks w)) (\<lambda>u. change closeTransport))
                    (put_worker pid w' d))"

section \<open>Looking jobs up\<close>

definition findJob :: "string \<Rightarrow> driver \<Rightarrow> string option" where
  "findJob key d = map_option ent_job (dr_by_key d key)"

definition jobByToken :: "string \<Rightarrow> driver \<Rightarrow> string option" where
  "jobByToken token d = (if dr_by_token d token = [] then None else Some (last (dr_by_token d token)))"

text \<open>\<^verbatim>\<open>PrinterDriver::forceReprint\<close>, without and with the caller's payload.\<close>

definition forceReprint ::
    "string \<Rightarrow> string \<Rightarrow> string \<Rightarrow> job_options \<Rightarrow> bool \<Rightarrow> driver \<Rightarrow> string option flow \<times> driver" where
  "forceReprint auto_id i key options banner d =
     (case dr_by_key d key of
        None \<Rightarrow> (Next None, d)
      | Some en \<Rightarrow>
          if find_printer (ent_printer_id en) d = None then (Next None, d)
          else printer_reprint auto_id i (ent_printer_id en) key None options banner d)"

definition forceReprintPayload ::
    "string \<Rightarrow> string \<Rightarrow> string \<Rightarrow> payload \<Rightarrow> job_options \<Rightarrow> bool \<Rightarrow> driver \<Rightarrow> string option flow \<times> driver" where
  "forceReprintPayload auto_id i key payload options banner d =
     (let pid = (case dr_by_key d key of None \<Rightarrow> [] | Some en \<Rightarrow> ent_printer_id en)
      in if pid \<noteq> [] \<and> find_printer pid d \<noteq> None
         then printer_reprint auto_id i pid key (Some payload) options banner d
         else case dr_printers d of
                [] \<Rightarrow> (Next None, d)
              | p # ps \<Rightarrow> printer_reprint auto_id i (fst p) key (Some payload) options banner d)"

section \<open>The start of a driver\<close>

fun outcome_of :: "job_record \<Rightarrow> job_result" where
  "outcome_of r =
     result_with \<lparr>ev_grade = rec_grade r, ev_authority = rec_authority r, ev_method = rec_method r\<rparr>
       (case rec_state r of
          JS_DoneSoftware \<Rightarrow> result_done (rec_confidence r)
        | JS_PhysicallyVerified \<Rightarrow> result_done (rec_confidence r)
        | JS_FailedKnown \<Rightarrow> result_failed (rec_reason r) (rec_confidence r)
        | _ \<Rightarrow> mk_result JO_Unknown (rec_confidence r) (rec_reason r))"

text \<open>The terminal handle of a job of an earlier run.\<close>

definition job_of_record :: "job_record \<Rightarrow> print_job" where
  "job_of_record r =
     job_finish (outcome_of r)
       (job_emit (make_event (rec_state r) (rec_confidence r)
                    (if rec_reason r = FR_None then None else Some (rec_reason r)))
         (setTokens (rec_print_token r) (rec_cut_token r)
           (new_job (rec_id r) (rec_key r) (rec_printer_id r) (rec_attempt r))))"

definition adopt :: "job_record \<Rightarrow> driver \<Rightarrow> driver" where
  "adopt r d =
     d\<lparr>dr_jobs := (dr_jobs d)(rec_id r \<mapsto> job_of_record r),
       dr_by_key := (dr_by_key d)(rec_key r \<mapsto>
          \<lparr>ent_job = rec_id r, ent_printer_id = rec_printer_id r, ent_payload = None,
           ent_options = default_options, ent_attempt = rec_attempt r\<rparr>),
       dr_by_token := registerToken (rec_cut_token r) (rec_id r)
                        (registerToken (rec_print_token r) (rec_id r) (dr_by_token d))\<rparr>"

definition driver_open :: "job_store \<Rightarrow> string \<Rightarrow> driver" where
  "driver_open s nonce =
     foldl (\<lambda>d r. adopt r d)
       \<lparr>dr_store = s, dr_markers = new_allocator nonce, dr_registrations = no_registrations,
        dr_jobs = Map.empty, dr_by_key = Map.empty, dr_by_token = (\<lambda>t. []), dr_printers = [],
        dr_disk = [], dr_log = []\<rparr> (store_all s)"

text \<open>\<^verbatim>\<open>PrinterDriver::addPrinter\<close> of a configured printer that asks for no probe.\<close>

definition addPrinter :: "string \<Rightarrow> engine \<Rightarrow> driver \<Rightarrow> driver" where
  "addPrinter pid e d =
     d\<lparr>dr_printers := dr_printers d @ [(pid, \<lparr>wk_engine = e, wk_tasks = [], wk_stopped = False\<rparr>)]\<rparr>"


text \<open>What the callers of a printer push besides jobs, unless it is stopping.\<close>

definition request :: "string \<Rightarrow> task \<Rightarrow> driver \<Rightarrow> driver" where
  "request pid t d = (if stopping pid d then d else push pid t d)"

end
