(* ===== verification/Job_Frame.thy ===== *)
theory Job_Frame imports
  Job_Engine
begin

text \<open>
  What a worker's function leaves alone. A job touches no handle but its own, keeps every
  job's key and the order of the journal, keeps the handles in step with the journal's
  records, and a journal that replays to its table keeps doing so while no append fails.
  Each paragraph of the engine has the frame, and so has a whole job.
\<close>

section \<open>What a worker's function leaves alone\<close>

text \<open>Every handle has its record, with the handle's key and state.\<close>

definition ledger :: "job_store \<Rightarrow> (string \<rightharpoonup> print_job) \<Rightarrow> bool" where
  "ledger s jobs \<longleftrightarrow>
     table_ok s \<and>
     (\<forall>i j. jobs i = Some j \<longrightarrow>
        (\<exists>r. js_by_id s i = Some r \<and> rec_key r = pj_key j \<and> rec_state r = pj_state j))"

text \<open>The journal replays to the table, and the appends to come succeed.\<close>

definition sound :: "job_store \<Rightarrow> (append_io \<times> u64) list \<Rightarrow> bool" where
  "sound s disk \<longleftrightarrow> journal_ok s \<and> list_all (\<lambda>x. fst x = AppendOk) disk"

text \<open>Whose events the effects publish, and whose result they give.\<close>

definition speaks :: "string set \<Rightarrow> effect list \<Rightarrow> bool" where
  "speaks S es \<longleftrightarrow> (\<forall>j ev. Published j ev \<in> set es \<longrightarrow> j \<in> S)"

definition ends :: "string \<Rightarrow> effect list \<Rightarrow> bool" where
  "ends j es \<longleftrightarrow> (\<exists>r. Finished j r \<in> set es)"

definition spoken :: "string \<Rightarrow> effect list \<Rightarrow> job_state \<Rightarrow> job_state" where
  "spoken j es s =
     foldl (\<lambda>s x. case x of Published k ev \<Rightarrow> if k = j then je_state ev else s | _ \<Rightarrow> s) s es"

fun about_device :: "effect \<Rightarrow> bool" where
  "about_device (Published j ev) = False"
| "about_device (Finished j r) = False"
| "about_device x = True"

text \<open>
  The phase changes no handle but those of \<^theory_text>\<open>S\<close> and adds no job; it publishes for \<^theory_text>\<open>S\<close> only,
  finishes the jobs whose results it gives, and leaves each in the state it published last.
\<close>

definition frame :: "string set \<Rightarrow> engine \<Rightarrow> engine \<Rightarrow> bool" where
  "frame S e e' \<longleftrightarrow>
     (\<forall>j. j \<notin> S \<longrightarrow> en_jobs e' j = en_jobs e j) \<and>
     (\<forall>j. map_option pj_key (en_jobs e' j) = map_option pj_key (en_jobs e j)) \<and>
     dom (js_by_id (en_store e')) = dom (js_by_id (en_store e)) \<and>
     js_id_by_key (en_store e') = js_id_by_key (en_store e) \<and>
     (ledger (en_store e) (en_jobs e) \<longrightarrow> ledger (en_store e') (en_jobs e')) \<and>
     (sound (en_store e) (en_disk e) \<longrightarrow> sound (en_store e') (en_disk e')) \<and>
     (\<exists>es. en_log e' = en_log e @ es \<and> speaks S es \<and>
        (\<forall>j. map_option pj_terminal (en_jobs e' j) = map_option (\<lambda>h. pj_terminal h \<or> ends j es) (en_jobs e j)) \<and>
        (\<forall>j. map_option pj_state (en_jobs e' j) = map_option (\<lambda>h. spoken j es (pj_state h)) (en_jobs e j)))"

definition same_books :: "engine \<Rightarrow> engine \<Rightarrow> bool" where
  "same_books e e' \<longleftrightarrow> en_jobs e' = en_jobs e \<and> en_store e' = en_store e \<and> en_disk e' = en_disk e \<and>
     (\<exists>es. en_log e' = en_log e @ es \<and> list_all about_device es)"

lemma same_booksI:
  "en_jobs e' = en_jobs e \<Longrightarrow> en_store e' = en_store e \<Longrightarrow> en_disk e' = en_disk e \<Longrightarrow>
   en_log e' = en_log e @ es \<Longrightarrow> list_all about_device es \<Longrightarrow> same_books e e'"
  unfolding same_books_def by blast

lemma same_books_eq:
  "en_jobs e' = en_jobs e \<Longrightarrow> en_store e' = en_store e \<Longrightarrow> en_disk e' = en_disk e \<Longrightarrow> en_log e' = en_log e \<Longrightarrow>
   same_books e e'"
  by (rule same_booksI [where es = "[]"]) simp_all

lemma same_books_trans [trans]: "same_books a b \<Longrightarrow> same_books b c \<Longrightarrow> same_books a c"
  unfolding same_books_def by (metis append.assoc list_all_append)

lemma device_quiet: "list_all about_device es \<Longrightarrow> speaks S es \<and> \<not> ends j es \<and> spoken j es s = s"
proof (induction es)
  case (Cons x es)
  then show ?case by (cases x) (auto simp: speaks_def ends_def spoken_def)
qed (simp add: speaks_def ends_def spoken_def)

definition confined :: "string set \<Rightarrow> 'a phase \<Rightarrow> bool" where
  "confined S m \<longleftrightarrow> (\<forall>e. frame S e (snd (m e)))"

lemma speaks_append [simp]: "speaks S (u @ v) = (speaks S u \<and> speaks S v)"
  by (auto simp: speaks_def)

lemma ends_append [simp]: "ends j (u @ v) = (ends j u \<or> ends j v)"
  by (auto simp: ends_def)

lemma speaks_simps [simp]:
  "speaks S []" "speaks S (Published j ev # es) = (j \<in> S \<and> speaks S es)"
  "about_device x \<Longrightarrow> speaks S (x # es) = speaks S es" "speaks S (Finished j r # es) = speaks S es"
  by (auto simp: speaks_def)

lemma ends_simps [simp]:
  "\<not> ends j []" "ends j (Finished k r # es) = (j = k \<or> ends j es)"
  "ends j (Published k ev # es) = ends j es" "about_device x \<Longrightarrow> ends j (x # es) = ends j es"
  by (auto simp: ends_def)

lemma spoken_simps [simp]:
  "spoken j (u @ v) s = spoken j v (spoken j u s)"
  "spoken j [] s = s" "spoken j (Finished k r # es) s = spoken j es s"
  "spoken j (Published k ev # es) s = spoken j es (if k = j then je_state ev else s)"
  by (simp_all add: spoken_def)

lemma spoken_device [simp]: "about_device x \<Longrightarrow> spoken j (x # es) s = spoken j es s"
  by (cases x) (simp_all add: spoken_def)

lemma frame_trans:
  assumes "frame S a b" "frame S b c"
  shows "frame S a c"
proof -
  from assms obtain u v where
    u: "en_log b = en_log a @ u" "speaks S u"
    "\<And>j. map_option pj_terminal (en_jobs b j) = map_option (\<lambda>h. pj_terminal h \<or> ends j u) (en_jobs a j)"
    "\<And>j. map_option pj_state (en_jobs b j) = map_option (\<lambda>h. spoken j u (pj_state h)) (en_jobs a j)" and
    v: "en_log c = en_log b @ v" "speaks S v"
    "\<And>j. map_option pj_terminal (en_jobs c j) = map_option (\<lambda>h. pj_terminal h \<or> ends j v) (en_jobs b j)"
    "\<And>j. map_option pj_state (en_jobs c j) = map_option (\<lambda>h. spoken j v (pj_state h)) (en_jobs b j)"
    unfolding frame_def by blast
  have "map_option pj_terminal (en_jobs c j) = map_option (\<lambda>h. pj_terminal h \<or> ends j (u @ v)) (en_jobs a j)" for j
    using u(3) [of j] v(3) [of j] by (cases "en_jobs a j"; cases "en_jobs b j"; cases "en_jobs c j") auto
  moreover have "map_option pj_state (en_jobs c j) = map_option (\<lambda>h. spoken j (u @ v) (pj_state h)) (en_jobs a j)" for j
    using u(4) [of j] v(4) [of j] by (cases "en_jobs a j"; cases "en_jobs b j"; cases "en_jobs c j") auto
  ultimately have "\<exists>es. en_log c = en_log a @ es \<and> speaks S es \<and>
      (\<forall>j. map_option pj_terminal (en_jobs c j) = map_option (\<lambda>h. pj_terminal h \<or> ends j es) (en_jobs a j)) \<and>
      (\<forall>j. map_option pj_state (en_jobs c j) = map_option (\<lambda>h. spoken j es (pj_state h)) (en_jobs a j))"
    using u v by (intro exI [of _ "u @ v"]) simp
  with assms show ?thesis unfolding frame_def by simp
qed

lemma frame_refl: "frame S e e"
  unfolding frame_def by (auto intro!: exI [of _ "[]"] simp: option.map_ident)

lemma confined_then:
  assumes "confined S m" "\<And>a. confined S (k a)"
  shows "confined S (run_then m k)"
  unfolding confined_def
proof
  fix e
  obtain f e1 where m: "m e = (f, e1)" by fastforce
  with assms(1) have c: "frame S e e1" unfolding confined_def by (metis snd_conv)
  show "frame S e (snd (run_then m k e))"
  proof (cases f)
    case (Next a)
    from assms(2) [of a] have "frame S e1 (snd (k a e1))" unfolding confined_def by blast
    with c have "frame S e (snd (k a e1))" by (rule frame_trans)
    with m Next show ?thesis by (simp add: run_then_def)
  qed (use m c in \<open>simp_all add: run_then_def\<close>)
qed

lemma same_books_frame: "same_books e e' \<Longrightarrow> frame S e e'"
proof -
  assume s: "same_books e e'"
  then obtain es where es: "en_log e' = en_log e @ es" "list_all about_device es" unfolding same_books_def by blast
  with s device_quiet [OF es(2)] show ?thesis
    unfolding frame_def same_books_def by (intro conjI exI [of _ es]) (simp_all add: option.map_ident)
qed

lemma confined_silent: "(\<And>e. same_books e (snd (m e))) \<Longrightarrow> confined S m"
  unfolding confined_def by (blast intro: same_books_frame)

lemma confined_if: "(b \<Longrightarrow> confined S m) \<Longrightarrow> (\<not> b \<Longrightarrow> confined S m') \<Longrightarrow> confined S (if b then m else m')"
  by simp

lemma confined_simple: "confined S (value_of v)" "confined S skip" "confined S return_early" "confined S (encoded r)"
    "confined S (change (on_link g))"
  by (rule confined_silent, rule same_books_eq;
      auto simp: value_of_def skip_def return_early_def encoded_def change_def on_link_def
        split: sum.split encoding_error.split)+

lemma arrive_frame: "same_books e (arrive a e)"
proof -
  obtain lk es where d: "deliver (en_markers e) a (en_link e) = (lk, es)" by fastforce
  have "list_all about_device (map Notified es)" by (simp add: list_all_iff)
  then show ?thesis
    by (intro same_booksI [where es = "(case a of Rx d \<Rightarrow> [Received d] | _ \<Rightarrow> []) @ map Notified es"])
      (simp_all add: arrive_def d split: arrival.split)
qed

lemma arrive_all_frame: "same_books e (arrive_all as e)"
proof (induction as arbitrary: e)
  case (Cons a as)
  have "arrive_all (a # as) e = arrive_all as (arrive a e)" by (simp add: arrive_all_def)
  with arrive_frame [of e a] Cons [of "arrive a e"] show ?case by (metis same_books_trans)
qed (simp add: arrive_all_def same_books_eq)

lemma take_turn_frame: "take_turn e = (t, e1) \<Longrightarrow> same_books e e1"
  by (rule same_books_eq) (auto simp: take_turn_def split: list.splits)

lemma log_frame: "about_device x \<Longrightarrow> same_books e (log_effect x e)"
  by (rule same_booksI [where es = "[x]"]) (simp_all add: log_effect_def)

lemma write_frame: "same_books e (snd (write_once bs e))"
proof -
  obtain t e1 where t: "take_turn e = (t, e1)" by fastforce
  let ?n = "case tn_fail t of None \<Rightarrow> length bs | Some k \<Rightarrow> min k (length bs)"
  note take_turn_frame [OF t]
  also have "same_books e1 (log_effect (Wrote (take ?n bs)) e1)" by (rule log_frame) simp
  also have "same_books \<dots> (arrive_all (tn_arrivals t) (log_effect (Wrote (take ?n bs)) e1))"
    by (rule arrive_all_frame)
  finally show ?thesis by (simp add: write_once_def t Let_def)
qed

lemma chunks_frame: "same_books e (snd (send_chunks chunk bs offset e))"
proof (induction chunk bs offset e rule: send_chunks.induct)
  case (1 chunk bs offset e)
  show ?case
  proof (cases "bs = [] \<or> chunk = 0")
    case False
    obtain ok n e1 where w: "write_once (take chunk bs) e = ((ok, n), e1)" by (metis prod.collapse)
    with write_frame [of e "take chunk bs"] have f: "same_books e e1" by simp
    show ?thesis
    proof (cases ok)
      case True
      with 1 [OF False _ _ ] w
      have "same_books e1 (snd (send_chunks chunk (drop chunk bs) (offset + min chunk (length bs)) e1))" by simp
      with f have "same_books e (snd (send_chunks chunk (drop chunk bs) (offset + min chunk (length bs)) e1))"
        by (rule same_books_trans)
      with False w True show ?thesis by (simp add: send_chunks.simps [of chunk bs])
    next
      case fail: False
      with f w False show ?thesis by (simp add: send_chunks.simps [of chunk bs])
    qed
  qed (simp add: send_chunks.simps same_books_eq)
qed

lemma confined_send: "confined S (perform (sendPaced profile bs))"
proof (rule confined_silent)
  fix e
  have "same_books e (snd (sendPaced profile bs e))"
    by (simp add: sendPaced_def write_frame chunks_frame same_books_eq)
  then show "same_books e (snd (perform (sendPaced profile bs) e))" by (simp add: perform_def split_beta)
qed

lemma confined_wait: "confined S (perform (waiting f))"
proof (rule confined_silent)
  fix e
  obtain t e1 where t: "take_turn e = (t, e1)" by fastforce
  obtain r lk where f: "f (en_link (arrive_all (tn_arrivals t) e1)) = (r, lk)" by fastforce
  note take_turn_frame [OF t]
  also have "same_books e1 (arrive_all (tn_arrivals t) e1)" by (rule arrive_all_frame)
  also have "same_books \<dots> ((arrive_all (tn_arrivals t) e1)\<lparr>en_link := lk\<rparr>)" by (simp add: same_books_eq)
  finally show "same_books e (snd (perform (waiting f) e))" by (simp add: perform_def waiting_def t f Let_def)
qed

lemma connect_frame: "same_books e (snd (ensureConnected e))"
proof -
  obtain t e1 where t: "take_turn e = (t, e1)" by fastforce
  let ?e2 = "arrive_all (tn_arrivals t) e1"
  have e2: "same_books e ?e2" using take_turn_frame [OF t] arrive_all_frame by (rule same_books_trans)
  let ?e3 = "on_link (\<lambda>lk. lk\<lparr>lk_status := (lk_status lk)\<lparr>ds_connected := True\<rparr>\<rparr>)
      (?e2\<lparr>en_transport := True, en_had_connection := True\<rparr>)"
  have e3: "same_books ?e2 ?e3" by (rule same_books_eq) (simp_all add: on_link_def)
  have e4: "same_books ?e3 (log_effect (Notified DE_ConnectionRestored) ?e3)" by (rule log_frame) simp
  have e2': "same_books ?e2 (?e2\<lparr>en_transport := False\<rparr>)" by (rule same_books_eq) simp_all
  from same_books_trans [OF e2 e3] same_books_trans [OF same_books_trans [OF e2 e3] e4] same_books_trans [OF e2 e2'] e2
  show ?thesis by (simp add: ensureConnected_def t Let_def)
qed

lemma confined_connect: "confined S (perform ensureConnected)"
  by (rule confined_silent) (simp add: perform_def split_beta connect_frame)

lemma recordState_effect:
  assumes "recordState io now i s c r ev st = (st', err)"
  shows "js_order st' = js_order st \<and> js_id_by_key st' = js_id_by_key st \<and> dom (js_by_id st') = dom (js_by_id st)"
    and "err \<noteq> None \<Longrightarrow> js_by_id st' = js_by_id st"
    and "err = None \<Longrightarrow> \<exists>q. js_by_id st i = Some q \<and> js_by_id st' = (js_by_id st)(i \<mapsto> set_state s c r ev now q)"
    and "journal_ok st \<Longrightarrow> io = AppendOk \<Longrightarrow> journal_ok st'"
proof -
  show "journal_ok st \<Longrightarrow> io = AppendOk \<Longrightarrow> journal_ok st'"
    using journal_ok_do [of st "CallState now i s c r ev"] assms by simp
qed (use assms in \<open>auto simp: recordState_def store_append_def Let_def split: option.splits append_io.splits prod.splits if_splits\<close>)

lemma recordTokens_effect:
  assumes "recordTokens io i a b st = (st', err)"
  shows "js_order st' = js_order st \<and> js_id_by_key st' = js_id_by_key st \<and> dom (js_by_id st') = dom (js_by_id st)"
    and "err \<noteq> None \<Longrightarrow> js_by_id st' = js_by_id st"
    and "err = None \<Longrightarrow> \<exists>q. js_by_id st i = Some q \<and> js_by_id st' = (js_by_id st)(i \<mapsto> set_tokens a b q)"
    and "journal_ok st \<Longrightarrow> io = AppendOk \<Longrightarrow> journal_ok st'"
proof -
  show "journal_ok st \<Longrightarrow> io = AppendOk \<Longrightarrow> journal_ok st'"
    using journal_ok_do [of st "CallTokens i a b"] assms by simp
qed (use assms in \<open>auto simp: recordTokens_def store_append_def Let_def split: option.splits append_io.splits prod.splits if_splits\<close>)

lemma table_ok_same:
  "table_ok s \<Longrightarrow> js_order s' = js_order s \<Longrightarrow> js_id_by_key s' = js_id_by_key s \<Longrightarrow> js_by_id s' = js_by_id s \<Longrightarrow> table_ok s'"
  by (simp add: table_ok_def)

text \<open>A record is updated with the handle's new state, or the call failed and neither changed.\<close>

lemma ledger_same:
  "ledger s jobs \<Longrightarrow> js_order s' = js_order s \<Longrightarrow> js_id_by_key s' = js_id_by_key s \<Longrightarrow> js_by_id s' = js_by_id s \<Longrightarrow>
   ledger s' jobs"
  by (auto simp: ledger_def intro: table_ok_same)

lemma ledger_update:
  assumes "ledger s jobs" "js_order s' = js_order s" "js_id_by_key s' = js_id_by_key s" "js_by_id s i = Some q"
    "js_by_id s' = (js_by_id s)(i \<mapsto> q')" "rec_id q' = rec_id q" "rec_key q' = rec_key q"
    "\<And>j. jobs i = Some j \<Longrightarrow> pj_key (f j) = pj_key j \<and> (rec_state q = pj_state j \<longrightarrow> rec_state q' = pj_state (f j))"
  shows "ledger s' (jobs(i := map_option f (jobs i)))"
proof -
  have "table_ok (s\<lparr>js_by_id := (js_by_id s)(i \<mapsto> q')\<rparr>)"
    using assms by (intro table_ok_update) (auto simp: ledger_def)
  then have "table_ok s'" by (rule table_ok_same) (simp_all add: assms)
  moreover have "\<exists>r. js_by_id s' k = Some r \<and> rec_key r = pj_key j \<and> rec_state r = pj_state j"
    if k: "(jobs(i := map_option f (jobs i))) k = Some j" for k j
  proof (cases "k = i")
    case True
    with k obtain j0 where j0: "jobs i = Some j0" "j = f j0" by auto
    with assms(1,4) have "rec_key q = pj_key j0" "rec_state q = pj_state j0" unfolding ledger_def by fastforce+
    with True j0 assms(5,7) assms(8) [OF j0(1)] show ?thesis by simp
  next
    case False
    with k assms(1,5) show ?thesis unfolding ledger_def by auto
  qed
  ultimately show ?thesis unfolding ledger_def by blast
qed

lemma ledger_handle:
  assumes "ledger s jobs" "\<And>j. pj_key (f j) = pj_key j \<and> pj_state (f j) = pj_state j"
  shows "ledger s (jobs(i := map_option f (jobs i)))"
  using assms unfolding ledger_def by (auto split: if_splits)

lemma take_disk_frame:
  "take_disk e = ((io, now), e1) \<Longrightarrow> en_jobs e1 = en_jobs e \<and> en_store e1 = en_store e \<and> en_log e1 = en_log e \<and>
   (sound s (en_disk e) \<longrightarrow> io = AppendOk \<and> sound s (en_disk e1))"
  by (auto simp: take_disk_def sound_def split: list.splits)

lemma confined_advance: "i \<in> S \<Longrightarrow> confined S (advance i s c r ev)"
  unfolding confined_def
proof
  fix e :: engine assume i: "i \<in> S"
  obtain io now e1 where d: "take_disk e = ((io, now), e1)" by (metis prod.collapse)
  from take_disk_frame [OF this]
  have l: "en_jobs e1 = en_jobs e" "en_store e1 = en_store e" "en_log e1 = en_log e"
    "sound (en_store e) (en_disk e) \<longrightarrow> io = AppendOk \<and> sound (en_store e) (en_disk e1)" by blast+
  obtain st err where st: "recordState io now i s c r ev (en_store e) = (st, err)" by fastforce
  note eff = recordState_effect [OF st]
  have snd: "sound (en_store e) (en_disk e) \<longrightarrow> sound st (en_disk e1)" using l(4) eff(4) by (auto simp: sound_def)
  show "frame S e (snd (advance i s c r ev e))"
  proof (cases err)
    case (Some m)
    then have "ledger (en_store e) (en_jobs e) \<longrightarrow> ledger st (en_jobs e)"
      using eff(1,2) ledger_same by blast
    with Some d st l snd eff(1) show ?thesis
      by (cases m) (simp add: frame_def advance_def option.map_ident)
  next
    case None
    let ?ev = "make_event s c (if r = FR_None then None else Some r)"
    from eff(3) [OF None] obtain q where q: "js_by_id (en_store e) i = Some q"
      "js_by_id st = (js_by_id (en_store e))(i \<mapsto> set_state s c r ev now q)" by blast
    have "ledger (en_store e) (en_jobs e) \<longrightarrow>
        ledger st ((en_jobs e)(i := map_option (job_emit ?ev) (en_jobs e i)))"
    proof
      assume "ledger (en_store e) (en_jobs e)"
      then show "ledger st ((en_jobs e)(i := map_option (job_emit ?ev) (en_jobs e i)))"
        using eff(1) q(1) q(2)
        by (rule_tac ledger_update [where q = q and q' = "set_state s c r ev now q"])
          (simp_all add: set_state_def job_emit_def make_event_def)
    qed
    with None d st l snd i eff(1) show ?thesis
      by (simp add: frame_def advance_def log_effect_def on_job_def Let_def job_emit_def
          map_option.compositionality comp_def option.map_ident)
  qed
qed

lemma confined_finish: "i \<in> S \<Longrightarrow> confined S (change (\<lambda>e. log_effect (Finished i r) (on_job i (job_finish r) e)))"
  by (auto simp: confined_def frame_def change_def log_effect_def on_job_def job_finish_def
      map_option.compositionality comp_def option.map_ident intro!: ledger_handle)

lemma confined_terminate: "i \<in> S \<Longrightarrow> confined S (terminate_job i s r)"
  unfolding terminate_job_def by (intro confined_then confined_advance confined_finish)

lemma confined_end: "i \<in> S \<Longrightarrow> confined S (end_job i s r)"
  unfolding end_job_def by (intro confined_then confined_terminate confined_simple)

lemma confined_ends:
  "jx_id x \<in> S \<Longrightarrow> confined S (fail_job x reason c ev)" "jx_id x \<in> S \<Longrightarrow> confined S (lose_job x reason c)"
  "jx_id x \<in> S \<Longrightarrow> confined S (complete_job x c ev)"
  unfolding fail_job_def lose_job_def complete_job_def by (simp_all add: confined_end)

lemma confined_pass: "jx_id x \<in> S \<Longrightarrow> confined S (pass_state x s c)"
  unfolding pass_state_def by (rule confined_advance)

lemma confined_lease: "i \<in> S \<Longrightarrow> confined S (leaseTokens i profile b)"
  unfolding confined_def
proof
  fix e :: engine assume i: "i \<in> S"
  obtain q mk where acq: "acquire (en_markers e) = (q, mk)" by fastforce
  show "frame S e (snd (leaseTokens i profile b e))"
  proof (cases "q = None \<or> (cp_completion profile \<noteq> CM_GsParenH \<and> \<not> b)")
    case True
    with acq show ?thesis
      by (auto simp: leaseTokens_def intro!: same_books_frame same_books_eq split: option.split)
  next
    case False
    then obtain p where p: "q = Some p" by (cases q) auto
    let ?jobs = "(en_jobs e)(i := map_option (setTokens (mp_print p) (mp_cut p)) (en_jobs e i))"
    let ?e0 = "on_job i (setTokens (mp_print p) (mp_cut p)) (e\<lparr>en_markers := mk\<rparr>)"
    obtain io now e1 where d: "take_disk ?e0 = ((io, now), e1)" by (metis prod.collapse)
    from take_disk_frame [OF this]
    have l: "en_jobs e1 = ?jobs" "en_store e1 = en_store e"
      "sound (en_store e) (en_disk e) \<longrightarrow> io = AppendOk \<and> sound (en_store e) (en_disk e1)"
      "en_log e1 = en_log e"
      by (auto simp: on_job_def)
    obtain st err where st: "recordTokens io i (mp_print p) (mp_cut p) (en_store e) = (st, err)" by fastforce
    note eff = recordTokens_effect [OF st]
    have "sound (en_store e) (en_disk e) \<longrightarrow> sound st (en_disk e1)" using l(3) eff(4) by (auto simp: sound_def)
    moreover have "ledger (en_store e) (en_jobs e) \<longrightarrow> ledger st ?jobs"
    proof
      assume "ledger (en_store e) (en_jobs e)"
      then have led: "ledger (en_store e) ?jobs" by (rule ledger_handle) (simp add: setTokens_def)
      show "ledger st ?jobs"
      proof (cases err)
        case None
        from eff(3) [OF this] obtain r where r: "js_by_id (en_store e) i = Some r"
          "js_by_id st = (js_by_id (en_store e))(i \<mapsto> set_tokens (mp_print p) (mp_cut p) r)" by blast
        have "ledger st (?jobs(i := map_option id (?jobs i)))"
          using led eff(1) r(1) r(2)
          by (rule_tac ledger_update [where q = r and q' = "set_tokens (mp_print p) (mp_cut p) r"])
            (simp_all add: set_tokens_def)
        then show ?thesis by (simp add: option.map_id)
      qed (use led eff(1,2) ledger_same in blast)
    qed
    moreover have "\<exists>es. en_log (snd (leaseTokens i profile b e)) = en_log e @ es \<and> list_all about_device es"
      using False acq p d st l
      by (cases err) (auto simp: leaseTokens_def log_effect_def split: store_error.splits)
    moreover have "en_jobs (snd (leaseTokens i profile b e)) = ?jobs \<and> en_store (snd (leaseTokens i profile b e)) = st \<and>
        en_disk (snd (leaseTokens i profile b e)) = en_disk e1"
      using False acq p d st l
      by (cases err) (auto simp: leaseTokens_def log_effect_def split: store_error.splits)
    ultimately show ?thesis
      using eff(1) i device_quiet
      by (auto simp: frame_def setTokens_def map_option.compositionality comp_def option.map_ident)
  qed
qed

lemma confined_under_lease: "confined S m \<Longrightarrow> confined S (under_lease lease m)"
  unfolding confined_def
proof
  fix e :: engine assume "\<forall>e. frame S e (snd (m e))"
  then have "frame S e (snd (m e))" by blast
  moreover have "same_books (snd (m e)) (snd (under_lease lease m e))"
    by (rule same_books_eq) (simp_all add: under_lease_def split_beta release_lease_def split: option.split)
  ultimately show "frame S e (snd (under_lease lease m e))" by (blast intro: frame_trans same_books_frame)
qed

text \<open>The paragraphs of the job, each confined to its own job.\<close>

lemmas confined_steps = confined_then confined_if confined_simple confined_send confined_wait confined_connect
  confined_ends confined_pass

lemma confined_arm_star: "confined S (arm_star x)"
  by (rule confined_silent, rule same_books_eq) (simp_all add: arm_star_def perform_def split_beta)

lemma confined_paragraphs:
  assumes "jx_id x \<in> S"
  shows "confined S (preflight x c)" "confined S (send_payload x wire c)" "confined S (print_fence x token)"
    "confined S (send_fence x fence c)" "confined S (await_ack x token)" "confined S (unanswered x o' c)"
    "confined S (cut_wire x variant token)" "confined S (cutter_status x c)" "confined S (star_preamble x c)"
    "confined S (star_send x bs c)"
proof -
  have "confined S (judge_preflight x answers c)" for answers
    unfolding judge_preflight_def
    by (auto intro!: confined_steps assms simp: Let_def split: option.split)
  then show "confined S (preflight x c)"
    unfolding preflight_def by (intro confined_steps assms)
  show "confined S (send_payload x wire c)" "confined S (send_fence x fence c)" "confined S (await_ack x token)"
    "confined S (unanswered x o' c)" "confined S (cutter_status x c)" "confined S (star_preamble x c)"
    "confined S (star_send x bs c)"
    unfolding send_payload_def send_fence_def await_ack_def unanswered_def cutter_status_def star_preamble_def star_send_def
    by (intro confined_steps assms)+
  show "confined S (print_fence x token)"
    unfolding print_fence_def Let_def
    by (cases "jx_custom x"; cases "cp_completion (jx_profile x)") (auto intro!: confined_steps)
  show "confined S (cut_wire x variant token)"
    unfolding cut_wire_def by (cases "jx_custom x") (auto intro!: confined_steps)
qed

lemma confined_phases:
  assumes "jx_id x \<in> S"
  shows "confined S (cut_phase x variant token c)" "confined S (star_unfenced x variant c)"
    "confined S (star_cut_phase x variant c)"
  unfolding cut_phase_def star_unfenced_def star_cut_phase_def Let_def
  by (intro confined_steps confined_paragraphs confined_arm_star assms)+

lemma confined_star_fenced: "jx_id x \<in> S \<Longrightarrow> confined S (star_fenced x variant c)"
  unfolding star_fenced_def Let_def
  by (intro confined_steps confined_paragraphs confined_phases confined_arm_star)

lemma confined_print_phase:
  "jx_id x \<in> S \<Longrightarrow> confined S (print_phase x width_dots payload attempt banner c lease)"
  unfolding print_phase_def Let_def
  by (intro confined_steps confined_paragraphs confined_phases)

lemma confined_runStarJob: "jx_id x \<in> S \<Longrightarrow> confined S (runStarJob x width_dots payload attempt banner)"
  unfolding runStarJob_def Let_def
  by (intro confined_steps confined_paragraphs confined_phases confined_star_fenced)

lemma confined_runJob: "i \<in> S \<Longrightarrow> confined S (runJob i key payload options attempt banner)"
proof -
  assume i: "i \<in> S"
  have star: "confined S (runStarJob x w payload attempt banner)"
    and fail: "confined S (fail_job x reason c ev :: unit phase)"
    and escpos: "confined S (run_then (perform ensureConnected) (\<lambda>ok.
        if \<not> ok then fail_job x FR_TransportUnreachable c no_evidence
        else run_then (change (on_link g)) (\<lambda>_. run_then (preflight x c) (\<lambda>c.
             run_then (leaseTokens i profile b) (\<lambda>lease.
               under_lease lease (print_phase x w payload attempt banner c lease))))))"
    if "jx_id x = i" for x w reason c ev g profile b
    using i that
    by (intro confined_runStarJob confined_steps confined_lease confined_under_lease confined_print_phase
        confined_paragraphs; simp)+
  show ?thesis
    unfolding confined_def
  proof
    fix e
    show "frame S e (snd (runJob i key payload options attempt banner e))"
      unfolding runJob_def Let_def
      using star [unfolded confined_def] fail [unfolded confined_def] escpos [unfolded confined_def]
      by (simp split: if_splits)
  qed
qed

end
