(* ===== verification/Idempotency.thy ===== *)
theory Idempotency imports
  Submission
  Job_Frame
begin

text \<open>
  One copy per key. Over every sequence of calls that does not ask for a reprint, of worker
  turns, arriving bytes and stops, at most one job of a key may have printed: every other job
  of the key is finished as a known failure. This theory has the invariant behind it, of the
  index, the handles, the task queues and the journal, and proves that every operation of the
  driver keeps it.
\<close>

section \<open>The invariant\<close>

fun task_job :: "task \<Rightarrow> string list" where
  "task_job (JobTask i payload options attempt banner) = [i]"
| "task_job t = []"

definition queued_on :: "worker \<Rightarrow> string list" where
  "queued_on w = concat (map task_job (wk_tasks w))"

definition queued_jobs :: "driver \<Rightarrow> string list" where
  "queued_jobs d = concat (map (\<lambda>p. queued_on (snd p)) (dr_printers d))"

definition known :: "string \<Rightarrow> driver \<Rightarrow> bool" where
  "known i d \<longleftrightarrow> (\<exists>j. dr_jobs d i = Some j \<and> \<not> pj_terminal j)"

text \<open>The index points to this job under its key.\<close>

definition current :: "string \<Rightarrow> driver \<Rightarrow> bool" where
  "current i d \<longleftrightarrow>
     (\<exists>j en. dr_jobs d i = Some j \<and> dr_by_key d (pj_key j) = Some en \<and> ent_job en = i)"

definition index_ok :: "driver \<Rightarrow> bool" where
  "index_ok d \<longleftrightarrow>
     (\<forall>i j. dr_jobs d i = Some j \<longrightarrow>
        (\<exists>en. dr_by_key d (pj_key j) = Some en \<and> (ent_job en = i \<or> failed_and_finished i d))) \<and>
     (\<forall>k en. dr_by_key d k = Some en \<longrightarrow> (\<exists>j. dr_jobs d (ent_job en) = Some j \<and> pj_key j = k)) \<and>
     distinct (queued_jobs d) \<and> (\<forall>i \<in> set (queued_jobs d). known i d)"

text \<open>The handles and the index are those of the journal's records.\<close>

definition books_ok :: "driver \<Rightarrow> bool" where
  "books_ok d \<longleftrightarrow>
     ledger (dr_store d) (dr_jobs d) \<and> dom (dr_jobs d) = dom (js_by_id (dr_store d)) \<and>
     (\<forall>k. map_option ent_job (dr_by_key d k) = js_id_by_key (dr_store d) k) \<and>
     (\<forall>i j. dr_jobs d i = Some j \<longrightarrow> pj_key j \<noteq> [])"

text \<open>A change of handles confined to \<^theory_text>\<open>S\<close>; the index and the journal's jobs stay.\<close>

definition driver_frame :: "string set \<Rightarrow> driver \<Rightarrow> driver \<Rightarrow> bool" where
  "driver_frame S d d' \<longleftrightarrow>
     (\<forall>j. j \<notin> S \<longrightarrow> dr_jobs d' j = dr_jobs d j) \<and>
     (\<forall>j. map_option pj_key (dr_jobs d' j) = map_option pj_key (dr_jobs d j)) \<and>
     dom (js_by_id (dr_store d')) = dom (js_by_id (dr_store d)) \<and> dr_by_key d' = dr_by_key d \<and>
     js_id_by_key (dr_store d') = js_id_by_key (dr_store d) \<and>
     (ledger (dr_store d) (dr_jobs d) \<longrightarrow> ledger (dr_store d') (dr_jobs d')) \<and>
     (sound (dr_store d) (dr_disk d) \<longrightarrow> sound (dr_store d') (dr_disk d')) \<and>
     (\<exists>es. dr_log d' = dr_log d @ es \<and> speaks S es \<and>
        (\<forall>j. map_option pj_terminal (dr_jobs d' j) = map_option (\<lambda>h. pj_terminal h \<or> ends j es) (dr_jobs d j)) \<and>
        (\<forall>j. map_option pj_state (dr_jobs d' j) = map_option (\<lambda>h. spoken j es (pj_state h)) (dr_jobs d j)))"

lemma driver_frame_quiet:
  assumes "dr_jobs d' = dr_jobs d" "dom (js_by_id (dr_store d')) = dom (js_by_id (dr_store d))"
    "dr_by_key d' = dr_by_key d" "js_id_by_key (dr_store d') = js_id_by_key (dr_store d)"
    "ledger (dr_store d) (dr_jobs d) \<longrightarrow> ledger (dr_store d') (dr_jobs d')"
    "sound (dr_store d) (dr_disk d) \<longrightarrow> sound (dr_store d') (dr_disk d')" "dr_log d' = dr_log d"
  shows "driver_frame S d d'"
  using assms unfolding driver_frame_def by (intro conjI exI [of _ "[]"]) (simp_all add: option.map_ident)

lemma frame_dom: "driver_frame S d d' \<Longrightarrow> dom (dr_jobs d') = dom (dr_jobs d)"
  unfolding driver_frame_def dom_def by (metis None_eq_map_option_iff)

lemma frame_key:
  "driver_frame S d d' \<Longrightarrow> dr_jobs d' i = Some j' \<Longrightarrow> \<exists>j. dr_jobs d i = Some j \<and> pj_key j = pj_key j'"
  unfolding driver_frame_def by (metis map_option_eq_Some option.simps(9))

lemma frame_key':
  "driver_frame S d d' \<Longrightarrow> dr_jobs d i = Some j \<Longrightarrow> \<exists>j'. dr_jobs d' i = Some j' \<and> pj_key j' = pj_key j"
  unfolding driver_frame_def by (metis map_option_eq_Some option.simps(9))

lemma frame_failed:
  "driver_frame S d d' \<Longrightarrow> i \<notin> S \<Longrightarrow> failed_and_finished i d' = failed_and_finished i d \<and> known i d' = known i d"
  by (simp add: driver_frame_def failed_and_finished_def known_def)

lemma known_current: "index_ok d \<Longrightarrow> known i d \<Longrightarrow> current i d"
  unfolding index_ok_def known_def current_def failed_and_finished_def by (metis option.simps(5))

lemma index_ok_frame:
  assumes "index_ok d" "driver_frame S d d'" "\<forall>i \<in> S. current i d"
    "distinct (queued_jobs d')" "set (queued_jobs d') \<subseteq> set (queued_jobs d) - S"
  shows "index_ok d'"
proof -
  have key: "dr_by_key d' = dr_by_key d" using assms(2) by (simp add: driver_frame_def)
  have a: "\<exists>en. dr_by_key d' (pj_key j) = Some en \<and> (ent_job en = i \<or> failed_and_finished i d')"
    if j: "dr_jobs d' i = Some j" for i j
  proof -
    from frame_key [OF assms(2) j] obtain j0 where j0: "dr_jobs d i = Some j0" "pj_key j0 = pj_key j" by blast
    show ?thesis
    proof (cases "i \<in> S")
      case True
      with assms(3) j0 key show ?thesis by (auto simp: current_def)
    next
      case False
      with assms(1) j0 key frame_failed [OF assms(2) False] show ?thesis unfolding index_ok_def by metis
    qed
  qed
  have b: "\<exists>j. dr_jobs d' (ent_job en) = Some j \<and> pj_key j = k" if "dr_by_key d' k = Some en" for k en
  proof -
    from that key assms(1) obtain j where "dr_jobs d (ent_job en) = Some j" "pj_key j = k"
      unfolding index_ok_def by metis
    with frame_key' [OF assms(2)] show ?thesis by metis
  qed
  have c: "known i d'" if "i \<in> set (queued_jobs d')" for i
  proof -
    from that assms(5) have i: "i \<notin> S" "i \<in> set (queued_jobs d)" by auto
    with assms(1) have "known i d" by (simp add: index_ok_def)
    with i frame_failed [OF assms(2) i(1)] show ?thesis by simp
  qed
  with a b c assms(4) show ?thesis unfolding index_ok_def by blast
qed

lemma books_ok_frame:
  assumes "books_ok d" "driver_frame S d d'"
  shows "books_ok d'"
proof -
  have "pj_key j \<noteq> []" if "dr_jobs d' i = Some j" for i j
    using frame_key [OF assms(2) that] assms(1) unfolding books_ok_def by metis
  moreover have "ledger (dr_store d') (dr_jobs d')" using assms by (simp add: books_ok_def driver_frame_def)
  moreover have "dom (dr_jobs d') = dom (js_by_id (dr_store d'))"
    using assms frame_dom [OF assms(2)] by (simp add: books_ok_def driver_frame_def)
  moreover have "\<forall>k. map_option ent_job (dr_by_key d' k) = js_id_by_key (dr_store d') k"
    using assms by (simp add: books_ok_def driver_frame_def)
  ultimately show ?thesis unfolding books_ok_def by blast
qed

section \<open>Workers\<close>

lemma set_first_split:
  "map_of ps pid = Some w \<Longrightarrow>
   \<exists>a b. ps = a @ (pid, w) # b \<and> (\<forall>w'. set_first pid w' ps = a @ (pid, w') # b)"
proof (induction ps)
  case (Cons p ps)
  show ?case
  proof (cases "fst p = pid")
    case True
    with Cons.prems show ?thesis by (intro exI [of _ "[]"] exI [of _ ps]) (cases p, auto)
  next
    case False
    with Cons obtain a b where "ps = a @ (pid, w) # b" "\<forall>w'. set_first pid w' ps = a @ (pid, w') # b"
      by (cases p) auto
    with False show ?thesis by (intro exI [of _ "p # a"] exI [of _ b]) simp
  qed
qed simp

lemma put_worker_split:
  assumes "find_printer pid d = Some w"
  obtains a b where "dr_printers d = a @ (pid, w) # b"
    "\<And>w'. dr_printers (put_worker pid w' d) = a @ (pid, w') # b"
proof -
  from assms have "map_of (dr_printers d) pid = Some w" by (simp add: find_printer_def)
  from set_first_split [OF this] obtain a b where "dr_printers d = a @ (pid, w) # b"
    "\<forall>w'. set_first pid w' (dr_printers d) = a @ (pid, w') # b" by blast
  then show thesis by (intro that [of a b]) (simp_all add: put_worker_def)
qed

lemma queued_put:
  assumes "find_printer pid d = Some w"
  obtains a b where "queued_jobs d = a @ queued_on w @ b"
    "\<And>w'. queued_jobs (put_worker pid w' d) = a @ queued_on w' @ b"
proof -
  obtain a b where s: "dr_printers d = a @ (pid, w) # b"
    "\<And>w'. dr_printers (put_worker pid w' d) = a @ (pid, w') # b" using put_worker_split [OF assms] by metis
  show thesis by (rule that [of "concat (map (\<lambda>p. queued_on (snd p)) a)" "concat (map (\<lambda>p. queued_on (snd p)) b)"])
    (simp_all add: queued_jobs_def s)
qed

lemma find_put: "find_printer pid d = Some w \<Longrightarrow> find_printer pid (put_worker pid w' d) = Some w'"
proof -
  have "map_of ps pid = Some w \<Longrightarrow> map_of (set_first pid w' ps) pid = Some w'" for ps
    by (induction ps) auto
  then show "find_printer pid d = Some w \<Longrightarrow> ?thesis" by (simp add: find_printer_def put_worker_def)
qed

lemma put_worker_shared [simp]:
  "dr_jobs (put_worker pid w d) = dr_jobs d" "dr_store (put_worker pid w d) = dr_store d"
  "dr_by_key (put_worker pid w d) = dr_by_key d" "dr_log (put_worker pid w d) = dr_log d"
  "dr_disk (put_worker pid w d) = dr_disk d"
  by (simp_all add: put_worker_def)

lemma failed_put [simp]: "failed_and_finished i (put_worker pid w d) = failed_and_finished i d"
  by (simp add: failed_and_finished_def)

lemma on_worker_frame:
  assumes "confined S m" "on_worker pid m d = (f, d')"
  shows "driver_frame S d d' \<and> queued_jobs d' = queued_jobs d"
proof (cases "find_printer pid d")
  case None
  with assms(2) show ?thesis by (auto simp: on_worker_def intro: driver_frame_quiet)
next
  case (Some w)
  obtain e' where m: "m (enter d w) = (f, e')" and d': "d' = put_worker pid (w\<lparr>wk_engine := e'\<rparr>) (leave e' d)"
    using assms(2) Some by (auto simp: on_worker_def split: prod.splits)
  from assms(1) m have fr: "frame S (enter d w) e'" unfolding confined_def by (metis snd_conv)
  have "driver_frame S d d'"
    using fr by (simp add: d' driver_frame_def frame_def enter_def leave_def)
  moreover have "queued_jobs d' = queued_jobs d"
  proof -
    have "find_printer pid (leave e' d) = Some w" using Some by (simp add: find_printer_def leave_def)
    from queued_put [OF this] obtain a b where q: "queued_jobs (leave e' d) = a @ queued_on w @ b"
      "\<And>w'. queued_jobs (put_worker pid w' (leave e' d)) = a @ queued_on w' @ b" by blast
    have "queued_jobs (leave e' d) = queued_jobs d" by (simp add: queued_jobs_def leave_def)
    with q show ?thesis by (simp add: d' queued_on_def)
  qed
  ultimately show ?thesis by blast
qed

lemma frame_put: "driver_frame S d (put_worker pid w d)"
  by (rule driver_frame_quiet) simp_all

lemma driver_frame_refl [simp]: "driver_frame S d d"
  by (rule driver_frame_quiet) simp_all

section \<open>The driver's operations keep the invariant\<close>

text \<open>
  What holds of the driver between two calls; the flag says that no append to the journal has
  failed since the driver was started.
\<close>

definition driver_ok :: "bool \<Rightarrow> driver \<Rightarrow> bool" where
  "driver_ok b d \<longleftrightarrow> index_ok d \<and> books_ok d \<and> (b \<longrightarrow> sound (dr_store d) (dr_disk d))"

lemma driver_ok_frame:
  assumes "driver_ok b d" "driver_frame S d d'" "\<forall>i \<in> S. current i d"
    "distinct (queued_jobs d')" "set (queued_jobs d') \<subseteq> set (queued_jobs d) - S"
  shows "driver_ok b d'"
  using assms index_ok_frame [of d S d'] books_ok_frame [of d S d']
  by (auto simp: driver_ok_def driver_frame_def)

lemma driver_ok_worker:
  assumes "driver_ok b d" "confined S m" "on_worker pid m d = (f, d')" "\<forall>i \<in> S. current i d"
    "set (queued_jobs d) \<inter> S = {}"
  shows "driver_ok b d'"
  using on_worker_frame [OF assms(2,3)] assms
  by (intro driver_ok_frame [OF assms(1)]) (auto simp: driver_ok_def index_ok_def)

lemma createJob_effect:
  assumes "createJob io now r st = (st', err)"
  shows "err \<noteq> None \<Longrightarrow> js_by_id st' = js_by_id st \<and> js_order st' = js_order st \<and> js_id_by_key st' = js_id_by_key st"
    and "err = None \<Longrightarrow> js_by_id st (rec_id r) = None \<and>
      (\<exists>c. st' = insert_record (stored_form now r) (st\<lparr>js_file := c\<rparr>))"
    and "journal_ok st \<Longrightarrow> io = AppendOk \<Longrightarrow> journal_ok st'"
proof -
  show "journal_ok st \<Longrightarrow> io = AppendOk \<Longrightarrow> journal_ok st'"
    using journal_ok_do [of st "CallCreate now r"] assms by simp
  have refused: "err \<noteq> None \<and> st' = st" if "js_by_id st (rec_id r) \<noteq> None"
    using assms that by (cases err) (simp_all add: createJob_def)
  show "err \<noteq> None \<Longrightarrow> js_by_id st' = js_by_id st \<and> js_order st' = js_order st \<and> js_id_by_key st' = js_id_by_key st"
    using assms refused createJob_alt [of st r io now]
    by (cases "js_by_id st (rec_id r)")
      (auto simp: store_append_def Let_def split: append_io.splits if_splits prod.splits)
  show "err = None \<Longrightarrow> js_by_id st (rec_id r) = None \<and>
      (\<exists>c. st' = insert_record (stored_form now r) (st\<lparr>js_file := c\<rparr>))"
    using assms refused createJob_alt [of st r io now]
    by (cases "js_by_id st (rec_id r)")
      (auto simp: store_append_def Let_def split: append_io.splits if_splits prod.splits
        intro: exI [of _ "js_file st"])
qed

text \<open>A job of a key that has none, or whose job is a finished failure.\<close>

definition may_mint :: "string \<Rightarrow> driver \<Rightarrow> bool" where
  "may_mint key d \<longleftrightarrow> key \<noteq> [] \<and>
     (case dr_by_key d key of None \<Rightarrow> True | Some en \<Rightarrow> failed_and_finished (ent_job en) d)"

lemma take_driver_disk_effect:
  assumes "take_driver_disk d = ((io, now), d1)"
  shows "\<exists>ds. d1 = d\<lparr>dr_disk := ds\<rparr>" "sound s (dr_disk d) \<Longrightarrow> io = AppendOk \<and> sound s (dr_disk d1)"
  using assms by (auto simp: take_driver_disk_def sound_def split: list.splits intro: exI [of _ "[]"])

lemma mint_failed:
  assumes "driver_ok b d" "mint i key pid kind n entry d = (f, d1)" "\<forall>u. f \<noteq> Next u"
  shows "driver_ok b d1 \<and> queued_jobs d1 = queued_jobs d"
proof -
  obtain io now d0 where k: "take_driver_disk d = ((io, now), d0)" by (metis prod.collapse)
  from take_driver_disk_effect (1) [OF k] obtain ds where d0: "d0 = d\<lparr>dr_disk := ds\<rparr>" by blast
  obtain st err where c: "createJob io now (new_record i key pid (ent_attempt entry) kind n) (dr_store d) = (st, err)"
    by fastforce
  from assms(2,3) k c d0 have e: "err \<noteq> None" "d1 = d0\<lparr>dr_store := st\<rparr>"
    by (auto simp: mint_def Let_def split: option.splits store_error.splits)
  have "driver_frame {} d d1"
    using createJob_effect (1) [OF c e(1)] createJob_effect (3) [OF c] take_driver_disk_effect (2) [OF k]
    by (intro driver_frame_quiet) (auto simp: e d0 sound_def intro: ledger_same)
  moreover have "queued_jobs d1 = queued_jobs d" by (simp add: queued_jobs_def e d0)
  moreover have "distinct (queued_jobs d)" using assms(1) by (simp add: driver_ok_def index_ok_def)
  ultimately show ?thesis using driver_ok_frame [OF assms(1), of "{}" d1] by simp
qed

lemma mint_created:
  assumes "driver_ok b d" "may_mint key d" "mint i key pid kind n entry d = (Next u, d1)" "ent_job entry = i"
  shows "driver_ok b d1 \<and> known i d1 \<and> i \<notin> set (queued_jobs d1) \<and> queued_jobs d1 = queued_jobs d"
proof -
  obtain io now d0 where k: "take_driver_disk d = ((io, now), d0)" by (metis prod.collapse)
  from take_driver_disk_effect (1) [OF k] obtain ds where d0: "d0 = d\<lparr>dr_disk := ds\<rparr>" by blast
  let ?r = "new_record i key pid (ent_attempt entry) kind n"
  obtain st err where c: "createJob io now ?r (dr_store d) = (st, err)" by fastforce
  from assms(3) k c d0 have err: "err = None"
    by (auto simp: mint_def Let_def split: option.splits store_error.splits)
  let ?j = "job_emit (make_event JS_Queued CL_TransportAccepted None) (new_job i key pid (ent_attempt entry))"
  from assms(3) k c d0 err have jobs: "dr_jobs d1 = (dr_jobs d)(i \<mapsto> ?j)"
    and keys: "dr_by_key d1 = (dr_by_key d)(key \<mapsto> entry)" and st: "dr_store d1 = st"
    and printers: "dr_printers d1 = dr_printers d" and disk: "dr_disk d1 = dr_disk d0"
    by (auto simp: mint_def Let_def)
  from createJob_effect (2) [OF c err] obtain content where new: "js_by_id (dr_store d) i = None"
    "st = insert_record (stored_form now ?r) ((dr_store d)\<lparr>js_file := content\<rparr>)"
    by (auto simp: new_record_def)
  have ids: "rec_id ?r = i" "rec_key ?r = key" by (simp_all add: new_record_def)
  have j: "pj_key ?j = key" "pj_state ?j = JS_Queued" "\<not> pj_terminal ?j"
    by (simp_all add: job_emit_def new_job_def make_event_def)
  have "dom (dr_jobs d) = dom (js_by_id (dr_store d))"
    using assms(1) by (simp add: driver_ok_def books_ok_def)
  with new(1) have fresh: "dr_jobs d i = None" by (metis domIff)
  have idx: "index_ok d" and bk: "books_ok d" and "key \<noteq> []"
    using assms(1,2) by (simp_all add: driver_ok_def may_mint_def)
  have queue: "queued_jobs d1 = queued_jobs d" by (simp add: queued_jobs_def printers)
  have i_not: "i \<notin> set (queued_jobs d)" using idx fresh by (auto simp: index_ok_def known_def)
  have ff: "failed_and_finished a d1 = failed_and_finished a d" if "a \<noteq> i" for a
    using that by (simp add: failed_and_finished_def jobs)
  have known_i: "known i d1" using j by (simp add: known_def failed_and_finished_def jobs)
  have "index_ok d1"
    unfolding index_ok_def
  proof (intro conjI allI impI)
    fix a ja assume a: "dr_jobs d1 a = Some ja"
    show "\<exists>en. dr_by_key d1 (pj_key ja) = Some en \<and> (ent_job en = a \<or> failed_and_finished a d1)"
    proof (cases "a = i")
      case True
      with a jobs keys j assms(4) show ?thesis by auto
    next
      case False
      with a jobs have old: "dr_jobs d a = Some ja" by simp
      with idx obtain en where en: "dr_by_key d (pj_key ja) = Some en" "ent_job en = a \<or> failed_and_finished a d"
        unfolding index_ok_def by blast
      show ?thesis
      proof (cases "pj_key ja = key")
        case True
        with en assms(2) ff [OF False] have "failed_and_finished a d1" by (auto simp: may_mint_def)
        with True keys show ?thesis by simp
      next
        case False
        with en keys ff [OF \<open>a \<noteq> i\<close>] show ?thesis by auto
      qed
    qed
  next
    fix k0 en assume en: "dr_by_key d1 k0 = Some en"
    show "\<exists>j. dr_jobs d1 (ent_job en) = Some j \<and> pj_key j = k0"
    proof (cases "k0 = key")
      case True
      with en keys jobs j assms(4) show ?thesis by auto
    next
      case False
      with en keys idx obtain ja where "dr_jobs d (ent_job en) = Some ja" "pj_key ja = k0"
        unfolding index_ok_def by (metis fun_upd_apply)
      with fresh jobs show ?thesis by (metis fun_upd_apply option.distinct(1))
    qed
  next
    show "distinct (queued_jobs d1)" using idx queue by (simp add: index_ok_def)
  next
    show "\<forall>a \<in> set (queued_jobs d1). known a d1"
      using idx queue i_not ff jobs unfolding index_ok_def known_def by (metis fun_upd_apply)
  qed
  moreover have "books_ok d1"
  proof -
    have led: "ledger (dr_store d) (dr_jobs d)" using bk by (simp add: books_ok_def)
    have "table_ok st"
      unfolding new(2) by (rule table_ok_insert) (use led new(1) ids in \<open>simp_all add: ledger_def\<close>)
    moreover have "\<exists>r. js_by_id st a = Some r \<and> rec_key r = pj_key ja \<and> rec_state r = pj_state ja"
      if "dr_jobs d1 a = Some ja" for a ja
      using that led j ids by (auto simp: jobs new(2) insert_record_def ledger_def stored_form_def Let_def split: if_splits)
    ultimately have "ledger (dr_store d1) (dr_jobs d1)" unfolding ledger_def st by blast
    moreover have "dom (dr_jobs d1) = dom (js_by_id (dr_store d1))"
      using bk ids by (auto simp: books_ok_def jobs st new(2) insert_record_def)
    moreover have "map_option ent_job (dr_by_key d1 k0) = js_id_by_key (dr_store d1) k0" for k0
      using bk ids assms(4) \<open>key \<noteq> []\<close>
      by (simp add: books_ok_def keys st new(2) insert_record_def remember_key_def)
    moreover have "pj_key ja \<noteq> []" if "dr_jobs d1 a = Some ja" for a ja
      using that bk j \<open>key \<noteq> []\<close> by (auto simp: books_ok_def jobs split: if_splits)
    ultimately show ?thesis unfolding books_ok_def by blast
  qed
  moreover have "sound (dr_store d1) (dr_disk d1)" if "sound (dr_store d) (dr_disk d)"
    using take_driver_disk_effect (2) [OF k that] createJob_effect (3) [OF c] that by (simp add: st disk sound_def)
  ultimately show ?thesis
    using assms(1) known_i i_not queue by (simp add: driver_ok_def)
qed

text \<open>The worker's queue grows by a job the index knows, or by a task without one.\<close>

lemma driver_ok_queue:
  assumes "driver_ok b d" "find_printer pid d = Some w" "queued_on w' = queued_on w @ js"
    "distinct js" "\<forall>i \<in> set js. known i d \<and> i \<notin> set (queued_jobs d)"
  shows "driver_ok b (put_worker pid w' d)"
proof -
  from queued_put [OF assms(2)] obtain a c where q: "queued_jobs d = a @ queued_on w @ c"
    "\<And>w'. queued_jobs (put_worker pid w' d) = a @ queued_on w' @ c" by metis
  have "known i (put_worker pid w' d) = known i d" for i by (simp add: known_def)
  then show ?thesis
    using assms q by (auto simp: driver_ok_def index_ok_def books_ok_def)
qed

lemma driver_ok_push:
  assumes "driver_ok b d" "\<forall>i \<in> set (task_job t). known i d \<and> i \<notin> set (queued_jobs d)"
  shows "driver_ok b (push pid t d)"
proof (cases "find_printer pid d")
  case (Some w)
  have "distinct (task_job t)" by (cases t) simp_all
  with Some assms show ?thesis
    unfolding push_def by (auto intro!: driver_ok_queue [where js = "task_job t"] simp: queued_on_def)
qed (use assms in \<open>simp add: push_def\<close>)

lemma current_known: "driver_ok b d \<Longrightarrow> known i d \<Longrightarrow> current i d"
  by (simp add: driver_ok_def known_current)

lemma driver_ok_refuse:
  assumes "driver_ok b d" "known i d" "i \<notin> set (queued_jobs d)" "on_worker pid (refuse_stopped i) d = (f, d')"
  shows "driver_ok b d'"
  using assms current_known [OF assms(1,2)]
  by (intro driver_ok_worker [OF assms(1) _ assms(4), of "{i}"])
    (auto simp: refuse_stopped_def intro: confined_terminate)

lemma driver_ok_submit_new:
  assumes "driver_ok b d" "may_mint (if op_key options = [] then ''auto-'' @ auto_id else op_key options) d"
    "submit_new auto_id i pid payload options banner attempt d = (f, d')"
  shows "driver_ok b d'"
proof -
  let ?key = "if op_key options = [] then ''auto-'' @ auto_id else op_key options"
  let ?entry = "\<lparr>ent_job = i, ent_printer_id = pid, ent_payload = Some payload, ent_options = options,
                 ent_attempt = attempt\<rparr>"
  obtain g d1 where m: "mint i ?key pid (payload_kind_of payload) (payloadInputBytes payload) ?entry d = (g, d1)"
    by fastforce
  show ?thesis
  proof (cases g)
    case (Next u)
    from mint_created [OF assms(1,2) m [unfolded Next]] have d1: "driver_ok b d1" "known i d1" "i \<notin> set (queued_jobs d1)"
      by auto
    show ?thesis
    proof (cases "stopping pid d1")
      case True
      obtain h d2 where "on_worker pid (refuse_stopped i) d1 = (h, d2)" by fastforce
      with True Next m assms(3) driver_ok_refuse [OF d1 this] show ?thesis
        by (cases h) (auto simp: submit_new_def Let_def)
    next
      case False
      with Next m assms(3) d1 show ?thesis
        by (auto simp: submit_new_def Let_def intro!: driver_ok_push)
    qed
  qed (use m assms(3) mint_failed [OF assms(1) m] in \<open>auto simp: submit_new_def Let_def\<close>)
qed

text \<open>The random part of an automatic key is not that of any key in use.\<close>

definition fresh_auto :: "string \<Rightarrow> driver \<Rightarrow> bool" where
  "fresh_auto auto_id d \<longleftrightarrow> dr_by_key d (''auto-'' @ auto_id) = None"

lemma driver_ok_print:
  assumes "driver_ok b d" "fresh_auto auto_id d" "print auto_id i pid payload options d = (f, d')"
  shows "driver_ok b d'"
proof -
  have mint: "may_mint (if op_key options = [] then ''auto-'' @ auto_id else op_key options) d"
    if "\<not> (\<exists>en. op_key options \<noteq> [] \<and> dr_by_key d (op_key options) = Some en \<and> \<not> failed_and_finished (ent_job en) d)"
    using that assms(2) by (auto simp: may_mint_def fresh_auto_def split: option.split)
  show ?thesis
    using assms(1,3) driver_ok_submit_new [OF assms(1) mint]
    by (auto simp: print_def submit_def split: if_splits option.splits)
qed

lemma driver_ok_reserve:
  assumes "driver_ok b d" "fresh_auto auto_id d" "reserve auto_id i pid key kind n d = (f, d')"
  shows "driver_ok b d'"
proof (cases "if key = [] then None else dr_by_key d key")
  case None
  let ?key = "if key = [] then ''auto-'' @ auto_id else key"
  have mint: "may_mint ?key d"
    using None assms(2) by (auto simp: may_mint_def fresh_auto_def split: if_splits)
  let ?entry = "\<lparr>ent_job = i, ent_printer_id = pid, ent_payload = None, ent_options = default_options, ent_attempt = 1\<rparr>"
  obtain g d1 where m: "mint i ?key pid kind n ?entry d = (g, d1)" by fastforce
  show ?thesis
  proof (cases g)
    case (Next u)
    with m assms(3) None mint_created [OF assms(1) mint m [unfolded Next]] show ?thesis
      by (auto simp: reserve_def Let_def)
  qed (use m assms(3) None mint_failed [OF assms(1) m] in \<open>auto simp: reserve_def Let_def\<close>)
qed (use assms in \<open>simp add: reserve_def\<close>)

lemma driver_ok_entry:
  assumes "driver_ok b d" "dr_by_key d key = Some en" "ent_job en' = ent_job en"
  shows "driver_ok b (d\<lparr>dr_by_key := (dr_by_key d)(key \<mapsto> en')\<rparr>)"
proof -
  let ?d = "d\<lparr>dr_by_key := (dr_by_key d)(key \<mapsto> en')\<rparr>"
  have same: "failed_and_finished i ?d = failed_and_finished i d" "known i ?d = known i d"
    "queued_jobs ?d = queued_jobs d" for i
    by (simp_all add: failed_and_finished_def known_def queued_jobs_def)
  have jobs: "map_option ent_job (dr_by_key ?d k) = map_option ent_job (dr_by_key d k)" for k
    using assms(2,3) by simp
  have idx: "index_ok d" and bk: "books_ok d" using assms(1) by (simp_all add: driver_ok_def)
  have "index_ok ?d"
    unfolding index_ok_def
  proof (intro conjI allI impI)
    fix i j assume "dr_jobs ?d i = Some j"
    then have "dr_jobs d i = Some j" by simp
    with idx obtain e where "dr_by_key d (pj_key j) = Some e" "ent_job e = i \<or> failed_and_finished i d"
      unfolding index_ok_def by blast
    moreover from this jobs [of "pj_key j"] obtain en where "dr_by_key ?d (pj_key j) = Some en" "ent_job en = ent_job e"
      by (cases "dr_by_key ?d (pj_key j)") auto
    ultimately show "\<exists>en. dr_by_key ?d (pj_key j) = Some en \<and> (ent_job en = i \<or> failed_and_finished i ?d)"
      using same(1) by (intro exI [of _ en]) simp
  next
    fix k e assume "dr_by_key ?d k = Some e"
    with jobs [of k] obtain e0 where "dr_by_key d k = Some e0" "ent_job e0 = ent_job e"
      by (metis map_option_eq_Some)
    with idx show "\<exists>j. dr_jobs ?d (ent_job e) = Some j \<and> pj_key j = k"
      unfolding index_ok_def by fastforce
  qed (use idx same in \<open>simp_all add: index_ok_def\<close>)
  moreover have "books_ok ?d" using bk jobs unfolding books_ok_def by simp
  ultimately show ?thesis using assms(1) by (simp add: driver_ok_def)
qed

lemma driver_ok_submitReserved:
  assumes "driver_ok b d" "i \<notin> set (queued_jobs d)" "submitReserved pid i payload options d = (f, d')"
  shows "driver_ok b d'"
proof (cases "dr_jobs d i")
  case (Some j)
  show ?thesis
  proof (cases "pj_terminal j")
    case False
    let ?d1 = "case dr_by_key d (pj_key j) of None \<Rightarrow> d
               | Some en \<Rightarrow> d\<lparr>dr_by_key := (dr_by_key d)(pj_key j \<mapsto>
                              en\<lparr>ent_payload := Some payload, ent_options := options\<rparr>)\<rparr>"
    have ok: "driver_ok b ?d1"
      using assms(1) by (auto split: option.split intro!: driver_ok_entry)
    have k: "known i ?d1" "i \<notin> set (queued_jobs ?d1)"
      using Some False assms(2)
      by (auto simp: known_def failed_and_finished_def queued_jobs_def split: option.split)
    show ?thesis
    proof (cases "stopping pid ?d1")
      case True
      obtain h d2 where "on_worker pid (refuse_stopped i) ?d1 = (h, d2)" by fastforce
      with True Some False assms(3) driver_ok_refuse [OF ok k this] show ?thesis
        by (cases h) (auto simp: submitReserved_def Let_def)
    next
      case s: False
      with Some False assms(3) ok k show ?thesis
        by (auto simp: submitReserved_def Let_def intro!: driver_ok_push)
    qed
  qed (use Some assms in \<open>simp add: submitReserved_def\<close>)
qed (use assms in \<open>simp add: submitReserved_def\<close>)

lemma driver_ok_request:
  assumes "driver_ok b d" "task_job t = []"
  shows "driver_ok b (request pid t d)"
  using assms by (simp add: request_def driver_ok_push)

text \<open>The worker's tasks, and a stop, touch the jobs they were queued for.\<close>

lemma confined_at: "(\<And>a. confined S (m a)) \<Longrightarrow> confined S (\<lambda>e. m e e)"
  unfolding confined_def by blast

lemma confined_requests: "confined S openCashDrawer" "confined S refreshStatus"
proof -
  have "confined S (\<lambda>e. run_then (perform (sendPaced (en_profile e) kick_pulse)) (\<lambda>sent. skip) e)"
    by (rule confined_at) (intro confined_steps)
  then show "confined S openCashDrawer" unfolding openCashDrawer_def by (intro confined_steps)
  have "confined S (\<lambda>e. run_then (perform (sendPaced (en_profile e) preflight_bytes)) (\<lambda>sent.
      run_then (if fst sent then run_then (perform (waiting (awaitRealtime 4))) (\<lambda>r. skip) else skip) (\<lambda>u.
        change (on_link clearRealtime))) e)"
    by (rule confined_at) (intro confined_steps)
  then show "confined S refreshStatus" unfolding refreshStatus_def by (intro confined_steps)
qed

lemma confined_run_task: "set (task_job t) \<subseteq> S \<Longrightarrow> confined S (run_task t)"
proof (cases t)
  case (JobTask i payload options attempt banner)
  assume "set (task_job t) \<subseteq> S"
  with JobTask have "confined S (\<lambda>e. runJob i (case en_jobs e i of None \<Rightarrow> [] | Some j \<Rightarrow> pj_key j)
      payload options attempt banner e)"
    by (rule_tac confined_at [where m = "\<lambda>e. runJob i (case en_jobs e i of None \<Rightarrow> [] | Some j \<Rightarrow> pj_key j)
      payload options attempt banner"]) (simp add: confined_runJob)
  then show ?thesis by (simp add: JobTask run_task_def [abs_def])
qed (use confined_requests in \<open>simp_all add: run_task_def [abs_def]\<close>)

lemma confined_cancel_all: "set (concat (map task_job ts)) \<subseteq> S \<Longrightarrow> confined S (cancel_all ts)"
proof (induction ts)
  case (Cons t ts)
  then have "confined S (cancel_task t)"
    by (cases t) (auto simp: cancel_task_def intro: confined_terminate confined_simple)
  with Cons show ?case by (auto intro!: confined_then)
qed (simp add: confined_simple)

lemma current_frame: "current i (put_worker pid w d) = current i d"
  by (simp add: current_def)

lemma driver_ok_dequeue:
  assumes "driver_ok b d" "find_printer pid d = Some w" "queued_on w = js @ queued_on w'"
  shows "driver_ok b (put_worker pid w' d)" "\<forall>i \<in> set js. current i (put_worker pid w' d)"
    "set (queued_jobs (put_worker pid w' d)) \<inter> set js = {}"
proof -
  from queued_put [OF assms(2)] obtain a c where q: "queued_jobs d = a @ queued_on w @ c"
    "\<And>w'. queued_jobs (put_worker pid w' d) = a @ queued_on w' @ c" by metis
  have dist: "distinct (queued_jobs d)" and known: "\<forall>i \<in> set (queued_jobs d). known i d"
    using assms(1) by (simp_all add: driver_ok_def index_ok_def)
  from known q assms(3) current_known [OF assms(1)] have cur: "\<forall>i \<in> set js. current i d" by simp
  then show "\<forall>i \<in> set js. current i (put_worker pid w' d)" by (simp add: current_frame)
  show "set (queued_jobs (put_worker pid w' d)) \<inter> set js = {}" using dist q assms(3) by auto
  show "driver_ok b (put_worker pid w' d)"
    by (rule driver_ok_frame [OF assms(1) frame_put cur]) (use dist q assms(3) in auto)
qed

lemma driver_ok_worker_turn:
  assumes "driver_ok b d" "worker_turn pid d = (f, d')"
  shows "driver_ok b d'"
proof (cases "find_printer pid d")
  case (Some w)
  show ?thesis
  proof (cases "stopping pid d \<or> wk_tasks w = []")
    case False
    then obtain t ts where t: "wk_tasks w = t # ts" by (cases "wk_tasks w") auto
    let ?w = "w\<lparr>wk_tasks := ts\<rparr>"
    have "queued_on w = task_job t @ queued_on ?w" by (simp add: queued_on_def t)
    note d0 = driver_ok_dequeue [OF assms(1) Some this]
    obtain g d1 where "on_worker pid (run_task t) (put_worker pid ?w d) = (g, d1)" by fastforce
    with Some False t assms(2) driver_ok_worker [OF d0(1) confined_run_task [OF order_refl] this d0(2,3)]
    show ?thesis by (cases g) (auto simp: worker_turn_def)
  qed (use Some assms in \<open>auto simp: worker_turn_def split: if_splits\<close>)
qed (use assms in \<open>simp add: worker_turn_def\<close>)

lemma driver_ok_stop:
  assumes "driver_ok b d" "stop_printer pid d = (f, d')"
  shows "driver_ok b d'"
proof (cases "find_printer pid d")
  case (Some w)
  show ?thesis
  proof (cases "wk_stopped w")
    case False
    let ?w = "w\<lparr>wk_stopped := True, wk_tasks := [],
        wk_engine := on_link (\<lambda>lk. lk\<lparr>lk_stopping := True\<rparr>) (wk_engine w)\<rparr>"
    have "queued_on w = queued_on w @ queued_on ?w" by (simp add: queued_on_def)
    note d0 = driver_ok_dequeue [OF assms(1) Some this]
    have "confined (set (queued_on w)) (run_then (cancel_all (wk_tasks w)) (\<lambda>u. change closeTransport))"
      by (intro confined_then confined_cancel_all confined_silent same_books_eq)
        (simp_all add: queued_on_def change_def closeTransport_def on_link_def)
    from driver_ok_worker [OF d0(1) this _ d0(2,3)] Some False assms(2) show ?thesis
      by (auto simp: stop_printer_def Let_def)
  qed (use Some assms in \<open>simp add: stop_printer_def\<close>)
qed (use assms in \<open>simp add: stop_printer_def\<close>)

lemma driver_ok_silent:
  assumes "driver_ok b d" "\<And>e. same_books e (g e)" "on_worker pid (change g) d = (f, d')"
  shows "driver_ok b d'"
  by (rule driver_ok_worker [OF assms(1) _ assms(3), of "{}"]) (simp_all add: confined_silent change_def assms(2))

lemma driver_ok_addPrinter: "driver_ok b d \<Longrightarrow> driver_ok b (addPrinter pid e d)"
proof -
  have "queued_jobs (addPrinter pid e d) = queued_jobs d" "driver_frame {} d (addPrinter pid e d)"
    by (simp_all add: addPrinter_def queued_jobs_def queued_on_def driver_frame_quiet)
  moreover assume "driver_ok b d"
  ultimately show ?thesis
    using driver_ok_frame [of b d "{}" "addPrinter pid e d"] by (simp add: driver_ok_def index_ok_def)
qed

end
