(* ===== verification/Driver_Runs.thy ===== *)
theory Driver_Runs imports
  Idempotency
begin

text \<open>
  Runs of a whole driver: calls, worker turns, arriving bytes, stops, disk faults and
  restarts in any order. Over every run that asks for no reprint, at most one job of a key
  may have printed, and a restart answers a resubmitted key the way the run before it would.
\<close>

section \<open>A start on a journal\<close>

definition entry_of_record :: "job_record \<Rightarrow> job_entry" where
  "entry_of_record r =
     \<lparr>ent_job = rec_id r, ent_printer_id = rec_printer_id r, ent_payload = None,
      ent_options = default_options, ent_attempt = rec_attempt r\<rparr>"

definition named :: "job_store \<Rightarrow> bool" where
  "named s \<longleftrightarrow> table_ok s \<and> (\<forall>i r. js_by_id s i = Some r \<longrightarrow> rec_key r \<noteq> [])"

lemma opened_prefix:
  assumes "\<And>i. i \<in> set ids \<Longrightarrow> rec_id (the (m i)) = i \<and> rec_key (the (m i)) \<noteq> []"
    "dr_jobs d = Map.empty" "dr_by_key d = Map.empty"
  shows "dr_jobs (foldl (\<lambda>d r. adopt r d) d (map (\<lambda>i. the (m i)) ids)) =
           (\<lambda>i. if i \<in> set ids then Some (job_of_record (the (m i))) else None) \<and>
         dr_by_key (foldl (\<lambda>d r. adopt r d) d (map (\<lambda>i. the (m i)) ids)) =
           (\<lambda>k. map_option (\<lambda>i. entry_of_record (the (m i))) (keys_of ids m k))"
  using assms(1)
proof (induction ids rule: rev_induct)
  case Nil
  with assms(2,3) show ?case by (auto simp: keys_of_def)
next
  case (snoc i ids)
  have i: "rec_id (the (m i)) = i" "rec_key (the (m i)) \<noteq> []" using snoc.prems [of i] by simp_all
  note IH = snoc.IH [OF snoc.prems]
  from IH i show ?case
    by (simp add: adopt_def keys_of_snoc remember_key_def entry_of_record_def fun_eq_iff)
qed

lemma adopt_shared [simp]:
  "dr_store (foldl (\<lambda>d r. adopt r d) d rs) = dr_store d" "dr_printers (foldl (\<lambda>d r. adopt r d) d rs) = dr_printers d"
  "dr_disk (foldl (\<lambda>d r. adopt r d) d rs) = dr_disk d"
  by (induction rs arbitrary: d) (simp_all add: adopt_def)

lemma driver_open_fields:
  assumes "named s"
  shows "dr_store (driver_open s nonce) = s" "dr_printers (driver_open s nonce) = []"
    "dr_disk (driver_open s nonce) = []"
    "dr_jobs (driver_open s nonce) i = map_option job_of_record (js_by_id s i)"
    "dr_by_key (driver_open s nonce) k =
       map_option (\<lambda>i. entry_of_record (the (js_by_id s i))) (js_id_by_key s k)"
proof -
  show "dr_store (driver_open s nonce) = s" "dr_printers (driver_open s nonce) = []"
    "dr_disk (driver_open s nonce) = []" by (simp_all add: driver_open_def)
  have t: "set (js_order s) = dom (js_by_id s)" "js_id_by_key s = keys_of (js_order s) (js_by_id s)"
    "\<forall>i r. js_by_id s i = Some r \<longrightarrow> rec_id r = i"
    using assms by (simp_all add: named_def table_ok_def)
  have ids: "rec_id (the (js_by_id s i)) = i \<and> rec_key (the (js_by_id s i)) \<noteq> []" if "i \<in> set (js_order s)" for i
    using that assms t by (auto simp: named_def)
  note prefix = opened_prefix [where m = "js_by_id s", OF ids]
  show "dr_jobs (driver_open s nonce) i = map_option job_of_record (js_by_id s i)"
    unfolding driver_open_def store_all_def
    by (subst prefix [THEN conjunct1]) (use t(1) in \<open>auto simp: dom_def split: option.split\<close>)
  show "dr_by_key (driver_open s nonce) k =
       map_option (\<lambda>i. entry_of_record (the (js_by_id s i))) (js_id_by_key s k)"
    unfolding driver_open_def store_all_def t(2)
    by (subst prefix [THEN conjunct2]) simp_all
qed

lemma job_of_record_simps [simp]:
  "pj_key (job_of_record r) = rec_key r" "pj_state (job_of_record r) = rec_state r" "pj_terminal (job_of_record r)"
  by (simp_all add: job_of_record_def job_finish_def job_emit_def setTokens_def new_job_def make_event_def)

text \<open>A journal in which at most one job of a key is not a known failure.\<close>

definition one_live :: "job_store \<Rightarrow> bool" where
  "one_live s \<longleftrightarrow>
     (\<forall>i r. js_by_id s i = Some r \<longrightarrow> js_id_by_key s (rec_key r) = Some i \<or>
        (js_id_by_key s (rec_key r) \<noteq> None \<and> rec_state r = JS_FailedKnown)) \<and>
     (\<forall>k i. js_id_by_key s k = Some i \<longrightarrow> (\<exists>r. js_by_id s i = Some r \<and> rec_key r = k))"

lemma driver_ok_opened:
  assumes "b \<longrightarrow> journal_ok s" "named s" "one_live s"
  shows "driver_ok b (driver_open s nonce)"
proof -
  let ?d = "driver_open s nonce"
  note f = driver_open_fields [OF assms(2)]
  have id: "rec_id r = i" if "js_by_id s i = Some r" for i r
    using assms(2) that by (auto simp: named_def table_ok_def)
  have "index_ok ?d"
    unfolding index_ok_def
  proof (intro conjI allI impI)
    fix i j assume "dr_jobs ?d i = Some j"
    then obtain r where r: "js_by_id s i = Some r" "j = job_of_record r" by (auto simp: f)
    with assms(3) have "js_id_by_key s (rec_key r) = Some i \<or>
        (js_id_by_key s (rec_key r) \<noteq> None \<and> rec_state r = JS_FailedKnown)" unfolding one_live_def by blast
    then show "\<exists>en. dr_by_key ?d (pj_key j) = Some en \<and> (ent_job en = i \<or> failed_and_finished i ?d)"
      using r id [OF r(1)] by (auto simp: f entry_of_record_def failed_and_finished_def)
  next
    fix k en assume "dr_by_key ?d k = Some en"
    then obtain i where i: "js_id_by_key s k = Some i" "en = entry_of_record (the (js_by_id s i))" by (auto simp: f)
    with assms(3) obtain r where r: "js_by_id s i = Some r" "rec_key r = k" unfolding one_live_def by blast
    with i id [OF r(1)] show "\<exists>j. dr_jobs ?d (ent_job en) = Some j \<and> pj_key j = k"
      by (simp add: f entry_of_record_def)
  qed (simp_all add: queued_jobs_def f)
  moreover have "books_ok ?d"
  proof -
    have "map_option ent_job (dr_by_key ?d k) = js_id_by_key s k" for k
    proof (cases "js_id_by_key s k")
      case (Some i)
      with assms(3) obtain r where "js_by_id s i = Some r" unfolding one_live_def by blast
      with Some id [OF this] show ?thesis by (simp add: f entry_of_record_def)
    qed (simp add: f)
    moreover have "dom (dr_jobs ?d) = dom (js_by_id s)" by (auto simp: f dom_def)
    moreover have "ledger s (dr_jobs ?d)" using assms(2) by (auto simp: ledger_def named_def f)
    moreover have "pj_key j \<noteq> []" if "dr_jobs ?d i = Some j" for i j
      using that assms(2) by (auto simp: f named_def)
    ultimately show ?thesis by (simp add: books_ok_def f(1))
  qed
  moreover have "b \<longrightarrow> sound (dr_store ?d) (dr_disk ?d)" using assms(1) by (simp add: sound_def f)
  ultimately show ?thesis by (simp add: driver_ok_def)
qed

lemma driver_ok_books:
  assumes "driver_ok b d"
  shows "named (dr_store d) \<and> one_live (dr_store d)"
proof -
  have idx: "index_ok d" and led: "ledger (dr_store d) (dr_jobs d)" and
    dom: "dom (dr_jobs d) = dom (js_by_id (dr_store d))" and
    keys: "\<And>k. map_option ent_job (dr_by_key d k) = js_id_by_key (dr_store d) k" and
    ne: "\<And>i j. dr_jobs d i = Some j \<Longrightarrow> pj_key j \<noteq> []"
    using assms by (auto simp: driver_ok_def books_ok_def)
  have handle: "\<exists>j. dr_jobs d i = Some j \<and> pj_key j = rec_key r \<and> pj_state j = rec_state r"
    if "js_by_id (dr_store d) i = Some r" for i r
  proof -
    from that dom obtain j where j: "dr_jobs d i = Some j" by blast
    with led that show ?thesis unfolding ledger_def by fastforce
  qed
  have "named (dr_store d)" using led handle ne unfolding named_def ledger_def by metis
  moreover have "one_live (dr_store d)"
    unfolding one_live_def
  proof (intro conjI allI impI)
    fix i r assume "js_by_id (dr_store d) i = Some r"
    from handle [OF this] obtain j where j: "dr_jobs d i = Some j" "pj_key j = rec_key r" "pj_state j = rec_state r" by blast
    with idx obtain en where en: "dr_by_key d (rec_key r) = Some en" "ent_job en = i \<or> failed_and_finished i d"
      unfolding index_ok_def by metis
    then have "js_id_by_key (dr_store d) (rec_key r) = Some (ent_job en)" using keys [of "rec_key r"] by simp
    with en j show "js_id_by_key (dr_store d) (rec_key r) = Some i \<or>
        (js_id_by_key (dr_store d) (rec_key r) \<noteq> None \<and> rec_state r = JS_FailedKnown)"
      by (auto simp: failed_and_finished_def)
  next
    fix k i assume "js_id_by_key (dr_store d) k = Some i"
    with keys [of k] obtain en where en: "dr_by_key d k = Some en" "ent_job en = i" by (metis map_option_eq_Some)
    with idx obtain j where j: "dr_jobs d i = Some j" "pj_key j = k" unfolding index_ok_def by metis
    with led show "\<exists>r. js_by_id (dr_store d) i = Some r \<and> rec_key r = k" unfolding ledger_def by metis
  qed
  ultimately show ?thesis ..
qed

lemma driver_ok_restart:
  assumes "driver_ok True d" "store_open io now (js_file (dr_store d)) = (f, Inr s)"
  shows "driver_ok True (driver_open s nonce)"
proof -
  have j: "journal_ok (dr_store d)" using assms(1) by (simp add: driver_ok_def sound_def)
  from reopened [OF j store_open_Inr [OF assms(2)], of now] assms(2)
  have s: "journal_ok s" "js_order s = js_order (dr_store d)" "js_id_by_key s = js_id_by_key (dr_store d)"
    "\<And>i. js_by_id s i = map_option (recover_record (now i) \<circ> forget) (js_by_id (dr_store d) i)" by auto
  have failed: "rec_state (recover_record n (forget r)) = JS_FailedKnown" if "rec_state r = JS_FailedKnown" for n r
    using that by (simp add: recover_record_def isTerminal_def terminal_state_def)
  from driver_ok_books [OF assms(1)] have "named (dr_store d)" "one_live (dr_store d)" by auto
  have "named s" using \<open>named (dr_store d)\<close> s(1,4) by (auto simp: named_def journal_ok_def)
  moreover have "one_live s"
    unfolding one_live_def s(3)
  proof (intro conjI allI impI)
    fix i r assume "js_by_id s i = Some r"
    then obtain r0 where r0: "js_by_id (dr_store d) i = Some r0" "r = recover_record (now i) (forget r0)"
      by (auto simp: s(4))
    with \<open>one_live (dr_store d)\<close> failed [of r0 "now i"]
    show "js_id_by_key (dr_store d) (rec_key r) = Some i \<or>
        (js_id_by_key (dr_store d) (rec_key r) \<noteq> None \<and> rec_state r = JS_FailedKnown)"
      unfolding one_live_def by fastforce
  next
    fix k i assume "js_id_by_key (dr_store d) k = Some i"
    with \<open>one_live (dr_store d)\<close> obtain r0 where "js_by_id (dr_store d) i = Some r0" "rec_key r0 = k"
      unfolding one_live_def by blast
    then show "\<exists>r. js_by_id s i = Some r \<and> rec_key r = k" by (simp add: s(4))
  qed
  ultimately show ?thesis using driver_ok_opened s(1) by blast
qed

section \<open>Runs\<close>

text \<open>
  The calls of an application that asks for no reprint, the turns of the workers, what the
  devices send, and a printer or a registration added; then, apart, a reservation that is
  released, which happens once.
\<close>

inductive app_step :: "driver \<Rightarrow> driver \<Rightarrow> bool" where
  step_print: "fresh_auto auto_id d \<Longrightarrow> app_step d (snd (print auto_id i pid payload options d))"
| step_reserve: "fresh_auto auto_id d \<Longrightarrow> app_step d (snd (reserve auto_id i pid key kind n d))"
| step_request: "task_job t = [] \<Longrightarrow> app_step d (request pid t d)"
| step_turn: "worker_turn pid d = (Next u, d') \<Longrightarrow> app_step d d'"
| step_stop: "app_step d (snd (stop_printer pid d))"
| step_arrive: "app_step d (snd (on_worker pid (change (arrive a)) d))"
| step_outside: "app_step d (snd (on_worker pid (change (\<lambda>e. e\<lparr>en_turns := ts\<rparr>)) d))"
| step_printer: "app_step d (addPrinter pid e d)"
| step_register: "app_step d (d\<lparr>dr_registrations := regs\<rparr>)"

inductive driver_step :: "driver \<Rightarrow> driver \<Rightarrow> bool" where
  step_app: "app_step d d' \<Longrightarrow> driver_step d d'"
| step_release: "i \<notin> set (queued_jobs d) \<Longrightarrow> driver_step d (snd (submitReserved pid i payload options d))"

text \<open>
  A run from an empty directory, or in memory. The flag stays while no append fails; then a
  run may end at any point and a new driver start on the journal it left.
\<close>

inductive driver_run :: "bool \<Rightarrow> driver \<Rightarrow> bool" where
  run_start: "store_open io now [] = (f, Inr s) \<Longrightarrow> driver_run True (driver_open s nonce)"
| run_memory: "driver_run False (driver_open store_in_memory nonce)"
| run_step: "driver_run b d \<Longrightarrow> driver_step d d' \<Longrightarrow> driver_run b d'"
| run_disk: "driver_run b d \<Longrightarrow>
    driver_run (b \<and> list_all (\<lambda>x. fst x = AppendOk) disk) (d\<lparr>dr_disk := disk\<rparr>)"
| run_restart: "driver_run True d \<Longrightarrow> store_open io now (js_file (dr_store d)) = (f, Inr s) \<Longrightarrow>
    driver_run True (driver_open s nonce)"

lemma same_view:
  assumes "driver_ok b d" "dr_store d' = dr_store d" "dr_jobs d' = dr_jobs d" "dr_by_key d' = dr_by_key d"
    "dr_printers d' = dr_printers d" "b' \<longrightarrow> sound (dr_store d) (dr_disk d')"
  shows "driver_ok b' d'"
  using assms by (simp add: driver_ok_def index_ok_def books_ok_def failed_and_finished_def known_def queued_jobs_def)

lemma driver_ok_app_step: "app_step d d' \<Longrightarrow> driver_ok b d \<Longrightarrow> driver_ok b d'"
proof (induction rule: app_step.induct)
  case (step_print auto_id d i pid payload options)
  then show ?case by (metis driver_ok_print prod.collapse)
next
  case (step_reserve auto_id d i pid key kind n)
  then show ?case by (metis driver_ok_reserve prod.collapse)
next
  case (step_request t d pid)
  then show ?case by (simp add: driver_ok_request)
next
  case (step_turn pid d u d')
  then show ?case by (metis driver_ok_worker_turn)
next
  case (step_stop d pid)
  then show ?case by (metis driver_ok_stop prod.collapse)
next
  case (step_arrive d pid a)
  from step_arrive arrive_frame show ?case by (metis driver_ok_silent prod.collapse)
next
  case (step_outside d pid ts)
  have "same_books e (e\<lparr>en_turns := ts\<rparr>)" for e by (rule same_books_eq) simp_all
  with step_outside show ?case
    using driver_ok_silent [of b d "\<lambda>e. e\<lparr>en_turns := ts\<rparr>" pid] by (metis prod.collapse)
next
  case (step_printer d pid e)
  then show ?case by (simp add: driver_ok_addPrinter)
next
  case (step_register d regs)
  then show ?case by (rule same_view) (use step_register in \<open>simp_all add: driver_ok_def\<close>)
qed

lemma driver_ok_step: "driver_step d d' \<Longrightarrow> driver_ok b d \<Longrightarrow> driver_ok b d'"
proof (induction rule: driver_step.induct)
  case (step_app d d')
  then show ?case by (rule driver_ok_app_step)
next
  case (step_release i d pid payload options)
  then show ?case by (metis driver_ok_submitReserved prod.collapse)
qed

lemma empty_store_ok: "js_by_id s = Map.empty \<Longrightarrow> table_ok s \<Longrightarrow> named s \<and> one_live s"
  by (auto simp: named_def one_live_def table_ok_def keys_of_def)

lemma driver_ok_run: "driver_run b d \<Longrightarrow> driver_ok b d"
proof (induction rule: driver_run.induct)
  case (run_start io now f s nonce)
  from store_open_ok [OF store_open_Inr [OF run_start], of now "[]"] run_start
  have "journal_ok s" "js_by_id s = Map.empty"
    by (auto simp: replay_def readJournal_def read_lines_def blank_store_def fun_eq_iff)
  then show ?case using driver_ok_opened [of True s nonce] empty_store_ok by (auto simp: journal_ok_def)
next
  case (run_memory nonce)
  have "named store_in_memory \<and> one_live store_in_memory"
    by (rule empty_store_ok) (simp_all add: store_in_memory_def blank_store_def table_ok_def keys_of_def)
  then show ?case using driver_ok_opened [of False store_in_memory nonce] by simp
next
  case (run_step b d d')
  then show ?case by (simp add: driver_ok_step)
next
  case (run_disk b d disk)
  then show ?case by (intro same_view [OF run_disk.IH]) (simp_all add: driver_ok_def sound_def)
next
  case (run_restart d io now f s nonce)
  then show ?case by (simp add: driver_ok_restart)
qed



section \<open>Stopping\<close>

lemma terminate_succeeds:
  assumes "en_jobs e i = Some j" "js_by_id (en_store e) i \<noteq> None" "list_all (\<lambda>x. fst x = AppendOk) (en_disk e)"
  shows "\<exists>e' es. terminate_job i s res e = (Next (), e') \<and>
    en_jobs e' = (en_jobs e)(i \<mapsto> job_finish res (job_emit (make_event s (jr_confidence res)
      (if jr_reason res = FR_None then None else Some (jr_reason res))) j)) \<and>
    dom (js_by_id (en_store e')) = dom (js_by_id (en_store e)) \<and>
    list_all (\<lambda>x. fst x = AppendOk) (en_disk e') \<and> en_link e' = en_link e \<and>
    en_log e' = en_log e @ es \<and> (\<forall>bs. Wrote bs \<notin> set es)"
proof -
  obtain io now e1 where d: "take_disk e = ((io, now), e1)" by (metis prod.collapse)
  then have l: "en_jobs e1 = en_jobs e" "en_store e1 = en_store e" "en_log e1 = en_log e" "io = AppendOk" "en_link e1 = en_link e"
    "list_all (\<lambda>x. fst x = AppendOk) (en_disk e1)"
    using assms(3) by (auto simp: take_disk_def split: list.splits)
  let ?ev = "result_evidence res"
  obtain st err where st: "recordState AppendOk now i s (jr_confidence res) (jr_reason res) ?ev (en_store e) = (st, err)"
    by fastforce
  have "err = None"
    using st assms(2) by (auto simp: recordState_def store_append_def split: option.splits if_splits)
  with d st l assms(1) recordState_effect(1) [OF st] show ?thesis
    by (simp add: terminate_job_def run_then_def advance_def change_def log_effect_def on_job_def Let_def)
qed

lemma cancel_all_succeeds:
  assumes "\<forall>i \<in> set (concat (map task_job ts)). en_jobs e i \<noteq> None \<and> js_by_id (en_store e) i \<noteq> None"
    "list_all (\<lambda>x. fst x = AppendOk) (en_disk e)" "distinct (concat (map task_job ts))"
  shows "\<exists>e' es. cancel_all ts e = (Next (), e') \<and>
    (\<forall>i. i \<notin> set (concat (map task_job ts)) \<longrightarrow> en_jobs e' i = en_jobs e i) \<and>
    (\<forall>i \<in> set (concat (map task_job ts)).
       \<exists>j. en_jobs e' i = Some j \<and> pj_terminal j \<and> pj_state j = JS_FailedKnown) \<and>
    en_link e' = en_link e \<and> en_log e' = en_log e @ es \<and> (\<forall>bs. Wrote bs \<notin> set es)"
  using assms
proof (induction ts arbitrary: e)
  case Nil
  then show ?case by (simp add: skip_def)
next
  case (Cons t ts)
  show ?case
  proof (cases t)
    case (JobTask i payload options attempt banner)
    let ?res = "result_failed FR_Unknown CL_TransportAccepted"
    from Cons.prems JobTask obtain j where j: "en_jobs e i = Some j" "js_by_id (en_store e) i \<noteq> None" by auto
    from terminate_succeeds [OF j Cons.prems(2), of JS_FailedKnown ?res] obtain e1 es1 where
      t: "terminate_job i JS_FailedKnown ?res e = (Next (), e1)" and
      jobs: "en_jobs e1 = (en_jobs e)(i \<mapsto> job_finish ?res (job_emit (make_event JS_FailedKnown (jr_confidence ?res)
        (if jr_reason ?res = FR_None then None else Some (jr_reason ?res))) j))" and
      dom: "dom (js_by_id (en_store e1)) = dom (js_by_id (en_store e))" and
      disk: "list_all (\<lambda>x. fst x = AppendOk) (en_disk e1)" and link: "en_link e1 = en_link e" and
      lg: "en_log e1 = en_log e @ es1" "\<forall>bs. Wrote bs \<notin> set es1" by blast
    have "\<forall>a \<in> set (concat (map task_job ts)). en_jobs e1 a \<noteq> None \<and> js_by_id (en_store e1) a \<noteq> None"
      using Cons.prems(1) jobs dom by (auto simp: dom_def)
    moreover have "distinct (concat (map task_job ts))" and i: "i \<notin> set (concat (map task_job ts))"
      using Cons.prems(3) JobTask by auto
    ultimately obtain e2 es2 where e2: "cancel_all ts e1 = (Next (), e2)"
      "\<forall>a. a \<notin> set (concat (map task_job ts)) \<longrightarrow> en_jobs e2 a = en_jobs e1 a"
      "\<forall>a \<in> set (concat (map task_job ts)). \<exists>j. en_jobs e2 a = Some j \<and> pj_terminal j \<and> pj_state j = JS_FailedKnown"
      "en_link e2 = en_link e1" "en_log e2 = en_log e1 @ es2" "\<forall>bs. Wrote bs \<notin> set es2"
      using Cons.IH [of e1] disk by blast
    have "pj_terminal (job_finish ?res j') \<and> pj_state (job_finish ?res (job_emit (make_event JS_FailedKnown c x) j'')) = JS_FailedKnown"
      for j' j'' c x by (simp add: job_finish_def job_emit_def make_event_def)
    with e2 jobs i have "\<exists>j. en_jobs e2 i = Some j \<and> pj_terminal j \<and> pj_state j = JS_FailedKnown" by simp
    with e2 t jobs lg link JobTask show ?thesis
      by (intro exI [of _ e2] exI [of _ "es1 @ es2"]) (simp add: cancel_task_def run_then_def)
  qed (use Cons.IH [of e] Cons.prems in \<open>simp_all add: cancel_task_def run_then_def skip_def\<close>)
qed

text \<open>
  C29: a stop settles every job that waits. Stopping a printer cancels all its queued jobs:
  each ends as a known failure, the queue is empty afterwards, and no byte is sent for them.
\<close>

theorem stop_settles_the_queue:
  assumes "driver_run b d" "find_printer pid d = Some w" "\<not> wk_stopped w"
    "list_all (\<lambda>x. fst x = AppendOk) (dr_disk d)"
  shows "\<exists>d' w' es. stop_printer pid d = (Next (), d') \<and>
    (\<forall>i \<in> set (queued_on w). failed_and_finished i d') \<and>
    find_printer pid d' = Some w' \<and> wk_tasks w' = [] \<and> stopping pid d' \<and>
    dr_log d' = dr_log d @ es \<and> (\<forall>bs. Wrote bs \<notin> set es)"
proof -
  have ok: "driver_ok b d" by (rule driver_ok_run [OF assms(1)])
  from queued_put [OF assms(2)] obtain a c where q: "queued_jobs d = a @ queued_on w @ c" by metis
  let ?w = "w\<lparr>wk_stopped := True, wk_tasks := [],
        wk_engine := on_link (\<lambda>lk. lk\<lparr>lk_stopping := True\<rparr>) (wk_engine w)\<rparr>"
  let ?d = "put_worker pid ?w d"
  let ?e = "enter ?d ?w"
  have jobs: "concat (map task_job (wk_tasks w)) = queued_on w" by (simp add: queued_on_def)
  have e: "en_jobs ?e = dr_jobs d" "en_store ?e = dr_store d" "en_disk ?e = dr_disk d" "en_log ?e = dr_log d"
    by (simp_all add: enter_def)
  have "distinct (queued_on w)" "\<forall>i \<in> set (queued_on w). dr_jobs d i \<noteq> None"
    using ok q by (auto simp: driver_ok_def index_ok_def known_def)
  moreover have "dom (dr_jobs d) = dom (js_by_id (dr_store d))" using ok by (simp add: driver_ok_def books_ok_def)
  ultimately have "\<forall>i \<in> set (queued_on w). en_jobs ?e i \<noteq> None \<and> js_by_id (en_store ?e) i \<noteq> None"
    unfolding e by (metis domIff)
  with cancel_all_succeeds [of "wk_tasks w" ?e] assms(4) \<open>distinct (queued_on w)\<close>
  obtain e' es where e': "cancel_all (wk_tasks w) ?e = (Next (), e')"
    "\<forall>i \<in> set (queued_on w). \<exists>j. en_jobs e' i = Some j \<and> pj_terminal j \<and> pj_state j = JS_FailedKnown"
    "en_link e' = en_link ?e" "en_log e' = en_log ?e @ es" "\<forall>bs. Wrote bs \<notin> set es" unfolding jobs e by metis
  let ?w' = "?w\<lparr>wk_engine := closeTransport e'\<rparr>"
  have stop: "stop_printer pid d = (Next (), put_worker pid ?w' (leave (closeTransport e') ?d))"
    using assms(2,3) e'(1) find_put [OF assms(2)]
    by (simp add: stop_printer_def Let_def on_worker_def run_then_def change_def)
  let ?d' = "put_worker pid ?w' (leave (closeTransport e') ?d)"
  have find: "find_printer pid ?d' = Some ?w'"
    by (rule find_put [of _ _ ?w]) (use find_put [OF assms(2)] in \<open>simp add: find_printer_def leave_def\<close>)
  have jobs': "dr_jobs ?d' = en_jobs e'" and "dr_log ?d' = en_log e'"
    by (simp_all add: leave_def closeTransport_def on_link_def)
  moreover from e'(2) jobs' have "\<forall>i \<in> set (queued_on w). failed_and_finished i ?d'"
    by (auto simp: failed_and_finished_def)
  moreover have "stopping pid ?d'"
    unfolding stopping_def find by (simp add: closeTransport_def on_link_def e'(3) enter_def)
  ultimately show ?thesis
    using stop find e'(4,5) by (intro exI [of _ ?d'] exI [of _ ?w'] exI [of _ es]) (simp add: e)
qed

section \<open>A run\<close>

text \<open>
  A key queued on a printer; then either that printer is stopped and the key printed again on
  a second one, or its worker prints it, and nothing answers its fence.
\<close>

definition demo_printer :: engine where
  "demo_printer =
     \<lparr>en_profile = generic_escpos, en_width_dots = 576, en_printer_id = [], en_link = new_link,
      en_transport = False, en_had_connection = False, en_store = fresh_store,
      en_markers = new_allocator ''AB'', en_registrations = no_registrations, en_jobs = Map.empty,
      en_by_token = (\<lambda>t. []), en_turns = [], en_disk = [], en_log = []\<rparr>"

definition demo_print :: "string \<Rightarrow> string \<Rightarrow> driver \<Rightarrow> driver" where
  "demo_print i pid d = snd (print ''x'' i pid (RawPayload [0x41]) (default_options\<lparr>op_key := ''k''\<rparr>) d)"

definition demo_ready :: driver where
  "demo_ready = addPrinter ''p'' demo_printer (driver_open fresh_store ''AB'')"

definition demo_queued :: driver where
  "demo_queued = demo_print ''j'' ''p'' demo_ready"

definition demo_moved :: driver where
  "demo_moved = addPrinter ''q'' demo_printer (snd (stop_printer ''p'' demo_queued))"

definition demo_again :: driver where
  "demo_again = demo_print ''i'' ''q'' demo_moved"

definition demo_printed :: driver where
  "demo_printed = snd (worker_turn ''p'' demo_queued)"

lemma demo_values:
  "map_option pj_key (dr_jobs demo_again ''j'') = Some ''k'' \<and>
   map_option pj_key (dr_jobs demo_again ''i'') = Some ''k'' \<and>
   map_option queued_on (find_printer ''p'' demo_queued) = Some [''j''] \<and>
   map_option wk_stopped (find_printer ''p'' demo_queued) = Some False \<and> dr_disk demo_queued = [] \<and>
   fresh_auto ''x'' demo_ready \<and> fresh_auto ''x'' demo_moved"
  by code_simp

lemma demo_state:
  "(case worker_turn ''p'' demo_queued of (f, d) \<Rightarrow>
     f = Next () \<and> findJob ''k'' d = Some ''j'' \<and> map_option pj_state (dr_jobs d ''j'') = Some JS_Unknown)"
  by code_simp

lemma demo_printed:
  "worker_turn ''p'' demo_queued = (Next (), demo_printed)" "findJob ''k'' demo_printed = Some ''j''"
  "map_option pj_state (dr_jobs demo_printed ''j'') = Some JS_Unknown"
  using demo_state by (auto simp: demo_printed_def split: prod.splits)

lemma demo_runs: "driver_run True demo_queued" "driver_run True demo_again" "driver_run True demo_printed"
proof -
  have "driver_run True (driver_open fresh_store ''AB'')" by (rule run_start [OF open_fresh])
  then have "driver_run True demo_ready" unfolding demo_ready_def by (rule run_step [OF _ step_app [OF step_printer]])
  moreover have "fresh_auto ''x'' demo_ready" "fresh_auto ''x'' demo_moved" using demo_values by blast+
  ultimately show q: "driver_run True demo_queued"
    unfolding demo_queued_def demo_print_def by (blast intro: run_step step_app step_print)
  then have "driver_run True demo_moved"
    unfolding demo_moved_def by (blast intro: run_step step_app step_stop step_printer)
  with \<open>fresh_auto ''x'' demo_moved\<close> show "driver_run True demo_again"
    unfolding demo_again_def demo_print_def by (blast intro: run_step step_app step_print)
  show "driver_run True demo_printed" by (rule run_step [OF q step_app [OF step_turn [OF demo_printed(1)]]])
qed



theorem stop_settles_the_queue_witness:
  "\<exists>d'. stop_printer ''p'' demo_queued = (Next (), d') \<and> failed_and_finished ''j'' d'"
proof -
  obtain w where "find_printer ''p'' demo_queued = Some w" "queued_on w = [''j'']" "\<not> wk_stopped w"
    using demo_values by auto
  with stop_settles_the_queue [OF demo_runs(1) this(1)] show ?thesis by (auto simp: demo_values)
qed

end
