(* ===== verification/Job_Notices.thy ===== *)
theory Job_Notices imports
  Job_Protocol
  Driver_Runs
begin

text \<open>
  What a subscriber to a job hears: exactly one terminal event, when the job's handle becomes
  terminal, with the state the handle keeps, and none later. The law is proved for every call
  of the driver and every turn of a worker.
\<close>

section \<open>Terminal events\<close>

fun farewells :: "string \<Rightarrow> effect list \<Rightarrow> job_state list" where
  "farewells i [] = []"
| "farewells i (Published j ev # es) =
     (if j = i \<and> terminal_state (je_state ev) then je_state ev # farewells i es else farewells i es)"
| "farewells i (x # es) = farewells i es"

lemma farewells_append [simp]: "farewells i (u @ v) = farewells i u @ farewells i v"
proof (induction u)
  case (Cons x u)
  then show ?case by (cases x) simp_all
qed simp

lemma farewells_silent: "speaks S es \<Longrightarrow> i \<notin> S \<Longrightarrow> farewells i es = []"
proof (induction es)
  case (Cons x es)
  then show ?case by (cases x) (auto simp: speaks_def)
qed simp

text \<open>The job is told its end once, with the state it keeps.\<close>

definition fair :: "(string \<rightharpoonup> print_job) \<Rightarrow> effect list \<Rightarrow> (string \<rightharpoonup> print_job) \<Rightarrow> bool" where
  "fair jobs es jobs' \<longleftrightarrow>
     (\<forall>i j. jobs i = Some j \<longrightarrow>
        (\<exists>j'. jobs' i = Some j' \<and>
           farewells i es = (if \<not> pj_terminal j \<and> pj_terminal j' then [pj_state j'] else []) \<and>
           (pj_terminal j \<longrightarrow> pj_terminal j' \<and> pj_state j' = pj_state j)))"

lemma fair_trans:
  assumes "fair a u b" "fair b v c"
  shows "fair a (u @ v) c"
  unfolding fair_def
proof (intro allI impI)
  fix i j assume "a i = Some j"
  with assms(1) obtain j1 where j1: "b i = Some j1"
    "farewells i u = (if \<not> pj_terminal j \<and> pj_terminal j1 then [pj_state j1] else [])"
    "pj_terminal j \<longrightarrow> pj_terminal j1 \<and> pj_state j1 = pj_state j" unfolding fair_def by blast
  with assms(2) obtain j2 where j2: "c i = Some j2"
    "farewells i v = (if \<not> pj_terminal j1 \<and> pj_terminal j2 then [pj_state j2] else [])"
    "pj_terminal j1 \<longrightarrow> pj_terminal j2 \<and> pj_state j2 = pj_state j1" unfolding fair_def by blast
  from j1 j2 show "\<exists>j'. c i = Some j' \<and>
      farewells i (u @ v) = (if \<not> pj_terminal j \<and> pj_terminal j' then [pj_state j'] else []) \<and>
      (pj_terminal j \<longrightarrow> pj_terminal j' \<and> pj_state j' = pj_state j)"
    by (intro exI [of _ j2]) auto
qed

lemma fair_same: "speaks {} es \<Longrightarrow> fair jobs es jobs"
  by (auto simp: fair_def farewells_silent)

lemma fair_nil [simp]: "fair jobs [] jobs"
  by (simp add: fair_same)

text \<open>A phase of the engine, run where the jobs of \<^theory_text>\<open>S\<close> are still open.\<close>

definition tells :: "string set \<Rightarrow> 'a phase \<Rightarrow> bool" where
  "tells S m \<longleftrightarrow>
     (\<forall>e f e'. m e = (f, e') \<longrightarrow> (\<forall>i j. i \<in> S \<longrightarrow> en_jobs e i = Some j \<longrightarrow> \<not> pj_terminal j) \<longrightarrow>
        (\<exists>es. en_log e' = en_log e @ es \<and> fair (en_jobs e) es (en_jobs e')))"

lemma tellsD:
  assumes "tells S m" "m e = (f, e')" "\<And>i j. i \<in> S \<Longrightarrow> en_jobs e i = Some j \<Longrightarrow> \<not> pj_terminal j"
  obtains es where "en_log e' = en_log e @ es" "fair (en_jobs e) es (en_jobs e')"
  using assms unfolding tells_def by blast

lemma frame_fair:
  assumes "frame S e e'"
    "\<And>es i j. en_log e' = en_log e @ es \<Longrightarrow> i \<in> S \<Longrightarrow> en_jobs e i = Some j \<Longrightarrow>
      \<exists>j'. en_jobs e' i = Some j' \<and>
           farewells i es = (if \<not> pj_terminal j \<and> pj_terminal j' then [pj_state j'] else []) \<and>
           (pj_terminal j \<longrightarrow> pj_terminal j' \<and> pj_state j' = pj_state j)"
  shows "\<exists>es. en_log e' = en_log e @ es \<and> fair (en_jobs e) es (en_jobs e')"
proof -
  from assms(1) obtain es where es: "en_log e' = en_log e @ es" "speaks S es"
    and out: "\<forall>j. j \<notin> S \<longrightarrow> en_jobs e' j = en_jobs e j" unfolding frame_def by blast
  have "fair (en_jobs e) es (en_jobs e')"
    unfolding fair_def
  proof (intro allI impI)
    fix i j assume j: "en_jobs e i = Some j"
    show "\<exists>j'. en_jobs e' i = Some j' \<and>
           farewells i es = (if \<not> pj_terminal j \<and> pj_terminal j' then [pj_state j'] else []) \<and>
           (pj_terminal j \<longrightarrow> pj_terminal j' \<and> pj_state j' = pj_state j)"
    proof (cases "i \<in> S")
      case False
      with j out farewells_silent [OF es(2) False] show ?thesis by simp
    qed (rule assms(2) [OF es(1) _ j])
  qed
  with es(1) show ?thesis by blast
qed

lemma tells_quiet: "confined {} m \<Longrightarrow> tells S m"
  unfolding tells_def
proof (intro allI impI)
  fix e f e' assume m: "confined {} m" "m e = (f, e')"
  then have "frame {} e e'" unfolding confined_def by (metis snd_conv)
  then show "\<exists>es. en_log e' = en_log e @ es \<and> fair (en_jobs e) es (en_jobs e')"
    by (rule frame_fair) simp
qed

lemma advance_effects:
  assumes "advance i s c r ev e = (f, e')"
  shows "(\<exists>msg. f = Raised msg \<and> en_log e' = en_log e \<and> en_jobs e' = en_jobs e) \<or>
    (f = Next () \<and>
     (let x = make_event s c (if r = FR_None then None else Some r)
      in en_log e' = en_log e @ [Journaled i s c r, Published i x] \<and>
         en_jobs e' = (en_jobs e)(i := map_option (job_emit x) (en_jobs e i))))"
proof -
  obtain io now e1 where d: "take_disk e = ((io, now), e1)" by (metis prod.collapse)
  then have l: "en_jobs e1 = en_jobs e" "en_log e1 = en_log e" by (auto simp: take_disk_def split: list.splits)
  obtain st err where st: "recordState io now i s c r ev (en_store e1) = (st, err)" by fastforce
  show ?thesis
  proof (cases err)
    case None
    with assms d st l show ?thesis by (auto simp: advance_def log_effect_def on_job_def Let_def)
  next
    case (Some m)
    with assms d st l show ?thesis by (cases m) (auto simp: advance_def)
  qed
qed

lemma job_emit_simps [simp]:
  "pj_state (job_emit ev j) = je_state ev" "pj_terminal (job_emit ev j) = pj_terminal j"
  "pj_state (job_finish r j) = pj_state j" "pj_terminal (job_finish r j)"
  "je_state (make_event s c x) = s"
  by (simp_all add: job_emit_def job_finish_def make_event_def)

lemma tells_advance: "\<not> terminal_state s \<Longrightarrow> tells {i} (advance i s c r ev)"
  unfolding tells_def
proof (intro allI impI)
  fix e f e' assume "\<not> terminal_state s" and m: "advance i s c r ev e = (f, e')"
    and live: "\<forall>k j. k \<in> {i} \<longrightarrow> en_jobs e k = Some j \<longrightarrow> \<not> pj_terminal j"
  then show "\<exists>es. en_log e' = en_log e @ es \<and> fair (en_jobs e) es (en_jobs e')"
    using advance_effects [OF m] by (fastforce simp: Let_def fair_def)
qed

lemma terminate_effects:
  assumes "terminate_job i s r e = (f, e')" "terminal_state s"
    "\<And>j. en_jobs e i = Some j \<Longrightarrow> \<not> pj_terminal j"
  shows "\<exists>es. en_log e' = en_log e @ es \<and> fair (en_jobs e) es (en_jobs e')"
proof -
  obtain g e1 where a: "advance i s (jr_confidence r) (jr_reason r) (result_evidence r) e = (g, e1)" by fastforce
  from advance_effects [OF a] show ?thesis
  proof
    assume "\<exists>msg. g = Raised msg \<and> en_log e1 = en_log e \<and> en_jobs e1 = en_jobs e"
    with assms a show ?thesis by (auto simp: terminate_job_def run_then_def)
  next
    let ?x = "make_event s (jr_confidence r) (if jr_reason r = FR_None then None else Some (jr_reason r))"
    assume g: "g = Next () \<and> (let x = make_event s (jr_confidence r) (if jr_reason r = FR_None then None else Some (jr_reason r))
      in en_log e1 = en_log e @ [Journaled i s (jr_confidence r) (jr_reason r), Published i x] \<and>
         en_jobs e1 = (en_jobs e)(i := map_option (job_emit x) (en_jobs e i)))"
    then have "en_log e' = en_log e @ [Journaled i s (jr_confidence r) (jr_reason r), Published i ?x, Finished i r]"
      "en_jobs e' = (en_jobs e)(i := map_option (job_finish r \<circ> job_emit ?x) (en_jobs e i))"
      using assms(1) a
      by (auto simp: terminate_job_def run_then_def change_def log_effect_def on_job_def Let_def option.map_comp)
    then show ?thesis
      using assms(2,3)
      by (intro exI [of _ "[Journaled i s (jr_confidence r) (jr_reason r), Published i ?x, Finished i r]"])
        (auto simp: fair_def)
  qed
qed

lemma tells_terminate: "terminal_state s \<Longrightarrow> tells {i} (terminate_job i s r)"
  unfolding tells_def by (blast intro: terminate_effects)

lemma tells_cancel_all: "distinct (concat (map task_job ts)) \<Longrightarrow> tells (set (concat (map task_job ts))) (cancel_all ts)"
proof (induction ts)
  case Nil
  show ?case by (simp add: tells_quiet confined_simple)
next
  case (Cons t ts)
  show ?case
    unfolding tells_def
  proof (intro allI impI)
    fix e f e' assume run: "cancel_all (t # ts) e = (f, e')"
      and live: "\<forall>i j. i \<in> set (concat (map task_job (t # ts))) \<longrightarrow> en_jobs e i = Some j \<longrightarrow> \<not> pj_terminal j"
    obtain g e1 where t: "cancel_task t e = (g, e1)" by fastforce
    have tell: "tells (set (task_job t)) (cancel_task t)"
      by (cases t) (auto simp: cancel_task_def terminal_state_def tells_terminate tells_quiet confined_simple)
    obtain u where u: "en_log e1 = en_log e @ u" "fair (en_jobs e) u (en_jobs e1)"
      by (rule tellsD [OF tell t]) (use live in auto)
    have fr: "frame (set (task_job t)) e e1"
      using confined_cancel_all [of "[t]" "set (task_job t)"] t
      by (cases g) (auto simp: confined_def run_then_def skip_def split_beta dest!: spec [of _ e])
    show "\<exists>es. en_log e' = en_log e @ es \<and> fair (en_jobs e) es (en_jobs e')"
    proof (cases g)
      case (Next v)
      with run t have rest: "cancel_all ts e1 = (f, e')" by (simp add: run_then_def)
      have open_jobs: "\<not> pj_terminal j" if i: "i \<in> set (concat (map task_job ts))" "en_jobs e1 i = Some j" for i j
      proof -
        from i Cons.prems have "i \<notin> set (task_job t)" by auto
        with fr i(2) have "en_jobs e i = Some j" unfolding frame_def by simp
        with live i(1) show "\<not> pj_terminal j" by simp
      qed
      have rest_tells: "tells (set (concat (map task_job ts))) (cancel_all ts)" using Cons by simp
      obtain v where "en_log e' = en_log e1 @ v" "fair (en_jobs e1) v (en_jobs e')"
        by (rule tellsD [OF rest_tells rest open_jobs])
      with u show ?thesis by (intro exI [of _ "u @ v"]) (auto intro: fair_trans)
    qed (use run t u in \<open>auto simp: run_then_def\<close>)
  qed
qed

section \<open>A job's run\<close>

text \<open>What a word of the protocol says about the events of its job.\<close>

definition heard :: "job_run \<Rightarrow> effect list \<Rightarrow> protocol \<Rightarrow> bool" where
  "heard x w p \<longleftrightarrow>
     farewells (jx_id x) w = (if terminal_state (pr_state p) \<and> pr_pending p = None then [pr_state p] else []) \<and>
     (\<forall>ev. pr_pending p = Some ev \<longrightarrow> je_state ev = pr_state p \<and> pr_result p = None) \<and>
     (pr_pending p = None \<and> pr_state p \<noteq> JS_Queued \<longrightarrow> (\<forall>s. spoken (jx_id x) w s = pr_state p)) \<and>
     (pr_result p \<noteq> None \<longrightarrow> terminal_state (pr_state p) \<and> ends (jx_id x) w) \<and>
     (pr_result p = None \<longrightarrow> \<not> ends (jx_id x) w)"

lemma terminal_is_final: "terminal_state s \<Longrightarrow> may_enter s' r sent s \<Longrightarrow> False"
  by (cases s'; cases s) (auto simp: terminal_state_def)

lemma never_queued: "may_enter s r sent s' \<Longrightarrow> s \<noteq> JS_Queued"
  by auto

lemma heard_step:
  assumes "heard x w p" "protocol_step x ef p = Some q"
  shows "heard x (w @ [ef]) q"
proof (cases ef)
  case (Journaled i s c r)
  with assms terminal_is_final [of "pr_state p" s r "pr_sent p"] never_queued [of s r "pr_sent p" "pr_state p"]
  show ?thesis by (auto simp: heard_def make_event_def split: if_splits)
next
  case (Published i ev)
  with assms show ?thesis by (auto simp: heard_def split: if_splits)
next
  case (Finished i r)
  with assms show ?thesis
    by (cases "jr_outcome r") (auto simp: heard_def terminal_state_def split: if_splits)
qed (use assms in \<open>auto simp: heard_def split: if_splits\<close>)

lemma heard_word: "protocol_run x w protocol_start = Some p \<Longrightarrow> heard x w p"
proof (induction w arbitrary: p rule: rev_induct)
  case Nil
  then show ?case by (auto simp: heard_def protocol_start_def terminal_state_def)
next
  case (snoc ef w)
  then obtain q where "protocol_run x w protocol_start = Some q" "protocol_step x ef q = Some p"
    by (auto simp: protocol_run_append split: option.splits)
  with snoc.IH heard_step show ?case by blast
qed

lemma runJob_tells:
  assumes "runJob i key payload options attempt banner e = (f, e')" "\<forall>msg. f \<noteq> Raised msg"
    "\<And>j. en_jobs e i = Some j \<Longrightarrow> \<not> pj_terminal j"
  shows "\<exists>es. en_log e' = en_log e @ es \<and> fair (en_jobs e) es (en_jobs e') \<and> ends i es"
proof -
  let ?x = "run_of i key options e"
  obtain w p where w: "en_log e' = en_log e @ w" "protocol_run ?x w protocol_start = Some p"
    "f = Returned \<and> pr_result p \<noteq> None \<or> (\<exists>msg. f = Raised msg)"
    using runJob_word [OF assms(1)] by metis
  then have res: "pr_result p \<noteq> None" using assms(2) by blast
  have id: "jx_id ?x = i" by (simp add: run_of_def)
  from heard_word [OF w(2)] res have h: "terminal_state (pr_state p)" "ends i w" "pr_pending p = None"
    "farewells i w = [pr_state p]" "\<forall>s. spoken i w s = pr_state p"
    unfolding heard_def id by (auto simp: terminal_state_def)
  have fr: "frame {i} e e'"
    using confined_runJob [of i "{i}" key payload options attempt banner] assms(1)
    unfolding confined_def by (metis insertI1 snd_conv)
  then obtain es where es: "en_log e' = en_log e @ es" 
    "map_option pj_terminal (en_jobs e' i) = map_option (\<lambda>h. pj_terminal h \<or> ends i es) (en_jobs e i)"
    "map_option pj_state (en_jobs e' i) = map_option (\<lambda>h. spoken i es (pj_state h)) (en_jobs e i)"
    unfolding frame_def by blast
  then have [simp]: "es = w" using w(1) by simp
  from fr have "\<exists>es. en_log e' = en_log e @ es \<and> fair (en_jobs e) es (en_jobs e')"
  proof (rule frame_fair)
    fix u k j assume u: "en_log e' = en_log e @ u" and "k \<in> {i}" and j: "en_jobs e k = Some j"
    then have "u = w" "k = i" using w(1) by simp_all
    with j assms(3) es h show "\<exists>j'. en_jobs e' k = Some j' \<and>
           farewells k u = (if \<not> pj_terminal j \<and> pj_terminal j' then [pj_state j'] else []) \<and>
           (pj_terminal j \<longrightarrow> pj_terminal j' \<and> pj_state j' = pj_state j)" by auto
  qed
  with w(1) h(2) show ?thesis by auto
qed

section \<open>The driver\<close>

text \<open>A step of the driver that tells every job's end once.\<close>

definition balanced :: "driver \<Rightarrow> driver \<Rightarrow> bool" where
  "balanced d d' \<longleftrightarrow> (\<exists>es. dr_log d' = dr_log d @ es \<and> fair (dr_jobs d) es (dr_jobs d'))"

lemma balanced_trans [trans]: "balanced a b \<Longrightarrow> balanced b c \<Longrightarrow> balanced a c"
  unfolding balanced_def by (metis append.assoc fair_trans)

lemma balanced_same: "dr_jobs d' = dr_jobs d \<Longrightarrow> dr_log d' = dr_log d \<Longrightarrow> balanced d d'"
  unfolding balanced_def by (intro exI [of _ "[]"]) simp

lemma balanced_put [simp]: "balanced d (put_worker pid w d)"
  by (rule balanced_same) simp_all

lemma balanced_worker:
  assumes "tells S m" "on_worker pid m d = (f, d')" "\<forall>i j. i \<in> S \<longrightarrow> dr_jobs d i = Some j \<longrightarrow> \<not> pj_terminal j"
  shows "balanced d d'"
proof (cases "find_printer pid d")
  case None
  with assms(2) show ?thesis by (auto simp: on_worker_def intro: balanced_same)
next
  case (Some w)
  obtain e' where m: "m (enter d w) = (f, e')" and d': "d' = put_worker pid (w\<lparr>wk_engine := e'\<rparr>) (leave e' d)"
    using assms(2) Some by (auto simp: on_worker_def split: prod.splits)
  have e: "en_jobs (enter d w) = dr_jobs d" "en_log (enter d w) = dr_log d" by (simp_all add: enter_def)
  obtain es where "en_log e' = dr_log d @ es" "fair (dr_jobs d) es (en_jobs e')"
    using tellsD [OF assms(1) m] assms(3) unfolding e by blast
  then show ?thesis by (simp add: balanced_def d' leave_def)
qed

lemma open_known: "known i d \<Longrightarrow> dr_jobs d i = Some j \<Longrightarrow> \<not> pj_terminal j"
  by (auto simp: known_def)

lemma balanced_quiet: "confined {} m \<Longrightarrow> on_worker pid m d = (f, d') \<Longrightarrow> balanced d d'"
  using balanced_worker [OF tells_quiet] by blast

lemma balanced_push [simp]: "balanced d (push pid t d)"
  by (simp add: push_def split: option.split) (simp add: balanced_same)

lemma balanced_mint:
  assumes "driver_ok b d" "mint i key pid kind n entry d = (f, d1)"
  shows "balanced d d1"
proof -
  obtain io now d0 where k: "take_driver_disk d = ((io, now), d0)" by (metis prod.collapse)
  from take_driver_disk_effect (1) [OF k] obtain ds where d0: "d0 = d\<lparr>dr_disk := ds\<rparr>" by blast
  let ?r = "new_record i key pid (ent_attempt entry) kind n"
  obtain st err where c: "createJob io now ?r (dr_store d) = (st, err)" by fastforce
  show ?thesis
  proof (cases err)
    case (Some m)
    with assms(2) k c d0 show ?thesis by (cases m) (auto simp: mint_def balanced_same)
  next
    case None
    have "dom (dr_jobs d) = dom (js_by_id (dr_store d))" using assms(1) by (simp add: driver_ok_def books_ok_def)
    moreover have "js_by_id (dr_store d) i = None"
      using createJob_effect (2) [OF c None] by (simp add: new_record_def)
    ultimately have "dr_jobs d i = None" by (metis domIff)
    with assms(2) k c d0 None show ?thesis
      by (auto simp: mint_def Let_def balanced_def fair_def terminal_state_def)
  qed
qed

lemma balanced_refuse:
  "known i d \<Longrightarrow> on_worker pid (refuse_stopped i) d = (f, d') \<Longrightarrow> balanced d d'"
  unfolding refuse_stopped_def
  by (rule balanced_worker [OF tells_terminate]) (auto simp: terminal_state_def known_def)

lemma balanced_submit_new:
  assumes "driver_ok b d" "may_mint (if op_key options = [] then ''auto-'' @ auto_id else op_key options) d"
    "submit_new auto_id i pid payload options banner attempt d = (f, d')"
  shows "balanced d d'"
proof -
  let ?key = "if op_key options = [] then ''auto-'' @ auto_id else op_key options"
  let ?entry = "\<lparr>ent_job = i, ent_printer_id = pid, ent_payload = Some payload, ent_options = options,
                 ent_attempt = attempt\<rparr>"
  obtain g d1 where m: "mint i ?key pid (payload_kind_of payload) (payloadInputBytes payload) ?entry d = (g, d1)"
    by fastforce
  note b1 = balanced_mint [OF assms(1) m]
  show ?thesis
  proof (cases g)
    case (Next u)
    from mint_created [OF assms(1,2) m [unfolded Next]] have known: "known i d1" by auto
    obtain h d2 where r: "on_worker pid (refuse_stopped i) d1 = (h, d2)" by fastforce
    have "d' = d2 \<or> d' = push pid (JobTask i payload options attempt banner) d1"
      using Next m r assms(3) by (cases h) (auto simp: submit_new_def Let_def split: if_splits)
    with b1 balanced_refuse [OF known r] show ?thesis
      using balanced_trans balanced_push by blast
  qed (use m assms(3) b1 in \<open>auto simp: submit_new_def Let_def\<close>)
qed

lemma balanced_print:
  assumes "driver_ok b d" "fresh_auto auto_id d" "print auto_id i pid payload options d = (f, d')"
  shows "balanced d d'"
proof -
  have mint: "may_mint (if op_key options = [] then ''auto-'' @ auto_id else op_key options) d"
    if "\<not> (\<exists>en. op_key options \<noteq> [] \<and> dr_by_key d (op_key options) = Some en \<and> \<not> failed_and_finished (ent_job en) d)"
    using that assms(2) by (auto simp: may_mint_def fresh_auto_def split: option.split)
  show ?thesis
    using assms(1,3) balanced_submit_new [OF assms(1) mint]
    by (auto simp: print_def submit_def balanced_same split: if_splits option.splits)
qed

lemma balanced_reserve:
  assumes "driver_ok b d" "reserve auto_id i pid key kind n d = (f, d')"
  shows "balanced d d'"
proof (cases "if key = [] then None else dr_by_key d key")
  case None
  let ?key = "if key = [] then ''auto-'' @ auto_id else key"
  let ?entry = "\<lparr>ent_job = i, ent_printer_id = pid, ent_payload = None, ent_options = default_options, ent_attempt = 1\<rparr>"
  obtain g d1 where m: "mint i ?key pid kind n ?entry d = (g, d1)" by fastforce
  have "d' = d1" using m assms(2) None by (cases g) (auto simp: reserve_def Let_def)
  with balanced_mint [OF assms(1) m] show ?thesis by simp
qed (use assms in \<open>simp add: reserve_def balanced_same\<close>)

lemma balanced_submitReserved:
  assumes "submitReserved pid i payload options d = (f, d')"
  shows "balanced d d'"
proof (cases "dr_jobs d i")
  case (Some j)
  show ?thesis
  proof (cases "pj_terminal j")
    case False
    let ?d1 = "case dr_by_key d (pj_key j) of None \<Rightarrow> d
               | Some en \<Rightarrow> d\<lparr>dr_by_key := (dr_by_key d)(pj_key j \<mapsto>
                              en\<lparr>ent_payload := Some payload, ent_options := options\<rparr>)\<rparr>"
    have b: "balanced d ?d1" by (rule balanced_same) (auto split: option.split)
    have k: "known i ?d1" using Some False by (auto simp: known_def split: option.split)
    obtain h d2 where r: "on_worker pid (refuse_stopped i) ?d1 = (h, d2)" by fastforce
    have "d' = d2 \<or> d' = push pid (JobTask i payload options 1 False) ?d1"
      using Some False assms r by (cases h) (auto simp: submitReserved_def Let_def split: if_splits)
    with b balanced_refuse [OF k r] show ?thesis
      using balanced_trans balanced_push by blast
  qed (use Some assms in \<open>simp add: submitReserved_def balanced_same\<close>)
qed (use assms in \<open>simp add: submitReserved_def balanced_same\<close>)

lemma balanced_stop:
  assumes "driver_ok b d" "stop_printer pid d = (f, d')"
  shows "balanced d d'"
proof (cases "find_printer pid d")
  case (Some w)
  show ?thesis
  proof (cases "wk_stopped w")
    case False
    let ?w = "w\<lparr>wk_stopped := True, wk_tasks := [],
        wk_engine := on_link (\<lambda>lk. lk\<lparr>lk_stopping := True\<rparr>) (wk_engine w)\<rparr>"
    let ?m = "run_then (cancel_all (wk_tasks w)) (\<lambda>u. change closeTransport)"
    from queued_put [OF Some] obtain a c where q: "queued_jobs d = a @ queued_on w @ c" by metis
    then have "distinct (queued_on w)" and live: "\<forall>i \<in> set (queued_on w). known i d"
      using assms(1) by (auto simp: driver_ok_def index_ok_def)
    then have t: "tells (set (queued_on w)) (cancel_all (wk_tasks w))"
      using tells_cancel_all by (simp add: queued_on_def)
    have "tells (set (queued_on w)) ?m"
      unfolding tells_def
    proof (intro allI impI)
      fix e g e' assume run: "?m e = (g, e')"
        and l: "\<forall>i j. i \<in> set (queued_on w) \<longrightarrow> en_jobs e i = Some j \<longrightarrow> \<not> pj_terminal j"
      obtain h e1 where c: "cancel_all (wk_tasks w) e = (h, e1)" by fastforce
      obtain es where "en_log e1 = en_log e @ es" "fair (en_jobs e) es (en_jobs e1)"
        by (rule tellsD [OF t c]) (use l in blast)+
      moreover have "en_log e' = en_log e1" "en_jobs e' = en_jobs e1"
        using run c by (cases h; auto simp: run_then_def change_def closeTransport_def on_link_def)+
      ultimately show "\<exists>es. en_log e' = en_log e @ es \<and> fair (en_jobs e) es (en_jobs e')" by auto
    qed
    moreover have "on_worker pid ?m (put_worker pid ?w d) = (f, d')"
      using assms(2) Some False by (simp add: stop_printer_def Let_def)
    ultimately have "balanced (put_worker pid ?w d) d'"
      by (rule balanced_worker) (use live in \<open>auto simp: known_def\<close>)
    then show ?thesis using balanced_trans balanced_put by blast
  qed (use Some assms in \<open>simp add: stop_printer_def balanced_same\<close>)
qed (use assms in \<open>simp add: stop_printer_def balanced_same\<close>)

lemma balanced_turn:
  assumes "driver_ok b d" "worker_turn pid d = (Next u, d')"
  shows "balanced d d'"
proof (cases "find_printer pid d")
  case (Some w)
  show ?thesis
  proof (cases "stopping pid d \<or> wk_tasks w = []")
    case False
    then obtain t ts where t: "wk_tasks w = t # ts" by (cases "wk_tasks w") auto
    let ?d = "put_worker pid (w\<lparr>wk_tasks := ts\<rparr>) d"
    let ?w = "w\<lparr>wk_tasks := ts\<rparr>"
    obtain g e' where run: "run_task t (enter ?d ?w) = (g, e')" by fastforce
    have d': "d' = put_worker pid (?w\<lparr>wk_engine := e'\<rparr>) (leave e' ?d)" and g: "\<forall>msg. g \<noteq> Raised msg"
      using assms(2) Some False t run find_put [OF Some, of ?w]
      by (cases g; simp add: worker_turn_def on_worker_def)+
    have e: "en_jobs (enter ?d ?w) = dr_jobs d" "en_log (enter ?d ?w) = dr_log d" by (simp_all add: enter_def)
    have "\<exists>es. en_log e' = dr_log d @ es \<and> fair (dr_jobs d) es (en_jobs e')"
    proof (cases t)
      case (JobTask i payload options attempt banner)
      from queued_put [OF Some] obtain a c where "queued_jobs d = a @ queued_on w @ c" by metis
      then have "known i d" using assms(1) JobTask t by (auto simp: driver_ok_def index_ok_def queued_on_def)
      then have live: "\<not> pj_terminal j" if "en_jobs (enter ?d ?w) i = Some j" for j
        using that by (auto simp: known_def e)
      from run JobTask obtain key where "runJob i key payload options attempt banner (enter ?d ?w) = (g, e')"
        by (auto simp: run_task_def)
      from runJob_tells [OF this g live] show ?thesis by (auto simp: e)
    qed (use run tellsD [OF tells_quiet [OF confined_run_task [of t "{}"]] run] in \<open>auto simp: e\<close>)
    then show ?thesis by (simp add: d' balanced_def leave_def)
  qed (use Some assms in \<open>auto simp: worker_turn_def balanced_same split: if_splits\<close>)
qed (use assms in \<open>simp add: worker_turn_def balanced_same\<close>)

lemma balanced_step: "app_step d d' \<Longrightarrow> driver_ok b d \<Longrightarrow> balanced d d'"
proof (induction rule: app_step.induct)
  case (step_print auto_id d i pid payload options)
  then show ?case by (metis balanced_print prod.collapse)
next
  case (step_reserve auto_id d i pid key kind n)
  then show ?case by (metis balanced_reserve prod.collapse)
next
  case (step_request t d pid)
  then show ?case by (simp add: request_def balanced_same)
next
  case (step_turn pid d u d')
  then show ?case by (metis balanced_turn)
next
  case (step_stop d pid)
  then show ?case by (metis balanced_stop prod.collapse)
next
  case (step_arrive d pid a)
  have "confined {} (change (arrive a))" by (rule confined_silent) (simp add: change_def arrive_frame)
  then show ?case by (metis balanced_quiet prod.collapse)
next
  case (step_outside d pid ts)
  have "confined {} (change (\<lambda>e. e\<lparr>en_turns := ts\<rparr>))"
    by (rule confined_silent, rule same_books_eq) (simp_all add: change_def)
  then show ?case by (metis balanced_quiet prod.collapse)
qed (simp_all add: addPrinter_def balanced_same)

end
