(* ===== verification/Idle_Jobs.thy ===== *)
theory Idle_Jobs imports
  Job_Notices
begin

text \<open>
  A job that waits outside every worker's queue is touched by nobody: no call but one about
  the job itself changes its handle or queues it. This is what lets the print queue hold a
  reserved job while the application goes on.
\<close>

definition spares :: "string set \<Rightarrow> driver \<Rightarrow> driver \<Rightarrow> bool" where
  "spares X d d' \<longleftrightarrow>
     (\<forall>i. i \<notin> X \<and> known i d \<and> i \<notin> set (queued_jobs d) \<longrightarrow>
        dr_jobs d' i = dr_jobs d i \<and> i \<notin> set (queued_jobs d'))"

lemma spares_trans: "spares X a b \<Longrightarrow> spares X b c \<Longrightarrow> spares X a c"
  unfolding spares_def known_def by metis

lemma spares_frame:
  assumes "driver_frame S d d'" "\<forall>i \<in> S. i \<in> set (queued_jobs d) \<or> \<not> known i d \<or> i \<in> X"
    "set (queued_jobs d') \<subseteq> set (queued_jobs d)"
  shows "spares X d d'"
  using assms unfolding spares_def driver_frame_def by blast

lemma spares_same:
  "dr_jobs d' = dr_jobs d \<Longrightarrow> set (queued_jobs d') \<subseteq> set (queued_jobs d) \<union> X \<Longrightarrow> spares X d d'"
  unfolding spares_def by auto

lemma spares_refl [simp]: "spares X d d"
  by (simp add: spares_def)

lemma spares_weaken: "spares (insert i X) d d' \<Longrightarrow> \<not> known i d \<Longrightarrow> spares X d d'"
  unfolding spares_def by auto

lemma queued_push: "set (queued_jobs (push pid t d)) \<subseteq> set (queued_jobs d) \<union> set (task_job t)"
proof (cases "find_printer pid d")
  case (Some w)
  from queued_put [OF Some] obtain a c where "queued_jobs d = a @ queued_on w @ c"
    "\<And>w'. queued_jobs (put_worker pid w' d) = a @ queued_on w' @ c" by metis
  with Some show ?thesis by (auto simp: push_def queued_on_def)
qed (simp add: push_def)

lemma push_jobs [simp]: "dr_jobs (push pid t d) = dr_jobs d"
  by (simp add: push_def split: option.split)

lemma spares_push: "set (task_job t) \<subseteq> X \<Longrightarrow> spares X d (push pid t d)"
  using queued_push [of pid t d] by (intro spares_same) auto

lemma spares_mint:
  assumes "mint i key pid kind n entry d = (f, d1)"
  shows "spares {i} d d1"
proof -
  obtain io now d0 where k: "take_driver_disk d = ((io, now), d0)" by (metis prod.collapse)
  from take_driver_disk_effect (1) [OF k] obtain ds where d0: "d0 = d\<lparr>dr_disk := ds\<rparr>" by blast
  have "dr_jobs d1 k = dr_jobs d k" if "k \<noteq> i" for k
    using assms that k d0 by (auto simp: mint_def Let_def split: prod.splits option.splits store_error.splits)
  moreover have "queued_jobs d1 = queued_jobs d"
    using assms k d0 by (auto simp: mint_def Let_def queued_jobs_def split: prod.splits option.splits store_error.splits)
  ultimately show ?thesis by (simp add: spares_def)
qed

lemma mint_was_unknown:
  assumes "driver_ok b d" "mint i key pid kind n entry d = (Next u, d1)"
  shows "\<not> known i d"
proof -
  obtain io now d0 where k: "take_driver_disk d = ((io, now), d0)" by (metis prod.collapse)
  from take_driver_disk_effect (1) [OF k] obtain ds where d0: "d0 = d\<lparr>dr_disk := ds\<rparr>" by blast
  let ?r = "new_record i key pid (ent_attempt entry) kind n"
  obtain st err where c: "createJob io now ?r (dr_store d) = (st, err)" by fastforce
  with assms(2) k d0 have "err = None" by (auto simp: mint_def Let_def split: option.splits store_error.splits)
  from createJob_effect (2) [OF c this] have "js_by_id (dr_store d) i = None" by (simp add: new_record_def)
  moreover have "dom (dr_jobs d) = dom (js_by_id (dr_store d))" using assms(1) by (simp add: driver_ok_def books_ok_def)
  ultimately have "dr_jobs d i = None" by (metis domIff)
  then show ?thesis by (simp add: known_def)
qed

lemma mint_failed_jobs:
  assumes "mint i key pid kind n entry d = (f, d1)" "\<forall>u. f \<noteq> Next u"
  shows "dr_jobs d1 = dr_jobs d \<and> queued_jobs d1 = queued_jobs d"
proof -
  obtain io now d0 where k: "take_driver_disk d = ((io, now), d0)" by (metis prod.collapse)
  from take_driver_disk_effect (1) [OF k] obtain ds where "d0 = d\<lparr>dr_disk := ds\<rparr>" by blast
  with assms k show ?thesis
    by (auto simp: mint_def Let_def queued_jobs_def split: prod.splits option.splits store_error.splits)
qed

lemma spares_worker:
  assumes "confined S m" "on_worker pid m d = (f, d')"
    "\<forall>i \<in> S. i \<in> set (queued_jobs d) \<or> \<not> known i d \<or> i \<in> X"
  shows "spares X d d'"
  using on_worker_frame [OF assms(1,2)] assms(3) by (intro spares_frame [of S]) auto

lemma spares_submit_new:
  assumes "driver_ok b d" "submit_new auto_id i pid payload options banner attempt d = (f, d')"
  shows "spares {} d d'"
proof -
  let ?key = "if op_key options = [] then ''auto-'' @ auto_id else op_key options"
  let ?entry = "\<lparr>ent_job = i, ent_printer_id = pid, ent_payload = Some payload, ent_options = options,
                 ent_attempt = attempt\<rparr>"
  obtain g d1 where m: "mint i ?key pid (payload_kind_of payload) (payloadInputBytes payload) ?entry d = (g, d1)"
    by fastforce
  show ?thesis
  proof (cases g)
    case (Next u)
    obtain h d2 where r: "on_worker pid (refuse_stopped i) d1 = (h, d2)" by fastforce
    have "d' = d2 \<or> d' = push pid (JobTask i payload options attempt banner) d1"
      using Next m r assms(2) by (cases h) (auto simp: submit_new_def Let_def split: if_splits)
    moreover have "spares {i} d1 d2"
      by (rule spares_worker [OF _ r, of "{i}"]) (auto simp: refuse_stopped_def intro: confined_terminate)
    ultimately have "spares {i} d d'"
      using spares_trans [OF spares_mint [OF m]] spares_push [of "JobTask i payload options attempt banner" "{i}" d1 pid]
      by auto
    then show ?thesis using mint_was_unknown [OF assms(1) m [unfolded Next]] spares_weaken by blast
  qed (use m assms(2) mint_failed_jobs [OF m] in \<open>auto simp: submit_new_def Let_def intro: spares_same\<close>)
qed

lemma spares_reserve:
  assumes "driver_ok b d" "reserve auto_id i pid key kind n d = (f, d')"
  shows "spares {} d d'"
proof (cases "if key = [] then None else dr_by_key d key")
  case None
  let ?key = "if key = [] then ''auto-'' @ auto_id else key"
  let ?entry = "\<lparr>ent_job = i, ent_printer_id = pid, ent_payload = None, ent_options = default_options, ent_attempt = 1\<rparr>"
  obtain g d1 where m: "mint i ?key pid kind n ?entry d = (g, d1)" by fastforce
  have d': "d' = d1" using m assms(2) None by (cases g) (auto simp: reserve_def Let_def)
  show ?thesis
  proof (cases g)
    case (Next u)
    show ?thesis unfolding d'
      using spares_mint [OF m] mint_was_unknown [OF assms(1) m [unfolded Next]] spares_weaken by blast
  qed (use d' mint_failed_jobs [OF m] in \<open>auto intro: spares_same\<close>)
qed (use assms in \<open>simp add: reserve_def spares_same\<close>)

lemma spares_submitReserved:
  assumes "submitReserved pid i payload options d = (f, d')"
  shows "spares {i} d d'"
proof (cases "dr_jobs d i")
  case (Some j)
  show ?thesis
  proof (cases "pj_terminal j")
    case False
    let ?d1 = "case dr_by_key d (pj_key j) of None \<Rightarrow> d
               | Some en \<Rightarrow> d\<lparr>dr_by_key := (dr_by_key d)(pj_key j \<mapsto>
                              en\<lparr>ent_payload := Some payload, ent_options := options\<rparr>)\<rparr>"
    have b: "spares {i} d ?d1" by (rule spares_same) (auto simp: queued_jobs_def split: option.split)
    obtain h d2 where r: "on_worker pid (refuse_stopped i) ?d1 = (h, d2)" by fastforce
    have "d' = d2 \<or> d' = push pid (JobTask i payload options 1 False) ?d1"
      using Some False assms r by (cases h) (auto simp: submitReserved_def Let_def split: if_splits)
    moreover have "spares {i} ?d1 d2"
      by (rule spares_worker [OF _ r, of "{i}"]) (auto simp: refuse_stopped_def intro: confined_terminate)
    ultimately show ?thesis
      using spares_trans [OF b] spares_push [of "JobTask i payload options 1 False" "{i}" ?d1 pid] by auto
  qed (use Some assms in \<open>auto simp: submitReserved_def\<close>)
qed (use assms in \<open>simp add: submitReserved_def spares_same\<close>)

lemma spares_queue_of:
  assumes "find_printer pid d = Some w" "queued_on w = js @ queued_on w'"
    "confined (set js) m" "on_worker pid m (put_worker pid w' d) = (f, d')"
  shows "spares {} d d'"
proof -
  from queued_put [OF assms(1)] obtain a c where q: "queued_jobs d = a @ queued_on w @ c"
    "\<And>w'. queued_jobs (put_worker pid w' d) = a @ queued_on w' @ c" by metis
  from on_worker_frame [OF assms(3,4)] have fr: "driver_frame (set js) (put_worker pid w' d) d'"
    "queued_jobs d' = queued_jobs (put_worker pid w' d)" by auto
  then have "\<forall>j. j \<notin> set js \<longrightarrow> dr_jobs d' j = dr_jobs d j" by (simp add: driver_frame_def)
  with fr(2) q assms(2) show ?thesis by (auto simp: spares_def)
qed

lemma spares_stop: "stop_printer pid d = (f, d') \<Longrightarrow> spares {} d d'"
proof (cases "find_printer pid d")
  case (Some w)
  assume s: "stop_printer pid d = (f, d')"
  let ?w = "w\<lparr>wk_stopped := True, wk_tasks := [],
        wk_engine := on_link (\<lambda>lk. lk\<lparr>lk_stopping := True\<rparr>) (wk_engine w)\<rparr>"
  have "confined (set (queued_on w)) (run_then (cancel_all (wk_tasks w)) (\<lambda>u. change closeTransport))"
    by (intro confined_then confined_cancel_all confined_silent same_books_eq)
      (simp_all add: queued_on_def change_def closeTransport_def on_link_def)
  note quiet = this
  have q: "queued_on w = queued_on w @ queued_on ?w" by (simp add: queued_on_def)
  show ?thesis
  proof (cases "wk_stopped w")
    case False
    with s Some have "on_worker pid (run_then (cancel_all (wk_tasks w)) (\<lambda>u. change closeTransport))
        (put_worker pid ?w d) = (f, d')" by (simp add: stop_printer_def Let_def)
    with Some q quiet show ?thesis by (rule spares_queue_of)
  qed (use s Some in \<open>simp add: stop_printer_def\<close>)
qed (simp add: stop_printer_def spares_same)

lemma spares_turn: "worker_turn pid d = (f, d') \<Longrightarrow> spares {} d d'"
proof (cases "find_printer pid d")
  case (Some w)
  assume s: "worker_turn pid d = (f, d')"
  show ?thesis
  proof (cases "stopping pid d \<or> wk_tasks w = []")
    case False
    then obtain t ts where t: "wk_tasks w = t # ts" by (cases "wk_tasks w") auto
    let ?w = "w\<lparr>wk_tasks := ts\<rparr>"
    obtain g d1 where r: "on_worker pid (run_task t) (put_worker pid ?w d) = (g, d1)" by fastforce
    have "d' = d1" using s Some False t r by (cases g) (auto simp: worker_turn_def)
    moreover have "queued_on w = task_job t @ queued_on ?w" by (simp add: queued_on_def t)
    ultimately show ?thesis using spares_queue_of [OF Some _ confined_run_task [OF order_refl] r] by blast
  qed (use Some s in \<open>auto simp: worker_turn_def spares_same split: if_splits\<close>)
qed (simp add: worker_turn_def spares_same)

lemma spares_step: "app_step d d' \<Longrightarrow> driver_ok b d \<Longrightarrow> spares {} d d'"
proof (induction rule: app_step.induct)
  case (step_print auto_id d i pid payload options)
  obtain f d' where p: "print auto_id i pid payload options d = (f, d')" by fastforce
  then have "d' = d \<or> (\<exists>p attempt g. submit_new auto_id i pid p options False attempt d = (g, d'))"
    by (auto simp: print_def submit_def split: if_splits option.splits)
  with p step_print spares_submit_new show ?case by (auto intro: spares_same)
next
  case (step_reserve auto_id d i pid key kind n)
  then show ?case by (metis spares_reserve prod.collapse)
next
  case (step_request t d pid)
  then show ?case by (simp add: request_def spares_push spares_same)
next
  case (step_turn pid d u d')
  then show ?case by (metis spares_turn)
next
  case (step_stop d pid)
  then show ?case by (metis spares_stop prod.collapse)
next
  case (step_arrive d pid a)
  have "confined {} (change (arrive a))" by (rule confined_silent) (simp add: change_def arrive_frame)
  then show ?case by (metis spares_worker empty_iff prod.collapse)
next
  case (step_outside d pid ts)
  have "confined {} (change (\<lambda>e. e\<lparr>en_turns := ts\<rparr>))"
    by (rule confined_silent, rule same_books_eq) (simp_all add: change_def)
  then show ?case by (metis spares_worker empty_iff prod.collapse)
qed (simp_all add: addPrinter_def spares_same queued_jobs_def queued_on_def)

end
