(* ===== verification/Print_Queue.thy ===== *)
theory Print_Queue imports
  Submission
  "HOL-Library.AList"
begin

text \<open>
  The print queue (\<^verbatim>\<open>src/queue/src/print_queue.cpp\<close>): one lane per printer that holds jobs while
  the printer cannot take them, expires them, and drains them one at a time through the
  driver's reservations. The callbacks the queue registers with the core only fill its inbox,
  so they are run when a call into the driver ends, on the effects it logged. The clock is an
  argument in milliseconds, and the lanes are visited in the order they were made (the order
  of the source's hash map is unspecified). The priority and the sequence number are compared
  and counted only.
\<close>

section \<open>State\<close>

datatype drain_order = Fifo | Priority

record queue_policy =
  qp_hold_while_offline :: bool
  qp_default_ttl_ms :: u32
  qp_max_depth :: nat
  qp_drain_order :: drain_order

record queue_options =
  qo_key :: string
  qo_ttl_ms :: u32
  qo_priority :: int
  qo_cut :: cut_setting
  qo_open_drawer :: bool
  qo_preflight :: preflight_mode
  qo_timeout_ms :: u32

record queue_item =
  qi_job :: string
  qi_payload :: payload
  qi_options :: job_options
  qi_priority :: int
  qi_seq :: nat
  qi_deadline :: "nat option"

record queue_lane =
  ln_printer :: bool
  ln_waiting :: "queue_item list"
  ln_offline :: bool
  ln_cover_open :: bool
  ln_paper_out :: bool
  ln_link_down :: bool
  ln_blocked :: bool
  ln_paused :: bool
  ln_in_flight :: bool

definition blank_lane :: queue_lane where
  "blank_lane =
     \<lparr>ln_printer = False, ln_waiting = [], ln_offline = False, ln_cover_open = False,
      ln_paper_out = False, ln_link_down = False, ln_blocked = False, ln_paused = False,
      ln_in_flight = False\<rparr>"

definition usable :: "queue_lane \<Rightarrow> bool" where
  "usable l \<longleftrightarrow> \<not> ln_offline l \<and> \<not> ln_cover_open l \<and> \<not> ln_paper_out l \<and> \<not> ln_link_down l"

text \<open>
  The queue on its driver. \<^theory_text>\<open>qu_watched\<close> lists the subscriptions of \<^verbatim>\<open>startLocked\<close>, a job with the
  printer it was started on.
\<close>

record queue =
  qu_driver :: driver
  qu_policy :: queue_policy
  qu_lanes :: "(string \<times> queue_lane) list"
  qu_next_seq :: nat
  qu_expired :: nat
  qu_overflowed :: nat
  qu_drained :: nat
  qu_watched :: "(string \<times> string) list"
  qu_completions :: "(string \<times> job_state) list"
  qu_device_events :: "(string \<times> device_event) list"
  qu_pending :: bool

definition new_queue :: "queue_policy \<Rightarrow> driver \<Rightarrow> queue" where
  "new_queue policy d =
     \<lparr>qu_driver = d, qu_policy = policy, qu_lanes = [], qu_next_seq = 0, qu_expired = 0,
      qu_overflowed = 0, qu_drained = 0, qu_watched = [], qu_completions = [],
      qu_device_events = [], qu_pending = False\<rparr>"

definition lane_of :: "string \<Rightarrow> queue \<Rightarrow> queue_lane" where
  "lane_of pid q = (case map_of (qu_lanes q) pid of None \<Rightarrow> blank_lane | Some l \<Rightarrow> l)"

definition put_lane :: "string \<Rightarrow> queue_lane \<Rightarrow> queue \<Rightarrow> queue" where
  "put_lane pid l q = q\<lparr>qu_lanes := AList.update pid l (qu_lanes q)\<rparr>"

text \<open>An operation on a lane that is only looked up, and one that makes it.\<close>

definition on_lane :: "string \<Rightarrow> (queue_lane \<Rightarrow> queue_lane) \<Rightarrow> queue \<Rightarrow> queue" where
  "on_lane pid f q =
     (case map_of (qu_lanes q) pid of None \<Rightarrow> q | Some l \<Rightarrow> put_lane pid (f l) q)"

section \<open>The inbox\<close>

definition completed :: "string \<Rightarrow> job_event \<Rightarrow> queue \<Rightarrow> queue" where
  "completed pid ev q =
     (if terminal_state (je_state ev)
      then q\<lparr>qu_completions := qu_completions q @ [(pid, je_state ev)], qu_pending := True\<rparr>
      else q)"

definition notice :: "string \<Rightarrow> effect \<Rightarrow> queue \<Rightarrow> queue" where
  "notice pid x q =
     (case x of
        Published i ev \<Rightarrow>
          foldl (\<lambda>q w. completed (snd w) ev q) q (filter (\<lambda>w. fst w = i) (qu_watched q))
      | Notified ev \<Rightarrow> q\<lparr>qu_device_events := qu_device_events q @ [(pid, ev)], qu_pending := True\<rparr>
      | _ \<Rightarrow> q)"

text \<open>The driver goes on to \<^theory_text>\<open>d\<close>, in a call about the printer \<^theory_text>\<open>pid\<close>.\<close>

definition deliver_to :: "string \<Rightarrow> driver \<Rightarrow> queue \<Rightarrow> queue" where
  "deliver_to pid d q =
     foldl (\<lambda>q x. notice pid x q) (q\<lparr>qu_driver := d\<rparr>)
       (drop (length (dr_log (qu_driver q))) (dr_log d))"

type_synonym 'a act = "queue \<Rightarrow> 'a flow \<times> queue"

definition with_driver :: "string \<Rightarrow> (driver \<Rightarrow> 'a flow \<times> driver) \<Rightarrow> 'a act" where
  "with_driver pid f q = (case f (qu_driver q) of (r, d) \<Rightarrow> (r, deliver_to pid d q))"

definition act_then :: "'a act \<Rightarrow> ('a \<Rightarrow> 'b act) \<Rightarrow> 'b act" where
  "act_then m k q =
     (case m q of
        (Next a, q') \<Rightarrow> k a q'
      | (Returned, q') \<Rightarrow> (Returned, q')
      | (Raised msg, q') \<Rightarrow> (Raised msg, q'))"

definition act_change :: "(queue \<Rightarrow> queue) \<Rightarrow> unit act" where
  "act_change f q = (Next (), f q)"

section \<open>Lanes\<close>

definition seed_lane :: "device_status \<Rightarrow> queue_lane \<Rightarrow> queue_lane" where
  "seed_lane s l =
     (let l1 = l\<lparr>ln_printer := True, ln_link_down := False\<rparr>
      in if ds_observed s
         then l1\<lparr>ln_offline := (ds_online s = Some False), ln_cover_open := (ds_cover_open s = Some True),
                 ln_paper_out := (ds_paper_out s = Some True)\<rparr>
         else l1)"

definition printer_status :: "string \<Rightarrow> driver \<Rightarrow> device_status" where
  "printer_status pid d =
     (case find_printer pid d of None \<Rightarrow> unknown_status | Some w \<Rightarrow> lk_status (en_link (wk_engine w)))"

definition laneLocked :: "string \<Rightarrow> queue \<Rightarrow> queue" where
  "laneLocked pid q =
     (let l = lane_of pid q
      in put_lane pid (if ln_printer l then l else seed_lane (printer_status pid (qu_driver q)) l) q)"

definition drainableLocked :: "queue_policy \<Rightarrow> queue_lane \<Rightarrow> bool" where
  "drainableLocked policy l \<longleftrightarrow>
     \<not> (ln_paused l \<or> ln_blocked l \<or> ln_in_flight l) \<and> (\<not> qp_hold_while_offline policy \<or> usable l)"

section \<open>The transitions of the queue\<close>

definition holdLocked :: "string \<Rightarrow> string \<Rightarrow> unit act" where
  "holdLocked pid i =
     with_driver pid (on_worker pid
       (advance i JS_HeldOffline CL_TransportAccepted FR_None default_evidence))"

definition finishLocked :: "string \<Rightarrow> string \<Rightarrow> failure_reason \<Rightarrow> unit act" where
  "finishLocked pid i reason =
     with_driver pid (on_worker pid
       (terminate_job i JS_FailedKnown (result_failed reason CL_TransportAccepted)))"

text \<open>The subscription replays the job's history.\<close>

definition watch :: "string \<Rightarrow> string \<Rightarrow> queue \<Rightarrow> queue" where
  "watch pid i q =
     foldl (\<lambda>q ev. completed pid ev q) (q\<lparr>qu_watched := qu_watched q @ [(i, pid)]\<rparr>)
       (case dr_jobs (qu_driver q) i of None \<Rightarrow> [] | Some j \<Rightarrow> pj_history j)"

definition startLocked :: "string \<Rightarrow> queue_item \<Rightarrow> unit act" where
  "startLocked pid item q =
     with_driver pid (submitReserved pid (qi_job item) (qi_payload item) (qi_options item))
       (watch pid (qi_job item)
         (on_lane pid (\<lambda>l. l\<lparr>ln_in_flight := True\<rparr>) (q\<lparr>qu_drained := qu_drained q + 1\<rparr>)))"

definition signal :: "queue \<Rightarrow> queue" where
  "signal q = q\<lparr>qu_pending := True\<rparr>"

section \<open>Enqueueing\<close>

definition queued_options :: "string \<Rightarrow> queue_options \<Rightarrow> job_options" where
  "queued_options key o' =
     default_options\<lparr>op_key := key, op_cut := qo_cut o', op_open_drawer := qo_open_drawer o',
       op_preflight := qo_preflight o', op_timeout_ms := qo_timeout_ms o'\<rparr>"

definition job_key :: "string \<Rightarrow> driver \<Rightarrow> string" where
  "job_key i d = (case dr_jobs d i of None \<Rightarrow> [] | Some j \<Rightarrow> pj_key j)"

definition ttl_of :: "queue_policy \<Rightarrow> queue_options \<Rightarrow> u32" where
  "ttl_of policy o' = (if qo_ttl_ms o' \<noteq> 0 then qo_ttl_ms o' else qp_default_ttl_ms policy)"

definition add_waiting :: "string \<Rightarrow> queue_item \<Rightarrow> queue \<Rightarrow> queue" where
  "add_waiting pid item q = on_lane pid (\<lambda>l. l\<lparr>ln_waiting := ln_waiting l @ [item]\<rparr>) q"

text \<open>What is done with a job that was just reserved.\<close>

definition place :: "nat \<Rightarrow> string \<Rightarrow> payload \<Rightarrow> queue_options \<Rightarrow> string \<Rightarrow> unit act" where
  "place now pid payload o' i q =
     (let l = lane_of pid q;
          policy = qu_policy q;
          opts = queued_options (job_key i (qu_driver q)) o';
          ttl = ttl_of policy o'
      in if drainableLocked policy l then
           startLocked pid \<lparr>qi_job = i, qi_payload = payload, qi_options = opts, qi_priority = 0,
                            qi_seq = 0, qi_deadline = None\<rparr> q
         else if qp_max_depth policy \<noteq> 0 \<and> qp_max_depth policy \<le> length (ln_waiting l) then
           act_then (finishLocked pid i FR_QueueOverflow)
             (\<lambda>u. act_change (\<lambda>q. q\<lparr>qu_overflowed := qu_overflowed q + 1\<rparr>)) q
         else
           let item = \<lparr>qi_job = i, qi_payload = payload, qi_options = opts, qi_priority = qo_priority o',
                       qi_seq = qu_next_seq q,
                       qi_deadline = (if ttl \<noteq> 0 then Some (now + unat ttl) else None)\<rparr>
           in act_then (holdLocked pid i) (\<lambda>u. act_change (\<lambda>q. signal (add_waiting pid item q)))
                (q\<lparr>qu_next_seq := qu_next_seq q + 1\<rparr>))"

definition enqueue ::
    "nat \<Rightarrow> string \<Rightarrow> string \<Rightarrow> string \<Rightarrow> payload \<Rightarrow> queue_options \<Rightarrow> string act" where
  "enqueue now auto_id i pid payload o' q =
     act_then
       (with_driver pid
         (reserve auto_id i pid (qo_key o') (payload_kind_of payload) (payloadInputBytes payload)))
       (\<lambda>r. if snd r then act_then (place now pid payload o' (fst r)) (\<lambda>u q. (Next (fst r), q))
            else (\<lambda>q. (Next (fst r), q)))
       (laneLocked pid q)"

section \<open>The pump\<close>

fun hear :: "device_event \<Rightarrow> queue_lane \<Rightarrow> queue_lane" where
  "hear DE_Online l = l\<lparr>ln_offline := False\<rparr>"
| "hear DE_Offline l = l\<lparr>ln_offline := True\<rparr>"
| "hear DE_CoverOpen l = l\<lparr>ln_cover_open := True\<rparr>"
| "hear DE_CoverClosed l = l\<lparr>ln_cover_open := False\<rparr>"
| "hear DE_PaperOut l = l\<lparr>ln_paper_out := True\<rparr>"
| "hear DE_PaperNearEnd l = l\<lparr>ln_paper_out := False\<rparr>"
| "hear DE_PaperOk l = l\<lparr>ln_paper_out := False\<rparr>"
| "hear DE_ConnectionLost l = l\<lparr>ln_link_down := True\<rparr>"
| "hear DE_ConnectionRestored l = l\<lparr>ln_link_down := False\<rparr>"
| "hear ev l = l"

definition conclude_job :: "job_state \<Rightarrow> queue_lane \<Rightarrow> queue_lane" where
  "conclude_job s l =
     (let l1 = l\<lparr>ln_in_flight := False\<rparr> in if s = JS_Unknown then l1\<lparr>ln_blocked := True\<rparr> else l1)"

definition applyInboxLocked :: "queue \<Rightarrow> queue" where
  "applyInboxLocked q =
     (let q1 = q\<lparr>qu_completions := [], qu_device_events := [], qu_pending := False\<rparr>;
          q2 = foldl (\<lambda>q e. on_lane (fst e) (hear (snd e)) q) q1 (qu_device_events q)
      in foldl (\<lambda>q c. on_lane (fst c) (conclude_job (snd c)) q) q2 (qu_completions q))"

definition goes_before :: "queue_policy \<Rightarrow> queue_item \<Rightarrow> queue_item \<Rightarrow> bool" where
  "goes_before policy candidate incumbent \<longleftrightarrow>
     (if qp_drain_order policy = Priority \<and> qi_priority candidate \<noteq> qi_priority incumbent
      then qi_priority incumbent < qi_priority candidate
      else qi_seq candidate < qi_seq incumbent)"

definition selectLocked :: "queue_policy \<Rightarrow> queue_item list \<Rightarrow> nat" where
  "selectLocked policy held =
     foldl (\<lambda>best i. if goes_before policy (held ! i) (held ! best) then i else best)
       0 [1..<length held]"

definition is_due :: "nat \<Rightarrow> queue_item \<Rightarrow> bool" where
  "is_due now item \<longleftrightarrow> (case qi_deadline item of None \<Rightarrow> False | Some t \<Rightarrow> t \<le> now)"

definition set_waiting :: "string \<Rightarrow> queue_item list \<Rightarrow> queue \<Rightarrow> queue" where
  "set_waiting pid items q = on_lane pid (\<lambda>l. l\<lparr>ln_waiting := items\<rparr>) q"

text \<open>
  The expiry loop: \<^theory_text>\<open>kept\<close> are the items passed over. An item is erased after its job is
  finished, so an exception leaves it in the lane.
\<close>

fun expire :: "string \<Rightarrow> nat \<Rightarrow> queue_item list \<Rightarrow> queue_item list \<Rightarrow> unit act" where
  "expire pid now kept [] q = (Next (), q)"
| "expire pid now kept (x # xs) q =
     (if is_due now x then
        act_then (finishLocked pid (qi_job x) FR_Expired)
          (\<lambda>u q. expire pid now kept xs
             (set_waiting pid (kept @ xs) (q\<lparr>qu_expired := qu_expired q + 1\<rparr>))) q
      else expire pid now (kept @ [x]) xs q)"

definition drain_one :: "string \<Rightarrow> unit act" where
  "drain_one pid q =
     (let l = lane_of pid q
      in if ln_waiting l \<noteq> [] \<and> drainableLocked (qu_policy q) l then
           let k = selectLocked (qu_policy q) (ln_waiting l);
               picked = ln_waiting l ! k
           in startLocked pid picked
                (set_waiting pid (take k (ln_waiting l) @ drop (Suc k) (ln_waiting l)) q)
         else (Next (), q))"

definition pump_lane :: "string \<Rightarrow> nat \<Rightarrow> unit act" where
  "pump_lane pid now q =
     act_then (expire pid now [] (ln_waiting (lane_of pid q))) (\<lambda>u. drain_one pid) q"

definition earlier :: "nat option \<Rightarrow> queue_item \<Rightarrow> nat option" where
  "earlier next item =
     (case qi_deadline item of
        None \<Rightarrow> next
      | Some t \<Rightarrow> (case next of None \<Rightarrow> Some t | Some n \<Rightarrow> if t < n then Some t else Some n))"

fun pump_lanes :: "nat \<Rightarrow> string list \<Rightarrow> nat option \<Rightarrow> nat option act" where
  "pump_lanes now [] next q = (Next next, q)"
| "pump_lanes now (pid # pids) next q =
     act_then (pump_lane pid now)
       (\<lambda>u q. pump_lanes now pids (foldl earlier next (ln_waiting (lane_of pid q))) q) q"

definition pumpLocked :: "nat \<Rightarrow> nat option act" where
  "pumpLocked now q =
     (let q1 = applyInboxLocked q in pump_lanes now (map fst (qu_lanes q1)) None q1)"

definition tick :: "nat \<Rightarrow> unit act" where
  "tick now = act_then (pumpLocked now) (\<lambda>next q. (Next (), q))"

section \<open>Inspection and control\<close>

definition depth :: "queue \<Rightarrow> nat" where
  "depth q = sum_list (map (\<lambda>l. length (ln_waiting (snd l))) (qu_lanes q))"

definition depth_of :: "string \<Rightarrow> queue \<Rightarrow> nat" where
  "depth_of pid q = length (ln_waiting (lane_of pid q))"

definition waiting_jobs :: "string \<Rightarrow> queue \<Rightarrow> string list" where
  "waiting_jobs pid q = map qi_job (ln_waiting (lane_of pid q))"

definition blocked :: "string \<Rightarrow> queue \<Rightarrow> bool" where
  "blocked pid q \<longleftrightarrow> ln_blocked (lane_of pid q)"

definition unblock :: "string \<Rightarrow> queue \<Rightarrow> queue" where
  "unblock pid q =
     (if map_of (qu_lanes q) pid = None then q
      else signal (on_lane pid (\<lambda>l. l\<lparr>ln_blocked := False\<rparr>) q))"

definition pause :: "string \<Rightarrow> queue \<Rightarrow> queue" where
  "pause pid q = put_lane pid ((lane_of pid q)\<lparr>ln_paused := True\<rparr>) q"

definition resume :: "string \<Rightarrow> queue \<Rightarrow> queue" where
  "resume pid q =
     (if map_of (qu_lanes q) pid = None then q
      else signal (on_lane pid (\<lambda>l. l\<lparr>ln_paused := False\<rparr>) q))"

definition paused :: "string \<Rightarrow> queue \<Rightarrow> bool" where
  "paused pid q \<longleftrightarrow> ln_paused (lane_of pid q)"

section \<open>The queue's thread\<close>

text \<open>
  One step of \<^verbatim>\<open>run\<close> after the pump has returned the next deadline: pump again, or wait until the
  deadline, or wait without one.
\<close>

datatype after_pump = PumpAgain | Stopped | WaitUntil nat | WaitForever

definition look_at_inbox :: "bool \<Rightarrow> nat option \<Rightarrow> queue \<Rightarrow> after_pump \<times> queue" where
  "look_at_inbox is_stopping next q =
     (if qu_pending q then (PumpAgain, q\<lparr>qu_pending := False\<rparr>)
      else (if is_stopping then Stopped
            else case next of None \<Rightarrow> WaitForever | Some t \<Rightarrow> WaitUntil t, q))"

end
