(* ===== verification/Queue_Invariant.thy ===== *)
theory Queue_Invariant imports
  Idle_Jobs
  Print_Queue
begin

text \<open>
  The invariant of the print queue and its driver, kept by every operation of the queue: at
  most one job per lane is in flight and its end is told to the lane, held jobs are idle and
  in one lane only, a job that ended Unknown is the last of its lane and blocks it, lanes stay
  within their depth and in order.
\<close>

section \<open>The invariant\<close>

definition jobs_on :: "string \<Rightarrow> queue \<Rightarrow> string list" where
  "jobs_on p q = map fst (filter (\<lambda>w. snd w = p) (qu_watched q))"

definition told :: "string \<Rightarrow> queue \<Rightarrow> job_state list" where
  "told p q = map snd (filter (\<lambda>c. fst c = p) (qu_completions q))"

definition open_on :: "string \<Rightarrow> queue \<Rightarrow> string list" where
  "open_on p q = filter (\<lambda>i. known i (qu_driver q)) (jobs_on p q)"

text \<open>A job nobody works on and nobody was told the end of.\<close>

definition idle :: "string \<Rightarrow> driver \<Rightarrow> bool" where
  "idle i d \<longleftrightarrow> i \<notin> set (queued_jobs d) \<and>
     (\<exists>j. dr_jobs d i = Some j \<and> \<not> pj_terminal j \<and>
        (\<forall>ev \<in> set (pj_history j). \<not> terminal_state (je_state ev)))"

definition ended_unknown :: "string \<Rightarrow> driver \<Rightarrow> bool" where
  "ended_unknown i d \<longleftrightarrow> (\<exists>j. dr_jobs d i = Some j \<and> pj_terminal j \<and> pj_state j = JS_Unknown)"

text \<open>A lane in flight has one open job, or the notice of its end.\<close>

definition flight_ok :: "queue \<Rightarrow> bool" where
  "flight_ok q \<longleftrightarrow>
     (\<forall>p. length (told p q) + length (open_on p q) = (if ln_in_flight (lane_of p q) then 1 else 0))"

definition held_ok :: "queue \<Rightarrow> bool" where
  "held_ok q \<longleftrightarrow>
     (\<forall>p. distinct (waiting_jobs p q)) \<and>
     (\<forall>p. \<forall>i \<in> set (waiting_jobs p q). idle i (qu_driver q) \<and> i \<notin> fst ` set (qu_watched q)) \<and>
     (\<forall>p p'. p \<noteq> p' \<longrightarrow> set (waiting_jobs p q) \<inter> set (waiting_jobs p' q) = {})"

definition watched_ok :: "queue \<Rightarrow> bool" where
  "watched_ok q \<longleftrightarrow>
     distinct (map fst (qu_watched q)) \<and>
     (\<forall>w \<in> set (qu_watched q). dr_jobs (qu_driver q) (fst w) \<noteq> None) \<and>
     (\<forall>p. \<forall>i \<in> set (open_on p q). i = last (jobs_on p q))"

text \<open>On a lane nobody has unblocked, a job that ended Unknown is the last, and it blocks.\<close>

definition unknown_ok :: "string set \<Rightarrow> queue \<Rightarrow> bool" where
  "unknown_ok U q \<longleftrightarrow>
     (\<forall>p i. p \<notin> U \<longrightarrow> i \<in> set (jobs_on p q) \<longrightarrow> ended_unknown i (qu_driver q) \<longrightarrow>
        i = last (jobs_on p q) \<and> (ln_blocked (lane_of p q) \<or> JS_Unknown \<in> set (told p q)))"

definition lanes_ok :: "queue \<Rightarrow> bool" where
  "lanes_ok q \<longleftrightarrow>
     (\<forall>p. let w = ln_waiting (lane_of p q)
          in (qp_max_depth (qu_policy q) \<noteq> 0 \<longrightarrow> length w \<le> qp_max_depth (qu_policy q)) \<and>
             sorted_wrt (\<lambda>a b. qi_seq a < qi_seq b) w \<and> (\<forall>x \<in> set w. qi_seq x < qu_next_seq q))"

definition queue_ok :: "string set \<Rightarrow> queue \<Rightarrow> bool" where
  "queue_ok U q \<longleftrightarrow> (\<exists>b. driver_ok b (qu_driver q)) \<and> flight_ok q \<and> held_ok q \<and> watched_ok q \<and>
     unknown_ok U q \<and> lanes_ok q"

lemma queue_okD:
  assumes "queue_ok U q"
  obtains b where "driver_ok b (qu_driver q)"
  using assms unfolding queue_ok_def by blast

text \<open>What the invariant looks at.\<close>

definition same_view :: "queue \<Rightarrow> queue \<Rightarrow> bool" where
  "same_view q q' \<longleftrightarrow>
     qu_driver q' = qu_driver q \<and> qu_watched q' = qu_watched q \<and> qu_completions q' = qu_completions q \<and>
     qu_policy q' = qu_policy q \<and> qu_next_seq q \<le> qu_next_seq q' \<and>
     (\<forall>p. ln_waiting (lane_of p q') = ln_waiting (lane_of p q) \<and>
          ln_in_flight (lane_of p q') = ln_in_flight (lane_of p q))"

lemma queue_ok_view:
  assumes "queue_ok U q" "same_view q q'" "U \<subseteq> V"
    "\<And>p. p \<notin> V \<Longrightarrow> ln_blocked (lane_of p q) \<Longrightarrow> ln_blocked (lane_of p q')"
  shows "queue_ok V q'"
proof -
  have v: "told p q' = told p q" "jobs_on p q' = jobs_on p q" "open_on p q' = open_on p q"
    "waiting_jobs p q' = waiting_jobs p q" for p
    using assms(2) by (simp_all add: same_view_def told_def jobs_on_def open_on_def waiting_jobs_def)
  have "flight_ok q'" "held_ok q'" "watched_ok q'"
    using assms(1,2) v by (simp_all add: queue_ok_def flight_ok_def held_ok_def watched_ok_def same_view_def)
  moreover have "unknown_ok V q'"
    using assms v unfolding queue_ok_def unknown_ok_def same_view_def by (metis subsetD)
  moreover have "lanes_ok q'"
    using assms(1,2) unfolding queue_ok_def lanes_ok_def same_view_def Let_def by (metis order.strict_trans2)
  ultimately show ?thesis using assms(1,2) by (simp add: queue_ok_def same_view_def)
qed

section \<open>Lanes\<close>

definition has_lane :: "string \<Rightarrow> queue \<Rightarrow> bool" where
  "has_lane p q \<longleftrightarrow> map_of (qu_lanes q) p \<noteq> None"

lemma lane_of_put [simp]: "lane_of p (put_lane pid l q) = (if p = pid then l else lane_of p q)"
  by (simp add: lane_of_def put_lane_def update_conv')

lemma has_lane_put [simp]: "has_lane p (put_lane pid l q) \<longleftrightarrow> p = pid \<or> has_lane p q"
  by (simp add: put_lane_def update_conv' has_lane_def)

lemma put_lane_rest [simp]:
  "qu_driver (put_lane pid l q) = qu_driver q" "qu_watched (put_lane pid l q) = qu_watched q"
  "qu_completions (put_lane pid l q) = qu_completions q" "qu_policy (put_lane pid l q) = qu_policy q"
  "qu_next_seq (put_lane pid l q) = qu_next_seq q"
  by (simp_all add: put_lane_def)

lemma lane_of_on: "lane_of p (on_lane pid f q) = (if p = pid \<and> has_lane pid q then f (lane_of p q) else lane_of p q)"
  by (auto simp: on_lane_def lane_of_def put_lane_def update_conv' has_lane_def split: option.split)

lemma on_lane_rest [simp]:
  "qu_driver (on_lane pid f q) = qu_driver q" "qu_watched (on_lane pid f q) = qu_watched q"
  "qu_completions (on_lane pid f q) = qu_completions q" "qu_policy (on_lane pid f q) = qu_policy q"
  "qu_next_seq (on_lane pid f q) = qu_next_seq q" "has_lane p (on_lane pid f q) = has_lane p q"
  by (auto simp: on_lane_def put_lane_def update_conv' has_lane_def split: option.split)

lemma no_lane: "\<not> has_lane p q \<Longrightarrow> lane_of p q = blank_lane"
  by (simp add: lane_of_def has_lane_def)

lemma same_lanes: "qu_lanes q' = qu_lanes q \<Longrightarrow> lane_of p q' = lane_of p q \<and> has_lane p q' = has_lane p q"
  by (simp add: lane_of_def has_lane_def)

section \<open>A call into the driver\<close>

lemma completed_fold:
  "foldl (\<lambda>q w. completed (snd w) ev q) q ws =
   q\<lparr>qu_completions := qu_completions q @
        (if terminal_state (je_state ev) then map (\<lambda>w. (snd w, je_state ev)) ws else []),
     qu_pending := qu_pending q \<or> (terminal_state (je_state ev) \<and> ws \<noteq> [])\<rparr>"
  by (induction ws arbitrary: q) (auto simp: completed_def)

lemma told_notice:
  "told p (notice pid x q) = told p q @ concat (map (\<lambda>i. farewells i [x]) (jobs_on p q))"
proof (cases x)
  case (Published i ev)
  have "map snd (filter (\<lambda>c. fst c = p) (map (\<lambda>w. (snd w, je_state ev)) (filter (\<lambda>w. fst w = i) ws))) =
      concat (map (\<lambda>k. if i = k then [je_state ev] else []) (map fst (filter (\<lambda>w. snd w = p) ws)))" for ws :: "(string \<times> string) list"
    by (induction ws) auto
  moreover have "concat (map (\<lambda>i. []) ks) = []" for ks :: "string list" by (induction ks) auto
  ultimately show ?thesis
    using Published by (auto simp: notice_def completed_fold told_def jobs_on_def cong: if_cong)
next
  case (Notified ev)
  have "concat (map (\<lambda>i. []) ks) = []" for ks :: "string list" by (induction ks) auto
  with Notified show ?thesis by (simp add: notice_def told_def)
qed (simp_all add: notice_def told_def)

lemma notice_rest [simp]:
  "qu_driver (notice pid x q) = qu_driver q" "qu_watched (notice pid x q) = qu_watched q"
  "qu_lanes (notice pid x q) = qu_lanes q" "qu_policy (notice pid x q) = qu_policy q"
  "qu_next_seq (notice pid x q) = qu_next_seq q"
  by (simp_all add: notice_def completed_fold split: effect.split)

lemma told_notices:
  "length (told p (foldl (\<lambda>q x. notice pid x q) q es)) =
     length (told p q) + sum_list (map (\<lambda>i. length (farewells i es)) (jobs_on p q)) \<and>
   set (told p (foldl (\<lambda>q x. notice pid x q) q es)) =
     set (told p q) \<union> (\<Union>i \<in> set (jobs_on p q). set (farewells i es))"
proof (induction es arbitrary: q)
  case Nil
  have "sum_list (map (\<lambda>i. 0) ks) = (0 :: nat)" for ks :: "string list" by (induction ks) auto
  then show ?case by simp
next
  case (Cons x es)
  let ?q = "notice pid x q"
  have j: "jobs_on p ?q = jobs_on p q" by (simp add: jobs_on_def)
  have f: "farewells i (x # es) = farewells i [x] @ farewells i es" for i
    using farewells_append [of i "[x]" es] by simp
  have l: "length (concat (map (\<lambda>i. farewells i [x]) ks)) = sum_list (map (\<lambda>i. length (farewells i [x])) ks)" for ks
    by (induction ks) auto
  show ?case
    using Cons [of ?q] by (auto simp: j f told_notice l sum_list_addf simp del: farewells.simps)
qed

lemma deliver_rest [simp]:
  "qu_driver (deliver_to pid d q) = d" "qu_watched (deliver_to pid d q) = qu_watched q"
  "qu_lanes (deliver_to pid d q) = qu_lanes q" "qu_policy (deliver_to pid d q) = qu_policy q"
  "qu_next_seq (deliver_to pid d q) = qu_next_seq q"
proof -
  have "qu_driver (foldl (\<lambda>q x. notice pid x q) q es) = qu_driver q \<and>
    qu_watched (foldl (\<lambda>q x. notice pid x q) q es) = qu_watched q \<and>
    qu_lanes (foldl (\<lambda>q x. notice pid x q) q es) = qu_lanes q \<and>
    qu_policy (foldl (\<lambda>q x. notice pid x q) q es) = qu_policy q \<and>
    qu_next_seq (foldl (\<lambda>q x. notice pid x q) q es) = qu_next_seq q" for q es
    by (induction es arbitrary: q) simp_all
  then show "qu_driver (deliver_to pid d q) = d" "qu_watched (deliver_to pid d q) = qu_watched q"
    "qu_lanes (deliver_to pid d q) = qu_lanes q" "qu_policy (deliver_to pid d q) = qu_policy q"
    "qu_next_seq (deliver_to pid d q) = qu_next_seq q" by (simp_all add: deliver_to_def)
qed

lemma deliver_lane [simp]: "lane_of p (deliver_to pid d q) = lane_of p q"
  by (simp add: lane_of_def)

lemma count_open:
  assumes "\<And>i. i \<in> set is \<Longrightarrow> length (F i) + (if known i d' then 1 else 0) = (if known i d then 1 else 0)"
  shows "sum_list (map (\<lambda>i. length (F i)) is) + length (filter (\<lambda>i. known i d') is) = length (filter (\<lambda>i. known i d) is)"
  using assms
proof (induction "is")
  case (Cons i "is")
  have "length (F i) + (if known i d' then 1 else 0) = (if known i d then 1 else 0)" by (rule Cons.prems) simp
  moreover have "sum_list (map (\<lambda>i. length (F i)) is) + length (filter (\<lambda>i. known i d') is) = length (filter (\<lambda>i. known i d) is)"
    using Cons.prems by (intro Cons.IH) simp
  ultimately show ?case by (cases "known i d'"; cases "known i d") simp_all
qed simp

text \<open>The driver goes on; the jobs it is allowed to touch are not held in a lane.\<close>

lemma queue_ok_deliver:
  assumes "queue_ok U q" "driver_ok b d" "balanced (qu_driver q) d" "spares X (qu_driver q) d"
    "\<And>p. X \<inter> set (waiting_jobs p q) = {}"
  shows "queue_ok U (deliver_to pid d q)"
proof -
  let ?q = "deliver_to pid d q"
  from assms(3) obtain es where es: "dr_log d = dr_log (qu_driver q) @ es"
    "fair (dr_jobs (qu_driver q)) es (dr_jobs d)" unfolding balanced_def by blast
  have j: "jobs_on p ?q = jobs_on p q" for p by (simp add: jobs_on_def)
  have w: "waiting_jobs p ?q = waiting_jobs p q" for p by (simp add: waiting_jobs_def)
  have t: "length (told p ?q) = length (told p q) + sum_list (map (\<lambda>i. length (farewells i es)) (jobs_on p q))"
    "set (told p ?q) = set (told p q) \<union> (\<Union>i \<in> set (jobs_on p q). set (farewells i es))" for p
    using told_notices [of p pid "q\<lparr>qu_driver := d\<rparr>" es]
    by (simp_all add: deliver_to_def es told_def jobs_on_def)
  have handle: "\<exists>j j'. dr_jobs (qu_driver q) i = Some j \<and> dr_jobs d i = Some j' \<and>
      farewells i es = (if \<not> pj_terminal j \<and> pj_terminal j' then [pj_state j'] else []) \<and>
      (pj_terminal j \<longrightarrow> pj_terminal j' \<and> pj_state j' = pj_state j)" if i: "i \<in> set (jobs_on p q)" for i p
  proof -
    from i assms(1) obtain j where j: "dr_jobs (qu_driver q) i = Some j"
      by (auto simp: queue_ok_def watched_ok_def jobs_on_def)
    with es(2) show ?thesis unfolding fair_def by blast
  qed
  have count: "length (farewells i es) + (if known i d then 1 else 0) = (if known i (qu_driver q) then 1 else 0)"
    if "i \<in> set (jobs_on p q)" for i p
    using handle [OF that] by (auto simp: known_def)
  have "flight_ok ?q"
    unfolding flight_ok_def
  proof
    fix p
    from count_open [of "jobs_on p q" "\<lambda>i. farewells i es" d "qu_driver q"] count
    have "sum_list (map (\<lambda>i. length (farewells i es)) (jobs_on p q)) + length (open_on p ?q) = length (open_on p q)"
      by (simp add: open_on_def j)
    moreover have "length (told p q) + length (open_on p q) = (if ln_in_flight (lane_of p q) then 1 else 0)"
      using assms(1) by (simp add: queue_ok_def flight_ok_def)
    ultimately show "length (told p ?q) + length (open_on p ?q) = (if ln_in_flight (lane_of p ?q) then 1 else 0)"
      unfolding t(1) deliver_lane by linarith
  qed
  moreover have "held_ok ?q"
  proof -
    have "idle i d" if "i \<in> set (waiting_jobs p q)" for i p
    proof -
      from that assms(1) have "idle i (qu_driver q)" by (auto simp: queue_ok_def held_ok_def)
      moreover have "i \<notin> X" using that assms(5) by blast
      ultimately show ?thesis using assms(4) unfolding spares_def idle_def known_def by fastforce
    qed
    with assms(1) show ?thesis by (simp add: queue_ok_def held_ok_def w)
  qed
  moreover have "watched_ok ?q"
  proof -
    have "dr_jobs d (fst x) \<noteq> None" if "x \<in> set (qu_watched q)" for x
      using handle [of "fst x" "snd x"] that by (force simp: jobs_on_def)
    moreover have "set (open_on p ?q) \<subseteq> set (open_on p q)" for p
      using handle [of _ p] by (fastforce simp: open_on_def j known_def)
    moreover have "distinct (map fst (qu_watched q))" "\<forall>p. \<forall>i \<in> set (open_on p q). i = last (jobs_on p q)"
      using assms(1) by (auto simp: queue_ok_def watched_ok_def)
    ultimately show ?thesis unfolding watched_ok_def deliver_rest j by blast
  qed
  moreover have "unknown_ok U ?q"
    unfolding unknown_ok_def
  proof (intro allI impI)
    fix p i assume p: "p \<notin> U" "i \<in> set (jobs_on p ?q)" "ended_unknown i (qu_driver ?q)"
    then have i: "i \<in> set (jobs_on p q)" by (simp add: j)
    from handle [OF i] obtain j0 j' where h: "dr_jobs (qu_driver q) i = Some j0" "dr_jobs d i = Some j'"
      "farewells i es = (if \<not> pj_terminal j0 \<and> pj_terminal j' then [pj_state j'] else [])"
      "pj_terminal j0 \<longrightarrow> pj_terminal j' \<and> pj_state j' = pj_state j0" by blast
    show "i = last (jobs_on p ?q) \<and> (ln_blocked (lane_of p ?q) \<or> JS_Unknown \<in> set (told p ?q))"
    proof (cases "pj_terminal j0")
      case True
      with h p(3) have "ended_unknown i (qu_driver q)" by (auto simp: ended_unknown_def)
      with assms(1) p(1) i t(2) show ?thesis by (auto simp: queue_ok_def unknown_ok_def j)
    next
      case False
      with h p(3) have "farewells i es = [JS_Unknown]" by (auto simp: ended_unknown_def)
      with i t(2) have "JS_Unknown \<in> set (told p ?q)" by force
      moreover have "i \<in> set (open_on p q)" using False i h(1) by (simp add: open_on_def known_def)
      ultimately show ?thesis using assms(1) by (simp add: queue_ok_def watched_ok_def j)
    qed
  qed
  moreover have "lanes_ok ?q" using assms(1) by (simp add: queue_ok_def lanes_ok_def)
  ultimately show ?thesis using assms(2) unfolding queue_ok_def by auto
qed

section \<open>The inbox\<close>

lemma hear_keeps [simp]:
  "ln_waiting (hear ev l) = ln_waiting l" "ln_in_flight (hear ev l) = ln_in_flight l"
  "ln_blocked (hear ev l) = ln_blocked l"
  by (cases ev; simp)+

lemma hear_fold:
  "same_view q (foldl (\<lambda>q e. on_lane (fst e) (hear (snd e)) q) q evs) \<and>
   (\<forall>p. ln_blocked (lane_of p (foldl (\<lambda>q e. on_lane (fst e) (hear (snd e)) q) q evs)) = ln_blocked (lane_of p q) \<and>
        has_lane p (foldl (\<lambda>q e. on_lane (fst e) (hear (snd e)) q) q evs) = has_lane p q)"
proof (induction evs arbitrary: q)
  case Nil
  show ?case by (simp add: same_view_def)
next
  case (Cons e evs)
  have "same_view q (on_lane (fst e) (hear (snd e)) q)"
    by (simp add: same_view_def lane_of_on)
  with Cons [of "on_lane (fst e) (hear (snd e)) q"] show ?case
    by (simp add: same_view_def lane_of_on)
qed

lemma conclude_fold:
  "(let q' = foldl (\<lambda>q c. on_lane (fst c) (conclude_job (snd c)) q) q cs
    in qu_driver q' = qu_driver q \<and> qu_watched q' = qu_watched q \<and> qu_completions q' = qu_completions q \<and>
       qu_policy q' = qu_policy q \<and> qu_next_seq q' = qu_next_seq q \<and>
       (\<forall>p. has_lane p q' = has_lane p q \<and>
          lane_of p q' = (if has_lane p q
            then foldl (\<lambda>l s. conclude_job s l) (lane_of p q) (map snd (filter (\<lambda>c. fst c = p) cs))
            else lane_of p q)))"
proof (induction cs arbitrary: q)
  case (Cons c cs)
  from Cons [of "on_lane (fst c) (conclude_job (snd c)) q"] show ?case by (simp add: Let_def lane_of_on)
qed simp

lemma conclude_simps [simp]:
  "ln_waiting (conclude_job s l) = ln_waiting l" "\<not> ln_in_flight (conclude_job s l)"
  "ln_blocked (conclude_job s l) = (ln_blocked l \<or> s = JS_Unknown)"
  by (auto simp: conclude_job_def Let_def)

lemma queue_ok_inbox:
  assumes "queue_ok U q"
  shows "queue_ok U (applyInboxLocked q)" "qu_completions (applyInboxLocked q) = []"
proof -
  let ?q1 = "q\<lparr>qu_completions := [], qu_device_events := [], qu_pending := False\<rparr>"
  let ?q2 = "foldl (\<lambda>q e. on_lane (fst e) (hear (snd e)) q) ?q1 (qu_device_events q)"
  let ?q3 = "applyInboxLocked q"
  have q3: "?q3 = foldl (\<lambda>q c. on_lane (fst c) (conclude_job (snd c)) q) ?q2 (qu_completions q)"
    by (simp add: applyInboxLocked_def Let_def)
  from hear_fold [of ?q1 "qu_device_events q"] have v2: "same_view ?q1 ?q2"
    "\<And>p. ln_blocked (lane_of p ?q2) = ln_blocked (lane_of p q)" "\<And>p. has_lane p ?q2 = has_lane p q"
    by (simp_all add: lane_of_def has_lane_def)
  have lane2: "ln_waiting (lane_of p ?q2) = ln_waiting (lane_of p q)"
    "ln_in_flight (lane_of p ?q2) = ln_in_flight (lane_of p q)" for p
    using v2(1) by (simp_all add: same_view_def lane_of_def)
  from conclude_fold [of ?q2 "qu_completions q"] have rest:
    "qu_driver ?q3 = qu_driver q" "qu_watched ?q3 = qu_watched q" "qu_completions ?q3 = []"
    "qu_policy ?q3 = qu_policy q" "qu_next_seq q \<le> qu_next_seq ?q3"
    and lane3: "\<And>p. lane_of p ?q3 = (if has_lane p q
            then foldl (\<lambda>l s. conclude_job s l) (lane_of p ?q2) (told p q) else lane_of p ?q2)"
    using v2(1,3) by (simp_all add: q3 Let_def same_view_def told_def)
  show "qu_completions ?q3 = []" by (rule rest)
  have few: "told p q = [] \<or> (\<exists>s. told p q = [s] \<and> open_on p q = [] \<and> ln_in_flight (lane_of p q))" for p
  proof -
    have "length (told p q) + length (open_on p q) = (if ln_in_flight (lane_of p q) then 1 else 0)"
      using assms by (simp add: queue_ok_def flight_ok_def)
    then show ?thesis by (cases "told p q") (auto split: if_splits)
  qed
  have lane: "ln_waiting (lane_of p ?q3) = ln_waiting (lane_of p q)"
    "ln_in_flight (lane_of p ?q3) = (ln_in_flight (lane_of p q) \<and> told p q = [])"
    "ln_blocked (lane_of p ?q3) = (ln_blocked (lane_of p q) \<or> JS_Unknown \<in> set (told p q))" for p
    using few [of p] by (auto simp: lane3 lane2 v2(2) no_lane blank_lane_def)
  have j: "jobs_on p ?q3 = jobs_on p q" "open_on p ?q3 = open_on p q" "told p ?q3 = []"
    "waiting_jobs p ?q3 = waiting_jobs p q" for p
    by (simp_all add: jobs_on_def open_on_def told_def waiting_jobs_def rest lane)
  have "flight_ok ?q3"
    unfolding flight_ok_def
  proof
    fix p
    have "length (told p q) + length (open_on p q) = (if ln_in_flight (lane_of p q) then 1 else 0)"
      using assms by (simp add: queue_ok_def flight_ok_def)
    with few [of p] show "length (told p ?q3) + length (open_on p ?q3) = (if ln_in_flight (lane_of p ?q3) then 1 else 0)"
      by (auto simp: j lane)
  qed
  moreover have "held_ok ?q3" "watched_ok ?q3"
    using assms by (simp_all add: queue_ok_def held_ok_def watched_ok_def j rest)
  moreover have "unknown_ok U ?q3" using assms by (simp add: queue_ok_def unknown_ok_def j rest lane)
  moreover have "lanes_ok ?q3"
    using assms rest(5) unfolding queue_ok_def lanes_ok_def Let_def rest(4) lane(1) by (metis order.strict_trans2)
  ultimately show "queue_ok U ?q3" using assms by (simp add: queue_ok_def rest(1))
qed

section \<open>Starting a job\<close>

lemma replay_silent:
  "\<forall>ev \<in> set evs. \<not> terminal_state (je_state ev) \<Longrightarrow> foldl (\<lambda>q ev. completed pid ev q) q evs = q"
  by (induction evs arbitrary: q) (simp_all add: completed_def)

lemma idle_known: "idle i d \<Longrightarrow> known i d \<and> i \<notin> set (queued_jobs d)"
  by (auto simp: idle_def known_def)

text \<open>The lane has let the item go and is free; the job is started on it.\<close>

lemma queue_ok_start:
  assumes ok: "queue_ok U q" and i: "idle (qi_job item) (qu_driver q)" "qi_job item \<notin> fst ` set (qu_watched q)"
    "\<And>p. qi_job item \<notin> set (waiting_jobs p q)"
    and lane: "has_lane pid q" "\<not> ln_in_flight (lane_of pid q)" "\<not> ln_blocked (lane_of pid q)"
  shows "queue_ok U (snd (startLocked pid item q))"
    "fst ` set (qu_watched (snd (startLocked pid item q))) = insert (qi_job item) (fst ` set (qu_watched q))"
    "ln_waiting (lane_of p (snd (startLocked pid item q))) = ln_waiting (lane_of p q)"
proof -
  let ?i = "qi_job item"
  define q1 where "q1 = on_lane pid (\<lambda>l. l\<lparr>ln_in_flight := True\<rparr>) (q\<lparr>qu_drained := qu_drained q + 1\<rparr>)"
  define q2 where "q2 = q1\<lparr>qu_watched := qu_watched q @ [(?i, pid)]\<rparr>"
  have rest: "qu_driver q2 = qu_driver q" "qu_watched q2 = qu_watched q @ [(?i, pid)]"
    "qu_completions q2 = qu_completions q" "qu_policy q2 = qu_policy q" "qu_next_seq q2 = qu_next_seq q"
    by (simp_all add: q2_def q1_def)
  have w: "watch pid ?i q1 = q2"
    using i(1) by (auto simp: watch_def idle_def q1_def q2_def intro: replay_silent)
  obtain f d where d: "submitReserved pid ?i (qi_payload item) (qi_options item) (qu_driver q) = (f, d)" by fastforce
  have s: "snd (startLocked pid item q) = deliver_to pid d q2"
    unfolding startLocked_def q1_def [symmetric] w by (simp add: with_driver_def d rest)
  have none: "told pid q = []" "open_on pid q = []"
  proof -
    have "length (told pid q) + length (open_on pid q) = 0"
      using ok lane(2) by (simp add: queue_ok_def flight_ok_def)
    then show "told pid q = []" "open_on pid q = []" by simp_all
  qed
  have lane1: "lane_of p q2 = (if p = pid then (lane_of p q)\<lparr>ln_in_flight := True\<rparr> else lane_of p q)" for p
  proof -
    have "lane_of p (q\<lparr>qu_drained := n\<rparr>) = lane_of p q" "has_lane p (q\<lparr>qu_drained := n\<rparr>) = has_lane p q" for p n
      using same_lanes [of "q\<lparr>qu_drained := n\<rparr>" q] by simp_all
    moreover have "lane_of p q2 = lane_of p q1" using same_lanes [of q2 q1] by (simp add: q2_def)
    ultimately show ?thesis using lane(1) by (simp add: q1_def lane_of_on)
  qed
  have lane2: "ln_waiting (lane_of p q2) = ln_waiting (lane_of p q)"
    "ln_blocked (lane_of p q2) = ln_blocked (lane_of p q)" for p unfolding lane1 by simp_all
  have j: "jobs_on p q2 = jobs_on p q @ (if p = pid then [?i] else [])" "told p q2 = told p q"
    "waiting_jobs p q2 = waiting_jobs p q" for p
  proof -
    show "jobs_on p q2 = jobs_on p q @ (if p = pid then [?i] else [])" "told p q2 = told p q"
      by (simp_all add: jobs_on_def told_def rest)
    show "waiting_jobs p q2 = waiting_jobs p q" unfolding waiting_jobs_def lane2 ..
  qed
  have o2: "open_on p q2 = open_on p q @ (if p = pid then [?i] else [])" for p
  proof -
    show ?thesis unfolding open_on_def j rest using idle_known [OF i(1)] by simp
  qed
  have no_unknown: "\<not> ended_unknown ?i (qu_driver q)" using i(1) by (auto simp: idle_def ended_unknown_def)
  have old_unknown: "k \<notin> set (jobs_on pid q)" if "pid \<notin> U" "ended_unknown k (qu_driver q)" for k
    using ok that lane(3) none(1) unfolding queue_ok_def unknown_ok_def by auto
  have ok2: "queue_ok U q2"
    unfolding queue_ok_def
  proof (intro conjI)
    show "\<exists>b. driver_ok b (qu_driver q2)" using ok by (simp add: queue_ok_def rest)
    show "flight_ok q2"
      using ok none by (auto simp: queue_ok_def flight_ok_def j o2 lane1 split: if_splits)
    have h: "\<forall>p. \<forall>k \<in> set (waiting_jobs p q). idle k (qu_driver q) \<and> k \<notin> fst ` set (qu_watched q)"
      using ok by (simp add: queue_ok_def held_ok_def)
    have "k \<notin> fst ` set (qu_watched q2)" if "k \<in> set (waiting_jobs p q)" for k p
    proof -
      have "k \<noteq> ?i" using that i(3) by blast
      with h that show ?thesis by (simp add: rest)
    qed
    with ok show "held_ok q2" unfolding queue_ok_def held_ok_def j by (simp add: rest)
    have wd: "distinct (map fst (qu_watched q))" "\<forall>w \<in> set (qu_watched q). dr_jobs (qu_driver q) (fst w) \<noteq> None"
      "\<forall>p. \<forall>k \<in> set (open_on p q). k = last (jobs_on p q)"
      using ok by (auto simp: queue_ok_def watched_ok_def)
    have "dr_jobs (qu_driver q) ?i \<noteq> None" using i(1) by (auto simp: idle_def)
    with wd i(2) none(2) show "watched_ok q2" unfolding watched_ok_def j o2 by (simp add: rest)
    show "unknown_ok U q2"
      using ok no_unknown old_unknown by (auto simp: queue_ok_def unknown_ok_def j lane2 rest)
    show "lanes_ok q2"
      using ok by (simp add: queue_ok_def lanes_ok_def lane2 rest)
  qed
  from ok obtain b where b: "driver_ok b (qu_driver q)" by (rule queue_okD)
  have "queue_ok U (deliver_to pid d q2)"
  proof (rule queue_ok_deliver [OF ok2])
    show "driver_ok b d" using driver_ok_submitReserved [OF b _ d] idle_known [OF i(1)] by blast
    show "balanced (qu_driver q2) d" using balanced_submitReserved [OF d] by (simp add: rest)
    show "spares {?i} (qu_driver q2) d" using spares_submitReserved [OF d] by (simp add: rest)
    show "{?i} \<inter> set (waiting_jobs p q2) = {}" for p using i(3) by (simp add: j)
  qed
  then show "queue_ok U (snd (startLocked pid item q))" by (simp add: s)
  show "fst ` set (qu_watched (snd (startLocked pid item q))) = insert ?i (fst ` set (qu_watched q))"
    by (simp add: s rest)
  show "ln_waiting (lane_of p (snd (startLocked pid item q))) = ln_waiting (lane_of p q)"
    using lane2 by (simp add: s)
qed

section \<open>The queue's own transitions\<close>

lemma known_current_ok: "driver_ok b d \<Longrightarrow> known i d \<Longrightarrow> \<forall>k \<in> {i}. current k d"
  by (simp add: current_known)

text \<open>A transition of a job that waits in no lane and that nobody works on.\<close>

lemma queue_ok_transition:
  assumes ok: "queue_ok U q" and i: "known i (qu_driver q)" "i \<notin> set (queued_jobs (qu_driver q))"
    "\<And>p. i \<notin> set (waiting_jobs p q)"
    and m: "confined {i} m" "tells {i} m" and run: "with_driver pid (on_worker pid m) q = (f, q')"
  shows "queue_ok U q'" "qu_lanes q' = qu_lanes q" "qu_watched q' = qu_watched q" "qu_policy q' = qu_policy q"
    "queued_jobs (qu_driver q') = queued_jobs (qu_driver q)"
proof -
  obtain d where d: "on_worker pid m (qu_driver q) = (f, d)" and q': "q' = deliver_to pid d q"
    using run by (auto simp: with_driver_def split: prod.splits)
  from ok obtain b where b: "driver_ok b (qu_driver q)" by (rule queue_okD)
  show "queue_ok U q'"
    unfolding q'
  proof (rule queue_ok_deliver [OF ok, where X = "{i}"])
    show "driver_ok b d"
      by (rule driver_ok_worker [OF b m(1) d]) (use known_current_ok [OF b i(1)] i(2) in auto)
    show "balanced (qu_driver q) d"
      by (rule balanced_worker [OF m(2) d]) (use i(1) in \<open>auto simp: known_def\<close>)
    show "spares {i} (qu_driver q) d" by (rule spares_worker [OF m(1) d]) auto
    show "{i} \<inter> set (waiting_jobs p q) = {}" for p using i(3) by simp
  qed
  show "qu_lanes q' = qu_lanes q" "qu_watched q' = qu_watched q" "qu_policy q' = qu_policy q" by (simp_all add: q')
  show "queued_jobs (qu_driver q') = queued_jobs (qu_driver q)"
    using on_worker_frame [OF m(1) d] by (simp add: q')
qed

section \<open>Enqueueing keeps the invariant\<close>

lemma same_view_refl [simp]: "same_view q q"
  by (simp add: same_view_def)

lemma queue_ok_lane_made: "queue_ok U q \<Longrightarrow> queue_ok U (laneLocked pid q)"
proof (rule queue_ok_view)
  have "ln_waiting (seed_lane s l) = ln_waiting l \<and> ln_in_flight (seed_lane s l) = ln_in_flight l" for s l
    by (simp add: seed_lane_def Let_def)
  then show "same_view q (laneLocked pid q)" by (auto simp: same_view_def laneLocked_def Let_def)
  show "ln_blocked (lane_of p q) \<Longrightarrow> ln_blocked (lane_of p (laneLocked pid q))" for p
    by (auto simp: laneLocked_def seed_lane_def Let_def)
qed auto

lemma lane_made [simp]: "has_lane pid (laneLocked pid q)"
  by (simp add: laneLocked_def Let_def)

text \<open>A job that was just reserved is idle and in no lane.\<close>

definition fresh_job :: "string \<Rightarrow> queue \<Rightarrow> bool" where
  "fresh_job i q \<longleftrightarrow> idle i (qu_driver q) \<and> i \<notin> fst ` set (qu_watched q) \<and> (\<forall>p. i \<notin> set (waiting_jobs p q))"

lemma reserve_created:
  assumes "driver_ok b d" "fresh_auto auto_id d" "reserve auto_id i pid key kind n d = (Next (i', True), d')"
  shows "i' = i \<and> dr_jobs d i = None \<and> idle i d'"
proof -
  let ?key = "if key = [] then ''auto-'' @ auto_id else key"
  let ?entry = "\<lparr>ent_job = i, ent_printer_id = pid, ent_payload = None, ent_options = default_options, ent_attempt = 1\<rparr>"
  have none: "(if key = [] then None else dr_by_key d key) = None"
    using assms(3) by (auto simp: reserve_def split: option.splits if_splits)
  have mint: "may_mint ?key d" using none assms(2) by (auto simp: may_mint_def fresh_auto_def split: if_splits)
  obtain g d1 where m: "mint i ?key pid kind n ?entry d = (g, d1)" by fastforce
  with assms(3) none obtain u where g: "g = Next u" "i' = i" "d' = d1"
    by (cases g) (auto simp: reserve_def Let_def)
  from mint_created [OF assms(1) mint m [unfolded g(1)]] have q: "i \<notin> set (queued_jobs d1)" by auto
  obtain io now d0 where k: "take_driver_disk d = ((io, now), d0)" by (metis prod.collapse)
  from take_driver_disk_effect (1) [OF k] obtain ds where d0: "d0 = d\<lparr>dr_disk := ds\<rparr>" by blast
  obtain st err where c: "createJob io now (new_record i ?key pid 1 kind n) (dr_store d) = (st, err)" by fastforce
  from m g(1) k d0 c have err: "err = None"
    by (auto simp: mint_def Let_def split: option.splits store_error.splits)
  from createJob_effect (2) [OF c err] have "js_by_id (dr_store d) i = None" by (simp add: new_record_def)
  moreover have "dom (dr_jobs d) = dom (js_by_id (dr_store d))" using assms(1) by (simp add: driver_ok_def books_ok_def)
  ultimately have "dr_jobs d i = None" by (metis domIff)
  moreover have "dr_jobs d1 i = Some (job_emit (make_event JS_Queued CL_TransportAccepted None) (new_job i ?key pid 1))"
    using m g(1) k d0 c err by (auto simp: mint_def Let_def)
  ultimately show ?thesis
    using g(2,3) q by (simp add: idle_def) (simp add: new_job_def job_emit_def terminal_state_def make_event_def)
qed

lemma queue_ok_reserve:
  assumes "queue_ok U q" "fresh_auto auto_id (qu_driver q)"
    "with_driver pid (reserve auto_id i pid key kind n) q = (f, q')"
  shows "queue_ok U q' \<and> qu_lanes q' = qu_lanes q \<and> (\<forall>i'. f = Next (i', True) \<longrightarrow> fresh_job i' q')"
proof -
  from assms(1) obtain b where b: "driver_ok b (qu_driver q)" by (rule queue_okD)
  obtain d where d: "reserve auto_id i pid key kind n (qu_driver q) = (f, d)" and q': "q' = deliver_to pid d q"
    using assms(3) by (auto simp: with_driver_def split: prod.splits)
  have "queue_ok U q'"
    unfolding q'
    by (rule queue_ok_deliver [OF assms(1) driver_ok_reserve [OF b assms(2) d] balanced_reserve [OF b d]
        spares_reserve [OF b d]]) simp
  moreover have "fresh_job i' q'" if "f = Next (i', True)" for i'
  proof -
    from reserve_created [OF b assms(2) d [unfolded that]] have i: "i' = i" "dr_jobs (qu_driver q) i = None" "idle i d" by auto
    have "idle k (qu_driver q)" if "k \<in> set (waiting_jobs p q)" for k p
      using assms(1) that by (simp add: queue_ok_def held_ok_def)
    moreover have "\<not> idle i (qu_driver q)" using i(2) by (simp add: idle_def)
    ultimately have "i \<notin> set (waiting_jobs p q)" for p by blast
    moreover have "i \<notin> fst ` set (qu_watched q)"
      using assms(1) i(2) by (auto simp: queue_ok_def watched_ok_def)
    ultimately show ?thesis using i by (simp add: fresh_job_def q' waiting_jobs_def)
  qed
  ultimately show ?thesis by (simp add: q')
qed

lemma fresh_jobD:
  assumes "fresh_job i q"
  shows "known i (qu_driver q)" "i \<notin> set (queued_jobs (qu_driver q))" "i \<notin> set (waiting_jobs p q)"
    "i \<notin> fst ` set (qu_watched q)" "idle i (qu_driver q)"
  using assms idle_known by (auto simp: fresh_job_def)

text \<open>What the held job looks like.\<close>

lemma hold_idle:
  assumes "fresh_job i q" "holdLocked pid i q = (Next u, q')"
  shows "fresh_job i q'"
proof -
  obtain d where d: "on_worker pid (advance i JS_HeldOffline CL_TransportAccepted FR_None default_evidence) (qu_driver q) = (Next u, d)"
    and q': "q' = deliver_to pid d q"
    using assms(2) by (auto simp: holdLocked_def with_driver_def split: prod.splits)
  obtain w where w: "find_printer pid (qu_driver q) = Some w"
    using d by (cases "find_printer pid (qu_driver q)") (auto simp: on_worker_def)
  obtain e' where e': "advance i JS_HeldOffline CL_TransportAccepted FR_None default_evidence (enter (qu_driver q) w) = (Next u, e')"
    "dr_jobs d = en_jobs e'"
    using d w by (auto simp: on_worker_def leave_def split: prod.splits)
  have "en_jobs (enter (qu_driver q) w) = dr_jobs (qu_driver q)" by (simp add: enter_def)
  with advance_effects [OF e'(1)] e'(2) have jobs: "dr_jobs d = (dr_jobs (qu_driver q))
      (i := map_option (job_emit (make_event JS_HeldOffline CL_TransportAccepted None)) (dr_jobs (qu_driver q) i))"
    by (simp add: Let_def)
  have "queued_jobs d = queued_jobs (qu_driver q)"
    using on_worker_frame [OF confined_advance d, of "{i}"] by simp
  with jobs assms(1) have "idle i d"
    by (auto simp: fresh_job_def idle_def) (auto simp: job_emit_def make_event_def terminal_state_def)
  with assms(1) show ?thesis by (simp add: fresh_job_def q' waiting_jobs_def)
qed

lemma queue_ok_add:
  assumes "queue_ok U q" "fresh_job (qi_job item) q" "has_lane pid q"
    "qp_max_depth (qu_policy q) = 0 \<or> length (ln_waiting (lane_of pid q)) < qp_max_depth (qu_policy q)"
    "\<forall>x \<in> set (ln_waiting (lane_of pid q)). qi_seq x < qi_seq item" "qi_seq item < qu_next_seq q"
  shows "queue_ok U (signal (add_waiting pid item q))"
proof -
  let ?q = "signal (add_waiting pid item q)"
  have lane: "lane_of p ?q = (if p = pid then (lane_of p q)\<lparr>ln_waiting := ln_waiting (lane_of p q) @ [item]\<rparr> else lane_of p q)" for p
  proof -
    have "lane_of p (signal x) = lane_of p x" for x by (simp add: signal_def lane_of_def)
    then show ?thesis using assms(3) by (simp add: add_waiting_def lane_of_on)
  qed
  have rest: "qu_driver ?q = qu_driver q" "qu_watched ?q = qu_watched q" "qu_completions ?q = qu_completions q"
    "qu_policy ?q = qu_policy q" "qu_next_seq ?q = qu_next_seq q" by (simp_all add: signal_def add_waiting_def)
  have j: "jobs_on p ?q = jobs_on p q" "told p ?q = told p q" "open_on p ?q = open_on p q"
    "waiting_jobs p ?q = waiting_jobs p q @ (if p = pid then [qi_job item] else [])" for p
    by (simp_all add: jobs_on_def told_def open_on_def waiting_jobs_def rest lane)
  show ?thesis
    unfolding queue_ok_def
  proof (intro conjI)
    show "\<exists>b. driver_ok b (qu_driver ?q)" using assms(1) by (simp add: queue_ok_def rest)
    show "flight_ok ?q" using assms(1) by (auto simp: queue_ok_def flight_ok_def j lane)
    show "held_ok ?q"
      unfolding held_ok_def j rest
    proof (intro conjI allI ballI impI)
      have h: "\<forall>p. distinct (waiting_jobs p q)"
        "\<forall>p. \<forall>i \<in> set (waiting_jobs p q). idle i (qu_driver q) \<and> i \<notin> fst ` set (qu_watched q)"
        "\<forall>p p'. p \<noteq> p' \<longrightarrow> set (waiting_jobs p q) \<inter> set (waiting_jobs p' q) = {}"
        using assms(1) by (auto simp: queue_ok_def held_ok_def)
      note f = fresh_jobD [OF assms(2)]
      show "distinct (waiting_jobs p q @ (if p = pid then [qi_job item] else []))" for p
        using h(1) f(3) by simp
      show "idle i (qu_driver q)" "i \<notin> fst ` set (qu_watched q)"
        if "i \<in> set (waiting_jobs p q @ (if p = pid then [qi_job item] else []))" for i p
      proof -
        have "idle i (qu_driver q) \<and> i \<notin> fst ` set (qu_watched q)"
        proof (cases "i = qi_job item")
          case False
          with that have "i \<in> set (waiting_jobs p q)" by (cases "p = pid") simp_all
          with h(2) show ?thesis by blast
        qed (use f(4,5) in simp)
        then show "idle i (qu_driver q)" "i \<notin> fst ` set (qu_watched q)" by simp_all
      qed
      show "set (waiting_jobs p q @ (if p = pid then [qi_job item] else [])) \<inter>
          set (waiting_jobs p' q @ (if p' = pid then [qi_job item] else [])) = {}" if "p \<noteq> p'" for p p'
      proof -
        have "set (waiting_jobs p q) \<inter> set (waiting_jobs p' q) = {}" using h(3) that by blast
        moreover have "qi_job item \<notin> set (waiting_jobs p q)" "qi_job item \<notin> set (waiting_jobs p' q)" by (rule f(3))+
        moreover have "set (xs @ (if a then [x] else [])) \<inter> set (ys @ (if c then [x] else [])) = {}"
          if "set xs \<inter> set ys = {}" "x \<notin> set xs" "x \<notin> set ys" "\<not> (a \<and> c)" for xs ys :: "string list" and a c x
          using that by (cases a; cases c) auto
        moreover have "\<not> (p = pid \<and> p' = pid)" using that by blast
        ultimately show ?thesis by blast
      qed
    qed
    show "watched_ok ?q" using assms(1) by (simp add: queue_ok_def watched_ok_def j rest)
    show "unknown_ok U ?q" using assms(1) by (auto simp: queue_ok_def unknown_ok_def j rest lane)
    show "lanes_ok ?q"
      using assms(1,4,5,6) by (auto simp: queue_ok_def lanes_ok_def lane rest Let_def sorted_wrt_append)
  qed
qed

lemma with_driver_rest:
  assumes "with_driver pid f q = (r, q')"
  shows "qu_lanes q' = qu_lanes q" "qu_policy q' = qu_policy q" "qu_next_seq q' = qu_next_seq q"
    "qu_watched q' = qu_watched q" "lane_of p q' = lane_of p q"
  using assms by (auto simp: with_driver_def split: prod.splits)

lemma tells_hold: "tells {i} (advance i JS_HeldOffline c r ev)"
  by (rule tells_advance) (simp add: terminal_state_def)

lemma tells_fail: "tells {i} (terminate_job i JS_FailedKnown r)"
  by (rule tells_terminate) (simp add: terminal_state_def)

lemma queue_ok_place:
  assumes ok: "queue_ok U q" and i: "fresh_job i q" and lane: "has_lane pid q"
  shows "queue_ok U (snd (place now pid payload o' i q))"
proof -
  let ?l = "lane_of pid q"
  let ?full = "qp_max_depth (qu_policy q) \<noteq> 0 \<and> qp_max_depth (qu_policy q) \<le> length (ln_waiting ?l)"
  consider (start) "drainableLocked (qu_policy q) ?l" | (full) "\<not> drainableLocked (qu_policy q) ?l" "?full"
    | (hold) "\<not> drainableLocked (qu_policy q) ?l" "\<not> ?full" by blast
  then show ?thesis
  proof cases
    case start
    then have "\<not> ln_in_flight ?l" "\<not> ln_blocked ?l" by (auto simp: drainableLocked_def)
    with queue_ok_start [OF ok _ _ _ lane] fresh_jobD [OF i] start show ?thesis
      by (simp add: place_def Let_def)
  next
    case full
    obtain f q1 where f: "finishLocked pid i FR_QueueOverflow q = (f, q1)" by fastforce
    have "queue_ok U q1"
      by (rule queue_ok_transition [OF ok fresh_jobD(1-3) [OF i] _ tells_fail f [unfolded finishLocked_def]])
        (simp add: confined_terminate)
    moreover have "queue_ok U (q1\<lparr>qu_overflowed := n\<rparr>)" if "queue_ok U q1" for n
      by (rule queue_ok_view [OF that]) (simp_all add: same_view_def lane_of_def)
    ultimately show ?thesis using full f by (cases f) (simp_all add: place_def Let_def act_then_def act_change_def)
  next
    case hold
    let ?q0 = "q\<lparr>qu_next_seq := qu_next_seq q + 1\<rparr>"
    have ok0: "queue_ok U ?q0" by (rule queue_ok_view [OF ok]) (simp_all add: same_view_def lane_of_def)
    have i0: "fresh_job i ?q0" using i by (simp add: fresh_job_def waiting_jobs_def lane_of_def)
    obtain f q1 where f: "holdLocked pid i ?q0 = (f, q1)" by fastforce
    have ok1: "queue_ok U q1"
      by (rule queue_ok_transition [OF ok0 fresh_jobD(1-3) [OF i0] _ tells_hold f [unfolded holdLocked_def]])
        (simp add: confined_advance)
    note rest = with_driver_rest [OF f [unfolded holdLocked_def]]
    have seqs: "\<forall>x \<in> set (ln_waiting (lane_of pid q)). qi_seq x < qu_next_seq q"
      using ok by (simp add: queue_ok_def lanes_ok_def Let_def)
    have "queue_ok U (signal (add_waiting pid item q1))"
      if "f = Next u" "qi_job item = i" "qi_seq item = qu_next_seq q" for u item
    proof (rule queue_ok_add [OF ok1])
      show "fresh_job (qi_job item) q1" using hold_idle [OF i0 f [unfolded that(1)]] that(2) by simp
      show "has_lane pid q1" using same_lanes [OF rest(1)] same_lanes [of ?q0 q] lane by simp
      have l: "lane_of pid q1 = lane_of pid q" using rest(5) [of pid] by (simp add: lane_of_def)
      show "qp_max_depth (qu_policy q1) = 0 \<or> length (ln_waiting (lane_of pid q1)) < qp_max_depth (qu_policy q1)"
        using hold(2) rest(2) l by auto
      show "\<forall>x \<in> set (ln_waiting (lane_of pid q1)). qi_seq x < qi_seq item" using seqs that(3) l by simp
      show "qi_seq item < qu_next_seq q1" using rest(3) that(3) by simp
    qed
    with hold f ok1 show ?thesis
      by (cases f) (auto simp: place_def Let_def act_then_def act_change_def)
  qed
qed

lemma queue_ok_enqueue:
  assumes "queue_ok U q" "fresh_auto auto_id (qu_driver q)"
  shows "queue_ok U (snd (enqueue now auto_id i pid payload o' q))"
proof -
  let ?q0 = "laneLocked pid q"
  have ok0: "queue_ok U ?q0" by (rule queue_ok_lane_made [OF assms(1)])
  have d0: "qu_driver ?q0 = qu_driver q" by (simp add: laneLocked_def Let_def)
  obtain f q1 where r: "with_driver pid (reserve auto_id i pid (qo_key o') (payload_kind_of payload)
      (payloadInputBytes payload)) ?q0 = (f, q1)" by fastforce
  from queue_ok_reserve [OF ok0 _ r] assms(2) d0 have q1: "queue_ok U q1" "qu_lanes q1 = qu_lanes ?q0"
    "\<And>i'. f = Next (i', True) \<Longrightarrow> fresh_job i' q1" by auto
  have lane: "has_lane pid q1" using same_lanes [OF q1(2)] by simp
  have place: "queue_ok U (snd (place now pid payload o' i' q1))" if "f = Next (i', True)" for i'
    by (rule queue_ok_place [OF q1(1) q1(3) [OF that] lane])
  have pass: "snd (act_then m (\<lambda>u q. (Next a, q)) x) = snd (m x)" for m :: "unit act" and a :: string and x
    by (cases "m x"; cases "fst (m x)") (auto simp: act_then_def)
  show ?thesis
    using r q1(1) place by (cases f) (auto simp: enqueue_def act_then_def [of "with_driver _ _"] pass)
qed

section \<open>The pump keeps the invariant\<close>

lemma lane_of_set [simp]:
  "lane_of p (set_waiting pid items q) =
     (if p = pid \<and> has_lane pid q then (lane_of p q)\<lparr>ln_waiting := items\<rparr> else lane_of p q)"
  by (simp add: set_waiting_def lane_of_on)

lemma set_waiting_rest [simp]:
  "qu_driver (set_waiting pid items q) = qu_driver q" "qu_watched (set_waiting pid items q) = qu_watched q"
  "qu_completions (set_waiting pid items q) = qu_completions q" "qu_policy (set_waiting pid items q) = qu_policy q"
  "qu_next_seq (set_waiting pid items q) = qu_next_seq q" "has_lane p (set_waiting pid items q) = has_lane p q"
  by (simp_all add: set_waiting_def)

lemma subseq_out: "subseq (xs @ ys) (xs @ x # ys)"
  by (rule list_emb_append_mono) (simp_all add: list_emb_Cons)

lemma sorted_subseq: "subseq xs ys \<Longrightarrow> sorted_wrt P ys \<Longrightarrow> sorted_wrt P xs"
proof (induction rule: list_emb.induct)
  case (list_emb_Cons2 x y xs ys)
  then show ?case by (auto dest: list_emb_set)
qed simp_all

lemma subseq_distinct: "subseq xs ys \<Longrightarrow> distinct ys \<Longrightarrow> distinct xs"
proof (induction rule: list_emb.induct)
  case (list_emb_Cons2 x y xs ys)
  then show ?case by (auto dest: list_emb_set)
qed simp_all

lemma disjoint_smaller: "A \<inter> B = {} \<Longrightarrow> A' \<subseteq> A \<Longrightarrow> B' \<subseteq> B \<Longrightarrow> A' \<inter> B' = {}"
  by blast

lemma queue_ok_shorter:
  assumes ok: "queue_ok U q" and sub: "subseq items (ln_waiting (lane_of pid q))"
  shows "queue_ok U (set_waiting pid items q)"
proof (cases "has_lane pid q")
  case True
  let ?q = "set_waiting pid items q"
  have lane: "lane_of p ?q = (if p = pid then (lane_of p q)\<lparr>ln_waiting := items\<rparr> else lane_of p q)" for p
    using True by simp
  have j: "jobs_on p ?q = jobs_on p q" "told p ?q = told p q" "open_on p ?q = open_on p q" for p
    by (simp_all add: jobs_on_def told_def open_on_def)
  have s: "set items \<subseteq> set (ln_waiting (lane_of pid q))" using sub by (auto dest: list_emb_set)
  have w: "set (waiting_jobs p ?q) \<subseteq> set (waiting_jobs p q)" for p
    using s by (auto simp: waiting_jobs_def lane)
  have "subseq (map qi_job items) (map qi_job (ln_waiting (lane_of pid q)))" using sub by (rule subseq_map)
  then have d: "distinct (waiting_jobs p ?q)" for p
    using ok subseq_distinct [of "map qi_job items"]
    by (auto simp: queue_ok_def held_ok_def waiting_jobs_def lane)
  show ?thesis
    unfolding queue_ok_def
  proof (intro conjI)
    show "\<exists>b. driver_ok b (qu_driver ?q)" using ok by (simp add: queue_ok_def)
    have same: "ln_in_flight (lane_of p ?q) = ln_in_flight (lane_of p q)" "ln_blocked (lane_of p ?q) = ln_blocked (lane_of p q)" for p
      unfolding lane by simp_all
    show "flight_ok ?q" using ok unfolding queue_ok_def flight_ok_def j same by blast
    show "held_ok ?q"
      unfolding held_ok_def set_waiting_rest
    proof (intro conjI allI ballI impI)
      have h: "\<forall>p. \<forall>i \<in> set (waiting_jobs p q). idle i (qu_driver q) \<and> i \<notin> fst ` set (qu_watched q)"
        "\<forall>p p'. p \<noteq> p' \<longrightarrow> set (waiting_jobs p q) \<inter> set (waiting_jobs p' q) = {}"
        using ok by (auto simp: queue_ok_def held_ok_def)
      show "distinct (waiting_jobs p ?q)" for p by (rule d)
      show "idle i (qu_driver q)" "i \<notin> fst ` set (qu_watched q)" if "i \<in> set (waiting_jobs p ?q)" for i p
        using bspec [OF spec [OF h(1), of p] subsetD [OF w that]] by auto
      show "set (waiting_jobs p ?q) \<inter> set (waiting_jobs p' ?q) = {}" if "p \<noteq> p'" for p p'
      proof -
        have "set (waiting_jobs p q) \<inter> set (waiting_jobs p' q) = {}" using h(2) that by blast
        then show ?thesis using w [of p] w [of p'] by (rule disjoint_smaller)
      qed
    qed
    show "watched_ok ?q" using ok unfolding queue_ok_def watched_ok_def j set_waiting_rest by blast
    show "unknown_ok U ?q" using ok unfolding queue_ok_def unknown_ok_def j same set_waiting_rest by blast
    have "sorted_wrt (\<lambda>a b. qi_seq a < qi_seq b) items"
      using ok sub by (auto simp: queue_ok_def lanes_ok_def Let_def intro: sorted_subseq)
    moreover have "length items \<le> length (ln_waiting (lane_of pid q))" using sub by (rule list_emb_length)
    moreover have "\<forall>p. (qp_max_depth (qu_policy q) \<noteq> 0 \<longrightarrow> length (ln_waiting (lane_of p q)) \<le> qp_max_depth (qu_policy q)) \<and>
        sorted_wrt (\<lambda>a b. qi_seq a < qi_seq b) (ln_waiting (lane_of p q)) \<and>
        (\<forall>x \<in> set (ln_waiting (lane_of p q)). qi_seq x < qu_next_seq q)"
      using ok by (simp add: queue_ok_def lanes_ok_def Let_def)
    ultimately have "(qp_max_depth (qu_policy q) \<noteq> 0 \<longrightarrow> length (ln_waiting (lane_of p ?q)) \<le> qp_max_depth (qu_policy q)) \<and>
        sorted_wrt (\<lambda>a b. qi_seq a < qi_seq b) (ln_waiting (lane_of p ?q)) \<and>
        (\<forall>x \<in> set (ln_waiting (lane_of p ?q)). qi_seq x < qu_next_seq q)" for p
      using s unfolding lane by (cases "p = pid") (auto intro: order_trans)
    then show "lanes_ok ?q" unfolding lanes_ok_def Let_def set_waiting_rest by blast
  qed
next
  case False
  with ok show ?thesis by (simp add: set_waiting_def on_lane_def has_lane_def)
qed

text \<open>A call into the driver and the change of a lane do not see each other.\<close>

lemma queue_commute: "q\<lparr>qu_lanes := L, qu_driver := d\<rparr> = q\<lparr>qu_driver := d, qu_lanes := L\<rparr>"
  by simp

lemma deliver_lanes: "deliver_to pid d (q\<lparr>qu_lanes := L\<rparr>) = (deliver_to pid d q)\<lparr>qu_lanes := L\<rparr>"
proof -
  have "notice pid x (q\<lparr>qu_lanes := L\<rparr>) = (notice pid x q)\<lparr>qu_lanes := L\<rparr>" for x q
    by (simp add: notice_def completed_fold split: effect.split)
  then have "foldl (\<lambda>q x. notice pid x q) (q\<lparr>qu_lanes := L\<rparr>) es = (foldl (\<lambda>q x. notice pid x q) q es)\<lparr>qu_lanes := L\<rparr>" for q es
    by (induction es arbitrary: q) simp_all
  then have "foldl (\<lambda>q x. notice pid x q) (q\<lparr>qu_driver := d, qu_lanes := L\<rparr>) es =
      (foldl (\<lambda>q x. notice pid x q) (q\<lparr>qu_driver := d\<rparr>) es)\<lparr>qu_lanes := L\<rparr>" for es
    by simp
  from this [of "drop (length (dr_log (qu_driver q))) (dr_log d)"] show ?thesis
    unfolding deliver_to_def by (subst queue_commute) simp
qed

lemma queue_ok_fields:
  assumes "queue_ok U q" "qu_driver q' = qu_driver q" "qu_watched q' = qu_watched q"
    "qu_completions q' = qu_completions q" "qu_policy q' = qu_policy q" "qu_next_seq q' = qu_next_seq q"
    "qu_lanes q' = qu_lanes q"
  shows "queue_ok U q'"
  by (rule queue_ok_view [OF assms(1)]) (use assms in \<open>simp_all add: same_view_def lane_of_def\<close>)

text \<open>One expired job: finished and taken out, or left where it was by a failed append.\<close>

lemma queue_ok_expire_one:
  assumes ok: "queue_ok U q" and lane: "has_lane pid q" and w: "ln_waiting (lane_of pid q) = kept @ x # xs"
    and fin: "finishLocked pid (qi_job x) FR_Expired q = (f, q')"
  shows "(\<forall>u. f \<noteq> Next u) \<longrightarrow> queue_ok U q'"
    "f = Next u \<Longrightarrow> queue_ok U (set_waiting pid (kept @ xs) (q'\<lparr>qu_expired := n\<rparr>))"
proof -
  let ?i = "qi_job x" and ?m = "terminate_job (qi_job x) JS_FailedKnown (result_failed FR_Expired CL_TransportAccepted)"
  obtain d where d: "on_worker pid ?m (qu_driver q) = (f, d)" and q': "q' = deliver_to pid d q"
    using fin by (auto simp: finishLocked_def with_driver_def split: prod.splits)
  have "?i \<in> set (waiting_jobs pid q)" using w by (simp add: waiting_jobs_def)
  with ok have i: "idle ?i (qu_driver q)" by (auto simp: queue_ok_def held_ok_def)
  have nowhere: "?i \<notin> set (waiting_jobs p (set_waiting pid (kept @ xs) q))" for p
  proof -
    have "distinct (waiting_jobs pid q)" using ok by (simp add: queue_ok_def held_ok_def)
    moreover have "p \<noteq> pid \<longrightarrow> set (waiting_jobs p q) \<inter> set (waiting_jobs pid q) = {}"
      using ok by (auto simp: queue_ok_def held_ok_def)
    ultimately show ?thesis using w lane by (auto simp: waiting_jobs_def)
  qed
  have ok1: "queue_ok U (set_waiting pid (kept @ xs) q)"
    by (rule queue_ok_shorter [OF ok]) (simp only: w subseq_out)
  show "f = Next u \<Longrightarrow> queue_ok U (set_waiting pid (kept @ xs) (q'\<lparr>qu_expired := n\<rparr>))"
  proof -
    have "queue_ok U (deliver_to pid d (set_waiting pid (kept @ xs) q))"
    proof (rule queue_ok_transition(1) [OF ok1 _ _ nowhere confined_terminate tells_fail])
      show "known ?i (qu_driver (set_waiting pid (kept @ xs) q))"
        "?i \<notin> set (queued_jobs (qu_driver (set_waiting pid (kept @ xs) q)))" using idle_known [OF i] by auto
      show "?i \<in> {?i}" by simp
      show "with_driver pid (on_worker pid ?m) (set_waiting pid (kept @ xs) q) =
          (f, deliver_to pid d (set_waiting pid (kept @ xs) q))" using d by (simp add: with_driver_def)
    qed
    then show ?thesis
      by (rule queue_ok_fields)
        (simp_all add: q' set_waiting_def on_lane_def put_lane_def deliver_lanes split: option.split)
  qed
  show "(\<forall>u. f \<noteq> Next u) \<longrightarrow> queue_ok U q'"
  proof
    assume failed: "\<forall>u. f \<noteq> Next u"
    from ok obtain b where b: "driver_ok b (qu_driver q)" by (rule queue_okD)
    have kn: "known ?i (qu_driver q)" "?i \<notin> set (queued_jobs (qu_driver q))" using idle_known [OF i] by auto
    have same: "dr_jobs d = dr_jobs (qu_driver q)"
    proof (cases "find_printer pid (qu_driver q)")
      case None
      with d show ?thesis by (simp add: on_worker_def)
    next
      case (Some w)
      obtain e' where e': "?m (enter (qu_driver q) w) = (f, e')" "dr_jobs d = en_jobs e'"
        using d Some by (auto simp: on_worker_def leave_def split: prod.splits)
      obtain g e1 where a: "advance ?i JS_FailedKnown (jr_confidence (result_failed FR_Expired CL_TransportAccepted))
          (jr_reason (result_failed FR_Expired CL_TransportAccepted))
          (result_evidence (result_failed FR_Expired CL_TransportAccepted)) (enter (qu_driver q) w) = (g, e1)" by fastforce
      with e'(1) failed have "\<forall>u. g \<noteq> Next u" by (auto simp: terminate_job_def run_then_def change_def)
      with advance_effects [OF a] e' a show ?thesis
        by (auto simp: terminate_job_def run_then_def enter_def)
    qed
    show "queue_ok U q'"
      unfolding q'
    proof (rule queue_ok_deliver [OF ok, where X = "{}"])
      show "driver_ok b d"
        by (rule driver_ok_worker [OF b confined_terminate d, of "{?i}"]) (use known_current_ok [OF b kn(1)] kn(2) in auto)
      show "balanced (qu_driver q) d"
        by (rule balanced_worker [OF tells_fail d]) (use kn(1) in \<open>auto simp: known_def\<close>)
      have "queued_jobs d = queued_jobs (qu_driver q)"
        using on_worker_frame [OF confined_terminate d, of "{?i}"] by simp
      with same show "spares {} (qu_driver q) d" by (simp add: spares_same)
    qed simp
  qed
qed

lemma queue_ok_expire:
  "queue_ok U q \<Longrightarrow> has_lane pid q \<Longrightarrow> ln_waiting (lane_of pid q) = kept @ rest \<Longrightarrow>
   queue_ok U (snd (expire pid now kept rest q)) \<and>
   (\<forall>p. has_lane p (snd (expire pid now kept rest q)) = has_lane p q)"
proof (induction rest arbitrary: kept q)
  case (Cons x xs)
  show ?case
  proof (cases "is_due now x")
    case True
    obtain f q1 where f: "finishLocked pid (qi_job x) FR_Expired q = (f, q1)" by fastforce
    from with_driver_rest [OF f [unfolded finishLocked_def]] have l: "qu_lanes q1 = qu_lanes q" by simp
    have lanes1: "has_lane p q1 = has_lane p q" for p using same_lanes [OF l] by simp
    show ?thesis
    proof (cases f)
      case (Next u)
      let ?q2 = "set_waiting pid (kept @ xs) (q1\<lparr>qu_expired := qu_expired q1 + 1\<rparr>)"
      have l2: "lane_of p (q1\<lparr>qu_expired := qu_expired q1 + 1\<rparr>) = lane_of p q \<and>
          has_lane p (q1\<lparr>qu_expired := qu_expired q1 + 1\<rparr>) = has_lane p q" for p
        using l same_lanes [of "q1\<lparr>qu_expired := qu_expired q1 + 1\<rparr>" q] by simp
      then have lane2: "has_lane p ?q2 = has_lane p q" for p by simp
      have "queue_ok U ?q2"
        using queue_ok_expire_one(2) [OF Cons.prems(1,2) Cons.prems(3) f Next] .
      moreover have "ln_waiting (lane_of pid ?q2) = kept @ xs"
        using Cons.prems(2) l2 by simp
      ultimately show ?thesis
        using Cons.IH [of ?q2 kept] lane2 Cons.prems(2) True f Next by (simp add: act_then_def)
    qed (use queue_ok_expire_one(1) [OF Cons.prems(1,2) Cons.prems(3) f] True f lanes1 in \<open>simp_all add: act_then_def\<close>)
  next
    case False
    with Cons.IH [of q "kept @ [x]"] Cons.prems show ?thesis by simp
  qed
qed simp

lemma select_go:
  "a \<le> n \<Longrightarrow> foldl (\<lambda>best i. if B i best then i else best) a [Suc a..<Suc n] \<le> n"
proof (induction n)
  case (Suc n)
  show ?case
  proof (cases "a \<le> n")
    case True
    with Suc.IH show ?thesis by simp
  qed (use Suc.prems in simp)
qed simp

lemma selectLocked_bound: "ws \<noteq> [] \<Longrightarrow> selectLocked policy ws < length ws"
  using select_go [of 0 "length ws - 1"] by (cases ws) (auto simp: selectLocked_def less_Suc_eq_le)

lemma queue_ok_drain:
  assumes ok: "queue_ok U q" and lane: "has_lane pid q"
  shows "queue_ok U (snd (drain_one pid q))"
proof (cases "ln_waiting (lane_of pid q) \<noteq> [] \<and> drainableLocked (qu_policy q) (lane_of pid q)")
  case True
  let ?ws = "ln_waiting (lane_of pid q)"
  let ?k = "selectLocked (qu_policy q) ?ws"
  let ?q = "set_waiting pid (take ?k ?ws @ drop (Suc ?k) ?ws) q"
  have k: "?k < length ?ws" using True selectLocked_bound by blast
  then have split: "?ws = take ?k ?ws @ ?ws ! ?k # drop (Suc ?k) ?ws" by (rule id_take_nth_drop)
  have "subseq (take ?k ?ws @ drop (Suc ?k) ?ws) (take ?k ?ws @ ?ws ! ?k # drop (Suc ?k) ?ws)"
    by (rule subseq_out)
  with split have "subseq (take ?k ?ws @ drop (Suc ?k) ?ws) ?ws" by simp
  with ok have ok1: "queue_ok U ?q" by (rule queue_ok_shorter)
  let ?x = "?ws ! ?k"
  have x: "qi_job ?x \<in> set (waiting_jobs pid q)" using k by (auto simp: waiting_jobs_def)
  have "distinct (map qi_job (take ?k ?ws @ ?x # drop (Suc ?k) ?ws))"
    using ok split by (simp add: queue_ok_def held_ok_def waiting_jobs_def)
  then have here: "qi_job ?x \<notin> set (waiting_jobs pid ?q)"
    using lane by (simp add: waiting_jobs_def)
  have gone: "qi_job ?x \<notin> set (waiting_jobs p ?q)" for p
  proof (cases "p = pid")
    case False
    with ok have "set (waiting_jobs p q) \<inter> set (waiting_jobs pid q) = {}" by (simp add: queue_ok_def held_ok_def)
    with x False show ?thesis by (auto simp: waiting_jobs_def)
  qed (use here in simp)
  have lanes: "has_lane pid ?q" "\<not> ln_in_flight (lane_of pid ?q)" "\<not> ln_blocked (lane_of pid ?q)"
    using True lane by (auto simp: drainableLocked_def)
  have "idle (qi_job ?x) (qu_driver ?q)" "qi_job ?x \<notin> fst ` set (qu_watched ?q)"
    using ok x by (auto simp: queue_ok_def held_ok_def)
  from queue_ok_start(1) [OF ok1 this gone lanes] True show ?thesis
    by (simp add: drain_one_def Let_def)
next
  case False
  then have "drain_one pid q = (Next (), q)" unfolding drain_one_def Let_def by (rule if_not_P)
  with ok show ?thesis by simp
qed

lemma start_lanes: "has_lane p (snd (startLocked pid item q)) = has_lane p q"
proof -
  have "has_lane p (watch pid i x) = has_lane p x" for i x
  proof -
    have "qu_lanes (foldl (\<lambda>q ev. completed pid ev q) x evs) = qu_lanes x" for x evs
      by (induction evs arbitrary: x) (simp_all add: completed_def)
    then show ?thesis using same_lanes [of "watch pid i x" x] by (simp add: watch_def)
  qed
  moreover have "has_lane p (deliver_to pid d x) = has_lane p x" "has_lane p (x\<lparr>qu_drained := n\<rparr>) = has_lane p x" for d x n
    using same_lanes [of "deliver_to pid d x" x] same_lanes [of "x\<lparr>qu_drained := n\<rparr>" x] by simp_all
  ultimately show ?thesis
    by (simp add: startLocked_def with_driver_def split_beta)
qed

lemma queue_ok_pump_lane:
  assumes "queue_ok U q" "has_lane pid q"
  shows "queue_ok U (snd (pump_lane pid now q)) \<and> (\<forall>p. has_lane p (snd (pump_lane pid now q)) = has_lane p q)"
proof -
  obtain f q1 where e: "expire pid now [] (ln_waiting (lane_of pid q)) q = (f, q1)" by fastforce
  with queue_ok_expire [OF assms, of "[]" "ln_waiting (lane_of pid q)" now]
  have q1: "queue_ok U q1" "\<And>p. has_lane p q1 = has_lane p q" by auto
  have "has_lane p (snd (drain_one pid q1)) = has_lane p q1" for p
    by (simp add: drain_one_def Let_def start_lanes)
  with e q1 queue_ok_drain [of U q1 pid] assms(2) show ?thesis
    by (cases f) (simp_all add: pump_lane_def act_then_def)
qed

lemma queue_ok_pump_lanes:
  "queue_ok U q \<Longrightarrow> \<forall>p \<in> set pids. has_lane p q \<Longrightarrow> queue_ok U (snd (pump_lanes now pids next q))"
proof (induction pids arbitrary: q "next")
  case (Cons pid pids)
  obtain f q1 where p: "pump_lane pid now q = (f, q1)" by fastforce
  with queue_ok_pump_lane [of U q pid now] Cons.prems have "queue_ok U q1" "\<forall>p \<in> set pids. has_lane p q1" by auto
  with p Cons.IH show ?case by (cases f) (simp_all add: act_then_def)
qed simp

lemma queue_ok_pump: "queue_ok U q \<Longrightarrow> queue_ok U (snd (pumpLocked now q))"
  unfolding pumpLocked_def Let_def
  by (rule queue_ok_pump_lanes) (auto simp: queue_ok_inbox has_lane_def map_of_eq_None_iff rev_image_eqI)

lemma queue_ok_tick: "queue_ok U q \<Longrightarrow> queue_ok U (snd (tick now q))"
  using queue_ok_pump [of U q now]
  by (cases "pumpLocked now q"; cases "fst (pumpLocked now q)") (auto simp: tick_def act_then_def)

lemma queue_ok_unblock: "queue_ok U q \<Longrightarrow> queue_ok (insert pid U) (unblock pid q)"
  by (erule queue_ok_view)
    (auto simp: same_view_def unblock_def signal_def lane_of_on [unfolded lane_of_def] lane_of_def
      on_lane_def put_lane_def update_conv' split: option.split)

lemma queue_ok_pause: "queue_ok U q \<Longrightarrow> queue_ok U (pause pid q)"
  by (erule queue_ok_view) (auto simp: same_view_def pause_def)

lemma queue_ok_resume: "queue_ok U q \<Longrightarrow> queue_ok U (resume pid q)"
  by (erule queue_ok_view)
    (auto simp: same_view_def resume_def signal_def lane_of_def on_lane_def put_lane_def update_conv' split: option.split)

lemma queue_ok_new:
  assumes "driver_ok b d"
  shows "queue_ok U (new_queue policy d)"
proof -
  have l: "lane_of p (new_queue policy d) = blank_lane" for p by (simp add: lane_of_def new_queue_def)
  have e: "jobs_on p (new_queue policy d) = []" "told p (new_queue policy d) = []" "open_on p (new_queue policy d) = []"
    "waiting_jobs p (new_queue policy d) = []" for p
    by (simp_all add: jobs_on_def told_def open_on_def waiting_jobs_def l) (simp_all add: new_queue_def blank_lane_def)
  have "driver_ok b (qu_driver (new_queue policy d))" using assms by (simp add: new_queue_def)
  moreover have "qu_watched (new_queue policy d) = []" by (simp add: new_queue_def)
  ultimately show ?thesis
    unfolding queue_ok_def flight_ok_def held_ok_def watched_ok_def unknown_ok_def lanes_ok_def
    by (auto simp: e l Let_def) (simp_all add: blank_lane_def)
qed

end
