(* ===== verification/Queue_Rules.thy ===== *)
theory Queue_Rules imports
  Queue_Invariant
begin

text \<open>
  The rules of the print queue over every run of it: what the application does, the driver's
  workers and the queue's own thread, in any order. They rest on the invariant of
  \<^theory_text>\<open>Queue_Invariant\<close>.
\<close>

section \<open>Runs\<close>

text \<open>
  A run starts with a driver that has run before. The set is that of the printers somebody has
  unblocked. A step of the driver that is not the queue's is any step of the application or of
  a worker but the release of a reservation, which is the queue's own; it may be about any
  printer.
\<close>

inductive queue_run :: "string set \<Rightarrow> queue \<Rightarrow> bool" where
  queue_start: "driver_run b d \<Longrightarrow> queue_run {} (new_queue policy d)"
| queue_enqueue: "queue_run U q \<Longrightarrow> fresh_auto auto_id (qu_driver q) \<Longrightarrow>
    queue_run U (snd (enqueue now auto_id i pid payload o' q))"
| queue_tick: "queue_run U q \<Longrightarrow> queue_run U (snd (tick now q))"
| queue_look: "queue_run U q \<Longrightarrow> queue_run U (snd (look_at_inbox is_stopping next q))"
| queue_unblock: "queue_run U q \<Longrightarrow> queue_run (insert pid U) (unblock pid q)"
| queue_pause: "queue_run U q \<Longrightarrow> queue_run U (pause pid q)"
| queue_resume: "queue_run U q \<Longrightarrow> queue_run U (resume pid q)"
| queue_driver: "queue_run U q \<Longrightarrow> app_step (qu_driver q) d \<Longrightarrow> queue_run U (deliver_to pid d q)"
| queue_disk: "queue_run U q \<Longrightarrow> queue_run U (q\<lparr>qu_driver := (qu_driver q)\<lparr>dr_disk := disk\<rparr>\<rparr>)"

lemma queue_ok_disk:
  assumes "queue_ok U q"
  shows "queue_ok U (q\<lparr>qu_driver := (qu_driver q)\<lparr>dr_disk := disk\<rparr>\<rparr>)"
proof -
  let ?d = "(qu_driver q)\<lparr>dr_disk := disk\<rparr>"
  from assms obtain b where b: "driver_ok b (qu_driver q)" by (rule queue_okD)
  have "driver_ok False ?d"
    by (rule Driver_Runs.same_view [OF b]) simp_all
  moreover have "balanced (qu_driver q) ?d" by (rule balanced_same) simp_all
  moreover have "spares {} (qu_driver q) ?d" by (rule spares_same) (simp_all add: queued_jobs_def)
  ultimately have "queue_ok U (deliver_to [] ?d q)"
    using queue_ok_deliver [OF assms, of False ?d "{}" "[]"] by simp
  then show ?thesis by (simp add: deliver_to_def)
qed

lemma queue_ok_run: "queue_run U q \<Longrightarrow> queue_ok U q"
proof (induction rule: queue_run.induct)
  case (queue_start b d policy)
  then show ?case by (intro queue_ok_new driver_ok_run)
next
  case (queue_look U q is_stopping n)
  then show ?case by (auto simp: look_at_inbox_def intro: queue_ok_fields)
next
  case (queue_driver U q d pid)
  from queue_driver.IH obtain b where b: "driver_ok b (qu_driver q)" by (rule queue_okD)
  note s = queue_driver.hyps(2)
  show ?case
    by (rule queue_ok_deliver [OF queue_driver.IH driver_ok_app_step [OF s b] balanced_step [OF s b] spares_step [OF s b]])
      simp
qed (simp_all add: queue_ok_enqueue queue_ok_tick queue_ok_unblock queue_ok_pause queue_ok_resume queue_ok_disk)

section \<open>The rules\<close>

lemma distinct_filter_fst: "distinct (map fst ws) \<Longrightarrow> distinct (map fst (filter P ws))"
  by (induction ws) auto

text \<open>
  C5: an Unknown ends the lane. In every run, on a printer nobody has unblocked, nothing was
  started after a job that ended Unknown: it may have printed, so what follows waits until a
  person has looked.
\<close>

theorem unknown_ends_the_lane:
  assumes "queue_run U q" "pid \<notin> U" "jobs_on pid q = before @ i # after" "ended_unknown i (qu_driver q)"
  shows "after = []"
proof (rule ccontr)
  assume "after \<noteq> []"
  note ok = queue_ok_run [OF assms(1)]
  have "i \<in> set (jobs_on pid q)" using assms(3) by simp
  with ok assms(2,4) have "i = last (jobs_on pid q)" by (simp add: queue_ok_def unknown_ok_def)
  then have "i = last (before @ i # after)" unfolding assms(3) .
  with \<open>after \<noteq> []\<close> have "i \<in> set after" by simp
  moreover have "distinct (jobs_on pid q)"
    using ok by (auto simp: queue_ok_def watched_ok_def jobs_on_def intro: distinct_filter_fst)
  ultimately show False using assms(3) by simp
qed

text \<open>
  C24: one job per printer, and the held ones untouched. In every run the jobs a printer was
  given that are not finished are one at most; a job that is held in a lane was given to no
  printer, is not finished and waits in no other lane.
\<close>

theorem one_job_in_flight:
  assumes "queue_run U q"
  shows "length (filter (\<lambda>i. known i (qu_driver q)) (jobs_on pid q)) \<le> 1 \<and>
    (\<forall>i \<in> set (waiting_jobs pid q). i \<notin> fst ` set (qu_watched q) \<and> i \<notin> set (queued_jobs (qu_driver q)) \<and>
       known i (qu_driver q) \<and> (\<forall>p. i \<in> set (waiting_jobs p q) \<longrightarrow> p = pid))"
proof -
  note ok = queue_ok_run [OF assms]
  have "length (told pid q) + length (open_on pid q) = (if ln_in_flight (lane_of pid q) then 1 else 0)"
    using ok by (simp add: queue_ok_def flight_ok_def)
  then have "length (open_on pid q) \<le> 1" by (simp split: if_splits)
  moreover have h: "\<forall>p. \<forall>i \<in> set (waiting_jobs p q). idle i (qu_driver q) \<and> i \<notin> fst ` set (qu_watched q)"
    "\<forall>p p'. p \<noteq> p' \<longrightarrow> set (waiting_jobs p q) \<inter> set (waiting_jobs p' q) = {}"
    using ok by (auto simp: queue_ok_def held_ok_def)
  ultimately show ?thesis unfolding open_on_def using idle_known by blast
qed

text \<open>
  C27: a lane stays within its depth. In every run no lane holds more than the policy's depth,
  when it sets one, and its jobs stand in the order they were enqueued.
\<close>

theorem lane_depth_bounded:
  assumes "queue_run U q"
  shows "(qp_max_depth (qu_policy q) = 0 \<or> depth_of pid q \<le> qp_max_depth (qu_policy q)) \<and>
    sorted_wrt (\<lambda>a b. qi_seq a < qi_seq b) (ln_waiting (lane_of pid q))"
  using queue_ok_run [OF assms] by (auto simp: queue_ok_def lanes_ok_def depth_of_def Let_def)

text \<open>The search for the next job: its choice goes before every other.\<close>

lemma goes_before_trans:
  "goes_before policy a b \<Longrightarrow> goes_before policy b c \<Longrightarrow> goes_before policy a c"
  by (auto simp: goes_before_def split: if_splits)

lemma goes_before_total:
  "qi_seq a \<noteq> qi_seq b \<Longrightarrow> \<not> goes_before policy a b \<Longrightarrow> goes_before policy b a"
  by (auto simp: goes_before_def split: if_splits)

lemma select_best:
  assumes "\<And>k l. k < length ws \<Longrightarrow> l < length ws \<Longrightarrow> k \<noteq> l \<Longrightarrow> qi_seq (ws ! k) \<noteq> qi_seq (ws ! l)"
    "0 < n" "n \<le> length ws"
  shows "\<forall>k < n. k \<noteq> foldl (\<lambda>best i. if goes_before policy (ws ! i) (ws ! best) then i else best) 0 [1..<n] \<longrightarrow>
    goes_before policy (ws ! foldl (\<lambda>best i. if goes_before policy (ws ! i) (ws ! best) then i else best) 0 [1..<n]) (ws ! k)"
  using assms(2,3)
proof (induction n)
  case (Suc n)
  let ?f = "\<lambda>best i. if goes_before policy (ws ! i) (ws ! best) then i else best"
  show ?case
  proof (cases n)
    case (Suc m)
    let ?b = "foldl ?f 0 [1..<n]"
    have up: "[1..<Suc n] = [1..<n] @ [n]" using Suc by simp
    have step: "foldl ?f 0 [1..<Suc n] = ?f ?b n" unfolding up by simp
    have bound: "?b < n" using select_go [of 0 m "\<lambda>i best. goes_before policy (ws ! i) (ws ! best)"] Suc by simp
    have old: "\<forall>k < n. k \<noteq> ?b \<longrightarrow> goes_before policy (ws ! ?b) (ws ! k)"
      using Suc.IH Suc.prems Suc by simp
    have diff: "qi_seq (ws ! n) \<noteq> qi_seq (ws ! ?b)"
      by (rule assms(1)) (use bound Suc.prems in simp_all)
    show ?thesis
    proof (cases "goes_before policy (ws ! n) (ws ! ?b)")
      case True
      have "goes_before policy (ws ! n) (ws ! k)" if "k < n" for k
      proof (cases "k = ?b")
        case False
        with old that have "goes_before policy (ws ! ?b) (ws ! k)" by blast
        with True show ?thesis by (rule goes_before_trans)
      qed (use True in simp)
      then show ?thesis unfolding step if_P [OF True] using less_Suc_eq by auto
    next
      case False
      then have "goes_before policy (ws ! ?b) (ws ! n)"
        by (rule goes_before_total [OF diff])
      with old show ?thesis unfolding step if_not_P [OF False] using less_Suc_eq by auto
    qed
  qed simp
qed simp

text \<open>
  C26: the drain order. On a lane of any run that holds jobs, the drain picks the one that goes
  before every other: under Fifo the one that was enqueued first, under Priority the one of the
  highest priority and of these the one enqueued first.
\<close>

theorem drain_picks_the_first:
  assumes "queue_run U q" "ws = ln_waiting (lane_of pid q)" "ws \<noteq> []"
  shows "\<exists>k < length ws. k = selectLocked (qu_policy q) ws \<and>
    (qp_drain_order (qu_policy q) = Fifo \<longrightarrow> k = 0) \<and>
    (qp_drain_order (qu_policy q) = Priority \<longrightarrow>
       (\<forall>l < length ws. qi_priority (ws ! l) \<le> qi_priority (ws ! k) \<and>
          (qi_priority (ws ! l) = qi_priority (ws ! k) \<longrightarrow> k \<le> l)))"
proof -
  let ?k = "selectLocked (qu_policy q) ws"
  have s: "sorted_wrt (\<lambda>a b. qi_seq a < qi_seq b) ws"
    using queue_ok_run [OF assms(1)] assms(2) by (simp add: queue_ok_def lanes_ok_def Let_def)
  then have lt: "k < l \<Longrightarrow> l < length ws \<Longrightarrow> qi_seq (ws ! k) < qi_seq (ws ! l)" for k l
    by (simp add: sorted_wrt_iff_nth_less)
  then have diff: "qi_seq (ws ! k) \<noteq> qi_seq (ws ! l)" if "k < length ws" "l < length ws" "k \<noteq> l" for k l
    using that by (metis nat_neq_iff)
  have bound: "?k < length ws" by (rule selectLocked_bound [OF assms(3)])
  have best: "goes_before (qu_policy q) (ws ! ?k) (ws ! l)" if "l < length ws" "l \<noteq> ?k" for l
    using select_best [of ws "length ws" "qu_policy q"] diff that assms(3) by (simp add: selectLocked_def)
  have "?k = 0" if "qp_drain_order (qu_policy q) = Fifo"
  proof (rule ccontr)
    assume "?k \<noteq> 0"
    then have "0 \<noteq> ?k" by (rule not_sym)
    moreover have "0 < length ws" using assms(3) by simp
    ultimately have "goes_before (qu_policy q) (ws ! ?k) (ws ! 0)" by (intro best)
    with that lt [of 0 ?k] \<open>?k \<noteq> 0\<close> bound show False by (simp add: goes_before_def)
  qed
  moreover have "qi_priority (ws ! l) \<le> qi_priority (ws ! ?k) \<and> (qi_priority (ws ! l) = qi_priority (ws ! ?k) \<longrightarrow> ?k \<le> l)"
    if "qp_drain_order (qu_policy q) = Priority" "l < length ws" for l
  proof (cases "l = ?k")
    case False
    with best that have "goes_before (qu_policy q) (ws ! ?k) (ws ! l)" by simp
    with that(1) have "qi_priority (ws ! l) < qi_priority (ws ! ?k) \<or>
        (qi_priority (ws ! l) = qi_priority (ws ! ?k) \<and> qi_seq (ws ! ?k) < qi_seq (ws ! l))"
      by (auto simp: goes_before_def split: if_splits)
    with lt [of l ?k] bound show ?thesis by (cases "l < ?k") auto
  qed simp
  ultimately show ?thesis using bound by blast
qed

section \<open>Expiry\<close>

lemma inbox_keeps:
  "qu_driver (applyInboxLocked q) = qu_driver q" "qu_watched (applyInboxLocked q) = qu_watched q"
  "ln_waiting (lane_of p (applyInboxLocked q)) = ln_waiting (lane_of p q)"
proof -
  have c: "ln_waiting (foldl (\<lambda>l s. conclude_job s l) l ss) = ln_waiting l" for l ss
    by (induction ss arbitrary: l) simp_all
  let ?q1 = "q\<lparr>qu_completions := [], qu_device_events := [], qu_pending := False\<rparr>"
  let ?q2 = "foldl (\<lambda>q e. on_lane (fst e) (hear (snd e)) q) ?q1 (qu_device_events q)"
  have "lane_of p ?q1 = lane_of p q" by (simp add: lane_of_def)
  then show "qu_driver (applyInboxLocked q) = qu_driver q" "qu_watched (applyInboxLocked q) = qu_watched q"
    "ln_waiting (lane_of p (applyInboxLocked q)) = ln_waiting (lane_of p q)"
    using hear_fold [of ?q1 "qu_device_events q"] conclude_fold [of ?q2 "qu_completions q"]
    by (simp_all add: applyInboxLocked_def Let_def same_view_def c)
qed

lemma failed_stays: "balanced d d' \<Longrightarrow> failed_and_finished i d \<Longrightarrow> failed_and_finished i d'"
  unfolding balanced_def fair_def failed_and_finished_def by (fastforce split: option.splits)

lemma terminate_ends:
  assumes "terminate_job i s res e = (Next u, e')" "en_jobs e i = Some j"
  shows "\<exists>j'. en_jobs e' i = Some j' \<and> pj_terminal j' \<and> pj_state j' = s"
proof -
  obtain g e1 where a: "advance i s (jr_confidence res) (jr_reason res) (result_evidence res) e = (g, e1)" by fastforce
  with assms(1) have g: "g = Next ()" "e' = log_effect (Finished i res) (on_job i (job_finish res) e1)"
    by (cases g; auto simp: terminate_job_def run_then_def change_def)+
  from advance_effects [OF a] g(1) assms(2) obtain x where "en_jobs e1 i = Some (job_emit x j)" "je_state x = s"
    by (auto simp: Let_def make_event_def)
  with g(2) show ?thesis by (simp add: log_effect_def on_job_def job_finish_def job_emit_def)
qed

lemma finish_effect:
  assumes "finishLocked pid i r q = (f, q')" "known i (qu_driver q)"
  shows "balanced (qu_driver q) (qu_driver q')" "f = Next u \<Longrightarrow> failed_and_finished i (qu_driver q')"
    "qu_watched q' = qu_watched q" "lane_of p q' = lane_of p q" "has_lane p q' = has_lane p q"
proof -
  let ?m = "terminate_job i JS_FailedKnown (result_failed r CL_TransportAccepted)"
  obtain d where d: "on_worker pid ?m (qu_driver q) = (f, d)" and q': "q' = deliver_to pid d q"
    using assms(1) by (auto simp: finishLocked_def with_driver_def split: prod.splits)
  show "balanced (qu_driver q) (qu_driver q')"
    unfolding q' deliver_rest by (rule balanced_worker [OF tells_fail d]) (use assms(2) in \<open>auto simp: known_def\<close>)
  show "failed_and_finished i (qu_driver q')" if "f = Next u"
  proof -
    from assms(2) obtain j where j: "dr_jobs (qu_driver q) i = Some j" by (auto simp: known_def)
    from d that obtain w e' where "?m (enter (qu_driver q) w) = (Next u, e')" "dr_jobs d = en_jobs e'"
      by (auto simp: on_worker_def leave_def split: prod.splits option.splits)
    with terminate_ends [OF this(1)] j show ?thesis
      by (auto simp: q' enter_def failed_and_finished_def)
  qed
  show "qu_watched q' = qu_watched q" "lane_of p q' = lane_of p q" by (simp_all add: q')
  show "has_lane p q' = has_lane p q" using same_lanes [of q' q] by (simp add: q')
qed

text \<open>
  What a pass over some lanes does to the held items: none is added, the due ones are finished
  and never started, and only those that are not due may be started.
\<close>

definition pass :: "nat \<Rightarrow> string set \<Rightarrow> queue \<Rightarrow> queue \<Rightarrow> bool" where
  "pass now P q q' \<longleftrightarrow>
     balanced (qu_driver q) (qu_driver q') \<and> (\<forall>p. has_lane p q' = has_lane p q) \<and>
     (\<forall>p. set (ln_waiting (lane_of p q')) \<subseteq> set (ln_waiting (lane_of p q))) \<and>
     (\<forall>i \<in> fst ` set (qu_watched q'). i \<in> fst ` set (qu_watched q) \<or>
        (\<exists>p. \<exists>x \<in> set (ln_waiting (lane_of p q)). qi_job x = i \<and> \<not> is_due now x)) \<and>
     (\<forall>p. \<forall>x \<in> set (ln_waiting (lane_of p q)). is_due now x \<longrightarrow>
        (if x \<in> set (ln_waiting (lane_of p q')) then p \<notin> P
         else failed_and_finished (qi_job x) (qu_driver q')))"

lemma expire_effect:
  "queue_ok U q \<Longrightarrow> has_lane pid q \<Longrightarrow> ln_waiting (lane_of pid q) = kept @ rest \<Longrightarrow>
   expire pid now kept rest q = (Next u, q') \<Longrightarrow>
   queue_ok U q' \<and> balanced (qu_driver q) (qu_driver q') \<and> (\<forall>p. has_lane p q' = has_lane p q) \<and>
   qu_watched q' = qu_watched q \<and> (\<forall>p. p \<noteq> pid \<longrightarrow> lane_of p q' = lane_of p q) \<and>
   ln_waiting (lane_of pid q') = kept @ filter (\<lambda>x. \<not> is_due now x) rest \<and>
   (\<forall>x \<in> set rest. is_due now x \<longrightarrow> failed_and_finished (qi_job x) (qu_driver q'))"
proof (induction rest arbitrary: kept q)
  case Nil
  then show ?case by (simp add: balanced_same)
next
  case (Cons x xs)
  show ?case
  proof (cases "is_due now x")
    case True
    have "qi_job x \<in> set (waiting_jobs pid q)" using Cons.prems(3) by (simp add: waiting_jobs_def)
    with Cons.prems(1) have "idle (qi_job x) (qu_driver q)" by (auto simp: queue_ok_def held_ok_def)
    then have kn: "known (qi_job x) (qu_driver q)" using idle_known by blast
    obtain f q1 where f: "finishLocked pid (qi_job x) FR_Expired q = (f, q1)" by fastforce
    with Cons.prems(4) True have g: "f = Next ()" by (cases f) (auto simp: act_then_def)
    note e = finish_effect [OF f kn]
    let ?q2 = "set_waiting pid (kept @ xs) (q1\<lparr>qu_expired := qu_expired q1 + 1\<rparr>)"
    have l2: "lane_of p (q1\<lparr>qu_expired := qu_expired q1 + 1\<rparr>) = lane_of p q \<and>
        has_lane p (q1\<lparr>qu_expired := qu_expired q1 + 1\<rparr>) = has_lane p q" for p
      using e(4,5) same_lanes [of "q1\<lparr>qu_expired := qu_expired q1 + 1\<rparr>" q1] by simp
    then have lane2: "has_lane p ?q2 = has_lane p q" for p by simp
    have w2: "lane_of p ?q2 = (if p = pid then (lane_of p q)\<lparr>ln_waiting := kept @ xs\<rparr> else lane_of p q)" for p
      using l2 Cons.prems(2) by simp
    have ok2: "queue_ok U ?q2" using queue_ok_expire_one(2) [OF Cons.prems(1,2,3) f g] .
    have run: "expire pid now kept xs ?q2 = (Next u, q')"
      using Cons.prems(4) True f g by (simp add: act_then_def)
    have ih: "queue_ok U q' \<and> balanced (qu_driver ?q2) (qu_driver q') \<and> (\<forall>p. has_lane p q' = has_lane p ?q2) \<and>
       qu_watched q' = qu_watched ?q2 \<and> (\<forall>p. p \<noteq> pid \<longrightarrow> lane_of p q' = lane_of p ?q2) \<and>
       ln_waiting (lane_of pid q') = kept @ filter (\<lambda>x. \<not> is_due now x) xs \<and>
       (\<forall>x \<in> set xs. is_due now x \<longrightarrow> failed_and_finished (qi_job x) (qu_driver q'))"
      by (rule Cons.IH [OF ok2 _ _ run]) (use lane2 w2 Cons.prems(2) in simp_all)
    have b2: "balanced (qu_driver q1) (qu_driver q')" using ih by simp
    have "failed_and_finished (qi_job x) (qu_driver q')"
      by (rule failed_stays [OF b2]) (rule e(2) [OF g])
    moreover have "balanced (qu_driver q) (qu_driver q')" using e(1) b2 by (rule balanced_trans)
    moreover have "qu_watched ?q2 = qu_watched q" using e(3) by simp
    moreover have "lane_of p ?q2 = lane_of p q" if "p \<noteq> pid" for p unfolding w2 using that by simp
    ultimately show ?thesis using ih True lane2 by simp
  next
    case False
    with Cons.IH [of q "kept @ [x]"] Cons.prems show ?thesis by simp
  qed
qed

lemma start_effect:
  "balanced (qu_driver q) (qu_driver (snd (startLocked pid item q))) \<and>
   ln_waiting (lane_of p (snd (startLocked pid item q))) = ln_waiting (lane_of p q) \<and>
   fst ` set (qu_watched (snd (startLocked pid item q))) = insert (qi_job item) (fst ` set (qu_watched q))"
proof -
  let ?q1 = "on_lane pid (\<lambda>l. l\<lparr>ln_in_flight := True\<rparr>) (q\<lparr>qu_drained := qu_drained q + 1\<rparr>)"
  obtain f d where d: "submitReserved pid (qi_job item) (qi_payload item) (qi_options item) (qu_driver q) = (f, d)" by fastforce
  have w: "qu_driver (watch pid i x) = qu_driver x" "qu_lanes (watch pid i x) = qu_lanes x"
    "qu_watched (watch pid i x) = qu_watched x @ [(i, pid)]" for i x
  proof -
    have "qu_driver (foldl (\<lambda>q ev. completed pid ev q) y evs) = qu_driver y \<and>
        qu_lanes (foldl (\<lambda>q ev. completed pid ev q) y evs) = qu_lanes y \<and>
        qu_watched (foldl (\<lambda>q ev. completed pid ev q) y evs) = qu_watched y" for y evs
      by (induction evs arbitrary: y) (simp_all add: completed_def)
    then show "qu_driver (watch pid i x) = qu_driver x" "qu_lanes (watch pid i x) = qu_lanes x"
      "qu_watched (watch pid i x) = qu_watched x @ [(i, pid)]" by (simp_all add: watch_def)
  qed
  have s: "snd (startLocked pid item q) = deliver_to pid d (watch pid (qi_job item) ?q1)"
    unfolding startLocked_def using d by (simp add: with_driver_def w)
  have "ln_waiting (lane_of p ?q1) = ln_waiting (lane_of p q)"
    using same_lanes [of "q\<lparr>qu_drained := qu_drained q + 1\<rparr>" q] by (simp add: lane_of_on)
  moreover have "lane_of p (watch pid (qi_job item) ?q1) = lane_of p ?q1"
    using same_lanes [OF w(2)] by blast
  moreover have "balanced (qu_driver q) d" by (rule balanced_submitReserved [OF d])
  ultimately show ?thesis unfolding s by (simp add: w)
qed

lemma drain_effect:
  assumes "has_lane pid q" "drain_one pid q = (f, q')"
  shows "balanced (qu_driver q) (qu_driver q') \<and> has_lane p q' = has_lane p q \<and>
    set (ln_waiting (lane_of p q')) \<subseteq> set (ln_waiting (lane_of p q)) \<and>
    (p \<noteq> pid \<longrightarrow> ln_waiting (lane_of p q') = ln_waiting (lane_of p q)) \<and>
    fst ` set (qu_watched q') \<subseteq> fst ` set (qu_watched q) \<union> set (waiting_jobs pid q)"
proof (cases "ln_waiting (lane_of pid q) \<noteq> [] \<and> drainableLocked (qu_policy q) (lane_of pid q)")
  case True
  let ?ws = "ln_waiting (lane_of pid q)"
  let ?k = "selectLocked (qu_policy q) ?ws"
  define q1 where "q1 = set_waiting pid (take ?k ?ws @ drop (Suc ?k) ?ws) q"
  have k: "?k < length ?ws" using True selectLocked_bound by blast
  have q': "q' = snd (startLocked pid (?ws ! ?k) q1)"
    using assms(2) True by (simp add: drain_one_def Let_def q1_def)
  have q1: "qu_driver q1 = qu_driver q" "qu_watched q1 = qu_watched q" "has_lane p q1 = has_lane p q"
    by (simp_all add: q1_def)
  have "set (ln_waiting (lane_of p q1)) \<subseteq> set (ln_waiting (lane_of p q))"
    unfolding q1_def lane_of_set by (auto dest: in_set_takeD in_set_dropD)
  moreover have "p \<noteq> pid \<longrightarrow> ln_waiting (lane_of p q1) = ln_waiting (lane_of p q)"
    by (simp add: q1_def)
  moreover have "qi_job (?ws ! ?k) \<in> set (waiting_jobs pid q)" using k by (simp add: waiting_jobs_def)
  ultimately show ?thesis
    using start_effect [of q1 pid "?ws ! ?k" p] start_lanes [of p pid "?ws ! ?k" q1] unfolding q' q1 by simp
next
  case False
  then have "q' = q" using assms(2) by (auto simp: drain_one_def Let_def)
  then show ?thesis by (simp add: balanced_same)
qed

lemma pass_lane:
  assumes ok: "queue_ok U q" and lane: "has_lane pid q" and run: "pump_lane pid now q = (Next u, q')"
  shows "pass now {pid} q q'"
proof -
  let ?ws = "ln_waiting (lane_of pid q)"
  obtain f q1 where e: "expire pid now [] ?ws q = (f, q1)" by fastforce
  with run have f: "f = Next ()" and d: "drain_one pid q1 = (Next u, q')"
    by (cases f; auto simp: pump_lane_def act_then_def)+
  from expire_effect [OF ok lane _ e [unfolded f]] have e1: "balanced (qu_driver q) (qu_driver q1)"
    "\<And>p. has_lane p q1 = has_lane p q" "qu_watched q1 = qu_watched q"
    "\<And>p. p \<noteq> pid \<Longrightarrow> lane_of p q1 = lane_of p q"
    "ln_waiting (lane_of pid q1) = filter (\<lambda>x. \<not> is_due now x) ?ws"
    "\<forall>x \<in> set ?ws. is_due now x \<longrightarrow> failed_and_finished (qi_job x) (qu_driver q1)" by simp_all
  have lane1: "has_lane pid q1" using e1(2) lane by simp
  note d1 = drain_effect [OF lane1 d]
  have sub1: "set (ln_waiting (lane_of p q1)) \<subseteq> set (ln_waiting (lane_of p q))" for p
    using e1(4,5) by (cases "p = pid") auto
  have sub: "set (ln_waiting (lane_of p q')) \<subseteq> set (ln_waiting (lane_of p q1))" for p using d1 [of p] by blast
  have started: "\<exists>x \<in> set ?ws. qi_job x = i \<and> \<not> is_due now x" if "i \<in> set (waiting_jobs pid q1)" for i
    using that e1(5) by (auto simp: waiting_jobs_def)
  have b1: "balanced (qu_driver q1) (qu_driver q')" using d1 by blast
  show ?thesis
    unfolding pass_def
  proof (intro conjI allI ballI impI)
    show "balanced (qu_driver q) (qu_driver q')" using e1(1) b1 by (rule balanced_trans)
    show "has_lane p q' = has_lane p q" for p using d1 [of p] e1(2) by simp
    show "set (ln_waiting (lane_of p q')) \<subseteq> set (ln_waiting (lane_of p q))" for p using sub sub1 by blast
    show "i \<in> fst ` set (qu_watched q) \<or> (\<exists>p. \<exists>x \<in> set (ln_waiting (lane_of p q)). qi_job x = i \<and> \<not> is_due now x)"
      if "i \<in> fst ` set (qu_watched q')" for i
    proof -
      have "i \<in> fst ` set (qu_watched q) \<or> i \<in> set (waiting_jobs pid q1)" using d1 [of pid] that unfolding e1(3) by blast
      with started show ?thesis by blast
    qed
    fix p x assume x: "x \<in> set (ln_waiting (lane_of p q))" "is_due now x"
    show "if x \<in> set (ln_waiting (lane_of p q')) then p \<notin> {pid} else failed_and_finished (qi_job x) (qu_driver q')"
    proof (cases "p = pid")
      case True
      with x e1(5) sub [of pid] have "x \<notin> set (ln_waiting (lane_of p q'))" by auto
      with e1(6) x True failed_stays [OF b1] show ?thesis by simp
    next
      case False
      with x e1(4) d1 [of p] show ?thesis by simp
    qed
  qed
qed

lemma pass_refl: "pass now {} q q"
  by (auto simp: pass_def intro: balanced_same)

lemma pass_trans:
  assumes "pass now P a b" "pass now Q b c"
  shows "pass now (P \<union> Q) a c"
proof -
  note a = assms(1) [unfolded pass_def] and b = assms(2) [unfolded pass_def]
  have bal: "balanced (qu_driver a) (qu_driver b)" "balanced (qu_driver b) (qu_driver c)" using a b by auto
  have subs: "set (ln_waiting (lane_of p b)) \<subseteq> set (ln_waiting (lane_of p a))"
    "set (ln_waiting (lane_of p c)) \<subseteq> set (ln_waiting (lane_of p b))" for p using a b by auto
  show ?thesis
    unfolding pass_def
  proof (intro conjI allI ballI impI)
    show "balanced (qu_driver a) (qu_driver c)" using bal by (rule balanced_trans)
    show "has_lane p c = has_lane p a" for p using a b by simp
    show "set (ln_waiting (lane_of p c)) \<subseteq> set (ln_waiting (lane_of p a))" for p using subs by blast
    show "i \<in> fst ` set (qu_watched a) \<or> (\<exists>p. \<exists>x \<in> set (ln_waiting (lane_of p a)). qi_job x = i \<and> \<not> is_due now x)"
      if "i \<in> fst ` set (qu_watched c)" for i
    proof -
      have "i \<in> fst ` set (qu_watched b) \<or> (\<exists>p. \<exists>x \<in> set (ln_waiting (lane_of p b)). qi_job x = i \<and> \<not> is_due now x)"
        using b that by blast
      with a subs(1) show ?thesis by blast
    qed
    fix p x assume x: "x \<in> set (ln_waiting (lane_of p a))" "is_due now x"
    show "if x \<in> set (ln_waiting (lane_of p c)) then p \<notin> P \<union> Q else failed_and_finished (qi_job x) (qu_driver c)"
    proof (cases "x \<in> set (ln_waiting (lane_of p b))")
      case True
      have "if x \<in> set (ln_waiting (lane_of p b)) then p \<notin> P else failed_and_finished (qi_job x) (qu_driver b)"
        using a x by blast
      with True have "p \<notin> P" by simp
      moreover have "if x \<in> set (ln_waiting (lane_of p c)) then p \<notin> Q else failed_and_finished (qi_job x) (qu_driver c)"
        using b True x(2) by blast
      ultimately show ?thesis by simp
    next
      case False
      have "if x \<in> set (ln_waiting (lane_of p b)) then p \<notin> P else failed_and_finished (qi_job x) (qu_driver b)"
        using a x by blast
      with False have "failed_and_finished (qi_job x) (qu_driver b)" by simp
      with bal(2) have "failed_and_finished (qi_job x) (qu_driver c)" by (rule failed_stays)
      with False subs(2) show ?thesis by auto
    qed
  qed
qed

lemma pass_lanes:
  "queue_ok U q \<Longrightarrow> \<forall>p \<in> set pids. has_lane p q \<Longrightarrow> pump_lanes now pids next q = (Next u, q') \<Longrightarrow>
   pass now (set pids) q q'"
proof (induction pids arbitrary: q "next")
  case (Cons pid pids)
  obtain f q1 where p: "pump_lane pid now q = (f, q1)" by fastforce
  with Cons.prems(3) have f: "f = Next ()" and run: "pump_lanes now pids (foldl earlier next (ln_waiting (lane_of pid q1))) q1 = (Next u, q')"
    by (cases f; auto simp: act_then_def)+
  have lane: "has_lane pid q" using Cons.prems(2) by simp
  from queue_ok_pump_lane [OF Cons.prems(1) lane, of now] p
  have q1: "queue_ok U q1" "\<forall>p \<in> set pids. has_lane p q1" using Cons.prems(2) by auto
  have "pass now ({pid} \<union> set pids) q q'"
    by (rule pass_trans [OF pass_lane [OF Cons.prems(1) lane p [unfolded f]] Cons.IH [OF q1 run]])
  then show ?case by simp
qed (auto simp: pass_refl)

text \<open>
  C23: an expired job is never sent. When a tick at a time returns, every job that was held in
  any lane and whose deadline had passed is finished as a known failure; it is in no lane any
  more and was given to no printer.
\<close>

theorem expired_never_sent:
  assumes "queue_run U q" "tick now q = (Next u, q')" "x \<in> set (ln_waiting (lane_of pid q))" "is_due now x"
  shows "failed_and_finished (qi_job x) (qu_driver q') \<and> x \<notin> set (ln_waiting (lane_of pid q')) \<and>
    qi_job x \<notin> fst ` set (qu_watched q')"
proof -
  note ok = queue_ok_run [OF assms(1)]
  let ?q = "applyInboxLocked q"
  have ok1: "queue_ok U ?q" by (rule queue_ok_inbox(1) [OF ok])
  obtain n where run: "pump_lanes now (map fst (qu_lanes ?q)) None ?q = (Next n, q')"
    using assms(2) by (auto simp: tick_def act_then_def pumpLocked_def Let_def split: prod.splits flow.splits)
  have "\<forall>p \<in> set (map fst (qu_lanes ?q)). has_lane p ?q"
    by (auto simp: has_lane_def map_of_eq_None_iff rev_image_eqI)
  note ps = pass_lanes [OF ok1 this run, unfolded pass_def inbox_keeps]
  have "has_lane pid ?q"
  proof (rule ccontr)
    assume "\<not> has_lane pid ?q"
    then have "ln_waiting (lane_of pid ?q) = []" by (simp add: no_lane blank_lane_def)
    with assms(3) show False unfolding inbox_keeps by simp
  qed
  then have p: "pid \<in> set (map fst (qu_lanes ?q))" by (auto simp: has_lane_def map_of_eq_None_iff)
  have "if x \<in> set (ln_waiting (lane_of pid q')) then pid \<notin> set (map fst (qu_lanes ?q))
      else failed_and_finished (qi_job x) (qu_driver q')"
    using ps assms(3,4) by blast
  with p have settled: "failed_and_finished (qi_job x) (qu_driver q')" "x \<notin> set (ln_waiting (lane_of pid q'))"
    by (auto split: if_splits)
  have job: "qi_job x \<in> set (waiting_jobs pid q)" using assms(3) by (simp add: waiting_jobs_def)
  have "qi_job x \<notin> fst ` set (qu_watched q')"
  proof
    assume "qi_job x \<in> fst ` set (qu_watched q')"
    with ps have "qi_job x \<in> fst ` set (qu_watched q) \<or>
        (\<exists>p. \<exists>y \<in> set (ln_waiting (lane_of p q)). qi_job y = qi_job x \<and> \<not> is_due now y)" by blast
    moreover have "qi_job x \<notin> fst ` set (qu_watched q)"
      using ok job unfolding queue_ok_def held_ok_def by blast
    ultimately obtain p y where y: "y \<in> set (ln_waiting (lane_of p q))" "qi_job y = qi_job x" "\<not> is_due now y" by blast
    have "qi_job y \<in> set (waiting_jobs p q)" using y(1) by (simp add: waiting_jobs_def)
    with job y(2) have "p = pid" using ok unfolding queue_ok_def held_ok_def by (metis disjoint_iff)
    moreover have "distinct (map qi_job (ln_waiting (lane_of pid q)))"
      using ok by (simp add: queue_ok_def held_ok_def waiting_jobs_def)
    ultimately have "y = x" using y(1,2) assms(3) by (auto simp: distinct_map dest: inj_onD)
    with y(3) assms(4) show False by simp
  qed
  with settled show ?thesis by simp
qed

section \<open>Waking in time\<close>

definition no_later :: "nat option \<Rightarrow> nat \<Rightarrow> bool" where
  "no_later n t \<longleftrightarrow> (case n of None \<Rightarrow> False | Some t' \<Rightarrow> t' \<le> t)"

lemma earlier_fold:
  "(no_later n t \<longrightarrow> no_later (foldl earlier n xs) t) \<and>
   (\<forall>x \<in> set xs. \<forall>t. qi_deadline x = Some t \<longrightarrow> no_later (foldl earlier n xs) t)"
proof (induction xs arbitrary: n t)
  case (Cons x xs)
  have "no_later n t \<longrightarrow> no_later (earlier n x) t" "qi_deadline x = Some t' \<longrightarrow> no_later (earlier n x) t'" for t t'
    by (auto simp: earlier_def no_later_def split: option.split)
  with Cons.IH [of "earlier n x"] show ?case by auto
qed simp

lemma pump_lanes_wake:
  "queue_ok U q \<Longrightarrow> \<forall>p \<in> set pids. has_lane p q \<Longrightarrow> pump_lanes now pids next q = (Next n, q') \<Longrightarrow>
   (no_later next t \<longrightarrow> no_later n t) \<and>
   (\<forall>p \<in> set pids. \<forall>x \<in> set (ln_waiting (lane_of p q')). \<forall>t. qi_deadline x = Some t \<longrightarrow> no_later n t)"
proof (induction pids arbitrary: q "next" t)
  case (Cons pid pids)
  obtain f q1 where p: "pump_lane pid now q = (f, q1)" by fastforce
  let ?n1 = "foldl earlier next (ln_waiting (lane_of pid q1))"
  from p Cons.prems(3) have f: "f = Next ()" and run: "pump_lanes now pids ?n1 q1 = (Next n, q')"
    by (cases f; auto simp: act_then_def)+
  have lane: "has_lane pid q" using Cons.prems(2) by simp
  from queue_ok_pump_lane [OF Cons.prems(1) lane, of now] p
  have q1: "queue_ok U q1" "\<forall>p \<in> set pids. has_lane p q1" using Cons.prems(2) by auto
  have sub: "set (ln_waiting (lane_of pid q')) \<subseteq> set (ln_waiting (lane_of pid q1))"
    using pass_lanes [OF q1 run] by (simp add: pass_def)
  have ih: "no_later ?n1 t \<longrightarrow> no_later n t" for t using Cons.IH [OF q1 run] by blast
  have "no_later n t" if "x \<in> set (ln_waiting (lane_of pid q'))" "qi_deadline x = Some t" for x t
    using that sub earlier_fold ih by blast
  moreover have "\<forall>p \<in> set pids. \<forall>x \<in> set (ln_waiting (lane_of p q')). \<forall>t. qi_deadline x = Some t \<longrightarrow> no_later n t"
    using Cons.IH [OF q1 run] by blast
  moreover have "no_later next t \<longrightarrow> no_later n t" using earlier_fold ih by blast
  ultimately show ?case by simp
qed simp

text \<open>
  C25: the queue's thread wakes in time. When a pump returns and the thread looks at the inbox
  next, it pumps again or it waits until a time no later than the deadline of any job still held.
\<close>

theorem thread_wakes_in_time:
  assumes "queue_run U q" "pumpLocked now q = (Next n, q')" "x \<in> set (ln_waiting (lane_of pid q'))"
    "qi_deadline x = Some t"
  shows "\<exists>t' \<le> t. fst (look_at_inbox False n q') \<in> {PumpAgain, WaitUntil t'}"
proof -
  let ?q = "applyInboxLocked q"
  have ok1: "queue_ok U ?q" by (rule queue_ok_inbox(1) [OF queue_ok_run [OF assms(1)]])
  have run: "pump_lanes now (map fst (qu_lanes ?q)) None ?q = (Next n, q')"
    using assms(2) by (simp add: pumpLocked_def Let_def)
  have lanes: "\<forall>p \<in> set (map fst (qu_lanes ?q)). has_lane p ?q"
    by (auto simp: has_lane_def map_of_eq_None_iff rev_image_eqI)
  have "has_lane pid ?q"
  proof (rule ccontr)
    assume "\<not> has_lane pid ?q"
    then have "ln_waiting (lane_of pid ?q) = []" by (simp add: no_lane blank_lane_def)
    moreover have "set (ln_waiting (lane_of pid q')) \<subseteq> set (ln_waiting (lane_of pid ?q))"
      using pass_lanes [OF ok1 lanes run] by (simp add: pass_def)
    ultimately show False using assms(3) by simp
  qed
  then have "pid \<in> set (map fst (qu_lanes ?q))" by (auto simp: has_lane_def map_of_eq_None_iff)
  with pump_lanes_wake [OF ok1 lanes run] assms(3,4) have "no_later n t" by blast
  then obtain t' where "n = Some t'" "t' \<le> t" by (auto simp: no_later_def split: option.splits)
  then show ?thesis by (auto simp: look_at_inbox_def)
qed

section \<open>A run\<close>

text \<open>
  A lane of depth two. The first job is started and ends Unknown, a second one is held with a
  deadline; a tick blocks the lane, a later one expires the second job.
\<close>

definition demo_policy :: queue_policy where
  "demo_policy = \<lparr>qp_hold_while_offline = True, qp_default_ttl_ms = 0, qp_max_depth = 2, qp_drain_order = Fifo\<rparr>"

definition demo_ask :: "u32 \<Rightarrow> queue_options" where
  "demo_ask ttl =
     \<lparr>qo_key = [], qo_ttl_ms = ttl, qo_priority = 0, qo_cut = CutSettingProfile, qo_open_drawer = False,
      qo_preflight = PreflightSkip, qo_timeout_ms = 100\<rparr>"

definition demo_first :: queue where
  "demo_first = snd (enqueue 0 ''x'' ''j'' ''p'' (RawPayload [0x41]) (demo_ask 0) (new_queue demo_policy demo_ready))"

definition demo_worked :: queue where
  "demo_worked = deliver_to ''p'' (snd (worker_turn ''p'' (qu_driver demo_first))) demo_first"

definition demo_held :: queue where
  "demo_held = snd (enqueue 5 ''y'' ''i'' ''p'' (RawPayload [0x42]) (demo_ask 10) demo_worked)"

definition demo_blocked :: queue where
  "demo_blocked = snd (tick 5 demo_held)"

lemma demo_queue_values:
  "(case worker_turn ''p'' (qu_driver demo_first) of (f, d) \<Rightarrow>
    f = Next () \<and>
    (case enqueue 5 ''y'' ''i'' ''p'' (RawPayload [0x42]) (demo_ask 10) (deliver_to ''p'' d demo_first) of (f1, q1) \<Rightarrow>
     (case tick 5 q1 of (f2, q2) \<Rightarrow>
      (case tick 20 q2 of (f3, q3) \<Rightarrow>
        dr_by_key d ''auto-y'' = None \<and> f2 = Next () \<and> f3 = Next () \<and>
        map_option (\<lambda>j. (pj_terminal j, pj_state j)) (dr_jobs (qu_driver q2) ''j'') = Some (True, JS_Unknown) \<and>
        jobs_on ''p'' q1 = [''j''] \<and> jobs_on ''p'' q2 = [''j''] \<and> waiting_jobs ''p'' q1 = [''i''] \<and>
        map (\<lambda>x. (qi_job x, qi_deadline x)) (ln_waiting (lane_of ''p'' q2)) = [(''i'', Some 15)]))))"
  by code_simp

lemma demo_queue_runs:
  "queue_run {} demo_held" "queue_run {} demo_blocked"
  "ended_unknown ''j'' (qu_driver demo_blocked)" "jobs_on ''p'' demo_blocked = [''j'']"
  "waiting_jobs ''p'' demo_held = [''i'']" "\<exists>q. tick 20 demo_blocked = (Next (), q)"
  "tick 5 demo_held = (Next (), demo_blocked)"
  "map (\<lambda>x. (qi_job x, qi_deadline x)) (ln_waiting (lane_of ''p'' demo_blocked)) = [(''i'', Some 15)]"
proof -
  obtain d where t: "worker_turn ''p'' (qu_driver demo_first) = (Next (), d)" and k: "dr_by_key d ''auto-y'' = None"
    and w: "demo_worked = deliver_to ''p'' d demo_first"
    using demo_queue_values by (auto simp: demo_worked_def split: prod.splits)
  have "driver_run True demo_ready"
    unfolding demo_ready_def by (rule run_step [OF run_start [OF open_fresh] step_app [OF step_printer]])
  then have "queue_run {} demo_first"
    unfolding demo_first_def using demo_values by (intro queue_enqueue queue_start) (simp_all add: new_queue_def)
  then have "queue_run {} demo_worked"
    unfolding w by (rule queue_driver) (rule step_turn [OF t])
  moreover have "fresh_auto ''y'' (qu_driver demo_worked)" using k by (simp add: fresh_auto_def w)
  ultimately show h: "queue_run {} demo_held" unfolding demo_held_def by (rule queue_enqueue)
  then show "queue_run {} demo_blocked" unfolding demo_blocked_def by (rule queue_tick)
  show "ended_unknown ''j'' (qu_driver demo_blocked)" "jobs_on ''p'' demo_blocked = [''j'']"
    "waiting_jobs ''p'' demo_held = [''i'']" "\<exists>q. tick 20 demo_blocked = (Next (), q)"
    "tick 5 demo_held = (Next (), demo_blocked)"
    "map (\<lambda>x. (qi_job x, qi_deadline x)) (ln_waiting (lane_of ''p'' demo_blocked)) = [(''i'', Some 15)]"
    using demo_queue_values t
    by (auto simp: demo_blocked_def demo_held_def w ended_unknown_def split: prod.splits)
qed

theorem unknown_ends_the_lane_witness:
  "\<exists>after. jobs_on ''p'' demo_blocked = [] @ ''j'' # after \<and> after = []"
proof -
  obtain after where "jobs_on ''p'' demo_blocked = [] @ ''j'' # after" using demo_queue_runs(4) by simp
  with unknown_ends_the_lane [OF demo_queue_runs(2) _ this demo_queue_runs(3)] show ?thesis by simp
qed

theorem one_job_in_flight_witness:
  "''i'' \<in> set (waiting_jobs ''p'' demo_held) \<and> known ''i'' (qu_driver demo_held) \<and>
   ''i'' \<notin> set (queued_jobs (qu_driver demo_held))"
  using one_job_in_flight [OF demo_queue_runs(1), of "''p''"] demo_queue_runs(5) by simp

theorem lane_depth_bounded_witness:
  "qp_max_depth (qu_policy demo_held) = 0 \<or> depth_of ''p'' demo_held \<le> qp_max_depth (qu_policy demo_held)"
  using lane_depth_bounded [OF demo_queue_runs(1), of "''p''"] by simp

theorem drain_picks_the_first_witness:
  "selectLocked (qu_policy demo_blocked) (ln_waiting (lane_of ''p'' demo_blocked)) <
   length (ln_waiting (lane_of ''p'' demo_blocked))"
proof -
  have "ln_waiting (lane_of ''p'' demo_blocked) \<noteq> []" using demo_queue_runs(8) by auto
  with drain_picks_the_first [OF demo_queue_runs(2) refl this] show ?thesis by auto
qed

lemma demo_item: "\<exists>x. x \<in> set (ln_waiting (lane_of ''p'' demo_blocked)) \<and> qi_job x = ''i'' \<and> qi_deadline x = Some 15"
  using demo_queue_runs(8) by (cases "ln_waiting (lane_of ''p'' demo_blocked)") auto

theorem expired_never_sent_witness:
  "\<exists>q. tick 20 demo_blocked = (Next (), q) \<and> failed_and_finished ''i'' (qu_driver q) \<and> ''i'' \<notin> fst ` set (qu_watched q)"
proof -
  obtain q where q: "tick 20 demo_blocked = (Next (), q)" using demo_queue_runs(6) by blast
  obtain x where x: "x \<in> set (ln_waiting (lane_of ''p'' demo_blocked))" "qi_job x = ''i''" "qi_deadline x = Some 15"
    using demo_item by blast
  from expired_never_sent [OF demo_queue_runs(2) q x(1)] x q show ?thesis by (auto simp: is_due_def)
qed

theorem thread_wakes_in_time_witness:
  "\<exists>n. pumpLocked 5 demo_held = (Next n, demo_blocked) \<and>
     (\<exists>t' \<le> 15. fst (look_at_inbox False n demo_blocked) \<in> {PumpAgain, WaitUntil t'})"
proof -
  obtain n where n: "pumpLocked 5 demo_held = (Next n, demo_blocked)"
    using demo_queue_runs(7) by (auto simp: tick_def act_then_def split: prod.splits flow.splits)
  obtain x where "x \<in> set (ln_waiting (lane_of ''p'' demo_blocked))" "qi_deadline x = Some 15"
    using demo_item by blast
  from thread_wakes_in_time [OF demo_queue_runs(1) n this] n show ?thesis by blast
qed

text \<open>
  The thread has pumped and found nothing to wait for; before it looks at the inbox a caller
  holds a job with a deadline and another calls \<^verbatim>\<open>tick\<close>, which takes the notice meant for the
  thread: it waits without a limit, and nobody expires the job at its deadline.
\<close>

lemma tick_swallows_the_wakeup:
  "(case pumpLocked 0 (pause ''p'' (new_queue demo_policy demo_ready)) of (f1, q1) \<Rightarrow>
    (case enqueue 5 ''y'' ''i'' ''p'' (RawPayload [0x42]) (demo_ask 10) q1 of (f2, q2) \<Rightarrow>
     (case tick 6 q2 of (f3, q3) \<Rightarrow>
       f1 = Next None \<and> map qi_deadline (ln_waiting (lane_of ''p'' q3)) = [Some 15] \<and>
       fst (look_at_inbox False None q2) = PumpAgain \<and> fst (look_at_inbox False None q3) = WaitForever)))"
  by code_simp

end
