(* ===== verification/Drawer_Sequence.thy ===== *)
theory Drawer_Sequence imports
  Job_Guarantees
begin

text \<open>
  The verified opening of a cash drawer (\<^verbatim>\<open>core/src/driver.cpp\<close>, the drawer part of
  \<^verbatim>\<open>PrinterRuntime\<close>): what is refused before anything is queued, reading the switch, the
  pulse and the watch on the switch after it, calibration. The window, the poll interval and
  the cooldown are turns of the outside; the elapsed time of the result is not modelled. A
  registered vendor method's callbacks are functions of the registration.
\<close>

section \<open>Requests and results\<close>

record drawer_request =
  dr_channel :: u8
  dr_pulse_ms :: u16

record drawer_open_result =
  do_state :: drawer_state
  do_previous_state :: drawer_state
  do_channel :: u8
  do_pulse_ms :: u16

definition no_drawer_result :: drawer_open_result where
  "no_drawer_result =
     \<lparr>do_state = DS_Unknown, do_previous_state = DS_Unknown, do_channel = 1, do_pulse_ms = 0\<rparr>"

record drawer_reading =
  dg_available :: bool
  dg_answered :: bool
  dg_pin_high :: "bool option"
  dg_needs_calibration :: bool
  dg_state :: drawer_state

section \<open>Reading the switch\<close>

definition vendorDrawerKick :: "registrations \<Rightarrow> capability_profile \<Rightarrow> drawer_kick_reg option" where
  "vendorDrawerKick regs profile =
     (let k = dc_kick (cp_drawer profile)
      in if dk_method k \<noteq> KM_Vendor \<or> dk_vendor_id k = [] then None
         else reg_drawerKick (dk_vendor_id k) regs)"

definition vendor_readable :: "drawer_kick_reg option \<Rightarrow> bool" where
  "vendor_readable v = (case v of None \<Rightarrow> False | Some k \<Rightarrow> kr_readable k)"

definition status_request :: "drawer_kick_reg option \<Rightarrow> bytes" where
  "status_request v =
     (if vendor_readable v then
        (case v of None \<Rightarrow> [] | Some k \<Rightarrow> (case kr_status_request k of None \<Rightarrow> [] | Some bs \<Rightarrow> bs))
      else gsDrawerStatus)"

definition level_of_answer :: "drawer_kick_reg option \<Rightarrow> u8 \<Rightarrow> bool option" where
  "level_of_answer v answer =
     (if vendor_readable v then
        (case v of None \<Rightarrow> None
         | Some k \<Rightarrow> (case kr_status_parse k of None \<Rightarrow> None | Some parse \<Rightarrow> parse [answer]))
      else Some (drawerPinHigh answer))"

text \<open>An expectation nobody answered is dropped with the phase that asked.\<close>

definition forget_queued :: "link \<Rightarrow> link" where
  "forget_queued lk =
     (if rp_queued (lk_parser lk) > 0 then lk\<lparr>lk_parser := rp_reset (lk_parser lk)\<rparr> else lk)
       \<lparr>lk_queued_answers := 0, lk_queued_bytes := []\<rparr>"

definition note_pin :: "bool \<Rightarrow> link \<Rightarrow> link" where
  "note_pin high lk =
     lk\<lparr>lk_status := (lk_status lk)\<lparr>ds_observed := True\<rparr>, lk_drawer_pin := Some high\<rparr>"

definition pollDrawerPin :: "capability_profile \<Rightarrow> engine \<Rightarrow> bool option \<times> engine" where
  "pollDrawerPin profile e =
     (let vendor = vendorDrawerKick (en_registrations e) profile
      in case sendPaced profile (status_request vendor) (on_link expect_queued e) of
           ((False, n), e1) \<Rightarrow> (None, on_link forget_queued e1)
         | ((True, n), e1) \<Rightarrow>
             (case waiting awaitQueued e1 of
                ((outcome, answer), e2) \<Rightarrow>
                  if outcome \<noteq> Signalled then (None, on_link forget_queued e2)
                  else (case level_of_answer vendor answer of
                          None \<Rightarrow> (None, e2)
                        | Some high \<Rightarrow> (Some high, on_link (note_pin high) e2))))"

text \<open>The level of the sense pin, once known, is replaced but never forgotten.\<close>

definition keeps_pin :: "link \<Rightarrow> link \<Rightarrow> bool" where
  "keeps_pin lk lk' \<longleftrightarrow> (lk_drawer_pin lk \<noteq> None \<longrightarrow> lk_drawer_pin lk' \<noteq> None)"

lemma keeps_pin_refl [simp]: "keeps_pin lk lk"
  by (simp add: keeps_pin_def)

lemma keeps_pin_trans: "keeps_pin a b \<Longrightarrow> keeps_pin b c \<Longrightarrow> keeps_pin a c"
  by (simp add: keeps_pin_def)

lemma merge_pin: "keeps_pin lk (fst (mergeStatus f lk))"
  by (simp add: mergeStatus_def Let_def keeps_pin_def newer_def split: option.split)

lemma escpos_pin: "keeps_pin lk (fst (on_escpos_event mk ev lk))"
  using merge_pin [of lk "pe_flags ev"]
  by (cases "pe_kind ev") (auto simp: on_escpos_event_def keeps_pin_def split: prod.splits)

lemma star_pin: "keeps_pin lk (fst (on_star_event ev lk))"
  by (cases "se_kind ev") (simp_all add: on_star_event_def Let_def keeps_pin_def)

lemma each_pin:
  assumes "\<And>ev lk. keeps_pin lk (fst (h ev lk))"
  shows "keeps_pin lk (fst (each_event h evs lk))"
proof (induction evs arbitrary: lk)
  case (Cons ev evs)
  obtain lk1 es where h: "h ev lk = (lk1, es)" by fastforce
  with assms [of lk ev] have "keeps_pin lk lk1" by simp
  moreover have "keeps_pin lk1 (fst (each_event h evs lk1))" by (rule Cons.IH)
  ultimately show ?case using h by (auto simp: keeps_pin_def split: prod.splits)
qed simp

lemma custom_pin: "lk_drawer_pin (fst (on_custom mk data lk)) = lk_drawer_pin lk"
  by (simp add: on_custom_def Let_def split: option.split custom_match.split)

lemma deliver_pin: "keeps_pin lk (fst (deliver mk a lk))"
proof (cases a)
  case (Rx data)
  show ?thesis
  proof (cases "lk_star_mode lk")
    case True
    obtain evs sp where "sp_feed data (lk_star_parser lk) = (evs, sp)" by fastforce
    with True Rx each_pin [where h = on_star_event and lk = "lk\<lparr>lk_star_parser := sp\<rparr>" and evs = evs, OF star_pin] show ?thesis
      by (simp add: onBytes_def keeps_pin_def)
  next
    case False
    obtain evs rp where f: "rp_feed data (lk_parser lk) = (evs, rp)" by fastforce
    obtain lk1 es where l: "each_event (on_escpos_event mk) evs (lk\<lparr>lk_parser := rp\<rparr>) = (lk1, es)" by fastforce
    from each_pin [where h = "on_escpos_event mk" and lk = "lk\<lparr>lk_parser := rp\<rparr>" and evs = evs, OF escpos_pin] l have "keeps_pin lk lk1" by (simp add: keeps_pin_def)
    with False Rx f l custom_pin [of mk data lk1] show ?thesis
      by (auto simp: onBytes_def keeps_pin_def split: prod.splits)
  qed
qed (simp_all add: onDisconnected_def keeps_pin_def)

text \<open>Input and output add no turn and leave the registrations alone.\<close>

definition onward :: "engine \<Rightarrow> engine \<Rightarrow> bool" where
  "onward e e' \<longleftrightarrow> length (en_turns e') \<le> length (en_turns e) \<and> en_registrations e' = en_registrations e \<and>
     keeps_pin (en_link e) (en_link e')"

lemma onward_refl [simp]: "onward e e"
  by (simp add: onward_def)

lemma onward_trans: "onward a b \<Longrightarrow> onward b c \<Longrightarrow> onward a c"
  by (auto simp: onward_def intro: keeps_pin_trans)

lemma onward_same:
  "length (en_turns e') \<le> length (en_turns e) \<Longrightarrow> en_registrations e' = en_registrations e \<Longrightarrow>
   en_link e' = en_link e \<Longrightarrow> onward e e'"
  by (simp add: onward_def)

lemma arrive_onward: "onward e (arrive a e)"
  using deliver_pin [of "en_link e" "en_markers e" a] by (auto simp: arrive_def onward_def split: prod.splits)

lemma arrive_all_onward: "onward e (arrive_all as e)"
proof (induction as arbitrary: e)
  case (Cons a as)
  show ?case using onward_trans [OF arrive_onward Cons.IH, of e a] by (simp add: arrive_all_def)
qed (simp add: arrive_all_def)

lemma link_onward: "keeps_pin (en_link e) (f (en_link e)) \<Longrightarrow> onward e (on_link f e)"
  by (simp add: onward_def on_link_def)

lemma turn_onward: "take_turn e = (t, e1) \<Longrightarrow> onward e e1"
  by (auto simp: take_turn_def intro: onward_same split: list.splits)

lemma turn_spent: "take_turn e = (t, e1) \<Longrightarrow> \<not> tn_late t \<Longrightarrow> length (en_turns e1) < length (en_turns e)"
  by (auto simp: take_turn_def quiet_turn_def split: list.splits)

lemma arrive_all_turns: "en_turns (arrive_all as e) = en_turns e"
  by (induction as arbitrary: e) (simp_all add: arrive_all_def arrive_def split: prod.splits)

lemma turn_arrived: "take_turn e = (t, e1) \<Longrightarrow> onward e (arrive_all as e1)"
  by (rule onward_trans [OF turn_onward arrive_all_onward])

lemma write_onward:
  assumes "write_once bs e = (r, e')"
  shows "onward e e'"
proof -
  obtain t e1 where t: "take_turn e = (t, e1)" by fastforce
  with assms obtain x where e': "e' = arrive_all (tn_arrivals t) (log_effect x e1)"
    by (auto simp: write_once_def Let_def)
  have "onward e1 (log_effect x e1)" by (rule onward_same) (simp_all add: log_effect_def)
  from onward_trans [OF onward_trans [OF turn_onward [OF t] this] arrive_all_onward] show ?thesis unfolding e' .
qed

lemma chunks_onward: "send_chunks chunk bs k e = (r, e') \<Longrightarrow> onward e e'"
proof (induction chunk bs k e rule: send_chunks.induct)
  case (1 chunk bs k e)
  show ?case
  proof (cases "bs = [] \<or> chunk = 0")
    case True
    with "1.prems" show ?thesis by (simp add: send_chunks.simps)
  next
    case False
    obtain ok n e1 where w: "write_once (take chunk bs) e = ((ok, n), e1)" by (metis prod.collapse)
    show ?thesis
    proof (cases ok)
      case True
      with False w "1.prems" have "send_chunks chunk (drop chunk bs) (k + min chunk (length bs)) e1 = (r, e')"
        by (simp add: send_chunks.simps [of chunk bs])
      with "1.IH" [OF False w [symmetric]] True have "onward e1 e'" by blast
      with write_onward [OF w] show ?thesis by (rule onward_trans)
    next
      case f: False
      with False w "1.prems" show ?thesis
        using write_onward [OF w] by (simp add: send_chunks.simps [of chunk bs])
    qed
  qed
qed

lemma send_onward: "sendPaced profile bs e = (r, e') \<Longrightarrow> onward e e'"
  using write_onward chunks_onward by (auto simp: sendPaced_def split: if_splits)

lemma waiting_onward:
  assumes "waiting awaitQueued e = (r, e')"
  shows "onward e e'"
proof -
  obtain t e1 where t: "take_turn e = (t, e1)" by fastforce
  have "lk_drawer_pin (snd (awaitQueued lk)) = lk_drawer_pin lk" for lk by (simp add: awaitQueued_def)
  then have "onward (arrive_all (tn_arrivals t) e1) e'"
    using assms t by (auto simp: waiting_def Let_def onward_def keeps_pin_def split: prod.splits) (metis snd_conv)+
  then show ?thesis by (rule onward_trans [OF turn_arrived [OF t]])
qed

lemma poll_pins [simp]:
  "keeps_pin lk (expect_queued lk)" "keeps_pin lk (forget_queued lk)" "keeps_pin lk (note_pin high lk)"
  "keeps_pin lk (beginJobIo lk)"
  by (simp_all add: keeps_pin_def expect_queued_def forget_queued_def note_pin_def beginJobIo_def)

lemma poll_onward:
  assumes p: "pollDrawerPin profile e = (r, e')"
  shows "onward e e'"
proof -
  let ?v = "vendorDrawerKick (en_registrations e) profile"
  obtain ok n e1 where s: "sendPaced profile (status_request ?v) (on_link expect_queued e) = ((ok, n), e1)"
    by (metis prod.collapse)
  obtain out ans e2 where w: "waiting awaitQueued e1 = ((out, ans), e2)" by (metis prod.collapse)
  have e1: "onward e e1" by (rule onward_trans [OF link_onward send_onward [OF s]]) simp
  then have e2: "onward e e2" by (rule onward_trans [OF _ waiting_onward [OF w]])
  have more: "onward e (on_link f x)" if "onward e x" "keeps_pin (en_link x) (f (en_link x))" for f x
    by (rule onward_trans [OF that(1) link_onward]) (rule that(2))
  from p s w e1 e2 more [OF e1] more [OF e2] show ?thesis
    by (auto simp: pollDrawerPin_def Let_def split: if_splits option.splits bool.splits)
qed

section \<open>The watch after the pulse\<close>

definition switch_opened :: "drawer_polarity \<Rightarrow> bool \<Rightarrow> bool \<Rightarrow> bool" where
  "switch_opened p before level \<longleftrightarrow>
     (if dp_calibrated p then level = dp_high_means_open p else level \<noteq> before)"

definition level_known :: "bool option \<Rightarrow> engine \<Rightarrow> bool option" where
  "level_known polled e = (case polled of None \<Rightarrow> lk_drawer_pin (en_link e) | Some high \<Rightarrow> Some high)"

definition level_opens :: "capability_profile \<Rightarrow> bool \<Rightarrow> bool option \<Rightarrow> bool" where
  "level_opens profile before level =
     (case level of
        None \<Rightarrow> False
      | Some l \<Rightarrow> switch_opened (dn_polarity (dc_status (cp_drawer profile))) before l)"

text \<open>
  One look at the switch, then the end of the window or the interval until the next look, in
  which the arrivals of its turn come. The result says whether the switch opened and whether a
  level was ever known.
\<close>

function watch_drawer :: "capability_profile \<Rightarrow> bool \<Rightarrow> bool \<Rightarrow> engine \<Rightarrow> (bool \<times> bool) \<times> engine" where
  "watch_drawer profile before answered e =
     (case pollDrawerPin profile e of
        (polled, e1) \<Rightarrow>
          if level_opens profile before (level_known polled e1)
          then ((True, answered \<or> level_known polled e1 \<noteq> None), e1)
          else if lk_stopping (en_link e1) then ((False, answered \<or> level_known polled e1 \<noteq> None), e1)
          else (case take_turn e1 of
                     (t, e2) \<Rightarrow>
                       if tn_late t then ((False, answered \<or> level_known polled e1 \<noteq> None), e2)
                       else watch_drawer profile before (answered \<or> level_known polled e1 \<noteq> None) (arrive_all (tn_arrivals t) e2)))"
  by pat_completeness auto
termination
  by (relation "measure (\<lambda>(profile, before, answered, e). length (en_turns e))")
    (auto dest!: turn_spent [OF sym] poll_onward [OF sym] simp: arrive_all_turns onward_def)

declare watch_drawer.simps [simp del]

section \<open>The sequence\<close>

definition pulse_bytes :: "drawer_kick_reg option \<Rightarrow> u8 \<Rightarrow> u16 \<Rightarrow> encoding_error + bytes" where
  "pulse_bytes vendor channel pulse_ms =
     (case vendor of
        None \<Rightarrow> drawerKick channel pulse_ms
      | Some k \<Rightarrow> Inr (case kr_kick_bytes k of None \<Rightarrow> [] | Some f \<Rightarrow> f channel pulse_ms))"

text \<open>What the watch says of the drawer.\<close>

definition drawer_verdict :: "drawer_polarity \<Rightarrow> bool \<Rightarrow> bool \<Rightarrow> drawer_state" where
  "drawer_verdict p verified answered =
     (if verified then DS_OpenVerified
      else if \<not> answered then DS_KickSentUnverified
      else if dp_calibrated p then DS_FailedToOpen
      else DS_KickSentUnverified)"

text \<open>
  The flag says whether this printer's solenoid was pulsed before; then the cooldown is a turn.
  It is part of the outcome.
\<close>

definition drawer_pulse ::
    "capability_profile \<Rightarrow> drawer_kick_reg option \<Rightarrow> bool option \<Rightarrow> drawer_open_result \<Rightarrow> bool \<Rightarrow>
     (drawer_open_result \<times> bool) phase" where
  "drawer_pulse profile vendor before result pulsed e =
     (let caps = cp_drawer profile;
          e1 = (if pulsed \<and> dk_cooldown_ms (dc_kick caps) \<noteq> 0
                then (case take_turn e of (t, e1) \<Rightarrow> arrive_all (tn_arrivals t) e1) else e)
      in run_then (encoded (pulse_bytes vendor (do_channel result) (do_pulse_ms result))) (\<lambda>pulse.
         run_then (perform (sendPaced profile pulse)) (\<lambda>sent e2.
           if \<not> fst sent then (Next (result\<lparr>do_state := DS_Unknown\<rparr>, True), e2)
           else (case before of
                   None \<Rightarrow> (Next (result\<lparr>do_state := DS_KickSentUnverified\<rparr>, True), e2)
                 | Some level \<Rightarrow>
                     (case watch_drawer profile level False e2 of
                        ((verified, answered), e3) \<Rightarrow>
                          (Next (result\<lparr>do_state := drawer_verdict (dn_polarity (dc_status caps)) verified answered\<rparr>,
                                 True), e3))))) e1)"

definition runDrawerSequence ::
    "capability_profile \<Rightarrow> drawer_request \<Rightarrow> bool \<Rightarrow> (drawer_open_result \<times> bool) phase" where
  "runDrawerSequence profile request pulsed e =
     (let caps = cp_drawer profile;
          result = no_drawer_result\<lparr>do_channel := channelFor caps (dr_channel request),
                                    do_pulse_ms := pulseFor caps (dr_pulse_ms request)\<rparr>
      in case ensureConnected e of
           (False, e1) \<Rightarrow> (Next (result\<lparr>do_pulse_ms := 0\<rparr>, pulsed), e1)
         | (True, e1) \<Rightarrow>
             (let vendor = vendorDrawerKick (en_registrations e1) profile;
                  sensor = (sensorReadable caps \<or> vendor_readable vendor)
              in case (if sensor then pollDrawerPin profile (on_link beginJobIo e1)
                       else (None, on_link beginJobIo e1)) of
                   (None, e2) \<Rightarrow>
                     drawer_pulse profile vendor None
                       (result\<lparr>do_previous_state := (if sensor then DS_Unknown else DS_NoSensor)\<rparr>) pulsed e2
                 | (Some high, e2) \<Rightarrow>
                     (let previous = drawerStateFrom high (dn_polarity (dc_status caps))
                      in if previous = DS_Open then
                           (Next (result\<lparr>do_previous_state := DS_Open, do_pulse_ms := 0, do_state := DS_Open\<rparr>, pulsed), e2)
                         else drawer_pulse profile vendor (Some high)
                                (result\<lparr>do_previous_state := previous\<rparr>) pulsed e2)))"

section \<open>The calls\<close>

text \<open>
  What \<^verbatim>\<open>openDrawer\<close> and \<^verbatim>\<open>readDrawerSensor\<close> decide before they queue a task: an answer at once,
  or a task on the profile seen now, in front of the queue or behind it, with the answer it
  has when it is cancelled.
\<close>

datatype 'a drawer_call = AtOnce 'a | Queued capability_profile bool 'a

definition openDrawer :: "drawer_request \<Rightarrow> engine \<Rightarrow> drawer_open_result drawer_call" where
  "openDrawer request e =
     (let profile = en_profile e; caps = cp_drawer profile;
          refused = no_drawer_result\<lparr>do_channel := channelFor caps (dr_channel request)\<rparr>;
          vendor_drivable = (dc_present caps \<and> electricalKnown caps \<and> dk_method (dc_kick caps) = KM_Vendor \<and>
                             vendorDrawerKick (en_registrations e) profile \<noteq> None)
      in if (\<not> kickable caps \<and> \<not> vendor_drivable) \<or> \<not> drivableByEscposEngine profile \<or> lk_stopping (en_link e)
         then AtOnce refused
         else Queued profile (dk_can_kick_during_print (dc_kick caps)) refused)"

definition empty_reading :: "capability_profile \<Rightarrow> drawer_reading" where
  "empty_reading profile =
     \<lparr>dg_available = sensorReadable (cp_drawer profile), dg_answered = False, dg_pin_high = None,
      dg_needs_calibration = \<not> dp_calibrated (dn_polarity (dc_status (cp_drawer profile))),
      dg_state = DS_Unknown\<rparr>"

definition readDrawerSensor :: "engine \<Rightarrow> drawer_reading drawer_call" where
  "readDrawerSensor e =
     (let profile = en_profile e; empty = empty_reading profile
      in if \<not> dg_available empty \<or> \<not> drivableByEscposEngine profile \<or> lk_stopping (en_link e)
         then AtOnce empty else Queued profile True empty)"

text \<open>The task of \<^verbatim>\<open>readDrawerSensor\<close>.\<close>

definition read_sensor_task :: "capability_profile \<Rightarrow> engine \<Rightarrow> drawer_reading \<times> engine" where
  "read_sensor_task profile e =
     (case ensureConnected e of
        (False, e1) \<Rightarrow> (empty_reading profile, e1)
      | (True, e1) \<Rightarrow>
          (case pollDrawerPin profile (on_link beginJobIo e1) of
             (None, e2) \<Rightarrow> (empty_reading profile, e2)
           | (Some level, e2) \<Rightarrow>
               ((empty_reading profile)\<lparr>dg_answered := True, dg_pin_high := Some level,
                  dg_state := drawerStateFrom level (dn_polarity (dc_status (cp_drawer profile)))\<rparr>, e2)))"

section \<open>Calibration\<close>

definition with_polarity :: "bool \<Rightarrow> engine \<Rightarrow> engine" where
  "with_polarity high_means_open e =
     (let profile = en_profile e; caps = cp_drawer profile
      in e\<lparr>en_profile := profile\<lparr>cp_drawer := caps\<lparr>dc_status := (dc_status caps)
             \<lparr>dn_polarity := \<lparr>dp_calibrated = True, dp_high_means_open = high_means_open\<rparr>\<rparr>\<rparr>\<rparr>\<rparr>)"

definition applyStoredDrawerPolarity :: "polarity_store option \<Rightarrow> engine \<Rightarrow> engine" where
  "applyStoredDrawerPolarity store e =
     (case store of
        None \<Rightarrow> e
      | Some s \<Rightarrow>
          (case polarity_find (en_printer_id e) s of
             None \<Rightarrow> e
           | Some high \<Rightarrow> with_polarity high e))"

text \<open>Whether the calibration will outlive the process.\<close>

definition calibrateDrawerPolarity ::
    "flush_outcome \<Rightarrow> bool \<Rightarrow> polarity_store option \<Rightarrow> engine \<Rightarrow> bool \<times> polarity_store option \<times> engine" where
  "calibrateDrawerPolarity io high_means_open store e =
     (let e' = with_polarity high_means_open e
      in case store of
           None \<Rightarrow> (False, None, e')
         | Some s \<Rightarrow>
             if \<not> po_path s then (False, Some s, e')
             else (True, Some (polarity_save io (en_printer_id e) high_means_open s), e'))"


section \<open>Facts\<close>

lemma poll_effect:
  assumes "pollDrawerPin profile e = (r, e')"
  shows "\<exists>n. io_log (take n (status_request (vendorDrawerKick (en_registrations e) profile))) e e'"
    "r = Some high \<Longrightarrow> lk_drawer_pin (en_link e') = Some high"
    "en_registrations e' = en_registrations e"
proof -
  let ?v = "vendorDrawerKick (en_registrations e) profile"
  let ?e0 = "on_link expect_queued e"
  obtain ok n e1 where s: "sendPaced profile (status_request ?v) ?e0 = ((ok, n), e1)" by (metis prod.collapse)
  obtain out ans e2 where w: "waiting awaitQueued e1 = ((out, ans), e2)" by (metis prod.collapse)
  have link: "io_log [] x (on_link f x)" for f x by (rule io_log_refl) (simp add: on_link_def)
  from io_log_send [OF s] have io1: "io_log (take n (status_request ?v)) e e1"
    using io_log_trans [OF link [of e expect_queued]] by fastforce
  have io2: "io_log (take n (status_request ?v)) e e2"
    using io_log_trans [OF io1 io_log_waiting [OF w]] by simp
  have more: "io_log (take n (status_request ?v)) e (on_link f x)" if "io_log (take n (status_request ?v)) e x" for f x
    using io_log_trans [OF that link] by simp
  show "\<exists>n. io_log (take n (status_request ?v)) e e'"
    using assms s w more [OF io1] more [OF io2] io2
    by (auto simp: pollDrawerPin_def Let_def split: if_splits option.splits bool.splits)
  show "lk_drawer_pin (en_link e') = Some high" if "r = Some high"
    using assms s w that
    by (auto simp: pollDrawerPin_def Let_def on_link_def note_pin_def split: if_splits option.splits bool.splits)
  show "en_registrations e' = en_registrations e" using poll_onward [OF assms] by (simp add: onward_def)
qed

text \<open>The request the switch is read with, and what a look puts on the wire.\<close>

abbreviation query :: "capability_profile \<Rightarrow> engine \<Rightarrow> bytes" where
  "query profile e \<equiv> status_request (vendorDrawerKick (en_registrations e) profile)"

lemma io_log_keeps: "io_log bs e x \<Longrightarrow> en_log y = en_log x \<Longrightarrow> io_log bs e y"
  by (simp add: io_log_def)

lemma io_log_more: "io_log bs e x \<Longrightarrow> io_log [] x y \<Longrightarrow> io_log bs e y"
  using io_log_trans by fastforce

lemma watch_effect:
  "watch_drawer profile before answered e = ((verified, ans), e') \<Longrightarrow>
   (\<exists>ks. io_log (concat (map (\<lambda>k. take k (query profile e)) ks)) e e') \<and>
   (verified \<longrightarrow> (\<exists>level. lk_drawer_pin (en_link e') = Some level \<and>
      switch_opened (dn_polarity (dc_status (cp_drawer profile))) before level)) \<and>
   (lk_drawer_pin (en_link e) \<noteq> None \<longrightarrow> ans)"
proof (induction profile before answered e rule: watch_drawer.induct)
  case (1 profile before answered e)
  obtain polled e1 where p: "pollDrawerPin profile e = (polled, e1)" by fastforce
  let ?level = "level_known polled e1"
  let ?hit = "level_opens profile before ?level"
  let ?answered = "answered \<or> ?level \<noteq> None"
  from poll_effect [OF p] obtain n where io: "io_log (take n (query profile e)) e e1" by blast
  have regs: "en_registrations e1 = en_registrations e" by (rule poll_effect(3) [OF p])
  have pin: "?level = lk_drawer_pin (en_link e1)" using poll_effect(2) [OF p] by (cases polled) (simp_all add: level_known_def)
  have known: "lk_drawer_pin (en_link e) \<noteq> None \<longrightarrow> ?answered"
    using poll_onward [OF p] unfolding pin by (auto simp: onward_def keeps_pin_def)
  have look: "io_log (concat (map (\<lambda>k. take k (query profile e)) [n])) e e1" using io by simp
  note body = "1.prems" [unfolded watch_drawer.simps [of profile before answered e] p, simplified prod.case]
  show ?case
  proof (cases "?hit \<or> lk_stopping (en_link e1)")
    case True
    then have "e' = e1" "ans = ?answered" "verified \<longrightarrow> ?hit" using body by (auto split: if_splits)
    moreover have "?hit \<longrightarrow> (\<exists>level. lk_drawer_pin (en_link e1) = Some level \<and>
        switch_opened (dn_polarity (dc_status (cp_drawer profile))) before level)"
      unfolding pin by (simp add: level_opens_def split: option.split)
    ultimately show ?thesis using look known by blast
  next
    case False
    obtain t e2 where t: "take_turn e1 = (t, e2)" by fastforce
    show ?thesis
    proof (cases "tn_late t")
      case True
      with False body t have "e' = e2" "ans = ?answered" "\<not> verified" by auto
      moreover have "io_log (concat (map (\<lambda>k. take k (query profile e)) [n])) e e2"
        by (rule io_log_more [OF look io_log_turn [OF t]])
      ultimately show ?thesis using known by blast
    next
      case late: False
      let ?e3 = "arrive_all (tn_arrivals t) e2"
      have rec: "watch_drawer profile before ?answered ?e3 = ((verified, ans), e')"
        using False body t late by simp
      have on: "onward e1 ?e3" by (rule turn_arrived [OF t])
      then have q: "query profile ?e3 = query profile e" using regs by (simp add: onward_def)
      have io3: "io_log (concat (map (\<lambda>k. take k (query profile e)) [n])) e ?e3"
        by (rule io_log_more [OF io_log_more [OF look io_log_turn [OF t]] io_log_arrive_all])
      have ih: "(\<exists>ks. io_log (concat (map (\<lambda>k. take k (query profile ?e3)) ks)) ?e3 e') \<and>
          (verified \<longrightarrow> (\<exists>level. lk_drawer_pin (en_link e') = Some level \<and>
             switch_opened (dn_polarity (dc_status (cp_drawer profile))) before level)) \<and>
          (lk_drawer_pin (en_link ?e3) \<noteq> None \<longrightarrow> ans)"
        using "1.IH" [OF p [symmetric] _ _ t [symmetric] late rec] False by blast
      then obtain ks where "io_log (concat (map (\<lambda>k. take k (query profile e)) ks)) ?e3 e'" unfolding q by blast
      from io_log_trans [OF io3 this] have "io_log (concat (map (\<lambda>k. take k (query profile e)) (n # ks))) e e'" by simp
      moreover have "lk_drawer_pin (en_link e) \<noteq> None \<longrightarrow> lk_drawer_pin (en_link ?e3) \<noteq> None"
        using onward_trans [OF poll_onward [OF p] on] by (simp add: onward_def keeps_pin_def)
      ultimately show ?thesis using ih by blast
    qed
  qed
qed

section \<open>What an opening does and what it may say\<close>

text \<open>
  The bytes of an opening: the request of one look, the pulse, the requests of later looks, each
  as far as the transport took it.
\<close>

definition wire_bytes :: "bytes \<Rightarrow> bytes \<Rightarrow> nat \<Rightarrow> nat \<Rightarrow> nat list \<Rightarrow> bytes" where
  "wire_bytes request pulse n m ks =
     take n request @ take m pulse @ concat (map (\<lambda>k. take k request) ks)"

lemma pulse_effect:
  assumes "drawer_pulse profile (vendorDrawerKick (en_registrations e) profile) before result pulsed e = (Next (r, p), e')"
  shows "\<exists>pulse m ks. pulse_bytes (vendorDrawerKick (en_registrations e) profile) (do_channel result) (do_pulse_ms result) = Inr pulse \<and>
      io_log (wire_bytes (query profile e) pulse 0 m ks) e e' \<and> m \<le> length pulse \<and>
      (do_state r \<noteq> DS_Unknown \<longrightarrow> m = length pulse)"
    "r = result\<lparr>do_state := do_state r\<rparr>" "do_state r \<in> {DS_Unknown, DS_KickSentUnverified, DS_OpenVerified, DS_FailedToOpen}"
    "do_state r = DS_OpenVerified \<Longrightarrow> \<exists>old level. before = Some old \<and> lk_drawer_pin (en_link e') = Some level \<and>
      switch_opened (dn_polarity (dc_status (cp_drawer profile))) old level"
    "before = Some old \<Longrightarrow> lk_drawer_pin (en_link e) \<noteq> None \<Longrightarrow>
      dp_calibrated (dn_polarity (dc_status (cp_drawer profile))) \<Longrightarrow> do_state r \<noteq> DS_KickSentUnverified"
proof -
  let ?v = "vendorDrawerKick (en_registrations e) profile"
  let ?pol = "dn_polarity (dc_status (cp_drawer profile))"
  define e1 where "e1 = (if pulsed \<and> dk_cooldown_ms (dc_kick (cp_drawer profile)) \<noteq> 0
      then (case take_turn e of (t, e1) \<Rightarrow> arrive_all (tn_arrivals t) e1) else e)"
  have io1: "io_log [] e e1"
    using io_log_more [OF io_log_turn io_log_arrive_all, of e] by (auto simp: e1_def io_log_refl split: prod.splits)
  have on1: "onward e e1" using turn_arrived [of e] by (auto simp: e1_def split: prod.splits)
  then have q1: "query profile e1 = query profile e" by (simp add: onward_def)
  obtain pulse where pb: "pulse_bytes ?v (do_channel result) (do_pulse_ms result) = Inr pulse"
    using assms by (cases "pulse_bytes ?v (do_channel result) (do_pulse_ms result)")
      (auto simp: drawer_pulse_def Let_def run_then_def encoded_def split: encoding_error.splits)
  obtain ok m e2 where s: "sendPaced profile pulse e1 = ((ok, m), e2)" by (metis prod.collapse)
  have io2: "io_log (take m pulse) e e2" "m \<le> length pulse" "ok \<longrightarrow> m = length pulse"
    using io_log_trans [OF io1] io_log_send [OF s] by auto
  have on2: "onward e e2" by (rule onward_trans [OF on1 send_onward [OF s]])
  then have q2: "query profile e2 = query profile e" by (simp add: onward_def)
  have rest: "(if \<not> ok then (Next (result\<lparr>do_state := DS_Unknown\<rparr>, True), e2)
           else (case before of
                   None \<Rightarrow> (Next (result\<lparr>do_state := DS_KickSentUnverified\<rparr>, True), e2)
                 | Some level \<Rightarrow>
                     (case watch_drawer profile level False e2 of
                        ((verified, answered), e3) \<Rightarrow>
                          (Next (result\<lparr>do_state := drawer_verdict ?pol verified answered\<rparr>, True), e3)))) =
      (Next (r, p), e')"
    using assms pb s unfolding drawer_pulse_def Let_def e1_def [symmetric]
    by (simp add: run_then_def encoded_def perform_def)
  consider (lost) "\<not> ok" "e' = e2" "r = result\<lparr>do_state := DS_Unknown\<rparr>"
    | (blind) "ok" "e' = e2" "before = None" "r = result\<lparr>do_state := DS_KickSentUnverified\<rparr>"
    | (seen) level verified answered where "ok" "before = Some level"
        "watch_drawer profile level False e2 = ((verified, answered), e')"
        "r = result\<lparr>do_state := drawer_verdict ?pol verified answered\<rparr>"
    using rest by (auto split: if_splits option.splits prod.splits)
  note cs = this
  have open0: "io_log (wire_bytes (query profile e) pulse 0 m []) e e2" using io2(1) by (simp add: wire_bytes_def)
  show "r = result\<lparr>do_state := do_state r\<rparr>" using cs by cases simp_all
  show "do_state r \<in> {DS_Unknown, DS_KickSentUnverified, DS_OpenVerified, DS_FailedToOpen}"
    using cs by cases (auto simp: drawer_verdict_def)
  show "\<exists>pulse m ks. pulse_bytes ?v (do_channel result) (do_pulse_ms result) = Inr pulse \<and>
      io_log (wire_bytes (query profile e) pulse 0 m ks) e e' \<and> m \<le> length pulse \<and>
      (do_state r \<noteq> DS_Unknown \<longrightarrow> m = length pulse)"
    using cs
  proof cases
    case lost
    with pb open0 io2 show ?thesis by auto
  next
    case blind
    with pb open0 io2 show ?thesis by blast
  next
    case seen
    from watch_effect [OF seen(3)] obtain ks where "io_log (concat (map (\<lambda>k. take k (query profile e)) ks)) e2 e'"
      unfolding q2 by blast
    from io_log_trans [OF io2(1) this] have "io_log (wire_bytes (query profile e) pulse 0 m ks) e e'"
      by (simp add: wire_bytes_def)
    with pb io2 seen(1) show ?thesis by blast
  qed
  show "\<exists>old level. before = Some old \<and> lk_drawer_pin (en_link e') = Some level \<and> switch_opened ?pol old level"
    if "do_state r = DS_OpenVerified"
    using cs
  proof cases
    case seen
    with that have "verified" by (auto simp: drawer_verdict_def split: if_splits)
    with watch_effect [OF seen(3)] seen(2) show ?thesis by blast
  qed (use that in simp_all)
  show "do_state r \<noteq> DS_KickSentUnverified"
    if "before = Some old" "lk_drawer_pin (en_link e) \<noteq> None" "dp_calibrated ?pol"
    using cs
  proof cases
    case seen
    have "lk_drawer_pin (en_link e2) \<noteq> None" using on2 that(2) by (simp add: onward_def keeps_pin_def)
    with watch_effect [OF seen(3)] have answered by blast
    with seen(4) that(3) show ?thesis by (simp add: drawer_verdict_def)
  qed (use that in simp_all)
qed

lemma connect_onward:
  assumes "ensureConnected e = (ok, e')"
  shows "onward e e'"
proof -
  obtain t e1 where t: "take_turn e = (t, e1)" by fastforce
  let ?e2 = "arrive_all (tn_arrivals t) e1"
  have on: "onward e ?e2" by (rule turn_arrived [OF t])
  have "onward ?e2 e'"
    using assms t by (auto simp: ensureConnected_def Let_def onward_def keeps_pin_def on_link_def log_effect_def split: if_splits)
  with on show ?thesis by (rule onward_trans)
qed

text \<open>The ways the sequence goes: no link, an open drawer, or on to the pulse.\<close>

lemma sequence_cases:
  assumes "runDrawerSequence profile request pulsed e = (Next (r, p), e')"
  obtains (unconnected) "io_log [] e e'" "do_state r = DS_Unknown" "do_previous_state r = DS_Unknown"
  | (was_open) n where "io_log (take n (query profile e)) e e'" "do_state r = DS_Open" "do_previous_state r = DS_Open"
  | (pulsing) n e2 before result where "io_log (take n (query profile e)) e e2" "onward e e2"
      "drawer_pulse profile (vendorDrawerKick (en_registrations e2) profile) before result pulsed e2 = (Next (r, p), e')"
      "do_previous_state result = (case before of
         None \<Rightarrow> if sensorReadable (cp_drawer profile) \<or> vendor_readable (vendorDrawerKick (en_registrations e) profile)
                 then DS_Unknown else DS_NoSensor
       | Some high \<Rightarrow> drawerStateFrom high (dn_polarity (dc_status (cp_drawer profile))))"
      "do_previous_state result \<noteq> DS_Open"
      "before \<noteq> None \<Longrightarrow> lk_drawer_pin (en_link e2) \<noteq> None"
      "before \<noteq> None \<Longrightarrow> sensorReadable (cp_drawer profile) \<or> vendor_readable (vendorDrawerKick (en_registrations e) profile)"
proof -
  obtain ok e1 where c: "ensureConnected e = (ok, e1)" by fastforce
  have on1: "onward e e1" by (rule connect_onward [OF c])
  have io1: "io_log [] e e1" by (rule io_log_connect [OF c])
  let ?v = "vendorDrawerKick (en_registrations e) profile"
  let ?pol = "dn_polarity (dc_status (cp_drawer profile))"
  let ?sensor = "sensorReadable (cp_drawer profile) \<or> vendor_readable ?v"
  have v1: "vendorDrawerKick (en_registrations e1) profile = ?v" using on1 by (simp add: onward_def)
  let ?b = "on_link beginJobIo e1"
  have onb: "onward e ?b" by (rule onward_trans [OF on1 link_onward]) simp
  have iob: "io_log [] e ?b" by (rule io_log_keeps [OF io1]) (simp add: on_link_def)
  note body = assms [unfolded runDrawerSequence_def Let_def c v1, simplified prod.case]
  show thesis
  proof (cases ok)
    case False
    with body have "do_state r = DS_Unknown" "do_previous_state r = DS_Unknown" "e' = e1"
      by (auto simp: v1 no_drawer_result_def)
    with io1 show ?thesis using unconnected by simp
  next
    case True
    obtain polled e2 where p: "(if ?sensor then pollDrawerPin profile ?b else (None, ?b)) = (polled, e2)" by fastforce
    have on2: "onward e e2" and io2: "\<exists>n. io_log (take n (query profile e)) e e2"
      and pin2: "polled \<noteq> None \<Longrightarrow> lk_drawer_pin (en_link e2) \<noteq> None" and seen: "polled \<noteq> None \<Longrightarrow> ?sensor"
    proof -
      have "onward e e2 \<and> (\<exists>n. io_log (take n (query profile e)) e e2) \<and> (polled \<noteq> None \<longrightarrow> lk_drawer_pin (en_link e2) \<noteq> None)"
      proof (cases ?sensor)
        case True
        with p have q: "pollDrawerPin profile ?b = (polled, e2)" by simp
        have "query profile ?b = query profile e" using onb by (simp add: onward_def)
        with poll_effect(1) [OF q] obtain n where "io_log (take n (query profile e)) ?b e2" by auto
        from io_log_trans [OF iob this] have "\<exists>n. io_log (take n (query profile e)) e e2" by auto
        moreover have "onward e e2" by (rule onward_trans [OF onb poll_onward [OF q]])
        ultimately show ?thesis using poll_effect(2) [OF q] by auto
      next
        case False
        with p have "polled = None" "e2 = ?b" by auto
        moreover have "io_log (take 0 (query profile e)) e ?b" using iob by simp
        ultimately show ?thesis using onb by blast
      qed
      then show "onward e e2" "\<exists>n. io_log (take n (query profile e)) e e2"
        "polled \<noteq> None \<Longrightarrow> lk_drawer_pin (en_link e2) \<noteq> None" by auto
      show "polled \<noteq> None \<Longrightarrow> ?sensor" using p by (auto split: if_splits)
    qed
    from io2 obtain n where n: "io_log (take n (query profile e)) e e2" by blast
    have v2: "vendorDrawerKick (en_registrations e2) profile = ?v" using on2 by (simp add: onward_def)
    show ?thesis
    proof (cases polled)
      case None
      with body True p have "drawer_pulse profile ?v None
          ((no_drawer_result\<lparr>do_channel := channelFor (cp_drawer profile) (dr_channel request),
             do_pulse_ms := pulseFor (cp_drawer profile) (dr_pulse_ms request)\<rparr>)
             \<lparr>do_previous_state := (if ?sensor then DS_Unknown else DS_NoSensor)\<rparr>) pulsed e2 = (Next (r, p), e')"
        by (simp add: v1)
      with pulsing [OF n on2, of None, unfolded v2, OF this] show ?thesis by (auto split: if_splits)
    next
      case (Some high)
      show ?thesis
      proof (cases "drawerStateFrom high ?pol = DS_Open")
        case True
        with body \<open>ok\<close> p Some have "do_state r = DS_Open" "do_previous_state r = DS_Open" "e' = e2" by (auto simp: v1)
        with n show ?thesis using was_open by simp
      next
        case False
        with body \<open>ok\<close> p Some have "drawer_pulse profile ?v (Some high)
            ((no_drawer_result\<lparr>do_channel := channelFor (cp_drawer profile) (dr_channel request),
               do_pulse_ms := pulseFor (cp_drawer profile) (dr_pulse_ms request)\<rparr>)
               \<lparr>do_previous_state := drawerStateFrom high ?pol\<rparr>) pulsed e2 = (Next (r, p), e')"
          by (simp add: v1)
        with pulsing [OF n on2, of "Some high", unfolded v2, OF this] False pin2 seen Some show ?thesis by simp
      qed
    qed
  qed
qed



text \<open>
  A closed drawer gets a verdict. Once a calibrated switch has answered that the drawer is
  closed, the answer is OpenVerified, FailedToOpen, or Unknown for a pulse the transport did
  not take; it is never KickSentUnverified, also when the switch falls silent after the pulse.
\<close>

theorem closed_drawer_gets_a_verdict:
  assumes "runDrawerSequence profile request pulsed e = (Next (r, p), e')" "do_previous_state r = DS_Closed"
  shows "do_state r \<in> {DS_OpenVerified, DS_FailedToOpen, DS_Unknown}"
  using assms(1)
proof (cases rule: sequence_cases)
  case (pulsing n e2 before result)
  note pe = pulse_effect [OF pulsing(3)]
  have "do_previous_state result = DS_Closed" using assms(2) pe(2) by (metis drawer_open_result.simps(2) drawer_open_result.surjective drawer_open_result.update_convs(1))
  with pulsing(4) obtain old where old: "before = Some old" "dp_calibrated (dn_polarity (dc_status (cp_drawer profile)))"
    by (auto simp: drawerStateFrom_def split: option.splits if_splits)
  have "do_state r \<noteq> DS_KickSentUnverified" by (rule pe(5) [OF old(1) pulsing(6) old(2)]) (simp add: old(1))
  with pe(3) show ?thesis by blast
qed (use assms(2) in simp_all)

section \<open>The watch ends\<close>

text \<open>The loop of the source with a bound on its looks.\<close>

fun watch_within :: "nat \<Rightarrow> capability_profile \<Rightarrow> bool \<Rightarrow> bool \<Rightarrow> engine \<Rightarrow> ((bool \<times> bool) \<times> engine) option" where
  "watch_within 0 profile before answered e = None"
| "watch_within (Suc n) profile before answered e =
     (case pollDrawerPin profile e of
        (polled, e1) \<Rightarrow>
          if level_opens profile before (level_known polled e1)
          then Some ((True, answered \<or> level_known polled e1 \<noteq> None), e1)
          else if lk_stopping (en_link e1) then Some ((False, answered \<or> level_known polled e1 \<noteq> None), e1)
          else (case take_turn e1 of
                     (t, e2) \<Rightarrow>
                       if tn_late t then Some ((False, answered \<or> level_known polled e1 \<noteq> None), e2)
                       else watch_within n profile before (answered \<or> level_known polled e1 \<noteq> None) (arrive_all (tn_arrivals t) e2)))"

lemma watch_within_enough:
  "length (en_turns e) < n \<Longrightarrow> watch_within n profile before answered e = Some (watch_drawer profile before answered e)"
proof (induction n arbitrary: answered e)
  case (Suc n)
  obtain polled e1 where p: "pollDrawerPin profile e = (polled, e1)" by fastforce
  obtain t e2 where t: "take_turn e1 = (t, e2)" by fastforce
  let ?answered = "answered \<or> level_known polled e1 \<noteq> None"
  have "watch_within n profile before ?answered (arrive_all (tn_arrivals t) e2) =
      Some (watch_drawer profile before ?answered (arrive_all (tn_arrivals t) e2))" if "\<not> tn_late t"
  proof (rule Suc.IH)
    show "length (en_turns (arrive_all (tn_arrivals t) e2)) < n"
      using Suc.prems poll_onward [OF p] turn_spent [OF t that] by (simp add: onward_def arrive_all_turns)
  qed
  then show ?case
    by (simp add: watch_drawer.simps [of profile before answered e] p t Let_def)
qed simp


section \<open>An opening\<close>

text \<open>A calibrated drawer, closed at first; it opens, or its switch falls silent.\<close>

definition demo_drawer :: capability_profile where
  "demo_drawer =
     generic_escpos\<lparr>cp_drawer := default_drawer\<lparr>dc_present := True,
       dc_electrical := \<lparr>de_standard = PS_Epson24V6P6C, de_voltage = 24, de_max_current_ma = 1000,
                         de_channel_count = 2, de_sensor_pin = 3\<rparr>,
       dc_status := \<lparr>dn_available = True, dn_method = SM_GsR2, dn_shared_between_drawers = True,
                      dn_polarity = \<lparr>dp_calibrated = True, dp_high_means_open = True\<rparr>,
                      dn_verify_window_ms = 1500, dn_poll_interval_ms = 100\<rparr>\<rparr>\<rparr>"

definition demo_till :: "turn list \<Rightarrow> engine" where
  "demo_till answers = demo_engine\<lparr>en_turns := [quiet_turn, quiet_turn, demo_turn [0x00], quiet_turn] @ answers\<rparr>"

definition demo_request :: drawer_request where
  "demo_request = \<lparr>dr_channel = 1, dr_pulse_ms = 0\<rparr>"

lemma demo_opening:
  "fst (runDrawerSequence demo_drawer demo_request False (demo_till [quiet_turn, demo_turn [0x01]])) =
   Next (\<lparr>do_state = DS_OpenVerified, do_previous_state = DS_Closed, do_channel = 1, do_pulse_ms = 200\<rparr>, True)"
  by code_simp

lemma demo_silence:
  "fst (runDrawerSequence demo_drawer demo_request False (demo_till [])) =
   Next (\<lparr>do_state = DS_FailedToOpen, do_previous_state = DS_Closed, do_channel = 1, do_pulse_ms = 200\<rparr>, True)"
  by code_simp

lemma demo_opened:
  "\<exists>r p e. runDrawerSequence demo_drawer demo_request False (demo_till [quiet_turn, demo_turn [0x01]]) = (Next (r, p), e) \<and>
     do_previous_state r = DS_Closed \<and> do_state r = DS_OpenVerified"
  using demo_opening by (metis drawer_open_result.simps(1,2) prod.collapse)

lemma demo_silent:
  "\<exists>r p e. runDrawerSequence demo_drawer demo_request False (demo_till []) = (Next (r, p), e) \<and>
     do_previous_state r = DS_Closed \<and> do_state r = DS_FailedToOpen"
  using demo_silence by (metis drawer_open_result.simps(1,2) prod.collapse)



theorem closed_drawer_gets_a_verdict_witness:
  "\<exists>r p e. runDrawerSequence demo_drawer demo_request False (demo_till []) = (Next (r, p), e) \<and>
     do_state r \<in> {DS_OpenVerified, DS_FailedToOpen, DS_Unknown}"
proof -
  obtain r p e where run: "runDrawerSequence demo_drawer demo_request False (demo_till []) = (Next (r, p), e)"
    and s: "do_previous_state r = DS_Closed" using demo_silent by blast
  from closed_drawer_gets_a_verdict [OF run s] run show ?thesis by blast
qed

end
