(* ===== verification/Receipt_Text.thy ===== *)
theory Receipt_Text imports
  Code_Page
begin

text \<open>
  \<^verbatim>\<open>dsl/src/text.cpp\<close>: UTF-8 measurement and the fitting of text to a line of character
  cells. A \<^theory_text>\<open>std::string\<close> is a list of characters, of which the decoder sees the bytes; a
  \<^theory_text>\<open>size_t\<close> is a natural number, since no sum here passes the size of a string in
  memory. \<^theory_text>\<open>std::string::substr\<close> throws \<^theory_text>\<open>std::out_of_range\<close> when it starts behind the end,
  so everything that wraps returns an option, None being that exception. The loop of
  \<^theory_text>\<open>repeat\<close> need not end: it is a partial function, None being the run that never returns.
\<close>

section \<open>Alignment and wrapping modes\<close>

datatype Align = Left | Center | Right

datatype Wrap = Word | Char | Clip | Ellipsis

section \<open>Decoding and encoding\<close>

definition kReplacement :: u32 where
  "kReplacement = 0xFFFD"

definition isContinuation :: "u8 \<Rightarrow> bool" where
  "isContinuation byte \<longleftrightarrow> byte AND 0xC0 = 0x80"

text \<open>The length a lead byte announces, with its own bits of the code point.\<close>

definition lead_length :: "u8 \<Rightarrow> (nat \<times> u32) option" where
  "lead_length lead =
     (if lead < 0x80 then Some (1, ucast lead)
      else if lead AND 0xE0 = 0xC0 then Some (2, ucast lead AND 0x1F)
      else if lead AND 0xF0 = 0xE0 then Some (3, ucast lead AND 0x0F)
      else if lead AND 0xF8 = 0xF0 then Some (4, ucast lead AND 0x07)
      else None)"

text \<open>The loop over \<^theory_text>\<open>utf8[i + k]\<close>; None is \<^theory_text>\<open>valid = false\<close>.\<close>

fun follow :: "nat \<Rightarrow> bytes \<Rightarrow> u32 \<Rightarrow> u32 option" where
  "follow 0 bs codepoint = Some codepoint"
| "follow (Suc k) [] codepoint = None"
| "follow (Suc k) (byte # bs) codepoint =
     (if \<not> isContinuation byte then None
      else follow k bs (push_bit 6 codepoint OR (ucast byte AND 0x3F)))"

definition malformed :: "nat \<Rightarrow> u32 \<Rightarrow> bool" where
  "malformed n codepoint \<longleftrightarrow>
     n = 2 \<and> codepoint < 0x80 \<or> n = 3 \<and> codepoint < 0x800 \<or> n = 4 \<and> codepoint < 0x10000 \<or>
     codepoint > 0x10FFFF \<or> codepoint \<ge> 0xD800 \<and> codepoint \<le> 0xDFFF"

text \<open>One round of the loop of \<^theory_text>\<open>decode\<close> on the bytes from position \<^theory_text>\<open>i\<close> on.\<close>

definition decode_round :: "u8 \<Rightarrow> bytes \<Rightarrow> u32 \<times> bytes" where
  "decode_round lead bs =
     (case lead_length lead of
        None \<Rightarrow> (kReplacement, bs)
      | Some (n, bits) \<Rightarrow>
          if n > length (lead # bs) then (kReplacement, bs)
          else case follow (n - 1) bs bits of
            None \<Rightarrow> (kReplacement, bs)
          | Some codepoint \<Rightarrow>
              if malformed n codepoint then (kReplacement, bs)
              else (codepoint, drop (n - 1) bs))"

lemma decode_round_progress [termination_simp]:
  "(cp, rest) = decode_round b bs \<Longrightarrow> length rest < Suc (length bs)"
  by (auto simp: decode_round_def split: option.splits if_splits)

fun decode_bytes :: "bytes \<Rightarrow> u32 list" where
  "decode_bytes [] = []"
| "decode_bytes (b # bs) = (case decode_round b bs of (cp, rest) \<Rightarrow> cp # decode_bytes rest)"

definition decode :: "string \<Rightarrow> u32 list" where
  "decode utf8 = decode_bytes (bytes_of utf8)"

definition encode :: "u32 \<Rightarrow> string" where
  "encode cp =
     (let codepoint = if cp > 0x10FFFF \<or> cp \<ge> 0xD800 \<and> cp \<le> 0xDFFF then kReplacement else cp in
      map char_of_byte
       (if codepoint < 0x80 then [ucast codepoint]
        else if codepoint < 0x800 then
          [ucast (0xC0 OR drop_bit 6 codepoint), ucast (0x80 OR (codepoint AND 0x3F))]
        else if codepoint < 0x10000 then
          [ucast (0xE0 OR drop_bit 12 codepoint),
           ucast (0x80 OR (drop_bit 6 codepoint AND 0x3F)),
           ucast (0x80 OR (codepoint AND 0x3F))]
        else
          [ucast (0xF0 OR drop_bit 18 codepoint),
           ucast (0x80 OR (drop_bit 12 codepoint AND 0x3F)),
           ucast (0x80 OR (drop_bit 6 codepoint AND 0x3F)),
           ucast (0x80 OR (codepoint AND 0x3F))]))"

definition encode_all :: "u32 list \<Rightarrow> string" where
  "encode_all codepoints = concat (map encode codepoints)"

section \<open>Measuring and cutting\<close>

definition columnWidth :: "u32 \<Rightarrow> nat" where
  "columnWidth cp =
     (if 0x0300 \<le> cp \<and> cp \<le> 0x036F \<or> 0x1AB0 \<le> cp \<and> cp \<le> 0x1AFF \<or>
         0x20D0 \<le> cp \<and> cp \<le> 0x20FF \<or> 0xFE20 \<le> cp \<and> cp \<le> 0xFE2F then 0
      else if 0x1100 \<le> cp \<and> cp \<le> 0x115F \<or> 0x2E80 \<le> cp \<and> cp \<le> 0xA4CF \<or>
         0xAC00 \<le> cp \<and> cp \<le> 0xD7A3 \<or> 0xF900 \<le> cp \<and> cp \<le> 0xFAFF \<or>
         0xFE30 \<le> cp \<and> cp \<le> 0xFE6F \<or> 0xFF00 \<le> cp \<and> cp \<le> 0xFF60 \<or>
         0xFFE0 \<le> cp \<and> cp \<le> 0xFFE6 then 2
      else 1)"

definition width :: "string \<Rightarrow> nat" where
  "width utf8 = sum_list (map columnWidth (decode utf8))"

fun clip_go :: "nat \<Rightarrow> nat \<Rightarrow> string \<Rightarrow> u32 list \<Rightarrow> string" where
  "clip_go columns used out [] = out"
| "clip_go columns used out (cp # cps) =
     (if used + columnWidth cp > columns then out
      else clip_go columns (used + columnWidth cp) (out @ encode cp) cps)"

definition clip :: "string \<Rightarrow> nat \<Rightarrow> string" where
  "clip utf8 columns = (if columns = 0 then [] else clip_go columns 0 [] (decode utf8))"

definition ellipsize :: "string \<Rightarrow> nat \<Rightarrow> string" where
  "ellipsize utf8 columns =
     (if width utf8 \<le> columns then utf8
      else if columns \<le> 3 then clip utf8 columns
      else clip utf8 (columns - 3) @ ''...'')"

definition pad :: "string \<Rightarrow> nat \<Rightarrow> Align \<Rightarrow> string" where
  "pad utf8 columns align =
     (if columns = 0 then []
      else let clipped = clip utf8 columns; slack = columns - width clipped in
        if slack = 0 then clipped
        else case align of
            Left \<Rightarrow> clipped @ replicate slack CHR '' ''
          | Right \<Rightarrow> replicate slack CHR '' '' @ clipped
          | Center \<Rightarrow>
              let leading = slack div 2 in
              replicate leading CHR '' '' @ clipped @ replicate (slack - leading) CHR '' '')"

section \<open>Wrapping\<close>

text \<open>\<^theory_text>\<open>std::string::substr(pos)\<close>; None is \<^theory_text>\<open>std::out_of_range\<close>.\<close>

definition substr_from :: "nat \<Rightarrow> 'a list \<Rightarrow> 'a list option" where
  "substr_from pos s = (if pos > length s then None else Some (drop pos s))"

text \<open>The pieces between separators, empty ones included, as the \<^theory_text>\<open>find\<close> loops visit them.\<close>

fun split_at :: "'a \<Rightarrow> 'a list \<Rightarrow> 'a list list" where
  "split_at s [] = [[]]"
| "split_at s (c # cs) =
     (if c = s then [] # split_at s cs
      else case split_at s cs of (p # ps) \<Rightarrow> (c # p) # ps | [] \<Rightarrow> [[c]])"

text \<open>Character mode: the line so far with its width, then the code points still to come.\<close>

fun char_lines :: "nat \<Rightarrow> string \<Rightarrow> nat \<Rightarrow> u32 list \<Rightarrow> string list" where
  "char_lines columns current used [] = [current]"
| "char_lines columns current used (cp # cps) =
     (if used + columnWidth cp > columns \<and> current \<noteq> []
      then current # char_lines columns (encode cp) (columnWidth cp) cps
      else char_lines columns (current @ encode cp) (used + columnWidth cp) cps)"

text \<open>
  The loop that breaks a token wider than the line. What it cuts off is the size of the
  clipped head, which is the re-encoding of what it read.
\<close>

function hard_break :: "nat \<Rightarrow> string \<Rightarrow> (string list \<times> string) option" where
  "hard_break columns token =
     (if width token > columns then
        let head = clip token columns in
        if head = [] then Some ([], token)
        else case substr_from (length head) token of
            None \<Rightarrow> None
          | Some rest \<Rightarrow>
              (case hard_break columns rest of
                 None \<Rightarrow> None
               | Some (heads, remnant) \<Rightarrow> Some (head # heads, remnant))
      else Some ([], token))"
  by pat_completeness auto

termination
proof (relation "measure (length \<circ> snd)", simp)
  fix columns :: nat and token head :: string and rest
  assume "columns < width token" "head = clip token columns" "head \<noteq> []"
    "substr_from (length head) token = Some rest"
  moreover from this have "token \<noteq> []" by (auto simp: width_def decode_def)
  ultimately show "((columns, rest), columns, token) \<in> measure (length \<circ> snd)"
    by (auto simp: substr_from_def split: if_splits)
qed

declare hard_break.simps [simp del]

text \<open>Word mode from the second position on: greedy fill of the tokens.\<close>

fun word_lines :: "nat \<Rightarrow> string \<Rightarrow> nat \<Rightarrow> string list \<Rightarrow> string list option" where
  "word_lines columns current used [] = Some [current]"
| "word_lines columns current used (token # tokens) =
     (if token = [] then word_lines columns current used tokens
      else if width token > columns then
        (case hard_break columns token of
           None \<Rightarrow> None
         | Some (heads, remnant) \<Rightarrow>
             map_option (\<lambda>ls. (if current \<noteq> [] then [current] else []) @ heads @ ls)
               (word_lines columns remnant (width remnant) tokens))
      else if current = [] then word_lines columns token (width token) tokens
      else if used + 1 + width token \<le> columns
        then word_lines columns (current @ '' '' @ token) (used + 1 + width token) tokens
      else map_option ((#) current) (word_lines columns token (width token) tokens))"

definition indent_of :: "string \<Rightarrow> nat" where
  "indent_of paragraph = length (takeWhile ((=) CHR '' '') paragraph)"

function wrapParagraph :: "string \<Rightarrow> nat \<Rightarrow> Wrap \<Rightarrow> string list option" where
  "wrapParagraph paragraph columns mode =
     (if mode = Clip then Some [clip paragraph columns]
      else if mode = Ellipsis then Some [ellipsize paragraph columns]
      else if paragraph = [] then Some [[]]
      else if mode = Char then Some (char_lines columns [] 0 (decode paragraph))
      else let indent = indent_of paragraph in
        if 0 < indent \<and> indent < columns then
          map_option (map ((@) (replicate indent CHR '' '')))
            (wrapParagraph (drop indent paragraph) (columns - indent) mode)
        else word_lines columns [] 0 (split_at CHR '' '' paragraph))"
  by pat_completeness auto

termination
  by (relation "measure (\<lambda>(p, _, _). length p)") auto

declare wrapParagraph.simps [simp del]

fun wrap_paragraphs :: "nat \<Rightarrow> Wrap \<Rightarrow> string list \<Rightarrow> string list option" where
  "wrap_paragraphs columns mode [] = Some []"
| "wrap_paragraphs columns mode (p # ps) =
     (case wrapParagraph p columns mode of
        None \<Rightarrow> None
      | Some ls \<Rightarrow> map_option ((@) ls) (wrap_paragraphs columns mode ps))"

definition wrap :: "string \<Rightarrow> nat \<Rightarrow> Wrap \<Rightarrow> string list option" where
  "wrap utf8 columns mode =
     (if columns = 0 then Some [[]]
      else map_option (\<lambda>ls. if ls = [] then [[]] else ls)
             (wrap_paragraphs columns mode (split_at NL utf8)))"

section \<open>Repeating, case and sanitizing\<close>

partial_function (option) fill_units :: "string \<Rightarrow> nat \<Rightarrow> nat \<Rightarrow> string \<Rightarrow> string option" where
  "fill_units unit unit_width columns out =
     (if width out + unit_width \<le> columns then fill_units unit unit_width columns (out @ unit)
      else Some out)"

definition repeat :: "string \<Rightarrow> nat \<Rightarrow> string option" where
  "repeat unit columns =
     (if columns = 0 \<or> unit = [] then Some []
      else map_option
             (\<lambda>out. if width out < columns then out @ clip unit (columns - width out) else out)
             (fill_units unit (max 1 (width unit)) columns []))"

definition upperCodepoint :: "u32 \<Rightarrow> u32" where
  "upperCodepoint c =
     (if 0x61 \<le> c \<and> c \<le> 0x7A then c - 32
      else if 0x00E0 \<le> c \<and> c \<le> 0x00FE \<and> c \<noteq> 0x00F7 then c - 32
      else if c = 0x00FF then 0x0178
      else if 0x0100 \<le> c \<and> c \<le> 0x0137 then (if c mod 2 = 1 then c - 1 else c)
      else if 0x0139 \<le> c \<and> c \<le> 0x0148 then (if c mod 2 = 0 then c - 1 else c)
      else if 0x014A \<le> c \<and> c \<le> 0x0177 then (if c mod 2 = 1 then c - 1 else c)
      else if 0x0179 \<le> c \<and> c \<le> 0x017E then (if c mod 2 = 0 then c - 1 else c)
      else if c = 0x017F then 0x53
      else c)"

definition lowerCodepoint :: "u32 \<Rightarrow> u32" where
  "lowerCodepoint c =
     (if 0x41 \<le> c \<and> c \<le> 0x5A then c + 32
      else if 0x00C0 \<le> c \<and> c \<le> 0x00DE \<and> c \<noteq> 0x00D7 then c + 32
      else if c = 0x0178 then 0x00FF
      else if 0x0100 \<le> c \<and> c \<le> 0x0137 then (if c mod 2 = 0 then c + 1 else c)
      else if 0x0139 \<le> c \<and> c \<le> 0x0148 then (if c mod 2 = 1 then c + 1 else c)
      else if 0x014A \<le> c \<and> c \<le> 0x0177 then (if c mod 2 = 0 then c + 1 else c)
      else if 0x0179 \<le> c \<and> c \<le> 0x017E then (if c mod 2 = 1 then c + 1 else c)
      else c)"

definition upper :: "string \<Rightarrow> string" where
  "upper utf8 = encode_all (map upperCodepoint (decode utf8))"

definition lower :: "string \<Rightarrow> string" where
  "lower utf8 = encode_all (map lowerCodepoint (decode utf8))"

fun sanitize :: "string \<Rightarrow> string" where
  "sanitize [] = []"
| "sanitize (raw # rest) =
     (let byte = byte_of raw in
      if raw = NL \<or> raw = TAB then raw # sanitize rest
      else if byte < 0x20 \<or> byte = 0x7F then sanitize rest
      else raw # sanitize rest)"

section \<open>The decoder and the encoder are inverse on Unicode scalars\<close>

lemma follow_continuations: "follow k bs cp = continuations k bs cp"
  by (induction k bs cp rule: follow.induct) (simp_all add: isContinuation_def)

lemma malformed_rejected: "malformed (Suc n) cp = rejected n cp"
  by (auto simp: malformed_def rejected_def)

lemma lead_length_lead_byte:
  "\<not> b < 0x80 \<Longrightarrow> lead_length b = map_option (\<lambda>(n, bits). (Suc n, bits)) (lead_byte b)"
  by (simp add: lead_length_def lead_byte_def)

text \<open>
  The decoder of the code page, with the replacement character where that one reports an
  invalid code point.
\<close>

lemma decode_round_decodeUtf8:
  "decode_round b bs =
     (let (cp, rest) = decodeUtf8 (b # bs) in
      (if cp = kInvalidCodepoint then kReplacement else cp, rest))"
proof (cases "b < 0x80")
  case True
  then have "ucast b \<noteq> kInvalidCodepoint \<and> ucast b \<le> (0x10FFFF :: u32) \<and> ucast b < (0xD800 :: u32)"
    using unsigned_less [of b, where 'a = nat]
    by (auto simp: kInvalidCodepoint_def word_less_nat_alt word_le_nat_alt dest: arg_cong [where f = unat])
  then show ?thesis using True
    by (auto simp: decode_round_def lead_length_def malformed_def)
next
  case False
  then show ?thesis
    by (auto simp: decode_round_def lead_length_lead_byte follow_continuations malformed_rejected
        Let_def rejected_def kInvalidCodepoint_def split: option.splits)
qed

lemma encode_scalar: "scalar cp \<Longrightarrow> encode cp = map char_of_byte (utf8_of cp)"
  by (auto simp: encode_def utf8_of_def scalar_def Let_def unsigned_or_eq unsigned_and_eq)

lemma scalar_valid: "scalar cp \<Longrightarrow> cp \<noteq> kInvalidCodepoint"
  by (auto simp: scalar_def kInvalidCodepoint_def)

lemma scalar_replacement [simp]: "scalar kReplacement"
  by (simp add: scalar_def kReplacement_def)

lemma decode_encode [simp]:
  assumes "scalar cp"
  shows "decode (encode cp @ s) = cp # decode s"
proof -
  have d: "decodeUtf8 (utf8_of cp @ bytes_of s) = (cp, bytes_of s)"
    by (rule decodeUtf8_utf8_of [OF assms])
  obtain b bs where b: "utf8_of cp @ bytes_of s = b # bs"
    by (cases "utf8_of cp @ bytes_of s") (auto simp: utf8_of_def split: if_splits)
  have "decode (encode cp @ s) = decode_bytes (b # bs)"
    by (simp add: decode_def encode_scalar [OF assms] b [symmetric] comp_def)
  also have "\<dots> = cp # decode_bytes (bytes_of s)"
    using d b scalar_valid [OF assms] by (simp add: decode_round_decodeUtf8)
  finally show ?thesis by (simp add: decode_def)
qed

lemma decode_Nil [simp]: "decode [] = []"
  by (simp add: decode_def)

lemma encode_all_simps [simp]:
  "encode_all [] = []"
  "encode_all (cp # cps) = encode cp @ encode_all cps"
  "encode_all (cps @ cps') = encode_all cps @ encode_all cps'"
  by (simp_all add: encode_all_def)

lemma decode_encode_all [simp]:
  "list_all scalar cps \<Longrightarrow> decode (encode_all cps @ s) = cps @ decode s"
  by (induction cps) auto

lemma decode_encode_all_only [simp]:
  "list_all scalar cps \<Longrightarrow> decode (encode_all cps) = cps"
  using decode_encode_all [of cps "[]"] by simp

lemma decode_round_scalar: "scalar (fst (decode_round b bs))"
  by (auto simp: decode_round_def malformed_def scalar_def kReplacement_def not_less not_le
      split: option.splits)

lemma decode_bytes_scalars: "list_all scalar (decode_bytes bs)"
proof (induction bs rule: decode_bytes.induct)
  case 1
  then show ?case by simp
next
  case (2 b bs)
  then show ?case using decode_round_scalar [of b bs] by (auto split: prod.splits)
qed

lemma decode_scalars [simp]: "list_all scalar (decode s)"
  by (simp add: decode_def decode_bytes_scalars)

text \<open>A string is well formed when it is the encoding of what it decodes to.\<close>

definition well_formed :: "string \<Rightarrow> bool" where
  "well_formed s \<longleftrightarrow> encode_all (decode s) = s"

lemma well_formed_encode_all [simp]: "list_all scalar cps \<Longrightarrow> well_formed (encode_all cps)"
  by (simp add: well_formed_def)

lemma well_formed_cases:
  assumes "well_formed s"
  obtains cps where "list_all scalar cps" "s = encode_all cps" "decode s = cps"
  using assms decode_scalars [of s] by (metis well_formed_def)

lemma well_formed_append:
  assumes "well_formed a" "well_formed b"
  shows "well_formed (a @ b)"
proof -
  obtain as bs where "list_all scalar as" "a = encode_all as" "list_all scalar bs" "b = encode_all bs"
    using assms by (meson well_formed_cases)
  then have "a @ b = encode_all (as @ bs)" "list_all scalar (as @ bs)" by simp_all
  then show ?thesis by (metis well_formed_encode_all)
qed

section \<open>Widths\<close>

definition columns_of :: "u32 list \<Rightarrow> nat" where
  "columns_of cps = sum_list (map columnWidth cps)"

lemma columns_of_simps [simp]:
  "columns_of [] = 0"
  "columns_of (cp # cps) = columnWidth cp + columns_of cps"
  "columns_of (cps @ cps') = columns_of cps + columns_of cps'"
  by (simp_all add: columns_of_def)

lemma width_columns: "width s = columns_of (decode s)"
  by (simp add: width_def columns_of_def)

lemma width_Nil [simp]: "width [] = 0"
  by (simp add: width_columns)

lemma width_encode_all [simp]:
  "list_all scalar cps \<Longrightarrow> width (encode_all cps @ s) = columns_of cps + width s"
  by (simp add: width_columns)

lemma width_encode_all_only [simp]: "list_all scalar cps \<Longrightarrow> width (encode_all cps) = columns_of cps"
  by (simp add: width_columns)

lemma width_append: "well_formed a \<Longrightarrow> width (a @ b) = width a + width b"
  by (elim well_formed_cases) simp

lemma ascii_char:
  assumes "byte_of c < 0x80"
  shows "scalar (ucast (byte_of c))" "encode (ucast (byte_of c)) = [c]"
proof -
  have "unat (byte_of c) < 128" using assms by (simp add: word_less_nat_alt)
  then show "scalar (ucast (byte_of c))"
    by (simp add: scalar_def word_le_nat_alt)
  then show "encode (ucast (byte_of c)) = [c]"
    using \<open>unat (byte_of c) < 128\<close> by (simp add: encode_scalar utf8_of_def word_less_nat_alt)
qed

lemma space_char: "scalar 0x20" "encode 0x20 = '' ''" "columnWidth 0x20 = 1"
  by (simp_all add: scalar_def columnWidth_def) (code_simp)

lemma spaces_encode: "replicate n CHR '' '' = encode_all (replicate n 0x20)"
  by (induction n) (simp_all add: space_char)

lemma columns_of_spaces [simp]: "columns_of (replicate n 0x20) = n"
  by (induction n) (simp_all add: space_char)

lemma scalar_spaces [simp]: "list_all scalar (replicate n 0x20)"
  by (induction n) (simp_all add: space_char)

lemma width_spaces [simp]: "width (replicate n CHR '' '' @ s) = n + width s"
  by (simp add: spaces_encode)

lemma width_spaces_only [simp]: "width (replicate n CHR '' '') = n"
  by (simp add: spaces_encode)

section \<open>Clipping and padding\<close>

text \<open>The code points a clip keeps.\<close>

fun fitting :: "nat \<Rightarrow> u32 list \<Rightarrow> u32 list" where
  "fitting columns [] = []"
| "fitting columns (cp # cps) =
     (if columnWidth cp > columns then [] else cp # fitting (columns - columnWidth cp) cps)"

lemma clip_go_fitting:
  "used \<le> columns \<Longrightarrow> clip_go columns used out cps = out @ encode_all (fitting (columns - used) cps)"
  by (induction columns used out cps rule: clip_go.induct) (auto simp: diff_diff_eq)

lemma clip_fitting:
  "clip s n = (if n = 0 then [] else encode_all (fitting n (decode s)))"
  by (simp add: clip_def clip_go_fitting)

lemma columns_fitting: "columns_of (fitting n cps) \<le> n"
proof (induction n cps rule: fitting.induct)
  case (2 n cp cps)
  then show ?case by (cases "columnWidth cp > n") auto
qed simp

lemma fitting_scalars [simp]: "list_all scalar cps \<Longrightarrow> list_all scalar (fitting n cps)"
  by (induction n cps rule: fitting.induct) auto

lemma fitting_prefix: "\<exists>rest. cps = fitting n cps @ rest"
  by (induction n cps rule: fitting.induct) auto

lemma clip_well_formed [simp]: "well_formed (clip s n)"
  using well_formed_encode_all [of "[]"] by (auto simp: clip_fitting)

lemma width_clip: "width (clip s n) \<le> n"
  by (simp add: clip_fitting columns_fitting)

lemma width_pad: "width (pad s n a) = n"
proof (cases "n = 0")
  case False
  have "width (clip s n @ t) = width (clip s n) + width t" for t
    by (rule width_append) simp
  then show ?thesis using False width_clip [of s n]
    by (auto simp: pad_def Let_def split: Align.splits)
qed (simp add: pad_def)

lemma width_dots: "width ''...'' = 3"
  by code_simp

lemma width_ellipsize: "width (ellipsize s n) \<le> n"
proof -
  have "width (clip s (n - 3) @ ''...'') = width (clip s (n - 3)) + 3"
    by (simp add: width_append width_dots)
  then show ?thesis using width_clip [of s n] width_clip [of s "n - 3"]
    by (auto simp: ellipsize_def)
qed

section \<open>Separators and pieces\<close>

lemma split_at_not_Nil [simp]: "split_at s xs \<noteq> []"
  by (induction s xs rule: split_at.induct) (auto split: list.splits)

lemma split_at_prefix:
  "s \<notin> set xs \<Longrightarrow> split_at s (xs @ ys) = (xs @ hd (split_at s ys)) # tl (split_at s ys)"
  by (induction xs) (auto split: list.splits)

text \<open>The bytes of a multi-byte sequence are no separators.\<close>

lemma encode_high:
  assumes "scalar cp" "\<not> cp < 0x80" "c \<in> set (encode cp)"
  shows "\<not> byte_of c < 0x80"
proof -
  have high: "0x80 \<le> m \<Longrightarrow> \<not> m OR x < (0x80 :: u8)" for m x
    using le_word_or2 [of m x] by (meson leD order.trans)
  show ?thesis using assms high
    by (auto simp: encode_scalar utf8_of_def split: if_splits)
qed

lemma encode_ascii:
  assumes "cp < 0x80"
  shows "encode cp = [char_of_byte (ucast cp)]" "byte_of (char_of_byte (ucast cp)) < 0x80"
proof -
  have "unat cp < 128" using assms by (simp add: word_less_nat_alt)
  then show "encode cp = [char_of_byte (ucast cp)]"
    using assms by (simp add: encode_scalar utf8_of_def scalar_def word_le_nat_alt)
  show "byte_of (char_of_byte (ucast cp)) < 0x80"
    using \<open>unat cp < 128\<close> by (simp add: word_less_nat_alt unat_ucast_down)
qed

lemma separator_encoding:
  assumes "scalar cp" "byte_of c < 0x80"
  shows "c \<in> set (encode cp) \<longleftrightarrow> cp = ucast (byte_of c)"
proof (cases "cp < 0x80")
  case True
  then have "unat cp < 256" by (simp add: word_less_nat_alt)
  have "c = char_of_byte (ucast cp) \<longleftrightarrow> byte_of c = ucast cp"
    by (metis byte_of_char_of_byte char_of_byte_of)
  also have "\<dots> \<longleftrightarrow> ucast (byte_of c) = cp"
  proof
    assume "byte_of c = ucast cp"
    then have "unat (ucast (byte_of c) :: u32) = unat cp"
      using \<open>unat cp < 256\<close> by (simp add: unat_ucast_down del: unat_byte_of)
    then show "ucast (byte_of c) = cp" by (rule unsigned_word_eqI)
  next
    assume "ucast (byte_of c) = cp"
    then show "byte_of c = ucast cp" by auto
  qed
  finally show ?thesis using encode_ascii [OF True] by auto
next
  case False
  have "ucast (byte_of c) \<noteq> cp"
  proof
    assume "ucast (byte_of c) = cp"
    then have "unat (byte_of c) = unat cp" using unat_ucast_up [of "byte_of c"] by simp
    then show False using False assms(2) by (simp add: word_less_nat_alt)
  qed
  then show ?thesis using encode_high [OF assms(1) False] assms(2) by auto
qed

lemma encode_not_Nil [simp]: "encode cp \<noteq> []"
  by (simp add: encode_def Let_def)

lemma split_encode_all:
  assumes "list_all scalar cps" "byte_of c < 0x80"
  shows "split_at c (encode_all cps) = map encode_all (split_at (ucast (byte_of c)) cps)"
  using assms(1)
proof (induction cps)
  case (Cons cp cps)
  show ?case
  proof (cases "cp = ucast (byte_of c)")
    case True
    then show ?thesis using Cons ascii_char [OF assms(2)] by simp
  next
    case False
    then have "c \<notin> set (encode cp)" using Cons.prems separator_encoding [OF _ assms(2)] by simp
    moreover obtain q qs where "split_at (ucast (byte_of c)) cps = q # qs"
      by (cases "split_at (ucast (byte_of c)) cps") auto
    ultimately show ?thesis using Cons False by (simp add: split_at_prefix)
  qed
qed simp

lemma split_at_all: "list_all P xs \<Longrightarrow> list_all (list_all P) (split_at s xs)"
  by (induction s xs rule: split_at.induct) (auto split: list.splits)

lemma well_formed_pieces:
  assumes "well_formed s" "byte_of c < 0x80"
  shows "list_all well_formed (split_at c s)"
proof -
  obtain cps where "list_all scalar cps" "s = encode_all cps" by (rule well_formed_cases [OF assms(1)])
  then show ?thesis using split_at_all [of scalar cps "ucast (byte_of c)"]
    by (auto simp: split_encode_all [OF _ assms(2)] list_all_iff)
qed

lemma split_at_ink: "\<not> P s \<Longrightarrow> filter P (concat (split_at s xs)) = filter P xs"
  by (induction s xs rule: split_at.induct) (auto split: list.splits)

section \<open>Wrapping keeps the text\<close>

text \<open>What a reader of the receipt sees of a text: everything but blanks and line breaks.\<close>

definition ink :: "string \<Rightarrow> string" where
  "ink s = filter (\<lambda>c. c \<noteq> CHR '' '' \<and> c \<noteq> NL) s"

lemma ink_simps [simp]: "ink [] = []" "ink (a @ b) = ink a @ ink b"
  by (simp_all add: ink_def)

lemma ink_space [simp]: "ink (CHR '' '' # s) = ink s"
  by (simp add: ink_def)

lemma ink_spaces [simp]: "ink (replicate n CHR '' '') = []"
  by (simp add: ink_def)

lemma ink_pieces: "c = CHR '' '' \<or> c = NL \<Longrightarrow> ink (concat (split_at c s)) = ink s"
  unfolding ink_def by (rule split_at_ink) auto

text \<open>No code point takes more than one column.\<close>

definition narrow :: "string \<Rightarrow> bool" where
  "narrow s \<longleftrightarrow> list_all (\<lambda>cp. columnWidth cp \<le> 1) (decode s)"

text \<open>
  The lines are right for a text and a width: they carry its ink in order, and none is too
  wide unless the text has wide glyphs.
\<close>

definition fits :: "nat \<Rightarrow> string \<Rightarrow> bool" where
  "fits n s \<longleftrightarrow> width s \<le> n"

definition lines_for :: "nat \<Rightarrow> string \<Rightarrow> string list \<Rightarrow> bool" where
  "lines_for n s ls \<longleftrightarrow> ink (concat ls) = ink s \<and> (narrow s \<longrightarrow> list_all (fits n) ls)"

lemma narrow_append: "well_formed a \<Longrightarrow> narrow (a @ b) \<longleftrightarrow> narrow a \<and> narrow b"
  by (elim well_formed_cases) (simp add: narrow_def)

lemma narrow_Nil [simp]: "narrow []" and fits_Nil [simp]: "fits n []"
  by (simp_all add: narrow_def fits_def)

lemma narrow_pieces:
  assumes "well_formed s" "byte_of c < 0x80"
  shows "narrow s \<longrightarrow> list_all narrow (split_at c s)"
proof -
  obtain cps where c: "list_all scalar cps" "s = encode_all cps" "decode s = cps"
    by (rule well_formed_cases [OF assms(1)])
  have "list_all (list_all scalar) (split_at (ucast (byte_of c)) cps)" by (rule split_at_all [OF c(1)])
  moreover have "narrow s \<Longrightarrow>
    list_all (list_all (\<lambda>cp. columnWidth cp \<le> 1)) (split_at (ucast (byte_of c)) cps)"
    using c(3) by (intro split_at_all) (simp add: narrow_def)
  ultimately show ?thesis using c
    by (auto simp: narrow_def split_encode_all [OF c(1) assms(2)] list_all_iff)
qed

lemma char_lines_right:
  assumes "list_all scalar cps" "list_all scalar acc" "current = encode_all acc" "used = columns_of acc"
  shows "concat (char_lines n current used cps) = current @ encode_all cps \<and>
    (list_all (\<lambda>cp. columnWidth cp \<le> 1) cps \<and> used \<le> n \<and> 0 < n \<longrightarrow>
       list_all (fits n) (char_lines n current used cps))"
  using assms
proof (induction cps arbitrary: current used acc)
  case Nil
  then show ?case by (simp add: fits_def)
next
  case (Cons cp cps)
  have new: "encode cp = encode_all [cp]" "columnWidth cp = columns_of [cp]" "list_all scalar [cp]"
    using Cons.prems by simp_all
  have more: "current @ encode cp = encode_all (acc @ [cp])"
    "used + columnWidth cp = columns_of (acc @ [cp])" "list_all scalar (acc @ [cp])"
    using Cons.prems by simp_all
  have c: "list_all scalar cps" using Cons.prems by simp
  have u: "current = [] \<longrightarrow> used = 0" using Cons.prems by (cases acc) auto
  show ?case
    using Cons.IH [OF c new(3) new(1) new(2)] Cons.IH [OF c more(3) more(1) more(2)] Cons.prems u
    by (auto simp: fits_def)
qed

lemma clip_rest:
  assumes "well_formed s" "0 < n"
  obtains rest where "s = clip s n @ rest" "well_formed rest"
proof -
  obtain cps where c: "list_all scalar cps" "s = encode_all cps" "decode s = cps"
    by (rule well_formed_cases [OF assms(1)])
  obtain r where r: "cps = fitting n cps @ r" using fitting_prefix by blast
  then have "list_all scalar r" using c(1) by (metis list_all_append)
  moreover have "s = clip s n @ encode_all r"
    using c r assms(2) by (metis clip_fitting encode_all_simps(3) not_gr_zero)
  ultimately show thesis using that by simp
qed

lemma narrow_clip_progress:
  assumes "narrow s" "0 < n" "n < width s"
  shows "clip s n \<noteq> []"
proof -
  obtain cp cps where "decode s = cp # cps" using assms(3) by (cases "decode s") (auto simp: width_columns)
  then show ?thesis using assms by (simp add: clip_fitting narrow_def)
qed

lemma space_text: "well_formed '' ''" "width '' '' = 1"
  using well_formed_encode_all [of "[0x20]"] width_encode_all_only [of "[0x20]"]
  by (simp_all add: space_char)

lemma hard_break_right:
  assumes "well_formed token" "0 < n"
  shows "\<exists>heads rest. hard_break n token = Some (heads, rest) \<and> concat heads @ rest = token \<and>
    well_formed rest \<and> list_all (fits n) heads \<and> (narrow token \<longrightarrow> fits n rest)"
  using assms
proof (induction n token rule: hard_break.induct)
  case (1 n token)
  consider "\<not> n < width token" | "n < width token" "clip token n = []"
    | "n < width token" "clip token n \<noteq> []" by blast
  then show ?case
  proof cases
    case 3
    obtain rest where r: "token = clip token n @ rest" "well_formed rest"
      by (rule clip_rest [OF 1(2,3)])
    then have d: "substr_from (length (clip token n)) token = Some rest"
      by (metis append_eq_conv_conj le_add1 length_append not_le substr_from_def)
    obtain heads last where ih: "hard_break n rest = Some (heads, last)"
      "concat heads @ last = rest" "well_formed last" "list_all (fits n) heads"
      "narrow rest \<longrightarrow> fits n last"
      using 1(1) [OF 3(1) refl 3(2) d r(2) 1(3)] by blast
    have "narrow token \<longrightarrow> narrow rest" using r(1) narrow_append [OF clip_well_formed] by metis
    moreover have "fits n (clip token n)" by (simp add: fits_def width_clip)
    moreover have "concat (clip token n # heads) @ last = token" using ih(2) r(1) by simp
    ultimately show ?thesis
      using ih 3 d hard_break.simps [of n token] by (auto simp: Let_def)
  qed (use 1 narrow_clip_progress hard_break.simps [of n token] in \<open>auto simp: Let_def fits_def not_less\<close>)
qed

lemma word_lines_right:
  assumes "list_all well_formed tokens" "well_formed current" "used = width current" "0 < n"
  shows "\<exists>ls. word_lines n current used tokens = Some ls \<and>
    ink (concat ls) = ink current @ ink (concat tokens) \<and>
    (list_all narrow tokens \<and> fits n current \<longrightarrow> list_all (fits n) ls)"
  using assms
proof (induction n current used tokens rule: word_lines.induct)
  case (1 n current used)
  then show ?case by simp
next
  case (2 n current used token tokens)
  have w: "well_formed token" "list_all well_formed tokens" using "2.prems" by simp_all
  consider "token = []" | "token \<noteq> []" "n < width token" | "token \<noteq> []" "\<not> n < width token" "current = []"
    | "token \<noteq> []" "\<not> n < width token" "current \<noteq> []" "used + 1 + width token \<le> n"
    | "token \<noteq> []" "\<not> n < width token" "current \<noteq> []" "\<not> used + 1 + width token \<le> n" by blast
  then show ?case
  proof cases
    case 1
    then show ?thesis using "2.IH"(1) "2.prems" by simp
  next
    case 2
    obtain heads rest where h: "hard_break n token = Some (heads, rest)" "concat heads @ rest = token"
      "well_formed rest" "list_all (fits n) heads" "narrow token \<longrightarrow> fits n rest"
      using hard_break_right [OF w(1) "2.prems"(4)] by blast
    obtain ls where l: "word_lines n rest (width rest) tokens = Some ls"
      "ink (concat ls) = ink rest @ ink (concat tokens)"
      "list_all narrow tokens \<and> fits n rest \<longrightarrow> list_all (fits n) ls"
      using "2.IH"(2) [OF 2 h(1) refl w(2) h(3) refl "2.prems"(4)] by blast
    have "ink token = ink (concat heads) @ ink rest" using h(2) by (metis ink_simps(2))
    then show ?thesis using 2 h(1,4,5) l by auto
  next
    case 3
    then show ?thesis using "2.IH"(3) [OF 3(1,2,3) w(2,1) refl "2.prems"(4)] by (auto simp: fits_def)
  next
    case 4
    have v: "well_formed (current @ '' '' @ token)"
      "used + 1 + width token = width (current @ '' '' @ token)"
      using "2.prems" w space_text
      by (simp_all add: well_formed_append width_append del: append.simps)
    show ?thesis using "2.IH"(4) [OF 4 w(2) v "2.prems"(4)] 4 v(2) by (auto simp: fits_def)
  next
    case 5
    then show ?thesis using "2.IH"(5) [OF 5 w(2,1) refl "2.prems"(4)] by (auto simp: fits_def)
  qed
qed

lemma well_formed_spaces:
  assumes "well_formed (replicate k CHR '' '' @ s)"
  shows "well_formed s"
proof -
  have "encode_all (replicate k 0x20) @ encode_all (decode s) = encode_all (replicate k 0x20) @ s"
    using assms by (simp add: well_formed_def spaces_encode)
  then show ?thesis by (simp add: well_formed_def)
qed

lemma takeWhile_eq_replicate: "takeWhile ((=) c) s = replicate (length (takeWhile ((=) c) s)) c"
  by (induction s) auto

lemma indent_split: "p = replicate (indent_of p) CHR '' '' @ drop (indent_of p) p"
proof -
  have "p = takeWhile ((=) CHR '' '') p @ drop (indent_of p) p"
    by (simp add: indent_of_def dropWhile_eq_drop [symmetric])
  then show ?thesis unfolding indent_of_def by (metis takeWhile_eq_replicate)
qed

lemma wrapParagraph_right:
  assumes "well_formed p" "0 < n" "mode = Word \<or> mode = Char"
  shows "\<exists>ls. wrapParagraph p n mode = Some ls \<and> lines_for n p ls"
  using assms
proof (induction p n mode rule: wrapParagraph.induct)
  case (1 p n mode)
  define k where "k = indent_of p"
  consider "p = []" | "p \<noteq> []" "mode = Char" | "p \<noteq> []" "mode = Word" "0 < k" "k < n"
    | "p \<noteq> []" "mode = Word" "\<not> (0 < k \<and> k < n)" using 1(4) by blast
  then show ?case
  proof cases
    case 1
    then show ?thesis using \<open>mode = Word \<or> mode = Char\<close> wrapParagraph.simps [of p n mode]
      by (auto simp: lines_for_def)
  next
    case 2
    obtain cps where c: "list_all scalar cps" "p = encode_all cps" "decode p = cps"
      by (rule well_formed_cases [OF 1(2)])
    show ?thesis
      using 2 c 1(3) wrapParagraph.simps [of p n mode] char_lines_right [OF c(1), of "[]" "[]" 0 n]
      by (auto simp: lines_for_def narrow_def)
  next
    case 3
    have s: "p = replicate k CHR '' '' @ drop k p" unfolding k_def by (rule indent_split)
    then have w: "well_formed (drop k p)" using 1(2) well_formed_spaces by metis
    obtain ls where l: "wrapParagraph (drop k p) (n - k) mode = Some ls" "lines_for (n - k) (drop k p) ls"
      using 1(1) [of k] 3 w 1(4) by (auto simp: k_def)
    have i: "ink (concat (map ((@) (replicate k CHR '' '')) xs)) = ink (concat xs)" for xs
      by (induction xs) simp_all
    have "narrow p \<longrightarrow> narrow (drop k p)"
      using s narrow_append [of "replicate k CHR '' ''" "drop k p"] by (simp add: spaces_encode)
    moreover have "ink p = ink (drop k p)" by (subst s) simp
    moreover have "list_all (fits (n - k)) xs \<Longrightarrow> list_all (fits n) (map ((@) (replicate k CHR '' '')) xs)" for xs
      using 3(4) by (induction xs) (auto simp: fits_def)
    ultimately show ?thesis
      using 3 l wrapParagraph.simps [of p n mode] i by (auto simp: lines_for_def k_def Let_def)
  next
    case 4
    obtain cps where c: "list_all scalar cps" "p = encode_all cps" "decode p = cps"
      by (rule well_formed_cases [OF 1(2)])
    have sp: "byte_of CHR '' '' < 0x80" by code_simp
    have t: "list_all well_formed (split_at CHR '' '' p)" by (rule well_formed_pieces [OF 1(2) sp])
    have nr: "narrow p \<longrightarrow> list_all narrow (split_at CHR '' '' p)"
      by (rule narrow_pieces [OF 1(2) sp])
    have e: "well_formed []" by (simp add: well_formed_def)
    show ?thesis
      using 4 word_lines_right [OF t e _ 1(3), of 0] nr wrapParagraph.simps [of p n mode]
      by (auto simp: lines_for_def k_def Let_def ink_pieces)
  qed
qed

lemma wrap_paragraphs_right:
  assumes "list_all well_formed ps" "0 < n" "mode = Word \<or> mode = Char"
  shows "\<exists>ls. wrap_paragraphs n mode ps = Some ls \<and> ink (concat ls) = ink (concat ps) \<and>
    (list_all narrow ps \<longrightarrow> list_all (fits n) ls)"
  using assms(1)
proof (induction ps)
  case (Cons p ps)
  then show ?case using wrapParagraph_right [of p n mode] assms(2,3)
    by (fastforce simp: lines_for_def)
qed simp

text \<open>
  C33: wrapping a well-formed text by word or by character never throws, loses and reorders no
  visible character, and, where no glyph takes two columns, produces no line wider than the
  paper.
\<close>

theorem wrap_keeps_text:
  assumes "well_formed text" "0 < columns" "mode = Word \<or> mode = Char"
  shows "\<exists>ls. wrap text columns mode = Some ls \<and> ink (concat ls) = ink text \<and>
    (narrow text \<longrightarrow> (\<forall>l \<in> set ls. width l \<le> columns))"
proof -
  have nl: "byte_of NL < 0x80" by code_simp
  obtain ls where "wrap_paragraphs columns mode (split_at NL text) = Some ls"
    "ink (concat ls) = ink (concat (split_at NL text))"
    "list_all narrow (split_at NL text) \<longrightarrow> list_all (fits columns) ls"
    using wrap_paragraphs_right [OF well_formed_pieces [OF assms(1) nl] assms(2,3)] by blast
  then show ?thesis using assms(2) narrow_pieces [OF assms(1) nl]
    by (auto simp: wrap_def ink_pieces list_all_iff fits_def)
qed

theorem wrap_keeps_text_witness:
  "\<exists>ls. wrap ''two long words here'' 8 Word = Some ls \<and>
     ink (concat ls) = ''twolongwordshere'' \<and> (\<forall>l \<in> set ls. width l \<le> 8)"
proof -
  have "well_formed ''two long words here''" "narrow ''two long words here''"
    "ink ''two long words here'' = ''twolongwordshere''" by code_simp+
  then show ?thesis using wrap_keeps_text [of "''two long words here''" 8 Word] by auto
qed

section \<open>Malformed text\<close>

text \<open>
  A stray continuation byte decodes to one replacement character, which encodes to three
  bytes: the clipped head is longer than what it was clipped from.
\<close>

lemma decode_stray: "decode (replicate k CHR 0x80) = replicate k kReplacement"
proof -
  have "byte_of CHR 0x80 = 0x80" by code_simp
  then have "decode_bytes (replicate k (byte_of CHR 0x80)) = replicate k kReplacement"
    by (induction k) (simp_all add: decode_round_def lead_length_def)
  then show ?thesis by (simp add: decode_def)
qed

lemma replacement_columns: "columnWidth kReplacement = 1" "length (encode kReplacement) = 3"
  by (simp_all add: columnWidth_def kReplacement_def encode_def Let_def)

lemma columns_of_replacements [simp]: "columns_of (replicate k kReplacement) = k"
  by (induction k) (simp_all add: replacement_columns)

lemma length_replacements: "length (encode_all (replicate k kReplacement)) = 3 * k"
  by (induction k) (simp_all add: replacement_columns)

lemma fitting_replacements: "n \<le> k \<Longrightarrow> fitting n (replicate k kReplacement) = replicate n kReplacement"
  by (induction k arbitrary: n) (auto simp: replacement_columns Suc_le_eq gr0_conv_Suc le_Suc_eq)

text \<open>
  C34: wrapping by word throws \<^verbatim>\<open>std::out_of_range\<close> on every run of stray continuation bytes
  longer than the line and shorter than three lines, because the loop that breaks a long
  token skips as many bytes as the re-encoded head has.
\<close>

theorem wrap_throws_on_stray_bytes:
  assumes "columns < k" "k < 3 * columns"
  shows "wrap (replicate k CHR 0x80) columns Word = None"
proof -
  let ?s = "replicate k CHR 0x80"
  have w: "width ?s = k" by (simp add: width_columns decode_stray)
  have c: "clip ?s columns = encode_all (replicate columns kReplacement)"
    using assms by (simp add: clip_fitting decode_stray fitting_replacements)
  have h: "hard_break columns ?s = None"
    using assms w c length_replacements [of columns] hard_break.simps [of columns ?s]
    by (auto simp: substr_from_def Let_def)
  have split: "split_at x ?s = [?s]" if "x \<noteq> CHR 0x80" for x
    using that by (induction k) simp_all
  have "indent_of ?s = 0" using assms by (cases k) (simp_all add: indent_of_def)
  moreover have "CHR '' '' \<noteq> CHR 0x80" "NL \<noteq> CHR 0x80" by (simp_all add: NL_def)
  moreover have "?s \<noteq> []" using assms by simp
  ultimately show ?thesis
    using assms w h split by (simp add: wrap_def wrapParagraph.simps Let_def)
qed

theorem wrap_throws_on_stray_bytes_witness: "wrap (replicate 12 CHR 0x80) 10 Word = None"
  by (rule wrap_throws_on_stray_bytes) simp_all

section \<open>Repeating a unit\<close>

lemma fill_units_never_returns:
  assumes "fill_units unit unit_width columns out = Some r"
  shows "\<not> (well_formed out \<and> well_formed unit \<and> width unit = 0 \<and> width out + unit_width \<le> columns)"
  using assms
proof (rule fill_units.raw_induct [rotated])
  fix fill unit unit_width columns out r
  assume ih: "\<And>unit unit_width columns out r. fill unit unit_width columns out = Some r \<Longrightarrow>
      \<not> (well_formed out \<and> well_formed unit \<and> width unit = 0 \<and> width out + unit_width \<le> columns)"
    and body: "(if width out + unit_width \<le> columns then fill unit unit_width columns (out @ unit)
      else Some out) = Some r"
  show "\<not> (well_formed out \<and> well_formed unit \<and> width unit = 0 \<and> width out + unit_width \<le> columns)"
    using body ih [of unit unit_width columns "out @ unit" r]
    by (auto simp: well_formed_append width_append)
qed

lemma fill_units_returns:
  assumes "well_formed unit" "0 < width unit" "well_formed out" "width out \<le> columns"
  shows "\<exists>r. fill_units unit (width unit) columns out = Some r \<and> well_formed r \<and>
    width r \<le> columns \<and> columns < width r + width unit"
  using assms(3,4)
proof (induction "columns - width out" arbitrary: out rule: less_induct)
  case less
  show ?case
  proof (cases "width out + width unit \<le> columns")
    case True
    have w: "well_formed (out @ unit)" "width (out @ unit) = width out + width unit"
      using less.prems assms(1) by (simp_all add: well_formed_append width_append)
    then show ?thesis
      using less.hyps [of "out @ unit"] True assms(2) fill_units.simps [of unit "width unit" columns out]
      by auto
  next
    case False
    then show ?thesis using less.prems fill_units.simps [of unit "width unit" columns out] by simp
  qed
qed

lemma fitting_exact:
  "list_all (\<lambda>cp. columnWidth cp \<le> 1) cps \<Longrightarrow> n \<le> columns_of cps \<Longrightarrow> columns_of (fitting n cps) = n"
proof (induction n cps rule: fitting.induct)
  case (2 n cp cps)
  then show ?case by (cases "columnWidth cp > n") auto
qed simp

lemma clip_exact: "narrow s \<Longrightarrow> n \<le> width s \<Longrightarrow> width (clip s n) = n"
  by (simp add: clip_fitting fitting_exact narrow_def width_columns [of s])

text \<open>
  C35: \<^verbatim>\<open>repeat\<close> returns for a well-formed unit exactly when the unit takes a column: then the
  line it builds is never wider than asked for, and exactly as wide for a unit of narrow
  characters. A unit of combining marks alone makes it run forever.
\<close>

theorem repeat_returns_or_hangs:
  assumes "well_formed unit" "unit \<noteq> []" "0 < columns"
  shows "if width unit = 0 then repeat unit columns = None
    else \<exists>out. repeat unit columns = Some out \<and> width out \<le> columns \<and>
      (narrow unit \<longrightarrow> width out = columns)"
proof (cases "width unit = 0")
  case True
  have "fill_units unit 1 columns [] = None"
    using fill_units_never_returns [of unit 1 columns "[]"] True assms
    by (cases "fill_units unit 1 columns []") (auto simp: well_formed_def Suc_le_eq)
  then show ?thesis using True assms by (simp add: repeat_def)
next
  case False
  have "well_formed []" by (simp add: well_formed_def)
  then obtain r where r: "fill_units unit (width unit) columns [] = Some r" "well_formed r"
    "width r \<le> columns" "columns < width r + width unit"
    using fill_units_returns [of unit "[]" columns] assms False by auto
  have m: "max 1 (width unit) = width unit" using False by simp
  show ?thesis
    using r m False assms width_clip [of unit "columns - width r"]
      clip_exact [of unit "columns - width r"]
    by (auto simp: repeat_def width_append)
qed

theorem repeat_returns_or_hangs_witness:
  "(\<exists>out. repeat ''-='' 7 = Some out \<and> width out = 7) \<and> repeat [CHR 0xCC, CHR 0x81] 1 = None"
proof -
  have "well_formed ''-=''" "width ''-='' = 2" "narrow ''-=''" by code_simp+
  moreover have "well_formed [CHR 0xCC, CHR 0x81]" "width [CHR 0xCC, CHR 0x81] = 0" by code_simp+
  ultimately show ?thesis
    using repeat_returns_or_hangs [of "''-=''" 7] repeat_returns_or_hangs [of "[CHR 0xCC, CHR 0x81]" 1]
    by auto
qed

section \<open>Sanitizing and case\<close>

definition control :: "char \<Rightarrow> bool" where
  "control c \<longleftrightarrow> (byte_of c < 0x20 \<or> byte_of c = 0x7F) \<and> c \<noteq> NL \<and> c \<noteq> TAB"

lemma sanitize_filter: "sanitize s = filter (\<lambda>c. \<not> control c) s"
  by (induction s) (auto simp: control_def Let_def)

lemma sanitize_clean: "c \<in> set (sanitize s) \<Longrightarrow> \<not> control c"
  by (simp add: sanitize_filter)

lemma sanitize_idem [simp]: "sanitize (sanitize s) = sanitize s"
  by (simp add: sanitize_filter)

end
