(* ===== verification/Receipt_Json.thy ===== *)
theory Receipt_Json imports
  Complex_Main
  Job_Store
  Receipt_Text
begin

text \<open>
  \<^verbatim>\<open>dsl/src/json.cpp\<close> and \<^verbatim>\<open>json.hpp\<close>: the value type, the strict parser with its depth limit
  and the serializer. The parser's position is the suffix of the text still to be read; an
  error holds the length of that suffix, from which the byte offset of the message follows.
  The recursion of the parser carries fuel, and the lemmas show that the fuel it starts with
  never runs out. A \<^theory_text>\<open>double\<close> is the rational number it denotes: conversions round as IEEE 754
  does, and the sign of zero and the non-finite values, which no parsed document holds, are
  left out.
\<close>

section \<open>Doubles\<close>

type_synonym double = rat

text \<open>Round half to even, and the exponent of the leading digit of a positive number.\<close>

definition round_even :: "rat \<Rightarrow> int" where
  "round_even q =
     (let t = q - of_int \<lfloor>q\<rfloor> in
      if t < 1 / 2 then \<lfloor>q\<rfloor>
      else if t > 1 / 2 then \<lfloor>q\<rfloor> + 1
      else if even \<lfloor>q\<rfloor> then \<lfloor>q\<rfloor> else \<lfloor>q\<rfloor> + 1)"

fun base_digits :: "nat \<Rightarrow> nat \<Rightarrow> nat" where
  "base_digits b n = (if n = 0 \<or> b < 2 then 0 else Suc (base_digits b (n div b)))"

declare base_digits.simps [simp del]

definition leading_exponent :: "nat \<Rightarrow> rat \<Rightarrow> int" where
  "leading_exponent b x =
     (let (n, d) = quotient_of x;
          k = int (base_digits b (nat n)) - int (base_digits b (nat d)) in
      if x \<ge> of_nat b powi k then k else k - 1)"

text \<open>The nearest double; None is an overflow.\<close>

definition double_of :: "rat \<Rightarrow> double option" where
  "double_of x =
     (if x = 0 then Some 0
      else let e = max (leading_exponent 2 \<bar>x\<bar> - 52) (- 1074);
               r = of_int (round_even (\<bar>x\<bar> / 2 powi e)) * 2 powi e in
        if r \<ge> 2 ^ 1024 then None else Some (sgn x * r))"

definition digit_nat :: "char \<Rightarrow> nat" where
  "digit_nat c = of_char c - 48"

definition digits_nat :: "string \<Rightarrow> nat" where
  "digits_nat ds = foldl (\<lambda>n c. 10 * n + digit_nat c) 0 ds"

definition minus_sign :: "string \<Rightarrow> bool" where
  "minus_sign s \<longleftrightarrow> s \<noteq> [] \<and> hd s = CHR ''-''"

text \<open>The real number a decimal literal denotes.\<close>

definition literal_value :: "string \<Rightarrow> rat" where
  "literal_value s =
     (let unsigned = if minus_sign s then tl s else s;
          whole = takeWhile is_digit unsigned;
          tail = dropWhile is_digit unsigned;
          dot = tail \<noteq> [] \<and> hd tail = CHR ''.'';
          fraction = if dot then takeWhile is_digit (tl tail) else [];
          tail2 = if dot then dropWhile is_digit (tl tail) else tail;
          scaled = tail2 \<noteq> [] \<and> hd tail2 \<in> {CHR ''e'', CHR ''E''};
          power = if scaled then tl tail2 else [];
          signed = power \<noteq> [] \<and> hd power \<in> {CHR ''+'', CHR ''-''};
          magnitude = int (digits_nat (takeWhile is_digit (if signed then tl power else power)));
          exponent = if minus_sign power then - magnitude else magnitude;
          value = of_nat (digits_nat (whole @ fraction)) * 10 powi (exponent - int (length fraction)) in
      if minus_sign s then - value else value)"

definition parseDoubleLiteral :: "string \<Rightarrow> double" where
  "parseDoubleLiteral literal = (case double_of (literal_value literal) of Some v \<Rightarrow> v | None \<Rightarrow> 0)"

definition int_digits :: "int \<Rightarrow> string" where
  "int_digits i = (if i < 0 then ''-'' @ dec_digits (nat (- i)) else dec_digits (nat i))"

definition strip_zeros :: "string \<Rightarrow> string" where
  "strip_zeros ds = rev (dropWhile ((=) CHR ''0'') (rev ds))"

definition point_digits :: "string \<Rightarrow> string" where
  "point_digits ds = (if strip_zeros ds = [] then [] else ''.'' @ strip_zeros ds)"

text \<open>A double written with the default format of a stream at a precision, that is \<^verbatim>\<open>%.*g\<close>.\<close>

definition format_general :: "nat \<Rightarrow> double \<Rightarrow> string" where
  "format_general precision v =
     (if v = 0 then ''0''
      else let e = leading_exponent 10 \<bar>v\<bar>;
               rounded = round_even (\<bar>v\<bar> / 10 powi (e - (int precision - 1)));
               carried = rounded \<ge> 10 ^ precision;
               digits = dec_digits (nat (if carried then 10 ^ (precision - 1) else rounded));
               x = if carried then e + 1 else e;
               body = (if x < - 4 \<or> x \<ge> int precision
                 then take 1 digits @ point_digits (drop 1 digits) @ ''e'' @
                   (if x < 0 then ''-'' else ''+'') @
                   (if \<bar>x\<bar> < 10 then ''0'' else '''') @ dec_digits (nat \<bar>x\<bar>)
                 else if x < 0 then ''0.'' @ replicate (nat (- x) - 1) CHR ''0'' @ strip_zeros digits
                 else take (nat x + 1) digits @ point_digits (drop (nat x + 1) digits)) in
        (if v < 0 then ''-'' else '''') @ body)"

definition formatDouble :: "double \<Rightarrow> string" where
  "formatDouble value =
     (if value = of_int \<lfloor>value\<rfloor> \<and> \<bar>value\<bar> < 10 ^ 15 then int_digits \<lfloor>value\<rfloor>
      else case filter (\<lambda>c. parseDoubleLiteral c = value)
                  (map (\<lambda>p. format_general p value) [1..<18]) of
          candidate # _ \<Rightarrow> candidate
        | [] \<Rightarrow> format_general 17 value)"

section \<open>Values\<close>

datatype Json =
    JNull
  | JBool bool
  | JNumber double string
  | JString string
  | JArray "Json list"
  | JObject "(string \<times> Json) list"

fun isNumber :: "Json \<Rightarrow> bool" where
  "isNumber (JNumber _ _) = True" | "isNumber _ = False"

fun isString :: "Json \<Rightarrow> bool" where
  "isString (JString _) = True" | "isString _ = False"

fun isArray :: "Json \<Rightarrow> bool" where
  "isArray (JArray _) = True" | "isArray _ = False"

fun isObject :: "Json \<Rightarrow> bool" where
  "isObject (JObject _) = True" | "isObject _ = False"

fun isBool :: "Json \<Rightarrow> bool" where
  "isBool (JBool _) = True" | "isBool _ = False"

definition json_number :: "double \<Rightarrow> Json" where
  "json_number value = JNumber value []"

fun asBool :: "Json \<Rightarrow> bool \<Rightarrow> bool" where
  "asBool (JBool b) fallback = b"
| "asBool _ fallback = fallback"

fun asNumber :: "Json \<Rightarrow> double \<Rightarrow> double" where
  "asNumber (JNumber v _) fallback = v"
| "asNumber _ fallback = fallback"

text \<open>The cast of a double to \<^theory_text>\<open>long long\<close> truncates; None is undefined behaviour.\<close>

definition to_long_long :: "double \<Rightarrow> int option" where
  "to_long_long v =
     (let t = (if v < 0 then \<lceil>v\<rceil> else \<lfloor>v\<rfloor>) in
      if - (2 ^ 63) \<le> t \<and> t < 2 ^ 63 then Some t else None)"

definition double_sum :: "double \<Rightarrow> double \<Rightarrow> double" where
  "double_sum a b = (case double_of (a + b) of Some v \<Rightarrow> v | None \<Rightarrow> sgn a * 2 ^ 1024)"

fun asInt :: "Json \<Rightarrow> int \<Rightarrow> int option" where
  "asInt (JNumber v _) fallback =
     to_long_long (if v < 0 then double_sum v (- 1 / 2) else double_sum v (1 / 2))"
| "asInt _ fallback = Some fallback"

fun asString :: "Json \<Rightarrow> string" where
  "asString (JString s) = s"
| "asString _ = []"

fun literal :: "Json \<Rightarrow> string" where
  "literal (JNumber _ l) = l"
| "literal _ = []"

fun asArray :: "Json \<Rightarrow> Json list" where
  "asArray (JArray vs) = vs"
| "asArray _ = []"

fun asObject :: "Json \<Rightarrow> (string \<times> Json) list" where
  "asObject (JObject ms) = ms"
| "asObject _ = []"

fun json_find :: "string \<Rightarrow> Json \<Rightarrow> Json option" where
  "json_find key (JObject ms) = map_of ms key"
| "json_find key _ = None"

fun json_at :: "nat \<Rightarrow> Json \<Rightarrow> Json option" where
  "json_at index (JArray vs) = (if index \<ge> length vs then None else Some (vs ! index))"
| "json_at index _ = None"

fun json_size :: "Json \<Rightarrow> nat" where
  "json_size (JArray vs) = length vs"
| "json_size (JObject ms) = length ms"
| "json_size _ = 0"

fun truthy :: "Json \<Rightarrow> bool" where
  "truthy JNull = False"
| "truthy (JBool b) = b"
| "truthy (JNumber v _) = (v \<noteq> 0)"
| "truthy (JString s) = (s \<noteq> [])"
| "truthy (JArray vs) = (vs \<noteq> [])"
| "truthy (JObject ms) = (ms \<noteq> [])"

text \<open>Replacing a member in place, or appending it.\<close>

fun put_member :: "string \<Rightarrow> 'v \<Rightarrow> (string \<times> 'v) list \<Rightarrow> (string \<times> 'v) list" where
  "put_member key v [] = [(key, v)]"
| "put_member key v ((k, w) # ms) =
     (if k = key then (k, v) # ms else (k, w) # put_member key v ms)"

fun json_set :: "string \<Rightarrow> Json \<Rightarrow> Json \<Rightarrow> Json" where
  "json_set key v (JObject ms) = JObject (put_member key v ms)"
| "json_set key v _ = JObject [(key, v)]"

fun json_push :: "Json \<Rightarrow> Json \<Rightarrow> Json" where
  "json_push v (JArray vs) = JArray (vs @ [v])"
| "json_push v _ = JArray [v]"

fun remove_member :: "string \<Rightarrow> (string \<times> 'v) list \<Rightarrow> (string \<times> 'v) list" where
  "remove_member key [] = []"
| "remove_member key ((k, w) # ms) = (if k = key then ms else (k, w) # remove_member key ms)"

fun json_remove :: "string \<Rightarrow> Json \<Rightarrow> Json" where
  "json_remove key (JObject ms) = JObject (remove_member key ms)"
| "json_remove key v = v"

text \<open>\<^verbatim>\<open>operator==\<close>: numbers by value, whatever their literals.\<close>

fun json_eq :: "Json \<Rightarrow> Json \<Rightarrow> bool"
  and items_eq :: "Json list \<Rightarrow> Json list \<Rightarrow> bool"
  and members_eq :: "(string \<times> Json) list \<Rightarrow> (string \<times> Json) list \<Rightarrow> bool" where
  "json_eq JNull JNull = True"
| "json_eq (JBool a) (JBool b) = (a = b)"
| "json_eq (JNumber a _) (JNumber b _) = (a = b)"
| "json_eq (JString a) (JString b) = (a = b)"
| "json_eq (JArray a) (JArray b) = items_eq a b"
| "json_eq (JObject a) (JObject b) = members_eq a b"
| "json_eq _ _ = False"
| "items_eq [] [] = True"
| "items_eq (x # xs) (y # ys) = (json_eq x y \<and> items_eq xs ys)"
| "items_eq _ _ = False"
| "members_eq [] [] = True"
| "members_eq ((k, x) # xs) ((l, y) # ys) = (k = l \<and> json_eq x y \<and> members_eq xs ys)"
| "members_eq _ _ = False"

section \<open>The parser\<close>

datatype parse_stop = Syntax nat string | Fuel

type_synonym 'a parsed = "parse_stop + ('a \<times> string)"

definition kMaxJsonDepth :: nat where
  "kMaxJsonDepth = 64"

definition json_fail :: "string \<Rightarrow> string \<Rightarrow> parse_stop + 'a" where
  "json_fail rest message = Inl (Syntax (length rest) message)"

definition is_blank :: "char \<Rightarrow> bool" where
  "is_blank c \<longleftrightarrow> c = CHR '' '' \<or> c = TAB \<or> c = NL \<or> c = CR"

definition skipWhitespace :: "string \<Rightarrow> string" where
  "skipWhitespace rest = dropWhile is_blank rest"

fun peek :: "string \<Rightarrow> char" where
  "peek [] = CHR 0x00"
| "peek (c # _) = c"

fun expect :: "char \<Rightarrow> string \<Rightarrow> unit parsed" where
  "expect c [] = json_fail [] (''expected '' @ [CHR 0x27, c, CHR 0x27])"
| "expect c (d # rest) =
     (if d \<noteq> c then json_fail (d # rest) (''expected '' @ [CHR 0x27, c, CHR 0x27]) else Inr ((), rest))"

definition parse_literal :: "string \<Rightarrow> Json \<Rightarrow> string \<Rightarrow> Json parsed" where
  "parse_literal word v rest =
     (if take (length word) rest = word then Inr (v, drop (length word) rest)
      else json_fail rest ''invalid literal'')"

definition hex_digit :: "char \<Rightarrow> u32 option" where
  "hex_digit c =
     (let n = of_char c :: nat in
      if 48 \<le> n \<and> n \<le> 57 then Some (of_nat (n - 48))
      else if 97 \<le> n \<and> n \<le> 102 then Some (of_nat (n - 97 + 10))
      else if 65 \<le> n \<and> n \<le> 70 then Some (of_nat (n - 65 + 10))
      else None)"

fun hex_value :: "u32 \<Rightarrow> string \<Rightarrow> u32 option" where
  "hex_value value [] = Some value"
| "hex_value value (c # cs) =
     (case hex_digit c of None \<Rightarrow> None | Some d \<Rightarrow> hex_value (push_bit 4 value OR d) cs)"

definition parseHex4 :: "string \<Rightarrow> u32 parsed" where
  "parseHex4 rest =
     (if length rest < 4 then json_fail rest (''truncated '' @ [CHR 0x5C] @ ''u escape'')
      else case hex_value 0 (take 4 rest) of
          None \<Rightarrow> json_fail rest (''invalid hex digit in '' @ [CHR 0x5C] @ ''u escape'')
        | Some value \<Rightarrow> Inr (value, drop 4 rest))"

text \<open>The escapes of one character.\<close>

definition simple_escape :: "char \<Rightarrow> char option" where
  "simple_escape e =
     (if e = CHR 0x22 then Some (CHR 0x22)
      else if e = CHR 0x5C then Some (CHR 0x5C)
      else if e = CHR ''/'' then Some (CHR ''/'')
      else if e = CHR ''b'' then Some (CHR 0x08)
      else if e = CHR ''f'' then Some (CHR 0x0C)
      else if e = CHR ''n'' then Some (CHR 0x0A)
      else if e = CHR ''r'' then Some (CHR 0x0D)
      else if e = CHR ''t'' then Some (CHR 0x09)
      else None)"

text \<open>The escape \<^verbatim>\<open>u\<close> with its surrogate pairs, from behind the letter on.\<close>

definition unicode_escape :: "string \<Rightarrow> string parsed" where
  "unicode_escape rest =
     (case parseHex4 rest of
        Inl e \<Rightarrow> Inl e
      | Inr (codepoint, rest2) \<Rightarrow>
          if codepoint \<ge> 0xD800 \<and> codepoint \<le> 0xDBFF then
            (if take 2 rest2 = [CHR 0x5C, CHR ''u''] then
               (case parseHex4 (drop 2 rest2) of
                  Inl e \<Rightarrow> Inl e
                | Inr (low, rest3) \<Rightarrow>
                    if low < 0xDC00 \<or> low > 0xDFFF
                    then json_fail rest3 ''high surrogate not followed by a low surrogate''
                    else Inr (encode (0x10000 + push_bit 10 (codepoint - 0xD800) + (low - 0xDC00)), rest3))
             else json_fail rest2 ''unpaired high surrogate'')
          else if codepoint \<ge> 0xDC00 \<and> codepoint \<le> 0xDFFF
          then json_fail rest2 ''unpaired low surrogate''
          else Inr (encode codepoint, rest2))"

lemma parseHex4_shorter: "parseHex4 rest = Inr (v, rest') \<Longrightarrow> length rest = length rest' + 4"
  by (auto simp: parseHex4_def json_fail_def split: if_splits option.splits)

lemma unicode_escape_shorter [termination_simp]:
  "unicode_escape rest = Inr (s, rest') \<Longrightarrow> length rest' < Suc (Suc (length rest))"
  by (auto simp: unicode_escape_def json_fail_def split: if_splits sum.splits prod.splits
      dest!: parseHex4_shorter)

lemma unicode_escape_shorter' [termination_simp]:
  "Inr (s, rest') = unicode_escape rest \<Longrightarrow> length rest' < Suc (Suc (length rest))"
  by (rule unicode_escape_shorter [OF sym])

fun string_loop :: "string \<Rightarrow> string \<Rightarrow> string parsed" where
  "string_loop out [] = json_fail [] ''unterminated string''"
| "string_loop out (c # cs) =
     (if c = CHR 0x22 then Inr (out, cs)
      else if byte_of c < 0x20 then json_fail (c # cs) ''raw control character in string''
      else if c \<noteq> CHR 0x5C then string_loop (out @ [c]) cs
      else case cs of
          [] \<Rightarrow> json_fail [] ''unterminated escape''
        | escape # rest \<Rightarrow>
            (case simple_escape escape of
               Some d \<Rightarrow> string_loop (out @ [d]) rest
             | None \<Rightarrow>
                 if escape = CHR ''u'' then
                   (case unicode_escape rest of
                      Inl e \<Rightarrow> Inl e
                    | Inr (s, rest2) \<Rightarrow> string_loop (out @ s) rest2)
                 else json_fail rest ''unknown escape''))"

definition parseString :: "string \<Rightarrow> string parsed" where
  "parseString rest =
     (case expect (CHR 0x22) rest of Inl e \<Rightarrow> Inl e | Inr (_, rest2) \<Rightarrow> string_loop [] rest2)"

text \<open>The three parts of a number, each returning the text behind it.\<close>

definition is_digit19 :: "char \<Rightarrow> bool" where
  "is_digit19 c \<longleftrightarrow> is_digit c \<and> c \<noteq> CHR ''0''"

definition number_integer :: "string \<Rightarrow> parse_stop + string" where
  "number_integer rest =
     (case rest of
        [] \<Rightarrow> json_fail rest ''truncated number''
      | c # cs \<Rightarrow>
          if c = CHR ''0'' then
            (if cs \<noteq> [] \<and> is_digit (hd cs) then json_fail cs ''leading zeros are not valid JSON''
             else Inr cs)
          else if is_digit19 c then Inr (dropWhile is_digit rest)
          else json_fail rest ''not a value'')"

definition number_fraction :: "string \<Rightarrow> parse_stop + string" where
  "number_fraction rest =
     (if rest \<noteq> [] \<and> hd rest = CHR ''.'' then
        (if tl rest = [] \<or> \<not> is_digit (hd (tl rest))
         then json_fail (tl rest) ''digit expected after the decimal point''
         else Inr (dropWhile is_digit (tl rest)))
      else Inr rest)"

definition number_exponent :: "string \<Rightarrow> parse_stop + string" where
  "number_exponent rest =
     (if rest \<noteq> [] \<and> (hd rest = CHR ''e'' \<or> hd rest = CHR ''E'') then
        (let power = tl rest;
             digits = (if power \<noteq> [] \<and> (hd power = CHR ''+'' \<or> hd power = CHR ''-'') then tl power
               else power) in
         if digits = [] \<or> \<not> is_digit (hd digits)
         then json_fail digits ''digit expected in the exponent''
         else Inr (dropWhile is_digit digits))
      else Inr rest)"

definition parseNumber :: "string \<Rightarrow> Json parsed" where
  "parseNumber start =
     (case number_integer (if minus_sign start then tl start else start) of
        Inl e \<Rightarrow> Inl e
      | Inr rest2 \<Rightarrow>
          (case number_fraction rest2 of
             Inl e \<Rightarrow> Inl e
           | Inr rest3 \<Rightarrow>
               (case number_exponent rest3 of
                  Inl e \<Rightarrow> Inl e
                | Inr rest4 \<Rightarrow>
                    let text = take (length start - length rest4) start in
                    Inr (JNumber (parseDoubleLiteral text) text, rest4))))"

text \<open>
  The values. A step of the recursion costs one unit of fuel: a value, an element or a
  member.
\<close>

fun parseValue :: "nat \<Rightarrow> nat \<Rightarrow> string \<Rightarrow> Json parsed"
  and parseMembers :: "nat \<Rightarrow> nat \<Rightarrow> (string \<times> Json) list \<Rightarrow> string \<Rightarrow> Json parsed"
  and parseElements :: "nat \<Rightarrow> nat \<Rightarrow> Json list \<Rightarrow> string \<Rightarrow> Json parsed" where
  "parseValue 0 depth rest = Inl Fuel"
| "parseValue (Suc fuel) depth rest =
     (if depth > kMaxJsonDepth
      then json_fail rest (''nesting deeper than '' @ dec_digits kMaxJsonDepth @ '' levels'')
      else case rest of
          [] \<Rightarrow> json_fail rest ''unexpected end of input''
        | c # cs \<Rightarrow>
            if c = CHR 0x7B then
              (if peek (skipWhitespace cs) = CHR 0x7D then Inr (JObject [], tl (skipWhitespace cs))
               else parseMembers fuel depth [] (skipWhitespace cs))
            else if c = CHR 0x5B then
              (if peek (skipWhitespace cs) = CHR 0x5D then Inr (JArray [], tl (skipWhitespace cs))
               else parseElements fuel depth [] (skipWhitespace cs))
            else if c = CHR 0x22 then
              (case parseString rest of Inl e \<Rightarrow> Inl e | Inr (s, rest2) \<Rightarrow> Inr (JString s, rest2))
            else if c = CHR ''t'' then parse_literal ''true'' (JBool True) rest
            else if c = CHR ''f'' then parse_literal ''false'' (JBool False) rest
            else if c = CHR ''n'' then parse_literal ''null'' JNull rest
            else parseNumber rest)"
| "parseMembers 0 depth members rest = Inl Fuel"
| "parseMembers (Suc fuel) depth members rest =
     (if peek (skipWhitespace rest) \<noteq> CHR 0x22
      then json_fail (skipWhitespace rest) ''object keys must be quoted strings''
      else case parseString (skipWhitespace rest) of
          Inl e \<Rightarrow> Inl e
        | Inr (key, rest2) \<Rightarrow>
            (case expect (CHR '':'') (skipWhitespace rest2) of
               Inl e \<Rightarrow> Inl e
             | Inr (_, rest3) \<Rightarrow>
                 (case parseValue fuel (depth + 1) (skipWhitespace rest3) of
                    Inl e \<Rightarrow> Inl e
                  | Inr (value, rest4) \<Rightarrow>
                      if peek (skipWhitespace rest4) = CHR '','' then
                        (if peek (skipWhitespace (tl (skipWhitespace rest4))) = CHR 0x7D
                         then json_fail (skipWhitespace (tl (skipWhitespace rest4)))
                                ''trailing comma in object''
                         else parseMembers fuel depth (put_member key value members)
                                (skipWhitespace (tl (skipWhitespace rest4))))
                      else (case expect (CHR 0x7D) (skipWhitespace rest4) of
                          Inl e \<Rightarrow> Inl e
                        | Inr (_, rest5) \<Rightarrow> Inr (JObject (put_member key value members), rest5)))))"
| "parseElements 0 depth values rest = Inl Fuel"
| "parseElements (Suc fuel) depth values rest =
     (case parseValue fuel (depth + 1) (skipWhitespace rest) of
        Inl e \<Rightarrow> Inl e
      | Inr (value, rest2) \<Rightarrow>
          if peek (skipWhitespace rest2) = CHR '','' then
            (if peek (skipWhitespace (tl (skipWhitespace rest2))) = CHR 0x5D
             then json_fail (skipWhitespace (tl (skipWhitespace rest2))) ''trailing comma in array''
             else parseElements fuel depth (values @ [value])
                    (skipWhitespace (tl (skipWhitespace rest2))))
          else (case expect (CHR 0x5D) (skipWhitespace rest2) of
              Inl e \<Rightarrow> Inl e
            | Inr (_, rest3) \<Rightarrow> Inr (JArray (values @ [value]), rest3)))"

definition parse_fuel :: "string \<Rightarrow> nat" where
  "parse_fuel text = 2 * length text + 2"

text \<open>\<^verbatim>\<open>Parser::parse\<close>, with the stop it ends in.\<close>

definition parse_document :: "string \<Rightarrow> parse_stop + Json" where
  "parse_document text =
     (case parseValue (parse_fuel text) 0 (skipWhitespace text) of
        Inl e \<Rightarrow> Inl e
      | Inr (value, rest) \<Rightarrow>
          if skipWhitespace rest \<noteq> []
          then json_fail (skipWhitespace rest) ''trailing content after the top-level value''
          else Inr value)"

definition stop_message :: "string \<Rightarrow> parse_stop \<Rightarrow> string" where
  "stop_message text stop =
     (case stop of
        Syntax left message \<Rightarrow>
          ''JSON at byte '' @ dec_digits (length text - left) @ '': '' @ message
      | Fuel \<Rightarrow> [])"

text \<open>\<^verbatim>\<open>parseJson\<close>: the exception, or the value. \<^verbatim>\<open>tryParseJson\<close> returns the same sum.\<close>

definition parseJson :: "string \<Rightarrow> string + Json" where
  "parseJson text =
     (case parse_document text of Inl stop \<Rightarrow> Inl (stop_message text stop) | Inr v \<Rightarrow> Inr v)"

section \<open>The serializer\<close>

definition hex_upper :: "nat \<Rightarrow> char" where
  "hex_upper n = (if n < 10 then char_of (48 + n) else char_of (55 + n))"

definition escape_char :: "char \<Rightarrow> string" where
  "escape_char raw =
     (if raw = CHR 0x22 then [CHR 0x5C, CHR 0x22]
      else if raw = CHR 0x5C then [CHR 0x5C, CHR 0x5C]
      else if raw = CHR 0x08 then [CHR 0x5C, CHR ''b'']
      else if raw = CHR 0x0C then [CHR 0x5C, CHR ''f'']
      else if raw = CHR 0x0A then [CHR 0x5C, CHR ''n'']
      else if raw = CHR 0x0D then [CHR 0x5C, CHR ''r'']
      else if raw = CHR 0x09 then [CHR 0x5C, CHR ''t'']
      else if byte_of raw < 0x20 then
        [CHR 0x5C, CHR ''u'', CHR ''0'', CHR ''0'', hex_upper (of_char raw div 16),
         hex_upper (of_char raw mod 16)]
      else [raw])"

definition escapeInto :: "string \<Rightarrow> string" where
  "escapeInto value = [CHR 0x22] @ concat (map escape_char value) @ [CHR 0x22]"

definition line_pad :: "bool \<Rightarrow> nat \<Rightarrow> string" where
  "line_pad pretty indent = (if pretty then NL # replicate (indent * 2) CHR '' '' else [])"

fun writeInto :: "bool \<Rightarrow> nat \<Rightarrow> Json \<Rightarrow> string"
  and write_items :: "bool \<Rightarrow> nat \<Rightarrow> Json list \<Rightarrow> string"
  and write_members :: "bool \<Rightarrow> nat \<Rightarrow> (string \<times> Json) list \<Rightarrow> string" where
  "writeInto pretty indent JNull = ''null''"
| "writeInto pretty indent (JBool b) = (if b then ''true'' else ''false'')"
| "writeInto pretty indent (JNumber v l) = (if l = [] then formatDouble v else l)"
| "writeInto pretty indent (JString s) = escapeInto s"
| "writeInto pretty indent (JArray items) =
     (if items = [] then ''[]''
      else [CHR 0x5B] @ write_items pretty (indent + 1) items @ line_pad pretty indent @ [CHR 0x5D])"
| "writeInto pretty indent (JObject members) =
     (if members = [] then [CHR 0x7B, CHR 0x7D]
      else [CHR 0x7B] @ write_members pretty (indent + 1) members @ line_pad pretty indent @ [CHR 0x7D])"
| "write_items pretty indent [] = []"
| "write_items pretty indent (v # vs) =
     line_pad pretty indent @ writeInto pretty indent v @
     (if vs = [] then [] else [CHR '',''] @ write_items pretty indent vs)"
| "write_members pretty indent [] = []"
| "write_members pretty indent ((key, v) # ms) =
     line_pad pretty indent @ escapeInto key @ (if pretty then '': '' else '':'') @
     writeInto pretty indent v @
     (if ms = [] then [] else [CHR '',''] @ write_members pretty indent ms)"

definition toJson :: "Json \<Rightarrow> bool \<Rightarrow> string" where
  "toJson value pretty = writeInto pretty 0 value"

end
