(* ===== verification/Receipt_Report.thy ===== *)
theory Receipt_Report imports
  Receipt_Json
begin

text \<open>
  \<^verbatim>\<open>dsl/include/printerdriver/dsl/report.hpp\<close> and \<^verbatim>\<open>dsl/src/report.cpp\<close>: what the layout
  stages tell the operator about anything a receipt asked for and did not get.
\<close>

datatype RenderPath = Hardware | Raster | NotRendered

datatype ReportKind =
    MissingPath | UnknownFormatter | UnformattableValue | MalformedTemplate | UnknownStyle
  | StyleCycle | UnsupportedStyle | UnsupportedBlock | MissingImage | Truncated | EmptyIteration
  | UnsupportedTimezone | RawFramingRisk | Note

record ReportEntry =
  re_kind :: ReportKind
  re_block :: string
  re_requested :: string
  re_delivered :: string
  re_path :: RenderPath
  re_detail :: string

type_synonym RenderReport = "ReportEntry list"

definition report_add ::
  "ReportKind \<Rightarrow> string \<Rightarrow> string \<Rightarrow> string \<Rightarrow> RenderPath \<Rightarrow> string \<Rightarrow> RenderReport \<Rightarrow> RenderReport" where
  "report_add kind block requested delivered path detail report =
     report @ [\<lparr>re_kind = kind, re_block = block, re_requested = requested,
                re_delivered = delivered, re_path = path, re_detail = detail\<rparr>]"

definition report_append :: "RenderReport \<Rightarrow> RenderReport \<Rightarrow> RenderReport" where
  "report_append other report = report @ other"

definition report_count :: "ReportKind \<Rightarrow> RenderReport \<Rightarrow> nat" where
  "report_count kind report = foldl (\<lambda>total entry. if re_kind entry = kind then total + 1 else total) 0 report"

definition report_has :: "ReportKind \<Rightarrow> RenderReport \<Rightarrow> bool" where
  "report_has kind report \<longleftrightarrow> report_count kind report \<noteq> 0"

fun report_kind_name :: "ReportKind \<Rightarrow> string" where
  "report_kind_name MissingPath = ''missingPath''"
| "report_kind_name UnknownFormatter = ''unknownFormatter''"
| "report_kind_name UnformattableValue = ''unformattableValue''"
| "report_kind_name MalformedTemplate = ''malformedTemplate''"
| "report_kind_name UnknownStyle = ''unknownStyle''"
| "report_kind_name StyleCycle = ''styleCycle''"
| "report_kind_name UnsupportedStyle = ''unsupportedStyle''"
| "report_kind_name UnsupportedBlock = ''unsupportedBlock''"
| "report_kind_name MissingImage = ''missingImage''"
| "report_kind_name Truncated = ''truncated''"
| "report_kind_name EmptyIteration = ''emptyIteration''"
| "report_kind_name UnsupportedTimezone = ''unsupportedTimezone''"
| "report_kind_name RawFramingRisk = ''rawFramingRisk''"
| "report_kind_name Note = ''note''"

fun render_path_name :: "RenderPath \<Rightarrow> string" where
  "render_path_name Hardware = ''hardware''"
| "render_path_name Raster = ''raster''"
| "render_path_name NotRendered = ''notRendered''"

definition entry_text :: "ReportEntry \<Rightarrow> string" where
  "entry_text e =
     (if re_block e = [] then ''document'' else re_block e) @ ''  '' @
     report_kind_name (re_kind e) @ '': requested '' @ [CHR 0x22] @ re_requested e @ [CHR 0x22] @
     '', delivered '' @ [CHR 0x22] @ re_delivered e @ [CHR 0x22] @ '' ['' @
     render_path_name (re_path e) @ '']'' @
     (if re_detail e = [] then [] else '' - '' @ re_detail e) @ [NL]"

definition report_toText :: "RenderReport \<Rightarrow> string" where
  "report_toText report = concat (map entry_text report)"

definition entry_json :: "ReportEntry \<Rightarrow> Json" where
  "entry_json e =
     (let item = json_set ''kind'' (JString (report_kind_name (re_kind e)))
        (json_set ''path'' (JString (render_path_name (re_path e)))
        (json_set ''delivered'' (JString (re_delivered e))
        (json_set ''requested'' (JString (re_requested e))
        (json_set ''block'' (JString (re_block e)) JNull)))) in
      if re_detail e = [] then item else json_set ''detail'' (JString (re_detail e)) item)"

definition report_toJson :: "RenderReport \<Rightarrow> Json" where
  "report_toJson report = JArray (map entry_json report)"

lemma report_count_filter: "report_count kind report = length (filter (\<lambda>e. re_kind e = kind) report)"
proof -
  have "foldl (\<lambda>total entry. if re_kind entry = kind then total + 1 else total) n report =
      n + length (filter (\<lambda>e. re_kind e = kind) report)" for n
    by (induction report arbitrary: n) auto
  then show ?thesis by (simp add: report_count_def)
qed

lemma report_has_iff: "report_has kind report \<longleftrightarrow> (\<exists>e \<in> set report. re_kind e = kind)"
  by (auto simp: report_has_def report_count_filter filter_empty_conv)

end
