(* ===== verification/Receipt_Document.thy ===== *)
theory Receipt_Document imports
  Receipt_Report
  Registrations
begin

text \<open>
  \<^verbatim>\<open>dsl/include/printerdriver/dsl/document.hpp\<close> and \<^verbatim>\<open>dsl/src/document.cpp\<close>: styles, blocks and
  documents, their canonical JSON form in both directions and the resolution of styles. A
  block of the sources is a tagged aggregate of which each kind uses its own fields; here
  each kind is a constructor over these fields. Parsing threads the warnings collected so
  far and ends in a value, in a \<^verbatim>\<open>DocumentError\<close>, or in the undefined behaviour of a cast
  from a double outside the range of \<^theory_text>\<open>long long\<close>.
\<close>

section \<open>The data\<close>

datatype Underline = UL_None | UL_Single | UL_Double
datatype DividerKind = DK_Solid | DK_Dashed | DK_Double | DK_Char
datatype Dither = FloydSteinberg | Threshold | DitherNone
datatype Hri = HriNone | HriAbove | HriBelow | HriBoth
datatype QrEc = EcL | EcM | EcQ | EcH
datatype CutKind = PartialCut | FullCut
datatype CutRequest = CR_Profile | CR_Partial | CR_Full | CR_None

datatype Symbology =
    UpcA | UpcE | Ean13 | Ean8 | Code39 | Itf | Codabar | Code93 | Code128 | Gs1_128 | Pdf417
  | DataMatrix

record TextStyle =
  ts_extends :: "string option"
  ts_font :: "string option"
  ts_width_scale :: "int option"
  ts_height_scale :: "int option"
  ts_bold :: "bool option"
  ts_italic :: "bool option"
  ts_inverse :: "bool option"
  ts_upside_down :: "bool option"
  ts_rotate90 :: "bool option"
  ts_underline :: "Underline option"
  ts_align :: "Align option"
  ts_line_spacing_dots :: "int option"
  ts_letter_spacing_dots :: "int option"
  ts_wrap :: "Wrap option"
  ts_indent_dots :: "int option"
  ts_margin_left_dots :: "int option"
  ts_margin_right_dots :: "int option"

definition empty_style :: TextStyle where
  "empty_style =
     \<lparr>ts_extends = None, ts_font = None, ts_width_scale = None, ts_height_scale = None,
      ts_bold = None, ts_italic = None, ts_inverse = None, ts_upside_down = None,
      ts_rotate90 = None, ts_underline = None, ts_align = None, ts_line_spacing_dots = None,
      ts_letter_spacing_dots = None, ts_wrap = None, ts_indent_dots = None,
      ts_margin_left_dots = None, ts_margin_right_dots = None\<rparr>"

definition style_empty :: "TextStyle \<Rightarrow> bool" where
  "style_empty s \<longleftrightarrow>
     ts_extends s = None \<and> ts_font s = None \<and> ts_width_scale s = None \<and>
     ts_height_scale s = None \<and> ts_bold s = None \<and> ts_italic s = None \<and> ts_inverse s = None \<and>
     ts_upside_down s = None \<and> ts_rotate90 s = None \<and> ts_underline s = None \<and>
     ts_align s = None \<and> ts_line_spacing_dots s = None \<and> ts_letter_spacing_dots s = None \<and>
     ts_wrap s = None \<and> ts_indent_dots s = None \<and> ts_margin_left_dots s = None \<and>
     ts_margin_right_dots s = None"

record ResolvedStyle =
  rs_font :: string
  rs_width_scale :: int
  rs_height_scale :: int
  rs_bold :: bool
  rs_italic :: bool
  rs_inverse :: bool
  rs_upside_down :: bool
  rs_rotate90 :: bool
  rs_underline :: Underline
  rs_align :: Align
  rs_line_spacing_dots :: int
  rs_letter_spacing_dots :: int
  rs_wrap :: Wrap
  rs_indent_dots :: int
  rs_margin_left_dots :: int
  rs_margin_right_dots :: int

definition default_resolved :: ResolvedStyle where
  "default_resolved =
     \<lparr>rs_font = ''printerA'', rs_width_scale = 1, rs_height_scale = 1, rs_bold = False,
      rs_italic = False, rs_inverse = False, rs_upside_down = False, rs_rotate90 = False,
      rs_underline = UL_None, rs_align = Left, rs_line_spacing_dots = 0,
      rs_letter_spacing_dots = 0, rs_wrap = Word, rs_indent_dots = 0, rs_margin_left_dots = 0,
      rs_margin_right_dots = 0\<rparr>"

record StyleRef =
  sr_name :: "string option"
  sr_inline :: TextStyle

definition no_style :: StyleRef where
  "no_style = \<lparr>sr_name = None, sr_inline = empty_style\<rparr>"

definition style_ref_empty :: "StyleRef \<Rightarrow> bool" where
  "style_ref_empty r \<longleftrightarrow> sr_name r = None \<and> style_empty (sr_inline r)"

datatype WidthUnit = Flex | Chars | Dots | Percent

record CellWidth =
  cw_unit :: WidthUnit
  cw_value :: int

definition default_width :: CellWidth where
  "default_width = \<lparr>cw_unit = Flex, cw_value = 1\<rparr>"

record Cell =
  ce_content :: string
  ce_width :: CellWidth
  ce_align :: "Align option"
  ce_wrap :: "Wrap option"
  ce_style :: StyleRef

record QrBlock =
  qr_size :: int
  qr_ec :: QrEc
  qr_align :: Align

record BarcodeBlock =
  bc_symbology :: Symbology
  bc_height_dots :: int
  bc_module_width :: int
  bc_hri :: Hri
  bc_align :: Align

record ImageBlock =
  im_ref :: string
  im_gray :: bytes
  im_width :: u32
  im_height :: u32
  im_target :: CellWidth
  im_align :: Align
  im_dither :: Dither

datatype Block =
    TextBlock string StyleRef
  | ColumnsBlock "Cell list"
  | DividerBlock DividerKind string "int option" StyleRef
  | FeedBlock int "int option"
  | CutBlock CutKind
  | DrawerKickBlock int int
  | RawBlock bytes
  | QrCodeBlock string QrBlock
  | BarcodeBlock string BarcodeBlock
  | ImageBlock ImageBlock
  | EachBlock string bool "Block list"
  | IfBlock string bool bool "Block list"
  | CustomBlock string Json

record Margins =
  mg_top_dots :: "int option"
  mg_bottom_dots :: "int option"
  mg_top_mm :: "double option"
  mg_bottom_mm :: "double option"

definition no_margins :: Margins where
  "no_margins = \<lparr>mg_top_dots = None, mg_bottom_dots = None, mg_top_mm = None, mg_bottom_mm = None\<rparr>"

definition margins_any :: "Margins \<Rightarrow> bool" where
  "margins_any m \<longleftrightarrow>
     mg_top_dots m \<noteq> None \<or> mg_bottom_dots m \<noteq> None \<or> mg_top_mm m \<noteq> None \<or> mg_bottom_mm m \<noteq> None"

record Meta =
  me_locale :: string
  me_currency :: string
  me_tz :: string
  me_cut :: "CutRequest option"
  me_margins :: Margins

definition no_meta :: Meta where
  "no_meta = \<lparr>me_locale = [], me_currency = [], me_tz = [], me_cut = None, me_margins = no_margins\<rparr>"

record Document =
  doc_version :: int
  doc_is_template :: bool
  doc_meta :: Meta
  doc_styles :: "(string \<times> TextStyle) list"
  doc_blocks :: "Block list"

section \<open>Base64\<close>

definition kBase64Alphabet :: string where
  "kBase64Alphabet = ''ABCDEFGHIJKLMNOPQRSTUVWXYZabcdefghijklmnopqrstuvwxyz0123456789+/''"

definition base64_char :: "nat \<Rightarrow> u32 \<Rightarrow> char" where
  "base64_char shift triple = kBase64Alphabet ! unat (drop_bit shift triple AND 0x3F)"

fun base64Encode :: "bytes \<Rightarrow> string" where
  "base64Encode (a # b # c # rest) =
     (let triple = push_bit 16 (ucast a) OR push_bit 8 (ucast b) OR ucast c in
      [base64_char 18 triple, base64_char 12 triple, base64_char 6 triple, base64_char 0 triple] @
      base64Encode rest)"
| "base64Encode [a, b] =
     (let triple = push_bit 16 (ucast a) OR push_bit 8 (ucast b) in
      [base64_char 18 triple, base64_char 12 triple, base64_char 6 triple, CHR ''=''])"
| "base64Encode [a] =
     (let triple = push_bit 16 (ucast a) in
      [base64_char 18 triple, base64_char 12 triple] @ ''=='')"
| "base64Encode [] = []"

definition base64Value :: "char \<Rightarrow> u32 option" where
  "base64Value c =
     (let n = of_char c :: nat in
      if 65 \<le> n \<and> n \<le> 90 then Some (of_nat (n - 65))
      else if 97 \<le> n \<and> n \<le> 122 then Some (of_nat (n - 97 + 26))
      else if 48 \<le> n \<and> n \<le> 57 then Some (of_nat (n - 48 + 52))
      else if c = CHR ''+'' then Some 62
      else if c = CHR ''/'' then Some 63
      else None)"

definition base64_skip :: "char \<Rightarrow> bool" where
  "base64_skip c \<longleftrightarrow> c = CHR ''='' \<or> c = NL \<or> c = CR \<or> c = CHR '' '' \<or> c = TAB"

fun base64_go :: "u32 \<Rightarrow> nat \<Rightarrow> string \<Rightarrow> bytes option" where
  "base64_go buffer bits [] = Some []"
| "base64_go buffer bits (c # cs) =
     (if base64_skip c then base64_go buffer bits cs
      else case base64Value c of
          None \<Rightarrow> None
        | Some value \<Rightarrow>
            (if bits + 6 \<ge> 8
             then map_option ((#) (ucast (drop_bit (bits + 6 - 8) (push_bit 6 buffer OR value) AND 0xFF)))
                    (base64_go (push_bit 6 buffer OR value) (bits + 6 - 8) cs)
             else base64_go (push_bit 6 buffer OR value) (bits + 6) cs))"

definition base64Decode :: "string \<Rightarrow> bytes option" where
  "base64Decode text = base64_go 0 0 text"

section \<open>The names of the enumerations\<close>

definition lower_char :: "char \<Rightarrow> char" where
  "lower_char c =
     (let n = of_char c :: nat in if 65 \<le> n \<and> n \<le> 90 then char_of (n + 32) else c)"

definition lowered :: "string \<Rightarrow> string" where
  "lowered value = map lower_char value"

definition lookup :: "string \<Rightarrow> (string \<times> 'a) list \<Rightarrow> 'a option" where
  "lookup value table = map_of table (lowered value)"

definition parseAlign :: "string \<Rightarrow> Align option" where
  "parseAlign value =
     lookup value [(''left'', Left), (''center'', Center), (''centre'', Center), (''right'', Right)]"

definition parseWrap :: "string \<Rightarrow> Wrap option" where
  "parseWrap value =
     lookup value [(''word'', Word), (''char'', Char), (''clip'', Clip), (''ellipsis'', Ellipsis)]"

definition parseUnderline :: "string \<Rightarrow> Underline option" where
  "parseUnderline value =
     lookup value [(''none'', UL_None), (''single'', UL_Single), (''double'', UL_Double)]"

definition parseDither :: "string \<Rightarrow> Dither option" where
  "parseDither value =
     lookup value [(''fs'', FloydSteinberg), (''floydsteinberg'', FloydSteinberg),
                   (''threshold'', Threshold), (''none'', DitherNone)]"

definition parseHri :: "string \<Rightarrow> Hri option" where
  "parseHri value =
     lookup value [(''none'', HriNone), (''above'', HriAbove), (''below'', HriBelow), (''both'', HriBoth)]"

definition parseQrEc :: "string \<Rightarrow> QrEc option" where
  "parseQrEc value = lookup value [(''l'', EcL), (''m'', EcM), (''q'', EcQ), (''h'', EcH)]"

definition parseSymbology :: "string \<Rightarrow> Symbology option" where
  "parseSymbology value =
     lookup value
       [(''upca'', UpcA), (''upce'', UpcE), (''ean13'', Ean13), (''ean8'', Ean8),
        (''code39'', Code39), (''itf'', Itf), (''codabar'', Codabar), (''code93'', Code93),
        (''code128'', Code128), (''gs1_128'', Gs1_128), (''gs1-128'', Gs1_128),
        (''pdf417'', Pdf417), (''datamatrix'', DataMatrix)]"

definition parseCutRequest :: "string \<Rightarrow> CutRequest option" where
  "parseCutRequest value =
     lookup value [(''profile'', CR_Profile), (''partial'', CR_Partial), (''full'', CR_Full),
                   (''none'', CR_None)]"

fun align_name :: "Align \<Rightarrow> string" where
  "align_name Left = ''left''"
| "align_name Center = ''center''"
| "align_name Right = ''right''"

fun wrap_name :: "Wrap \<Rightarrow> string" where
  "wrap_name Word = ''word''"
| "wrap_name Char = ''char''"
| "wrap_name Clip = ''clip''"
| "wrap_name Ellipsis = ''ellipsis''"

fun underline_name :: "Underline \<Rightarrow> string" where
  "underline_name UL_None = ''none''"
| "underline_name UL_Single = ''single''"
| "underline_name UL_Double = ''double''"

fun divider_name :: "DividerKind \<Rightarrow> string" where
  "divider_name DK_Solid = ''solid''"
| "divider_name DK_Dashed = ''dashed''"
| "divider_name DK_Double = ''double''"
| "divider_name DK_Char = ''char''"

fun dither_name :: "Dither \<Rightarrow> string" where
  "dither_name FloydSteinberg = ''fs''"
| "dither_name Threshold = ''threshold''"
| "dither_name DitherNone = ''none''"

fun hri_name :: "Hri \<Rightarrow> string" where
  "hri_name HriNone = ''none''"
| "hri_name HriAbove = ''above''"
| "hri_name HriBelow = ''below''"
| "hri_name HriBoth = ''both''"

fun qr_ec_name :: "QrEc \<Rightarrow> string" where
  "qr_ec_name EcL = ''L''"
| "qr_ec_name EcM = ''M''"
| "qr_ec_name EcQ = ''Q''"
| "qr_ec_name EcH = ''H''"

fun cut_request_name :: "CutRequest \<Rightarrow> string" where
  "cut_request_name CR_Profile = ''profile''"
| "cut_request_name CR_Partial = ''partial''"
| "cut_request_name CR_Full = ''full''"
| "cut_request_name CR_None = ''none''"

fun symbology_name :: "Symbology \<Rightarrow> string" where
  "symbology_name UpcA = ''upcA''"
| "symbology_name UpcE = ''upcE''"
| "symbology_name Ean13 = ''ean13''"
| "symbology_name Ean8 = ''ean8''"
| "symbology_name Code39 = ''code39''"
| "symbology_name Itf = ''itf''"
| "symbology_name Codabar = ''codabar''"
| "symbology_name Code93 = ''code93''"
| "symbology_name Code128 = ''code128''"
| "symbology_name Gs1_128 = ''gs1_128''"
| "symbology_name Pdf417 = ''pdf417''"
| "symbology_name DataMatrix = ''datamatrix''"

fun block_kind_name :: "Block \<Rightarrow> string" where
  "block_kind_name (TextBlock _ _) = ''text''"
| "block_kind_name (ColumnsBlock _) = ''columns''"
| "block_kind_name (ImageBlock _) = ''image''"
| "block_kind_name (QrCodeBlock _ _) = ''qr''"
| "block_kind_name (BarcodeBlock _ _) = ''barcode''"
| "block_kind_name (DividerBlock _ _ _ _) = ''divider''"
| "block_kind_name (FeedBlock _ _) = ''feed''"
| "block_kind_name (CutBlock _) = ''cut''"
| "block_kind_name (DrawerKickBlock _ _) = ''drawerKick''"
| "block_kind_name (RawBlock _) = ''raw''"
| "block_kind_name (EachBlock _ _ _) = ''each''"
| "block_kind_name (IfBlock _ _ _ _) = ''if''"
| "block_kind_name (CustomBlock _ _) = ''custom''"

section \<open>Parsing: warnings and errors\<close>

datatype parse_error = DocumentError string | UndefinedCast

type_synonym 'a parse = "string list \<Rightarrow> parse_error + ('a \<times> string list)"

definition return :: "'a \<Rightarrow> 'a parse" where
  "return x w = Inr (x, w)"

definition bindP :: "'a parse \<Rightarrow> ('a \<Rightarrow> 'b parse) \<Rightarrow> 'b parse" where
  "bindP m f w = (case m w of Inl e \<Rightarrow> Inl e | Inr (x, w') \<Rightarrow> f x w')"

definition throwP :: "string \<Rightarrow> 'a parse" where
  "throwP message w = Inl (DocumentError message)"

definition warnP :: "string \<Rightarrow> string \<Rightarrow> unit parse" where
  "warnP loc message w = Inr ((), w @ [loc @ '': '' @ message])"

definition quoted :: "string \<Rightarrow> string" where
  "quoted s = [CHR 0x22] @ s @ [CHR 0x22]"

text \<open>\<^verbatim>\<open>Reader::finish\<close>: the keys never taken, in the order of the document.\<close>

definition finishP :: "string \<Rightarrow> string list \<Rightarrow> Json \<Rightarrow> unit parse" where
  "finishP loc seen json w =
     Inr ((), w @ map (\<lambda>k. loc @ '': unknown key '' @ quoted k @ '' ignored'')
                    (filter (\<lambda>k. k \<notin> set seen) (map fst (asObject json))))"

fun for_each :: "('a \<Rightarrow> 'b parse) \<Rightarrow> 'a list \<Rightarrow> 'b list parse" where
  "for_each f [] = return []"
| "for_each f (x # xs) = bindP (f x) (\<lambda>y. bindP (for_each f xs) (\<lambda>ys. return (y # ys)))"

text \<open>The cast to a 32-bit \<^theory_text>\<open>int\<close>, which keeps the low bits.\<close>

definition to_int32 :: "int \<Rightarrow> int" where
  "to_int32 i = sint (word_of_int i :: 32 word)"

definition intP :: "Json \<Rightarrow> int parse" where
  "intP value w = (case asInt value 0 of None \<Rightarrow> Inl UndefinedCast | Some i \<Rightarrow> Inr (to_int32 i, w))"

definition longP :: "Json \<Rightarrow> int parse" where
  "longP value w = (case asInt value 0 of None \<Rightarrow> Inl UndefinedCast | Some i \<Rightarrow> Inr (i, w))"

definition readInt :: "Json \<Rightarrow> string \<Rightarrow> int option parse" where
  "readInt json key =
     (case json_find key json of
        Some value \<Rightarrow> if isNumber value then bindP (intP value) (\<lambda>i. return (Some i)) else return None
      | None \<Rightarrow> return None)"

definition readBool :: "Json \<Rightarrow> string \<Rightarrow> bool option" where
  "readBool json key =
     (case json_find key json of
        Some value \<Rightarrow> if isBool value then Some (asBool value False) else None
      | None \<Rightarrow> None)"

definition find_string :: "Json \<Rightarrow> string \<Rightarrow> string option" where
  "find_string json key =
     (case json_find key json of
        Some value \<Rightarrow> if isString value then Some (asString value) else None
      | None \<Rightarrow> None)"

definition readString :: "Json \<Rightarrow> string \<Rightarrow> string" where
  "readString json key = (case find_string json key of Some s \<Rightarrow> s | None \<Rightarrow> [])"

text \<open>A name from one of the tables, with a warning when the table has no such name.\<close>

definition named :: "(string \<Rightarrow> 'a option) \<Rightarrow> string \<Rightarrow> string \<Rightarrow> Json \<Rightarrow> 'a option parse" where
  "named parser loc key json =
     (case find_string json key of
        None \<Rightarrow> return None
      | Some name \<Rightarrow>
          (case parser name of
             Some x \<Rightarrow> return (Some x)
           | None \<Rightarrow> bindP (warnP loc (''unknown '' @ key @ '' '' @ quoted name @ '' ignored''))
                         (\<lambda>_. return None)))"

section \<open>Parsing styles, widths and bytes\<close>

definition underlineP :: "string \<Rightarrow> Json \<Rightarrow> Underline option parse" where
  "underlineP loc json =
     (case json_find ''underline'' json of
        None \<Rightarrow> return None
      | Some value \<Rightarrow>
          if isString value \<and> parseUnderline (asString value) \<noteq> None
          then return (parseUnderline (asString value))
          else if isBool value
          then return (Some (if asBool value False then UL_Single else UL_None))
          else if isNumber value then
            bindP (longP value) (\<lambda>dots.
              return (Some (if dots \<ge> 2 then UL_Double else if dots = 1 then UL_Single else UL_None)))
          else bindP (warnP loc ''unknown underline value ignored'') (\<lambda>_. return None))"

definition style_keys :: "string list" where
  "style_keys =
     [''extends'', ''font'', ''widthScale'', ''heightScale'', ''bold'', ''italic'', ''inverse'',
      ''upsideDown'', ''rotate90'', ''lineSpacingDots'', ''letterSpacingDots'', ''indentDots'',
      ''marginLeftDots'', ''marginRightDots'', ''underline'', ''align'', ''wrap'']"

definition parseTextStyle :: "Json \<Rightarrow> string \<Rightarrow> TextStyle parse" where
  "parseTextStyle json loc =
     (if \<not> isObject json then throwP (loc @ '': a style must be a JSON object'')
      else
        bindP (readInt json ''widthScale'') (\<lambda>width_scale.
        bindP (readInt json ''heightScale'') (\<lambda>height_scale.
        bindP (readInt json ''lineSpacingDots'') (\<lambda>line_spacing.
        bindP (readInt json ''letterSpacingDots'') (\<lambda>letter_spacing.
        bindP (readInt json ''indentDots'') (\<lambda>indent.
        bindP (readInt json ''marginLeftDots'') (\<lambda>margin_left.
        bindP (readInt json ''marginRightDots'') (\<lambda>margin_right.
        bindP (underlineP loc json) (\<lambda>underline.
        bindP (named parseAlign loc ''align'' json) (\<lambda>align.
        bindP (named parseWrap loc ''wrap'' json) (\<lambda>wrap.
        bindP (finishP loc style_keys json) (\<lambda>_.
        return
          \<lparr>ts_extends = find_string json ''extends'', ts_font = find_string json ''font'',
           ts_width_scale = width_scale, ts_height_scale = height_scale,
           ts_bold = readBool json ''bold'', ts_italic = readBool json ''italic'',
           ts_inverse = readBool json ''inverse'', ts_upside_down = readBool json ''upsideDown'',
           ts_rotate90 = readBool json ''rotate90'', ts_underline = underline, ts_align = align,
           ts_line_spacing_dots = line_spacing, ts_letter_spacing_dots = letter_spacing,
           ts_wrap = wrap, ts_indent_dots = indent, ts_margin_left_dots = margin_left,
           ts_margin_right_dots = margin_right\<rparr>))))))))))))"

definition parseStyleRef :: "Json option \<Rightarrow> string \<Rightarrow> StyleRef parse" where
  "parseStyleRef json loc =
     (case json of
        None \<Rightarrow> return no_style
      | Some value \<Rightarrow>
          if isString value then return (no_style\<lparr>sr_name := Some (asString value)\<rparr>)
          else if isObject value
          then bindP (parseTextStyle value loc) (\<lambda>s. return (no_style\<lparr>sr_inline := s\<rparr>))
          else throwP (loc @ '': style must be a name or an inline style object''))"

definition width_of :: "WidthUnit \<Rightarrow> int \<Rightarrow> CellWidth" where
  "width_of u v = \<lparr>cw_unit = u, cw_value = v\<rparr>"

definition parseCellWidth :: "Json option \<Rightarrow> string \<Rightarrow> bool \<Rightarrow> CellWidth parse" where
  "parseCellWidth json loc allow_percent =
     (case json of
        None \<Rightarrow> return default_width
      | Some value \<Rightarrow>
          if isString value then
            (if lowered (asString value) = ''flex'' then return (width_of Flex 1)
             else throwP (loc @ '': unknown width '' @ quoted (asString value)))
          else if isNumber value then
            bindP (intP value) (\<lambda>i. return (width_of (if allow_percent then Dots else Chars) i))
          else
            (case json_find ''chars'' value of
               Some v \<Rightarrow> bindP (intP v) (\<lambda>i. return (width_of Chars i))
             | None \<Rightarrow>
                 (case json_find ''dots'' value of
                    Some v \<Rightarrow> bindP (intP v) (\<lambda>i. return (width_of Dots i))
                  | None \<Rightarrow>
                      (case if allow_percent then json_find ''percent'' value else None of
                         Some v \<Rightarrow> bindP (intP v) (\<lambda>i. return (width_of Percent i))
                       | None \<Rightarrow>
                           (case json_find ''flex'' value of
                              Some v \<Rightarrow> bindP (intP v) (\<lambda>i. return (width_of Flex (max 1 i)))
                            | None \<Rightarrow>
                                throwP (loc @ '': width must be '' @ quoted ''flex'' @
                                  '', {chars|dots|flex: n}'' @
                                  (if allow_percent then '' or {percent: n}'' else [])))))))"

definition byteP :: "string \<Rightarrow> Json \<Rightarrow> u8 parse" where
  "byteP loc item =
     (if \<not> isNumber item then throwP (loc @ '': byte arrays must contain numbers only'')
      else bindP (longP item) (\<lambda>value.
        if value < 0 \<or> value > 255 then throwP (loc @ '': byte out of range'')
        else return (word_of_int value)))"

definition parseBytes :: "Json \<Rightarrow> string \<Rightarrow> bytes parse" where
  "parseBytes json loc =
     (if isString json then
        (case base64Decode (asString json) of
           None \<Rightarrow> throwP (loc @ '': not valid base64'')
         | Some b \<Rightarrow> return b)
      else if isArray json then for_each (byteP loc) (asArray json)
      else throwP (loc @ '': expected base64 or an array of bytes''))"

section \<open>Parsing blocks\<close>

definition indexed :: "string \<Rightarrow> nat \<Rightarrow> string" where
  "indexed loc i = loc @ ''['' @ dec_digits i @ '']''"

definition parse_cell :: "string \<Rightarrow> Json \<Rightarrow> Cell parse" where
  "parse_cell loc item =
     (if \<not> isObject item then throwP (loc @ '': a cell must be a JSON object'')
      else
        bindP (parseCellWidth (json_find ''width'' item) (loc @ ''.width'') False) (\<lambda>width.
        bindP (named parseAlign loc ''align'' item) (\<lambda>align.
        bindP (named parseWrap loc ''wrap'' item) (\<lambda>wrap.
        bindP (parseStyleRef (json_find ''style'' item) (loc @ ''.style'')) (\<lambda>style.
        bindP (finishP loc [''content'', ''width'', ''align'', ''wrap'', ''style''] item) (\<lambda>_.
        return \<lparr>ce_content = readString item ''content'', ce_width = width, ce_align = align,
                ce_wrap = wrap, ce_style = style\<rparr>))))))"

definition parse_cells :: "string \<Rightarrow> Json list \<Rightarrow> Cell list parse" where
  "parse_cells loc items =
     for_each (\<lambda>(i, item). parse_cell (indexed (loc @ ''.cells'') i) item) (enumerate 0 items)"

definition divider_table :: "(string \<times> DividerKind) list" where
  "divider_table = [(''solid'', DK_Solid), (''dashed'', DK_Dashed), (''double'', DK_Double)]"

definition parse_divider :: "string \<Rightarrow> Json \<Rightarrow> (DividerKind \<times> string \<times> int option) parse" where
  "parse_divider loc value =
     (if isString value then
        (case lookup (asString value) divider_table of
           Some k \<Rightarrow> return (k, [], None)
         | None \<Rightarrow>
             if width (asString value) = 1 then return (DK_Char, asString value, None)
             else bindP (warnP loc (''unknown divider '' @ quoted (asString value) @ '', using solid''))
                    (\<lambda>_. return (DK_Solid, [], None)))
      else if isObject value then
        bindP (case find_string value ''style'' of
                 None \<Rightarrow> return DK_Solid
               | Some name \<Rightarrow>
                   (case lookup name (divider_table @ [(''char'', DK_Char)]) of
                      Some k \<Rightarrow> return k
                    | None \<Rightarrow> bindP (warnP (loc @ ''.divider'') ''unknown divider style, using solid'')
                                (\<lambda>_. return DK_Solid))) (\<lambda>kind.
        bindP (readInt value ''thicknessDots'') (\<lambda>thickness.
        bindP (finishP (loc @ ''.divider'') [''style'', ''char'', ''thicknessDots''] value) (\<lambda>_.
        return (case find_string value ''char'' of
            Some fill \<Rightarrow> (DK_Char, fill, thickness)
          | None \<Rightarrow> (kind, [], thickness)))))
      else throwP (loc @ ''.divider: expected a name or an object''))"

definition field_int :: "Json \<Rightarrow> string \<Rightarrow> int option parse" where
  "field_int value key =
     (case json_find key value of
        Some v \<Rightarrow> bindP (intP v) (\<lambda>i. return (Some i))
      | None \<Rightarrow> return None)"

definition option_or :: "'a option \<Rightarrow> 'a \<Rightarrow> 'a" where
  "option_or x y = (case x of Some v \<Rightarrow> v | None \<Rightarrow> y)"

definition parse_feed :: "string \<Rightarrow> Json \<Rightarrow> Block parse" where
  "parse_feed loc value =
     (if isNumber value then bindP (intP value) (\<lambda>i. return (FeedBlock i None))
      else if isObject value then
        bindP (field_int value ''lines'') (\<lambda>lines.
        bindP (field_int value ''dots'') (\<lambda>dots. return (FeedBlock (option_or lines 1) dots)))
      else throwP (loc @ ''.feed: expected a line count or {lines|dots: n}''))"

definition parse_cut :: "string \<Rightarrow> Json \<Rightarrow> Block parse" where
  "parse_cut loc value =
     (if isString value
      then return (CutBlock (if lowered (asString value) = ''full'' then FullCut else PartialCut))
      else if isBool value then return (CutBlock PartialCut)
      else throwP (loc @ ''.cut: expected '' @ quoted ''partial'' @ '' or '' @ quoted ''full''))"

definition parse_kick :: "Json \<Rightarrow> Block parse" where
  "parse_kick value =
     bindP (field_int value ''pin'') (\<lambda>pin.
     bindP (field_int value ''pulse'') (\<lambda>pulse.
     return (DrawerKickBlock (option_or pin 0) (option_or pulse 25))))"

definition parse_qr :: "string \<Rightarrow> Json \<Rightarrow> Json \<Rightarrow> Block parse" where
  "parse_qr loc json value =
     bindP (readInt json ''size'') (\<lambda>size.
     bindP (case find_string json ''ec'' of
              None \<Rightarrow> return EcM
            | Some ec \<Rightarrow>
                (case parseQrEc ec of
                   Some e \<Rightarrow> return e
                 | None \<Rightarrow> bindP (warnP loc (''unknown QR error correction '' @ quoted ec @ '', using M''))
                               (\<lambda>_. return EcM))) (\<lambda>ec.
     return (QrCodeBlock (asString value)
       \<lparr>qr_size = option_or size 6, qr_ec = ec,
        qr_align = option_or (Option.bind (find_string json ''align'') parseAlign) Left\<rparr>)))"

definition parse_barcode :: "string \<Rightarrow> Json \<Rightarrow> Json \<Rightarrow> Block parse" where
  "parse_barcode loc json value =
     bindP (case find_string json ''symbology'' of
              None \<Rightarrow> return Code128
            | Some name \<Rightarrow>
                (case parseSymbology name of
                   Some x \<Rightarrow> return x
                 | None \<Rightarrow> bindP (warnP loc (''unknown symbology '' @ quoted name @ '', using code128''))
                               (\<lambda>_. return Code128))) (\<lambda>symbology.
     bindP (readInt json ''height'') (\<lambda>height.
     bindP (readInt json ''moduleWidth'') (\<lambda>module.
     return (BarcodeBlock (asString value)
       \<lparr>bc_symbology = symbology, bc_height_dots = option_or height 64,
        bc_module_width = option_or module 2,
        bc_hri = option_or (Option.bind (find_string json ''hri'') parseHri) HriNone,
        bc_align = option_or (Option.bind (find_string json ''align'') parseAlign) Left\<rparr>))))"

text \<open>The source of an image: its name, gray values, width and height.\<close>

definition parse_image_source :: "string \<Rightarrow> Json \<Rightarrow> (string \<times> bytes \<times> u32 \<times> u32) parse" where
  "parse_image_source loc value =
     (if isString value then return (asString value, [], 0, 0)
      else if isObject value then
        bindP (case json_find ''gray'' value of
                 None \<Rightarrow> return []
               | Some gray \<Rightarrow> parseBytes gray (loc @ ''.image.gray'')) (\<lambda>gray.
        bindP (readInt value ''width'') (\<lambda>w.
        bindP (readInt value ''height'') (\<lambda>h.
        bindP (finishP (loc @ ''.image'') [''ref'', ''gray'', ''width'', ''height''] value) (\<lambda>_.
        return (readString value ''ref'', gray,
                word_of_int (max 0 (option_or w 0)), word_of_int (max 0 (option_or h 0)))))))
      else throwP (loc @ ''.image: expected an asset name or an object''))"

definition parse_image :: "string \<Rightarrow> Json \<Rightarrow> Json \<Rightarrow> Block parse" where
  "parse_image loc json value =
     bindP (parse_image_source loc value) (\<lambda>(ref, gray, w, h).
     bindP (parseCellWidth (json_find ''width'' json) (loc @ ''.width'') True) (\<lambda>target.
     return (ImageBlock
       \<lparr>im_ref = ref, im_gray = gray, im_width = w, im_height = h, im_target = target,
        im_align = option_or (Option.bind (find_string json ''align'') parseAlign) Left,
        im_dither = option_or (Option.bind (find_string json ''dither'') parseDither) FloydSteinberg\<rparr>)))"

text \<open>
  \<^verbatim>\<open>parseBody\<close> with the parser of the blocks one level deeper: whether the source said
  \<^verbatim>\<open>block\<close>, and the body.
\<close>

definition parseBody :: "(Json \<Rightarrow> string \<Rightarrow> Block parse) \<Rightarrow> Json \<Rightarrow> string \<Rightarrow> (bool \<times> Block list) parse" where
  "parseBody deeper json loc =
     (case json_find ''block'' json of
        Some single \<Rightarrow> bindP (deeper single (loc @ ''.block'')) (\<lambda>b. return (True, [b]))
      | None \<Rightarrow>
          (case json_find ''blocks'' json of
             Some many \<Rightarrow>
               if \<not> isArray many then throwP (loc @ ''.blocks: expected an array'')
               else bindP (for_each (\<lambda>(i, item). deeper item (indexed (loc @ ''.blocks'') i))
                        (enumerate 0 (asArray many))) (\<lambda>bs. return (False, bs))
           | None \<Rightarrow> throwP (loc @ '': needs '' @ quoted ''block'' @ '' or '' @ quoted ''blocks'')))"

definition finished :: "string \<Rightarrow> string list \<Rightarrow> Json \<Rightarrow> 'a \<Rightarrow> 'a parse" where
  "finished loc seen json x = bindP (finishP loc seen json) (\<lambda>_. return x)"

text \<open>The blocks that are no control blocks, in the order their keys are tried.\<close>

definition leaf_keys :: "string list" where
  "leaf_keys = [''each'', ''if'', ''unless'', ''text'', ''columns'', ''divider'', ''feed'', ''cut'',
     ''drawerKick'', ''raw'', ''qr'', ''barcode'', ''image'']"

definition keys_to :: "string \<Rightarrow> string list" where
  "keys_to key = takeWhile (\<lambda>k. k \<noteq> key) leaf_keys @ [key]"

definition parse_leaf :: "registrations option \<Rightarrow> Json \<Rightarrow> string \<Rightarrow> Block parse" where
  "parse_leaf regs json loc =
     (case json_find ''text'' json of Some value \<Rightarrow>
        bindP (parseStyleRef (json_find ''style'' json) (loc @ ''.style'')) (\<lambda>style.
        finished loc (keys_to ''text'' @ [''style'']) json (TextBlock (asString value) style))
      | None \<Rightarrow>
     (case json_find ''columns'' json of Some value \<Rightarrow>
        if \<not> isArray value then throwP (loc @ ''.columns: expected an array of cells'')
        else bindP (parse_cells loc (asArray value)) (\<lambda>cells.
          finished loc (keys_to ''columns'') json (ColumnsBlock cells))
      | None \<Rightarrow>
     (case json_find ''divider'' json of Some value \<Rightarrow>
        bindP (parse_divider loc value) (\<lambda>(kind, fill, thickness).
        bindP (parseStyleRef (json_find ''style'' json) (loc @ ''.style'')) (\<lambda>style.
        finished loc (keys_to ''divider'' @ [''style'']) json (DividerBlock kind fill thickness style)))
      | None \<Rightarrow>
     (case json_find ''feed'' json of Some value \<Rightarrow>
        bindP (parse_feed loc value) (\<lambda>b. finished loc (keys_to ''feed'') json b)
      | None \<Rightarrow>
     (case json_find ''cut'' json of Some value \<Rightarrow>
        bindP (parse_cut loc value) (\<lambda>b. finished loc (keys_to ''cut'') json b)
      | None \<Rightarrow>
     (case json_find ''drawerKick'' json of Some value \<Rightarrow>
        bindP (parse_kick value) (\<lambda>b. finished loc (keys_to ''drawerKick'') json b)
      | None \<Rightarrow>
     (case json_find ''raw'' json of Some value \<Rightarrow>
        bindP (parseBytes value (loc @ ''.raw'')) (\<lambda>b. finished loc (keys_to ''raw'') json (RawBlock b))
      | None \<Rightarrow>
     (case json_find ''qr'' json of Some value \<Rightarrow>
        bindP (parse_qr loc json value) (\<lambda>b.
        finished loc (keys_to ''qr'' @ [''size'', ''ec'', ''align'']) json b)
      | None \<Rightarrow>
     (case json_find ''barcode'' json of Some value \<Rightarrow>
        bindP (parse_barcode loc json value) (\<lambda>b.
        finished loc (keys_to ''barcode'' @ [''symbology'', ''height'', ''moduleWidth'', ''hri'', ''align''])
          json b)
      | None \<Rightarrow>
     (case json_find ''image'' json of Some value \<Rightarrow>
        bindP (parse_image loc json value) (\<lambda>b.
        finished loc (keys_to ''image'' @ [''width'', ''align'', ''dither'']) json b)
      | None \<Rightarrow>
     (case regs of
        Some r \<Rightarrow>
          (case filter (\<lambda>k. hasBlockHandler k r) (map fst (asObject json)) of
             k # _ \<Rightarrow> return (CustomBlock k json)
           | [] \<Rightarrow> throwP (loc @ '': block carries no recognised key''))
      | None \<Rightarrow> throwP (loc @ '': block carries no recognised key''))))))))))))"

text \<open>
  \<^verbatim>\<open>parseBlock\<close>: the first argument counts the levels left of the 33 that may nest, so that
  a depth above 32 is no level left.
\<close>

fun parseBlock :: "nat \<Rightarrow> registrations option \<Rightarrow> Json \<Rightarrow> string \<Rightarrow> Block parse" where
  "parseBlock 0 regs json loc = throwP (loc @ '': blocks nested deeper than 32 levels'')"
| "parseBlock (Suc levels) regs json loc =
     (if \<not> isObject json then throwP (loc @ '': a block must be a JSON object'')
      else case json_find ''each'' json of
          Some value \<Rightarrow>
            bindP (parseBody (parseBlock levels regs) json loc) (\<lambda>(single, body).
            finished loc [''each'', ''block'', ''blocks''] json
              (EachBlock (asString value) single body))
        | None \<Rightarrow>
            (case (json_find ''unless'' json, json_find ''if'' json) of
               (Some value, _) \<Rightarrow>
                 bindP (parseBody (parseBlock levels regs) json loc) (\<lambda>(single, body).
                 finished loc [''each'', ''if'', ''unless'', ''block'', ''blocks''] json
                   (IfBlock (asString value) True single body))
             | (None, Some value) \<Rightarrow>
                 bindP (parseBody (parseBlock levels regs) json loc) (\<lambda>(single, body).
                 finished loc [''each'', ''if'', ''unless'', ''block'', ''blocks''] json
                   (IfBlock (asString value) False single body))
             | (None, None) \<Rightarrow> parse_leaf regs json loc))"

definition block_levels :: nat where
  "block_levels = 33"

section \<open>Parsing documents\<close>

definition cut_requestP :: "Json \<Rightarrow> CutRequest option parse" where
  "cut_requestP json =
     (case json_find ''cut'' json of
        None \<Rightarrow> return None
      | Some c \<Rightarrow>
          if isBool c then return (Some (if asBool c False then CR_Profile else CR_None))
          else if isString c then
            (case parseCutRequest (asString c) of
               Some r \<Rightarrow> return (Some r)
             | None \<Rightarrow> bindP (warnP ''document.meta'' (''unknown cut '' @ quoted (asString c) @ '' ignored''))
                           (\<lambda>_. return None))
          else bindP (warnP ''document.meta'' ''cut must be a boolean or a name'') (\<lambda>_. return None))"

definition number_field :: "Json \<Rightarrow> string \<Rightarrow> double option" where
  "number_field json key =
     (case json_find key json of
        Some v \<Rightarrow> if isNumber v then Some (asNumber v 0) else None
      | None \<Rightarrow> None)"

definition parse_margins :: "Json \<Rightarrow> Margins parse" where
  "parse_margins json =
     (case json_find ''margins'' json of
        None \<Rightarrow> return no_margins
      | Some margins \<Rightarrow>
          if \<not> isObject margins then throwP ''document.meta.margins: expected an object''
          else
            bindP (readInt margins ''topDots'') (\<lambda>top.
            bindP (readInt margins ''bottomDots'') (\<lambda>bottom.
            bindP (finishP ''document.meta.margins'' [''topDots'', ''bottomDots'', ''topMm'', ''bottomMm'']
                     margins) (\<lambda>_.
            return \<lparr>mg_top_dots = top, mg_bottom_dots = bottom,
                    mg_top_mm = number_field margins ''topMm'',
                    mg_bottom_mm = number_field margins ''bottomMm''\<rparr>))))"

definition parse_meta :: "Json \<Rightarrow> Meta parse" where
  "parse_meta json =
     (case json_find ''meta'' json of
        None \<Rightarrow> return no_meta
      | Some meta \<Rightarrow>
          if \<not> isObject meta then throwP ''document.meta: expected an object''
          else
            bindP (cut_requestP meta) (\<lambda>cut.
            bindP (parse_margins meta) (\<lambda>margins.
            bindP (finishP ''document.meta'' [''locale'', ''currency'', ''tz'', ''cut'', ''margins''] meta) (\<lambda>_.
            return \<lparr>me_locale = readString meta ''locale'', me_currency = readString meta ''currency'',
                    me_tz = readString meta ''tz'', me_cut = cut, me_margins = margins\<rparr>))))"

definition parse_styles :: "Json \<Rightarrow> (string \<times> TextStyle) list parse" where
  "parse_styles json =
     (case json_find ''styles'' json of
        None \<Rightarrow> return []
      | Some styles \<Rightarrow>
          if \<not> isObject styles then throwP ''document.styles: expected an object of named styles''
          else for_each (\<lambda>(name, v). bindP (parseTextStyle v (''styles.'' @ name)) (\<lambda>s. return (name, s)))
                 (asObject styles))"

definition parse_blocks :: "registrations option \<Rightarrow> Json \<Rightarrow> Block list parse" where
  "parse_blocks regs json =
     (case json_find ''blocks'' json of
        None \<Rightarrow> return []
      | Some blocks \<Rightarrow>
          if \<not> isArray blocks then throwP ''document.blocks: expected an array''
          else for_each (\<lambda>(i, item). parseBlock block_levels regs item (indexed ''blocks'' i))
                 (enumerate 0 (asArray blocks)))"

definition parseDocument :: "registrations option \<Rightarrow> Json \<Rightarrow> Document parse" where
  "parseDocument regs json =
     (if \<not> isObject json then throwP ''document: expected a JSON object''
      else
        bindP (readInt json ''v'') (\<lambda>version.
        bindP (parse_meta json) (\<lambda>meta.
        bindP (parse_styles json) (\<lambda>styles.
        bindP (parse_blocks regs json) (\<lambda>blocks.
        bindP (finishP ''document'' [''v'', ''template'', ''meta'', ''styles'', ''blocks''] json) (\<lambda>_.
        return
          \<lparr>doc_version = option_or version 1,
           doc_is_template = (case json_find ''template'' json of Some t \<Rightarrow> truthy t | None \<Rightarrow> False),
           doc_meta = meta, doc_styles = styles, doc_blocks = blocks\<rparr>))))))"

section \<open>Serializing\<close>

definition int_json :: "int \<Rightarrow> Json" where
  "int_json i = json_number (of_int i)"

text \<open>\<^verbatim>\<open>if (x) out.set(key, \<dots>)\<close> on an object that has no such key yet.\<close>

definition member :: "string \<Rightarrow> ('a \<Rightarrow> Json) \<Rightarrow> 'a option \<Rightarrow> (string \<times> Json) list" where
  "member key f x = (case x of None \<Rightarrow> [] | Some v \<Rightarrow> [(key, f v)])"

definition style_members :: "TextStyle \<Rightarrow> (string \<times> Json) list" where
  "style_members s =
     member ''extends'' JString (ts_extends s) @
     member ''font'' JString (ts_font s) @
     member ''widthScale'' int_json (ts_width_scale s) @
     member ''heightScale'' int_json (ts_height_scale s) @
     member ''bold'' JBool (ts_bold s) @
     member ''italic'' JBool (ts_italic s) @
     member ''underline'' (JString \<circ> underline_name) (ts_underline s) @
     member ''inverse'' JBool (ts_inverse s) @
     member ''upsideDown'' JBool (ts_upside_down s) @
     member ''rotate90'' JBool (ts_rotate90 s) @
     member ''align'' (JString \<circ> align_name) (ts_align s) @
     member ''wrap'' (JString \<circ> wrap_name) (ts_wrap s) @
     member ''lineSpacingDots'' int_json (ts_line_spacing_dots s) @
     member ''letterSpacingDots'' int_json (ts_letter_spacing_dots s) @
     member ''indentDots'' int_json (ts_indent_dots s) @
     member ''marginLeftDots'' int_json (ts_margin_left_dots s) @
     member ''marginRightDots'' int_json (ts_margin_right_dots s)"

definition styleToJson :: "TextStyle \<Rightarrow> Json" where
  "styleToJson s = JObject (style_members s)"

text \<open>The member \<^verbatim>\<open>writeStyleRef\<close> adds.\<close>

definition writeStyleRef :: "StyleRef \<Rightarrow> (string \<times> Json) list" where
  "writeStyleRef ref =
     (if sr_name ref \<noteq> None \<and> style_empty (sr_inline ref)
      then member ''style'' JString (sr_name ref)
      else if \<not> style_empty (sr_inline ref) then
        [(''style'',
          case sr_name ref of
            None \<Rightarrow> styleToJson (sr_inline ref)
          | Some name \<Rightarrow>
              JObject (foldl (\<lambda>ms (k, v). put_member k v ms) [(''extends'', JString name)]
                (style_members (sr_inline ref))))]
      else [])"

definition cellWidthToJson :: "CellWidth \<Rightarrow> Json" where
  "cellWidthToJson w =
     (case cw_unit w of
        Flex \<Rightarrow> if cw_value w \<le> 1 then JString ''flex'' else JObject [(''flex'', int_json (cw_value w))]
      | Chars \<Rightarrow> JObject [(''chars'', int_json (cw_value w))]
      | Dots \<Rightarrow> JObject [(''dots'', int_json (cw_value w))]
      | Percent \<Rightarrow> JObject [(''percent'', int_json (cw_value w))])"

definition cell_json :: "Cell \<Rightarrow> Json" where
  "cell_json c =
     JObject ([(''content'', JString (ce_content c)), (''width'', cellWidthToJson (ce_width c))] @
       member ''align'' (JString \<circ> align_name) (ce_align c) @
       member ''wrap'' (JString \<circ> wrap_name) (ce_wrap c) @
       writeStyleRef (ce_style c))"

definition divider_json :: "DividerKind \<Rightarrow> string \<Rightarrow> int option \<Rightarrow> Json" where
  "divider_json kind fill thickness =
     (if kind = DK_Char then
        JObject ([(''style'', JString ''char''), (''char'', JString fill)] @
          member ''thicknessDots'' int_json thickness)
      else case thickness of
          Some t \<Rightarrow> JObject [(''style'', JString (divider_name kind)), (''thicknessDots'', int_json t)]
        | None \<Rightarrow> JString (divider_name kind))"

definition align_member :: "Align \<Rightarrow> (string \<times> Json) list" where
  "align_member a = (if a \<noteq> Left then [(''align'', JString (align_name a))] else [])"

definition image_json :: "ImageBlock \<Rightarrow> Json" where
  "image_json i =
     (if im_gray i = [] \<and> im_ref i \<noteq> [] then JString (im_ref i)
      else JObject
        ((if im_ref i \<noteq> [] then [(''ref'', JString (im_ref i))] else []) @
         (if im_gray i \<noteq> [] then
            [(''gray'', JString (base64Encode (im_gray i))),
             (''width'', json_number (of_nat (unat (im_width i)))),
             (''height'', json_number (of_nat (unat (im_height i))))]
          else [])))"

fun blockToJson :: "Block \<Rightarrow> Json"
  and blockListToJson :: "Block list \<Rightarrow> Json list" where
  "blockToJson (TextBlock content style) =
     JObject ((''text'', JString content) # writeStyleRef style)"
| "blockToJson (ColumnsBlock cells) = JObject [(''columns'', JArray (map cell_json cells))]"
| "blockToJson (DividerBlock kind fill thickness style) =
     JObject ((''divider'', divider_json kind fill thickness) # writeStyleRef style)"
| "blockToJson (FeedBlock lines dots) =
     JObject [(''feed'', case dots of
        Some d \<Rightarrow> JObject [(''dots'', int_json d)] | None \<Rightarrow> int_json lines)]"
| "blockToJson (CutBlock kind) =
     JObject [(''cut'', JString (if kind = FullCut then ''full'' else ''partial''))]"
| "blockToJson (DrawerKickBlock pin pulse) =
     JObject [(''drawerKick'', JObject [(''pin'', int_json pin), (''pulse'', int_json pulse)])]"
| "blockToJson (RawBlock data) = JObject [(''raw'', JString (base64Encode data))]"
| "blockToJson (QrCodeBlock content q) =
     JObject ([(''qr'', JString content), (''size'', int_json (qr_size q)),
        (''ec'', JString (qr_ec_name (qr_ec q)))] @ align_member (qr_align q))"
| "blockToJson (BarcodeBlock content b) =
     JObject ([(''barcode'', JString content), (''symbology'', JString (symbology_name (bc_symbology b))),
        (''height'', int_json (bc_height_dots b)), (''moduleWidth'', int_json (bc_module_width b)),
        (''hri'', JString (hri_name (bc_hri b)))] @ align_member (bc_align b))"
| "blockToJson (ImageBlock i) =
     JObject ([(''image'', image_json i)] @
       (if cw_unit (im_target i) \<noteq> Flex then [(''width'', cellWidthToJson (im_target i))] else []) @
       align_member (im_align i) @ [(''dither'', JString (dither_name (im_dither i)))])"
| "blockToJson (EachBlock path single body) =
     JObject ((''each'', JString path) #
       (if single \<and> length body = 1 then [(''block'', hd (blockListToJson body))]
        else [(''blocks'', JArray (blockListToJson body))]))"
| "blockToJson (IfBlock path negated single body) =
     JObject ((if negated then ''unless'' else ''if'', JString path) #
       (if single \<and> length body = 1 then [(''block'', hd (blockListToJson body))]
        else [(''blocks'', JArray (blockListToJson body))]))"
| "blockToJson (CustomBlock kind payload) = (if isObject payload then payload else JObject [])"
| "blockListToJson [] = []"
| "blockListToJson (b # bs) = blockToJson b # blockListToJson bs"

definition margins_json :: "Margins \<Rightarrow> Json" where
  "margins_json m =
     JObject (member ''topDots'' int_json (mg_top_dots m) @
       member ''bottomDots'' int_json (mg_bottom_dots m) @
       member ''topMm'' json_number (mg_top_mm m) @
       member ''bottomMm'' json_number (mg_bottom_mm m))"

definition text_member :: "string \<Rightarrow> string \<Rightarrow> (string \<times> Json) list" where
  "text_member key s = (if s = [] then [] else [(key, JString s)])"

definition meta_members :: "Meta \<Rightarrow> (string \<times> Json) list" where
  "meta_members m =
     text_member ''locale'' (me_locale m) @ text_member ''currency'' (me_currency m) @
     text_member ''tz'' (me_tz m) @
     member ''cut'' (JString \<circ> cut_request_name) (me_cut m) @
     (if margins_any (me_margins m) then [(''margins'', margins_json (me_margins m))] else [])"

definition styles_json :: "(string \<times> TextStyle) list \<Rightarrow> Json" where
  "styles_json styles = JObject (foldl (\<lambda>ms (k, s). put_member k (styleToJson s) ms) [] styles)"

definition documentToJson :: "Document \<Rightarrow> Json" where
  "documentToJson d =
     JObject ([(''v'', int_json (doc_version d))] @
       (if doc_is_template d then [(''template'', JBool True)] else []) @
       (if meta_members (doc_meta d) \<noteq> [] then [(''meta'', JObject (meta_members (doc_meta d)))] else []) @
       (if doc_styles d \<noteq> [] then [(''styles'', styles_json (doc_styles d))] else []) @
       [(''blocks'', JArray (blockListToJson (doc_blocks d)))])"

definition serializeDocument :: "Document \<Rightarrow> bool \<Rightarrow> string" where
  "serializeDocument d pretty = toJson (documentToJson d) pretty"

section \<open>Resolving styles\<close>

definition overlay :: "TextStyle \<Rightarrow> TextStyle \<Rightarrow> TextStyle" where
  "overlay s over =
     s\<lparr>ts_font := (if ts_font over \<noteq> None then ts_font over else ts_font s),
        ts_width_scale := (if ts_width_scale over \<noteq> None then ts_width_scale over else ts_width_scale s),
        ts_height_scale := (if ts_height_scale over \<noteq> None then ts_height_scale over else ts_height_scale s),
        ts_bold := (if ts_bold over \<noteq> None then ts_bold over else ts_bold s),
        ts_italic := (if ts_italic over \<noteq> None then ts_italic over else ts_italic s),
        ts_inverse := (if ts_inverse over \<noteq> None then ts_inverse over else ts_inverse s),
        ts_upside_down := (if ts_upside_down over \<noteq> None then ts_upside_down over else ts_upside_down s),
        ts_rotate90 := (if ts_rotate90 over \<noteq> None then ts_rotate90 over else ts_rotate90 s),
        ts_underline := (if ts_underline over \<noteq> None then ts_underline over else ts_underline s),
        ts_align := (if ts_align over \<noteq> None then ts_align over else ts_align s),
        ts_line_spacing_dots :=
          (if ts_line_spacing_dots over \<noteq> None then ts_line_spacing_dots over else ts_line_spacing_dots s),
        ts_letter_spacing_dots :=
          (if ts_letter_spacing_dots over \<noteq> None then ts_letter_spacing_dots over
           else ts_letter_spacing_dots s),
        ts_wrap := (if ts_wrap over \<noteq> None then ts_wrap over else ts_wrap s),
        ts_indent_dots := (if ts_indent_dots over \<noteq> None then ts_indent_dots over else ts_indent_dots s),
        ts_margin_left_dots :=
          (if ts_margin_left_dots over \<noteq> None then ts_margin_left_dots over else ts_margin_left_dots s),
        ts_margin_right_dots :=
          (if ts_margin_right_dots over \<noteq> None then ts_margin_right_dots over
           else ts_margin_right_dots s)\<rparr>"

definition document_style :: "Document \<Rightarrow> string \<Rightarrow> TextStyle option" where
  "document_style d name = map_of (doc_styles d) name"

definition setStyle :: "string \<Rightarrow> TextStyle \<Rightarrow> Document \<Rightarrow> Document" where
  "setStyle name s d = d\<lparr>doc_styles := put_member name s (doc_styles d)\<rparr>"

text \<open>The style merged so far, the names visited and the report.\<close>

type_synonym chain = "TextStyle \<times> string list \<times> RenderReport"

function applyChain :: "Document \<Rightarrow> string \<Rightarrow> string \<Rightarrow> chain \<Rightarrow> chain" where
  "applyChain d loc name (into, visited, report) =
     (case document_style d name of
        None \<Rightarrow>
          (into, visited,
           report_add UnknownStyle loc (''style:'' @ name) ''default'' Hardware
             ''no named style with that name'' report)
      | Some st \<Rightarrow>
          if name \<in> set visited then
            (into, visited,
             report_add StyleCycle loc (''extends:'' @ name) ''chain broken'' Hardware
               ''named style inheritance loops'' report)
          else
            (case (case ts_extends st of
                     Some base \<Rightarrow> applyChain d loc base (into, name # visited, report)
                   | None \<Rightarrow> (into, name # visited, report)) of
               (into2, visited2, report2) \<Rightarrow> (overlay into2 st, visited2, report2)))"
  by pat_completeness auto

termination
proof (relation "measure (\<lambda>(d, loc, name, into, visited, report).
    card (set (map fst (doc_styles d)) - set visited))", simp)
  fix d loc name into visited report st base
  assume s: "document_style d name = Some st" and n: "name \<notin> set visited"
  have "name \<in> set (map fst (doc_styles d))"
    using s map_of_eq_None_iff [of "doc_styles d" name] by (auto simp: document_style_def)
  then have "card (set (map fst (doc_styles d)) - set (name # visited)) <
      card (set (map fst (doc_styles d)) - set visited)"
    using n by (intro psubset_card_mono) auto
  then show "((d, loc, base, into, name # visited, report), d, loc, name, into, visited, report)
      \<in> measure (\<lambda>(d, loc, name, into, visited, report).
          card (set (map fst (doc_styles d)) - set visited))"
    by simp
qed

declare applyChain.simps [simp del]

definition clampScale :: "int \<Rightarrow> string \<Rightarrow> string \<Rightarrow> RenderReport \<Rightarrow> int \<times> RenderReport" where
  "clampScale value loc what report =
     (if value \<ge> 1 \<and> value \<le> 8 then (value, report)
      else let clamped = (if value < 1 then 1 else 8) in
        (clamped,
         report_add UnsupportedStyle loc (what @ '':'' @ int_digits value)
           (what @ '':'' @ int_digits clamped) Hardware ''GS ! multipliers are 1..8'' report))"

definition merged_style :: "Document \<Rightarrow> StyleRef \<Rightarrow> RenderReport \<Rightarrow> string \<Rightarrow> TextStyle \<times> RenderReport" where
  "merged_style d ref report loc =
     (let c0 = (case document_style d ''default'' of
                  None \<Rightarrow> (empty_style, [], report)
                | Some fallback \<Rightarrow>
                    (case (case ts_extends fallback of
                             Some base \<Rightarrow> applyChain d loc base (empty_style, [''default''], report)
                           | None \<Rightarrow> (empty_style, [''default''], report)) of
                       (into, visited, r) \<Rightarrow> (overlay into fallback, visited, r)));
          c1 = (case sr_name ref of Some name \<Rightarrow> applyChain d loc name c0 | None \<Rightarrow> c0);
          c2 = (case ts_extends (sr_inline ref) of Some name \<Rightarrow> applyChain d loc name c1 | None \<Rightarrow> c1)
      in (overlay (fst c2) (sr_inline ref), snd (snd c2)))"

definition resolve_style :: "Document \<Rightarrow> StyleRef \<Rightarrow> RenderReport \<Rightarrow> string \<Rightarrow> ResolvedStyle \<times> RenderReport" where
  "resolve_style d ref report loc =
     (let (m, r0) = merged_style d ref report loc;
          (ws, r1) = (case ts_width_scale m of Some v \<Rightarrow> clampScale v loc ''widthScale'' r0 | None \<Rightarrow> (1, r0));
          (hs, r2) = (case ts_height_scale m of Some v \<Rightarrow> clampScale v loc ''heightScale'' r1 | None \<Rightarrow> (1, r1))
      in (\<lparr>rs_font = option_or (ts_font m) ''printerA'', rs_width_scale = ws, rs_height_scale = hs,
           rs_bold = option_or (ts_bold m) False, rs_italic = option_or (ts_italic m) False,
           rs_inverse = option_or (ts_inverse m) False,
           rs_upside_down = option_or (ts_upside_down m) False,
           rs_rotate90 = option_or (ts_rotate90 m) False,
           rs_underline = option_or (ts_underline m) UL_None, rs_align = option_or (ts_align m) Left,
           rs_line_spacing_dots = option_or (ts_line_spacing_dots m) 0,
           rs_letter_spacing_dots = option_or (ts_letter_spacing_dots m) 0,
           rs_wrap = option_or (ts_wrap m) Word, rs_indent_dots = option_or (ts_indent_dots m) 0,
           rs_margin_left_dots = option_or (ts_margin_left_dots m) 0,
           rs_margin_right_dots = option_or (ts_margin_right_dots m) 0\<rparr>, r2))"

end
