(* ===== verification/Receipt_Json_Rules.thy ===== *)
theory Receipt_Json_Rules imports
  Receipt_Json
begin

text \<open>
  What the JSON layer guarantees (\<^verbatim>\<open>dsl/src/json.cpp\<close>): the parser always ends within its
  fuel; whatever it accepts is nested at most 64 deep, has distinct keys and keeps the
  literal of every number; and serializing a value in either form and parsing it again gives
  the same value.
\<close>

section \<open>Values the parser builds\<close>

text \<open>A number holds a literal that the number grammar accepts to its end, and its value.\<close>

fun json_ok :: "Json \<Rightarrow> bool"
  and items_ok :: "Json list \<Rightarrow> bool"
  and members_ok :: "(string \<times> Json) list \<Rightarrow> bool" where
  "json_ok JNull = True"
| "json_ok (JBool b) = True"
| "json_ok (JNumber v l) = (parseNumber l = Inr (JNumber v l, []))"
| "json_ok (JString s) = True"
| "json_ok (JArray vs) = items_ok vs"
| "json_ok (JObject ms) = (distinct (map fst ms) \<and> members_ok ms)"
| "items_ok [] = True"
| "items_ok (v # vs) = (json_ok v \<and> items_ok vs)"
| "members_ok [] = True"
| "members_ok ((k, v) # ms) = (json_ok v \<and> members_ok ms)"

text \<open>How many containers enclose the innermost value.\<close>

fun nesting :: "Json \<Rightarrow> nat"
  and items_nesting :: "Json list \<Rightarrow> nat"
  and members_nesting :: "(string \<times> Json) list \<Rightarrow> nat" where
  "nesting JNull = 0"
| "nesting (JBool b) = 0"
| "nesting (JNumber v l) = 0"
| "nesting (JString s) = 0"
| "nesting (JArray vs) = items_nesting vs"
| "nesting (JObject ms) = members_nesting ms"
| "items_nesting [] = 0"
| "items_nesting (v # vs) = max (Suc (nesting v)) (items_nesting vs)"
| "members_nesting [] = 0"
| "members_nesting ((k, v) # ms) = max (Suc (nesting v)) (members_nesting ms)"

lemma items_append [simp]:
  "items_ok (a @ b) \<longleftrightarrow> items_ok a \<and> items_ok b"
  "items_nesting (a @ b) = max (items_nesting a) (items_nesting b)"
  by (induction a) auto

lemma members_append [simp]:
  "members_ok (a @ b) \<longleftrightarrow> members_ok a \<and> members_ok b"
  "members_nesting (a @ b) = max (members_nesting a) (members_nesting b)"
  by (induction a) auto

lemma put_member_keys:
  "map fst (put_member k v ms) = (if k \<in> set (map fst ms) then map fst ms else map fst ms @ [k])"
  by (induction k v ms rule: put_member.induct) auto

lemma put_member_new: "k \<notin> fst ` set ms \<Longrightarrow> put_member k v ms = ms @ [(k, v)]"
  by (induction k v ms rule: put_member.induct) auto

lemma put_member_ok:
  "members_ok ms \<Longrightarrow> json_ok v \<Longrightarrow> members_ok (put_member k v ms)"
  "members_nesting (put_member k v ms) \<le> max (members_nesting ms) (Suc (nesting v))"
  by (induction k v ms rule: put_member.induct) auto

section \<open>Progress of the scanners\<close>

lemma skipWhitespace_length: "length (skipWhitespace s) \<le> length s"
  by (simp add: skipWhitespace_def length_dropWhile_le)

lemma skipWhitespace_idem [simp]: "skipWhitespace (skipWhitespace s) = skipWhitespace s"
  by (simp add: skipWhitespace_def)

lemma expect_Inr: "expect c s = Inr (u, r) \<longleftrightarrow> s = c # r"
  by (cases s) (auto simp: json_fail_def)

lemma json_fail_simps [simp]: "json_fail s m \<noteq> Inl Fuel" "json_fail s m \<noteq> Inr x" "Inr x \<noteq> json_fail s m"
  by (simp_all add: json_fail_def)

lemma string_loop_shorter: "string_loop out s = Inr (x, r) \<Longrightarrow> length r < length s"
proof (induction out s arbitrary: x r rule: string_loop.induct)
  case (2 out c cs)
  then show ?case
    by (auto split: if_splits list.splits option.splits sum.splits prod.splits
        dest!: unicode_escape_shorter) fastforce+
qed simp

lemma parseString_shorter: "parseString s = Inr (x, r) \<Longrightarrow> Suc (length r) < length s"
  by (auto simp: parseString_def expect_Inr split: sum.splits dest!: string_loop_shorter)

section \<open>Numbers\<close>

text \<open>What may follow a run of digits, and what may follow a number.\<close>

definition digit_stop :: "string \<Rightarrow> bool" where
  "digit_stop r \<longleftrightarrow> r = [] \<or> \<not> is_digit (hd r)"

definition number_stop :: "string \<Rightarrow> bool" where
  "number_stop r \<longleftrightarrow> r = [] \<or>
     \<not> is_digit (hd r) \<and> hd r \<noteq> CHR ''.'' \<and> hd r \<noteq> CHR ''e'' \<and> hd r \<noteq> CHR ''E''"

lemma dropWhile_digits: "digit_stop (dropWhile is_digit s)"
  using hd_dropWhile [of is_digit s] by (auto simp: digit_stop_def)

lemma dropWhile_stop: "digit_stop r \<Longrightarrow> dropWhile is_digit (takeWhile is_digit s @ r) = r"
  by (cases r) (auto simp: digit_stop_def dropWhile_append dest: set_takeWhileD)

lemma digits_split: "s = takeWhile is_digit s @ dropWhile is_digit s"
  by simp

lemma digit_facts:
  "is_digit (CHR ''0'')" "\<not> is_digit (CHR ''.'')" "\<not> is_digit (CHR ''e'')" "\<not> is_digit (CHR ''E'')"
  "\<not> is_digit (CHR ''-'')" "\<not> is_digit (CHR ''+'')"
  by (simp_all add: is_digit_def)

lemma number_integer_piece:
  assumes "number_integer s = Inr r"
  obtains c where "s = c @ r" "c \<noteq> []" "is_digit (hd c)" "digit_stop r"
    "\<And>r'. digit_stop r' \<Longrightarrow> number_integer (c @ r') = Inr r'"
proof -
  obtain d ds where s: "s = d # ds" using assms by (cases s) (auto simp: number_integer_def)
  show thesis
  proof (cases "d = CHR ''0''")
    case True
    then have "r = ds" "digit_stop r"
      using assms s by (auto simp: number_integer_def digit_stop_def split: if_splits)
    then show thesis using True s
      by (intro that [of "[d]"]) (auto simp: number_integer_def digit_stop_def digit_facts)
  next
    case False
    then have d: "is_digit19 d" "is_digit d" "r = dropWhile is_digit s"
      using assms s by (auto simp: number_integer_def is_digit19_def split: if_splits)
    let ?c = "takeWhile is_digit s"
    have c: "?c = d # takeWhile is_digit ds" using s d by simp
    have "number_integer (?c @ r') = Inr r'" if "digit_stop r'" for r'
      using dropWhile_stop [OF that, of s] False d(1) c by (simp add: number_integer_def)
    then show thesis using s d dropWhile_digits [of s]
      by (intro that [of ?c]) auto
  qed
qed

lemma number_fraction_piece:
  assumes "number_fraction s = Inr r" "digit_stop s"
  obtains c where "s = c @ r" "digit_stop r" "c \<noteq> [] \<Longrightarrow> hd c = CHR ''.''"
    "\<And>r'. digit_stop r' \<Longrightarrow> c = [] \<longrightarrow> r' = [] \<or> hd r' \<noteq> CHR ''.'' \<Longrightarrow>
       number_fraction (c @ r') = Inr r'"
proof (cases "s \<noteq> [] \<and> hd s = CHR ''.''")
  case True
  then obtain ds where s: "s = CHR ''.'' # ds" by (cases s) auto
  have d: "ds \<noteq> []" "is_digit (hd ds)" "r = dropWhile is_digit ds"
    using assms(1) s by (auto simp: number_fraction_def split: if_splits)
  let ?c = "CHR ''.'' # takeWhile is_digit ds"
  have t: "takeWhile is_digit ds \<noteq> []" "hd (takeWhile is_digit ds) = hd ds"
    using d(1,2) by (cases ds; simp)+
  have "number_fraction (?c @ r') = Inr r'" if "digit_stop r'" for r'
    using dropWhile_stop [OF that, of ds] d(2) t by (simp add: number_fraction_def)
  then show thesis using s d dropWhile_digits [of ds] by (intro that [of ?c]) auto
next
  case False
  then have "r = s" using assms(1) by (auto simp: number_fraction_def)
  then show thesis using assms(2) False
    by (intro that [of "[]"]) (auto simp: number_fraction_def)
qed

lemma number_exponent_piece:
  assumes "number_exponent s = Inr r" "digit_stop s"
  obtains c where "s = c @ r" "digit_stop r" "c \<noteq> [] \<Longrightarrow> hd c = CHR ''e'' \<or> hd c = CHR ''E''"
    "\<And>r'. digit_stop r' \<Longrightarrow> c = [] \<longrightarrow> r' = [] \<or> hd r' \<noteq> CHR ''e'' \<and> hd r' \<noteq> CHR ''E'' \<Longrightarrow>
       number_exponent (c @ r') = Inr r'"
proof (cases "s \<noteq> [] \<and> (hd s = CHR ''e'' \<or> hd s = CHR ''E'')")
  case True
  then obtain e p where s: "s = e # p" "e = CHR ''e'' \<or> e = CHR ''E''" by (cases s) auto
  define sgn where "sgn = (if p \<noteq> [] \<and> (hd p = CHR ''+'' \<or> hd p = CHR ''-'') then [hd p] else [])"
  define ds where "ds = (if p \<noteq> [] \<and> (hd p = CHR ''+'' \<or> hd p = CHR ''-'') then tl p else p)"
  have p: "p = sgn @ ds" unfolding sgn_def ds_def by auto
  have d: "ds \<noteq> []" "is_digit (hd ds)" "r = dropWhile is_digit ds"
    using assms(1) s unfolding ds_def by (auto simp: number_exponent_def Let_def split: if_splits)
  have t: "takeWhile is_digit ds \<noteq> []" "hd (takeWhile is_digit ds) = hd ds"
    using d(1,2) by (cases ds; simp)+
  let ?c = "e # sgn @ takeWhile is_digit ds"
  have "number_exponent (?c @ r') = Inr r'" if "digit_stop r'" for r'
    using dropWhile_stop [OF that, of ds] d(2) t s(2)
    by (cases "hd ds = CHR ''+''"; cases "hd ds = CHR ''-''")
      (auto simp: number_exponent_def sgn_def digit_facts Let_def)
  then show thesis using s p d dropWhile_digits [of ds] by (intro that [of ?c]) auto
next
  case False
  then have "r = s" using assms(1) by (auto simp: number_exponent_def)
  then show thesis using assms(2) False
    by (intro that [of "[]"]) (auto simp: number_exponent_def)
qed

lemma number_stop_digit: "number_stop r \<Longrightarrow> digit_stop r"
  by (auto simp: number_stop_def digit_stop_def)

lemma parseNumber_piece:
  assumes "parseNumber s = Inr (v, r)"
  obtains l where "s = l @ r" "l \<noteq> []" "hd l = CHR ''-'' \<or> is_digit (hd l)"
    "v = JNumber (parseDoubleLiteral l) l"
    "\<And>r'. number_stop r' \<Longrightarrow> parseNumber (l @ r') = Inr (v, r')"
proof -
  define sg where "sg = (if minus_sign s then [CHR ''-''] else [])"
  define s1 where "s1 = (if minus_sign s then tl s else s)"
  have s: "s = sg @ s1" unfolding sg_def s1_def minus_sign_def by (cases s) auto
  obtain r2 r3 where st: "number_integer s1 = Inr r2" "number_fraction r2 = Inr r3"
    "number_exponent r3 = Inr r"
    "v = JNumber (parseDoubleLiteral (take (length s - length r) s)) (take (length s - length r) s)"
    using assms unfolding parseNumber_def s1_def by (auto simp: Let_def split: sum.splits)
  obtain c1 where c1: "s1 = c1 @ r2" "c1 \<noteq> []" "is_digit (hd c1)" "digit_stop r2"
    "\<And>r'. digit_stop r' \<Longrightarrow> number_integer (c1 @ r') = Inr r'"
    by (rule number_integer_piece [OF st(1)]) blast
  obtain c2 where c2: "r2 = c2 @ r3" "digit_stop r3" "c2 \<noteq> [] \<Longrightarrow> hd c2 = CHR ''.''"
    "\<And>r'. digit_stop r' \<Longrightarrow> c2 = [] \<longrightarrow> r' = [] \<or> hd r' \<noteq> CHR ''.'' \<Longrightarrow>
       number_fraction (c2 @ r') = Inr r'"
    by (rule number_fraction_piece [OF st(2) c1(4)]) blast
  obtain c3 where c3: "r3 = c3 @ r" "digit_stop r" "c3 \<noteq> [] \<Longrightarrow> hd c3 = CHR ''e'' \<or> hd c3 = CHR ''E''"
    "\<And>r'. digit_stop r' \<Longrightarrow> c3 = [] \<longrightarrow> r' = [] \<or> hd r' \<noteq> CHR ''e'' \<and> hd r' \<noteq> CHR ''E'' \<Longrightarrow>
       number_exponent (c3 @ r') = Inr r'"
    by (rule number_exponent_piece [OF st(3) c2(2)]) blast
  define l where "l = sg @ c1 @ c2 @ c3"
  have sl: "s = l @ r" using s c1(1) c2(1) c3(1) by (simp add: l_def)
  then have v: "v = JNumber (parseDoubleLiteral l) l" using st(4) by simp
  have "c1 = hd c1 # tl c1" using c1(2) by simp
  then have m: "minus_sign (l @ r') = (sg \<noteq> [])" "l @ r' = sg @ c1 @ c2 @ c3 @ r'" for r'
    using c1(3) digit_facts by (cases c1; auto simp: l_def minus_sign_def sg_def)+
  have "parseNumber (l @ r') = Inr (v, r')" if "number_stop r'" for r'
  proof -
    have "digit_stop r'" by (rule number_stop_digit [OF that])
    then have n3: "number_exponent (c3 @ r') = Inr r'"
      using c3(4) that by (auto simp: number_stop_def)
    have d3: "digit_stop (c3 @ r')" "c3 @ r' = [] \<or> hd (c3 @ r') \<noteq> CHR ''.''"
      using c3(3) that digit_facts by (cases c3; auto simp: number_stop_def digit_stop_def)+
    then have n2: "number_fraction (c2 @ c3 @ r') = Inr (c3 @ r')" using c2(4) by blast
    have "digit_stop (c2 @ c3 @ r')"
      using c2(3) d3 digit_facts by (cases c2) (auto simp: digit_stop_def)
    then have n1: "number_integer (c1 @ c2 @ c3 @ r') = Inr (c2 @ c3 @ r')" using c1(5) by blast
    have "(if minus_sign (l @ r') then tl (l @ r') else l @ r') = c1 @ c2 @ c3 @ r'"
      unfolding m(1) by (cases sg) (auto simp: l_def sg_def split: if_splits)
    then show ?thesis using n1 n2 n3 v by (simp add: parseNumber_def)
  qed
  moreover have "l \<noteq> []" "hd l = CHR ''-'' \<or> is_digit (hd l)"
    using c1(2,3) by (auto simp: l_def sg_def)
  ultimately show thesis using that [OF sl] v by blast
qed

section \<open>The parser ends and builds well-formed values\<close>

lemma parse_literal_result:
  assumes "parse_literal w v s = Inr (x, r)" "w \<noteq> []"
  shows "x = v" "length r < length s"
proof -
  have e: "take (length w) s = w" "x = v" "r = drop (length w) s"
    using assms(1) by (simp_all add: parse_literal_def split: if_splits)
  then show "x = v" by simp
  have "length w \<le> length s" using e(1) by (metis length_take min.cobounded1)
  then show "length r < length s" using e(3) assms(2) by (cases w) auto
qed

text \<open>What a call promises of its result: the rest is shorter, the value well formed.\<close>

definition parsed_ok :: "nat \<Rightarrow> string \<Rightarrow> Json parsed \<Rightarrow> bool" where
  "parsed_ok depth s res \<longleftrightarrow>
     (\<forall>v r. res = Inr (v, r) \<longrightarrow> length r < length s \<and> json_ok v \<and> depth + nesting v \<le> kMaxJsonDepth)"

lemma parsed_okI:
  "(\<And>v r. res = Inr (v, r) \<Longrightarrow> length r < length s \<and> json_ok v \<and> depth + nesting v \<le> kMaxJsonDepth) \<Longrightarrow>
   parsed_ok depth s res"
  by (simp add: parsed_ok_def)

lemma parsed_okD:
  "parsed_ok depth s (Inr (v, r)) \<Longrightarrow>
     length r < length s \<and> json_ok v \<and> depth + nesting v \<le> kMaxJsonDepth"
  by (simp add: parsed_ok_def)

lemma parseNumber_ok: "depth \<le> kMaxJsonDepth \<Longrightarrow> parsed_ok depth s (parseNumber s)"
proof (rule parsed_okI)
  fix v r
  assume d: "depth \<le> kMaxJsonDepth" and p: "parseNumber s = Inr (v, r)"
  obtain l where l: "s = l @ r" "l \<noteq> []" "v = JNumber (parseDoubleLiteral l) l"
    "\<And>r'. number_stop r' \<Longrightarrow> parseNumber (l @ r') = Inr (v, r')"
    by (rule parseNumber_piece [OF p]) blast
  then show "length r < length s \<and> json_ok v \<and> depth + nesting v \<le> kMaxJsonDepth"
    using d l(4) [of "[]"] by (simp add: number_stop_def)
qed

lemma tl_skip_shorter: "skipWhitespace s \<noteq> [] \<Longrightarrow> length (tl (skipWhitespace s)) < length s"
  using skipWhitespace_length [of s] by (cases "skipWhitespace s") auto

lemma peek_nonempty: "peek s = c \<Longrightarrow> c \<noteq> CHR 0x00 \<Longrightarrow> s \<noteq> []"
  by auto

lemma parse_ok:
  "parsed_ok depth rest (parseValue fuel depth rest)"
  "distinct (map fst ms) \<and> members_ok ms \<and> depth + members_nesting ms \<le> kMaxJsonDepth \<Longrightarrow>
     parsed_ok depth rest (parseMembers fuel depth ms rest)"
  "items_ok vs \<and> depth + items_nesting vs \<le> kMaxJsonDepth \<Longrightarrow>
     parsed_ok depth rest (parseElements fuel depth vs rest)"
proof (induction fuel depth rest and fuel depth ms rest and fuel depth vs rest
    rule: parseValue_parseMembers_parseElements.induct)
  case (2 fuel depth rest)
  show ?case
  proof (rule parsed_okI)
    fix v r
    assume p: "parseValue (Suc fuel) depth rest = Inr (v, r)"
    have d: "depth \<le> kMaxJsonDepth" using p by (auto split: if_splits)
    obtain c cs where s: "rest = c # cs" using p d by (cases rest) auto
    have sk: "length (skipWhitespace cs) \<le> length cs" by (rule skipWhitespace_length)
    consider "c = CHR 0x7B" | "c = CHR 0x5B" | "c = CHR 0x22" | "c = CHR ''t''" | "c = CHR ''f''"
      | "c = CHR ''n''" | "c \<notin> {CHR 0x7B, CHR 0x5B, CHR 0x22, CHR ''t'', CHR ''f'', CHR ''n''}"
      by blast
    then show "length r < length rest \<and> json_ok v \<and> depth + nesting v \<le> kMaxJsonDepth"
    proof cases
      case 1
      then show ?thesis
      proof (cases "peek (skipWhitespace cs) = CHR 0x7D")
        case False
        then have "parsed_ok depth (skipWhitespace cs) (Inr (v, r))"
          using "2.IH"(1) [of c cs] p d s 1 by (auto simp: not_less)
        then show ?thesis using sk s by (auto dest!: parsed_okD)
      qed (use p d s sk in auto)
    next
      case 2
      then show ?thesis
      proof (cases "peek (skipWhitespace cs) = CHR 0x5D")
        case False
        then have "parsed_ok depth (skipWhitespace cs) (Inr (v, r))"
          using "2.IH"(2) [of c cs] p d s 2 by (auto simp: not_less)
        then show ?thesis using sk s by (auto dest!: parsed_okD)
      qed (use p d s sk in auto)
    next
      case 3
      then show ?thesis using p d s parseString_shorter [of rest]
        by (fastforce simp: not_less split: sum.splits)
    next
      case 7
      then show ?thesis using p d s parseNumber_ok [OF d, of rest]
        by (auto simp: not_less parsed_ok_def)
    next
      case 4
      then show ?thesis using p d s parse_literal_result [of "''true''" "JBool True" rest v r]
        by (simp add: not_less)
    next
      case 5
      then show ?thesis using p d s parse_literal_result [of "''false''" "JBool False" rest v r]
        by (simp add: not_less)
    next
      case 6
      then show ?thesis using p d s parse_literal_result [of "''null''" JNull rest v r]
        by (simp add: not_less)
    qed
  qed
next
  case (4 fuel depth ms rest)
  show ?case
  proof (rule parsed_okI)
    fix v r
    assume p: "parseMembers (Suc fuel) depth ms rest = Inr (v, r)"
    have q: "peek (skipWhitespace rest) = CHR 0x22" using p by (auto split: if_splits)
    obtain key r2 where k: "parseString (skipWhitespace rest) = Inr (key, r2)"
      using p q by (auto split: sum.splits)
    obtain r3 where e: "expect (CHR '':'') (skipWhitespace r2) = Inr ((), r3)"
      using p q k by (auto split: sum.splits)
    obtain w r4 where w: "parseValue fuel (depth + 1) (skipWhitespace r3) = Inr (w, r4)"
      using p q k e by (auto split: sum.splits)
    have ok: "json_ok w" "depth + 1 + nesting w \<le> kMaxJsonDepth" "length r4 < length (skipWhitespace r3)"
      using "4.IH"(1) [of "(key, r2)" key r2 "((), r3)" "()" r3] q k e w by (auto dest: parsed_okD)
    have len: "length r4 < length rest"
      using ok(3) skipWhitespace_length [of r3] e skipWhitespace_length [of r2] parseString_shorter [OF k]
        skipWhitespace_length [of rest] by (auto simp: expect_Inr)
    let ?ms = "put_member key w ms"
    have good: "distinct (map fst ?ms) \<and> members_ok ?ms \<and> depth + members_nesting ?ms \<le> kMaxJsonDepth"
      using "4.prems" ok put_member_ok(1) [of ms w key] put_member_ok(2) [of key w ms]
      by (auto simp: put_member_keys)
    show "length r < length rest \<and> json_ok v \<and> depth + nesting v \<le> kMaxJsonDepth"
    proof (cases "peek (skipWhitespace r4) = CHR '',''")
      case True
      have t: "length (tl (skipWhitespace r4)) < length r4"
        using True by (intro tl_skip_shorter) auto
      have "peek (skipWhitespace (tl (skipWhitespace r4))) \<noteq> CHR 0x7D"
        using p q k e w True by (auto split: if_splits)
      then have "parsed_ok depth (skipWhitespace (tl (skipWhitespace r4))) (Inr (v, r))"
        using "4.IH"(2) [of "(key, r2)" key r2 "((), r3)" "()" r3 "(w, r4)" w r4] good p q k e w True
        by auto
      then show ?thesis using t len skipWhitespace_length [of "tl (skipWhitespace r4)"]
        by (auto dest!: parsed_okD)
    next
      case False
      then have "v = JObject ?ms" "skipWhitespace r4 = CHR 0x7D # r"
        using p q k e w by (auto simp: expect_Inr split: sum.splits)
      then show ?thesis using good len skipWhitespace_length [of r4] by auto
    qed
  qed
next
  case (6 fuel depth vs rest)
  show ?case
  proof (rule parsed_okI)
    fix v r
    assume p: "parseElements (Suc fuel) depth vs rest = Inr (v, r)"
    obtain w r2 where w: "parseValue fuel (depth + 1) (skipWhitespace rest) = Inr (w, r2)"
      using p by (auto split: sum.splits)
    have ok: "json_ok w" "depth + 1 + nesting w \<le> kMaxJsonDepth" "length r2 < length (skipWhitespace rest)"
      using "6.IH"(1) w by (auto dest: parsed_okD)
    have len: "length r2 < length rest" using ok(3) skipWhitespace_length [of rest] by simp
    have good: "items_ok (vs @ [w]) \<and> depth + items_nesting (vs @ [w]) \<le> kMaxJsonDepth"
      using "6.prems" ok by auto
    show "length r < length rest \<and> json_ok v \<and> depth + nesting v \<le> kMaxJsonDepth"
    proof (cases "peek (skipWhitespace r2) = CHR '',''")
      case True
      have t: "length (tl (skipWhitespace r2)) < length r2"
        using True by (intro tl_skip_shorter) auto
      have "peek (skipWhitespace (tl (skipWhitespace r2))) \<noteq> CHR 0x5D"
        using p w True by (auto split: if_splits)
      then have "parsed_ok depth (skipWhitespace (tl (skipWhitespace r2))) (Inr (v, r))"
        using "6.IH"(2) [of "(w, r2)" w r2] good p w True by auto
      then show ?thesis using t len skipWhitespace_length [of "tl (skipWhitespace r2)"]
        by (auto dest!: parsed_okD)
    next
      case False
      then have "v = JArray (vs @ [w])" "skipWhitespace r2 = CHR 0x5D # r"
        using p w by (auto simp: expect_Inr split: sum.splits)
      then show ?thesis using good len skipWhitespace_length [of r2] by auto
    qed
  qed
qed (auto simp: parsed_ok_def)

lemma parseValue_shorter: "parseValue fuel depth s = Inr (v, r) \<Longrightarrow> length r < length s"
  using parse_ok(1) [of depth s fuel] by (auto dest: parsed_okD)

text \<open>
  A call stops within a text: it returns, or it fails with the offset of a position of that
  text. Running out of fuel is neither.
\<close>

definition stops_within :: "string \<Rightarrow> (parse_stop + 'a) \<Rightarrow> bool" where
  "stops_within s res \<longleftrightarrow>
     (\<forall>e. res = Inl e \<longrightarrow> (\<exists>left message. e = Syntax left message \<and> left \<le> length s))"

lemma stops_within_simps [simp]:
  "stops_within s (Inr x)" "\<not> stops_within s (Inl Fuel)"
  "stops_within s (json_fail s' m) \<longleftrightarrow> length s' \<le> length s"
  "stops_within s (Inl (Syntax left message)) \<longleftrightarrow> left \<le> length s"
  by (auto simp: stops_within_def json_fail_def)

lemma stops_within_mono: "stops_within s' res \<Longrightarrow> length s' \<le> length s \<Longrightarrow> stops_within s res"
  by (force simp: stops_within_def)

lemma stops_within_bind:
  assumes "stops_within s res" "\<And>y. res = Inr y \<Longrightarrow> stops_within s (f y)"
  shows "stops_within s (case res of Inl e \<Rightarrow> Inl e | Inr y \<Rightarrow> f y)"
  using assms by (cases res) (auto simp: stops_within_def)

lemma stops_within_bind2:
  assumes "stops_within s res" "\<And>x r. res = Inr (x, r) \<Longrightarrow> stops_within s (f x r)"
  shows "stops_within s (case res of Inl e \<Rightarrow> Inl e | Inr (x, r) \<Rightarrow> f x r)"
  using assms by (cases res) (auto simp: stops_within_def)

lemma expect_within: "stops_within s (expect c s)"
  by (cases s) auto

lemma parseHex4_within: "stops_within s (parseHex4 s)"
  by (simp add: parseHex4_def split: option.split)

lemma unicode_escape_within: "stops_within s (unicode_escape s)"
  unfolding unicode_escape_def
proof (rule stops_within_bind2 [OF parseHex4_within])
  fix cp r
  assume r: "parseHex4 s = Inr (cp, r)"
  have "stops_within s (parseHex4 (drop 2 r))"
    by (rule stops_within_mono [OF parseHex4_within]) (use parseHex4_shorter [OF r] in simp)
  then have "stops_within s (case parseHex4 (drop 2 r) of Inl e \<Rightarrow> Inl e
      | Inr (low, rest3) \<Rightarrow> if low < 0xDC00 \<or> low > 0xDFFF
          then json_fail rest3 ''high surrogate not followed by a low surrogate''
          else Inr (encode (0x10000 + push_bit 10 (cp - 0xD800) + (low - 0xDC00)), rest3))"
    by (rule stops_within_bind2) (use parseHex4_shorter [OF r] in \<open>auto dest: parseHex4_shorter\<close>)
  then show "stops_within s (if cp \<ge> 0xD800 \<and> cp \<le> 0xDBFF then
      (if take 2 r = [CHR 0x5C, CHR ''u''] then
         (case parseHex4 (drop 2 r) of Inl e \<Rightarrow> Inl e
          | Inr (low, rest3) \<Rightarrow> if low < 0xDC00 \<or> low > 0xDFFF
              then json_fail rest3 ''high surrogate not followed by a low surrogate''
              else Inr (encode (0x10000 + push_bit 10 (cp - 0xD800) + (low - 0xDC00)), rest3))
       else json_fail r ''unpaired high surrogate'')
     else if cp \<ge> 0xDC00 \<and> cp \<le> 0xDFFF then json_fail r ''unpaired low surrogate''
     else Inr (encode cp, r))"
    using parseHex4_shorter [OF r] by simp
qed

lemma string_loop_within: "stops_within s (string_loop out s)"
proof (induction out s rule: string_loop.induct)
  case (2 out c cs)
  show ?case
  proof (cases "c = CHR 0x22 \<or> byte_of c < 0x20 \<or> c \<noteq> CHR 0x5C")
    case True
    then show ?thesis using 2(1) by (auto intro: stops_within_mono)
  next
    case False
    show ?thesis
    proof (cases cs)
      case (Cons e es)
      have u: "stops_within (c # cs) (case unicode_escape es of Inl x \<Rightarrow> Inl x
          | Inr (t, r) \<Rightarrow> string_loop (out @ t) r)" if esc: "simple_escape e = None" "e = CHR ''u''"
      proof (rule stops_within_bind2)
        show "stops_within (c # cs) (unicode_escape es)"
          by (rule stops_within_mono [OF unicode_escape_within]) (simp add: Cons)
        fix t r
        assume t: "unicode_escape es = Inr (t, r)"
        have "stops_within r (string_loop (out @ t) r)"
          using False by (intro 2(2) [OF _ _ _ Cons esc t refl]) auto
        then show "stops_within (c # cs) (string_loop (out @ t) r)"
          by (rule stops_within_mono) (use unicode_escape_shorter [OF t] Cons in simp)
      qed
      have v: "stops_within (c # cs) (string_loop (out @ [d]) es)" if "simple_escape e = Some d" for d
      proof (rule stops_within_mono)
        show "stops_within es (string_loop (out @ [d]) es)"
          using False by (intro 2(3) [OF _ _ _ Cons that]) auto
      qed (simp add: Cons)
      show ?thesis
      proof (cases "simple_escape e")
        case None
        then show ?thesis using False Cons u by (cases "e = CHR ''u''") (simp_all del: split_paired_All)
      next
        case (Some d)
        then show ?thesis using False Cons v [OF Some] by simp
      qed
    qed (use False in simp)
  qed
qed simp

lemma parseString_within: "stops_within s (parseString s)"
  unfolding parseString_def
  by (intro stops_within_bind2 [OF expect_within] stops_within_mono [OF string_loop_within])
    (auto simp: expect_Inr)

lemma number_integer_within: "stops_within s (number_integer s)"
  by (cases s) (auto simp: number_integer_def)

lemma number_fraction_within: "stops_within s (number_fraction s)"
  by (cases s) (auto simp: number_fraction_def)

lemma number_exponent_within: "stops_within s (number_exponent s)"
  by (cases s; cases "tl s") (auto simp: number_exponent_def Let_def)

lemma parseNumber_within: "stops_within s (parseNumber s)"
proof -
  define s1 where "s1 = (if minus_sign s then tl s else s)"
  have l1: "length s1 \<le> length s" by (simp add: s1_def)
  show ?thesis
    unfolding parseNumber_def s1_def [symmetric]
  proof (rule stops_within_bind)
    show "stops_within s (number_integer s1)"
      by (rule stops_within_mono [OF number_integer_within l1])
    fix r2
    assume r2: "number_integer s1 = Inr r2"
    obtain c where "s1 = c @ r2" "digit_stop r2"
      by (rule number_integer_piece [OF r2]) blast
    then have l2: "length r2 \<le> length s" "digit_stop r2" using l1 by simp_all
    show "stops_within s (case number_fraction r2 of Inl e \<Rightarrow> Inl e
        | Inr rest3 \<Rightarrow> (case number_exponent rest3 of Inl e \<Rightarrow> Inl e
          | Inr rest4 \<Rightarrow> let text = take (length s - length rest4) s
              in Inr (JNumber (parseDoubleLiteral text) text, rest4)))"
    proof (rule stops_within_bind)
      show "stops_within s (number_fraction r2)"
        by (rule stops_within_mono [OF number_fraction_within l2(1)])
      fix r3
      assume r3: "number_fraction r2 = Inr r3"
      obtain d where "r2 = d @ r3" by (rule number_fraction_piece [OF r3 l2(2)]) blast
      then have l3: "length r3 \<le> length s" using l2(1) by simp
      show "stops_within s (case number_exponent r3 of Inl e \<Rightarrow> Inl e
          | Inr rest4 \<Rightarrow> let text = take (length s - length rest4) s
              in Inr (JNumber (parseDoubleLiteral text) text, rest4))"
        by (rule stops_within_bind [OF stops_within_mono [OF number_exponent_within l3]]) (simp add: Let_def)
    qed
  qed
qed

lemma parse_literal_within: "stops_within s (parse_literal w v s)"
  by (simp add: parse_literal_def)

lemma parse_stops_within:
  "2 * length rest + 1 \<le> fuel \<Longrightarrow> stops_within rest (parseValue fuel depth rest)"
  "2 * length rest + 2 \<le> fuel \<Longrightarrow> stops_within rest (parseMembers fuel depth ms rest)"
  "2 * length rest + 2 \<le> fuel \<Longrightarrow> stops_within rest (parseElements fuel depth vs rest)"
proof (induction fuel depth rest and fuel depth ms rest and fuel depth vs rest
    rule: parseValue_parseMembers_parseElements.induct)
  case (2 fuel depth rest)
  show ?case
  proof (cases rest)
    case (Cons c cs)
    have l: "length (skipWhitespace cs) \<le> length cs" by (rule skipWhitespace_length)
    then have "2 * length (skipWhitespace cs) + 2 \<le> fuel" using "2.prems" Cons by simp
    then have "depth \<le> kMaxJsonDepth \<Longrightarrow> c = CHR 0x7B \<Longrightarrow> peek (skipWhitespace cs) \<noteq> CHR 0x7D \<Longrightarrow>
        stops_within rest (parseMembers fuel depth [] (skipWhitespace cs))"
      "depth \<le> kMaxJsonDepth \<Longrightarrow> c = CHR 0x5B \<Longrightarrow> peek (skipWhitespace cs) \<noteq> CHR 0x5D \<Longrightarrow>
        stops_within rest (parseElements fuel depth [] (skipWhitespace cs))"
      using "2.IH" [OF _ Cons] Cons l by (auto simp: not_less intro: stops_within_mono)
    moreover have "stops_within rest (case parseString rest of Inl e \<Rightarrow> Inl e
        | Inr (s, rest2) \<Rightarrow> Inr (JString s, rest2))"
      by (rule stops_within_bind2 [OF parseString_within]) simp
    ultimately show ?thesis
      using Cons parse_literal_within [of rest] parseNumber_within [of rest] by auto
  qed simp
next
  case (4 fuel depth ms rest)
  have l1: "length (skipWhitespace rest) \<le> length rest" by (rule skipWhitespace_length)
  show ?case
  proof (cases "peek (skipWhitespace rest) = CHR 0x22")
    case q: True
    show ?thesis
      unfolding parseMembers.simps q simp_thms if_False
    proof (rule stops_within_bind2)
      show "stops_within rest (parseString (skipWhitespace rest))"
        by (rule stops_within_mono [OF parseString_within l1])
      fix key r2
      assume k: "parseString (skipWhitespace rest) = Inr (key, r2)"
      have l2: "length (skipWhitespace r2) + 2 \<le> length rest"
        using parseString_shorter [OF k] l1 skipWhitespace_length [of r2] by simp
      show "stops_within rest (case expect (CHR '':'') (skipWhitespace r2) of Inl e \<Rightarrow> Inl e
        | Inr (_, rest3) \<Rightarrow> (case parseValue fuel (depth + 1) (skipWhitespace rest3) of Inl e \<Rightarrow> Inl e
          | Inr (value, rest4) \<Rightarrow>
              if peek (skipWhitespace rest4) = CHR '','' then
                (if peek (skipWhitespace (tl (skipWhitespace rest4))) = CHR 0x7D
                 then json_fail (skipWhitespace (tl (skipWhitespace rest4))) ''trailing comma in object''
                 else parseMembers fuel depth (put_member key value ms)
                        (skipWhitespace (tl (skipWhitespace rest4))))
              else (case expect (CHR 0x7D) (skipWhitespace rest4) of Inl e \<Rightarrow> Inl e
                | Inr (_, rest5) \<Rightarrow> Inr (JObject (put_member key value ms), rest5))))"
      proof (rule stops_within_bind2)
        show "stops_within rest (expect (CHR '':'') (skipWhitespace r2))"
          by (rule stops_within_mono [OF expect_within]) (use l2 in simp)
        fix u r3
        assume e: "expect (CHR '':'') (skipWhitespace r2) = Inr (u, r3)"
        then have l3: "length (skipWhitespace r3) + 3 \<le> length rest"
          using l2 skipWhitespace_length [of r3] by (simp add: expect_Inr)
        show "stops_within rest (case parseValue fuel (depth + 1) (skipWhitespace r3) of Inl e \<Rightarrow> Inl e
          | Inr (value, rest4) \<Rightarrow>
              if peek (skipWhitespace rest4) = CHR '','' then
                (if peek (skipWhitespace (tl (skipWhitespace rest4))) = CHR 0x7D
                 then json_fail (skipWhitespace (tl (skipWhitespace rest4))) ''trailing comma in object''
                 else parseMembers fuel depth (put_member key value ms)
                        (skipWhitespace (tl (skipWhitespace rest4))))
              else (case expect (CHR 0x7D) (skipWhitespace rest4) of Inl e \<Rightarrow> Inl e
                | Inr (_, rest5) \<Rightarrow> Inr (JObject (put_member key value ms), rest5)))"
        proof (rule stops_within_bind2)
          show "stops_within rest (parseValue fuel (depth + 1) (skipWhitespace r3))"
            by (rule stops_within_mono [OF "4.IH"(1) [of "(key, r2)" key r2 "(u, r3)" u r3]])
              (use q k e l3 "4.prems" in auto)
          fix w r4
          assume w: "parseValue fuel (depth + 1) (skipWhitespace r3) = Inr (w, r4)"
          have l4: "length (skipWhitespace r4) + 3 \<le> length rest"
            using parseValue_shorter [OF w] l3 skipWhitespace_length [of r4] by simp
          then have l5: "length (skipWhitespace (tl (skipWhitespace r4))) + 3 \<le> length rest"
            using skipWhitespace_length [of "tl (skipWhitespace r4)"] by simp
          show "stops_within rest (if peek (skipWhitespace r4) = CHR '','' then
                (if peek (skipWhitespace (tl (skipWhitespace r4))) = CHR 0x7D
                 then json_fail (skipWhitespace (tl (skipWhitespace r4))) ''trailing comma in object''
                 else parseMembers fuel depth (put_member key w ms)
                        (skipWhitespace (tl (skipWhitespace r4))))
              else (case expect (CHR 0x7D) (skipWhitespace r4) of Inl e \<Rightarrow> Inl e
                | Inr (_, rest5) \<Rightarrow> Inr (JObject (put_member key w ms), rest5)))"
            using l4 l5 "4.prems"
              "4.IH"(2) [of "(key, r2)" key r2 "(u, r3)" u r3 "(w, r4)" w r4] q k e w
            by (auto intro!: stops_within_bind2 intro: stops_within_mono stops_within_mono [OF expect_within])
        qed
      qed
    qed
  qed (use l1 in simp)
next
  case (6 fuel depth vs rest)
  have l1: "length (skipWhitespace rest) \<le> length rest" by (rule skipWhitespace_length)
  show ?case
    unfolding parseElements.simps
  proof (rule stops_within_bind2)
    show "stops_within rest (parseValue fuel (depth + 1) (skipWhitespace rest))"
      by (rule stops_within_mono [OF "6.IH"(1) l1]) (use "6.prems" l1 in simp)
    fix w r2
    assume w: "parseValue fuel (depth + 1) (skipWhitespace rest) = Inr (w, r2)"
    have l2: "length (skipWhitespace r2) + 1 \<le> length rest"
      using parseValue_shorter [OF w] l1 skipWhitespace_length [of r2] by simp
    have l3: "length (skipWhitespace (tl (skipWhitespace r2))) + 1 \<le> length rest"
      "skipWhitespace r2 \<noteq> [] \<Longrightarrow> length (skipWhitespace (tl (skipWhitespace r2))) + 2 \<le> length rest"
      using l2 skipWhitespace_length [of "tl (skipWhitespace r2)"] by (cases "skipWhitespace r2"; simp)+
    have "peek (skipWhitespace r2) = CHR '','' \<Longrightarrow> skipWhitespace r2 \<noteq> []" by auto
    then show "stops_within rest (if peek (skipWhitespace r2) = CHR '','' then
            (if peek (skipWhitespace (tl (skipWhitespace r2))) = CHR 0x5D
             then json_fail (skipWhitespace (tl (skipWhitespace r2))) ''trailing comma in array''
             else parseElements fuel depth (vs @ [w])
                    (skipWhitespace (tl (skipWhitespace r2))))
          else (case expect (CHR 0x5D) (skipWhitespace r2) of Inl e \<Rightarrow> Inl e
            | Inr (_, rest3) \<Rightarrow> Inr (JArray (vs @ [w]), rest3)))"
      using l2 l3 "6.prems" "6.IH"(2) [of "(w, r2)" w r2] w
      by (auto intro!: stops_within_bind2 intro: stops_within_mono stops_within_mono [OF expect_within])
  qed
qed simp_all

section \<open>Reading back what was written\<close>

lemma byte_small: "byte_of c < 0x20 \<longleftrightarrow> (of_char c :: nat) < 32"
  by (simp add: word_less_nat_alt)

lemma hex_upper_digit: "k < 16 \<Longrightarrow> hex_digit (hex_upper k) = Some (of_nat k)"
  by (simp add: hex_digit_def hex_upper_def)

lemma hex_digit_zero: "hex_digit (CHR ''0'') = Some 0"
  by (simp add: hex_digit_def)

lemma two_hex_digits:
  "list_all (\<lambda>n. push_bit 4 (of_nat (n div 16)) OR of_nat (n mod 16) = (of_nat n :: u32)) [0..<32]"
  by (simp add: upt_conv_Cons)

lemma control_escapes:
  assumes "n < 32"
  shows "hex_value 0 [CHR ''0'', CHR ''0'', hex_upper (n div 16), hex_upper (n mod 16)] = Some (of_nat n)"
    "encode (of_nat n) = [char_of n]" "(of_nat n :: u32) < 0xD800"
proof -
  have "push_bit 4 (of_nat (n div 16)) OR of_nat (n mod 16) = (of_nat n :: u32)"
    using two_hex_digits assms by (simp add: list_all_iff)
  then show "hex_value 0 [CHR ''0'', CHR ''0'', hex_upper (n div 16), hex_upper (n mod 16)] =
      Some (of_nat n)"
    using assms by (simp add: hex_digit_zero hex_upper_digit)
  have u: "unat (of_nat n :: u32) = n" using assms by (simp add: unat_of_nat)
  then show "(of_nat n :: u32) < 0xD800" using assms by (simp add: word_less_nat_alt)
  have "unat (ucast (of_nat n :: u32) :: u8) = n" using u assms by (simp add: unat_ucast_down)
  moreover have "(of_nat n :: u32) < 0x80" using u assms by (simp add: word_less_nat_alt)
  ultimately show "encode (of_nat n) = [char_of n]"
    by (simp add: encode_ascii(1) char_of_byte_def)
qed

lemma string_loop_escape: "string_loop out (escape_char c @ r) = string_loop (out @ [c]) r"
proof -
  consider "c \<in> {CHR 0x22, CHR 0x5C, CHR 0x08, CHR 0x0C, CHR 0x0A, CHR 0x0D, CHR 0x09}"
    | "c \<notin> {CHR 0x22, CHR 0x5C, CHR 0x08, CHR 0x0C, CHR 0x0A, CHR 0x0D, CHR 0x09}" "byte_of c < 0x20"
    | "c \<notin> {CHR 0x22, CHR 0x5C, CHR 0x08, CHR 0x0C, CHR 0x0A, CHR 0x0D, CHR 0x09}" "\<not> byte_of c < 0x20"
    by blast
  then show ?thesis
  proof cases
    case 1
    then show ?thesis by (auto simp: escape_char_def simple_escape_def byte_small)
  next
    case 2
    define n where "n = (of_char c :: nat)"
    have n: "n < 32" "char_of n = c" using 2(2) by (simp_all add: n_def byte_small)
    have h: "hex_value 0 [CHR ''0'', CHR ''0'', hex_upper (n div 16), hex_upper (n mod 16)] =
       Some (of_nat n)" "encode (of_nat n) = [c]" "\<not> (0xD800 \<le> (of_nat n :: u32))"
      using control_escapes [OF n(1)] n(2) by (simp_all add: not_le)
    then have "\<not> (0xDC00 \<le> (of_nat n :: u32))"
      using order.trans [of "0xD800" "0xDC00 :: u32"] by fastforce
    have "unicode_escape ([CHR ''0'', CHR ''0'', hex_upper (n div 16), hex_upper (n mod 16)] @ r) =
       Inr ([c], r)"
      using h \<open>\<not> (0xDC00 \<le> (of_nat n :: u32))\<close> by (simp add: unicode_escape_def parseHex4_def)
    moreover have "escape_char c = [CHR 0x5C, CHR ''u'', CHR ''0'', CHR ''0'', hex_upper (n div 16),
        hex_upper (n mod 16)]"
      using 2 by (simp add: escape_char_def n_def)
    ultimately show ?thesis by (simp add: byte_small simple_escape_def)
  next
    case 3
    then show ?thesis by (simp add: escape_char_def)
  qed
qed

lemma string_loop_escapes:
  "string_loop out (concat (map escape_char s) @ CHR 0x22 # r) = Inr (out @ s, r)"
  by (induction s arbitrary: out) (simp_all add: string_loop_escape)

lemma parseString_escapeInto: "parseString (escapeInto s @ r) = Inr (s, r)"
  using string_loop_escapes [of "[]" s r] by (simp add: parseString_def escapeInto_def)

lemma dropWhile_replicate: "P c \<Longrightarrow> dropWhile P (replicate n c @ s) = dropWhile P s"
  by (induction n) simp_all

lemma skip_line_pad [simp]: "skipWhitespace (line_pad p i @ s) = skipWhitespace s"
  by (simp add: line_pad_def skipWhitespace_def dropWhile_replicate is_blank_def)

lemma escapeInto_head: "escapeInto s = CHR 0x22 # concat (map escape_char s) @ [CHR 0x22]"
  by (simp add: escapeInto_def)

text \<open>The first character of a written value decides nothing but the value.\<close>

lemma number_head:
  assumes "json_ok (JNumber v l)"
  shows "l \<noteq> []" "hd l = CHR ''-'' \<or> is_digit (hd l)"
    "number_stop r \<Longrightarrow> parseNumber (l @ r) = Inr (JNumber v l, r)"
proof -
  obtain l' where l: "l = l' @ []" "l' \<noteq> []" "hd l' = CHR ''-'' \<or> is_digit (hd l')"
    "\<And>r'. number_stop r' \<Longrightarrow> parseNumber (l' @ r') = Inr (JNumber v l, r')"
    using assms by (auto elim!: parseNumber_piece)
  then show "l \<noteq> []" "hd l = CHR ''-'' \<or> is_digit (hd l)"
    "number_stop r \<Longrightarrow> parseNumber (l @ r) = Inr (JNumber v l, r)" by simp_all
qed

definition value_head :: "char \<Rightarrow> bool" where
  "value_head c \<longleftrightarrow> \<not> is_blank c \<and> c \<noteq> CHR 0x5D \<and> c \<noteq> CHR 0x7D"

lemma digit_head: "is_digit c \<Longrightarrow> value_head c"
  "is_digit c \<Longrightarrow> c \<notin> {CHR 0x7B, CHR 0x5B, CHR 0x22, CHR ''t'', CHR ''f'', CHR ''n''}"
  by (auto simp: is_digit_def value_head_def is_blank_def TAB_def NL_def CR_def)

lemma written_head:
  assumes "json_ok v"
  shows "\<exists>c cs. writeInto p i v = c # cs \<and> value_head c"
proof (cases v)
  case (JNumber x l)
  then obtain c cs where "l = c # cs" "c = CHR ''-'' \<or> is_digit c"
    using number_head(1,2) [of x l] assms by (cases l) auto
  then show ?thesis using JNumber digit_head
    by (auto simp: value_head_def is_blank_def TAB_def NL_def CR_def)
qed (auto simp: escapeInto_head value_head_def is_blank_def TAB_def NL_def CR_def)

lemma skip_written: "json_ok v \<Longrightarrow> skipWhitespace (writeInto p i v @ r) = writeInto p i v @ r"
  using written_head [of v p i] by (auto simp: skipWhitespace_def value_head_def)

lemma parse_skips [simp]:
  "parseElements fuel depth vs (skipWhitespace s) = parseElements fuel depth vs s"
  "parseMembers fuel depth ms (skipWhitespace s) = parseMembers fuel depth ms s"
  by (cases fuel; simp)+

lemma skip_char: "\<not> is_blank c \<Longrightarrow> skipWhitespace (c # s) = c # s"
  by (simp add: skipWhitespace_def)

lemma blank_facts: "\<not> is_blank (CHR '','')" "\<not> is_blank (CHR '':'')" "\<not> is_blank (CHR 0x5D)"
  "\<not> is_blank (CHR 0x7D)" "\<not> is_blank (CHR 0x22)" "is_blank (CHR '' '')"
  by (simp_all add: is_blank_def TAB_def NL_def CR_def)

lemma stop_after_value:
  "number_stop (CHR '','' # r)" "number_stop (line_pad p j @ CHR 0x5D # r)"
  "number_stop (line_pad p j @ CHR 0x7D # r)"
  by (simp_all add: number_stop_def line_pad_def NL_def is_digit_def)

lemma written_peek:
  assumes "items_ok vs" "vs \<noteq> []"
  shows "peek (skipWhitespace (write_items p i vs @ r)) \<noteq> CHR 0x5D"
proof -
  obtain v ws where v: "vs = v # ws" using assms(2) by (cases vs) auto
  obtain c cs where "writeInto p i v = c # cs" "value_head c"
    using written_head [of v p i] assms v by auto
  then show ?thesis using v by (simp add: skipWhitespace_def value_head_def
        skip_line_pad [unfolded skipWhitespace_def])
qed

lemma written_members_peek:
  "ms \<noteq> [] \<Longrightarrow> peek (skipWhitespace (write_members p i ms @ r)) = CHR 0x22"
  by (cases ms) (auto simp: escapeInto_head skip_char blank_facts)

lemma parseElements_step:
  assumes "parseValue fuel (depth + 1) (writeInto p i v @ rest) = Inr (v, rest)" "json_ok v"
  shows "parseElements (Suc fuel) depth acc (line_pad p i @ writeInto p i v @ rest) =
    (if peek (skipWhitespace rest) = CHR '','' then
       (if peek (skipWhitespace (tl (skipWhitespace rest))) = CHR 0x5D
        then json_fail (skipWhitespace (tl (skipWhitespace rest))) ''trailing comma in array''
        else parseElements fuel depth (acc @ [v]) (tl (skipWhitespace rest)))
     else (case expect (CHR 0x5D) (skipWhitespace rest) of
         Inl e \<Rightarrow> Inl e
       | Inr (_, rest3) \<Rightarrow> Inr (JArray (acc @ [v]), rest3)))"
  using assms by (simp add: skip_written)

lemma parseMembers_step:
  assumes "parseValue fuel (depth + 1) (writeInto p i v @ rest) = Inr (v, rest)" "json_ok v"
  shows "parseMembers (Suc fuel) depth acc
      (line_pad p i @ escapeInto key @ (if q then '': '' else '':'') @ writeInto p i v @ rest) =
    (if peek (skipWhitespace rest) = CHR '','' then
       (if peek (skipWhitespace (tl (skipWhitespace rest))) = CHR 0x7D
        then json_fail (skipWhitespace (tl (skipWhitespace rest))) ''trailing comma in object''
        else parseMembers fuel depth (put_member key v acc) (tl (skipWhitespace rest)))
     else (case expect (CHR 0x7D) (skipWhitespace rest) of
         Inl e \<Rightarrow> Inl e
       | Inr (_, rest3) \<Rightarrow> Inr (JObject (put_member key v acc), rest3)))"
proof -
  have k: "skipWhitespace (escapeInto key @ s) = escapeInto key @ s" for s
    by (simp add: escapeInto_head skip_char blank_facts)
  have h: "peek (escapeInto key @ s) = CHR 0x22" for s by (simp add: escapeInto_head)
  have c: "skipWhitespace ((if q then '': '' else '':'') @ s) = (if q then '': '' else '':'') @ s" for s
    by (simp add: skip_char blank_facts)
  have e: "skipWhitespace (tl ((if q then '': '' else '':'') @ writeInto p i v @ rest)) =
      writeInto p i v @ rest"
    using skip_written [OF assms(2), of p i rest]
    by (simp add: skipWhitespace_def blank_facts)
  have x: "expect (CHR '':'') ((if q then '': '' else '':'') @ s) =
      Inr ((), tl ((if q then '': '' else '':'') @ s))" for s
    by simp
  show ?thesis
    by (simp only: parseMembers.simps skip_line_pad k h c e x parseString_escapeInto assms(1)
        parse_skips sum.case prod.case simp_thms if_False)
qed

lemma read_back:
  "json_ok v \<Longrightarrow> depth + nesting v \<le> kMaxJsonDepth \<Longrightarrow>
     2 * length (writeInto p i v) + 1 \<le> fuel \<Longrightarrow> number_stop r \<Longrightarrow>
     parseValue fuel depth (writeInto p i v @ r) = Inr (v, r)"
  "items_ok vs \<Longrightarrow> vs \<noteq> [] \<Longrightarrow> depth + items_nesting vs \<le> kMaxJsonDepth \<Longrightarrow>
     2 * length (write_items p i vs) + 2 \<le> fuel \<Longrightarrow>
     parseElements fuel depth acc (write_items p i vs @ line_pad p j @ CHR 0x5D # r) =
       Inr (JArray (acc @ vs), r)"
  "members_ok ms \<Longrightarrow> ms \<noteq> [] \<Longrightarrow> distinct (map fst (macc @ ms)) \<Longrightarrow>
     depth + members_nesting ms \<le> kMaxJsonDepth \<Longrightarrow>
     2 * length (write_members p i ms) + 2 \<le> fuel \<Longrightarrow>
     parseMembers fuel depth macc (write_members p i ms @ line_pad p j @ CHR 0x7D # r) =
       Inr (JObject (macc @ ms), r)"
proof (induction p i v and p i vs and p i ms arbitrary: depth fuel r and depth fuel acc j r
    and depth fuel macc j r rule: writeInto_write_items_write_members.induct)
  case (1 p i)
  then show ?case by (cases fuel) (simp_all add: parse_literal_def)
next
  case (2 p i b)
  then show ?case by (cases fuel) (auto simp: parse_literal_def)
next
  case (3 p i v l)
  have n: "l \<noteq> []" "hd l = CHR ''-'' \<or> is_digit (hd l)" "parseNumber (l @ r) = Inr (JNumber v l, r)"
    using number_head [OF 3(1)] 3(4) by simp_all
  obtain c cs where c: "l = c # cs" using n(1) by (cases l) auto
  then have "c \<notin> {CHR 0x7B, CHR 0x5B, CHR 0x22, CHR ''t'', CHR ''f'', CHR ''n''}"
    using n(2) digit_head(2) [of c] by auto
  then show ?case using 3 c n(3) by (cases fuel) (auto simp: not_less)
next
  case (4 p i s)
  then show ?case using parseString_escapeInto [of s r]
    by (cases fuel) (auto simp: escapeInto_head not_less)
next
  case (5 p i vs)
  show ?case
  proof (cases "vs = []")
    case True
    then show ?thesis using 5 by (cases fuel) (auto simp: skip_char blank_facts not_less)
  next
    case False
    obtain f where f: "fuel = Suc f" using 5(4) by (cases fuel) auto
    have "parseElements f depth [] (write_items p (i + 1) vs @ line_pad p i @ CHR 0x5D # r) =
        Inr (JArray ([] @ vs), r)"
      by (rule 5(1)) (use 5 False f in auto)
    then show ?thesis using f False 5 written_peek [of vs p "i + 1"] by (auto simp: not_less)
  qed
next
  case (6 p i ms)
  show ?case
  proof (cases "ms = []")
    case True
    then show ?thesis using 6 by (cases fuel) (auto simp: skip_char blank_facts not_less)
  next
    case False
    obtain f where f: "fuel = Suc f" using 6(4) by (cases fuel) auto
    have "parseMembers f depth [] (write_members p (i + 1) ms @ line_pad p i @ CHR 0x7D # r) =
        Inr (JObject ([] @ ms), r)"
      by (rule 6(1)) (use 6 False f in auto)
    then show ?thesis using f False 6 written_members_peek [of ms p "i + 1"] by (auto simp: not_less)
  qed
next
  case (8 p i v vs)
  obtain f where f: "fuel = Suc f" using 8(6) by (cases fuel) auto
  define rest where "rest = (if vs = [] then line_pad p j @ CHR 0x5D # r
     else CHR '','' # write_items p i vs @ line_pad p j @ CHR 0x5D # r)"
  have s: "write_items p i (v # vs) @ line_pad p j @ CHR 0x5D # r =
      line_pad p i @ writeInto p i v @ rest"
    by (simp add: rest_def)
  have v: "parseValue f (depth + 1) (writeInto p i v @ rest) = Inr (v, rest)"
    by (rule 8(1)) (use 8 f stop_after_value in \<open>auto simp: rest_def\<close>)
  have ok: "json_ok v" using 8(3) by simp
  show ?case
  proof (cases "vs = []")
    case True
    then have "skipWhitespace rest = CHR 0x5D # r" by (simp add: rest_def skip_char blank_facts)
    then show ?thesis unfolding s f parseElements_step [OF v ok] using True by simp
  next
    case False
    then have t: "skipWhitespace rest = CHR '','' # write_items p i vs @ line_pad p j @ CHR 0x5D # r"
      by (simp add: rest_def skip_char blank_facts)
    have "parseElements f depth (acc @ [v]) (write_items p i vs @ line_pad p j @ CHR 0x5D # r) =
        Inr (JArray ((acc @ [v]) @ vs), r)"
      by (rule 8(2)) (use 8 f False in auto)
    then show ?thesis unfolding s f parseElements_step [OF v ok]
      using t written_peek [of vs p i] 8(3) False by simp
  qed
next
  case (10 p i key v ms)
  obtain f where f: "fuel = Suc f" using 10(7) by (cases fuel) auto
  define rest where "rest = (if ms = [] then line_pad p j @ CHR 0x7D # r
     else CHR '','' # write_members p i ms @ line_pad p j @ CHR 0x7D # r)"
  have s: "write_members p i ((key, v) # ms) @ line_pad p j @ CHR 0x7D # r =
      line_pad p i @ escapeInto key @ (if p then '': '' else '':'') @ writeInto p i v @ rest"
    by (simp add: rest_def)
  have v: "parseValue f (depth + 1) (writeInto p i v @ rest) = Inr (v, rest)"
    by (rule 10(1)) (use 10 f stop_after_value in \<open>auto simp: rest_def\<close>)
  have ok: "json_ok v" using 10(3) by simp
  have put: "put_member key v macc = macc @ [(key, v)]"
    using 10(5) by (intro put_member_new) auto
  show ?case
  proof (cases "ms = []")
    case True
    then have "skipWhitespace rest = CHR 0x7D # r" by (simp add: rest_def skip_char blank_facts)
    then show ?thesis unfolding s f parseMembers_step [OF v ok] using True put by simp
  next
    case False
    then have t: "skipWhitespace rest = CHR '','' # write_members p i ms @ line_pad p j @ CHR 0x7D # r"
      by (simp add: rest_def skip_char blank_facts)
    have "parseMembers f depth (macc @ [(key, v)]) (write_members p i ms @ line_pad p j @ CHR 0x7D # r) =
        Inr (JObject ((macc @ [(key, v)]) @ ms), r)"
      by (rule 10(2)) (use 10 f False in auto)
    then show ?thesis unfolding s f parseMembers_step [OF v ok]
      using t written_members_peek [of ms p i] False put by simp
  qed
qed simp_all

section \<open>The properties\<close>

text \<open>
  C32: the parser ends on every text, with a value or with an error that names an offset
  inside the text: its fuel never runs out.
\<close>

theorem json_parser_ends:
  "(\<exists>v. parse_document text = Inr v) \<or>
   (\<exists>left message. parse_document text = Inl (Syntax left message) \<and> left \<le> length text)"
proof -
  have l: "length (skipWhitespace text) \<le> length text" by (rule skipWhitespace_length)
  have "stops_within text (parseValue (parse_fuel text) 0 (skipWhitespace text))"
    by (rule stops_within_mono [OF parse_stops_within(1) l]) (use l in \<open>simp add: parse_fuel_def\<close>)
  then have "stops_within text (parse_document text)"
    unfolding parse_document_def
  proof (rule stops_within_bind2)
    fix v r
    assume "parseValue (parse_fuel text) 0 (skipWhitespace text) = Inr (v, r)"
    then have "length (skipWhitespace r) \<le> length text"
      using parseValue_shorter l skipWhitespace_length [of r] by fastforce
    then show "stops_within text (if skipWhitespace r \<noteq> []
        then json_fail (skipWhitespace r) ''trailing content after the top-level value'' else Inr v)"
      by simp
  qed
  then show ?thesis
    by (cases "parse_document text") (auto simp: stops_within_def)
qed

text \<open>
  C30: a document the parser accepts is nested at most 64 deep and has no key twice in an
  object, and serializing it, compact or indented, gives a text that parses to the same
  document, number literals included.
\<close>

theorem json_round_trip:
  assumes "parseJson text = Inr v"
  shows "nesting v \<le> 64 \<and> json_ok v \<and> parseJson (toJson v pretty) = Inr v"
proof -
  obtain r where r: "parseValue (parse_fuel text) 0 (skipWhitespace text) = Inr (v, r)"
    using assms by (auto simp: parseJson_def parse_document_def split: sum.splits if_splits prod.splits)
  then have ok: "json_ok v" "nesting v \<le> 64"
    using parse_ok(1) [of 0 "skipWhitespace text" "parse_fuel text"]
    by (auto dest: parsed_okD simp: kMaxJsonDepth_def)
  have "parseValue (parse_fuel (toJson v pretty)) 0 (writeInto pretty 0 v @ []) = Inr (v, [])"
    by (rule read_back(1) [OF ok(1)])
      (use ok in \<open>auto simp: kMaxJsonDepth_def parse_fuel_def toJson_def number_stop_def\<close>)
  then have "parseJson (toJson v pretty) = Inr v"
    using skip_written [OF ok(1), of pretty 0 "[]"]
    by (simp add: parseJson_def parse_document_def toJson_def skipWhitespace_def)
  then show ?thesis using ok by simp
qed

theorem json_round_trip_witness:
  "parseJson (toJson (JObject [(''a'', JArray [JNumber (- 5 / 2) ''-2.50'', JBool True])]) True) =
     Inr (JObject [(''a'', JArray [JNumber (- 5 / 2) ''-2.50'', JBool True])])"
proof -
  have "parseJson ([CHR 0x7B, CHR 0x22] @ ''a'' @ [CHR 0x22] @ '':[-2.50 , true]'' @ [CHR 0x7D]) =
      Inr (JObject [(''a'', JArray [JNumber (- 5 / 2) ''-2.50'', JBool True])])"
    by code_simp
  from json_round_trip [OF this] show ?thesis by blast
qed

end
