(* ===== verification/Receipt_Document_Rules.thy ===== *)
theory Receipt_Document_Rules imports
  Receipt_Document
  Receipt_Json_Rules
begin

text \<open>
  What the document layer guarantees (\<^verbatim>\<open>dsl/src/document.cpp\<close>): base64 decodes to what was
  encoded, a document in canonical form is read back from its own JSON without a warning,
  style resolution ends and stays within the multipliers of the printer.
\<close>

section \<open>Small integers as doubles\<close>

lemma round_even_int [simp]: "round_even (of_int i) = i"
  by (simp add: round_even_def)

lemma base_digits_le: "n < 2 ^ k \<Longrightarrow> base_digits 2 n \<le> k"
proof (induction k arbitrary: n)
  case 0
  then show ?case by (simp add: base_digits.simps)
next
  case (Suc k)
  then have "n div 2 < 2 ^ k" by auto
  then have "base_digits 2 (n div 2) \<le> k" by (rule Suc.IH)
  then show ?case by (subst base_digits.simps) simp
qed

lemma numerator_le:
  assumes "quotient_of (of_int m / 2) = (n, d)" "m \<noteq> 0"
  shows "\<bar>n\<bar> \<le> \<bar>m\<bar>" "0 < d"
proof -
  show d: "0 < d" using quotient_of_denom_pos [OF assms(1)] .
  have "(of_int m / 2 :: rat) = of_int n / of_int d" using quotient_of_div [OF assms(1)] .
  then have "(of_int (m * d) :: rat) = of_int (n * 2)" using d by (simp add: field_simps)
  then have e: "m * d = n * 2" by (simp only: of_int_eq_iff)
  have "coprime n d" using quotient_of_coprime [OF assms(1)] .
  moreover have "n dvd m * d" unfolding e by simp
  ultimately have "n dvd m" by (simp add: coprime_dvd_mult_left_iff)
  then show "\<bar>n\<bar> \<le> \<bar>m\<bar>" using assms(2) by (simp add: dvd_imp_le_int)
qed

lemma leading_exponent_half:
  assumes "m \<noteq> 0" "\<bar>m\<bar> < 2 ^ 40"
  shows "leading_exponent 2 (of_int \<bar>m\<bar> / 2) \<le> 40"
proof -
  obtain n d where q: "quotient_of (of_int \<bar>m\<bar> / 2 :: rat) = (n, d)" by fastforce
  have "\<bar>n\<bar> \<le> \<bar>m\<bar>" using numerator_le(1) [OF q] assms(1) by simp
  then have "nat n < 2 ^ 40" using assms(2) by (simp add: nat_less_iff)
  then have "base_digits 2 (nat n) \<le> 40" by (rule base_digits_le)
  then show ?thesis unfolding leading_exponent_def q by (simp add: Let_def)
qed

lemma double_of_half:
  assumes "\<bar>m\<bar> < 2 ^ 40"
  shows "double_of (of_int m / 2) = Some (of_int m / 2)"
proof (cases "m = 0")
  case False
  define e where "e = max (leading_exponent 2 \<bar>of_int m / 2\<bar> - 52) (- 1074)"
  have a: "\<bar>of_int m / 2 :: rat\<bar> = of_int \<bar>m\<bar> / 2" by simp
  have e: "e \<le> - 12" using leading_exponent_half [OF False assms] unfolding e_def a by simp
  define k where "k = nat (- e - 1)"
  have ek: "e = - int (Suc k)" using e unfolding k_def by simp
  have p: "(2 :: rat) powi e = 1 / 2 ^ Suc k" unfolding ek power_int_minus power_int_of_nat
    by (simp add: inverse_eq_divide)
  have q: "(of_int \<bar>m\<bar> / 2) / (2 :: rat) powi e = of_int (\<bar>m\<bar> * 2 ^ k)" unfolding p by simp
  have r: "of_int (round_even ((of_int \<bar>m\<bar> / 2) / 2 powi e)) * (2 :: rat) powi e = of_int \<bar>m\<bar> / 2"
    by (simp only: q round_even_int) (simp add: p)
  have small: "(of_int \<bar>m\<bar> / 2 :: rat) < 2 ^ 1024"
  proof -
    have "(of_int \<bar>m\<bar> :: rat) < of_int (2 ^ 40)" using assms by (simp only: of_int_less_iff)
    then have "(of_int \<bar>m\<bar> / 2 :: rat) < 2 ^ 40" by simp
    also have "(2 :: rat) ^ 40 \<le> 2 ^ 1024" by (rule power_increasing) simp_all
    finally show ?thesis .
  qed
  have s: "sgn (of_int m / 2 :: rat) * (of_int \<bar>m\<bar> / 2) = of_int m / 2"
    by (simp add: sgn_if)
  have nz: "of_int m / 2 \<noteq> (0 :: rat)" using False by simp
  have big: "\<not> (2 :: rat) ^ 1024 \<le> of_int \<bar>m\<bar> / 2" using small by (simp only: not_le)
  show ?thesis
    unfolding double_of_def a e_def [unfolded a, symmetric] Let_def r
    by (simp only: nz big s if_False)
qed (simp add: double_of_def)

definition int_ok :: "int \<Rightarrow> bool" where
  "int_ok i \<longleftrightarrow> - (2 ^ 31) \<le> i \<and> i < 2 ^ 31"

lemma asInt_int_json:
  assumes "int_ok i"
  shows "asInt (int_json i) f = Some i"
proof -
  have d: "double_of (of_int (2 * i + c) / 2) = Some (of_int (2 * i + c) / 2)" if "\<bar>c\<bar> = 1" for c
    using assms that by (intro double_of_half) (auto simp: int_ok_def)
  have p: "(of_int i + 1 / 2 :: rat) = of_int (2 * i + 1) / 2" "(of_int i + - 1 / 2 :: rat) = of_int (2 * i + (- 1)) / 2"
    by (simp_all add: field_simps)
  have f: "\<lfloor>of_int (2 * i + 1) / 2 :: rat\<rfloor> = i" "\<lceil>of_int (2 * i - 1) / 2 :: rat\<rceil> = i"
    by (rule floor_unique; simp) (rule ceiling_unique; simp)
  show ?thesis
  proof (cases "i < 0")
    case True
    then have n: "(of_int (2 * i - 1) / 2 :: rat) < 0"
    proof -
      have "(of_int (2 * i - 1) :: rat) < 0" unfolding of_int_less_0_iff using True by simp
      then show ?thesis by simp
    qed
    have "double_sum (of_int i) (- 1 / 2) = of_int (2 * i - 1) / 2"
      using d [of "- 1"] unfolding double_sum_def p by simp
    then have "to_long_long (double_sum (of_int i) (- 1 / 2)) = Some i"
      using assms n f(2) unfolding to_long_long_def int_ok_def by (simp only: Let_def) simp
    then show ?thesis using True by (simp add: int_json_def json_number_def)
  next
    case False
    then have n: "\<not> (of_int (2 * i + 1) / 2 :: rat) < 0"
    proof -
      have "0 \<le> (of_int (2 * i + 1) :: rat)" unfolding of_int_0_le_iff using False by simp
      then show ?thesis by simp
    qed
    have "double_sum (of_int i) (1 / 2) = of_int (2 * i + 1) / 2"
      using d [of 1] unfolding double_sum_def p by simp
    then have "to_long_long (double_sum (of_int i) (1 / 2)) = Some i"
      using assms n f(1) unfolding to_long_long_def int_ok_def by (simp only: Let_def) simp
    then show ?thesis using False by (simp add: int_json_def json_number_def)
  qed
qed

lemma to_int32_ok [simp]: "int_ok i \<Longrightarrow> to_int32 i = i"
  by (simp add: to_int32_def int_ok_def sint_sbintrunc' signed_take_bit_int_eq_self)

section \<open>Base64\<close>

lemma alphabet_value:
  assumes "n < 64"
  shows "base64Value (kBase64Alphabet ! n) = Some (of_nat n)" "\<not> base64_skip (kBase64Alphabet ! n)"
proof -
  have "list_all (\<lambda>n. base64Value (kBase64Alphabet ! n) = Some (of_nat n) \<and>
      \<not> base64_skip (kBase64Alphabet ! n)) [0..<64]"
    by (simp add: upt_conv_Cons kBase64Alphabet_def base64Value_def base64_skip_def NL_def CR_def TAB_def Let_def)
  then show "base64Value (kBase64Alphabet ! n) = Some (of_nat n)" "\<not> base64_skip (kBase64Alphabet ! n)"
    using assms by (simp_all add: list_all_iff)
qed

lemma six_bits: "unat (x AND 0x3F :: u32) < 64"
proof -
  have "x AND 0x3F \<le> (0x3F :: u32)" by (rule word_and_le1)
  then show ?thesis by (simp add: word_le_nat_alt)
qed

lemma base64_char_value:
  "base64Value (base64_char n t) = Some (drop_bit n t AND 0x3F)" "\<not> base64_skip (base64_char n t)"
  using alphabet_value [OF six_bits [of "drop_bit n t"]] by (simp_all add: base64_char_def)

lemma bits8: "n < 8 \<longleftrightarrow> n = 0 \<or> n = 1 \<or> n = 2 \<or> n = 3 \<or> n = 4 \<or> n = 5 \<or> n = 6 \<or> n = (7::nat)"
  by auto

lemma bit_beyond: "8 \<le> n \<Longrightarrow> \<not> bit (w :: u8) n"
  using bit_imp_le_length [of w n] by auto

text \<open>The three bytes of a group, from the six-bit pieces shifted into the buffer.\<close>

lemma group_bytes:
  fixes a b c :: u8 and buf :: u32
  defines "t \<equiv> push_bit 16 (ucast a) OR push_bit 8 (ucast b) OR ucast c"
  defines "x1 \<equiv> push_bit 6 (push_bit 6 buf OR (drop_bit 18 t AND 0x3F)) OR (drop_bit 12 t AND 0x3F)"
  defines "x2 \<equiv> push_bit 6 x1 OR (drop_bit 6 t AND 0x3F)"
  defines "x3 \<equiv> push_bit 6 x2 OR (drop_bit 0 t AND 0x3F)"
  shows "ucast (drop_bit 4 x1 AND 0xFF) = a" "ucast (drop_bit 2 x2 AND 0xFF) = b"
    "ucast (drop_bit 0 x3 AND 0xFF) = c"
  unfolding x3_def x2_def x1_def t_def
  by (rule bit_word_eqI, simp add: bits8, elim disjE; simp add: bit_simps bit_beyond)+

lemma base64_go_group:
  fixes a b c :: u8 and buf :: u32
  defines "t \<equiv> push_bit 16 (ucast a) OR push_bit 8 (ucast b) OR ucast c"
  shows "\<exists>buf'. base64_go buf 0 ([base64_char 18 t, base64_char 12 t, base64_char 6 t, base64_char 0 t] @ rest) =
      map_option (\<lambda>r. a # b # c # r) (base64_go buf' 0 rest)"
    "\<exists>buf'. base64_go buf 0 ([base64_char 18 t, base64_char 12 t, base64_char 6 t] @ rest) =
      map_option (\<lambda>r. a # b # r) (base64_go buf' 2 rest)"
    "\<exists>buf'. base64_go buf 0 ([base64_char 18 t, base64_char 12 t] @ rest) =
      map_option (\<lambda>r. a # r) (base64_go buf' 4 rest)"
  using group_bytes [where a = a and b = b and c = c and buf = buf]
  by (auto simp: base64_char_value t_def option.map_comp comp_def)

lemma base64_go_encode: "base64_go buf 0 (base64Encode bs) = Some bs"
proof (induction bs arbitrary: buf rule: base64Encode.induct)
  case (1 a b c rest)
  then show ?case using base64_go_group(1) [of buf a b c "base64Encode rest"] by (auto simp: Let_def)
next
  case (2 a b)
  then show ?case using base64_go_group(2) [of buf a b 0 "[CHR ''='']"]
    by (auto simp: Let_def base64_skip_def)
next
  case (3 a)
  then show ?case using base64_go_group(3) [of buf a 0 0 "''==''"]
    by (auto simp: Let_def base64_skip_def)
qed simp

lemma base64_round_trip: "base64Decode (base64Encode bs) = Some bs"
  by (simp add: base64Decode_def base64_go_encode)

section \<open>Documents in canonical form\<close>

text \<open>
  Integers fit 32 bits, a style reference is a name or an inline style, and fields the JSON
  form does not carry have the values parsing gives them. Blocks nest less deep than the
  levels given.
\<close>

definition opt_ok :: "int option \<Rightarrow> bool" where
  "opt_ok x \<longleftrightarrow> (case x of None \<Rightarrow> True | Some i \<Rightarrow> int_ok i)"

definition style_ok :: "TextStyle \<Rightarrow> bool" where
  "style_ok s \<longleftrightarrow>
     opt_ok (ts_width_scale s) \<and> opt_ok (ts_height_scale s) \<and> opt_ok (ts_line_spacing_dots s) \<and>
     opt_ok (ts_letter_spacing_dots s) \<and> opt_ok (ts_indent_dots s) \<and>
     opt_ok (ts_margin_left_dots s) \<and> opt_ok (ts_margin_right_dots s)"

definition ref_ok :: "StyleRef \<Rightarrow> bool" where
  "ref_ok r \<longleftrightarrow> style_ok (sr_inline r) \<and> (sr_name r = None \<or> style_empty (sr_inline r))"

definition width_ok :: "CellWidth \<Rightarrow> bool" where
  "width_ok w \<longleftrightarrow> int_ok (cw_value w) \<and> (cw_unit w = Flex \<longrightarrow> 1 \<le> cw_value w)"

definition cell_ok :: "Cell \<Rightarrow> bool" where
  "cell_ok c \<longleftrightarrow> width_ok (ce_width c) \<and> cw_unit (ce_width c) \<noteq> Percent \<and> ref_ok (ce_style c)"

definition image_ok :: "ImageBlock \<Rightarrow> bool" where
  "image_ok i \<longleftrightarrow>
     (if im_gray i = [] then im_width i = 0 \<and> im_height i = 0
      else unat (im_width i) < 2 ^ 31 \<and> unat (im_height i) < 2 ^ 31) \<and>
     width_ok (im_target i) \<and> (cw_unit (im_target i) = Flex \<longrightarrow> cw_value (im_target i) = 1)"

fun block_ok :: "nat \<Rightarrow> Block \<Rightarrow> bool" where
  "block_ok 0 b = False"
| "block_ok (Suc n) (TextBlock content style) = ref_ok style"
| "block_ok (Suc n) (ColumnsBlock cells) = list_all cell_ok cells"
| "block_ok (Suc n) (DividerBlock kind fill thickness style) =
     (opt_ok thickness \<and> ref_ok style \<and> (kind \<noteq> DK_Char \<longrightarrow> fill = []))"
| "block_ok (Suc n) (FeedBlock lines dots) =
     (int_ok lines \<and> opt_ok dots \<and> (dots \<noteq> None \<longrightarrow> lines = 1))"
| "block_ok (Suc n) (CutBlock kind) = True"
| "block_ok (Suc n) (DrawerKickBlock pin pulse) = (int_ok pin \<and> int_ok pulse)"
| "block_ok (Suc n) (RawBlock data) = True"
| "block_ok (Suc n) (QrCodeBlock content q) = int_ok (qr_size q)"
| "block_ok (Suc n) (BarcodeBlock content b) = (int_ok (bc_height_dots b) \<and> int_ok (bc_module_width b))"
| "block_ok (Suc n) (ImageBlock i) = image_ok i"
| "block_ok (Suc n) (EachBlock path single body) =
     ((single \<longrightarrow> length body = 1) \<and> list_all (block_ok n) body)"
| "block_ok (Suc n) (IfBlock path negated single body) =
     ((single \<longrightarrow> length body = 1) \<and> list_all (block_ok n) body)"
| "block_ok (Suc n) (CustomBlock kind payload) = False"

definition document_ok :: "Document \<Rightarrow> bool" where
  "document_ok d \<longleftrightarrow>
     int_ok (doc_version d) \<and> opt_ok (mg_top_dots (me_margins (doc_meta d))) \<and>
     opt_ok (mg_bottom_dots (me_margins (doc_meta d))) \<and>
     distinct (map fst (doc_styles d)) \<and> list_all (\<lambda>(_, s). style_ok s) (doc_styles d) \<and>
     list_all (block_ok block_levels) (doc_blocks d)"

section \<open>Reading members back\<close>

lemma bindP_Inr [simp]: "m w = Inr (x, w') \<Longrightarrow> bindP m f w = f x w'"
  by (simp add: bindP_def)

lemma return_apply [simp]: "return x w = Inr (x, w)"
  by (simp add: return_def)

lemma map_of_member:
  "map_of (member k f x @ ms) key =
     (if key = k then (case x of None \<Rightarrow> map_of ms key | Some v \<Rightarrow> Some (f v)) else map_of ms key)"
  "map_of (member k f x) key = (if key = k then map_option f x else None)"
  by (auto simp: member_def split: option.split)

lemma intP_int_json [simp]: "int_ok i \<Longrightarrow> intP (int_json i) w = Inr (i, w)"
  by (simp add: intP_def asInt_int_json)

lemma isNumber_int_json [simp]: "isNumber (int_json i)" "\<not> isString (int_json i)" "\<not> isObject (int_json i)"
  by (simp_all add: int_json_def json_number_def)

lemma readInt_member:
  "map_of ms key = map_option int_json x \<Longrightarrow> opt_ok x \<Longrightarrow> readInt (JObject ms) key w = Inr (x, w)"
  by (cases x) (simp_all add: readInt_def opt_ok_def)

lemma readBool_member: "map_of ms key = map_option JBool x \<Longrightarrow> readBool (JObject ms) key = x"
  by (cases x) (simp_all add: readBool_def)

lemma find_string_member: "map_of ms key = map_option JString x \<Longrightarrow> find_string (JObject ms) key = x"
  by (cases x) (simp_all add: find_string_def)

lemma named_member:
  "map_of ms key = map_option (JString \<circ> name) x \<Longrightarrow> (\<And>v. parser (name v) = Some v) \<Longrightarrow>
   named parser loc key (JObject ms) w = Inr (x, w)"
  using find_string_member [of ms key "map_option name x"]
  by (cases x) (simp_all add: named_def)

lemma finishP_seen:
  "fst ` set ms \<subseteq> set seen \<Longrightarrow> finishP loc seen (JObject ms) w = Inr ((), w)"
  by (auto simp: finishP_def filter_empty_conv)

lemma finished_seen:
  "fst ` set ms \<subseteq> set seen \<Longrightarrow> finished loc seen (JObject ms) x w = Inr (x, w)"
  by (simp add: finished_def finishP_seen)

lemma finished_back:
  "key \<in> set seen \<Longrightarrow> fst ` set ms \<subseteq> set seen \<Longrightarrow>
   finished loc seen (JObject ((key, v) # ms)) x w = Inr (x, w)"
  by (simp add: finished_seen)

lemma member_keys: "fst ` set (member k f x) \<subseteq> {k}"
  by (auto simp: member_def split: option.splits)

section \<open>The names read back\<close>

lemma names_read_back [simp]:
  "parseAlign (align_name a) = Some a" "parseWrap (wrap_name v) = Some v"
  "parseUnderline (underline_name u) = Some u" "parseDither (dither_name d) = Some d"
  "parseHri (hri_name h) = Some h" "parseQrEc (qr_ec_name e) = Some e"
  "parseCutRequest (cut_request_name c) = Some c"
      apply (cases a; simp add: parseAlign_def lookup_def lowered_def lower_char_def char_of_def bit_0)
     apply (cases v; simp add: parseWrap_def lookup_def lowered_def lower_char_def char_of_def bit_0)
    apply (cases u; simp add: parseUnderline_def lookup_def lowered_def lower_char_def char_of_def bit_0)
   apply (cases d; simp add: parseDither_def lookup_def lowered_def lower_char_def char_of_def bit_0)
  apply (cases h; simp add: parseHri_def lookup_def lowered_def lower_char_def char_of_def bit_0)
 apply (cases e; simp add: parseQrEc_def lookup_def lowered_def lower_char_def char_of_def bit_0)
apply (cases c; simp add: parseCutRequest_def lookup_def lowered_def lower_char_def char_of_def bit_0)
  done

lemma symbology_reads_back [simp]: "parseSymbology (symbology_name s) = Some s"
  by (cases s; simp add: parseSymbology_def lookup_def lowered_def lower_char_def char_of_def bit_0)

lemma divider_reads_back [simp]:
  "k \<noteq> DK_Char \<Longrightarrow> lookup (divider_name k) divider_table = Some k"
  "lookup (divider_name k) (divider_table @ [(''char'', DK_Char)]) = Some k"
  by (cases k; simp add: divider_table_def lookup_def lowered_def lower_char_def char_of_def bit_0)+

section \<open>Styles read back\<close>

lemma style_members_lookup:
  "map_of (style_members s) ''extends'' = map_option JString (ts_extends s)"
  "map_of (style_members s) ''font'' = map_option JString (ts_font s)"
  "map_of (style_members s) ''widthScale'' = map_option int_json (ts_width_scale s)"
  "map_of (style_members s) ''heightScale'' = map_option int_json (ts_height_scale s)"
  "map_of (style_members s) ''bold'' = map_option JBool (ts_bold s)"
  "map_of (style_members s) ''italic'' = map_option JBool (ts_italic s)"
  "map_of (style_members s) ''underline'' = map_option (JString \<circ> underline_name) (ts_underline s)"
  "map_of (style_members s) ''inverse'' = map_option JBool (ts_inverse s)"
  "map_of (style_members s) ''upsideDown'' = map_option JBool (ts_upside_down s)"
  "map_of (style_members s) ''rotate90'' = map_option JBool (ts_rotate90 s)"
  "map_of (style_members s) ''align'' = map_option (JString \<circ> align_name) (ts_align s)"
  "map_of (style_members s) ''wrap'' = map_option (JString \<circ> wrap_name) (ts_wrap s)"
  "map_of (style_members s) ''lineSpacingDots'' = map_option int_json (ts_line_spacing_dots s)"
  "map_of (style_members s) ''letterSpacingDots'' = map_option int_json (ts_letter_spacing_dots s)"
  "map_of (style_members s) ''indentDots'' = map_option int_json (ts_indent_dots s)"
  "map_of (style_members s) ''marginLeftDots'' = map_option int_json (ts_margin_left_dots s)"
  "map_of (style_members s) ''marginRightDots'' = map_option int_json (ts_margin_right_dots s)"
  unfolding style_members_def by (simp add: map_of_member del: map_of_append split: option.split)+

lemma style_members_keys: "fst ` set (style_members s) \<subseteq> set style_keys"
  unfolding style_members_def set_append image_Un
  by (intro Un_least order.trans [OF member_keys]) (simp_all add: style_keys_def)

lemma underlineP_back:
  "underlineP loc (styleToJson s) w = Inr (ts_underline s, w)"
  using style_members_lookup(7) [of s]
  by (cases "ts_underline s") (simp_all add: underlineP_def styleToJson_def)

lemma parseTextStyle_back:
  assumes "style_ok s"
  shows "parseTextStyle (styleToJson s) loc w = Inr (s, w)"
proof -
  have r: "readInt (styleToJson s) ''widthScale'' w = Inr (ts_width_scale s, w)"
    "readInt (styleToJson s) ''heightScale'' w = Inr (ts_height_scale s, w)"
    "readInt (styleToJson s) ''lineSpacingDots'' w = Inr (ts_line_spacing_dots s, w)"
    "readInt (styleToJson s) ''letterSpacingDots'' w = Inr (ts_letter_spacing_dots s, w)"
    "readInt (styleToJson s) ''indentDots'' w = Inr (ts_indent_dots s, w)"
    "readInt (styleToJson s) ''marginLeftDots'' w = Inr (ts_margin_left_dots s, w)"
    "readInt (styleToJson s) ''marginRightDots'' w = Inr (ts_margin_right_dots s, w)"
    unfolding styleToJson_def using assms
    by (auto intro!: readInt_member simp: style_members_lookup style_ok_def)
  have b: "readBool (styleToJson s) ''bold'' = ts_bold s" "readBool (styleToJson s) ''italic'' = ts_italic s"
    "readBool (styleToJson s) ''inverse'' = ts_inverse s"
    "readBool (styleToJson s) ''upsideDown'' = ts_upside_down s"
    "readBool (styleToJson s) ''rotate90'' = ts_rotate90 s"
    "find_string (styleToJson s) ''extends'' = ts_extends s"
    "find_string (styleToJson s) ''font'' = ts_font s"
    unfolding styleToJson_def
    by (auto intro!: readBool_member find_string_member simp: style_members_lookup)
  have n: "named parseAlign loc ''align'' (styleToJson s) w = Inr (ts_align s, w)"
    "named parseWrap loc ''wrap'' (styleToJson s) w = Inr (ts_wrap s, w)"
    unfolding styleToJson_def by (auto intro!: named_member simp: style_members_lookup)
  have f: "finishP loc style_keys (styleToJson s) w = Inr ((), w)"
    unfolding styleToJson_def by (rule finishP_seen [OF style_members_keys])
  have o: "isObject (styleToJson s)" by (simp add: styleToJson_def)
  show ?thesis unfolding parseTextStyle_def by (simp add: r b n f o underlineP_back)
qed

lemma style_empty_iff: "style_empty s \<longleftrightarrow> s = empty_style"
  by (cases s) (auto simp: style_empty_def empty_style_def)

lemma style_ref_cases:
  assumes "ref_ok r"
  obtains (none) "r = no_style" | (name) n where "r = no_style\<lparr>sr_name := Some n\<rparr>"
    | (inline) s where "r = no_style\<lparr>sr_inline := s\<rparr>" "style_ok s" "\<not> style_empty s"
proof (cases r)
  case (fields n s)
  then show thesis using assms that
    by (cases n; cases "style_empty s") (auto simp: ref_ok_def no_style_def style_empty_iff)
qed

lemma writeStyleRef_back:
  assumes "ref_ok r" "map_of ms ''style'' = map_of (writeStyleRef r) ''style''"
  shows "parseStyleRef (json_find ''style'' (JObject ms)) loc w = Inr (r, w)"
  using assms(1)
proof (cases rule: style_ref_cases)
  case none
  then show ?thesis using assms(2)
    by (simp add: writeStyleRef_def no_style_def style_empty_iff parseStyleRef_def)
next
  case (name n)
  then show ?thesis using assms(2)
    by (simp add: writeStyleRef_def no_style_def style_empty_iff member_def parseStyleRef_def)
next
  case (inline s)
  have o: "isObject (styleToJson s)" "\<not> isString (styleToJson s)" by (simp_all add: styleToJson_def)
  show ?thesis using inline assms(2) parseTextStyle_back [OF inline(2), of loc w] o
    by (simp add: writeStyleRef_def no_style_def parseStyleRef_def)
qed

lemma writeStyleRef_keys: "fst ` set (writeStyleRef r) \<subseteq> {''style''}"
  by (auto simp: writeStyleRef_def member_def split: option.splits)

lemma writeStyleRef_lookup: "k \<noteq> ''style'' \<Longrightarrow> map_of (writeStyleRef r) k = None"
  using writeStyleRef_keys [of r] by (auto simp: map_of_eq_None_iff)

lemma flex_lowered: "lowered ''flex'' = ''flex''"
  by (simp add: lowered_def lower_char_def)

lemma cellWidthToJson_back:
  assumes "width_ok v" "allow \<or> cw_unit v \<noteq> Percent"
  shows "parseCellWidth (Some (cellWidthToJson v)) loc allow w = Inr (v, w)"
proof (cases v)
  case (fields u i)
  then show ?thesis using assms
    by (cases u)
      (auto simp: parseCellWidth_def cellWidthToJson_def width_ok_def width_of_def flex_lowered)
qed

lemma align_member_lookup:
  "k \<noteq> ''align'' \<Longrightarrow> map_of (align_member a) k = None"
  "map_of (align_member a) ''align'' = (if a = Left then None else Some (JString (align_name a)))"
  by (auto simp: align_member_def)

lemma align_member_keys: "fst ` set (align_member a) \<subseteq> {''align''}"
  by (auto simp: align_member_def)

lemma align_member_back:
  "map_of ms ''align'' = map_of (align_member a) ''align'' \<Longrightarrow>
   option_or (Option.bind (find_string (JObject ms) ''align'') parseAlign) Left = a"
  by (auto simp: find_string_def align_member_lookup option_or_def)

section \<open>Blocks read back\<close>

lemma for_each_back:
  "(\<And>x. x \<in> set xs \<Longrightarrow> f (g x) w = Inr (x, w)) \<Longrightarrow> for_each f (map g xs) w = Inr (xs, w)"
  by (induction xs) simp_all

lemma for_each_enumerate:
  "(\<And>i x. x \<in> set xs \<Longrightarrow> f (i, g x) w = Inr (x, w)) \<Longrightarrow>
   for_each f (enumerate n (map g xs)) w = Inr (xs, w)"
  by (induction xs arbitrary: n) simp_all

lemma cell_back:
  assumes "cell_ok c"
  shows "parse_cell loc (cell_json c) w = Inr (c, w)"
proof -
  define ms where "ms = [(''content'', JString (ce_content c)), (''width'', cellWidthToJson (ce_width c))] @
       member ''align'' (JString \<circ> align_name) (ce_align c) @
       member ''wrap'' (JString \<circ> wrap_name) (ce_wrap c) @
       writeStyleRef (ce_style c)"
  have l: "map_of ms ''content'' = Some (JString (ce_content c))"
    "map_of ms ''width'' = Some (cellWidthToJson (ce_width c))"
    "map_of ms ''align'' = map_option (JString \<circ> align_name) (ce_align c)"
    "map_of ms ''wrap'' = map_option (JString \<circ> wrap_name) (ce_wrap c)"
    "map_of ms ''style'' = map_of (writeStyleRef (ce_style c)) ''style''"
    unfolding ms_def
    by (simp_all add: map_of_member writeStyleRef_lookup del: map_of_append split: option.split)
  have k: "fst ` set ms \<subseteq> set [''content'', ''width'', ''align'', ''wrap'', ''style'']"
    unfolding ms_def using writeStyleRef_keys [of "ce_style c"]
    by (auto dest!: member_keys [THEN subsetD, OF imageI] simp: image_subset_iff)
  have "parseCellWidth (json_find ''width'' (JObject ms)) (loc @ ''.width'') False w = Inr (ce_width c, w)"
    using cellWidthToJson_back [of "ce_width c" False] assms l(2) by (simp add: cell_ok_def)
  moreover have "named parseAlign loc ''align'' (JObject ms) w = Inr (ce_align c, w)"
    "named parseWrap loc ''wrap'' (JObject ms) w = Inr (ce_wrap c, w)"
    by (rule named_member [OF l(3)], simp) (rule named_member [OF l(4)], simp)
  moreover have "parseStyleRef (json_find ''style'' (JObject ms)) (loc @ ''.style'') w = Inr (ce_style c, w)"
    using writeStyleRef_back [OF _ l(5)] assms by (simp add: cell_ok_def)
  moreover have "readString (JObject ms) ''content'' = ce_content c"
    using l(1) by (simp add: readString_def find_string_def)
  moreover have "cell_json c = JObject ms" by (simp add: cell_json_def ms_def)
  ultimately show ?thesis
    using finishP_seen [OF k, of loc w] by (simp add: parse_cell_def)
qed

lemma divider_back:
  assumes "opt_ok thickness" "kind \<noteq> DK_Char \<longrightarrow> fill = []"
  shows "parse_divider loc (divider_json kind fill thickness) w = Inr ((kind, fill, thickness), w)"
proof (cases "kind = DK_Char")
  case True
  define ms where "ms = (''style'', JString ''char'') # (''char'', JString fill) #
     member ''thicknessDots'' int_json thickness"
  have l: "map_of ms ''style'' = Some (JString ''char'')" "map_of ms ''char'' = Some (JString fill)"
    "map_of ms ''thicknessDots'' = map_option int_json thickness"
    unfolding ms_def by (simp_all add: map_of_member del: map_of_append)
  have k: "fst ` set ms \<subseteq> set [''style'', ''char'', ''thicknessDots'']"
    unfolding ms_def by (auto simp: member_def split: option.splits)
  have c: "lookup ''char'' (divider_table @ [(''char'', DK_Char)]) = Some DK_Char"
    using divider_reads_back(2) [of DK_Char] by simp
  show ?thesis
    using True l readInt_member [OF l(3) assms(1), of w] finishP_seen [OF k, of "loc @ ''.divider''" w] c
    by (simp add: parse_divider_def divider_json_def ms_def [symmetric] find_string_def)
next
  case False
  show ?thesis
  proof (cases thickness)
    case None
    then show ?thesis using False assms by (simp add: parse_divider_def divider_json_def)
  next
    case (Some t)
    define ms where "ms = [(''style'', JString (divider_name kind)), (''thicknessDots'', int_json t)]"
    have l: "map_of ms ''style'' = Some (JString (divider_name kind))" "map_of ms ''char'' = None"
      "map_of ms ''thicknessDots'' = map_option int_json (Some t)"
      by (simp_all add: ms_def)
    have k: "fst ` set ms \<subseteq> set [''style'', ''char'', ''thicknessDots'']" by (simp add: ms_def)
    show ?thesis
      using False assms l readInt_member [OF l(3), of w] finishP_seen [OF k, of "loc @ ''.divider''" w] Some
      by (simp add: parse_divider_def divider_json_def ms_def [symmetric] find_string_def)
  qed
qed

lemma key_in_keys_to [simp]: "k \<in> set (keys_to k)"
  by (simp add: keys_to_def)

lemma option_or_simps [simp]: "option_or (Some x) y = x" "option_or None y = y"
  by (simp_all add: option_or_def)

lemma feed_back:
  assumes "int_ok lines" "opt_ok dots" "dots \<noteq> None \<longrightarrow> lines = 1"
  shows "parse_feed loc (case dots of Some d \<Rightarrow> JObject [(''dots'', int_json d)] | None \<Rightarrow> int_json lines) w =
    Inr (FeedBlock lines dots, w)"
  using assms by (cases dots) (simp_all add: parse_feed_def field_int_def opt_ok_def)

lemma kick_back:
  "int_ok pin \<Longrightarrow> int_ok pulse \<Longrightarrow>
   parse_kick (JObject [(''pin'', int_json pin), (''pulse'', int_json pulse)]) w =
     Inr (DrawerKickBlock pin pulse, w)"
  by (simp add: parse_kick_def field_int_def)

lemma parseBytes_back: "parseBytes (JString (base64Encode b)) loc w = Inr (b, w)"
  by (simp add: parseBytes_def base64_round_trip)

lemma qr_back:
  fixes c :: string
  assumes "int_ok (qr_size q)"
  defines "ms \<equiv> (''qr'', JString c) # (''size'', int_json (qr_size q)) #
    (''ec'', JString (qr_ec_name (qr_ec q))) # align_member (qr_align q)"
  shows "parse_qr loc (JObject ms) (JString c) w = Inr (QrCodeBlock c q, w)"
proof -
  have "readInt (JObject ms) ''size'' w = Inr (Some (qr_size q), w)"
    by (rule readInt_member) (simp_all add: ms_def opt_ok_def assms(1))
  moreover have "find_string (JObject ms) ''ec'' = Some (qr_ec_name (qr_ec q))"
    by (rule find_string_member) (simp add: ms_def)
  moreover have "option_or (Option.bind (find_string (JObject ms) ''align'') parseAlign) Left = qr_align q"
    by (rule align_member_back) (simp add: ms_def)
  ultimately show ?thesis by (simp add: parse_qr_def)
qed

lemma barcode_back:
  fixes c :: string
  assumes "int_ok (bc_height_dots b)" "int_ok (bc_module_width b)"
  defines "ms \<equiv> (''barcode'', JString c) # (''symbology'', JString (symbology_name (bc_symbology b))) #
    (''height'', int_json (bc_height_dots b)) # (''moduleWidth'', int_json (bc_module_width b)) #
    (''hri'', JString (hri_name (bc_hri b))) # align_member (bc_align b)"
  shows "parse_barcode loc (JObject ms) (JString c) w = Inr (BarcodeBlock c b, w)"
proof -
  have "readInt (JObject ms) ''height'' w = Inr (Some (bc_height_dots b), w)"
    "readInt (JObject ms) ''moduleWidth'' w = Inr (Some (bc_module_width b), w)"
    by (rule readInt_member; simp add: ms_def opt_ok_def assms(1,2))+
  moreover have "find_string (JObject ms) ''symbology'' = Some (symbology_name (bc_symbology b))"
    "find_string (JObject ms) ''hri'' = Some (hri_name (bc_hri b))"
    by (rule find_string_member; simp add: ms_def)+
  moreover have "option_or (Option.bind (find_string (JObject ms) ''align'') parseAlign) Left = bc_align b"
    by (rule align_member_back) (simp add: ms_def)
  ultimately show ?thesis by (simp add: parse_barcode_def)
qed

lemma u32_json [simp]: "json_number (unsigned (u :: u32)) = int_json (uint u)"
  by (simp add: int_json_def)

lemma int_ok_nat: "n < 2 ^ 31 \<Longrightarrow> int_ok (int n)"
  by (simp add: int_ok_def)

lemma image_source_back:
  assumes "image_ok i"
  shows "parse_image_source loc (image_json i) w = Inr ((im_ref i, im_gray i, im_width i, im_height i), w)"
proof (cases "im_gray i = []")
  case True
  then show ?thesis using assms
    by (cases "im_ref i = []")
      (simp_all add: parse_image_source_def image_json_def image_ok_def readInt_def readString_def
        find_string_def finishP_def option_or_def)
next
  case False
  define ms where "ms = (if im_ref i \<noteq> [] then [(''ref'', JString (im_ref i))] else []) @
    [(''gray'', JString (base64Encode (im_gray i))), (''width'', json_number (of_nat (unat (im_width i)))),
     (''height'', json_number (of_nat (unat (im_height i))))]"
  have j: "image_json i = JObject ms" using False by (simp add: image_json_def ms_def)
  have ok: "int_ok (uint (im_width i))" "int_ok (uint (im_height i))"
    using int_ok_nat [of "unat (im_width i)"] int_ok_nat [of "unat (im_height i)"] assms False
    by (simp_all add: image_ok_def)
  have "readInt (JObject ms) ''width'' w = Inr (Some (uint (im_width i)), w)"
    "readInt (JObject ms) ''height'' w = Inr (Some (uint (im_height i)), w)"
    by (rule readInt_member; simp add: ms_def opt_ok_def ok)+
  moreover have "json_find ''gray'' (JObject ms) = Some (JString (base64Encode (im_gray i)))"
    by (simp add: ms_def)
  moreover have "readString (JObject ms) ''ref'' = im_ref i"
    by (simp add: ms_def readString_def find_string_def)
  moreover have "finishP (loc @ ''.image'') [''ref'', ''gray'', ''width'', ''height''] (JObject ms) w = Inr ((), w)"
    by (rule finishP_seen) (auto simp: ms_def)
  ultimately show ?thesis unfolding j by (simp add: parse_image_source_def parseBytes_back)
qed

lemma image_back:
  assumes "image_ok i"
  defines "ms \<equiv> (''image'', image_json i) #
    (if cw_unit (im_target i) \<noteq> Flex then [(''width'', cellWidthToJson (im_target i))] else []) @
    align_member (im_align i) @ [(''dither'', JString (dither_name (im_dither i)))]"
  shows "parse_image loc (JObject ms) (image_json i) w = Inr (ImageBlock i, w)"
proof -
  have "parseCellWidth (json_find ''width'' (JObject ms)) (loc @ ''.width'') True w = Inr (im_target i, w)"
  proof (cases "cw_unit (im_target i) = Flex")
    case True
    then have "im_target i = default_width" using assms(1)
      by (cases "im_target i") (simp add: image_ok_def default_width_def)
    moreover have "json_find ''width'' (JObject ms) = None"
      using True by (simp add: ms_def align_member_lookup map_add_def)
    ultimately show ?thesis by (simp add: parseCellWidth_def)
  next
    case False
    then have "json_find ''width'' (JObject ms) = Some (cellWidthToJson (im_target i))"
      by (simp add: ms_def align_member_lookup map_add_def)
    then show ?thesis using cellWidthToJson_back [of "im_target i" True] assms(1)
      by (simp add: image_ok_def)
  qed
  moreover have "option_or (Option.bind (find_string (JObject ms) ''align'') parseAlign) Left = im_align i"
    by (rule align_member_back) (auto simp: ms_def map_add_def split: option.split)
  moreover have "find_string (JObject ms) ''dither'' = Some (dither_name (im_dither i))"
    by (rule find_string_member) (auto simp: ms_def align_member_lookup map_add_def)
  ultimately show ?thesis
    using image_source_back [OF assms(1)] by (simp add: parse_image_def)
qed

lemma leaf_back:
  assumes "block_ok (Suc n) b" "\<And>p s body. b \<noteq> EachBlock p s body" "\<And>p ng s body. b \<noteq> IfBlock p ng s body"
  shows "parse_leaf regs (blockToJson b) loc w = Inr (b, w)"
  using assms
proof (cases b)
  case (TextBlock c r)
  then have ok: "ref_ok r" using assms(1) by simp
  have "parseStyleRef (json_find ''style'' (JObject ((''text'', JString c) # writeStyleRef r))) (loc @ ''.style'') w =
      Inr (r, w)"
    by (rule writeStyleRef_back [OF ok]) simp
  moreover have "fst ` set (writeStyleRef r) \<subseteq> set (keys_to ''text'' @ [''style''])"
    by (rule order.trans [OF writeStyleRef_keys]) simp
  ultimately show ?thesis using TextBlock by (simp add: parse_leaf_def finished_back)
next
  case (ColumnsBlock cells)
  then have "parse_cells loc (map cell_json cells) w = Inr (cells, w)"
    using assms(1) unfolding parse_cells_def
    by (intro for_each_enumerate) (auto simp: cell_back list_all_iff)
  then show ?thesis using ColumnsBlock by (simp add: parse_leaf_def finished_seen)
next
  case (DividerBlock k f t r)
  then have ok: "ref_ok r" "opt_ok t" "k \<noteq> DK_Char \<longrightarrow> f = []" using assms(1) by simp_all
  have "parseStyleRef (json_find ''style'' (JObject ((''divider'', divider_json k f t) # writeStyleRef r)))
      (loc @ ''.style'') w = Inr (r, w)"
    by (rule writeStyleRef_back [OF ok(1)]) simp
  moreover have "fst ` set (writeStyleRef r) \<subseteq> set (keys_to ''divider'' @ [''style''])"
    by (rule order.trans [OF writeStyleRef_keys]) simp
  ultimately show ?thesis
    using DividerBlock divider_back [OF ok(2,3), of loc w]
    by (simp add: parse_leaf_def writeStyleRef_lookup finished_back)
next
  case (FeedBlock l d)
  then show ?thesis using assms(1) feed_back [of l d loc w] by (simp add: parse_leaf_def finished_seen)
next
  case (CutBlock k)
  have "lowered ''full'' = ''full''" "lowered ''partial'' \<noteq> ''full''"
    by (simp_all add: lowered_def lower_char_def)
  then show ?thesis using CutBlock by (cases k) (simp_all add: parse_leaf_def parse_cut_def finished_seen)
next
  case (DrawerKickBlock p q)
  then show ?thesis using assms(1) kick_back [of p q w] by (simp add: parse_leaf_def finished_seen)
next
  case (RawBlock data)
  then show ?thesis by (simp add: parse_leaf_def finished_seen parseBytes_back)
next
  case (QrCodeBlock c q)
  moreover have "fst ` set (align_member (qr_align q)) \<subseteq> set (keys_to ''qr'' @ [''size'', ''ec'', ''align''])"
    by (rule order.trans [OF align_member_keys]) simp
  ultimately show ?thesis using assms(1) qr_back [of q loc c w]
    by (simp add: parse_leaf_def align_member_lookup finished_back)
next
  case (BarcodeBlock c x)
  moreover have "fst ` set (align_member (bc_align x)) \<subseteq>
      set (keys_to ''barcode'' @ [''symbology'', ''height'', ''moduleWidth'', ''hri'', ''align''])"
    by (rule order.trans [OF align_member_keys]) simp
  ultimately show ?thesis using assms(1) barcode_back [of x loc c w]
    by (simp add: parse_leaf_def align_member_lookup finished_back)
next
  case (ImageBlock i)
  define ms where "ms = (''image'', image_json i) #
    (if cw_unit (im_target i) \<noteq> Flex then [(''width'', cellWidthToJson (im_target i))] else []) @
    align_member (im_align i) @ [(''dither'', JString (dither_name (im_dither i)))]"
  have j: "blockToJson b = JObject ms" using ImageBlock by (simp add: ms_def)
  have k: "fst ` set ms \<subseteq> set (keys_to ''image'' @ [''width'', ''align'', ''dither''])"
    unfolding ms_def using align_member_keys [of "im_align i"] by auto
  have none: "map_of ms key = None" if "key \<notin> {''image'', ''width'', ''align'', ''dither''}" for key
    unfolding ms_def using that by (simp add: align_member_lookup map_add_def)
  have "map_of ms ''image'' = Some (image_json i)" by (simp add: ms_def)
  then show ?thesis
    using ImageBlock assms(1) image_back [of i loc w] finished_seen [OF k, of loc "ImageBlock i" w]
    unfolding j by (simp add: parse_leaf_def none ms_def [symmetric])
next
  case (EachBlock p s body)
  then show ?thesis using assms(2) [of p s body] by simp
next
  case (IfBlock p ng s body)
  then show ?thesis using assms(3) [of p ng s body] by simp
qed (use assms(1) in simp)

lemma leaf_no_control:
  assumes "block_ok (Suc n) b" "\<And>p s body. b \<noteq> EachBlock p s body" "\<And>p ng s body. b \<noteq> IfBlock p ng s body"
  shows "\<exists>ms. blockToJson b = JObject ms \<and> map_of ms ''each'' = None \<and> map_of ms ''if'' = None \<and>
    map_of ms ''unless'' = None"
proof (cases b)
  case (EachBlock p s body)
  then show ?thesis using assms(2) [of p s body] by simp
next
  case (IfBlock p ng s body)
  then show ?thesis using assms(3) [of p ng s body] by simp
qed (use assms(1) in \<open>simp_all add: writeStyleRef_lookup align_member_lookup map_add_def\<close>)

lemma blockListToJson_map: "blockListToJson bs = map blockToJson bs"
  by (induction bs) simp_all

text \<open>The body of a control block, whatever stands before it.\<close>

lemma body_back:
  assumes deeper: "\<And>b loc w. b \<in> set body \<Longrightarrow> deeper (blockToJson b) loc w = Inr (b, w)"
    and single: "single \<longrightarrow> length body = 1"
    and look: "map_of ms ''block'' = (if single then Some (hd (blockListToJson body)) else None)"
      "\<not> single \<Longrightarrow> map_of ms ''blocks'' = Some (JArray (blockListToJson body))"
  shows "parseBody deeper (JObject ms) loc w = Inr ((single, body), w)"
proof (cases single)
  case True
  then obtain b where "body = [b]" using single by (cases body) auto
  then show ?thesis using True look(1) deeper by (simp add: parseBody_def)
next
  case False
  have "for_each (\<lambda>(i, item). deeper item (indexed (loc @ ''.blocks'') i))
      (enumerate 0 (map blockToJson body)) w = Inr (body, w)"
    by (rule for_each_enumerate) (simp add: deeper)
  then show ?thesis using False look by (simp add: parseBody_def blockListToJson_map)
qed

lemma block_back: "block_ok n b \<Longrightarrow> parseBlock n regs (blockToJson b) loc w = Inr (b, w)"
proof (induction n arbitrary: b loc w)
  case (Suc n)
  have deeper: "parseBlock n regs (blockToJson c) l v = Inr (c, v)" if "block_ok n c" for c l v
    by (rule Suc.IH [OF that])
  consider p s body where "b = EachBlock p s body" | p ng s body where "b = IfBlock p ng s body"
    | "\<And>p s body. b \<noteq> EachBlock p s body" "\<And>p ng s body. b \<noteq> IfBlock p ng s body" by blast
  then show ?case
  proof cases
    case 1
    define ms where "ms = (''each'', JString p) # (if s then [(''block'', hd (blockListToJson body))]
        else [(''blocks'', JArray (blockListToJson body))])"
    have j: "blockToJson b = JObject ms" using 1 Suc.prems by (auto simp: ms_def)
    have "parseBody (parseBlock n regs) (JObject ms) loc w = Inr ((s, body), w)"
      by (rule body_back) (use Suc.prems 1 deeper in \<open>auto simp: ms_def list_all_iff\<close>)
    moreover have "fst ` set ms \<subseteq> set [''each'', ''block'', ''blocks'']" by (simp add: ms_def)
    moreover have "map_of ms ''each'' = Some (JString p)" by (simp add: ms_def)
    ultimately show ?thesis unfolding j by (simp add: finished_seen 1)
  next
    case 2
    define ms where "ms = (if ng then ''unless'' else ''if'', JString p) #
        (if s then [(''block'', hd (blockListToJson body))] else [(''blocks'', JArray (blockListToJson body))])"
    have j: "blockToJson b = JObject ms" using 2 Suc.prems by (auto simp: ms_def)
    have "parseBody (parseBlock n regs) (JObject ms) loc w = Inr ((s, body), w)"
      by (rule body_back) (use Suc.prems 2 deeper in \<open>auto simp: ms_def list_all_iff\<close>)
    moreover have "fst ` set ms \<subseteq> set [''each'', ''if'', ''unless'', ''block'', ''blocks'']"
      by (auto simp: ms_def)
    moreover have "map_of ms ''each'' = None"
      "map_of ms ''unless'' = (if ng then Some (JString p) else None)"
      "\<not> ng \<Longrightarrow> map_of ms ''if'' = Some (JString p)" by (auto simp: ms_def)
    ultimately show ?thesis unfolding j by (cases ng) (simp_all add: finished_seen 2)
  next
    case 3
    obtain ms where "blockToJson b = JObject ms" "map_of ms ''each'' = None" "map_of ms ''if'' = None"
      "map_of ms ''unless'' = None"
      using leaf_no_control [OF Suc.prems 3] by blast
    then show ?thesis using leaf_back [OF Suc.prems 3] by simp
  qed
qed simp

section \<open>Documents read back\<close>

lemma text_member_back:
  "map_of ms key = map_of (text_member key s) key \<Longrightarrow> readString (JObject ms) key = s"
  by (auto simp: text_member_def readString_def find_string_def split: if_splits)

lemma text_member_lookup: "map_of (text_member k s @ ms) key =
    (if key = k \<and> s \<noteq> [] then Some (JString s) else map_of ms key)"
  by (simp add: text_member_def)

lemma number_field_back:
  "map_of ms key = map_option json_number x \<Longrightarrow> number_field (JObject ms) key = x"
  by (cases x) (simp_all add: number_field_def json_number_def)

lemma margins_json_back:
  assumes "opt_ok (mg_top_dots m)" "opt_ok (mg_bottom_dots m)"
    "map_of ms ''margins'' = (if margins_any m then Some (margins_json m) else None)"
  shows "parse_margins (JObject ms) w = Inr (m, w)"
proof (cases "margins_any m")
  case True
  define gs where "gs = member ''topDots'' int_json (mg_top_dots m) @
       member ''bottomDots'' int_json (mg_bottom_dots m) @
       member ''topMm'' json_number (mg_top_mm m) @ member ''bottomMm'' json_number (mg_bottom_mm m)"
  have l: "map_of gs ''topDots'' = map_option int_json (mg_top_dots m)"
    "map_of gs ''bottomDots'' = map_option int_json (mg_bottom_dots m)"
    "map_of gs ''topMm'' = map_option json_number (mg_top_mm m)"
    "map_of gs ''bottomMm'' = map_option json_number (mg_bottom_mm m)"
    unfolding gs_def by (simp_all add: map_of_member del: map_of_append split: option.split)
  have k: "fst ` set gs \<subseteq> set [''topDots'', ''bottomDots'', ''topMm'', ''bottomMm'']"
    unfolding gs_def by (auto simp: member_def split: option.splits)
  show ?thesis
    using True assms(3) readInt_member [OF l(1) assms(1)] readInt_member [OF l(2) assms(2)]
      number_field_back [OF l(3)] number_field_back [OF l(4)] finishP_seen [OF k]
    by (simp add: parse_margins_def margins_json_def gs_def [symmetric])
next
  case False
  then show ?thesis using assms(3)
    by (cases m) (simp add: parse_margins_def margins_any_def no_margins_def)
qed

lemma meta_back:
  assumes "opt_ok (mg_top_dots (me_margins m))" "opt_ok (mg_bottom_dots (me_margins m))"
    "map_of ms ''meta'' = (if meta_members m \<noteq> [] then Some (JObject (meta_members m)) else None)"
  shows "parse_meta (JObject ms) w = Inr (m, w)"
proof -
  define gs where "gs = meta_members m"
  have l: "map_of gs ''locale'' = map_of (text_member ''locale'' (me_locale m)) ''locale''"
    "map_of gs ''currency'' = map_of (text_member ''currency'' (me_currency m)) ''currency''"
    "map_of gs ''tz'' = map_of (text_member ''tz'' (me_tz m)) ''tz''"
    "map_of gs ''cut'' = map_option (JString \<circ> cut_request_name) (me_cut m)"
    "map_of gs ''margins'' = (if margins_any (me_margins m) then Some (margins_json (me_margins m)) else None)"
    unfolding gs_def meta_members_def
    by (simp_all add: map_of_member text_member_lookup del: map_of_append split: option.split)
      (simp_all add: text_member_def)
  have k: "fst ` set gs \<subseteq> set [''locale'', ''currency'', ''tz'', ''cut'', ''margins'']"
    unfolding gs_def meta_members_def by (auto simp: member_def text_member_def split: option.splits)
  have c: "cut_requestP (JObject gs) w = Inr (me_cut m, w)"
    using l(4) by (cases "me_cut m") (simp_all add: cut_requestP_def)
  show ?thesis
  proof (cases "gs = []")
    case True
    then have "m = no_meta"
      unfolding gs_def meta_members_def
      by (cases m) (auto simp: no_meta_def text_member_def member_def margins_any_def no_margins_def
          split: if_splits option.splits)
    then show ?thesis using True assms(3) by (simp add: parse_meta_def gs_def)
  next
    case False
    then show ?thesis
      using assms(3) c margins_json_back [OF assms(1,2) l(5)] finishP_seen [OF k]
        text_member_back [OF l(1)] text_member_back [OF l(2)] text_member_back [OF l(3)]
      by (simp add: parse_meta_def gs_def)
  qed
qed

lemma styles_json_map:
  assumes "distinct (map fst acc @ map fst styles)"
  shows "foldl (\<lambda>ms (k, s). put_member k (styleToJson s) ms) (map (\<lambda>(k, s). (k, styleToJson s)) acc) styles =
    map (\<lambda>(k, s). (k, styleToJson s)) (acc @ styles)"
  using assms
proof (induction styles arbitrary: acc)
  case (Cons x styles)
  obtain k s where x: "x = (k, s)" by fastforce
  have "put_member k (styleToJson s) (map (\<lambda>(k, s). (k, styleToJson s)) acc) =
      map (\<lambda>(k, s). (k, styleToJson s)) (acc @ [(k, s)])"
    using Cons.prems x by (subst put_member_new) (auto simp: image_image case_prod_unfold)
  then show ?case using Cons.IH [of "acc @ [(k, s)]"] Cons.prems x by simp
qed simp

lemma styles_back:
  assumes "distinct (map fst styles)" "list_all (\<lambda>(_, s). style_ok s) styles"
    "map_of ms ''styles'' = (if styles \<noteq> [] then Some (styles_json styles) else None)"
  shows "parse_styles (JObject ms) w = Inr (styles, w)"
proof -
  have j: "styles_json styles = JObject (map (\<lambda>(k, s). (k, styleToJson s)) styles)"
    using styles_json_map [of "[]" styles] assms(1) by (simp add: styles_json_def)
  have "for_each (\<lambda>(name, v). bindP (parseTextStyle v (''styles.'' @ name)) (\<lambda>s. return (name, s)))
      (map (\<lambda>(k, s). (k, styleToJson s)) styles) w = Inr (styles, w)"
    by (rule for_each_back) (use assms(2) in \<open>auto simp: list_all_iff parseTextStyle_back\<close>)
  then show ?thesis using assms(3) j by (simp add: parse_styles_def)
qed

text \<open>
  C31: a document in canonical form is read back from its own JSON exactly, and without a
  warning.
\<close>

theorem document_round_trip:
  assumes "document_ok d"
  shows "parseDocument regs (documentToJson d) [] = Inr (d, [])"
proof -
  define ms where "ms = [(''v'', int_json (doc_version d))] @
       (if doc_is_template d then [(''template'', JBool True)] else []) @
       (if meta_members (doc_meta d) \<noteq> [] then [(''meta'', JObject (meta_members (doc_meta d)))] else []) @
       (if doc_styles d \<noteq> [] then [(''styles'', styles_json (doc_styles d))] else []) @
       [(''blocks'', JArray (blockListToJson (doc_blocks d)))]"
  have ok: "int_ok (doc_version d)" "opt_ok (mg_top_dots (me_margins (doc_meta d)))"
    "opt_ok (mg_bottom_dots (me_margins (doc_meta d)))" "distinct (map fst (doc_styles d))"
    "list_all (\<lambda>(_, s). style_ok s) (doc_styles d)" "list_all (block_ok block_levels) (doc_blocks d)"
    using assms by (simp_all add: document_ok_def)
  have l: "map_of ms ''template'' = (if doc_is_template d then Some (JBool True) else None)"
    "map_of ms ''meta'' = (if meta_members (doc_meta d) \<noteq> [] then Some (JObject (meta_members (doc_meta d))) else None)"
    "map_of ms ''styles'' = (if doc_styles d \<noteq> [] then Some (styles_json (doc_styles d)) else None)"
    "map_of ms ''blocks'' = Some (JArray (map blockToJson (doc_blocks d)))"
    by (simp_all add: ms_def blockListToJson_map)
  have v: "readInt (JObject ms) ''v'' [] = Inr (Some (doc_version d), [])"
    by (rule readInt_member) (simp_all add: ms_def opt_ok_def ok(1))
  have "for_each (\<lambda>(i, item). parseBlock block_levels regs item (indexed ''blocks'' i))
      (enumerate 0 (map blockToJson (doc_blocks d))) [] = Inr (doc_blocks d, [])"
    by (rule for_each_enumerate) (use ok(6) in \<open>auto simp: list_all_iff block_back\<close>)
  then have b: "parse_blocks regs (JObject ms) [] = Inr (doc_blocks d, [])"
    using l(4) by (simp add: parse_blocks_def)
  have k: "fst ` set ms \<subseteq> set [''v'', ''template'', ''meta'', ''styles'', ''blocks'']"
    by (auto simp: ms_def)
  have "documentToJson d = JObject ms" by (simp add: documentToJson_def ms_def)
  then show ?thesis
    using v meta_back [OF ok(2,3) l(2)] styles_back [OF ok(4,5) l(3)] b finishP_seen [OF k] l(1)
    by (simp add: parseDocument_def)
qed

text \<open>A document with most kinds of blocks, nested twice.\<close>

definition sample_document :: Document where
  "sample_document =
     \<lparr>doc_version = 1, doc_is_template = True,
      doc_meta = no_meta\<lparr>me_locale := ''cs-CZ'', me_cut := Some CR_Full,
        me_margins := no_margins\<lparr>mg_top_dots := Some 24\<rparr>\<rparr>,
      doc_styles = [(''h1'', empty_style\<lparr>ts_width_scale := Some 2, ts_bold := Some True\<rparr>)],
      doc_blocks =
        [TextBlock ''{{venue}}'' (no_style\<lparr>sr_name := Some ''h1''\<rparr>),
         EachBlock ''items'' False
           [ColumnsBlock [\<lparr>ce_content = ''{{name}}'', ce_width = width_of Flex 2, ce_align = None,
              ce_wrap = Some Clip, ce_style = no_style\<rparr>],
            IfBlock ''note'' True True [FeedBlock 1 (Some 12)]],
         RawBlock [27, 64, 255], CutBlock FullCut]\<rparr>"

theorem document_round_trip_witness:
  "parseDocument None (documentToJson sample_document) [] = Inr (sample_document, [])"
proof -
  have "list_all (block_ok (Suc (Suc (Suc n)))) (doc_blocks sample_document)" for n
    by (simp add: sample_document_def int_ok_def opt_ok_def style_ok_def ref_ok_def
        empty_style_def no_style_def style_empty_def cell_ok_def width_ok_def width_of_def)
  from this [of 30] have "list_all (block_ok block_levels) (doc_blocks sample_document)"
    by (simp add: block_levels_def del: block_ok.simps)
  moreover have "list_all (\<lambda>(_, s). style_ok s) (doc_styles sample_document)"
    by (simp add: sample_document_def int_ok_def opt_ok_def style_ok_def empty_style_def)
  moreover have "distinct (map fst (doc_styles sample_document))" "int_ok (doc_version sample_document)"
    "opt_ok (mg_top_dots (me_margins (doc_meta sample_document)))"
    "opt_ok (mg_bottom_dots (me_margins (doc_meta sample_document)))"
    by (simp_all add: sample_document_def int_ok_def opt_ok_def no_meta_def no_margins_def)
  ultimately have "document_ok sample_document" by (simp only: document_ok_def)
  then show ?thesis by (rule document_round_trip)
qed

section \<open>Style resolution\<close>

lemma clampScale_range: "1 \<le> fst (clampScale v loc what r) \<and> fst (clampScale v loc what r) \<le> 8"
  by (simp add: clampScale_def)

lemma resolve_scales:
  "1 \<le> rs_width_scale (fst (resolve_style d ref report loc)) \<and>
   rs_width_scale (fst (resolve_style d ref report loc)) \<le> 8 \<and>
   1 \<le> rs_height_scale (fst (resolve_style d ref report loc)) \<and>
   rs_height_scale (fst (resolve_style d ref report loc)) \<le> 8"
  using clampScale_range
  by (auto simp: resolve_style_def Let_def split: prod.splits option.splits)
    (metis fst_conv)+

text \<open>Resolution only ever adds to the report.\<close>

definition extends_report :: "RenderReport \<Rightarrow> RenderReport \<Rightarrow> bool" where
  "extends_report r r' \<longleftrightarrow> (\<exists>more. r' = r @ more)"

lemma extends_report_refl [simp]: "extends_report r r"
  by (simp add: extends_report_def)

lemma extends_report_trans: "extends_report a b \<Longrightarrow> extends_report b c \<Longrightarrow> extends_report a c"
  by (auto simp: extends_report_def)

lemma report_add_extends: "extends_report r (report_add k b rq dl p de r)"
  by (auto simp: extends_report_def report_add_def)

lemma report_has_extends: "report_has k r \<Longrightarrow> extends_report r r' \<Longrightarrow> report_has k r'"
  by (auto simp: report_has_iff extends_report_def)

lemma clampScale_extends: "extends_report r (snd (clampScale v loc what r))"
  by (simp add: clampScale_def Let_def report_add_extends)

lemma optional_scale_extends:
  "extends_report r (snd (case x of Some v \<Rightarrow> clampScale v loc what r | None \<Rightarrow> (1, r)))"
  by (cases x) (simp_all add: clampScale_extends)

lemma resolve_extends_merged:
  "extends_report (snd (merged_style d ref report loc)) (snd (resolve_style d ref report loc))"
proof -
  obtain m r0 where m: "merged_style d ref report loc = (m, r0)" by fastforce
  define p where "p = (case ts_width_scale m of Some v \<Rightarrow> clampScale v loc ''widthScale'' r0 | None \<Rightarrow> (1, r0))"
  define q where "q = (case ts_height_scale m of Some v \<Rightarrow> clampScale v loc ''heightScale'' (snd p) | None \<Rightarrow> (1, snd p))"
  have "extends_report r0 (snd p)" unfolding p_def by (rule optional_scale_extends)
  moreover have "extends_report (snd p) (snd q)" unfolding q_def by (rule optional_scale_extends)
  ultimately have "extends_report r0 (snd q)" by (rule extends_report_trans)
  moreover have "snd (resolve_style d ref report loc) = snd q"
    by (simp add: resolve_style_def m Let_def p_def q_def case_prod_unfold cong del: option.case_cong_weak)
  ultimately show ?thesis by (simp add: m)
qed

text \<open>
  Naming a style that extends \<^verbatim>\<open>default\<close>, in a document without any inheritance loop,
  puts a style cycle into the report: the default style, which every resolution starts with,
  counts as visited.
\<close>

theorem extending_default_reported_as_cycle:
  assumes "document_style d ''default'' = Some base" "ts_extends base = None"
    and "document_style d name = Some st" "ts_extends st = Some ''default''" "name \<noteq> ''default''"
  shows "report_has StyleCycle (snd (resolve_style d (no_style\<lparr>sr_name := Some name\<rparr>) [] loc))"
proof -
  have c: "applyChain d loc ''default'' (into, [name, ''default''], r) =
      (into, [name, ''default''], report_add StyleCycle loc (''extends:'' @ ''default'') ''chain broken''
         Hardware ''named style inheritance loops'' r)" for into r
    using assms(1) by (simp add: applyChain.simps)
  have "report_has StyleCycle (snd (merged_style d (no_style\<lparr>sr_name := Some name\<rparr>) [] loc))"
    using assms c
    by (simp add: merged_style_def applyChain.simps [of d loc name] no_style_def empty_style_def Let_def
        report_has_iff report_add_def)
  then show ?thesis by (rule report_has_extends [OF _ resolve_extends_merged])
qed

theorem extending_default_reported_as_cycle_witness:
  "report_has StyleCycle (snd (resolve_style
     \<lparr>doc_version = 1, doc_is_template = False, doc_meta = no_meta,
      doc_styles = [(''default'', empty_style), (''h1'', empty_style\<lparr>ts_extends := Some ''default''\<rparr>)],
      doc_blocks = []\<rparr> (no_style\<lparr>sr_name := Some ''h1''\<rparr>) [] ''blocks[0]''))"
  by (rule extending_default_reported_as_cycle [where base = empty_style and
        st = "empty_style\<lparr>ts_extends := Some ''default''\<rparr>"])
    (simp_all add: document_style_def empty_style_def)

end
