(* ===== verification/Receipt_Barcode.thy ===== *)
theory Receipt_Barcode imports
  Receipt_Document
begin

text \<open>
  \<^verbatim>\<open>dsl/src/barcode.cpp\<close>: the check digits of EAN, the choice of code sets in Code 128, and the
  \<^verbatim>\<open>GS k\<close> command. The specification is a reader of the command, which knows the two code sets
  and the check rule and nothing of how the encoder chose.
\<close>

section \<open>The code\<close>

datatype BarcodeError = BE_None | BE_UnsupportedSymbology | BE_InvalidData | BE_TooLong

fun barcode_error_name :: "BarcodeError \<Rightarrow> string" where
  "barcode_error_name BE_None = ''none''"
| "barcode_error_name BE_UnsupportedSymbology = ''unsupported symbology''"
| "barcode_error_name BE_InvalidData = ''invalid data''"
| "barcode_error_name BE_TooLong = ''too long''"

record BarcodeEncoding =
  be_ok :: bool
  be_error :: BarcodeError
  be_message :: string
  be_m :: u8
  be_data :: bytes
  be_text :: string
  be_modules :: int

definition no_encoding :: BarcodeEncoding where
  "no_encoding = \<lparr>be_ok = False, be_error = BE_None, be_message = [], be_m = 0, be_data = [],
     be_text = [], be_modules = 0\<rparr>"

definition kEan13 :: u8 where "kEan13 = 67"
definition kEan8 :: u8 where "kEan8 = 68"
definition kCode128 :: u8 where "kCode128 = 73"
definition kMaxDataBytes :: nat where "kMaxDataBytes = 255"

definition allDigits :: "string \<Rightarrow> bool" where
  "allDigits text \<longleftrightarrow> text \<noteq> [] \<and> list_all is_digit text"

definition failure :: "BarcodeError \<Rightarrow> string \<Rightarrow> BarcodeEncoding" where
  "failure error message = no_encoding\<lparr>be_error := error, be_message := message\<rparr>"

definition digitRun :: "string \<Rightarrow> nat" where
  "digitRun rest = length (takeWhile is_digit rest)"

definition isBarcodeSupported :: "Symbology \<Rightarrow> bool" where
  "isBarcodeSupported symbology \<longleftrightarrow> symbology \<in> {Code128, Ean13, Ean8}"

text \<open>The loop runs over the positions from the left; the digit next to the check weighs 3.\<close>

definition ean_sum :: "string \<Rightarrow> nat" where
  "ean_sum digits =
     (\<Sum>i\<leftarrow>[0..<length digits].
        digit_nat (digits ! i) * (if even (length digits - 1 - i) then 3 else 1))"

definition eanCheckDigit :: "string \<Rightarrow> int" where
  "eanCheckDigit digits =
     (if \<not> allDigits digits then - 1 else (10 - int (ean_sum digits) mod 10) mod 10)"

definition encodeEan :: "string \<Rightarrow> nat \<Rightarrow> u8 \<Rightarrow> string \<Rightarrow> int \<Rightarrow> BarcodeEncoding" where
  "encodeEan digits body m name modules =
     (let total = body + 1;
          accept = (\<lambda>full. no_encoding\<lparr>be_ok := True, be_m := m, be_data := bytes_of full,
                       be_text := full, be_modules := modules\<rparr>) in
      if \<not> allDigits digits then failure BE_InvalidData (name @ '' takes digits only'')
      else if length digits = body then
        accept (digits @ [char_of (48 + nat (eanCheckDigit digits))])
      else if length digits = total then
        let check = eanCheckDigit (take body digits) in
        if int (digit_nat (digits ! body)) \<noteq> check
        then failure BE_InvalidData (name @ '' check digit is '' @ dec_digits (digit_nat (digits ! body)) @
               '', expected '' @ int_digits check)
        else accept digits
      else failure BE_InvalidData (name @ '' takes '' @ dec_digits body @ '' or '' @ dec_digits total @
             '' digits, got '' @ dec_digits (length digits)))"

definition encodeEan13 :: "string \<Rightarrow> BarcodeEncoding" where
  "encodeEan13 digits = encodeEan digits 12 kEan13 ''ean13'' (95 + 11 + 7)"

definition encodeEan8 :: "string \<Rightarrow> BarcodeEncoding" where
  "encodeEan8 digits = encodeEan digits 7 kEan8 ''ean8'' (67 + 7 + 7)"

definition code128_byte :: "char \<Rightarrow> bool" where
  "code128_byte c \<longleftrightarrow> \<not> (byte_of c < 0x20 \<or> byte_of c > 0x7E)"

definition hex_nibble :: "u8 \<Rightarrow> char" where
  "hex_nibble b = ''0123456789ABCDEF'' ! unat (b AND 0x0F)"

text \<open>\<^verbatim>\<open>pushEscape\<close> and \<^verbatim>\<open>pushSubsetB\<close>: the bytes of one symbol each.\<close>

definition escape_to :: "char \<Rightarrow> bytes" where
  "escape_to letter = [0x7B, byte_of letter]"

definition subset_b :: "char \<Rightarrow> bytes" where
  "subset_b c = (if c = CHR 0x7B then [0x7B, byte_of c] else [byte_of c])"

definition switch_to_c :: "string \<Rightarrow> bool" where
  "switch_to_c rest \<longleftrightarrow> 6 \<le> digitRun rest \<or> (digitRun rest = length rest \<and> 4 \<le> digitRun rest)"

text \<open>The main loop, over the text still to be encoded: the bytes of each symbol pushed.\<close>

function code128_go :: "bool \<Rightarrow> string \<Rightarrow> bytes list" where
  "code128_go in_c [] = []"
| "code128_go True (c # rest) =
     (if 2 \<le> digitRun (c # rest)
      then [word_of_nat (digit_nat c * 10 + digit_nat (hd rest))] # code128_go True (tl rest)
      else escape_to CHR ''B'' # code128_go False (c # rest))"
| "code128_go False (c # rest) =
     (if switch_to_c (c # rest) \<and> even (digitRun (c # rest))
      then escape_to CHR ''C'' # code128_go True (c # rest)
      else subset_b c # code128_go False rest)"
  by pat_completeness auto

termination
proof (relation "inv_image (less_than <*lex*> less_than)
    (\<lambda>(in_c, rest). (length rest, if in_c then (if 2 \<le> digitRun rest then 0 else 2) else (1::nat)))")
  fix c :: char and rest :: string
  assume "switch_to_c (c # rest) \<and> even (digitRun (c # rest))"
  then show "((True, c # rest), (False, c # rest)) \<in> inv_image (less_than <*lex*> less_than)
      (\<lambda>(in_c, rest). (length rest, if in_c then (if 2 \<le> digitRun rest then 0 else 2) else (1::nat)))"
    by (auto simp: switch_to_c_def)
qed auto

declare code128_go.simps [simp del]

definition encodeCode128 :: "string \<Rightarrow> BarcodeEncoding" where
  "encodeCode128 data =
     (if data = [] then failure BE_InvalidData ''code128 needs at least one character''
      else case find (\<lambda>c. \<not> code128_byte c) data of
          Some c \<Rightarrow> failure BE_InvalidData
            (''code128 subset B covers 0x20..0x7E; byte 0x'' @
             [hex_nibble (drop_bit 4 (byte_of c)), hex_nibble (byte_of c)] @ '' is outside it'')
        | None \<Rightarrow>
            let lead = digitRun data;
                in_c = (even lead \<and> (4 \<le> lead \<or> length data = 2 \<and> lead = 2));
                symbols = escape_to (if in_c then CHR ''C'' else CHR ''B'') # code128_go in_c data;
                out = concat symbols in
            if length out > kMaxDataBytes
            then failure BE_TooLong (''code128 encodes to '' @ dec_digits (length out) @
                   '' bytes; GS k carries at most '' @ dec_digits kMaxDataBytes)
            else no_encoding\<lparr>be_ok := True, be_m := kCode128, be_data := out, be_text := data,
                   be_modules := 11 * (int (length symbols) + 1) + 13 + 20\<rparr>)"

definition encodeBarcode :: "Symbology \<Rightarrow> string \<Rightarrow> BarcodeEncoding" where
  "encodeBarcode symbology data =
     (case symbology of
        Code128 \<Rightarrow> encodeCode128 data
      | Ean13 \<Rightarrow> encodeEan13 data
      | Ean8 \<Rightarrow> encodeEan8 data
      | _ \<Rightarrow> failure BE_UnsupportedSymbology
               (symbology_name symbology @ '' is not implemented on the hardware path''))"

definition clamp_int :: "int \<Rightarrow> int \<Rightarrow> int \<Rightarrow> int" where
  "clamp_int v lo hi = (if v < lo then lo else if hi < v then hi else v)"

fun hri_position :: "Hri \<Rightarrow> u8" where
  "hri_position HriNone = 0"
| "hri_position HriAbove = 1"
| "hri_position HriBelow = 2"
| "hri_position HriBoth = 3"

text \<open>The command and whether an operand was clamped.\<close>

definition barcodeCommands :: "BarcodeEncoding \<Rightarrow> int \<Rightarrow> int \<Rightarrow> Hri \<Rightarrow> bytes \<times> bool" where
  "barcodeCommands encoding height_dots module_width hri =
     (if \<not> be_ok encoding \<or> be_data encoding = [] \<or> length (be_data encoding) > kMaxDataBytes
      then ([], False)
      else let height = clamp_int height_dots 1 255; width = clamp_int module_width 1 6 in
        ([0x1D, 0x68, word_of_int height] @
         [0x1D, 0x77, word_of_int width] @
         [0x1D, 0x48, hri_position hri] @
         [0x1D, 0x6B, be_m encoding, word_of_nat (length (be_data encoding))] @ be_data encoding,
         height \<noteq> height_dots \<or> width \<noteq> module_width))"

section \<open>A reader of the command\<close>

text \<open>
  Code 128 as a printer reads it: a brace followed by a letter selects a code set, a doubled
  brace is a brace, set B is a character per byte and set C two digits per byte. The result is
  the text and the number of symbols drawn.
\<close>

definition two_digits :: "u8 \<Rightarrow> string" where
  "two_digits b = [char_of (48 + unat b div 10), char_of (48 + unat b mod 10)]"

definition after_symbol :: "string \<Rightarrow> (string \<times> nat) option \<Rightarrow> (string \<times> nat) option" where
  "after_symbol s r = map_option (\<lambda>(t, n). (s @ t, Suc n)) r"

fun read_code128 :: "bool option \<Rightarrow> bytes \<Rightarrow> (string \<times> nat) option" where
  "read_code128 mode [] = Some ([], 0)"
| "read_code128 mode [b] =
     (if b = 0x7B then None
      else case mode of
          None \<Rightarrow> None
        | Some True \<Rightarrow> if unat b < 100 then Some (two_digits b, 1) else None
        | Some False \<Rightarrow> Some ([char_of_byte b], 1))"
| "read_code128 mode (b # c # rest) =
     (if b = 0x7B then
        (if c = byte_of CHR ''B'' then after_symbol [] (read_code128 (Some False) rest)
         else if c = byte_of CHR ''C'' then after_symbol [] (read_code128 (Some True) rest)
         else if c = 0x7B \<and> mode = Some False
           then after_symbol [CHR 0x7B] (read_code128 mode rest)
         else None)
      else case mode of
          None \<Rightarrow> None
        | Some True \<Rightarrow>
            if unat b < 100 then after_symbol (two_digits b) (read_code128 mode (c # rest)) else None
        | Some False \<Rightarrow> after_symbol [char_of_byte b] (read_code128 mode (c # rest)))"

text \<open>The EAN check: the digits from the right weigh 1, 3, 1, 3 and their sum ends in zero.\<close>

fun weighted :: "nat \<Rightarrow> string \<Rightarrow> nat" where
  "weighted w [] = 0"
| "weighted w (c # cs) = digit_nat c * w + weighted (4 - w) cs"

definition ean_valid :: "string \<Rightarrow> bool" where
  "ean_valid digits \<longleftrightarrow> list_all is_digit digits \<and> weighted 1 (rev digits) mod 10 = 0"

fun read_symbol :: "u8 \<Rightarrow> bytes \<Rightarrow> (string \<times> nat) option" where
  "read_symbol m data =
     (if m = 73 then read_code128 None data
      else let digits = map char_of_byte data in
        if (m = 67 \<and> length digits = 13 \<or> m = 68 \<and> length digits = 8) \<and> ean_valid digits
        then Some (digits, length digits) else None)"

text \<open>The three operands, the length byte of \<^verbatim>\<open>GS k\<close>, and exactly as many bytes as it says.\<close>

fun read_command :: "bytes \<Rightarrow> (u8 \<times> u8 \<times> u8 \<times> (string \<times> nat) option) option" where
  "read_command (g1 # h # tall # g2 # w # wide # g3 # hh # hri # g4 # k # m # n # data) =
     (if [g1, h, g2, w, g3, hh, g4, k] = [0x1D, 0x68, 0x1D, 0x77, 0x1D, 0x48, 0x1D, 0x6B] \<and>
         length data = unat n
      then Some (tall, wide, hri, read_symbol m data) else None)"
| "read_command _ = None"

section \<open>Code 128 reads back\<close>

lemma after_symbol_simps [simp]:
  "after_symbol s (Some (t, n)) = Some (s @ t, Suc n)" "after_symbol s None = None"
  by (simp_all add: after_symbol_def)

lemma read_escape [simp]:
  "read_code128 mode (escape_to CHR ''B'' @ rest) = after_symbol [] (read_code128 (Some False) rest)"
  "read_code128 mode (escape_to CHR ''C'' @ rest) = after_symbol [] (read_code128 (Some True) rest)"
  by (simp_all add: escape_to_def)

lemma read_pair:
  assumes "unat b < 100"
  shows "read_code128 (Some True) (b # rest) = after_symbol (two_digits b) (read_code128 (Some True) rest)"
proof -
  have "b \<noteq> 0x7B" using assms by auto
  then show ?thesis using assms by (cases rest) simp_all
qed

lemma read_subset_b:
  "read_code128 (Some False) (subset_b c @ rest) = after_symbol [c] (read_code128 (Some False) rest)"
proof -
  have brace: "byte_of CHR 0x7B = 0x7B" by code_simp
  then have "byte_of c = 0x7B \<longleftrightarrow> c = CHR 0x7B" by (metis byte_of_inject)
  moreover have "byte_of CHR ''B'' \<noteq> 0x7B" "byte_of CHR ''C'' \<noteq> 0x7B" by code_simp+
  ultimately show ?thesis by (cases rest) (auto simp: subset_b_def brace)
qed

lemma digit_value: "is_digit c \<Longrightarrow> digit_nat c < 10 \<and> char_of (48 + digit_nat c) = c"
  by (auto simp: is_digit_def digit_nat_def)

lemma pair_value:
  assumes "is_digit c" "is_digit d"
  shows "unat (word_of_nat (digit_nat c * 10 + digit_nat d) :: u8) < 100"
    "two_digits (word_of_nat (digit_nat c * 10 + digit_nat d)) = [c, d]"
proof -
  have v: "digit_nat c < 10" "digit_nat d < 10" using assms digit_value by auto
  then have u: "unat (word_of_nat (digit_nat c * 10 + digit_nat d) :: u8) = digit_nat c * 10 + digit_nat d"
    by (subst unat_of_nat) simp
  then show "unat (word_of_nat (digit_nat c * 10 + digit_nat d) :: u8) < 100" using v by simp
  show "two_digits (word_of_nat (digit_nat c * 10 + digit_nat d)) = [c, d]"
    unfolding two_digits_def u using assms v digit_value by simp
qed

lemma digitRun_two:
  assumes "2 \<le> digitRun (c # rest)"
  shows "is_digit c" "rest \<noteq> []" "is_digit (hd rest)"
  using assms by (cases rest; auto simp: digitRun_def split: if_splits)+

lemma code128_go_reads_back:
  "read_code128 (Some in_c) (concat (code128_go in_c data)) = Some (data, length (code128_go in_c data))"
proof (induction in_c data rule: code128_go.induct)
  case (2 c rest)
  show ?case
  proof (cases "2 \<le> digitRun (c # rest)")
    case True
    have d: "is_digit c" "rest \<noteq> []" "is_digit (hd rest)" using digitRun_two [OF True] by auto
    then show ?thesis
      using 2(1) [OF True] True pair_value [OF d(1,3)]
      by (simp add: code128_go.simps(2) read_pair)
  next
    case False
    then show ?thesis using 2(2) [OF False] by (simp add: code128_go.simps(2))
  qed
next
  case (3 c rest)
  show ?case
  proof (cases "switch_to_c (c # rest) \<and> even (digitRun (c # rest))")
    case True
    then show ?thesis using 3(1) [OF True] by (simp add: code128_go.simps(3))
  next
    case False
    have "code128_go False (c # rest) = subset_b c # code128_go False rest"
      by (subst code128_go.simps(3)) (simp only: False if_False)
    then show ?thesis using 3(2) [OF False] by (simp add: read_subset_b)
  qed
qed (simp add: code128_go.simps)

lemma encodeCode128_ok:
  assumes "be_ok (encodeCode128 data)"
  shows "be_m (encodeCode128 data) = 73" "be_text (encodeCode128 data) = data"
    "length (be_data (encodeCode128 data)) \<le> 255" "be_data (encodeCode128 data) \<noteq> []"
    "\<exists>n. read_code128 None (be_data (encodeCode128 data)) = Some (data, n) \<and>
       be_modules (encodeCode128 data) = 11 * (int n + 1) + 33"
proof -
  define in_c where "in_c = (even (digitRun data) \<and> (4 \<le> digitRun data \<or> length data = 2 \<and> digitRun data = 2))"
  define symbols where "symbols = escape_to (if in_c then CHR ''C'' else CHR ''B'') # code128_go in_c data"
  have e: "encodeCode128 data = no_encoding\<lparr>be_ok := True, be_m := kCode128, be_data := concat symbols,
      be_text := data, be_modules := 11 * (int (length symbols) + 1) + 13 + 20\<rparr>" and
    l: "length (concat symbols) \<le> 255"
    using assms
    by (auto simp: encodeCode128_def failure_def no_encoding_def symbols_def in_c_def Let_def
        kMaxDataBytes_def split: option.splits if_splits)
  have "read_code128 None (concat symbols) = Some (data, length symbols)"
    using code128_go_reads_back [of in_c data] by (cases in_c) (simp_all add: symbols_def)
  then show "\<exists>n. read_code128 None (be_data (encodeCode128 data)) = Some (data, n) \<and>
       be_modules (encodeCode128 data) = 11 * (int n + 1) + 33"
    by (simp add: e)
  show "be_m (encodeCode128 data) = 73" "be_text (encodeCode128 data) = data"
    "length (be_data (encodeCode128 data)) \<le> 255" "be_data (encodeCode128 data) \<noteq> []"
    using l by (simp_all add: e kCode128_def) (simp add: symbols_def escape_to_def)
qed

section \<open>EAN check digits\<close>

lemma sum_weighted:
  assumes "w \<le> 4"
  shows "(\<Sum>i\<leftarrow>[0..<length ds]. digit_nat (ds ! i) * (if even (length ds - 1 - i) then w else 4 - w)) =
    weighted w (rev ds)"
  using assms
proof (induction ds arbitrary: w rule: rev_induct)
  case (snoc c ds)
  have "(\<Sum>i\<leftarrow>[0..<length ds]. digit_nat ((ds @ [c]) ! i) * (if even (length (ds @ [c]) - 1 - i) then w else 4 - w)) =
      (\<Sum>i\<leftarrow>[0..<length ds]. digit_nat (ds ! i) * (if even (length ds - 1 - i) then 4 - w else 4 - (4 - w)))"
    using snoc.prems by (intro arg_cong [where f = sum_list] map_cong) (auto simp: nth_append Suc_diff_Suc)
  then show ?case using snoc.IH [of "4 - w"] snoc.prems by simp
qed simp

lemma ean_sum_weighted: "ean_sum digits = weighted 3 (rev digits)"
proof -
  have one: "4 - 3 = (1 :: nat)" by simp
  show ?thesis using sum_weighted [of 3 digits] unfolding one ean_sum_def by simp
qed

lemma check_digit:
  assumes "allDigits digits"
  shows "0 \<le> eanCheckDigit digits \<and> eanCheckDigit digits < 10 \<and>
    (nat (eanCheckDigit digits) + ean_sum digits) mod 10 = 0"
proof -
  have "eanCheckDigit digits = (10 - int (ean_sum digits) mod 10) mod 10"
    using assms by (simp add: eanCheckDigit_def)
  then show ?thesis by presburger
qed

lemma digit_of_value: "v < 10 \<Longrightarrow> is_digit (char_of (48 + v)) \<and> digit_nat (char_of (48 + v)) = v"
  by (simp add: is_digit_def digit_nat_def)

lemma check_completes:
  assumes "allDigits digits" "is_digit c" "int (digit_nat c) = eanCheckDigit digits"
  shows "ean_valid (digits @ [c])"
proof -
  have "digit_nat c = nat (eanCheckDigit digits)" using assms(3) by linarith
  then have "(digit_nat c + weighted 3 (rev digits)) mod 10 = 0"
    using check_digit [OF assms(1)] by (simp only: ean_sum_weighted)
  then show ?thesis using assms by (simp add: ean_valid_def allDigits_def)
qed

lemma encodeEan_ok:
  assumes "be_ok (encodeEan digits body m name modules)" "0 < body"
  shows "ean_valid (be_text (encodeEan digits body m name modules))"
    "length (be_text (encodeEan digits body m name modules)) = body + 1"
    "be_data (encodeEan digits body m name modules) = bytes_of (be_text (encodeEan digits body m name modules))"
    "be_m (encodeEan digits body m name modules) = m"
    "\<exists>rest. be_text (encodeEan digits body m name modules) = digits @ rest \<and> length rest \<le> 1"
proof -
  let ?e = "encodeEan digits body m name modules"
  have d: "allDigits digits" using assms(1)
    by (auto simp: encodeEan_def failure_def no_encoding_def split: if_splits)
  consider (short) "length digits = body"
      "be_text ?e = digits @ [char_of (48 + nat (eanCheckDigit digits))]"
    | (full) "length digits = body + 1" "int (digit_nat (digits ! body)) = eanCheckDigit (take body digits)"
      "be_text ?e = digits"
    using assms(1) d by (auto simp: encodeEan_def failure_def no_encoding_def Let_def split: if_splits)
  then have *: "ean_valid (be_text ?e) \<and> length (be_text ?e) = body + 1 \<and>
      (\<exists>rest. be_text ?e = digits @ rest \<and> length rest \<le> 1)"
  proof cases
    case short
    have c: "nat (eanCheckDigit digits) < 10" "0 \<le> eanCheckDigit digits" using check_digit [OF d] by auto
    have "ean_valid (digits @ [char_of (48 + nat (eanCheckDigit digits))])"
      by (rule check_completes [OF d]) (use c digit_of_value [OF c(1)] in auto)
    then show ?thesis using short by simp
  next
    case full
    have "digits = take body digits @ [digits ! body]"
      using full(1) take_Suc_conv_app_nth [of body digits] by simp
    moreover have "allDigits (take body digits)" using d full(1) assms(2)
      by (auto simp: allDigits_def list_all_iff dest: in_set_takeD)
    moreover have "is_digit (digits ! body)" using d full(1) by (simp add: allDigits_def list_all_length)
    ultimately have "ean_valid digits" using check_completes full(2) by metis
    then show ?thesis using full by simp
  qed
  then show "ean_valid (be_text ?e)" "length (be_text ?e) = body + 1"
    "\<exists>rest. be_text ?e = digits @ rest \<and> length rest \<le> 1" by auto
  show "be_data ?e = bytes_of (be_text ?e)" "be_m ?e = m" using assms(1)
    by (auto simp: encodeEan_def failure_def no_encoding_def Let_def split: if_splits)
qed

section \<open>The command reads back\<close>

lemma operand_in_range:
  assumes "0 \<le> lo" "lo \<le> hi" "hi < 256"
  shows "int (unat (word_of_int (clamp_int v lo hi) :: u8)) = clamp_int v lo hi"
  using assms by (auto simp: clamp_int_def unsigned_of_int take_bit_eq_mod)

lemma ean_reads_back:
  assumes "be_ok (encodeEan content body m name modules)" "m = 67 \<and> body = 12 \<or> m = 68 \<and> body = 7"
  shows "be_data (encodeEan content body m name modules) \<noteq> [] \<and>
    length (be_data (encodeEan content body m name modules)) \<le> 255 \<and>
    (\<exists>n rest. read_symbol (be_m (encodeEan content body m name modules))
         (be_data (encodeEan content body m name modules)) =
       Some (be_text (encodeEan content body m name modules), n) \<and>
       be_text (encodeEan content body m name modules) = content @ rest \<and> length rest \<le> 1)"
proof -
  have "0 < body" using assms(2) by auto
  note ok = encodeEan_ok [OF assms(1) this]
  then have "map char_of_byte (be_data (encodeEan content body m name modules)) =
      be_text (encodeEan content body m name modules)"
    by (simp only: map_char_of_bytes_of)
  moreover have "be_data (encodeEan content body m name modules) \<noteq> []"
    "length (be_data (encodeEan content body m name modules)) \<le> 255"
    using ok(2,3) assms(2) by auto
  ultimately show ?thesis
    using ok(1,2,4,5) assms(2) by (auto simp: Let_def simp del: map_map)
qed

lemma encoding_reads_back:
  assumes "be_ok (encodeBarcode symbology content)"
  shows "be_data (encodeBarcode symbology content) \<noteq> []"
    "length (be_data (encodeBarcode symbology content)) \<le> 255"
    "\<exists>n rest. read_symbol (be_m (encodeBarcode symbology content)) (be_data (encodeBarcode symbology content)) =
       Some (be_text (encodeBarcode symbology content), n) \<and>
       be_text (encodeBarcode symbology content) = content @ rest \<and> length rest \<le> 1"
proof -
  consider "symbology = Code128" | "symbology = Ean13" | "symbology = Ean8"
    using assms by (cases symbology) (auto simp: encodeBarcode_def failure_def no_encoding_def)
  then have "be_data (encodeBarcode symbology content) \<noteq> [] \<and>
    length (be_data (encodeBarcode symbology content)) \<le> 255 \<and>
    (\<exists>n rest. read_symbol (be_m (encodeBarcode symbology content)) (be_data (encodeBarcode symbology content)) =
       Some (be_text (encodeBarcode symbology content), n) \<and>
       be_text (encodeBarcode symbology content) = content @ rest \<and> length rest \<le> 1)"
  proof cases
    case 1
    then have "be_ok (encodeCode128 content)" using assms by (simp add: encodeBarcode_def)
    then show ?thesis using 1 encodeCode128_ok [of content] by (auto simp: encodeBarcode_def)
  next
    case 2
    then show ?thesis
      using assms ean_reads_back [of content 12 kEan13] by (simp add: encodeBarcode_def encodeEan13_def kEan13_def)
  next
    case 3
    then show ?thesis
      using assms ean_reads_back [of content 7 kEan8] by (simp add: encodeBarcode_def encodeEan8_def kEan8_def)
  qed
  then show "be_data (encodeBarcode symbology content) \<noteq> []"
    "length (be_data (encodeBarcode symbology content)) \<le> 255"
    "\<exists>n rest. read_symbol (be_m (encodeBarcode symbology content)) (be_data (encodeBarcode symbology content)) =
       Some (be_text (encodeBarcode symbology content), n) \<and>
       be_text (encodeBarcode symbology content) = content @ rest \<and> length rest \<le> 1" by auto
qed

text \<open>
  C38: the command of an accepted barcode names operands in the range of the printer and
  exactly as many data bytes as follow, and a printer that knows only the code sets and the
  check rule reads the given text off it, with at most a check digit added to it.
\<close>

theorem barcode_reads_back:
  assumes "be_ok (encodeBarcode symbology content)"
  shows "\<exists>tall wide n rest.
    read_command (fst (barcodeCommands (encodeBarcode symbology content) h w hri)) =
      Some (tall, wide, hri_position hri, Some (content @ rest, n)) \<and> length rest \<le> 1 \<and>
    int (unat tall) = max 1 (min 255 h) \<and> int (unat wide) = max 1 (min 6 w)"
proof -
  obtain n rest where r: "read_symbol (be_m (encodeBarcode symbology content))
      (be_data (encodeBarcode symbology content)) = Some (content @ rest, n)" "length rest \<le> 1"
    using encoding_reads_back(3) [OF assms] by auto
  have len: "unat (word_of_nat (length (be_data (encodeBarcode symbology content))) :: u8) =
      length (be_data (encodeBarcode symbology content))"
    using encoding_reads_back(2) [OF assms] by (simp add: unat_of_nat)
  have clamp: "clamp_int v 1 hi = max 1 (min hi v)" if "1 \<le> hi" for v hi
    using that by (simp add: clamp_int_def)
  show ?thesis
    using encoding_reads_back(1,2) [OF assms] assms r len
      operand_in_range [of 1 255 h] operand_in_range [of 1 6 w]
    by (simp add: barcodeCommands_def kMaxDataBytes_def clamp Let_def)
qed

theorem barcode_reads_back_witness:
  "\<exists>tall wide n rest.
    read_command (fst (barcodeCommands (encodeBarcode Code128 ''AB{123456'') 300 2 HriBelow)) =
      Some (tall, wide, 2, Some (''AB{123456'' @ rest, n)) \<and> length rest \<le> 1 \<and>
    int (unat tall) = 255 \<and> int (unat wide) = 2"
proof -
  have "be_ok (encodeBarcode Code128 ''AB{123456'')" by code_simp
  from barcode_reads_back [OF this, of 300 2 HriBelow] show ?thesis by simp
qed

end
