(* ===== verification/Receipt_Format.thy ===== *)
theory Receipt_Format imports
  Receipt_Document
  "HOL-Library.Monad_Syntax"
  "HOL-Library.Signed_Division"
begin

text \<open>
  \<^verbatim>\<open>dsl/src/format.cpp\<close>: the formatters a template can apply to a value: numbers, money, dates,
  padding and case. None stands for undefined behaviour: a cast of a number the target type
  does not hold, or an overflow of \<^verbatim>\<open>int\<close>. What the platform's floating point decides, the
  precision of \<^verbatim>\<open>long double\<close> and the value of \<^verbatim>\<open>std::pow\<close>, is an argument, kept with the format
  context.
\<close>

section \<open>Floating point with infinities\<close>

text \<open>
  The values the decimal parser computes: nothing is negative before the sign is applied. A
  finite result is rounded to the nearest double and overflows to infinity.
\<close>

datatype fp = Fin rat | Infinity | NotANumber

definition fp_round :: "rat \<Rightarrow> fp" where
  "fp_round q = (case double_of q of Some d \<Rightarrow> Fin d | None \<Rightarrow> Infinity)"

fun fp_add :: "fp \<Rightarrow> fp \<Rightarrow> fp" where
  "fp_add (Fin a) (Fin b) = fp_round (a + b)"
| "fp_add NotANumber _ = NotANumber"
| "fp_add _ NotANumber = NotANumber"
| "fp_add _ _ = Infinity"

fun fp_mul :: "fp \<Rightarrow> fp \<Rightarrow> fp" where
  "fp_mul (Fin a) (Fin b) = fp_round (a * b)"
| "fp_mul NotANumber _ = NotANumber"
| "fp_mul _ NotANumber = NotANumber"
| "fp_mul (Fin a) Infinity = (if a = 0 then NotANumber else Infinity)"
| "fp_mul Infinity (Fin b) = (if b = 0 then NotANumber else Infinity)"
| "fp_mul Infinity Infinity = Infinity"

fun fp_div :: "fp \<Rightarrow> fp \<Rightarrow> fp" where
  "fp_div (Fin a) (Fin b) = (if b = 0 then (if a = 0 then NotANumber else Infinity) else fp_round (a / b))"
| "fp_div NotANumber _ = NotANumber"
| "fp_div _ NotANumber = NotANumber"
| "fp_div (Fin a) Infinity = Fin 0"
| "fp_div Infinity (Fin b) = Infinity"
| "fp_div Infinity Infinity = NotANumber"

fun fp_negate :: "fp \<Rightarrow> fp" where
  "fp_negate (Fin a) = Fin (- a)"
| "fp_negate x = x"

text \<open>
  What the platform decides. An infinity loses its sign here: every user treats all
  values that are not finite alike.
\<close>

record platform_fp =
  long_double :: "rat \<Rightarrow> rat"
  pow10 :: "int \<Rightarrow> fp"

section \<open>The tables\<close>

record LocaleData =
  lc_tag :: string
  lc_group_separator :: string
  lc_decimal_separator :: string
  lc_group_size :: int
  lc_default_currency :: string
  lc_symbol_leading :: bool
  lc_currency_gap :: string
  lc_date_short :: string
  lc_date_medium :: string
  lc_date_long :: string
  lc_time_form :: string
  lc_datetime_form :: string
  lc_month_short :: "string list"
  lc_month_long :: "string list"
  lc_day_short :: "string list"
  lc_day_long :: "string list"
  lc_am :: string
  lc_pm :: string

record CurrencyData =
  cu_code :: string
  cu_symbol :: string
  cu_decimals :: int

record FormatTables =
  ft_locales :: "LocaleData list"
  ft_currencies :: "CurrencyData list"

record FormatContext =
  fc_tables :: "FormatTables option"
  fc_locale :: string
  fc_currency :: string
  fc_tz :: string
  fc_registrations :: "registrations option"
  fc_platform :: platform_fp

record FormatOutcome =
  fo_text :: string
  fo_ok :: bool
  fo_kind :: ReportKind
  fo_detail :: string

record DateTime =
  dt_year :: int
  dt_month :: int
  dt_day :: int
  dt_hour :: int
  dt_minute :: int
  dt_second :: int
  dt_millisecond :: int
  dt_has_time :: bool
  dt_has_offset :: bool
  dt_offset_minutes :: int

definition default_date :: DateTime where
  "default_date =
     \<lparr>dt_year = 1970, dt_month = 1, dt_day = 1, dt_hour = 0, dt_minute = 0, dt_second = 0,
      dt_millisecond = 0, dt_has_time = False, dt_has_offset = False, dt_offset_minutes = 0\<rparr>"

definition default_currency :: CurrencyData where
  "default_currency = \<lparr>cu_code = ''USD'', cu_symbol = ''$'', cu_decimals = 2\<rparr>"

text \<open>The members of \<^verbatim>\<open>LocaleData\<close> with their initializers; the name tables start empty.\<close>

definition default_locale :: LocaleData where
  "default_locale =
     \<lparr>lc_tag = ''en-US'', lc_group_separator = '','', lc_decimal_separator = ''.'', lc_group_size = 3,
      lc_default_currency = ''USD'', lc_symbol_leading = True, lc_currency_gap = [],
      lc_date_short = ''MM/dd/yyyy'', lc_date_medium = ''MMM d, yyyy'',
      lc_date_long = ''MMMM d, yyyy'', lc_time_form = ''h:mm a'',
      lc_datetime_form = ''MM/dd/yyyy h:mm a'', lc_month_short = [], lc_month_long = [],
      lc_day_short = [], lc_day_long = [], lc_am = ''AM'', lc_pm = ''PM''\<rparr>"

definition fallbackLocale :: LocaleData where
  "fallbackLocale = default_locale\<lparr>
     lc_month_short := [''Jan'', ''Feb'', ''Mar'', ''Apr'', ''May'', ''Jun'',
                        ''Jul'', ''Aug'', ''Sep'', ''Oct'', ''Nov'', ''Dec''],
     lc_month_long := [''January'', ''February'', ''March'', ''April'', ''May'', ''June'',
                       ''July'', ''August'', ''September'', ''October'', ''November'', ''December''],
     lc_day_short := [''Sun'', ''Mon'', ''Tue'', ''Wed'', ''Thu'', ''Fri'', ''Sat''],
     lc_day_long := [''Sunday'', ''Monday'', ''Tuesday'', ''Wednesday'', ''Thursday'', ''Friday'',
                     ''Saturday'']\<rparr>"

text \<open>Characters outside ASCII are the UTF-8 bytes of the source file.\<close>

definition utf8 :: "u32 list \<Rightarrow> string" where
  "utf8 = encode_all"

definition cs_cz :: LocaleData where
  "cs_cz = default_locale\<lparr>
     lc_tag := ''cs-CZ'', lc_group_separator := '' '', lc_decimal_separator := '','',
     lc_default_currency := ''CZK'', lc_symbol_leading := False, lc_currency_gap := '' '',
     lc_date_short := ''dd.MM.yyyy'', lc_date_medium := ''d. MMM yyyy'',
     lc_date_long := ''d. MMMM yyyy'', lc_time_form := ''HH:mm'',
     lc_datetime_form := ''dd.MM.yyyy HH:mm'',
     lc_month_short := [
        ''led'', utf8 [0xFA] @ ''no'', ''b'' @ utf8 [0x159] @ ''e'', ''dub'',
        ''kv'' @ utf8 [0x11B], utf8 [0x10D] @ ''vn'', utf8 [0x10D] @ ''vc'', ''srp'',
        ''z'' @ utf8 [0xE1, 0x159], utf8 [0x159, 0xED] @ ''j'', ''lis'', ''pro''],
     lc_month_long := [
        ''ledna'', utf8 [0xFA] @ ''nora'', ''b'' @ utf8 [0x159] @ ''ezna'',
        ''dubna'', ''kv'' @ utf8 [0x11B] @ ''tna'', utf8 [0x10D] @ ''ervna'',
        utf8 [0x10D] @ ''ervence'', ''srpna'', ''z'' @ utf8 [0xE1, 0x159, 0xED],
        utf8 [0x159, 0xED] @ ''jna'', ''listopadu'', ''prosince''],
     lc_day_short := [
        ''ne'', ''po'', utf8 [0xFA] @ ''t'', ''st'', utf8 [0x10D] @ ''t'',
        ''p'' @ utf8 [0xE1], ''so''],
     lc_day_long := [
        ''ned'' @ utf8 [0x11B] @ ''le'',
        ''pond'' @ utf8 [0x11B] @ ''l'' @ utf8 [0xED],
        utf8 [0xFA] @ ''ter'' @ utf8 [0xFD], ''st'' @ utf8 [0x159] @ ''eda'',
        utf8 [0x10D] @ ''tvrtek'', ''p'' @ utf8 [0xE1] @ ''tek'', ''sobota''],
     lc_am := ''dop.'', lc_pm := ''odp.''\<rparr>"

definition builtin :: FormatTables where
  "builtin =
     \<lparr>ft_locales = [fallbackLocale\<lparr>lc_tag := ''en-US''\<rparr>, cs_cz],
      ft_currencies =
        [\<lparr>cu_code = ''CZK'', cu_symbol = ''K'' @ utf8 [0x10D], cu_decimals = 2\<rparr>,
         \<lparr>cu_code = ''EUR'', cu_symbol = utf8 [0x20AC], cu_decimals = 2\<rparr>,
         \<lparr>cu_code = ''USD'', cu_symbol = ''$'', cu_decimals = 2\<rparr>,
         \<lparr>cu_code = ''GBP'', cu_symbol = utf8 [0xA3], cu_decimals = 2\<rparr>]\<rparr>"

definition upper_char :: "char \<Rightarrow> char" where
  "upper_char c = (if 97 \<le> (of_char c :: nat) \<and> (of_char c :: nat) \<le> 122 then char_of ((of_char c :: nat) - 32) else c)"

definition uppered :: "string \<Rightarrow> string" where
  "uppered value = map upper_char value"

fun replace_first :: "('a \<Rightarrow> bool) \<Rightarrow> 'a \<Rightarrow> 'a list \<Rightarrow> 'a list" where
  "replace_first same x [] = [x]"
| "replace_first same x (y # ys) = (if same y then x # ys else y # replace_first same x ys)"

definition addLocale :: "LocaleData \<Rightarrow> FormatTables \<Rightarrow> FormatTables" where
  "addLocale locale t = t\<lparr>ft_locales :=
     replace_first (\<lambda>existing. lowered (lc_tag existing) = lowered (lc_tag locale)) locale (ft_locales t)\<rparr>"

definition addCurrency :: "CurrencyData \<Rightarrow> FormatTables \<Rightarrow> FormatTables" where
  "addCurrency currency t = t\<lparr>ft_currencies :=
     replace_first (\<lambda>existing. uppered (cu_code existing) = uppered (cu_code currency)) currency (ft_currencies t)\<rparr>"

definition language_of :: "string \<Rightarrow> string" where
  "language_of tag = takeWhile ((\<noteq>) CHR ''-'') tag"

definition find_locale :: "string \<Rightarrow> FormatTables \<Rightarrow> LocaleData" where
  "find_locale tag t =
     (if ft_locales t = [] then fallbackLocale
      else let wanted = lowered tag; language = language_of wanted in
        case find (\<lambda>c. lowered (lc_tag c) = wanted) (ft_locales t) of
          Some c \<Rightarrow> c
        | None \<Rightarrow>
            (case (if language = [] then None
                   else find (\<lambda>c. language_of (lowered (lc_tag c)) = language) (ft_locales t)) of
               Some c \<Rightarrow> c
             | None \<Rightarrow> hd (ft_locales t)))"

definition find_currency :: "string \<Rightarrow> FormatTables \<Rightarrow> CurrencyData option" where
  "find_currency code t = find (\<lambda>c. uppered (cu_code c) = uppered code) (ft_currencies t)"

section \<open>Numbers\<close>

fun parseCount_go :: "nat \<Rightarrow> nat \<Rightarrow> string \<Rightarrow> nat" where
  "parseCount_go cap v [] = v"
| "parseCount_go cap v (c # cs) =
     (let v' = v * 10 + digit_nat c in if v' \<ge> cap then cap else parseCount_go cap v' cs)"

definition parseCount :: "string \<Rightarrow> nat \<Rightarrow> nat" where
  "parseCount text cap = parseCount_go cap 0 text"

definition is_space :: "char \<Rightarrow> bool" where
  "is_space c \<longleftrightarrow> c = CHR '' '' \<or> c = TAB"

text \<open>\<^verbatim>\<open>integral = integral * 10.0 + digit\<close>, each operation rounded.\<close>

definition fp_digit :: "fp \<Rightarrow> char \<Rightarrow> fp" where
  "fp_digit x c = fp_add (fp_mul x (Fin 10)) (Fin (of_nat (digit_nat c)))"

definition int_max :: int where
  "int_max = 2 ^ 31 - 1"

text \<open>\<^verbatim>\<open>exponent = exponent * 10 + digit\<close> on \<^verbatim>\<open>int\<close>; None is its overflow.\<close>

fun exponent_digits :: "int \<Rightarrow> string \<Rightarrow> int option" where
  "exponent_digits e [] = Some e"
| "exponent_digits e (c # cs) =
     (if e * 10 > int_max \<or> e * 10 + int (digit_nat c) > int_max then None
      else exponent_digits (e * 10 + int (digit_nat c)) cs)"

definition drop_sign :: "string \<Rightarrow> bool \<times> string" where
  "drop_sign s =
     (case s of c # cs \<Rightarrow> if c = CHR ''+'' \<or> c = CHR ''-'' then (c = CHR ''-'', cs) else (False, s)
      | [] \<Rightarrow> (False, []))"

text \<open>
  The outer option is undefined behaviour, the inner one the answer \<^verbatim>\<open>false\<close>. The parts are the
  source's paragraphs: sign, integral digits, fraction, exponent, trailing blanks.
\<close>

definition decimal_tail :: "bool \<Rightarrow> fp \<Rightarrow> string \<Rightarrow> fp option" where
  "decimal_tail negative v s =
     (if dropWhile is_space s \<noteq> [] then None else Some (if negative then fp_negate v else v))"

definition parseDecimal :: "platform_fp \<Rightarrow> string \<Rightarrow> fp option option" where
  "parseDecimal platform text =
     (let s0 = dropWhile is_space text;
          (negative, s1) = drop_sign s0;
          whole = takeWhile is_digit s1;
          s2 = dropWhile is_digit s1;
          point = (s2 \<noteq> [] \<and> hd s2 = CHR ''.'');
          part = (if point then takeWhile is_digit (tl s2) else []);
          s3 = (if point then dropWhile is_digit (tl s2) else s2);
          integral = foldl fp_digit (Fin 0) whole;
          fraction = foldl fp_digit (Fin 0) part;
          scale = foldl (\<lambda>x _. fp_mul x (Fin 10)) (Fin 1) part;
          v = fp_add integral (fp_div fraction scale) in
      if whole = [] \<and> part = [] then Some None
      else if s3 \<noteq> [] \<and> (hd s3 = CHR ''e'' \<or> hd s3 = CHR ''E'') then
        let (down, s4) = drop_sign (tl s3); digits = takeWhile is_digit s4 in
        case exponent_digits 0 digits of
          None \<Rightarrow> None
        | Some e \<Rightarrow>
            if digits = [] then Some None
            else Some (decimal_tail negative (fp_mul v (pow10 platform (if down then - e else e)))
                   (dropWhile is_digit s4))
      else Some (decimal_tail negative v s3))"

definition numericValue :: "platform_fp \<Rightarrow> Json \<Rightarrow> fp option option" where
  "numericValue platform value =
     (if isNumber value then Some (Some (Fin (asNumber value 0)))
      else if isString value then parseDecimal platform (asString value)
      else Some None)"

definition digitsOf :: "nat \<Rightarrow> string" where
  "digitsOf value = dec_digits value"

definition pad_to :: "nat \<Rightarrow> int \<Rightarrow> string" where
  "pad_to n value =
     (let digits = digitsOf (nat \<bar>value\<bar>) in replicate (n - length digits) CHR ''0'' @ digits)"

definition pad2 :: "int \<Rightarrow> string" where "pad2 value = pad_to 2 value"
definition pad3 :: "int \<Rightarrow> string" where "pad3 value = pad_to 3 value"
definition pad4 :: "int \<Rightarrow> string" where "pad4 value = pad_to 4 value"

text \<open>The loop of \<^verbatim>\<open>group\<close>: a separator before a digit with a multiple of the size still to come.\<close>

fun group_go :: "string \<Rightarrow> int \<Rightarrow> bool \<Rightarrow> string \<Rightarrow> string" where
  "group_go sep n first [] = []"
| "group_go sep n first (d # ds) =
     (if \<not> first \<and> int (length (d # ds)) mod n = 0 then sep else []) @ d # group_go sep n False ds"

definition group :: "string \<Rightarrow> LocaleData \<Rightarrow> string" where
  "group digits locale =
     (if lc_group_size locale \<le> 0 \<or> lc_group_separator locale = [] then digits
      else group_go (lc_group_separator locale) (lc_group_size locale) True digits)"

definition clamp_decimals :: "int \<Rightarrow> nat" where
  "clamp_decimals decimals = nat (min 9 (max 0 decimals))"

text \<open>The digits of the scaled number; None is the cast of 2^64 or more.\<close>

definition number_digits :: "platform_fp \<Rightarrow> rat \<Rightarrow> nat \<Rightarrow> string option" where
  "number_digits platform magnitude decimals =
     (let scaled = \<lfloor>long_double platform (long_double platform (magnitude * 10 ^ decimals) + 1 / 2)\<rfloor> in
      if scaled < 18 * 10 ^ 18 then Some (digitsOf (nat scaled))
      else if magnitude < 2 ^ 64 then
        Some (digitsOf (nat \<lfloor>magnitude\<rfloor>) @ replicate decimals CHR ''0'')
      else None)"

definition fill_digits :: "nat \<Rightarrow> string \<Rightarrow> string" where
  "fill_digits decimals digits = replicate (decimals + 1 - length digits) CHR ''0'' @ digits"

definition formatNumber :: "platform_fp \<Rightarrow> fp \<Rightarrow> int \<Rightarrow> LocaleData \<Rightarrow> string option" where
  "formatNumber platform value decimals0 locale =
     (case value of
        Fin v \<Rightarrow>
          let decimals = clamp_decimals decimals0 in
          (case number_digits platform \<bar>v\<bar> decimals of
             None \<Rightarrow> None
           | Some ds \<Rightarrow>
               let digits = fill_digits decimals ds;
                   integral = take (length digits - decimals) digits;
                   fraction = drop (length digits - decimals) digits in
               Some
                 ((if v < 0 \<and> (integral \<noteq> ''0'' \<or> list_ex ((\<noteq>) CHR ''0'') fraction) then ''-'' else []) @
                  group integral locale @
                  (if decimals > 0 then lc_decimal_separator locale @ fraction else [])))
      | _ \<Rightarrow> Some ''0'')"

definition formatMoney :: "platform_fp \<Rightarrow> fp \<Rightarrow> LocaleData \<Rightarrow> CurrencyData \<Rightarrow> string option" where
  "formatMoney platform value locale currency =
     map_option
       (\<lambda>amount.
          if lc_symbol_leading locale then cu_symbol currency @ lc_currency_gap locale @ amount
          else amount @ (if lc_currency_gap locale = [] then '' '' else lc_currency_gap locale) @
            cu_symbol currency)
       (formatNumber platform value (cu_decimals currency) locale)"

section \<open>Dates\<close>

definition daysFromCivil :: "int \<Rightarrow> int \<Rightarrow> int \<Rightarrow> int" where
  "daysFromCivil year month day =
     (let y = year - (if month \<le> 2 then 1 else 0);
          era = (if y \<ge> 0 then y else y - 399) sdiv 400;
          yoe = y - era * 400;
          doy = (153 * (month + (if month > 2 then - 3 else 9)) + 2) sdiv 5 + day - 1;
          doe = yoe * 365 + yoe div 4 - yoe div 100 + doy in
      era * 146097 + doe - 719468)"

definition civilFromDays :: "int \<Rightarrow> int \<times> int \<times> int" where
  "civilFromDays days0 =
     (let days = days0 + 719468;
          era = (if days \<ge> 0 then days else days - 146096) sdiv 146097;
          doe = days - era * 146097;
          yoe = (doe - doe div 1460 + doe div 36524 - doe div 146096) div 365;
          y = yoe + era * 400;
          doy = doe - (365 * yoe + yoe div 4 - yoe div 100);
          mp = (5 * doy + 2) div 153;
          d = doy - (153 * mp + 2) div 5 + 1;
          m = mp + (if mp < 10 then 3 else - 9) in
      (y + (if m \<le> 2 then 1 else 0), m, d))"

text \<open>\<^verbatim>\<open>%\<close> takes the sign of the dividend.\<close>

definition weekday :: "DateTime \<Rightarrow> int" where
  "weekday v =
     (let w = (daysFromCivil (dt_year v) (dt_month v) (dt_day v) + 4) smod 7 in
      if w < 0 then w + 7 else w)"

definition monthName :: "LocaleData \<Rightarrow> int \<Rightarrow> bool \<Rightarrow> string" where
  "monthName locale month long_form =
     (let names =
        (if long_form then
           (if length (lc_month_long locale) = 12 then lc_month_long locale else lc_month_long fallbackLocale)
         else
           (if length (lc_month_short locale) = 12 then lc_month_short locale
            else lc_month_short fallbackLocale)) in
      names ! nat (min 12 (max 1 month) - 1))"

definition dayName :: "LocaleData \<Rightarrow> int \<Rightarrow> bool \<Rightarrow> string" where
  "dayName locale day long_form =
     (let names =
        (if long_form then
           (if length (lc_day_long locale) = 7 then lc_day_long locale else lc_day_long fallbackLocale)
         else
           (if length (lc_day_short locale) = 7 then lc_day_short locale
            else lc_day_short fallbackLocale)) in
      names ! nat (min 6 (max 0 day)))"

text \<open>Up to two digits.\<close>

definition two_at_most :: "string \<Rightarrow> string" where
  "two_at_most s = take 2 (takeWhile is_digit s)"

definition parseFixedOffset :: "string \<Rightarrow> int option" where
  "parseFixedOffset zone =
     (let upper = uppered zone in
      if zone = [] then None
      else if upper \<in> set [''Z'', ''UTC'', ''GMT'', ''UTC+0'', ''+00:00''] then Some 0
      else
        let s = (if take 3 upper = ''UTC'' \<or> take 3 upper = ''GMT'' then drop 3 upper else upper) in
        if s = [] \<or> (hd s \<noteq> CHR ''+'' \<and> hd s \<noteq> CHR ''-'') then None
        else
          let hours = two_at_most (tl s);
              s1 = drop (length hours) (tl s);
              s2 = (if s1 \<noteq> [] \<and> hd s1 = CHR '':'' then tl s1 else s1);
              mins = two_at_most s2;
              total = int (digits_nat hours) * 60 + int (digits_nat mins) in
          if hours = [] then None
          else if drop (length mins) s2 \<noteq> [] \<or> digits_nat hours > 23 \<or> digits_nat mins > 59 then None
          else Some (if hd s = CHR ''-'' then - total else total))"

definition read_digits :: "nat \<Rightarrow> string \<Rightarrow> (int \<times> string) option" where
  "read_digits count s =
     (if length s < count \<or> \<not> list_all is_digit (take count s) then None
      else Some (int (digits_nat (take count s)), drop count s))"

definition read_char :: "char \<Rightarrow> string \<Rightarrow> string option" where
  "read_char c s = (case s of d # ds \<Rightarrow> if d = c then Some ds else None | [] \<Rightarrow> None)"

definition read_fraction :: "string \<Rightarrow> int \<times> string" where
  "read_fraction s =
     (let digits = takeWhile is_digit s in
      (int (digits_nat (take 3 (take 3 digits @ ''000''))), dropWhile is_digit s))"

definition read_offset :: "DateTime \<Rightarrow> string \<Rightarrow> DateTime option" where
  "read_offset v s =
     (if dt_hour v > 23 \<or> dt_minute v > 59 \<or> dt_second v > 60 then None
      else if s = [] then Some v
      else map_option (\<lambda>offset. v\<lparr>dt_has_offset := True, dt_offset_minutes := offset\<rparr>) (parseFixedOffset s))"

definition read_time :: "DateTime \<Rightarrow> string \<Rightarrow> DateTime option" where
  "read_time v s =
     do {
       (hour, s1) \<leftarrow> read_digits 2 s;
       s2 \<leftarrow> read_char CHR '':'' s1;
       (minute, s3) \<leftarrow> read_digits 2 s2;
       (second, s5) \<leftarrow>
         (case read_char CHR '':'' s3 of None \<Rightarrow> Some (0, s3) | Some s4 \<Rightarrow> read_digits 2 s4);
       let (millisecond, s7) =
         (case read_char CHR ''.'' s5 of None \<Rightarrow> (0, s5) | Some s6 \<Rightarrow> read_fraction s6);
       read_offset (v\<lparr>dt_hour := hour, dt_minute := minute, dt_second := second,
         dt_millisecond := millisecond, dt_has_time := True\<rparr>) s7
     }"

definition parseIso8601 :: "string \<Rightarrow> DateTime option" where
  "parseIso8601 text =
     do {
       (year, s1) \<leftarrow> read_digits 4 text;
       s2 \<leftarrow> read_char CHR ''-'' s1;
       (month, s3) \<leftarrow> read_digits 2 s2;
       s4 \<leftarrow> read_char CHR ''-'' s3;
       (day, s5) \<leftarrow> read_digits 2 s4;
       if month < 1 \<or> month > 12 \<or> day < 1 \<or> day > 31 then None
       else
         let v = default_date\<lparr>dt_year := year, dt_month := month, dt_day := day\<rparr> in
         (case s5 of
            [] \<Rightarrow> Some v
          | c # s6 \<Rightarrow> if c \<in> {CHR ''T'', CHR ''t'', CHR '' ''} then read_time v s6 else None)
     }"

text \<open>The two loops that bring the minutes into the day, with the days they count.\<close>

function raise_minutes :: "int \<Rightarrow> int \<Rightarrow> int \<times> int" where
  "raise_minutes minutes shift =
     (if minutes < 0 then raise_minutes (minutes + 24 * 60) (shift - 1) else (minutes, shift))"
  by pat_completeness auto
termination by (relation "measure (\<lambda>(minutes, _). nat (- minutes))") auto

function lower_minutes :: "int \<Rightarrow> int \<Rightarrow> int \<times> int" where
  "lower_minutes minutes shift =
     (if minutes \<ge> 24 * 60 then lower_minutes (minutes - 24 * 60) (shift + 1) else (minutes, shift))"
  by pat_completeness auto
termination by (relation "measure (\<lambda>(minutes, _). nat minutes)") auto

declare raise_minutes.simps [simp del] lower_minutes.simps [simp del]

definition shiftToOffset :: "DateTime \<Rightarrow> int \<Rightarrow> DateTime" where
  "shiftToOffset v target =
     (if \<not> dt_has_time v then v
      else
        let delta = target - (if dt_has_offset v then dt_offset_minutes v else 0);
            (raised, shift0) = raise_minutes (dt_hour v * 60 + dt_minute v + delta) 0;
            (minutes, shift) = lower_minutes raised shift0;
            out = v\<lparr>dt_hour := minutes div 60, dt_minute := minutes mod 60\<rparr>;
            moved =
              (if shift \<noteq> 0 then
                 let (year, month, day) =
                       civilFromDays (daysFromCivil (dt_year v) (dt_month v) (dt_day v) + shift)
                 in out\<lparr>dt_year := year, dt_month := month, dt_day := day\<rparr>
               else out) in
        moved\<lparr>dt_has_offset := True, dt_offset_minutes := target\<rparr>)"

section \<open>Date patterns\<close>

definition hour12 :: "DateTime \<Rightarrow> int" where
  "hour12 v = (if dt_hour v mod 12 = 0 then 12 else dt_hour v mod 12)"

text \<open>The tokens in the order they are tried, with what each prints.\<close>

definition pattern_tokens :: "LocaleData \<Rightarrow> DateTime \<Rightarrow> (string \<times> string) list" where
  "pattern_tokens locale v =
     [(''yyyy'', pad4 (dt_year v)),
      (''yy'', pad2 (dt_year v smod 100)),
      (''MMMM'', monthName locale (dt_month v) True),
      (''MMM'', monthName locale (dt_month v) False),
      (''MM'', pad2 (dt_month v)),
      (''M'', digitsOf (nat (dt_month v))),
      (''dd'', pad2 (dt_day v)),
      (''d'', digitsOf (nat (dt_day v))),
      (''EEEE'', dayName locale (weekday v) True),
      (''EEE'', dayName locale (weekday v) False),
      (''HH'', pad2 (dt_hour v)),
      (''H'', digitsOf (nat (dt_hour v))),
      (''hh'', pad2 (hour12 v)),
      (''h'', digitsOf (nat (hour12 v))),
      (''mm'', pad2 (dt_minute v)),
      (''ss'', pad2 (dt_second v)),
      (''SSS'', pad3 (dt_millisecond v)),
      (''a'', if dt_hour v < 12 then lc_am locale else lc_pm locale)]"

definition matches :: "string \<Rightarrow> string \<Rightarrow> bool" where
  "matches pattern token \<longleftrightarrow> take (length token) pattern = token"

definition quote :: char where
  "quote = CHR 0x27"

function formatDateTime :: "DateTime \<Rightarrow> string \<Rightarrow> LocaleData \<Rightarrow> string" where
  "formatDateTime v pattern locale =
     (case pattern of
        [] \<Rightarrow> []
      | c # rest \<Rightarrow>
          if c = quote then
            (if rest \<noteq> [] \<and> hd rest = quote then quote # formatDateTime v (tl rest) locale
             else takeWhile ((\<noteq>) quote) rest @
               formatDateTime v (drop (length (takeWhile ((\<noteq>) quote) rest) + 1) rest) locale)
          else case find (\<lambda>(token, _). token \<noteq> [] \<and> matches pattern token) (pattern_tokens locale v) of
              Some (token, text) \<Rightarrow> text @ formatDateTime v (drop (length token) pattern) locale
            | None \<Rightarrow> c # formatDateTime v rest locale)"
  by pat_completeness auto

termination
  by (relation "measure (\<lambda>(_, pattern, _). length pattern)")
    (auto simp: find_Some_iff Suc_le_eq)

declare formatDateTime.simps [simp del]

section \<open>The formatters\<close>

fun valueToText :: "Json \<Rightarrow> string" where
  "valueToText JNull = []"
| "valueToText (JBool b) = (if b then ''true'' else ''false'')"
| "valueToText (JNumber v l) = (if l = [] then toJson (JNumber v l) False else l)"
| "valueToText (JString s) = s"
| "valueToText (JArray items) = toJson (JArray items) False"
| "valueToText (JObject members) = toJson (JObject members) False"

definition trim :: "string \<Rightarrow> string" where
  "trim s = rev (dropWhile is_space (rev (dropWhile is_space s)))"

text \<open>What stands before the first separator and what behind it.\<close>

definition before :: "char \<Rightarrow> string \<Rightarrow> string" where
  "before c s = takeWhile ((\<noteq>) c) s"

definition behind :: "char \<Rightarrow> string \<Rightarrow> string" where
  "behind c s = drop 1 (dropWhile ((\<noteq>) c) s)"

definition formatted :: "string \<Rightarrow> FormatOutcome" where
  "formatted text = \<lparr>fo_text = text, fo_ok = True, fo_kind = Note, fo_detail = []\<rparr>"

definition declined :: "string \<Rightarrow> ReportKind \<Rightarrow> string \<Rightarrow> FormatOutcome" where
  "declined text kind detail = \<lparr>fo_text = text, fo_ok = False, fo_kind = kind, fo_detail = detail\<rparr>"

definition format_trunc :: "string \<Rightarrow> string \<Rightarrow> FormatOutcome" where
  "format_trunc text argument0 =
     (let argument = trim argument0 in
      if argument = [] \<or> \<not> list_all is_digit argument
      then declined text UnknownFormatter ''trunc needs a character count, e.g. trunc:20''
      else formatted (clip text (parseCount argument 4096)))"

definition format_pad :: "string \<Rightarrow> string \<Rightarrow> FormatOutcome" where
  "format_pad text argument =
     (let width_text = trim (before CHR '':'' argument);
          side = (if CHR '':'' \<in> set argument then trim (lowered (behind CHR '':'' argument)) else ''right'');
          columns = parseCount width_text 4096 in
      if width_text = [] \<or> \<not> list_all is_digit width_text
      then declined text UnknownFormatter ''pad needs a width, e.g. pad:8:right''
      else if side = ''left'' then formatted (pad text columns Right)
      else if side \<in> {''both'', ''center'', ''centre''} then formatted (pad text columns Center)
      else if side \<noteq> ''right'' \<and> side \<noteq> []
      then declined (pad text columns Left) UnknownFormatter ''pad side must be left, right or both''
      else formatted (pad text columns Left))"

definition rfind_text :: "string \<Rightarrow> string \<Rightarrow> nat option" where
  "rfind_text part s =
     find (\<lambda>i. take (length part) (drop i s) = part) (rev [0..<length s + 1 - length part])"

text \<open>Bare \<^verbatim>\<open>number\<close>: trailing zeros go, and the separator with them when nothing is left of it.\<close>

definition strip_fraction :: "string \<Rightarrow> string \<Rightarrow> string" where
  "strip_fraction separator text =
     (case rfind_text separator text of
        None \<Rightarrow> text
      | Some point \<Rightarrow>
          let t = rev (dropWhile ((=) CHR ''0'') (rev text)) in
          if length t = point + length separator then take point t else t)"

definition format_number :: "platform_fp \<Rightarrow> LocaleData \<Rightarrow> string \<Rightarrow> fp \<Rightarrow> string \<Rightarrow> FormatOutcome option" where
  "format_number platform locale text numeric argument0 =
     (let argument = trim argument0 in
      if argument = [] then
        map_option (\<lambda>t. formatted (strip_fraction (lc_decimal_separator locale) t))
          (formatNumber platform numeric 6 locale)
      else if \<not> list_all is_digit argument then
        Some (declined text UnknownFormatter ''number needs a decimal count, e.g. number:2'')
      else map_option formatted (formatNumber platform numeric (int (parseCount argument 9)) locale))"

definition format_money :: "FormatContext \<Rightarrow> FormatTables \<Rightarrow> LocaleData \<Rightarrow> fp \<Rightarrow> string \<Rightarrow> FormatOutcome option" where
  "format_money context tables locale numeric argument0 =
     (let argument = trim argument0;
          code0 = (if argument = [] then fc_currency context else argument);
          code = (if code0 = [] then lc_default_currency locale else code0) in
      case find_currency code tables of
        None \<Rightarrow>
          map_option
            (\<lambda>t. declined t UnformattableValue (''no symbol for currency '' @ uppered code))
            (formatMoney (fc_platform context) numeric locale
               (default_currency\<lparr>cu_code := uppered code, cu_symbol := uppered code\<rparr>))
      | Some currency \<Rightarrow>
          map_option formatted (formatMoney (fc_platform context) numeric locale currency))"

definition date_pattern :: "LocaleData \<Rightarrow> string \<Rightarrow> string" where
  "date_pattern locale argument =
     (let form = trim argument; named = lowered form in
      if named = [] \<or> named = ''short'' then lc_date_short locale
      else if named = ''medium'' then lc_date_medium locale
      else if named = ''long'' then lc_date_long locale
      else if named = ''time'' then lc_time_form locale
      else if named = ''datetime'' then lc_datetime_form locale
      else form)"

definition format_date :: "FormatContext \<Rightarrow> LocaleData \<Rightarrow> Json \<Rightarrow> string \<Rightarrow> string \<Rightarrow> FormatOutcome" where
  "format_date context locale value text argument =
     (if \<not> isString value
      then declined text UnformattableValue ''date input must be an ISO-8601 string''
      else case parseIso8601 (asString value) of
          None \<Rightarrow> declined text UnformattableValue ''not ISO-8601''
        | Some parsed \<Rightarrow>
            if fc_tz context = [] then
              formatted (formatDateTime parsed (date_pattern locale argument) locale)
            else case parseFixedOffset (fc_tz context) of
                Some offset \<Rightarrow>
                  formatted (formatDateTime (shiftToOffset parsed offset) (date_pattern locale argument) locale)
              | None \<Rightarrow>
                  declined (formatDateTime parsed (date_pattern locale argument) locale) UnsupportedTimezone
                    (''zone '' @ [CHR 0x22] @ fc_tz context @ [CHR 0x22] @
                     '' is not a fixed offset; rendered without conversion''))"

text \<open>The built-in table, by the lower-case name.\<close>

definition builtin_formatter ::
    "FormatContext \<Rightarrow> Json \<Rightarrow> string \<Rightarrow> string \<Rightarrow> string \<Rightarrow> FormatOutcome option" where
  "builtin_formatter context value text name argument =
     (let tables = (case fc_tables context of Some t \<Rightarrow> t | None \<Rightarrow> builtin);
          locale = find_locale (if fc_locale context = [] then ''en-US'' else fc_locale context) tables;
          key = lowered name in
      if key = ''upper'' then Some (formatted (upper text))
      else if key = ''lower'' then Some (formatted (lower text))
      else if key = ''trunc'' then Some (format_trunc text argument)
      else if key = ''pad'' then Some (format_pad text argument)
      else if key = ''number'' \<or> key = ''money'' then
        (case numericValue (fc_platform context) value of
           None \<Rightarrow> None
         | Some None \<Rightarrow> Some (declined text UnformattableValue ''not a number'')
         | Some (Some numeric) \<Rightarrow>
             if key = ''number'' then format_number (fc_platform context) locale text numeric argument
             else format_money context tables locale numeric argument)
      else if key = ''date'' then Some (format_date context locale value text argument)
      else Some (declined text UnknownFormatter
             (''no formatter named '' @ [CHR 0x22] @ name @ [CHR 0x22])))"

definition applyFormatter :: "Json \<Rightarrow> string \<Rightarrow> FormatContext \<Rightarrow> FormatOutcome option" where
  "applyFormatter value spec context =
     (let text = valueToText value;
          name = trim (before CHR '':'' spec);
          argument = behind CHR '':'' spec in
      case (case fc_registrations context of
              Some r \<Rightarrow> if hasFormatter name r then reg_format name text argument (fc_locale context) r else None
            | None \<Rightarrow> None) of
        Some custom \<Rightarrow> Some (formatted custom)
      | None \<Rightarrow> builtin_formatter context value text name argument)"

end
