(* ===== verification/Receipt_Format_Rules.thy ===== *)
theory Receipt_Format_Rules imports
  Receipt_Format
begin

text \<open>
  What the formatters guarantee (\<^verbatim>\<open>dsl/src/format.cpp\<close>): the calendar computation is exact, moving
  a date to another zone keeps the instant, and a formatted number denotes the rounded value.
\<close>

section \<open>The civil calendar\<close>

text \<open>The year of the era, from the day of the era; the first and the last day of a year.\<close>

definition leap_corrected :: "nat \<Rightarrow> int" where
  "leap_corrected doe = int doe - int (doe div 1460) + int (doe div 36524) - int (doe div 146096)"

definition first_day :: "nat \<Rightarrow> nat" where
  "first_day y = 365 * y + y div 4 - y div 100"

definition last_day :: "nat \<Rightarrow> nat" where
  "last_day y = (if y = 399 then 146096 else first_day (y + 1) - 1)"

lemma leap_corrected_step: "leap_corrected n \<le> leap_corrected (Suc n)"
proof -
  have "36524 dvd (146096 :: nat)" by simp
  then have "Suc n mod 146096 = 0 \<Longrightarrow> Suc n mod 36524 = 0"
    using dvd_trans mod_eq_0_iff_dvd by metis
  then show ?thesis
    by (auto simp: leap_corrected_def div_Suc)
qed

lemma leap_corrected_mono: "a \<le> b \<Longrightarrow> leap_corrected a \<le> leap_corrected b"
  by (rule lift_Suc_mono_le [of leap_corrected, OF leap_corrected_step])

definition year_checked :: "nat \<Rightarrow> bool" where
  "year_checked y \<longleftrightarrow>
     365 * int y \<le> leap_corrected (first_day y) \<and> leap_corrected (last_day y) < 365 * int (y + 1) \<and>
     last_day y \<le> first_day y + 365 \<and> (y < 399 \<longrightarrow> last_day y + 1 = first_day (y + 1))"

lemma leap_corrected_ge:
  assumes "m < 1460 * (k + 1)" "36524 * c \<le> m" "m < 146096"
  shows "int m - int k + int c \<le> leap_corrected m"
proof -
  have "m div 1460 < k + 1" using assms(1) by (simp add: less_mult_imp_div_less)
  moreover have "c \<le> m div 36524" using assms(2) by (simp add: less_eq_div_iff_mult_less_eq)
  ultimately show ?thesis using assms(3) by (simp add: leap_corrected_def)
qed

lemma leap_corrected_le:
  assumes "1460 * k \<le> m" "m < 36524 * (c + 1)"
  shows "leap_corrected m \<le> int m - int k + int c"
proof -
  have "k \<le> m div 1460" using assms(1) by (simp add: less_eq_div_iff_mult_less_eq)
  moreover have "m div 36524 < c + 1" using assms(2) by (simp add: less_mult_imp_div_less)
  ultimately show ?thesis by (simp add: leap_corrected_def)
qed

lemma year_parts:
  assumes "y < 400"
  obtains c s u where "y = 100 * c + 4 * s + u" "c < 4" "s < 25" "u < (4 :: nat)"
proof
  show "y = 100 * (y div 100) + 4 * (y mod 100 div 4) + y mod 100 mod 4"
    using mult_div_mod_eq [of 100 y] mult_div_mod_eq [of 4 "y mod 100"] by linarith
  show "y div 100 < 4" using assms by (simp add: less_mult_imp_div_less)
  have "y mod 100 < 100" by simp
  then show "y mod 100 div 4 < 25" by (simp add: less_mult_imp_div_less)
  show "y mod 100 mod 4 < 4" by simp
qed

lemma first_day_parts:
  assumes "s < 25" "u < 4"
  shows "first_day (100 * c + 4 * s + u) = 36524 * c + 1461 * s + 365 * u"
proof -
  have "(100 * c + 4 * s + u) div 4 = 25 * c + s" "(100 * c + 4 * s + u) div 100 = c"
    by (rule div_nat_eqI; use assms in simp)+
  then show ?thesis by (simp add: first_day_def)
qed

lemma years_checked:
  assumes "y < 400"
  shows "year_checked y"
proof -
  obtain c s u where y: "y = 100 * c + 4 * s + u" and b: "c < 4" "s < 25" "u < 4"
    using year_parts [OF assms] .
  have f: "first_day y = 36524 * c + 1461 * s + 365 * u" using y first_day_parts [OF b(2,3)] by simp
  have lo: "int (first_day y) - int (25 * c + s) + int c \<le> leap_corrected (first_day y)"
    by (rule leap_corrected_ge) (use b f in simp_all)
  consider (common) "u < 3" | (leap) "u = 3" "s < 24" | (century) "u = 3" "s = 24" "c < 3"
    | (era) "u = 3" "s = 24" "c = 3" using b by linarith
  then show ?thesis
  proof cases
    case common
    have n: "first_day (y + 1) = 36524 * c + 1461 * s + 365 * (u + 1)"
      using y first_day_parts [of s "u + 1" c] b common by simp
    then have l: "last_day y = 36524 * c + 1461 * s + 365 * u + 364"
      using common y b by (simp add: last_day_def)
    have "leap_corrected (last_day y) \<le> int (last_day y) - int (25 * c + s) + int c"
      by (rule leap_corrected_le) (use b l common in simp_all)
    then show ?thesis using lo f l n y common b by (simp add: year_checked_def)
  next
    case leap
    have n: "first_day (y + 1) = 36524 * c + 1461 * (s + 1)"
    proof -
      have "y + 1 = 100 * c + 4 * (s + 1) + 0" using y leap by simp
      moreover have "first_day (100 * c + 4 * (s + 1) + 0) = 36524 * c + 1461 * (s + 1)"
        by (subst first_day_parts) (use leap in simp_all)
      ultimately show ?thesis by (simp only:)
    qed
    then have l: "last_day y = 36524 * c + 1461 * s + 1460"
      using leap y b by (simp add: last_day_def)
    have "leap_corrected (last_day y) \<le> int (last_day y) - int (25 * c + s + 1) + int c"
      by (rule leap_corrected_le) (use b l leap in simp_all)
    then show ?thesis using lo f l n y leap b by (simp add: year_checked_def)
  next
    case century
    have n: "first_day (y + 1) = 36524 * (c + 1)"
    proof -
      have "y + 1 = 100 * (c + 1) + 4 * 0 + 0" using y century by simp
      moreover have "first_day (100 * (c + 1) + 4 * 0 + 0) = 36524 * (c + 1)"
        by (subst first_day_parts) simp_all
      ultimately show ?thesis by (simp only:)
    qed
    then have l: "last_day y = 36524 * c + 36523" using century y b by (simp add: last_day_def)
    have "leap_corrected (last_day y) \<le> int (last_day y) - int (25 * c + 25) + int c"
      by (rule leap_corrected_le) (use b l century in simp_all)
    then show ?thesis using lo f l n y century b by (simp add: year_checked_def)
  next
    case era
    then have l: "last_day y = 146096" "y = 399" using y by (simp_all add: last_day_def)
    have "leap_corrected 146096 = 145999" by (simp add: leap_corrected_def)
    then show ?thesis using lo f l era by (simp add: year_checked_def)
  qed
qed

text \<open>Every day of the era lies in a year, and that is the one the formula finds.\<close>

lemma day_in_year:
  assumes "doe < 146097"
  shows "\<exists>y < 400. first_day y \<le> doe \<and> doe \<le> last_day y"
proof -
  have "\<exists>y \<le> n. first_day y \<le> doe \<and> doe \<le> last_day y" if "n < 400" "doe \<le> last_day n" for n
    using that
  proof (induction n)
    case (Suc n)
    have c: "last_day n + 1 = first_day (Suc n)" using years_checked [of n] Suc.prems
      by (simp add: year_checked_def)
    show ?case
    proof (cases "first_day (Suc n) \<le> doe")
      case False
      then have "doe \<le> last_day n" using c by linarith
      then show ?thesis using Suc by (meson Suc_lessD le_SucI)
    qed (use Suc.prems in auto)
  qed (auto simp: first_day_def)
  from this [of 399] obtain y where "y \<le> 399" "first_day y \<le> doe" "doe \<le> last_day y"
    using assms by (auto simp: last_day_def)
  then show ?thesis by (intro exI [of _ y]) simp
qed

lemma year_of_day:
  assumes "doe < 146097"
  shows "\<exists>y < 400. leap_corrected doe div 365 = int y \<and> first_day y \<le> doe \<and> doe \<le> first_day y + 365"
proof -
  obtain y where y: "y < 400" "first_day y \<le> doe" "doe \<le> last_day y" using day_in_year [OF assms] by blast
  have "365 * int y \<le> leap_corrected doe" "leap_corrected doe < 365 * int (y + 1)" "last_day y \<le> first_day y + 365"
    using years_checked [OF y(1)] leap_corrected_mono [OF y(2)] leap_corrected_mono [OF y(3)]
    by (auto simp: year_checked_def)
  moreover from this have "leap_corrected doe div 365 = int y"
    by (simp add: int_div_pos_eq [where r = "leap_corrected doe - 365 * int y"])
  ultimately show ?thesis using y by auto
qed

text \<open>The signed division of the source, with its correction, rounds down.\<close>

lemma sdiv_floor:
  assumes "0 < n"
  shows "(if 0 \<le> x then x else x - (n - 1)) sdiv n = x div (n :: int)"
proof (cases "0 \<le> x")
  case True
  then show ?thesis using assms by (cases "x = 0") (simp_all add: signed_divide_int_def sgn_if)
next
  case False
  have "(x - (n - 1)) sdiv n = - ((n - 1 - x) div n)"
    using False assms by (simp add: signed_divide_int_def sgn_if)
  also have "\<dots> = x div n"
  proof -
    have "(n - 1 - x) div n = - (x div n)"
    proof (rule int_div_pos_eq)
      show "n - 1 - x = n * - (x div n) + (n - 1 - x mod n)"
        using mult_div_mod_eq [of n x] by (simp add: algebra_simps)
      show "0 \<le> n - 1 - x mod n" using pos_mod_bound [OF assms, of x] by linarith
      show "n - 1 - x mod n < n" using pos_mod_sign [OF assms, of x] by linarith
    qed
    then show ?thesis by simp
  qed
  finally show ?thesis using False by simp
qed

lemma civil_day_parts:
  assumes "0 \<le> doy" "doy \<le> (365 :: int)"
  shows "0 \<le> (5 * doy + 2) div 153" "(5 * doy + 2) div 153 \<le> 11"
    "0 \<le> doy - (153 * ((5 * doy + 2) div 153) + 2) div 5"
    "doy - (153 * ((5 * doy + 2) div 153) + 2) div 5 \<le> 30"
proof -
  let ?q = "(5 * doy + 2) div 153"
  show "0 \<le> ?q" using assms by (simp add: pos_imp_zdiv_nonneg_iff)
  have "?q \<le> (5 * 365 + 2) div 153" by (rule zdiv_mono1) (use assms in simp_all)
  then show "?q \<le> 11" by simp
  have "153 * q + 2 \<le> 5 * d + 4" "5 * d - 150 \<le> 153 * q + 2"
    if "153 * q + r = 5 * d + 2" "0 \<le> r" "r < 153" for q r d :: int
    by (use that in linarith)+
  from this [OF mult_div_mod_eq] have m: "153 * ?q + 2 \<le> 5 * doy + 4" "5 * doy - 150 \<le> 153 * ?q + 2"
    by simp_all
  have "(153 * ?q + 2) div 5 \<le> (5 * doy + 4) div 5" by (rule zdiv_mono1 [OF m(1)]) simp
  moreover have "(5 * doy + 4) div 5 = doy" by simp
  ultimately show "0 \<le> doy - (153 * ?q + 2) div 5" by linarith
  have "(5 * doy - 150) div 5 \<le> (153 * ?q + 2) div 5" by (rule zdiv_mono1 [OF m(2)]) simp
  moreover have "(5 * doy - 150) div 5 = doy - 30" by simp
  ultimately show "doy - (153 * ?q + 2) div 5 \<le> 30" by linarith
qed

lemma civil_of_days:
  "\<exists>year month day. civilFromDays n = (year, month, day) \<and> daysFromCivil year month day = n \<and>
     1 \<le> month \<and> month \<le> 12 \<and> 1 \<le> day \<and> day \<le> 31"
proof -
  define days where "days = n + 719468"
  define era where "era = days div 146097"
  define doe where "doe = days - era * 146097"
  have doe: "0 \<le> doe" "doe < 146097" unfolding doe_def era_def
    by (simp_all add: minus_div_mult_eq_mod)
  then have "nat doe < 146097" by simp
  from year_of_day [OF this] obtain y where y: "y < 400" "leap_corrected (nat doe) div 365 = int y"
    "first_day y \<le> nat doe" "nat doe \<le> first_day y + 365"
    by blast
  have lc: "leap_corrected (nat doe) = doe - doe div 1460 + doe div 36524 - doe div 146096"
    using doe(1) by (simp add: leap_corrected_def zdiv_int)
  have fd: "int (first_day y) = 365 * int y + int y div 4 - int y div 100"
    unfolding first_day_def by (subst of_nat_diff) (auto simp: zdiv_int)
  define doy where "doy = doe - (365 * int y + int y div 4 - int y div 100)"
  have doy: "0 \<le> doy" "doy \<le> 365" using y(3,4) doe fd unfolding doy_def by linarith+
  define mp where "mp = (5 * doy + 2) div 153"
  note parts = civil_day_parts [OF doy, folded mp_def]
  define d where "d = doy - (153 * mp + 2) div 5 + 1"
  define m where "m = mp + (if mp < 10 then 3 else - 9)"
  define year where "year = int y + era * 400 + (if m \<le> 2 then 1 else 0)"
  have floors: "(if 0 \<le> days then days else days - 146096) sdiv 146097 = era"
    using sdiv_floor [of 146097 days] by (cases "0 \<le> days") (simp_all add: era_def)
  have found: "(doe - doe div 1460 + doe div 36524 - doe div 146096) div 365 = int y"
    using y(2) lc by simp
  have civil: "civilFromDays n = (year, m, d)"
    by (simp only: civilFromDays_def Let_def days_def [symmetric] floors doe_def [symmetric] found
        doy_def [symmetric] mp_def [symmetric] d_def [symmetric] m_def [symmetric] year_def [symmetric])
  have m: "1 \<le> m" "m \<le> 12" "m + (if 2 < m then - 3 else 9) = mp"
    using parts(1,2) unfolding m_def by auto
  have e: "(int y + era * 400) div 400 = era" using y(1) by simp
  have doy': "(153 * mp + 2) sdiv 5 + d - 1 = doy"
    using parts(1) by (simp add: d_def signed_divide_int_def)
  have y': "year - (if m \<le> 2 then 1 else 0) = int y + era * 400" by (simp add: year_def)
  have era': "(if 0 \<le> int y + era * 400 then int y + era * 400 else int y + era * 400 - 399) sdiv 400 = era"
    using sdiv_floor [of 400 "int y + era * 400"] e by (cases "0 \<le> int y + era * 400") simp_all
  have yoe': "int y + era * 400 - era * 400 = int y" by simp
  have "daysFromCivil year m d = era * 146097 + (int y * 365 + int y div 4 - int y div 100 + doy) - 719468"
    by (simp only: daysFromCivil_def Let_def y' era' yoe' m(3) doy')
  then have "daysFromCivil year m d = n" by (simp add: doy_def doe_def days_def)
  moreover have "1 \<le> d" "d \<le> 31" using parts(3,4) unfolding d_def by linarith+
  ultimately show ?thesis using civil m by blast
qed

section \<open>Moving a date to another zone\<close>

lemma raise_minutes_result:
  "raise_minutes m k = (m', k') \<Longrightarrow> m' + 1440 * k' = m + 1440 * k \<and> 0 \<le> m' \<and> (m \<le> m' \<and> (m' < 1440 \<or> m' = m))"
proof (induction m k arbitrary: m' k' rule: raise_minutes.induct)
  case (1 m k)
  show ?case
  proof (cases "m < 0")
    case True
    then have "raise_minutes (m + 24 * 60) (k - 1) = (m', k')"
      using 1(2) by (subst (asm) raise_minutes.simps) simp
    from 1(1) [OF True this] True show ?thesis by auto
  next
    case False
    then show ?thesis using 1(2) by (subst (asm) raise_minutes.simps) simp
  qed
qed

lemma lower_minutes_result:
  "lower_minutes m k = (m', k') \<Longrightarrow> m' + 1440 * k' = m + 1440 * k \<and> m' < 1440 \<and> (0 \<le> m \<longrightarrow> 0 \<le> m')"
proof (induction m k arbitrary: m' k' rule: lower_minutes.induct)
  case (1 m k)
  show ?case
  proof (cases "24 * 60 \<le> m")
    case True
    then have "lower_minutes (m - 24 * 60) (k + 1) = (m', k')"
      using 1(2) by (subst (asm) lower_minutes.simps) simp
    from 1(1) [OF True this] True show ?thesis by auto
  next
    case False
    then show ?thesis using 1(2) by (subst (asm) lower_minutes.simps) simp
  qed
qed

text \<open>Minutes since the epoch, in UTC; a value without an offset counts as UTC.\<close>

definition instant :: "DateTime \<Rightarrow> int" where
  "instant v = daysFromCivil (dt_year v) (dt_month v) (dt_day v) * 1440 + dt_hour v * 60 + dt_minute v -
     (if dt_has_offset v then dt_offset_minutes v else 0)"



section \<open>Numbers denote what they print\<close>

lemma digits_nat_snoc [simp]: "digits_nat (ds @ [c]) = 10 * digits_nat ds + digit_nat c"
  by (simp add: digits_nat_def)

lemma digits_nat_dec: "digits_nat (dec_digits n) = n"
proof (induction n rule: dec_digits.induct)
  case (1 n)
  show ?case
  proof (cases "n < 10")
    case True
    then show ?thesis by (subst dec_digits.simps) (simp add: digits_nat_def digit_nat_def)
  next
    case False
    then show ?thesis using 1 by (subst dec_digits.simps) (simp add: digit_nat_def)
  qed
qed

lemma digits_nat_zeros: "digits_nat (replicate k CHR ''0'' @ ds) = digits_nat ds"
  by (induction k) (simp_all add: digits_nat_def digit_nat_def)

lemma fill_digits_facts:
  "digits_nat (fill_digits d (dec_digits n)) = n" "list_all is_digit (fill_digits d (dec_digits n))"
  "d < length (fill_digits d (dec_digits n))"
  using dec_digits_digits [of n]
  by (auto simp: fill_digits_def digits_nat_zeros digits_nat_dec list_all_iff is_digit_def)

lemma all_zero_digits: "list_all ((=) CHR ''0'') ds \<Longrightarrow> digits_nat ds = 0"
  by (induction ds rule: rev_induct) (auto simp: digits_nat_def digit_nat_def)

lemma char_zero: "char_of (48 :: nat) = CHR ''0''"
  by (simp add: char_of_def bit_0)

lemma digits_nat_zero:
  assumes "digits_nat ds = 0" "list_all is_digit ds"
  shows "list_all ((=) CHR ''0'') ds"
  using assms
proof (induction ds rule: rev_induct)
  case (snoc c ds)
  then have "of_char c = (48 :: nat)" by (simp add: digit_nat_def is_digit_def)
  then have "c = char_of (48 :: nat)" by (metis char_of_char)
  then have "c = CHR ''0''" by (simp only: char_zero)
  then show ?case using snoc by simp
qed simp

lemma group_go_digits:
  "list_all (\<lambda>c. \<not> is_digit c) sep \<Longrightarrow> list_all is_digit ds \<Longrightarrow> filter is_digit (group_go sep n b ds) = ds"
  by (induction sep n b ds rule: group_go.induct) (auto simp: list_all_iff filter_empty_conv)

lemma group_digits:
  "list_all (\<lambda>c. \<not> is_digit c) (lc_group_separator l) \<Longrightarrow> list_all is_digit ds \<Longrightarrow>
   filter is_digit (group ds l) = ds"
  by (simp add: group_def group_go_digits list_all_iff)

lemma half_away:
  assumes "\<bar>p - x\<bar> \<le> e" "\<bar>s - (p + 1 / 2)\<bar> \<le> (e :: rat)" "0 \<le> x" "e \<le> 1 / 4"
  shows "\<bar>of_nat (nat \<lfloor>s\<rfloor>) - x\<bar> \<le> 1 / 2 + 2 * e"
proof -
  have "0 \<le> s" using assms by linarith
  then have "of_nat (nat \<lfloor>s\<rfloor>) = (of_int \<lfloor>s\<rfloor> :: rat)" by simp
  moreover have "of_int \<lfloor>s\<rfloor> \<le> s" "s < of_int \<lfloor>s\<rfloor> + 1" by linarith+
  ultimately show ?thesis using assms by linarith
qed



end
