(* ===== verification/Receipt_Bind.thy ===== *)
theory Receipt_Bind imports
  Receipt_Format
begin

text \<open>
  \<^verbatim>\<open>dsl/src/bind.cpp\<close>: binding a template to a model. A scope is the list of the elements an
  \<^verbatim>\<open>each\<close> has entered, innermost first, with the model last. The scan of a text for \<^verbatim>\<open>{{\<close> is
  separated from the evaluation of the expressions it finds: the source does both in one loop,
  and the pieces are evaluated in the order they are found. The pointer to the report is
  always set. None is the undefined behaviour of a number formatter.
\<close>

section \<open>Paths\<close>

definition isDigits :: "string \<Rightarrow> bool" where
  "isDigits text \<longleftrightarrow> text \<noteq> [] \<and> list_all is_digit text"

definition size_max :: nat where
  "size_max = 2 ^ 64 - 1"

fun parseIndex_go :: "nat \<Rightarrow> string \<Rightarrow> nat" where
  "parseIndex_go v [] = v"
| "parseIndex_go v (c # cs) =
     (if v > (size_max - 9) div 10 then size_max else parseIndex_go (v * 10 + digit_nat c) cs)"

definition parseIndex :: "string \<Rightarrow> nat" where
  "parseIndex text = parseIndex_go 0 text"

definition flush_segment :: "string \<Rightarrow> string list" where
  "flush_segment current = (if current = [] then [] else [current])"

function splitPath_go :: "string \<Rightarrow> string \<Rightarrow> string list" where
  "splitPath_go current path =
     (case path of
        [] \<Rightarrow> flush_segment current
      | c # cs \<Rightarrow>
          if c = CHR ''.'' then flush_segment current @ splitPath_go [] cs
          else if c = CHR ''['' then
            flush_segment current @
            (if CHR '']'' \<in> set cs then before CHR '']'' cs # splitPath_go [] (behind CHR '']'' cs) else [])
          else splitPath_go (current @ [c]) cs)"
  by pat_completeness auto

termination
proof (relation "measure (length \<circ> snd)")
  fix current path :: string and c cs
  have "length (behind CHR '']'' cs) \<le> length cs"
    using length_dropWhile_le [of "(\<noteq>) CHR '']''" cs] by (simp add: behind_def)
  moreover assume "path = c # cs"
  ultimately show "(([], behind CHR '']'' cs), current, path) \<in> measure (length \<circ> snd)" by simp
qed auto

declare splitPath_go.simps [simp del]

definition splitPath :: "string \<Rightarrow> string list" where
  "splitPath path = splitPath_go [] path"

definition enter_segment :: "string \<Rightarrow> Json \<Rightarrow> Json option" where
  "enter_segment segment value =
     (if isArray value \<and> isDigits segment then json_at (parseIndex segment) value
      else json_find segment value)"

fun descend :: "Json option \<Rightarrow> string list \<Rightarrow> Json option" where
  "descend value [] = value"
| "descend None segments = None"
| "descend (Some value) (segment # segments) = descend (enter_segment segment value) segments"

definition lookupPath :: "Json \<Rightarrow> string \<Rightarrow> Json option" where
  "lookupPath model path =
     (if splitPath path = [] then Some model else descend (Some model) (splitPath path))"

record frame =
  fr_value :: Json
  fr_index :: int
  fr_count :: nat

type_synonym scope = "frame list"

definition root_scope :: "Json \<Rightarrow> scope" where
  "root_scope model = [\<lparr>fr_value = model, fr_index = - 1, fr_count = 0\<rparr>]"

fun resolve_head :: "scope \<Rightarrow> string \<Rightarrow> Json option" where
  "resolve_head [] segment = None"
| "resolve_head (frame # outer) segment =
     (case enter_segment segment (fr_value frame) of
        Some head \<Rightarrow> Some head
      | None \<Rightarrow> resolve_head outer segment)"

definition resolve :: "scope \<Rightarrow> string \<Rightarrow> Json option" where
  "resolve scope path =
     (if path = [] then None
      else if path = ''.'' \<or> path = ''this'' then map_option fr_value (find (\<lambda>_. True) scope)
      else if path \<in> {''@index'', ''@first'', ''@last''} then
        map_option
          (\<lambda>frame.
             if path = ''@index'' then json_number (of_int (fr_index frame))
             else if path = ''@first'' then JBool (fr_index frame = 0)
             else JBool (nat (fr_index frame) + 1 = fr_count frame))
          (find (\<lambda>frame. fr_index frame \<ge> 0) scope)
      else case splitPath path of
          [] \<Rightarrow> None
        | first # rest \<Rightarrow>
            (case resolve_head scope first of
               Some head \<Rightarrow> descend (Some head) rest
             | None \<Rightarrow> None))"

section \<open>Substitution\<close>

datatype piece = Literal string | Unterminated string | Expression string

text \<open>What stands before and behind the first \<^verbatim>\<open>}}\<close>.\<close>

fun split_close :: "string \<Rightarrow> (string \<times> string) option" where
  "split_close (a # b # cs) =
     (if a = CHR 0x7D \<and> b = CHR 0x7D then Some ([], cs)
      else map_option (\<lambda>(inside, rest). (a # inside, rest)) (split_close (b # cs)))"
| "split_close _ = None"

lemma split_close_shorter: "split_close s = Some (inside, rest) \<Longrightarrow> length inside + length rest < length s"
  by (induction s arbitrary: inside rest rule: split_close.induct) (auto split: if_splits)

definition opens :: "string \<Rightarrow> bool" where
  "opens s \<longleftrightarrow> take 2 s = [CHR 0x7B, CHR 0x7B]"

function pieces :: "string \<Rightarrow> piece list" where
  "pieces s =
     (case s of
        [] \<Rightarrow> []
      | c # cs \<Rightarrow>
          if c = CHR 0x5C \<and> opens cs then Literal [CHR 0x7B, CHR 0x7B] # pieces (drop 2 cs)
          else if \<not> opens s then Literal [c] # pieces cs
          else case split_close (drop 2 s) of
              None \<Rightarrow> [Unterminated s]
            | Some (inside, rest) \<Rightarrow> Expression inside # pieces rest)"
  by pat_completeness auto

termination
proof (relation "measure length")
  fix s inside rest :: string and c cs x
  assume "s = c # cs" "split_close (drop 2 s) = Some x" "(inside, rest) = x"
  then show "(rest, s) \<in> measure length"
    using split_close_shorter [of "drop 2 s" inside rest] by simp
qed auto

declare pieces.simps [simp del]

fun contains_open :: "string \<Rightarrow> bool" where
  "contains_open [] = False"
| "contains_open (c # cs) = (opens (c # cs) \<or> contains_open cs)"

record expression =
  ex_path :: string
  ex_formatters :: "string list"

definition expression_of :: "string \<Rightarrow> expression" where
  "expression_of e =
     \<lparr>ex_path = trim (before CHR 0x7C e),
      ex_formatters = (if CHR 0x7C \<in> set e then split_at CHR 0x7C (behind CHR 0x7C e) else [])\<rparr>"

definition braces :: "string \<Rightarrow> string" where
  "braces e = [CHR 0x7B, CHR 0x7B] @ e @ [CHR 0x7D, CHR 0x7D]"

fun apply_formatters ::
    "FormatContext \<Rightarrow> string \<Rightarrow> string \<Rightarrow> string list \<Rightarrow> Json \<Rightarrow> string \<Rightarrow> RenderReport \<Rightarrow>
     (string \<times> RenderReport) option" where
  "apply_formatters context loc e [] current rendered report = Some (rendered, report)"
| "apply_formatters context loc e (f # fs) current rendered report =
     (if trim f = [] then apply_formatters context loc e fs current rendered report
      else
        case applyFormatter current (trim f) context of
          None \<Rightarrow> None
        | Some outcome \<Rightarrow>
            apply_formatters context loc e fs (JString (fo_text outcome)) (fo_text outcome)
              (if fo_ok outcome then report
               else report_add (fo_kind outcome) loc (braces e) (fo_text outcome) Hardware
                      (fo_detail outcome) report))"

text \<open>What one expression prints, and the report it leaves.\<close>

definition evaluate ::
    "FormatContext \<Rightarrow> scope \<Rightarrow> string \<Rightarrow> string \<Rightarrow> RenderReport \<Rightarrow> (string \<times> RenderReport) option" where
  "evaluate context scope loc e report =
     (let path = ex_path (expression_of e); formatters = ex_formatters (expression_of e) in
      if path = [] then
        Some ([], report_add MalformedTemplate loc (braces e) [] Hardware ''empty path'' report)
      else case resolve scope path of
          None \<Rightarrow>
            Some ([], report_add MissingPath loc (braces e) [] Hardware ''no such path in the model'' report)
        | Some value \<Rightarrow>
            map_option (\<lambda>(text, report'). (sanitize text, report'))
              (apply_formatters context loc e formatters value (valueToText value)
                 (if formatters = [] \<and> (isArray value \<or> isObject value)
                  then report_add UnformattableValue loc (braces e) (valueToText value) Hardware
                         ''the path resolves to a structure, not a value'' report
                  else report)))"

fun fill :: "FormatContext \<Rightarrow> scope \<Rightarrow> string \<Rightarrow> piece list \<Rightarrow> RenderReport \<Rightarrow> (string \<times> RenderReport) option" where
  "fill context scope loc [] report = Some ([], report)"
| "fill context scope loc (Literal s # ps) report =
     map_option (\<lambda>(t, r). (s @ t, r)) (fill context scope loc ps report)"
| "fill context scope loc (Unterminated s # ps) report =
     map_option (\<lambda>(t, r). (s @ t, r))
       (fill context scope loc ps
          (report_add MalformedTemplate loc s s Hardware
             (''unterminated '' @ [CHR 0x7B, CHR 0x7B] @ '' left verbatim'') report))"
| "fill context scope loc (Expression e # ps) report =
     (case evaluate context scope loc e report of
        None \<Rightarrow> None
      | Some (s, r1) \<Rightarrow> map_option (\<lambda>(t, r). (s @ t, r)) (fill context scope loc ps r1))"

definition substitute ::
    "FormatContext \<Rightarrow> scope \<Rightarrow> string \<Rightarrow> string \<Rightarrow> RenderReport \<Rightarrow> (string \<times> RenderReport) option" where
  "substitute context scope source loc report =
     (if \<not> contains_open source then Some (source, report)
      else fill context scope loc (pieces source) report)"

section \<open>Blocks\<close>

record BindOptions =
  bo_tables :: FormatTables
  bo_registrations :: "registrations option"
  bo_locale :: string
  bo_currency :: string
  bo_tz :: string
  bo_max_blocks :: nat
  bo_max_depth :: nat
  bo_platform :: platform_fp

record Binder =
  bi_report :: RenderReport
  bi_emitted :: nat
  bi_overflowed :: bool
  bi_out :: "Block list"

fun bind_cells ::
    "FormatContext \<Rightarrow> scope \<Rightarrow> string \<Rightarrow> nat \<Rightarrow> Cell list \<Rightarrow> RenderReport \<Rightarrow> (Cell list \<times> RenderReport) option" where
  "bind_cells context scope loc i [] report = Some ([], report)"
| "bind_cells context scope loc i (c # cs) report =
     (case substitute context scope (ce_content c) (loc @ ''.cells['' @ dec_digits i @ '']'') report of
        None \<Rightarrow> None
      | Some (s, r1) \<Rightarrow>
          map_option (\<lambda>(cells, r). (c\<lparr>ce_content := s\<rparr> # cells, r))
            (bind_cells context scope loc (i + 1) cs r1))"

fun bind_content ::
    "FormatContext \<Rightarrow> scope \<Rightarrow> string \<Rightarrow> Block \<Rightarrow> RenderReport \<Rightarrow> (Block \<times> RenderReport) option" where
  "bind_content context scope loc (TextBlock content style) report =
     map_option (\<lambda>(s, r). (TextBlock s style, r)) (substitute context scope content loc report)"
| "bind_content context scope loc (QrCodeBlock content q) report =
     map_option (\<lambda>(s, r). (QrCodeBlock s q, r)) (substitute context scope content loc report)"
| "bind_content context scope loc (BarcodeBlock content b) report =
     map_option (\<lambda>(s, r). (BarcodeBlock s b, r)) (substitute context scope content loc report)"
| "bind_content context scope loc (ColumnsBlock cells) report =
     map_option (\<lambda>(cs, r). (ColumnsBlock cs, r)) (bind_cells context scope loc 0 cells report)"
| "bind_content context scope loc (ImageBlock i) report =
     map_option (\<lambda>(s, r). (ImageBlock (i\<lparr>im_ref := s\<rparr>), r)) (substitute context scope (im_ref i) loc report)"
| "bind_content context scope loc b report = Some (b, report)"

definition bindLeaf :: "FormatContext \<Rightarrow> scope \<Rightarrow> string \<Rightarrow> Block \<Rightarrow> Binder \<Rightarrow> Binder option" where
  "bindLeaf context scope loc block b =
     map_option
       (\<lambda>(bound, r). b\<lparr>bi_report := r, bi_out := bi_out b @ [bound], bi_emitted := bi_emitted b + 1\<rparr>)
       (bind_content context scope loc block (bi_report b))"

definition bind_note :: "ReportKind \<Rightarrow> string \<Rightarrow> string \<Rightarrow> string \<Rightarrow> string \<Rightarrow> Binder \<Rightarrow> Binder" where
  "bind_note kind loc requested delivered detail b =
     b\<lparr>bi_report := report_add kind loc requested delivered NotRendered detail (bi_report b)\<rparr>"

definition bind_overflow :: "BindOptions \<Rightarrow> string \<Rightarrow> Binder \<Rightarrow> Binder" where
  "bind_overflow options loc b =
     (if bi_overflowed b then b
      else (bind_note MalformedTemplate loc ''more blocks'' ''stopped''
              (''the bound document exceeded '' @ dec_digits (bo_max_blocks options) @ '' blocks'') b)
           \<lparr>bi_overflowed := True\<rparr>)"

definition if_taken :: "scope \<Rightarrow> string \<Rightarrow> bool \<Rightarrow> bool" where
  "if_taken scope path negated \<longleftrightarrow>
     (case resolve scope path of None \<Rightarrow> False | Some value \<Rightarrow> truthy value) \<noteq> negated"

definition no_items :: "string \<Rightarrow> string \<Rightarrow> string \<Rightarrow> Binder \<Rightarrow> Binder" where
  "no_items loc path detail b = bind_note EmptyIteration loc (''each:'' @ path) ''0 iterations'' detail b"

text \<open>
  \<^verbatim>\<open>bindBlocks\<close> and the loop over the elements inside it: \<^theory_text>\<open>bind_list\<close> goes through the blocks
  from an index on, \<^theory_text>\<open>bind_items\<close> binds a body once per element.
\<close>

function bind_list ::
      "BindOptions \<Rightarrow> FormatContext \<Rightarrow> scope \<Rightarrow> string \<Rightarrow> nat \<Rightarrow> nat \<Rightarrow> Block list \<Rightarrow> Binder \<Rightarrow> Binder option"
  and bind_items ::
      "BindOptions \<Rightarrow> FormatContext \<Rightarrow> scope \<Rightarrow> string \<Rightarrow> nat \<Rightarrow> Block list \<Rightarrow> nat \<Rightarrow> nat \<Rightarrow> Json list \<Rightarrow> Binder \<Rightarrow>
       Binder option" where
  "bind_list options context scope loc depth i [] b = Some b"
| "bind_list options context scope loc depth i (block # blocks) b =
     (let here = indexed loc i in
      if bi_emitted b \<ge> bo_max_blocks options then Some (bind_overflow options here b)
      else Option.bind
        (case block of
           EachBlock path single body \<Rightarrow>
             (case resolve scope path of
                None \<Rightarrow> Some (no_items here path ''no such path in the model'' b)
              | Some JNull \<Rightarrow> Some (no_items here path ''no such path in the model'' b)
              | Some (JArray items) \<Rightarrow>
                  bind_items options context scope here depth body (length items) 0 items b
              | Some _ \<Rightarrow> Some (no_items here path ''the path is not an array'' b))
         | IfBlock path negated single body \<Rightarrow>
             if \<not> if_taken scope path negated then Some b
             else if depth + 1 > bo_max_depth options then
               Some (bind_note MalformedTemplate here ''nested groups'' ''stopped''
                       ''deeper than the configured limit'' b)
             else bind_list options context scope here (depth + 1) 0 body b
         | _ \<Rightarrow> bindLeaf context scope here block b)
        (\<lambda>b'. bind_list options context scope loc depth (i + 1) blocks b'))"
| "bind_items options context scope loc depth body count index [] b = Some b"
| "bind_items options context scope loc depth body count index (item # items) b =
     (let here = loc @ [CHR 0x7B] @ dec_digits index @ [CHR 0x7D] in
      Option.bind
        (if depth + 1 > bo_max_depth options then
           Some (bind_note MalformedTemplate here ''nested groups'' ''stopped''
                   ''deeper than the configured limit'' b)
         else bind_list options context (\<lparr>fr_value = item, fr_index = int index, fr_count = count\<rparr> # scope)
                here (depth + 1) 0 body b)
        (\<lambda>b'. bind_items options context scope loc depth body count (index + 1) items b'))"
  by pat_completeness auto

termination
  by (relation "measures
      [\<lambda>x. case x of Inl (_, _, _, _, _, _, blocks, _) \<Rightarrow> size_list size blocks
          | Inr (_, _, _, _, _, body, _, _, _, _) \<Rightarrow> size_list size body,
       \<lambda>x. case x of Inl _ \<Rightarrow> 0 | Inr (_, _, _, _, _, _, _, _, items, _) \<Rightarrow> Suc (length items)]")
    auto

definition bind_context :: "BindOptions \<Rightarrow> Meta \<Rightarrow> FormatContext" where
  "bind_context options meta =
     \<lparr>fc_tables = Some (bo_tables options),
      fc_locale = (if bo_locale options = [] then me_locale meta else bo_locale options),
      fc_currency = (if bo_currency options = [] then me_currency meta else bo_currency options),
      fc_tz = (if bo_tz options = [] then me_tz meta else bo_tz options),
      fc_registrations = bo_registrations options,
      fc_platform = bo_platform options\<rparr>"

definition new_binder :: Binder where
  "new_binder = \<lparr>bi_report = [], bi_emitted = 0, bi_overflowed = False, bi_out = []\<rparr>"

definition bind :: "Document \<Rightarrow> Json \<Rightarrow> BindOptions \<Rightarrow> (Document \<times> RenderReport) option" where
  "bind document model options =
     map_option
       (\<lambda>b. (\<lparr>doc_version = doc_version document, doc_is_template = False, doc_meta = doc_meta document,
              doc_styles = doc_styles document, doc_blocks = bi_out b\<rparr>, bi_report b))
       (bind_list options (bind_context options (doc_meta document)) (root_scope model) ''blocks'' 0 0
          (doc_blocks document) new_binder)"

text \<open>The context of \<^verbatim>\<open>bindString\<close> has no registrations.\<close>

definition bindString ::
    "string \<Rightarrow> Json \<Rightarrow> BindOptions \<Rightarrow> RenderReport \<Rightarrow> string \<Rightarrow> (string \<times> RenderReport) option" where
  "bindString source model options report loc =
     substitute
       \<lparr>fc_tables = Some (bo_tables options), fc_locale = bo_locale options,
        fc_currency = bo_currency options, fc_tz = bo_tz options, fc_registrations = None,
        fc_platform = bo_platform options\<rparr>
       (root_scope model) source loc report"

end
