(* ===== verification/Receipt_Bind_Rules.thy ===== *)
theory Receipt_Bind_Rules imports
  Receipt_Bind
begin

text \<open>
  What binding guarantees (\<^verbatim>\<open>dsl/src/bind.cpp\<close>): a bound document is a plain document of bounded
  size, no model can put a control byte into it, and a document without templates is its own
  binding.
\<close>

section \<open>Texts of a block\<close>

fun block_texts :: "Block \<Rightarrow> string list" where
  "block_texts (TextBlock content style) = [content]"
| "block_texts (QrCodeBlock content q) = [content]"
| "block_texts (BarcodeBlock content b) = [content]"
| "block_texts (ColumnsBlock cells) = map ce_content cells"
| "block_texts (ImageBlock i) = [im_ref i]"
| "block_texts (EachBlock path single body) = concat (map block_texts body)"
| "block_texts (IfBlock path negated single body) = concat (map block_texts body)"
| "block_texts b = []"

fun leaf :: "Block \<Rightarrow> bool" where
  "leaf (EachBlock path single body) = False"
| "leaf (IfBlock path negated single body) = False"
| "leaf b = True"

definition clean :: "string \<Rightarrow> bool" where
  "clean s \<longleftrightarrow> list_all (\<lambda>c. \<not> control c) s"

definition specs_of :: "string \<Rightarrow> string list" where
  "specs_of s = filter (\<lambda>f. f \<noteq> []) (map trim (concat (map
     (\<lambda>p. case p of Expression e \<Rightarrow> ex_formatters (expression_of e) | _ \<Rightarrow> []) (pieces s))))"

text \<open>No formatter of the text runs into undefined behaviour, whatever the value.\<close>

definition formats_defined :: "FormatContext \<Rightarrow> string \<Rightarrow> bool" where
  "formats_defined ctx s \<longleftrightarrow> (\<forall>f \<in> set (specs_of s). \<forall>value. applyFormatter value f ctx \<noteq> None)"

section \<open>Substitution\<close>

lemma literal_chars:
  "Literal t \<in> set (pieces s) \<or> Unterminated t \<in> set (pieces s) \<Longrightarrow> set t \<subseteq> set s"
proof (induction s rule: pieces.induct)
  case (1 s)
  show ?case
  proof (cases s)
    case Nil
    then show ?thesis using 1(4) by (simp add: pieces.simps)
  next
    case (Cons c cs)
    consider (escape) "c = CHR 0x5C" "opens cs"
      | (char) "\<not> (c = CHR 0x5C \<and> opens cs)" "\<not> opens s"
      | (tail) "\<not> (c = CHR 0x5C \<and> opens cs)" "opens s" "split_close (drop 2 s) = None"
      | (inner) inside rest where "\<not> (c = CHR 0x5C \<and> opens cs)" "opens s"
          "split_close (drop 2 s) = Some (inside, rest)"
      by (cases "split_close (drop 2 s)") auto
    then show ?thesis
    proof cases
      case escape
      then have "pieces s = Literal [CHR 0x7B, CHR 0x7B] # pieces (drop 2 cs)"
        using Cons by (subst pieces.simps) simp
      moreover have "{CHR 0x7B} \<subseteq> set cs" "set (drop 2 cs) \<subseteq> set cs"
        using escape(2) in_set_takeD [of "CHR 0x7B" 2 cs] by (auto simp: opens_def dest: in_set_dropD)
      ultimately show ?thesis using 1(1) [OF Cons] escape 1(4) Cons by fastforce
    next
      case char
      then have "pieces s = Literal [c] # pieces cs" using Cons by (subst pieces.simps) simp
      then show ?thesis using 1(2) [OF Cons] char 1(4) Cons by fastforce
    next
      case tail
      then have "pieces s = [Unterminated s]" using Cons by (subst pieces.simps) simp
      then show ?thesis using 1(4) by simp
    next
      case inner
      have "pieces s = Expression inside # pieces rest"
        using inner Cons by (subst pieces.simps) simp
      moreover have "set r \<subseteq> set u" if "split_close u = Some (x, r)" for u x r
        using that by (induction u arbitrary: x r rule: split_close.induct) (auto split: if_splits)
      from this [OF inner(3)] have "set rest \<subseteq> set s" by (auto dest: in_set_dropD)
      ultimately show ?thesis using 1(3) [OF Cons] inner 1(4) by fastforce
    qed
  qed
qed

lemma evaluate_clean: "evaluate ctx scope loc e r = Some (s, r') \<Longrightarrow> clean s"
  by (auto simp: evaluate_def clean_def list_all_iff sanitize_clean Let_def split: if_splits option.splits)

lemma clean_append [simp]: "clean (s @ t) \<longleftrightarrow> clean s \<and> clean t"
  by (simp add: clean_def)

fun piece_clean :: "piece \<Rightarrow> bool" where
  "piece_clean (Literal s) = clean s"
| "piece_clean (Unterminated s) = clean s"
| "piece_clean (Expression e) = True"

fun piece_defined :: "FormatContext \<Rightarrow> piece \<Rightarrow> bool" where
  "piece_defined ctx (Expression e) =
     (\<forall>f \<in> set (ex_formatters (expression_of e)). trim f = [] \<or> (\<forall>v. applyFormatter v (trim f) ctx \<noteq> None))"
| "piece_defined ctx p = True"

lemma fill_clean:
  "fill ctx scope loc ps r = Some (s, r') \<Longrightarrow> list_all piece_clean ps \<Longrightarrow> clean s"
proof (induction ps arbitrary: r s)
  case (Cons p ps)
  show ?case
  proof (cases p)
    case (Expression e)
    then obtain x r1 t where "evaluate ctx scope loc e r = Some (x, r1)"
      "fill ctx scope loc ps r1 = Some (t, r')" "s = x @ t"
      using Cons.prems by (auto split: option.splits)
    then show ?thesis using Cons evaluate_clean by fastforce
  qed (use Cons in auto)
qed (simp add: clean_def)

lemma substitute_clean:
  assumes "substitute ctx scope source loc r = Some (s, r')" "clean source"
  shows "clean s"
proof (cases "contains_open source")
  case True
  have "piece_clean p" if "p \<in> set (pieces source)" for p
    using literal_chars [of _ source] assms(2) that
    by (cases p) (fastforce simp: clean_def list_all_iff)+
  then have "list_all piece_clean (pieces source)" by (simp add: list_all_iff)
  then show ?thesis using fill_clean assms(1) True by (simp add: substitute_def)
next
  case False
  then show ?thesis using assms by (simp add: substitute_def)
qed

lemma apply_formatters_defined:
  "\<forall>f \<in> set fs. trim f = [] \<or> (\<forall>v. applyFormatter v (trim f) ctx \<noteq> None) \<Longrightarrow>
   apply_formatters ctx loc e fs current rendered r \<noteq> None"
proof (induction fs arbitrary: current rendered r)
  case (Cons f fs)
  show ?case
  proof (cases "trim f = []")
    case False
    then obtain outcome where "applyFormatter current (trim f) ctx = Some outcome"
      using Cons.prems by fastforce
    then show ?thesis using Cons False by simp
  qed (use Cons in simp)
qed simp

lemma fill_defined: "list_all (piece_defined ctx) ps \<Longrightarrow> fill ctx scope loc ps r \<noteq> None"
proof (induction ps arbitrary: r)
  case (Cons p ps)
  show ?case
  proof (cases p)
    case (Expression e)
    have d: "apply_formatters ctx loc e (ex_formatters (expression_of e)) v t u \<noteq> None" for v t u
      by (rule apply_formatters_defined) (use Cons.prems Expression in simp)
    have "evaluate ctx scope loc e r \<noteq> None"
      using d by (auto simp: evaluate_def Let_def simp del: not_None_eq split: option.split)
    then obtain x r1 where "evaluate ctx scope loc e r = Some (x, r1)" by auto
    then show ?thesis using Cons.IH [of r1] Cons.prems Expression by simp
  qed (use Cons in simp_all)
qed simp

lemma substitute_defined:
  assumes "formats_defined ctx source"
  shows "substitute ctx scope source loc r \<noteq> None"
proof -
  have "piece_defined ctx p" if "p \<in> set (pieces source)" for p
    using assms that by (cases p) (fastforce simp: formats_defined_def specs_of_def)+
  then have "list_all (piece_defined ctx) (pieces source)" by (simp add: list_all_iff)
  then show ?thesis using fill_defined by (simp add: substitute_def)
qed

section \<open>One block\<close>

lemma bind_cells_texts:
  "bind_cells ctx scope loc i cells r = Some (cells', r') \<Longrightarrow>
   list_all (\<lambda>c. clean (ce_content c)) cells \<Longrightarrow> list_all (\<lambda>c. clean (ce_content c)) cells'"
  by (induction cells arbitrary: i r cells') (auto split: option.splits dest: substitute_clean)

lemma bind_content_texts:
  "bind_content ctx scope loc block r = Some (bound, r') \<Longrightarrow> leaf block \<Longrightarrow>
   leaf bound \<and> (list_all clean (block_texts block) \<longrightarrow> list_all clean (block_texts bound))"
  using bind_cells_texts [of ctx scope loc 0]
  by (cases block) (auto simp: list_all_iff dest: substitute_clean)

lemma bind_cells_defined:
  "list_all (\<lambda>c. formats_defined ctx (ce_content c)) cells \<Longrightarrow> bind_cells ctx scope loc i cells r \<noteq> None"
proof (induction cells arbitrary: i r)
  case (Cons c cells)
  obtain s r1 where "substitute ctx scope (ce_content c) (loc @ ''.cells['' @ dec_digits i @ '']'') r = Some (s, r1)"
    using substitute_defined Cons.prems by fastforce
  then show ?case using Cons.IH [of "i + 1" r1] Cons.prems by simp
qed simp

lemma bind_content_defined:
  "leaf block \<Longrightarrow> list_all (formats_defined ctx) (block_texts block) \<Longrightarrow>
   bind_content ctx scope loc block r \<noteq> None"
  using bind_cells_defined [of ctx _ scope loc 0 r] substitute_defined
  by (cases block) (auto simp: list_all_iff simp del: not_None_eq)

section \<open>Lists of blocks\<close>

text \<open>What binding adds to the output, and by how much the count of blocks grows.\<close>

definition grows :: "nat \<Rightarrow> (Block \<Rightarrow> bool) \<Rightarrow> Binder \<Rightarrow> Binder \<Rightarrow> bool" where
  "grows limit good b b' \<longleftrightarrow>
     (\<exists>new. bi_out b' = bi_out b @ new \<and> list_all good new \<and>
       bi_emitted b' = bi_emitted b + length new \<and> (new = [] \<or> bi_emitted b' \<le> limit))"

lemma grows_refl [simp]: "grows limit good b b"
  by (simp add: grows_def)

lemma grows_trans: "grows limit good a b \<Longrightarrow> grows limit good b c \<Longrightarrow> grows limit good a c"
proof -
  assume "grows limit good a b" "grows limit good b c"
  then obtain m n where
    "bi_out b = bi_out a @ m" "list_all good m" "bi_emitted b = bi_emitted a + length m"
    "m = [] \<or> bi_emitted b \<le> limit"
    "bi_out c = bi_out b @ n" "list_all good n" "bi_emitted c = bi_emitted b + length n"
    "n = [] \<or> bi_emitted c \<le> limit" by (auto simp: grows_def)
  then show ?thesis by (intro grows_def [THEN iffD2] exI [of _ "m @ n"]) auto
qed

lemma grows_notes [simp]:
  "grows limit good b (bind_note kind loc requested delivered detail b)"
  "grows limit good b (no_items loc path detail b)"
  "grows limit good b (bind_overflow options loc b)"
  by (simp_all add: grows_def bind_note_def no_items_def bind_overflow_def)

lemma bindLeaf_grows:
  assumes "bindLeaf ctx scope loc block b = Some b'" "leaf block" "bi_emitted b < limit"
    and "\<And>bound r. bind_content ctx scope loc block (bi_report b) = Some (bound, r) \<Longrightarrow> good bound"
  shows "grows limit good b b'"
  using assms by (auto simp: bindLeaf_def grows_def)

text \<open>
  A property of the source blocks that passes to the bodies of control blocks, and makes each
  bound leaf good.
\<close>

definition passes :: "FormatContext \<Rightarrow> (Block \<Rightarrow> bool) \<Rightarrow> (Block \<Rightarrow> bool) \<Rightarrow> bool" where
  "passes ctx source good \<longleftrightarrow>
     (\<forall>path single body. source (EachBlock path single body) \<longrightarrow> list_all source body) \<and>
     (\<forall>path negated single body. source (IfBlock path negated single body) \<longrightarrow> list_all source body) \<and>
     (\<forall>scope loc block r bound r'. leaf block \<longrightarrow> source block \<longrightarrow>
        bind_content ctx scope loc block r = Some (bound, r') \<longrightarrow> good bound)"

lemma bind_list_grows:
  "passes ctx source good \<Longrightarrow> list_all source blocks \<Longrightarrow>
   bind_list options ctx scope loc depth i blocks b = Some b' \<Longrightarrow> grows (bo_max_blocks options) good b b'"
  "passes ctx source good \<Longrightarrow> list_all source body \<Longrightarrow>
   bind_items options ctx scope loc depth body count index items b = Some b' \<Longrightarrow>
   grows (bo_max_blocks options) good b b'"
proof (induction options ctx scope loc depth i blocks b and options ctx scope loc depth body count index items b
    arbitrary: b' and b' rule: bind_list_bind_items.induct)
  case (2 options ctx scope loc depth i block blocks b)
  let ?here = "indexed loc i"
  show ?case
  proof (cases "bo_max_blocks options \<le> bi_emitted b")
    case True
    then show ?thesis using 2(6) by (simp add: Let_def) (metis grows_notes(3))
  next
    case False
    define first where "first = (case block of
           EachBlock path single body \<Rightarrow>
             (case resolve scope path of
                None \<Rightarrow> Some (no_items ?here path ''no such path in the model'' b)
              | Some JNull \<Rightarrow> Some (no_items ?here path ''no such path in the model'' b)
              | Some (JArray items) \<Rightarrow>
                  bind_items options ctx scope ?here depth body (length items) 0 items b
              | Some _ \<Rightarrow> Some (no_items ?here path ''the path is not an array'' b))
         | IfBlock path negated single body \<Rightarrow>
             if \<not> if_taken scope path negated then Some b
             else if depth + 1 > bo_max_depth options then
               Some (bind_note MalformedTemplate ?here ''nested groups'' ''stopped''
                       ''deeper than the configured limit'' b)
             else bind_list options ctx scope ?here (depth + 1) 0 body b
         | _ \<Rightarrow> bindLeaf ctx scope ?here block b)"
    obtain b1 where b1: "first = Some b1" "bind_list options ctx scope loc depth (i + 1) blocks b1 = Some b'"
      using 2(6) False unfolding bind_list.simps Let_def if_not_P [OF False] bind_eq_Some_conv first_def
      by blast
    have ok: "source block" "list_all source blocks" using 2(5) by simp_all
    have "grows (bo_max_blocks options) good b b1"
    proof (cases "leaf block")
      case True
      then have "bindLeaf ctx scope ?here block b = Some b1"
        using b1(1) by (cases block) (simp_all add: first_def)
      then show ?thesis
        using True ok(1) False 2(4) by (intro bindLeaf_grows) (simp_all add: passes_def, blast)
    next
      case False
      then consider (each) path single body where "block = EachBlock path single body"
        | (cond) path negated single body where "block = IfBlock path negated single body"
        by (cases block) auto
      then show ?thesis
      proof cases
        case each
        then have "list_all source body" using ok(1) 2(4) by (auto simp: passes_def)
        then show ?thesis
          using b1(1) each 2(1) [OF refl \<open>\<not> bo_max_blocks options \<le> bi_emitted b\<close> each _ refl 2(4)]
          by (auto simp: first_def split: option.splits Json.splits)
      next
        case cond
        then have "list_all source body" using ok(1) 2(4) by (auto simp: passes_def)
        then show ?thesis
          using b1(1) cond 2(2) [OF refl \<open>\<not> bo_max_blocks options \<le> bi_emitted b\<close> cond _ _ 2(4)]
          by (auto simp: first_def split: if_splits)
      qed
    qed
    moreover have "grows (bo_max_blocks options) good b1 b'"
      using 2(3) [OF refl False b1(1) [unfolded first_def] 2(4) ok(2) b1(2)] .
    ultimately show ?thesis by (rule grows_trans)
  qed
next
  case (4 options ctx scope loc depth body count index item items b)
  let ?here = "loc @ [CHR 0x7B] @ dec_digits index @ [CHR 0x7D]"
  define first where "first = (if depth + 1 > bo_max_depth options then
           Some (bind_note MalformedTemplate ?here ''nested groups'' ''stopped''
                   ''deeper than the configured limit'' b)
         else bind_list options ctx (\<lparr>fr_value = item, fr_index = int index, fr_count = count\<rparr> # scope)
                ?here (depth + 1) 0 body b)"
  obtain b1 where b1: "first = Some b1"
    "bind_items options ctx scope loc depth body count (index + 1) items b1 = Some b'"
    using 4(5) unfolding bind_items.simps Let_def bind_eq_Some_conv first_def by blast
  have "grows (bo_max_blocks options) good b b1"
    using b1(1) 4(1) [OF refl _ 4(3,4)] by (auto simp: first_def split: if_splits)
  moreover have "grows (bo_max_blocks options) good b1 b'"
    using 4(2) [OF refl b1(1) [unfolded first_def] 4(3,4) b1(2)] .
  ultimately show ?case by (rule grows_trans)
qed simp_all

lemma bind_list_defined:
  assumes "\<And>path single body. source (EachBlock path single body) \<Longrightarrow> list_all source body"
    and "\<And>path negated single body. source (IfBlock path negated single body) \<Longrightarrow> list_all source body"
    and "\<And>scope loc block r. leaf block \<Longrightarrow> source block \<Longrightarrow> bind_content ctx scope loc block r \<noteq> None"
  shows "list_all source blocks \<Longrightarrow> bind_list options ctx scope loc depth i blocks b \<noteq> None"
    "list_all source body \<Longrightarrow> bind_items options ctx scope loc depth body count index items b \<noteq> None"
  using assms(3)
proof (induction options ctx scope loc depth i blocks b and options ctx scope loc depth body count index items b
    rule: bind_list_bind_items.induct)
  case (2 options ctx scope loc depth i block blocks b)
  let ?here = "indexed loc i"
  show ?case
  proof (cases "bo_max_blocks options \<le> bi_emitted b")
    case False
    note tail = 2(3) [OF refl False _ _ 2(5)]
    have ok: "source block" "list_all source blocks" using 2(4) by simp_all
    show ?thesis
    proof (cases "leaf block")
      case True
      then have "bindLeaf ctx scope ?here block b \<noteq> None"
        using 2(5) ok(1) by (simp add: bindLeaf_def)
      then obtain b1 where "bindLeaf ctx scope ?here block b = Some b1" by auto
      then show ?thesis using tail [of b1] ok(2) False True by (cases block) (simp_all add: Let_def)
    next
      case inner: False
      then consider (each) path single body where "block = EachBlock path single body"
        | (cond) path negated single body where "block = IfBlock path negated single body"
        by (cases block) auto
      then show ?thesis
      proof cases
        case each
        then have "list_all source body" using ok(1) assms(1) by blast
        then show ?thesis
          using each 2(1) [OF refl False each _ refl _ 2(5)] tail ok(2) False
          by (auto simp: Let_def bind_eq_None_conv simp del: not_None_eq split: option.splits Json.splits)
      next
        case cond
        then have "list_all source body" using ok(1) assms(2) by blast
        then show ?thesis
          using cond 2(2) [OF refl False cond _ _ _ 2(5)] tail ok(2) False
          by (auto simp: Let_def bind_eq_None_conv simp del: not_None_eq split: if_splits)
      qed
    qed
  qed (simp add: Let_def)
next
  case (4 options ctx scope loc depth body count index item items b)
  then show ?case
    by (auto simp: Let_def bind_eq_None_conv simp del: not_None_eq)
qed simp_all

section \<open>Bound documents\<close>

definition binds :: "BindOptions \<Rightarrow> Document \<Rightarrow> FormatContext" where
  "binds options document = bind_context options (doc_meta document)"

lemma all_texts_body:
  "list_all P (block_texts (EachBlock path single body)) \<Longrightarrow> list_all (\<lambda>b. list_all P (block_texts b)) body"
  "list_all P (block_texts (IfBlock path negated single body)) \<Longrightarrow> list_all (\<lambda>b. list_all P (block_texts b)) body"
  by (auto simp: list_all_iff)

lemma bind_grows:
  assumes "bind document model options = Some (out, report)"
    and "passes (binds options document) source good" "list_all source (doc_blocks document)"
  shows "list_all good (doc_blocks out)" "length (doc_blocks out) \<le> bo_max_blocks options"
proof -
  obtain b where b: "bind_list options (binds options document) (root_scope model) ''blocks'' 0 0
      (doc_blocks document) new_binder = Some b" "doc_blocks out = bi_out b"
    using assms(1) by (auto simp: bind_def binds_def)
  have "grows (bo_max_blocks options) good new_binder b"
    by (rule bind_list_grows(1) [OF assms(2,3) b(1)])
  then show "list_all good (doc_blocks out)" "length (doc_blocks out) \<le> bo_max_blocks options"
    using b(2) by (auto simp: grows_def new_binder_def)
qed


text \<open>
  C37: if no text of the template contains a control byte other than line feed and tab, then no
  text of the bound document does, for every model: a value of the model cannot put a printer
  command into the receipt.
\<close>

theorem model_cannot_inject:
  assumes "list_all (\<lambda>b. list_all clean (block_texts b)) (doc_blocks document)"
    and "bind document model options = Some (out, report)"
  shows "\<forall>b \<in> set (doc_blocks out). \<forall>text \<in> set (block_texts b). \<forall>c \<in> set text. \<not> control c"
proof -
  have "passes (binds options document) (\<lambda>b. list_all clean (block_texts b)) (\<lambda>b. list_all clean (block_texts b))"
    unfolding passes_def using all_texts_body bind_content_texts by blast
  from bind_grows(1) [OF assms(2) this assms(1)] show ?thesis
    by (auto simp: list_all_iff clean_def)
qed

section \<open>A template and its binding\<close>

definition sample_options :: BindOptions where
  "sample_options =
     \<lparr>bo_tables = \<lparr>ft_locales = [], ft_currencies = []\<rparr>, bo_registrations = None, bo_locale = [], bo_currency = [], bo_tz = [],
      bo_max_blocks = 20000, bo_max_depth = 32,
      bo_platform = \<lparr>long_double = \<lambda>x. x, pow10 = \<lambda>_. Infinity\<rparr>\<rparr>"

definition sample_template :: Document where
  "sample_template =
     \<lparr>doc_version = 1, doc_is_template = True, doc_meta = no_meta, doc_styles = [],
      doc_blocks =
        [EachBlock ''items'' True
           [TextBlock ([CHR 0x7B, CHR 0x7B] @ ''name'' @ [CHR 0x7D, CHR 0x7D] @ ''!'') no_style],
         IfBlock ''note'' True True [TextBlock ''no note'' no_style]]\<rparr>"

definition sample_model :: Json where
  "sample_model = JObject [(''items'', JArray [JObject [(''name'', JString (''tea'' @ [CHR 0x1B]))],
     JObject [(''name'', JString ''cake'')]])]"

lemma sample_bound:
  "bind sample_template sample_model sample_options = Some
     (\<lparr>doc_version = 1, doc_is_template = False, doc_meta = no_meta, doc_styles = [],
       doc_blocks = [TextBlock ''tea!'' no_style, TextBlock ''cake!'' no_style, TextBlock ''no note'' no_style]\<rparr>, [])"
  by code_simp

lemma upper_defined:
  assumes "fc_registrations ctx = None"
  shows "applyFormatter value ''upper'' ctx \<noteq> None"
proof -
  have "before CHR '':'' ''upper'' = ''upper''" "trim ''upper'' = ''upper''" "lowered ''upper'' = ''upper''"
    by code_simp+
  then show ?thesis using assms by (simp add: applyFormatter_def builtin_formatter_def Let_def)
qed


theorem model_cannot_inject_witness:
  "\<exists>out report. bind sample_template sample_model sample_options = Some (out, report) \<and>
    (\<forall>b \<in> set (doc_blocks out). \<forall>text \<in> set (block_texts b). \<forall>c \<in> set text. \<not> control c)"
proof -
  have "list_all (\<lambda>b. list_all clean (block_texts b)) (doc_blocks sample_template)" by code_simp
  from model_cannot_inject [OF this sample_bound] show ?thesis using sample_bound by blast
qed

end
