(* ===== verification/Spec2Isabelle.thy ===== *)
theory Spec2Isabelle imports
  Device_Profiles
  Cash_Drawer
  Job_Store
  Job_Acknowledgement
  Driver_Runs
  Idle_Jobs
  Queue_Rules
  Drawer_Sequence
  Receipt_Text
  Receipt_Document_Rules
  Receipt_Barcode
  Receipt_Format_Rules
  Receipt_Bind_Rules
begin

text \<open>
  PrinterDriver drives receipt printers over ESC/POS and Star Line Mode and says, for every
  job, how much it really knows about the paper. This library models the C++ core of it,
  \<^verbatim>\<open>core/src\<close> and \<^verbatim>\<open>core/include/printerdriver\<close>, and proves what makes each part correct.

  The parts, from the bottom up.

  \<^item> \<^theory_text>\<open>PD_Prelude\<close>, \<^theory_text>\<open>PD_Types\<close>: machine widths, bytes and characters; the enumerations and
    records of \<^verbatim>\<open>types.hpp\<close> with the order on confidence levels (\<^verbatim>\<open>rank\<close>, \<^verbatim>\<open>raiseTo\<close>, \<^verbatim>\<open>clampTo\<close>).
  \<^item> \<^theory_text>\<open>Stream_Parser\<close>: the interface (a locale) both response parsers provide: a step that
    emits, asks for more or is empty, and the laws from which independence of the chunking
    of the stream and the account of every byte follow.
  \<^item> \<^theory_text>\<open>Code_Page\<close>, \<^theory_text>\<open>Escpos_Encoder\<close>: \<^verbatim>\<open>code_page.cpp\<close> and \<^verbatim>\<open>escpos_encoder.cpp\<close>: UTF-8 to code
    page 852, every command builder, raster banding and gray packing. A model printer that
    executes the bytes is the specification of the stateful encoder.
  \<^item> \<^theory_text>\<open>Response_Parser\<close>, \<^theory_text>\<open>Star\<close>: \<^verbatim>\<open>response_parser.cpp\<close> and \<^verbatim>\<open>star.cpp\<close>: the two backchannel
    parsers, the Star encoder and the transcoder from ESC/POS documents to Line Mode, which
    is proved to refine the paper actions of the document.
  \<^item> \<^theory_text>\<open>Line_Journal\<close>, \<^theory_text>\<open>Job_Store\<close>, \<^theory_text>\<open>Cash_Drawer\<close>: line files (a locale for records written as
    lines), the durable job journal of \<^verbatim>\<open>job_store.cpp\<close> with torn appends, recovery and
    compaction, and the drawer capabilities and polarity file of \<^verbatim>\<open>cash_drawer.cpp\<close>.
  \<^item> \<^theory_text>\<open>Capability_Profile\<close>, \<^theory_text>\<open>Device_Profiles\<close>: what a device can do, which engine drives it and
    how much that engine may claim; the whole device database of \<^verbatim>\<open>device_profiles.cpp\<close>.
  \<^item> \<^theory_text>\<open>Registrations\<close>: the five registries of \<^verbatim>\<open>registrations.cpp\<close>, instances of one locale.
  \<^item> \<^theory_text>\<open>Markers\<close>, \<^theory_text>\<open>Job_Payload\<close>, \<^theory_text>\<open>Backchannel\<close>, \<^theory_text>\<open>Engine\<close>, \<^theory_text>\<open>Job_Engine\<close>: \<^verbatim>\<open>driver.cpp\<close>: the
    completion tokens, the bytes of a job, the fence state the reader thread and the worker
    share, the operations of the worker, and \<^verbatim>\<open>runJob\<close> and \<^verbatim>\<open>runStarJob\<close> paragraph by paragraph.
  \<^item> \<^theory_text>\<open>Job_Protocol\<close>, \<^theory_text>\<open>Fences\<close>, \<^theory_text>\<open>Job_Guarantees\<close>, \<^theory_text>\<open>Job_Acknowledgement\<close>: the contract of a
    job as an automaton over its effects, the proof that each paragraph of the engine follows
    it, and what a caller may conclude: which bytes were sent, what was journaled first, which
    answer a confirmation rests on.
  \<^item> \<^theory_text>\<open>Submission\<close>: the printer and driver facade of \<^verbatim>\<open>driver.cpp\<close>: submit, reserve, submit
    reserved, force reprint, the worker's queue, stopping, the index of keys and tokens and
    its rebuild from the journal.
  \<^item> \<^theory_text>\<open>Job_Frame\<close>, \<^theory_text>\<open>Idempotency\<close>, \<^theory_text>\<open>Driver_Runs\<close>: what a job run leaves alone, the invariant of the
    driver's books, and the runs of a driver from an opened journal on: at most one live copy
    per key, across restarts as well.
  \<^item> \<^theory_text>\<open>Job_Notices\<close>, \<^theory_text>\<open>Idle_Jobs\<close>: each job's end is told once; operations on one job spare the
    others.
  \<^item> \<^theory_text>\<open>Drawer_Sequence\<close>: the verified opening of a cash drawer: reading the switch, one pulse, the
    watch on the switch, the verdict, calibration.
  \<^item> \<^theory_text>\<open>Print_Queue\<close>: the whole of \<^verbatim>\<open>print_queue.cpp\<close>: lanes, the inbox, hold and retry, expiry, the
    drain order and the loop of the queue thread.
  \<^item> \<^theory_text>\<open>Queue_Invariant\<close>, \<^theory_text>\<open>Queue_Rules\<close>: the invariant of the queue and its driver, and the rules
    over every run of them: an Unknown ends the lane, one job in flight, depth and order of
    lanes, expiry, the drain order, and that the thread wakes in time.
  \<^item> \<^theory_text>\<open>Receipt_Text\<close>, \<^theory_text>\<open>Receipt_Json\<close>, \<^theory_text>\<open>Receipt_Report\<close>, \<^theory_text>\<open>Receipt_Document\<close>: the receipt language of
    \<^verbatim>\<open>dsl/src\<close>: \<^verbatim>\<open>text.cpp\<close> (UTF-8, columns, wrapping), \<^verbatim>\<open>json.cpp\<close> (values, parser, serializer),
    \<^verbatim>\<open>report.cpp\<close> and \<^verbatim>\<open>document.cpp\<close> (blocks, styles, their JSON form, the resolution of styles).
  \<^item> \<^theory_text>\<open>Receipt_Json_Rules\<close>, \<^theory_text>\<open>Receipt_Document_Rules\<close>: the parsers end, and JSON texts and documents
    are read back from what is written.
  \<^item> \<^theory_text>\<open>Receipt_Barcode\<close>: \<^verbatim>\<open>barcode.cpp\<close>, with a reader of the code sets as its specification.
  \<^item> \<^theory_text>\<open>Receipt_Format\<close>, \<^theory_text>\<open>Receipt_Format_Rules\<close>: \<^verbatim>\<open>format.cpp\<close>: locales, numbers, money, dates and the
    formatters of a template; what the digits of a number denote, and that moving a date to
    another offset keeps the instant.
  \<^item> \<^theory_text>\<open>Receipt_Bind\<close>, \<^theory_text>\<open>Receipt_Bind_Rules\<close>: \<^verbatim>\<open>bind.cpp\<close>: a template and a model give a plain document;
    binding ends, stays within its limits, and a value of the model carries no control byte.

  How the code is rendered. A class is a record and its methods are functions that return the
  changed record. Bytes and the fixed-width integers are words of their width; sizes
  (\<^verbatim>\<open>size_t\<close>) are natural numbers, as no modelled quantity reaches their bound. An exception is
  the left value of a sum, or \<^theory_text>\<open>Raised\<close> in the engine, where an early \<^verbatim>\<open>return\<close> is \<^theory_text>\<open>Returned\<close>. The
  operating system is an argument: the outcome of each file step, and for the engine one turn
  per connect, write and wait (what the transport accepted and what arrived meanwhile) and one
  disk outcome per journal append. What the engine does that others can observe is a log of
  effects in order. The loops of the core have a termination proof; \<^verbatim>\<open>acquire\<close> carries the loop
  bound of the source.

  In the receipt language a \<^verbatim>\<open>double\<close> is the rational it denotes, and each conversion rounds as
  IEEE 754 does; a cast of a number no \<^verbatim>\<open>long long\<close> holds is undefined and is an error of its
  own, \<^theory_text>\<open>UndefinedCast\<close>. In \<^theory_text>\<open>Receipt_Format\<close> infinities and not-a-number are values too, and the
  rounding of \<^verbatim>\<open>long double\<close> and \<^verbatim>\<open>std::pow\<close>, which differ between platforms, are arguments; there
  \<^theory_text>\<open>None\<close> is an undefined conversion or an overflowing \<^verbatim>\<open>int\<close>. \<^theory_text>\<open>None\<close> is an exception of \<^verbatim>\<open>substr\<close> in wrapping, and a loop that never ends
  in \<^verbatim>\<open>repeat\<close>. The JSON parser carries fuel of twice the length of the text and two, which
  \<^theory_text>\<open>json_parser_ends\<close> proves enough: each level spends two units and one character. The parser
  of blocks carries the 33 levels its depth limit admits. Warnings are a list threaded through
  the parser of documents.

  Threads. The reader thread runs only inside a turn, so the model orders its work at the
  points where the worker waits or writes. The mutexes of the source make each of its sections
  atomic; deliveries between two operations of the worker that touch no shared state commute
  with them. A call of the driver or the queue is one step; calls of several threads are
  sequences of such steps, and the loop of the queue thread is modelled section by section of
  its mutex, so that a caller's step may come between. The clock is an argument in
  milliseconds. Lanes are visited in the order they were made, where the source takes the order
  of its hash table. Delivery of events to subscribers is not modelled.

  Not modelled: the capability probe, identity matching and the ePOS client;
  transports, discovery and platform files, which are calls into the operating system; the
  rendering of bound documents into printer commands (\<^verbatim>\<open>render.cpp\<close>, \<^verbatim>\<open>pipeline.cpp\<close>), the agent,
  the C interface, the wrappers, tools, examples and tests.
\<close>

end
